(* ===== verification/Prelude.thy ===== *)
theory Prelude
  imports Main "HOL-Library.Signed_Division" "HOL-Library.AList" "HOL-Library.Word"
    "HOL-Library.List_Lexorder" "HOL-Library.Char_ord"
begin

text \<open>
  Shared vocabulary of the development: results with error values, BigInt division, JavaScript
  maps as association lists in insertion order, byte strings, and the generic lemmas the
  component theories use.  Collections: \<open>result_simps\<close> (unfolding of the error monad),
  \<open>rounding\<close> (bounds of the division helpers).
\<close>

named_theorems result_simps "unfolding of results with errors"
named_theorems rounding "bounds of rounded divisions"

section \<open>Results\<close>

text \<open>
  A function of the program that may throw returns \<open>'e + 'a\<close>: \<open>Inl\<close> is the thrown value,
  \<open>Inr\<close> the returned one.  \<open>sbind\<close> is sequencing: a throw skips the rest.
\<close>

primrec sbind :: "'e + 'a \<Rightarrow> ('a \<Rightarrow> 'e + 'b) \<Rightarrow> 'e + 'b" where
  "sbind (Inl e) f = Inl e"
| "sbind (Inr a) f = f a"

lemma sbind_eq_Inr_iff [result_simps]:
  "sbind m f = Inr b \<longleftrightarrow> (\<exists>a. m = Inr a \<and> f a = Inr b)"
  by (cases m) auto

lemma sbind_eq_Inl_iff [result_simps]:
  "sbind m f = Inl e \<longleftrightarrow> m = Inl e \<or> (\<exists>a. m = Inr a \<and> f a = Inl e)"
  by (cases m) auto

text \<open>The value of a successful result; an error has no value.\<close>

definition result_opt :: "'e + 'a \<Rightarrow> 'a option" where
  "result_opt r = (case r of Inl _ \<Rightarrow> None | Inr a \<Rightarrow> Some a)"

lemma result_opt_simps [simp]:
  "result_opt (Inl e) = None" "result_opt (Inr a) = Some a"
  by (simp_all add: result_opt_def)

lemma result_opt_sbind: "result_opt (sbind m f) = Option.bind (result_opt m) (\<lambda>a. result_opt (f a))"
  by (cases m) auto

text \<open>Mapping a throwing function over a list: the first throw wins, as in \<open>Array.map\<close>.\<close>

fun smap :: "('a \<Rightarrow> 'e + 'b) \<Rightarrow> 'a list \<Rightarrow> 'e + 'b list" where
  "smap f [] = Inr []"
| "smap f (x # xs) = sbind (f x) (\<lambda>y. sbind (smap f xs) (\<lambda>ys. Inr (y # ys)))"

lemma smap_Inr_length: "smap f xs = Inr ys \<Longrightarrow> length ys = length xs"
  by (induction xs arbitrary: ys) (auto simp: result_simps)

lemma smap_Inr_nth: "smap f xs = Inr ys \<Longrightarrow> i < length xs \<Longrightarrow> f (xs ! i) = Inr (ys ! i)"
proof (induction xs arbitrary: ys i)
  case Nil
  then show ?case by simp
next
  case (Cons x xs)
  then show ?case by (cases i) (auto simp: result_simps)
qed

lemma smap_all_Inr: "(\<And>x. x \<in> set xs \<Longrightarrow> f x = Inr (g x)) \<Longrightarrow> smap f xs = Inr (map g xs)"
  by (induction xs) auto

text \<open>The checks of the programs: \<open>require!\<close> and an account that must exist.\<close>

definition require :: "bool \<Rightarrow> string \<Rightarrow> string + unit" where
  "require b err = (if b then Inr () else Inl err)"

definition some_or :: "'a option \<Rightarrow> string \<Rightarrow> string + 'a" where
  "some_or x err = (case x of None \<Rightarrow> Inl err | Some a \<Rightarrow> Inr a)"

lemma require_eq_Inr [result_simps]: "require b e = Inr u \<longleftrightarrow> b"
  by (simp add: require_def)

lemma some_or_eq_Inr [result_simps]: "some_or x e = Inr a \<longleftrightarrow> x = Some a"
  by (simp add: some_or_def split: option.splits)

section \<open>BigInt arithmetic\<close>

text \<open>
  JavaScript's BigInt \<open>/\<close> and \<open>%\<close> truncate towards zero: \<open>sdiv\<close> and \<open>smod\<close> on \<open>int\<close>.
  Division by \<open>0n\<close> throws; every use below says why it cannot happen or models the throw.
\<close>

lemma sdiv_nonneg_eq_div [simp]: "0 \<le> a \<Longrightarrow> 0 \<le> b \<Longrightarrow> (a::int) sdiv b = a div b"
  by (auto simp: signed_divide_int_def sgn_if)

lemma smod_nonneg_eq_mod [simp]: "0 \<le> a \<Longrightarrow> 0 \<le> b \<Longrightarrow> (a::int) smod b = a mod b"
  by (cases "a = 0") (auto simp: signed_modulo_int_def signed_divide_int_def sgn_if minus_div_mult_eq_mod)

text \<open>Rounding up, for a positive divisor.\<close>

definition cdiv :: "int \<Rightarrow> int \<Rightarrow> int" where
  "cdiv n d = n div d + (if n mod d = 0 then 0 else 1)"

lemma cdiv_le_iff [rounding]: "0 < d \<Longrightarrow> cdiv n d \<le> k \<longleftrightarrow> n \<le> k * d"
proof -
  assume d: "0 < d"
  have n: "n = n div d * d + n mod d" by simp
  have m: "0 \<le> n mod d" "n mod d < d" using d by auto
  show ?thesis
  proof (cases "n mod d = 0")
    case True
    then have "n = n div d * d" using n by simp
    then show ?thesis using d True unfolding cdiv_def
      by (metis add.right_neutral mult_le_cancel_right not_less order.asym)
  next
    case False
    have "n div d + 1 \<le> k \<longleftrightarrow> n \<le> k * d"
    proof
      assume "n div d + 1 \<le> k"
      then have "(n div d + 1) * d \<le> k * d" using d by (intro mult_right_mono) auto
      moreover have "(n div d + 1) * d = n div d * d + d" by (simp add: distrib_right)
      ultimately show "n \<le> k * d" using n m by linarith
    next
      assume "n \<le> k * d"
      then have "n div d * d < k * d" using n m False by linarith
      then have "n div d < k" using d by (simp add: mult_less_cancel_right_pos)
      then show "n div d + 1 \<le> k" by simp
    qed
    then show ?thesis using False by (simp add: cdiv_def)
  qed
qed

lemma div_ge_iff [rounding]: "0 < d \<Longrightarrow> k \<le> n div d \<longleftrightarrow> k * d \<le> (n::int)"
proof
  assume d: "0 < d"
  { assume "k \<le> n div d"
    then have "k * d \<le> n div d * d" using d by (intro mult_right_mono) auto
    also have "\<dots> \<le> n" using d by (simp add: div_mult2_eq minus_mod_eq_div_mult [symmetric])
    finally show "k * d \<le> n" . }
  { assume "k * d \<le> n"
    then have "k * d div d \<le> n div d" using d by (intro zdiv_mono1) auto
    then show "k \<le> n div d" using d by simp }
qed

lemma cdiv_mono: "0 < d \<Longrightarrow> m \<le> n \<Longrightarrow> cdiv m d \<le> cdiv n d"
  using cdiv_le_iff [of d m "cdiv n d"] cdiv_le_iff [of d n "cdiv n d"] by simp

lemma cdiv_upper: "0 < d \<Longrightarrow> n \<le> cdiv n d * d"
  using cdiv_le_iff [of d n "cdiv n d"] by simp

lemma cdiv_nonneg: "0 < d \<Longrightarrow> 0 \<le> n \<Longrightarrow> 0 \<le> cdiv n d"
  by (simp add: cdiv_def pos_imp_zdiv_nonneg_iff)

lemma div_le_cdiv: "n div d \<le> cdiv n d"
  by (simp add: cdiv_def)

lemma cdiv_le_div_Suc: "cdiv n d \<le> n div d + 1"
  by (simp add: cdiv_def)

text \<open>\<open>BigInt\<close> and unsigned 64-bit range.\<close>

definition u64_max :: int where
  "u64_max = 2 ^ 64 - 1"

definition in_u64 :: "int \<Rightarrow> bool" where
  "in_u64 v \<longleftrightarrow> 0 \<le> v \<and> v \<le> u64_max"

section \<open>Bytes\<close>

type_synonym byte = "8 word"
type_synonym bytes = "byte list"

text \<open>Little-endian encoding of the low \<open>n\<close> bytes of a non-negative integer.\<close>

fun le_bytes :: "nat \<Rightarrow> int \<Rightarrow> bytes" where
  "le_bytes 0 v = []"
| "le_bytes (Suc n) v = word_of_int (v mod 256) # le_bytes n (v div 256)"

fun le_value :: "bytes \<Rightarrow> int" where
  "le_value [] = 0"
| "le_value (b # bs) = uint b + 256 * le_value bs"

lemma length_le_bytes [simp]: "length (le_bytes n v) = n"
  by (induction n arbitrary: v) auto

lemma uint_byte_mod [simp]: "uint (word_of_int (v mod 256) :: byte) = v mod 256"
  by (simp add: uint_word_of_int)

lemma le_value_le_bytes: "0 \<le> v \<Longrightarrow> v < 256 ^ n \<Longrightarrow> le_value (le_bytes n v) = v"
proof (induction n arbitrary: v)
  case 0
  then show ?case by simp
next
  case (Suc n)
  have "v < 256 ^ n * 256" using Suc.prems by (simp add: mult.commute)
  then have "v div 256 < 256 ^ n" using div_ge_iff [of 256 "256 ^ n" v] by linarith
  moreover have "0 \<le> v div 256" using Suc.prems by (simp add: pos_imp_zdiv_nonneg_iff)
  ultimately have "le_value (le_bytes n (v div 256)) = v div 256" by (intro Suc.IH) auto
  then show ?case by simp
qed

lemma le_bytes_inj:
  assumes "0 \<le> v" "v < 256 ^ n" "0 \<le> w" "w < 256 ^ n" "le_bytes n v = le_bytes n w"
  shows "v = w"
proof -
  have "v = le_value (le_bytes n v)" using assms by (intro le_value_le_bytes [symmetric])
  also have "\<dots> = le_value (le_bytes n w)" by (simp only: assms(5))
  also have "\<dots> = w" using assms by (intro le_value_le_bytes)
  finally show ?thesis .
qed

section \<open>JavaScript maps\<close>

text \<open>
  A \<open>Map\<close> iterates in insertion order and \<open>set\<close> on a present key keeps its position:
  an association list with \<^const>\<open>AList.update\<close>, read with \<^const>\<open>map_of\<close>.
\<close>

type_synonym ('k, 'v) jsmap = "('k \<times> 'v) list"

abbreviation jsmap_wf :: "('k, 'v) jsmap \<Rightarrow> bool" where
  "jsmap_wf m \<equiv> distinct (map fst m)"

lemma jsmap_wf_update: "jsmap_wf m \<Longrightarrow> jsmap_wf (AList.update k v m)"
  by (rule distinct_update)

lemma map_fst_update:
  "map fst (AList.update k v m) = (if k \<in> fst ` set m then map fst m else map fst m @ [k])"
  by (induction m) auto

lemma update_fresh: "k \<notin> fst ` set m \<Longrightarrow> AList.update k v m = m @ [(k, v)]"
  by (induction m) auto

lemma sum_list_update_some:
  assumes "map_of m k = Some w"
  shows "sum_list (map (f \<circ> snd) (AList.update k v m)) = sum_list (map (f \<circ> snd) m) - f w + (f v :: int)"
  using assms by (induction m) (auto split: if_splits)

lemma sum_list_map_filter_le:
  "(\<And>x. x \<in> set xs \<Longrightarrow> 0 \<le> f x) \<Longrightarrow> sum_list (map f (filter P xs)) \<le> sum_list (map (f :: 'a \<Rightarrow> int) xs)"
proof (induction xs)
  case (Cons x xs)
  have "0 \<le> f x" using Cons.prems by simp
  moreover have "sum_list (map f (filter P xs)) \<le> sum_list (map f xs)"
    using Cons.prems by (intro Cons.IH) simp
  ultimately show ?case by simp
qed simp

lemma sum_list_partition:
  "sum_list (map f (filter P xs)) + sum_list (map f (filter (\<lambda>x. \<not> P x) xs)) = sum_list (map (f :: 'a \<Rightarrow> int) xs)"
  by (induction xs) auto

lemma sum_list_nonneg_map: "(\<And>x. x \<in> set xs \<Longrightarrow> 0 \<le> f x) \<Longrightarrow> (0::int) \<le> sum_list (map f xs)"
  by (induction xs) auto

lemma member_le_sum_list_map:
  "x \<in> set xs \<Longrightarrow> (\<And>y. y \<in> set xs \<Longrightarrow> 0 \<le> f y) \<Longrightarrow> f x \<le> sum_list (map (f :: 'a \<Rightarrow> int) xs)"
proof (induction xs)
  case (Cons a xs)
  have "0 \<le> sum_list (map f xs)" using Cons.prems by (intro sum_list_nonneg_map) auto
  moreover have "0 \<le> f a" using Cons.prems by auto
  ultimately show ?case using Cons by fastforce
qed simp

text \<open>A list in slices of \<open>n\<close>.\<close>

function chunks :: "nat \<Rightarrow> 'a list \<Rightarrow> 'a list list" where
  "chunks n xs = (if xs = [] \<or> n = 0 then [] else take n xs # chunks n (drop n xs))"
  by pat_completeness auto
termination by (relation "measure (\<lambda>(n, xs). length xs)") auto

declare chunks.simps [simp del]

lemma concat_chunks: "0 < n \<Longrightarrow> concat (chunks n xs) = xs"
  by (induction n xs rule: chunks.induct) (subst chunks.simps, simp)

section \<open>Ledgers\<close>

text \<open>A list of payments; a ledger with one payment per key is determined by its positive sum.\<close>

definition ledger_sum :: "('k \<times> int) list \<Rightarrow> int" where
  "ledger_sum xs = sum_list (map snd xs)"

definition positive :: "('k \<times> int) list \<Rightarrow> bool" where
  "positive xs \<longleftrightarrow> (\<forall>p \<in> set xs. 0 < snd p)"

lemma ledger_sum_simps [simp]:
  "ledger_sum [] = 0" "ledger_sum (x # xs) = snd x + ledger_sum xs" "ledger_sum (xs @ ys) = ledger_sum xs + ledger_sum ys"
  by (simp_all add: ledger_sum_def)

lemma positive_append [simp]: "positive (xs @ ys) \<longleftrightarrow> positive xs \<and> positive ys"
  by (auto simp: positive_def)

lemma ledger_sum_nonneg: "positive xs \<Longrightarrow> 0 \<le> ledger_sum xs"
  unfolding positive_def ledger_sum_def by (intro sum_list_nonneg_map) auto

lemma ledger_sum_set: "distinct xs \<Longrightarrow> ledger_sum xs = (\<Sum>p \<in> set xs. snd p)"
  by (induction xs) simp_all

lemma sub_ledger:
  assumes "distinct (map fst xs)" "distinct (map fst ys)" "set ys \<subseteq> set xs" "positive xs"
  shows "ledger_sum ys \<le> ledger_sum xs" and "ledger_sum ys = ledger_sum xs \<Longrightarrow> set ys = set xs"
proof -
  have d: "distinct xs" "distinct ys" using assms(1,2) by (simp_all add: distinct_map)
  have split: "ledger_sum xs = (\<Sum>p \<in> set xs - set ys. snd p) + ledger_sum ys"
    using d assms(3) by (simp add: ledger_sum_set sum.subset_diff)
  have pos: "0 < snd p" if "p \<in> set xs - set ys" for p using assms(4) that by (simp add: positive_def)
  have "0 \<le> (\<Sum>p \<in> set xs - set ys. snd p)" using pos by (intro sum_nonneg) (simp add: order.strict_implies_order)
  then show "ledger_sum ys \<le> ledger_sum xs" using split by simp
  assume eq: "ledger_sum ys = ledger_sum xs"
  show "set ys = set xs"
  proof (rule ccontr)
    assume "set ys \<noteq> set xs"
    then have "set xs - set ys \<noteq> {}" using assms(3) by blast
    then have "0 < (\<Sum>p \<in> set xs - set ys. snd p)" using pos by (intro sum_pos) simp_all
    then show False using split eq by simp
  qed
qed

end
