(* ===== verification/Pricing.thy ===== *)
theory Pricing
  imports Prelude
begin

text \<open>
  The Peg Desk pricing mathematics of \<open>packages/sdk/src/pricing.ts\<close>: spreads, ask and bid,
  the conversions between USDC and COIN base units, the reserve ratio, oracle scaling and the
  client-side quotes.  BigInts are \<open>int\<close> (unbounded, signed); the \<open>number\<close> arguments that hold
  integers (decimals, exponents, enum values) are \<open>int\<close> too; a thrown \<open>PricingError\<close> is an
  \<open>Inl\<close>, with one constructor for each message of the source.
\<close>

section \<open>Constants and data\<close>

definition PRICE_EXPO :: nat where "PRICE_EXPO = 8"
definition PRICE_SCALE :: int where "PRICE_SCALE = 10 ^ PRICE_EXPO"
definition BPS_DENOM :: int where "BPS_DENOM = 10000"
definition MAX_SPREAD_BPS :: int where "MAX_SPREAD_BPS = 5000"
definition U64_MAX :: int where "U64_MAX = push_bit 64 1 - 1"
definition COIN_DECIMALS :: int where "COIN_DECIMALS = 6"
definition USDC_DECIMALS :: int where "USDC_DECIMALS = 6"

lemmas pricing_consts =
  PRICE_EXPO_def PRICE_SCALE_def BPS_DENOM_def MAX_SPREAD_BPS_def COIN_DECIMALS_def USDC_DECIMALS_def

lemma U64_MAX_eq: "U64_MAX = u64_max"
  by (simp add: U64_MAX_def u64_max_def)

text \<open>The enums \<open>QuoteScale\<close> and \<open>Status\<close>, by their discriminants.\<close>

definition QuoteScale_Usd :: int where "QuoteScale_Usd = 0"
definition QuoteScale_UsCents :: int where "QuoteScale_UsCents = 1"
definition QuoteScale_Eur :: int where "QuoteScale_Eur = 2"
definition Status_Open :: int where "Status_Open = 0"
definition Status_Closed :: int where "Status_Closed = 1"
definition Status_Halted :: int where "Status_Halted = 2"

lemmas enum_consts =
  QuoteScale_Usd_def QuoteScale_UsCents_def QuoteScale_Eur_def
  Status_Open_def Status_Closed_def Status_Halted_def

datatype pricing_error =
    Bad_exponent int
  | Not_in_u64 string
  | Division_by_zero
  | Must_be_positive string
  | Must_be_nonneg string
  | Bad_expo int
  | Fx_zero
  | Unknown_quote_scale int
  | Bad_weights

record CommodityPricingParams =
  baseSpreadBps :: int
  closedSpreadBps :: int
  confMultBps :: int
  coinDecimals :: int
  usdcDecimals :: int
  reserveWarnBps :: int
  reserveHaltBps :: int

section \<open>Helpers\<close>

definition pow10 :: "int \<Rightarrow> pricing_error + int" where
  "pow10 n = (if n < 0 then Inl (Bad_exponent n) else Inr (10 ^ nat n))"

definition toU64 :: "int \<Rightarrow> string \<Rightarrow> pricing_error + int" where
  "toU64 v what = (if v < 0 \<or> v > U64_MAX then Inl (Not_in_u64 what) else Inr v)"

definition ceilDiv :: "int \<Rightarrow> int \<Rightarrow> pricing_error + int" where
  "ceilDiv n d =
     (if d = 0 then Inl Division_by_zero
      else Inr (n sdiv d + (if n smod d = 0 then 0 else 1)))"

definition decRatio :: "int \<Rightarrow> int \<Rightarrow> pricing_error + (int \<times> int)" where
  "decRatio cd ud =
     (if ud \<ge> cd then sbind (pow10 (ud - cd)) (\<lambda>p. Inr (p, 1))
      else sbind (pow10 (cd - ud)) (\<lambda>p. Inr (1, p)))"

section \<open>Spread\<close>

definition agePenaltyBps :: "int \<Rightarrow> int \<Rightarrow> int \<Rightarrow> pricing_error + int" where
  "agePenaltyBps age maxAge base =
     (let half = maxAge sdiv 2 in
      if \<not> (age > half \<and> maxAge > half) then Inr 0
      else let over = (if age < maxAge then age else maxAge) - half;
               window = maxAge - half
           in ceilDiv (base * over) window)"

definition confSpreadBps :: "int \<Rightarrow> int \<Rightarrow> int \<Rightarrow> pricing_error + int" where
  "confSpreadBps conf price confMult =
     (if price \<le> 0 then Inr MAX_SPREAD_BPS else ceilDiv (confMult * conf * 100) price)"

definition confBps :: "int \<Rightarrow> int \<Rightarrow> pricing_error + int" where
  "confBps conf price =
     (if price \<le> 0 then Inl (Must_be_positive ''confBps: price'')
      else sbind (ceilDiv (conf * BPS_DENOM) price) (\<lambda>v. toU64 v ''confBps''))"

record spread_args =
  sa_base :: int
  sa_closed :: int
  sa_confMult :: int
  sa_conf :: int
  sa_price :: int
  sa_age :: int
  sa_maxAge :: int
  sa_status :: int
  sa_reserveRatioBps :: "int option"
  sa_warnBps :: int

definition effectiveSpreadBps :: "spread_args \<Rightarrow> pricing_error + int" where
  "effectiveSpreadBps a =
     (if sa_price a = 0 then Inr MAX_SPREAD_BPS
      else let s0 = (if sa_status a = Status_Closed then sa_closed a else sa_base a) in
        sbind (confSpreadBps (sa_conf a) (sa_price a) (sa_confMult a)) (\<lambda>cs.
        sbind (agePenaltyBps (sa_age a) (sa_maxAge a) (sa_base a)) (\<lambda>ap.
          let s1 = s0 + cs + ap;
              s2 = (case sa_reserveRatioBps a of
                      None \<Rightarrow> s1
                    | Some r \<Rightarrow> (if r < sa_warnBps a then s1 * 2 else s1))
          in Inr (if s2 < MAX_SPREAD_BPS then s2 else MAX_SPREAD_BPS))))"

text \<open>
  \<open>SpreadInputs.reserveRatioBps\<close> has three forms: absent (\<open>None\<close>), \<open>null\<close> (\<open>Some None\<close>) and a
  value (\<open>Some (Some r)\<close>); an absent \<open>reserveWarn\<close> is falsy.
\<close>

record SpreadInputs =
  si_status :: int
  si_conf :: int
  si_price :: int
  si_ageSec :: int
  si_maxAgeSec :: int
  si_params :: CommodityPricingParams
  si_reserveRatioBps :: "int option option"
  si_reserveWarn :: bool

definition spreadBps :: "SpreadInputs \<Rightarrow> pricing_error + int" where
  "spreadBps i =
     (let ratio = (case si_reserveRatioBps i of
                     Some r \<Rightarrow> r
                   | None \<Rightarrow> (if si_reserveWarn i then Some 0 else None));
          p = si_params i
      in effectiveSpreadBps
           \<lparr>sa_base = baseSpreadBps p, sa_closed = closedSpreadBps p, sa_confMult = confMultBps p,
            sa_conf = si_conf i, sa_price = si_price i, sa_age = si_ageSec i,
            sa_maxAge = si_maxAgeSec i, sa_status = si_status i,
            sa_reserveRatioBps = ratio, sa_warnBps = reserveWarnBps p\<rparr>)"

section \<open>Prices and conversions\<close>

definition askPrice :: "int \<Rightarrow> int \<Rightarrow> pricing_error + int" where
  "askPrice price spread =
     sbind (ceilDiv (price * (BPS_DENOM + spread)) BPS_DENOM) (\<lambda>v. toU64 v ''askPrice'')"

definition bidPrice :: "int \<Rightarrow> int \<Rightarrow> pricing_error + int" where
  "bidPrice price spread =
     (let keep = (if BPS_DENOM > spread then BPS_DENOM - spread else 0)
      in toU64 ((price * keep) sdiv BPS_DENOM) ''bidPrice'')"

definition coinOutForUsdcIn :: "int \<Rightarrow> int \<Rightarrow> int \<Rightarrow> int \<Rightarrow> pricing_error + int" where
  "coinOutForUsdcIn usdcIn ask cd ud =
     (if ask \<le> 0 then Inl (Must_be_positive ''coinOutForUsdcIn: ask'')
      else if usdcIn < 0 then Inl (Must_be_nonneg ''coinOutForUsdcIn: usdcIn'')
      else sbind (decRatio cd ud) (\<lambda>(num, den).
             toU64 ((usdcIn * PRICE_SCALE * den) sdiv (ask * num)) ''coinOutForUsdcIn''))"

definition usdcOutForCoinIn :: "int \<Rightarrow> int \<Rightarrow> int \<Rightarrow> int \<Rightarrow> pricing_error + int" where
  "usdcOutForCoinIn coinIn bid cd ud =
     (if coinIn < 0 then Inl (Must_be_nonneg ''usdcOutForCoinIn: coinIn'')
      else if bid < 0 then Inl (Must_be_nonneg ''usdcOutForCoinIn: bid'')
      else sbind (decRatio cd ud) (\<lambda>(num, den).
             toU64 ((coinIn * bid * num) sdiv (PRICE_SCALE * den)) ''usdcOutForCoinIn''))"

definition maxUsdcInForCoinOut :: "int \<Rightarrow> int \<Rightarrow> int \<Rightarrow> int \<Rightarrow> pricing_error + int" where
  "maxUsdcInForCoinOut coinOut ask cd ud =
     (if ask < 0 then Inl (Must_be_nonneg ''maxUsdcInForCoinOut: ask'')
      else if coinOut < 0 then Inl (Must_be_nonneg ''maxUsdcInForCoinOut: coinOut'')
      else sbind (decRatio cd ud) (\<lambda>(num, den).
           sbind (ceilDiv (coinOut * ask * num) (PRICE_SCALE * den)) (\<lambda>v.
             toU64 v ''maxUsdcInForCoinOut'')))"

definition reserveRatioBps :: "int \<Rightarrow> int \<Rightarrow> int \<Rightarrow> int \<Rightarrow> int \<Rightarrow> pricing_error + int option" where
  "reserveRatioBps reserveBalance supply price cd ud =
     (if supply = 0 \<or> price = 0 then Inr None
      else sbind (decRatio cd ud) (\<lambda>(num, den).
             let r = (reserveBalance * BPS_DENOM * PRICE_SCALE * den) sdiv (supply * price * num)
             in Inr (Some (if r > U64_MAX then U64_MAX else r))))"

section \<open>Oracle values\<close>

definition normalizeTo1e8 :: "int \<Rightarrow> int \<Rightarrow> pricing_error + int" where
  "normalizeTo1e8 value expo =
     (let shift = expo + 8 in
      if shift < -30 \<or> shift > 30 then Inl (Bad_expo expo)
      else if shift \<ge> 0 then sbind (pow10 shift) (\<lambda>p. toU64 (value * p) ''normalizeTo1e8'')
      else sbind (pow10 (- shift)) (\<lambda>p. Inr (value sdiv p)))"

definition scaleQuote :: "int \<Rightarrow> int \<Rightarrow> int \<Rightarrow> int \<Rightarrow> int \<Rightarrow> pricing_error + int" where
  "scaleQuote rawPrice rawExpo quoteScale fxPrice fxExpo =
     sbind (normalizeTo1e8 rawPrice rawExpo) (\<lambda>p.
       if quoteScale = QuoteScale_Usd then Inr p
       else if quoteScale = QuoteScale_UsCents then Inr (p sdiv 100)
       else if quoteScale = QuoteScale_Eur then
         sbind (normalizeTo1e8 fxPrice fxExpo) (\<lambda>fx.
           if fx = 0 then Inl Fx_zero else toU64 ((p * fx) sdiv PRICE_SCALE) ''scaleQuote'')
       else Inl (Unknown_quote_scale quoteScale))"

text \<open>The loop of \<open>weightedSum\<close>, with its two accumulators.\<close>

fun weightedSum_loop :: "(int \<times> int) list \<Rightarrow> int \<Rightarrow> int \<Rightarrow> int \<times> int" where
  "weightedSum_loop [] wsum acc = (wsum, acc)"
| "weightedSum_loop ((v, w) # legs) wsum acc = weightedSum_loop legs (wsum + w) (acc + v * w)"

definition weightedSum :: "(int \<times> int) list \<Rightarrow> pricing_error + int" where
  "weightedSum legs =
     (let (wsum, acc) = weightedSum_loop legs 0 0 in
      if wsum \<noteq> BPS_DENOM then Inl Bad_weights
      else toU64 (acc sdiv BPS_DENOM) ''weightedSum'')"

section \<open>Quotes\<close>

record QuoteBuyResult =
  qb_spreadBps :: int
  qb_ask :: int
  qb_coinOut :: int

record QuoteSellResult =
  qs_spreadBps :: int
  qs_bid :: int
  qs_usdcOut :: int

record QuoteBuyExactOutResult =
  qx_spreadBps :: int
  qx_ask :: int
  qx_maxUsdcIn :: int

definition quoteBuy :: "int \<Rightarrow> SpreadInputs \<Rightarrow> pricing_error + QuoteBuyResult" where
  "quoteBuy usdcIn sp =
     sbind (spreadBps sp) (\<lambda>s.
     sbind (askPrice (si_price sp) s) (\<lambda>ask.
     sbind (coinOutForUsdcIn usdcIn ask (coinDecimals (si_params sp)) (usdcDecimals (si_params sp))) (\<lambda>c.
       Inr \<lparr>qb_spreadBps = s, qb_ask = ask, qb_coinOut = c\<rparr>)))"

definition quoteBuyExactOut :: "int \<Rightarrow> SpreadInputs \<Rightarrow> pricing_error + QuoteBuyExactOutResult" where
  "quoteBuyExactOut coinOut sp =
     sbind (spreadBps sp) (\<lambda>s.
     sbind (askPrice (si_price sp) s) (\<lambda>ask.
     sbind (maxUsdcInForCoinOut coinOut ask (coinDecimals (si_params sp)) (usdcDecimals (si_params sp))) (\<lambda>u.
       Inr \<lparr>qx_spreadBps = s, qx_ask = ask, qx_maxUsdcIn = u\<rparr>)))"

definition quoteSell :: "int \<Rightarrow> SpreadInputs \<Rightarrow> pricing_error + QuoteSellResult" where
  "quoteSell coinIn sp =
     sbind (spreadBps sp) (\<lambda>s.
     sbind (bidPrice (si_price sp) s) (\<lambda>bid.
     sbind (usdcOutForCoinIn coinIn bid (coinDecimals (si_params sp)) (usdcDecimals (si_params sp))) (\<lambda>u.
       Inr \<lparr>qs_spreadBps = s, qs_bid = bid, qs_usdcOut = u\<rparr>)))"

definition applySlippageDown :: "int \<Rightarrow> int \<Rightarrow> int" where
  "applySlippageDown amount slippageBps = (amount * (BPS_DENOM - slippageBps)) sdiv BPS_DENOM"

definition applySlippageUp :: "int \<Rightarrow> int \<Rightarrow> int" where
  "applySlippageUp amount slippageBps =
     (let factor = BPS_DENOM + slippageBps in (amount * factor + BPS_DENOM - 1) sdiv BPS_DENOM)"


section \<open>Lemmas\<close>

named_theorems pricing_eval "success forms of the pricing helpers"

lemma ceilDiv_pos [pricing_eval]: "0 < d \<Longrightarrow> 0 \<le> n \<Longrightarrow> ceilDiv n d = Inr (cdiv n d)"
  by (simp add: ceilDiv_def cdiv_def)

lemma toU64_eq_Inr [simp]: "toU64 v what = Inr x \<longleftrightarrow> x = v \<and> in_u64 v"
  by (auto simp: toU64_def in_u64_def U64_MAX_eq)

lemma toU64_in [pricing_eval]: "in_u64 v \<Longrightarrow> toU64 v what = Inr v"
  by simp

definition decNum :: "int \<Rightarrow> int \<Rightarrow> int" where
  "decNum cd ud = (if ud \<ge> cd then 10 ^ nat (ud - cd) else 1)"

definition decDen :: "int \<Rightarrow> int \<Rightarrow> int" where
  "decDen cd ud = (if ud \<ge> cd then 1 else 10 ^ nat (cd - ud))"

lemma decRatio_eq [pricing_eval]: "decRatio cd ud = Inr (decNum cd ud, decDen cd ud)"
  by (simp add: decRatio_def pow10_def decNum_def decDen_def)

lemma decNum_pos [simp]: "0 < decNum cd ud" and decDen_pos [simp]: "0 < decDen cd ud"
  by (simp_all add: decNum_def decDen_def)

lemma PRICE_SCALE_pos [simp]: "0 < PRICE_SCALE" and BPS_DENOM_pos [simp]: "0 < BPS_DENOM"
  by (simp_all add: pricing_consts)

lemma BPS_DENOM_neq_0 [simp]: "BPS_DENOM \<noteq> 0" and PRICE_SCALE_neq_0 [simp]: "PRICE_SCALE \<noteq> 0"
  by (simp_all add: pricing_consts)

lemma decNum_nonneg [simp]: "0 \<le> decNum cd ud" and decDen_nonneg [simp]: "0 \<le> decDen cd ud"
  by (simp_all add: decNum_def decDen_def)

lemma PRICE_SCALE_nonneg [simp]: "0 \<le> PRICE_SCALE" and BPS_DENOM_nonneg [simp]: "0 \<le> BPS_DENOM"
  by (simp_all add: pricing_consts)

subsection \<open>Conversions as rounded divisions\<close>

lemma coinOut_eq:
  "0 < ask \<Longrightarrow> 0 \<le> u \<Longrightarrow> coinOutForUsdcIn u ask cd ud =
     toU64 ((u * PRICE_SCALE * decDen cd ud) div (ask * decNum cd ud)) ''coinOutForUsdcIn''"
  by (simp add: coinOutForUsdcIn_def pricing_eval)

lemma usdcOut_eq:
  "0 \<le> c \<Longrightarrow> 0 \<le> bid \<Longrightarrow> usdcOutForCoinIn c bid cd ud =
     toU64 ((c * bid * decNum cd ud) div (PRICE_SCALE * decDen cd ud)) ''usdcOutForCoinIn''"
  by (simp add: usdcOutForCoinIn_def pricing_eval)

lemma maxUsdcIn_eq:
  "0 \<le> c \<Longrightarrow> 0 \<le> ask \<Longrightarrow> maxUsdcInForCoinOut c ask cd ud =
     toU64 (cdiv (c * ask * decNum cd ud) (PRICE_SCALE * decDen cd ud)) ''maxUsdcInForCoinOut''"
  by (simp add: maxUsdcInForCoinOut_def pricing_eval mult_pos_pos)

lemma coinOut_domain: "coinOutForUsdcIn u ask cd ud = Inr c \<Longrightarrow> 0 < ask \<and> 0 \<le> u"
  by (auto simp: coinOutForUsdcIn_def split: if_splits)

lemma usdcOut_domain: "usdcOutForCoinIn c bid cd ud = Inr u \<Longrightarrow> 0 \<le> c \<and> 0 \<le> bid"
  by (auto simp: usdcOutForCoinIn_def split: if_splits)

lemma maxUsdcIn_domain: "maxUsdcInForCoinOut c ask cd ud = Inr u \<Longrightarrow> 0 \<le> c \<and> 0 \<le> ask"
  by (auto simp: maxUsdcInForCoinOut_def split: if_splits)

text \<open>What a buyer of \<open>c\<close> coins owes, and what a seller of \<open>c\<close> coins gets, as inequalities.\<close>

lemma coinOut_ge_iff:
  assumes "coinOutForUsdcIn u ask cd ud = Inr c"
  shows "k \<le> c \<longleftrightarrow> k * (ask * decNum cd ud) \<le> u * PRICE_SCALE * decDen cd ud"
  using assms coinOut_domain [OF assms]
  by (auto simp: coinOut_eq div_ge_iff mult_pos_pos)

lemma usdcOut_ge_iff:
  assumes "usdcOutForCoinIn c bid cd ud = Inr u"
  shows "k \<le> u \<longleftrightarrow> k * (PRICE_SCALE * decDen cd ud) \<le> c * bid * decNum cd ud"
  using assms usdcOut_domain [OF assms]
  by (auto simp: usdcOut_eq div_ge_iff mult_pos_pos)

lemma maxUsdcIn_le_iff:
  assumes "maxUsdcInForCoinOut c ask cd ud = Inr u"
  shows "u \<le> k \<longleftrightarrow> c * ask * decNum cd ud \<le> k * (PRICE_SCALE * decDen cd ud)"
  using assms maxUsdcIn_domain [OF assms]
  by (auto simp: maxUsdcIn_eq cdiv_le_iff mult_pos_pos)

lemma askPrice_ge: "0 \<le> price \<Longrightarrow> 0 \<le> s \<Longrightarrow> askPrice price s = Inr a \<Longrightarrow> price \<le> a"
proof -
  assume a: "0 \<le> price" "0 \<le> s" "askPrice price s = Inr a"
  then have "a = cdiv (price * (BPS_DENOM + s)) BPS_DENOM"
    by (auto simp: askPrice_def pricing_eval)
  moreover have "cdiv (price * BPS_DENOM) BPS_DENOM \<le> cdiv (price * (BPS_DENOM + s)) BPS_DENOM"
    using a by (intro cdiv_mono mult_left_mono) auto
  moreover have "cdiv (price * BPS_DENOM) BPS_DENOM = price" by (simp add: cdiv_def)
  ultimately show ?thesis by simp
qed

lemma bidPrice_le: "0 \<le> price \<Longrightarrow> 0 \<le> s \<Longrightarrow> bidPrice price s = Inr b \<Longrightarrow> 0 \<le> b \<and> b \<le> price"
proof -
  assume a: "0 \<le> price" "0 \<le> s" "bidPrice price s = Inr b"
  define keep where "keep = (if BPS_DENOM > s then BPS_DENOM - s else 0)"
  have k: "0 \<le> keep" "keep \<le> BPS_DENOM" using a(2) by (auto simp: keep_def)
  have b: "b = price * keep div BPS_DENOM"
    using a k by (simp add: bidPrice_def keep_def [symmetric] Let_def)
  have "price * keep div BPS_DENOM \<le> price * BPS_DENOM div BPS_DENOM"
    using a k by (intro zdiv_mono1 mult_left_mono) auto
  then show ?thesis using a(1) k b by (simp add: pos_imp_zdiv_nonneg_iff)
qed


subsection \<open>The spread\<close>

definition age_term :: "int \<Rightarrow> int \<Rightarrow> int \<Rightarrow> int" where
  "age_term age maxAge base =
     (if age > maxAge div 2 \<and> maxAge > maxAge div 2
      then cdiv (base * (min age maxAge - maxAge div 2)) (maxAge - maxAge div 2) else 0)"

definition spread_wf :: "spread_args \<Rightarrow> bool" where
  "spread_wf a \<longleftrightarrow> 0 \<le> sa_base a \<and> 0 \<le> sa_closed a \<and> 0 \<le> sa_confMult a \<and> 0 \<le> sa_conf a \<and>
     0 \<le> sa_price a \<and> 0 \<le> sa_age a \<and> 0 \<le> sa_maxAge a"

definition spread_raw :: "spread_args \<Rightarrow> int" where
  "spread_raw a =
     (if sa_status a = Status_Closed then sa_closed a else sa_base a)
     + cdiv (sa_confMult a * sa_conf a * 100) (sa_price a)
     + age_term (sa_age a) (sa_maxAge a) (sa_base a)"

definition spread_factor :: "spread_args \<Rightarrow> int" where
  "spread_factor a =
     (case sa_reserveRatioBps a of None \<Rightarrow> 1 | Some r \<Rightarrow> if r < sa_warnBps a then 2 else 1)"

lemma agePenaltyBps_eq:
  "0 \<le> age \<Longrightarrow> 0 \<le> maxAge \<Longrightarrow> 0 \<le> base \<Longrightarrow> agePenaltyBps age maxAge base = Inr (age_term age maxAge base)"
  by (auto simp: agePenaltyBps_def age_term_def Let_def pricing_eval min_def)

lemma age_term_nonneg: "0 \<le> age \<Longrightarrow> 0 \<le> maxAge \<Longrightarrow> 0 \<le> base \<Longrightarrow> 0 \<le> age_term age maxAge base"
  by (auto simp: age_term_def min_def intro!: cdiv_nonneg)

lemma age_term_mono:
  assumes "0 \<le> base" "0 \<le> maxAge" "0 \<le> age" "age \<le> age'"
  shows "age_term age maxAge base \<le> age_term age' maxAge base"
proof (cases "age > maxAge div 2 \<and> maxAge > maxAge div 2")
  case True
  have "base * (min age maxAge - maxAge div 2) \<le> base * (min age' maxAge - maxAge div 2)"
    using assms by (intro mult_left_mono) auto
  then show ?thesis using True assms by (auto simp: age_term_def intro!: cdiv_mono)
next
  case False
  then have "age_term age maxAge base = 0" by (auto simp: age_term_def)
  then show ?thesis using assms age_term_nonneg [of age' maxAge base] by simp
qed

lemma age_term_le_base: "0 \<le> base \<Longrightarrow> age_term age maxAge base \<le> base"
  by (auto simp: age_term_def cdiv_le_iff intro!: mult_left_mono)

lemma age_term_full: "0 < maxAge \<Longrightarrow> maxAge \<le> age \<Longrightarrow> age_term age maxAge base = base"
proof -
  assume a: "0 < maxAge" "maxAge \<le> age"
  then have w: "maxAge div 2 < maxAge" by simp
  have "cdiv (base * (maxAge - maxAge div 2)) (maxAge - maxAge div 2) = base"
    using w by (simp add: cdiv_def)
  then show ?thesis using a w by (simp add: age_term_def min_def)
qed

lemma spread_raw_ge:
  assumes "spread_wf a" "0 < sa_price a"
  shows "(if sa_status a = Status_Closed then sa_closed a else sa_base a) \<le> spread_raw a"
  using assms cdiv_nonneg [of "sa_price a" "sa_confMult a * sa_conf a * 100"]
    age_term_nonneg [of "sa_age a" "sa_maxAge a" "sa_base a"]
  by (simp add: spread_raw_def spread_wf_def)

lemma effectiveSpreadBps_eq:
  assumes "spread_wf a"
  shows "effectiveSpreadBps a =
    Inr (if sa_price a = 0 then MAX_SPREAD_BPS else min MAX_SPREAD_BPS (spread_raw a * spread_factor a))"
  using assms
  by (auto simp: effectiveSpreadBps_def spread_wf_def confSpreadBps_def pricing_eval agePenaltyBps_eq
      spread_raw_def spread_factor_def Let_def min_def split: option.splits)

lemma spread_raw_mono:
  assumes "spread_wf a" "0 < sa_price a" "sa_conf a \<le> sa_conf b" "sa_age a \<le> sa_age b"
    "sa_base b = sa_base a" "sa_closed b = sa_closed a" "sa_confMult b = sa_confMult a"
    "sa_price b = sa_price a" "sa_maxAge b = sa_maxAge a" "sa_status b = sa_status a"
  shows "spread_raw a \<le> spread_raw b"
proof -
  have "cdiv (sa_confMult a * sa_conf a * 100) (sa_price a) \<le> cdiv (sa_confMult a * sa_conf b * 100) (sa_price a)"
    using assms by (intro cdiv_mono mult_right_mono mult_left_mono) (auto simp: spread_wf_def)
  moreover have "age_term (sa_age a) (sa_maxAge a) (sa_base a) \<le> age_term (sa_age b) (sa_maxAge a) (sa_base a)"
    using assms by (intro age_term_mono) (auto simp: spread_wf_def)
  ultimately show ?thesis using assms by (simp add: spread_raw_def)
qed

section \<open>Properties\<close>

text \<open>
  C36: on non-negative inputs the effective spread is always defined, lies between 0 and the 50%
  ceiling, never undercuts the configured open or closed spread (unless the ceiling does), and
  is the ceiling itself when there is no price.
\<close>

theorem effective_spread_total_bounded:
  assumes "spread_wf a"
  shows "\<exists>s. effectiveSpreadBps a = Inr s \<and> 0 \<le> s \<and> s \<le> MAX_SPREAD_BPS \<and>
    min MAX_SPREAD_BPS (if sa_status a = Status_Closed then sa_closed a else sa_base a) \<le> s \<and>
    (sa_price a = 0 \<longrightarrow> s = MAX_SPREAD_BPS)"
proof -
  let ?s0 = "if sa_status a = Status_Closed then sa_closed a else sa_base a"
  have s0: "0 \<le> ?s0" using assms by (simp add: spread_wf_def)
  have "?s0 \<le> spread_raw a * spread_factor a" if "sa_price a \<noteq> 0"
  proof -
    have raw: "?s0 \<le> spread_raw a" using assms that by (intro spread_raw_ge) (auto simp: spread_wf_def)
    have "spread_raw a * 1 \<le> spread_raw a * spread_factor a"
      using raw s0 by (intro mult_left_mono) (auto simp: spread_factor_def split: option.splits)
    then show ?thesis using raw by linarith
  qed
  then show ?thesis using s0 assms
    by (cases "sa_price a = 0") (auto simp: effectiveSpreadBps_eq MAX_SPREAD_BPS_def min_def)
qed

theorem effective_spread_total_bounded_witness:
  "\<exists>s. effectiveSpreadBps \<lparr>sa_base = 10, sa_closed = 150, sa_confMult = 50, sa_conf = 400000000,
      sa_price = 400000000000, sa_age = 45, sa_maxAge = 60, sa_status = 0,
      sa_reserveRatioBps = Some 10199, sa_warnBps = 10200\<rparr> = Inr s \<and> 0 \<le> s \<and> s \<le> MAX_SPREAD_BPS"
  using effective_spread_total_bounded [of "\<lparr>sa_base = 10, sa_closed = 150, sa_confMult = 50,
      sa_conf = 400000000, sa_price = 400000000000, sa_age = 45, sa_maxAge = 60, sa_status = 0,
      sa_reserveRatioBps = Some 10199, sa_warnBps = 10200\<rparr>"]
  by (auto simp: spread_wf_def)

text \<open>
  The spread only widens with risk.  With the same price and parameters, a wider confidence
  band, an older price and a weaker reserve ratio (\<open>null\<close>, "no liability", is the strongest)
  never give a smaller spread.
\<close>

theorem effective_spread_mono:
  assumes "spread_wf a" "spread_wf b"
    and "sa_base b = sa_base a" "sa_closed b = sa_closed a" "sa_confMult b = sa_confMult a"
    and "sa_price b = sa_price a" "sa_maxAge b = sa_maxAge a" "sa_status b = sa_status a"
    and "sa_warnBps b = sa_warnBps a"
    and "sa_conf a \<le> sa_conf b" "sa_age a \<le> sa_age b"
    and "case sa_reserveRatioBps a of None \<Rightarrow> True
         | Some r \<Rightarrow> (\<exists>r'. sa_reserveRatioBps b = Some r' \<and> r' \<le> r)"
    and "effectiveSpreadBps a = Inr s" "effectiveSpreadBps b = Inr t"
  shows "s \<le> t"
proof (cases "sa_price a = 0")
  case True
  then show ?thesis using assms by (simp add: effectiveSpreadBps_eq)
next
  case False
  then have p: "0 < sa_price a" using assms(1) by (simp add: spread_wf_def)
  have "(if sa_status a = Status_Closed then sa_closed a else sa_base a) \<le> spread_raw a"
    using assms(1) p by (rule spread_raw_ge)
  then have "0 \<le> spread_raw a" using assms(1) by (auto simp: spread_wf_def split: if_splits)
  moreover have "spread_raw a \<le> spread_raw b" using assms p by (intro spread_raw_mono) auto
  moreover have "spread_factor a \<le> spread_factor b" using assms(9,12)
    by (auto simp: spread_factor_def split: option.splits)
  moreover have "0 \<le> spread_factor a" by (auto simp: spread_factor_def split: option.splits)
  ultimately have "spread_raw a * spread_factor a \<le> spread_raw b * spread_factor b"
    by (intro mult_mono) auto
  then show ?thesis using assms False by (auto simp: effectiveSpreadBps_eq)
qed

definition demo_args :: "int \<Rightarrow> int \<Rightarrow> int option \<Rightarrow> spread_args" where
  "demo_args conf age ratio = \<lparr>sa_base = 10, sa_closed = 150, sa_confMult = 50, sa_conf = conf,
     sa_price = 400000000000, sa_age = age, sa_maxAge = 60, sa_status = 0,
     sa_reserveRatioBps = ratio, sa_warnBps = 10200\<rparr>"

lemma demo_spreads:
  "effectiveSpreadBps (demo_args 400000000 10 None) = Inr 15"
  "effectiveSpreadBps (demo_args 800000000 45 (Some 10000)) = Inr 50"
  by code_simp+

theorem effective_spread_mono_witness: "(15::int) \<le> 50"
  by (rule effective_spread_mono [OF _ _ _ _ _ _ _ _ _ _ _ _ demo_spreads])
    (simp_all add: demo_args_def spread_wf_def)


definition inputs_wf :: "SpreadInputs \<Rightarrow> bool" where
  "inputs_wf i \<longleftrightarrow> 0 \<le> baseSpreadBps (si_params i) \<and> 0 \<le> closedSpreadBps (si_params i) \<and>
     0 \<le> confMultBps (si_params i) \<and> 0 \<le> si_conf i \<and> 0 \<le> si_price i \<and> 0 \<le> si_ageSec i \<and>
     0 \<le> si_maxAgeSec i"

lemma spreadBps_nonneg: "inputs_wf i \<Longrightarrow> spreadBps i = Inr s \<Longrightarrow> 0 \<le> s"
proof -
  assume wf: "inputs_wf i" and s: "spreadBps i = Inr s"
  then obtain a where a: "effectiveSpreadBps a = Inr s" "spread_wf a"
    by (auto simp: spreadBps_def Let_def inputs_wf_def spread_wf_def)
  have "0 \<le> (if sa_status a = Status_Closed then sa_closed a else sa_base a)"
    using a(2) by (auto simp: spread_wf_def)
  then have "sa_price a \<noteq> 0 \<Longrightarrow> 0 \<le> spread_raw a"
    using spread_raw_ge [OF a(2)] a(2) by (force simp: spread_wf_def)
  then have "sa_price a \<noteq> 0 \<Longrightarrow> 0 \<le> spread_raw a * spread_factor a"
    by (auto simp: spread_factor_def split: option.splits)
  then show ?thesis using a by (auto simp: effectiveSpreadBps_eq MAX_SPREAD_BPS_def)
qed

lemma convert_back_le:
  assumes "coinOutForUsdcIn u ask cd ud = Inr c" "usdcOutForCoinIn c bid cd ud = Inr v" "bid \<le> ask"
  shows "v \<le> u"
proof -
  have dom: "0 < ask" "0 \<le> c" "0 \<le> bid"
    using coinOut_domain [OF assms(1)] usdcOut_domain [OF assms(2)] by auto
  have "v * (PRICE_SCALE * decDen cd ud) \<le> c * bid * decNum cd ud"
    using usdcOut_ge_iff [OF assms(2), of v] by simp
  also have "\<dots> \<le> c * ask * decNum cd ud"
    using dom assms(3) by (intro mult_right_mono mult_left_mono) auto
  also have "\<dots> \<le> u * (PRICE_SCALE * decDen cd ud)"
    using coinOut_ge_iff [OF assms(1), of c] by (simp add: mult.assoc)
  finally show ?thesis by (rule mult_right_le_imp_le) (simp add: mult_pos_pos)
qed

lemma quoteBuy_InrD:
  assumes "quoteBuy u i = Inr b"
  shows "spreadBps i = Inr (qb_spreadBps b)" "askPrice (si_price i) (qb_spreadBps b) = Inr (qb_ask b)"
    "coinOutForUsdcIn u (qb_ask b) (coinDecimals (si_params i)) (usdcDecimals (si_params i)) = Inr (qb_coinOut b)"
  using assms by (auto simp: quoteBuy_def result_simps)

lemma quoteSell_InrD:
  assumes "quoteSell c i = Inr q"
  shows "spreadBps i = Inr (qs_spreadBps q)" "bidPrice (si_price i) (qs_spreadBps q) = Inr (qs_bid q)"
    "usdcOutForCoinIn c (qs_bid q) (coinDecimals (si_params i)) (usdcDecimals (si_params i)) = Inr (qs_usdcOut q)"
  using assms by (auto simp: quoteSell_def result_simps)

text \<open>
  C33: no round trip against the reserve makes money.  Whatever coins a buy of \<open>u\<close> USDC yields,
  selling them back at a price no higher than the one bought at, with any non-negative spreads,
  any reserve state and the same decimals, returns at most \<open>u\<close>.
\<close>

theorem buy_then_sell_no_profit:
  assumes "quoteBuy u buy = Inr b" "quoteSell (qb_coinOut b) sell = Inr q"
    and "inputs_wf buy" "inputs_wf sell" "si_price sell \<le> si_price buy"
    and "coinDecimals (si_params sell) = coinDecimals (si_params buy)"
    and "usdcDecimals (si_params sell) = usdcDecimals (si_params buy)"
  shows "qs_usdcOut q \<le> u"
proof -
  note b = quoteBuy_InrD [OF assms(1)] and q = quoteSell_InrD [OF assms(2)]
  have "0 \<le> qb_spreadBps b" "0 \<le> qs_spreadBps q"
    using b(1) q(1) assms(3,4) spreadBps_nonneg by blast+
  moreover have "0 \<le> si_price buy" "0 \<le> si_price sell"
    using assms(3,4) by (simp_all add: inputs_wf_def)
  ultimately have "si_price buy \<le> qb_ask b" "qs_bid q \<le> si_price sell"
    using askPrice_ge b(2) bidPrice_le q(2) by blast+
  then have "qs_bid q \<le> qb_ask b" using assms(5) by linarith
  then show ?thesis by (rule convert_back_le [OF b(3) q(3) [unfolded assms(6,7)]])
qed

definition demo_inputs :: "int \<Rightarrow> SpreadInputs" where
  "demo_inputs price = \<lparr>si_status = 0, si_conf = 100000000, si_price = price, si_ageSec = 5, si_maxAgeSec = 60,
     si_params = \<lparr>baseSpreadBps = 10, closedSpreadBps = 150, confMultBps = 50, coinDecimals = 6,
       usdcDecimals = 6, reserveWarnBps = 10200, reserveHaltBps = 9500\<rparr>,
     si_reserveRatioBps = None, si_reserveWarn = False\<rparr>"

lemma demo_quotes:
  "quoteBuy 100000000 (demo_inputs 400000000000) = Inr \<lparr>qb_spreadBps = 12, qb_ask = 400480000000, qb_coinOut = 24970\<rparr>"
  "quoteSell (qb_coinOut \<lparr>qb_spreadBps = 12, qb_ask = 400480000000, qb_coinOut = 24970\<rparr>) (demo_inputs 390000000000) =
     Inr \<lparr>qs_spreadBps = 12, qs_bid = 389532000000, qs_usdcOut = 97266140\<rparr>"
  by code_simp+

theorem buy_then_sell_no_profit_witness: "(97266140::int) \<le> 100000000"
  using buy_then_sell_no_profit [OF demo_quotes] by (simp add: demo_inputs_def inputs_wf_def)

text \<open>
  Exact-out pricing is the smallest sufficient payment.  The USDC that \<open>buy_exact_out\<close>
  charges for \<open>c\<close> coins buys at least \<open>c\<close> coins at the same ask, and any smaller payment
  buys strictly fewer.
\<close>

theorem exact_out_least_payment:
  assumes "maxUsdcInForCoinOut c ask cd ud = Inr u"
    and "coinOutForUsdcIn u' ask cd ud = Inr c'"
  shows "c \<le> c' \<longleftrightarrow> u \<le> u'"
proof -
  have "c \<le> c' \<longleftrightarrow> c * (ask * decNum cd ud) \<le> u' * PRICE_SCALE * decDen cd ud"
    by (rule coinOut_ge_iff [OF assms(2)])
  also have "\<dots> \<longleftrightarrow> c * ask * decNum cd ud \<le> u' * (PRICE_SCALE * decDen cd ud)"
    by (simp add: mult.assoc)
  also have "\<dots> \<longleftrightarrow> u \<le> u'" by (rule maxUsdcIn_le_iff [OF assms(1), symmetric])
  finally show ?thesis .
qed

theorem exact_out_least_payment_witness: "(24970::int) \<le> 24970 \<longleftrightarrow> (99999856::int) \<le> 100000000"
proof (rule exact_out_least_payment)
  show "maxUsdcInForCoinOut 24970 400480000000 6 6 = Inr 99999856" by code_simp
  show "coinOutForUsdcIn 100000000 400480000000 6 6 = Inr 24970" by code_simp
qed

lemma reserve_ratio_lemma:
  assumes "0 \<le> reserve" "0 \<le> supply" "0 \<le> price" "k \<le> U64_MAX"
  shows "\<exists>ratio. reserveRatioBps reserve supply price cd ud = Inr ratio \<and>
    (case ratio of
       None \<Rightarrow> supply = 0 \<or> price = 0
     | Some r \<Rightarrow> supply \<noteq> 0 \<and> price \<noteq> 0 \<and> 0 \<le> r \<and> r \<le> U64_MAX \<and>
         (k \<le> r \<longleftrightarrow> k * (supply * price * decNum cd ud) \<le> reserve * BPS_DENOM * PRICE_SCALE * decDen cd ud))"
proof (cases "supply = 0 \<or> price = 0")
  case True
  then show ?thesis by (auto simp: reserveRatioBps_def)
next
  case False
  let ?n = "reserve * BPS_DENOM * PRICE_SCALE * decDen cd ud"
  let ?d = "supply * price * decNum cd ud"
  have d: "0 < ?d" using False assms by (auto simp: mult_pos_pos)
  have n: "0 \<le> ?n" using assms by simp
  have eq: "reserveRatioBps reserve supply price cd ud = Inr (Some (min U64_MAX (?n div ?d)))"
    using False n d by (auto simp: reserveRatioBps_def pricing_eval Let_def min_def)
  have "0 \<le> ?n div ?d" using n d by (simp add: pos_imp_zdiv_nonneg_iff)
  moreover have "k \<le> ?n div ?d \<longleftrightarrow> k * ?d \<le> ?n" by (rule div_ge_iff [OF d])
  ultimately show ?thesis using False assms(4) unfolding eq by (auto simp: U64_MAX_eq u64_max_def min_def)
qed

text \<open>
  The reserve ratio is exact.  Short of saturation it reports at least \<open>k\<close> bps exactly
  when the reserve, re-expressed at coin scale, covers \<open>k/10000\<close> of the liability, and there is
  no ratio exactly when there is no liability.
\<close>

theorem reserve_ratio_exact:
  assumes "0 \<le> reserve" "0 \<le> supply" "0 \<le> price" "k \<le> U64_MAX"
  shows "\<exists>ratio. reserveRatioBps reserve supply price cd ud = Inr ratio \<and>
    (case ratio of
       None \<Rightarrow> supply = 0 \<or> price = 0
     | Some r \<Rightarrow> supply \<noteq> 0 \<and> price \<noteq> 0 \<and> 0 \<le> r \<and> r \<le> U64_MAX \<and>
         (k \<le> r \<longleftrightarrow> k * (supply * price * decNum cd ud) \<le> reserve * BPS_DENOM * PRICE_SCALE * decDen cd ud))"
  using assms by (rule reserve_ratio_lemma)

theorem reserve_ratio_exact_witness:
  "\<exists>ratio. reserveRatioBps 4080000000 1000000 400000000000 6 6 = Inr ratio \<and>
    (case ratio of None \<Rightarrow> (1000000::int) = 0 \<or> (400000000000::int) = 0
     | Some r \<Rightarrow> (1000000::int) \<noteq> 0 \<and> (400000000000::int) \<noteq> 0 \<and> 0 \<le> r \<and> r \<le> U64_MAX \<and>
         ((10200::int) \<le> r \<longleftrightarrow>
           10200 * (1000000 * 400000000000 * decNum 6 6) \<le> 4080000000 * BPS_DENOM * PRICE_SCALE * decDen 6 6))"
  by (rule reserve_ratio_exact) (simp_all add: U64_MAX_def)

lemma weightedSum_loop_eq:
  "weightedSum_loop legs w a =
     (w + sum_list (map snd legs), a + sum_list (map (\<lambda>(v, w). v * w) legs))"
  by (induction legs w a rule: weightedSum_loop.induct) auto

lemma weighted_legs_bounds:
  "\<forall>(v, w) \<in> set legs. 0 \<le> w \<and> lo \<le> v \<and> v \<le> hi \<Longrightarrow>
     lo * sum_list (map snd legs) \<le> sum_list (map (\<lambda>(v, w). v * w) legs) \<and>
     sum_list (map (\<lambda>(v, w). v * w) legs) \<le> (hi::int) * sum_list (map snd legs)"
proof (induction legs)
  case (Cons leg legs)
  obtain v w where leg: "leg = (v, w)" by (cases leg)
  have "lo * w \<le> v * w" "v * w \<le> hi * w"
    using Cons.prems leg by (auto intro: mult_right_mono)
  moreover have "lo * sum_list (map snd legs) \<le> sum_list (map (\<lambda>(v, w). v * w) legs)"
      "sum_list (map (\<lambda>(v, w). v * w) legs) \<le> hi * sum_list (map snd legs)"
    using Cons by auto
  ultimately show ?case using leg by (simp add: distrib_left)
qed simp

text \<open>
  A composite price is an average.  When the weights are non-negative and sum to 10000, the
  weighted sum of prices within a 64-bit interval is defined and stays in the interval; any other
  weight total is refused.
\<close>

theorem weighted_sum_average:
  assumes "\<forall>(v, w) \<in> set legs. 0 \<le> w \<and> lo \<le> v \<and> v \<le> hi"
    and "0 \<le> lo" "lo \<le> hi" "hi \<le> U64_MAX"
  shows "if sum_list (map snd legs) = BPS_DENOM
    then \<exists>r. weightedSum legs = Inr r \<and> lo \<le> r \<and> r \<le> hi
    else weightedSum legs = Inl Bad_weights"
proof (cases "sum_list (map snd legs) = BPS_DENOM")
  case True
  let ?a = "sum_list (map (\<lambda>(v, w). v * w) legs)"
  have b: "lo * BPS_DENOM \<le> ?a" "?a \<le> hi * BPS_DENOM"
    using weighted_legs_bounds [OF assms(1)] True by auto
  then have "0 \<le> ?a" using assms(2) by (smt (verit) BPS_DENOM_nonneg mult_nonneg_nonneg)
  moreover have "lo \<le> ?a div BPS_DENOM" using b by (simp add: div_ge_iff)
  moreover have "?a div BPS_DENOM \<le> hi"
    using b zdiv_mono1 [of ?a "hi * BPS_DENOM" BPS_DENOM] by simp
  ultimately show ?thesis using True assms
    by (auto simp: weightedSum_def weightedSum_loop_eq in_u64_def U64_MAX_eq)
next
  case False
  then show ?thesis by (auto simp: weightedSum_def weightedSum_loop_eq)
qed

theorem weighted_sum_average_witness:
  "if sum_list (map snd [(100::int, 6000), (300, 4000)]) = BPS_DENOM
    then \<exists>r. weightedSum [(100, 6000), (300, 4000)] = Inr r \<and> 100 \<le> r \<and> r \<le> 300
    else weightedSum [(100, 6000), (300, 4000)] = Inl Bad_weights"
  by (rule weighted_sum_average) (auto simp: U64_MAX_def)

end
