(* ===== verification/PricingRust.thy ===== *)
theory PricingRust
  imports Pricing "HOL-Library.Monad_Syntax"
begin

text \<open>
  The on-chain pricing functions of \<open>programs/peg_desk/src/pricing.rs\<close>, with Rust's fixed-width
  arithmetic written out: every intermediate is a \<open>u128\<close>, a checked operation that leaves the range
  is \<open>None\<close>, and so is a plain \<open>*\<close> that would panic (the workspace builds with
  \<open>overflow-checks = true\<close>).  The section "Parity" proves that \<open>packages/sdk/src/pricing.ts\<close>
  (theory \<open>Pricing\<close>), which the SDK quotes with, computes the same values on every input the
  Rust types admit.
\<close>

section \<open>Fixed-width arithmetic\<close>

definition u128_lim :: int where "u128_lim = 2 ^ 128"

definition u128_mul :: "int \<Rightarrow> int \<Rightarrow> int option" where
  "u128_mul a b = (if a * b < u128_lim then Some (a * b) else None)"

definition u128_add :: "int \<Rightarrow> int \<Rightarrow> int option" where
  "u128_add a b = (if a + b < u128_lim then Some (a + b) else None)"

definition u128_saturating_add :: "int \<Rightarrow> int \<Rightarrow> int" where
  "u128_saturating_add a b = (if a + b < u128_lim then a + b else u128_lim - 1)"

definition u128_saturating_mul :: "int \<Rightarrow> int \<Rightarrow> int" where
  "u128_saturating_mul a b = (if a * b < u128_lim then a * b else u128_lim - 1)"

definition in_u16 :: "int \<Rightarrow> bool" where "in_u16 v \<longleftrightarrow> 0 \<le> v \<and> v < 2 ^ 16"
definition in_u32 :: "int \<Rightarrow> bool" where "in_u32 v \<longleftrightarrow> 0 \<le> v \<and> v < 2 ^ 32"
definition in_u8 :: "int \<Rightarrow> bool" where "in_u8 v \<longleftrightarrow> 0 \<le> v \<and> v < 2 ^ 8"
definition in_i32 :: "int \<Rightarrow> bool" where "in_i32 v \<longleftrightarrow> - (2 ^ 31) \<le> v \<and> v < 2 ^ 31"

lemmas widths = in_u16_def in_u32_def in_u8_def in_i32_def in_u64_def u64_max_def u128_lim_def

section \<open>The program\<close>

definition rs_P :: int where "rs_P = 100000000"
definition rs_B :: int where "rs_B = 10000"
definition rs_MAX_SPREAD_BPS :: int where "rs_MAX_SPREAD_BPS = 5000"

text \<open>\<open>COIN_DECIMALS\<close> and \<open>USDC_DECIMALS\<close> of \<open>constants.rs\<close> are both 6.\<close>

definition rs_DEC_NUM :: int where
  "rs_DEC_NUM = (if (6::nat) \<ge> 6 then 10 ^ (6 - 6 :: nat) else 1)"
definition rs_DEC_DEN :: int where
  "rs_DEC_DEN = (if (6::nat) \<ge> 6 then 1 else 10 ^ (6 - 6 :: nat))"

lemmas rs_consts = rs_P_def rs_B_def rs_MAX_SPREAD_BPS_def rs_DEC_NUM_def rs_DEC_DEN_def

definition rs_to_u64 :: "int \<Rightarrow> int option" where
  "rs_to_u64 v = (if v \<le> u64_max then Some v else None)"

definition rs_ceil_div :: "int \<Rightarrow> int \<Rightarrow> int option" where
  "rs_ceil_div n d =
     (if d = 0 then None else Some (n div d + (if n mod d = 0 then 0 else 1)))"

definition rs_effective_spread_bps ::
  "int \<Rightarrow> int \<Rightarrow> int \<Rightarrow> int \<Rightarrow> int \<Rightarrow> int \<Rightarrow> int \<Rightarrow> int \<Rightarrow> int \<Rightarrow> int \<Rightarrow> int option" where
  "rs_effective_spread_bps base closed conf_mult conf price age max_age status ratio warn =
     (if price = 0 then Some rs_MAX_SPREAD_BPS
      else do {
        let s0 = (if status = 1 then closed else base);
        m1 \<leftarrow> u128_mul conf_mult conf;
        m2 \<leftarrow> u128_mul m1 100;
        let conf_term = (case rs_ceil_div m2 price of Some t \<Rightarrow> t | None \<Rightarrow> rs_MAX_SPREAD_BPS);
        let s1 = u128_saturating_add s0 conf_term;
        let half = max_age div 2;
        s2 \<leftarrow> (if age > half \<and> max_age > half then do {
                  let over = min age max_age - half;
                  let window = max_age - half;
                  m \<leftarrow> u128_mul base over;
                  let pen = (case rs_ceil_div m window of Some t \<Rightarrow> t | None \<Rightarrow> 0);
                  Some (u128_saturating_add s1 pen)
                } else Some s1);
        let s3 = (if ratio < warn then u128_saturating_mul s2 2 else s2);
        Some (min s3 rs_MAX_SPREAD_BPS)
      })"

definition rs_ask :: "int \<Rightarrow> int \<Rightarrow> int option" where
  "rs_ask price spread = do {
     n \<leftarrow> u128_mul price (rs_B + spread);
     c \<leftarrow> rs_ceil_div n rs_B;
     rs_to_u64 c }"

definition rs_bid :: "int \<Rightarrow> int \<Rightarrow> int option" where
  "rs_bid price spread = do {
     let keep = max 0 (rs_B - spread);
     n \<leftarrow> u128_mul price keep;
     rs_to_u64 (n div rs_B) }"

definition rs_coin_out_for_usdc :: "int \<Rightarrow> int \<Rightarrow> int option" where
  "rs_coin_out_for_usdc usdc_in a =
     (if a = 0 then None
      else do {
        n1 \<leftarrow> u128_mul usdc_in rs_P;
        n \<leftarrow> u128_mul n1 rs_DEC_DEN;
        d \<leftarrow> u128_mul a rs_DEC_NUM;
        rs_to_u64 (n div d) })"

definition rs_usdc_in_for_coin :: "int \<Rightarrow> int \<Rightarrow> int option" where
  "rs_usdc_in_for_coin coin_out a = do {
     n1 \<leftarrow> u128_mul coin_out a;
     n \<leftarrow> u128_mul n1 rs_DEC_NUM;
     d \<leftarrow> u128_mul rs_P rs_DEC_DEN;
     c \<leftarrow> rs_ceil_div n d;
     rs_to_u64 c }"

definition rs_usdc_out_for_coin :: "int \<Rightarrow> int \<Rightarrow> int option" where
  "rs_usdc_out_for_coin coin_in b = do {
     n1 \<leftarrow> u128_mul coin_in b;
     n \<leftarrow> u128_mul n1 rs_DEC_NUM;
     d \<leftarrow> u128_mul rs_P rs_DEC_DEN;
     rs_to_u64 (n div d) }"

definition rs_reserve_ratio_bps :: "int \<Rightarrow> int \<Rightarrow> int \<Rightarrow> int" where
  "rs_reserve_ratio_bps reserve supply price =
     (if supply = 0 \<or> price = 0 then u64_max
      else
        (case (do { a \<leftarrow> u128_mul reserve rs_B; b \<leftarrow> u128_mul a rs_P; u128_mul b rs_DEC_DEN },
               do { a \<leftarrow> u128_mul supply price; u128_mul a rs_DEC_NUM }) of
           (Some n, Some d) \<Rightarrow> (case rs_to_u64 (n div d) of Some r \<Rightarrow> r | None \<Rightarrow> u64_max)
         | (None, Some _) \<Rightarrow> u64_max
         | _ \<Rightarrow> 0))"

definition rs_conf_bps :: "int \<Rightarrow> int \<Rightarrow> int option" where
  "rs_conf_bps conf price = do {
     n \<leftarrow> u128_mul conf rs_B;
     c \<leftarrow> rs_ceil_div n price;
     rs_to_u64 c }"

definition rs_normalize_to_1e8 :: "int \<Rightarrow> int \<Rightarrow> int option" where
  "rs_normalize_to_1e8 value expo =
     (if \<not> in_i32 (expo + 8) then None
      else let shift = expo + 8 in
        if \<not> (-30 \<le> shift \<and> shift \<le> 30) then None
        else if shift \<ge> 0 then do { n \<leftarrow> u128_mul value (10 ^ nat shift); rs_to_u64 n }
        else rs_to_u64 (value div 10 ^ nat (- shift)))"

definition rs_scale_quote :: "int \<Rightarrow> int \<Rightarrow> int \<Rightarrow> int \<Rightarrow> int \<Rightarrow> int option" where
  "rs_scale_quote raw_price raw_expo quote_scale fx_price fx_expo = do {
     p \<leftarrow> rs_normalize_to_1e8 raw_price raw_expo;
     (if quote_scale = 0 then Some p
      else if quote_scale = 1 then Some (p div 100)
      else if quote_scale = 2 then do {
        fx \<leftarrow> rs_normalize_to_1e8 fx_price fx_expo;
        (if fx = 0 then None else do { n \<leftarrow> u128_mul p fx; rs_to_u64 (n div rs_P) }) }
      else None) }"

fun rs_weighted_loop :: "(int \<times> int) list \<Rightarrow> int \<Rightarrow> int \<Rightarrow> (int \<times> int) option" where
  "rs_weighted_loop [] wsum acc = Some (wsum, acc)"
| "rs_weighted_loop ((v, w) # legs) wsum acc = do {
     wsum' \<leftarrow> u128_add wsum w;
     m \<leftarrow> u128_mul v w;
     acc' \<leftarrow> u128_add acc m;
     rs_weighted_loop legs wsum' acc' }"

definition rs_weighted_sum :: "(int \<times> int) list \<Rightarrow> int option" where
  "rs_weighted_sum legs = do {
     (wsum, acc) \<leftarrow> rs_weighted_loop legs 0 0;
     (if wsum \<noteq> rs_B then None else rs_to_u64 (acc div rs_B)) }"

section \<open>Parity\<close>

lemma rs_to_u64_eq: "0 \<le> v \<Longrightarrow> rs_to_u64 v = result_opt (toU64 v what)"
  by (auto simp: rs_to_u64_def toU64_def U64_MAX_eq)

lemma rs_ceil_div_eq: "d \<noteq> 0 \<Longrightarrow> rs_ceil_div n d = Some (cdiv n d)"
  by (simp add: rs_ceil_div_def cdiv_def)

lemma u128_mul_le:
  "0 \<le> a \<Longrightarrow> a \<le> x \<Longrightarrow> 0 \<le> b \<Longrightarrow> b \<le> y \<Longrightarrow> x * y < u128_lim \<Longrightarrow> u128_mul a b = Some (a * b)"
  using mult_mono [of a x b y] by (simp add: u128_mul_def)

lemma dec_one [simp]: "decNum 6 6 = 1" "decDen 6 6 = 1" "rs_DEC_NUM = 1" "rs_DEC_DEN = 1"
  by (simp_all add: decNum_def decDen_def rs_consts)

lemma parity_consts: "rs_P = PRICE_SCALE" "rs_B = BPS_DENOM" "rs_MAX_SPREAD_BPS = MAX_SPREAD_BPS"
  by (simp_all add: rs_consts pricing_consts)

lemma u128_mul_one: "0 \<le> a \<Longrightarrow> a < u128_lim \<Longrightarrow> u128_mul a 1 = Some a"
  by (simp add: u128_mul_def)

lemma u128_mul_64:
  "in_u64 a \<Longrightarrow> 0 \<le> b \<Longrightarrow> b < 2 ^ 63 \<Longrightarrow> u128_mul a b = Some (a * b)"
  "in_u64 a \<Longrightarrow> in_u64 b \<Longrightarrow> u128_mul a b = Some (a * b)"
  by (auto intro!: u128_mul_le [where x = "2 ^ 64 - 1" and y = "2 ^ 64 - 1"] simp: widths)

lemma cdiv_scale_nonneg: "0 \<le> n \<Longrightarrow> 0 \<le> cdiv n BPS_DENOM" "0 \<le> n \<Longrightarrow> 0 \<le> cdiv n PRICE_SCALE"
  by (simp_all add: cdiv_nonneg)

lemma ask_parity: "in_u64 p \<Longrightarrow> in_u16 s \<Longrightarrow> result_opt (askPrice p s) = rs_ask p s"
proof -
  assume p: "in_u64 p" and s: "in_u16 s"
  have "u128_mul p (BPS_DENOM + s) = Some (p * (BPS_DENOM + s))"
    using p s by (intro u128_mul_64) (auto simp: in_u16_def BPS_DENOM_def)
  moreover have "0 \<le> p * (BPS_DENOM + s)" using p s by (simp add: widths BPS_DENOM_def)
  ultimately show ?thesis
    by (simp add: rs_ask_def askPrice_def pricing_eval parity_consts rs_ceil_div_eq
        cdiv_scale_nonneg rs_to_u64_eq [where what = "''askPrice''"])
qed

lemma bid_parity: "in_u64 p \<Longrightarrow> in_u16 s \<Longrightarrow> result_opt (bidPrice p s) = rs_bid p s"
proof -
  assume p: "in_u64 p" and s: "in_u16 s"
  let ?k = "max 0 (BPS_DENOM - s)"
  have "u128_mul p ?k = Some (p * ?k)"
    using p s by (intro u128_mul_64) (auto simp: in_u16_def BPS_DENOM_def)
  moreover have "0 \<le> p * ?k" using p by (simp add: in_u64_def)
  moreover have "(if s < BPS_DENOM then BPS_DENOM - s else 0) = ?k" by simp
  ultimately show ?thesis
    by (simp add: rs_bid_def bidPrice_def Let_def parity_consts pos_imp_zdiv_nonneg_iff
        rs_to_u64_eq [where what = "''bidPrice''"])
qed

lemma in_u64_PRICE_SCALE: "in_u64 PRICE_SCALE" "in_u64 BPS_DENOM"
  by (simp_all add: widths pricing_consts)

lemma mul_lim: "in_u64 a \<Longrightarrow> in_u64 b \<Longrightarrow> 0 \<le> a * b \<and> a * b < u128_lim"
  using mult_mono [of a "2 ^ 64 - 1" b "2 ^ 64 - 1"] by (auto simp: widths)

lemma coin_out_parity:
  "in_u64 u \<Longrightarrow> in_u64 a \<Longrightarrow> result_opt (coinOutForUsdcIn u a 6 6) = rs_coin_out_for_usdc u a"
proof (cases "a = 0")
  case True
  then show ?thesis by (simp add: rs_coin_out_for_usdc_def coinOutForUsdcIn_def)
next
  case False
  assume a: "in_u64 u" "in_u64 a"
  then have "0 \<le> u" "0 < a" using False by (simp_all add: in_u64_def)
  moreover have "u128_mul a 1 = Some a" using a by (simp add: u128_mul_def widths)
  moreover have "u128_mul (u * PRICE_SCALE) 1 = Some (u * PRICE_SCALE)"
    using mul_lim [OF a(1) in_u64_PRICE_SCALE(1)] by (simp add: u128_mul_one)
  ultimately show ?thesis using a False
    by (simp add: rs_coin_out_for_usdc_def coinOut_eq parity_consts u128_mul_64 in_u64_PRICE_SCALE
        pos_imp_zdiv_nonneg_iff rs_to_u64_eq [where what = "''coinOutForUsdcIn''"])
qed

lemma usdc_out_parity:
  "in_u64 c \<Longrightarrow> in_u64 b \<Longrightarrow> result_opt (usdcOutForCoinIn c b 6 6) = rs_usdc_out_for_coin c b"
proof -
  assume a: "in_u64 c" "in_u64 b"
  then have "0 \<le> c" "0 \<le> b" by (simp_all add: in_u64_def)
  moreover have "0 \<le> c * b div PRICE_SCALE" using mul_lim [OF a] by (simp add: pos_imp_zdiv_nonneg_iff)
  moreover have "u128_mul PRICE_SCALE 1 = Some PRICE_SCALE" by (simp add: u128_mul_def pricing_consts u128_lim_def)
  ultimately show ?thesis using a mul_lim [OF a]
    by (simp add: rs_usdc_out_for_coin_def usdcOut_eq parity_consts u128_mul_64 u128_mul_one
        rs_to_u64_eq [where what = "''usdcOutForCoinIn''"])
qed

lemma usdc_in_parity:
  "in_u64 c \<Longrightarrow> in_u64 a \<Longrightarrow> result_opt (maxUsdcInForCoinOut c a 6 6) = rs_usdc_in_for_coin c a"
proof -
  assume a: "in_u64 c" "in_u64 a"
  then have "0 \<le> c" "0 \<le> a" by (simp_all add: in_u64_def)
  moreover have "u128_mul PRICE_SCALE 1 = Some PRICE_SCALE" by (simp add: u128_mul_def pricing_consts u128_lim_def)
  ultimately show ?thesis using a mul_lim [OF a]
    by (simp add: rs_usdc_in_for_coin_def maxUsdcIn_eq parity_consts u128_mul_64 u128_mul_one
        rs_ceil_div_eq cdiv_scale_nonneg rs_to_u64_eq [where what = "''maxUsdcInForCoinOut''"])
qed

lemma conf_bps_parity: "in_u64 c \<Longrightarrow> in_u64 p \<Longrightarrow> result_opt (confBps c p) = rs_conf_bps c p"
proof (cases "p = 0")
  case True
  then show "in_u64 c \<Longrightarrow> in_u64 p \<Longrightarrow> ?thesis"
    by (simp add: confBps_def rs_conf_bps_def rs_ceil_div_def)
next
  case False
  assume a: "in_u64 c" "in_u64 p"
  then have "0 < p" using False by (simp add: in_u64_def)
  moreover have "0 \<le> c * BPS_DENOM" using a by (simp add: in_u64_def)
  ultimately show ?thesis using a
    by (simp add: confBps_def rs_conf_bps_def pricing_eval parity_consts u128_mul_64 in_u64_PRICE_SCALE
        rs_ceil_div_eq cdiv_nonneg rs_to_u64_eq [where what = "''confBps''"])
qed

lemma reserve_ratio_parity:
  assumes "in_u64 r" "in_u64 s" "in_u64 p"
  shows "reserveRatioBps r s p 6 6 =
    Inr (if s = 0 \<or> p = 0 then None else Some (rs_reserve_ratio_bps r s p))"
proof (cases "s = 0 \<or> p = 0")
  case True
  then show ?thesis by (simp add: reserveRatioBps_def)
next
  case False
  have nn: "0 \<le> r" "0 < s" "0 < p" using assms False by (auto simp: in_u64_def)
  have 1: "u128_mul r BPS_DENOM = Some (r * BPS_DENOM)" using assms by (simp add: u128_mul_64 in_u64_PRICE_SCALE)
  have rb: "r * BPS_DENOM * PRICE_SCALE \<le> u64_max * (BPS_DENOM * PRICE_SCALE)"
    using assms by (simp add: in_u64_def pricing_consts)
  then have 2: "u128_mul (r * BPS_DENOM) PRICE_SCALE = Some (r * BPS_DENOM * PRICE_SCALE)"
    by (simp add: u128_mul_def widths pricing_consts)
  have 3: "u128_mul (r * BPS_DENOM * PRICE_SCALE) 1 = Some (r * BPS_DENOM * PRICE_SCALE)"
    using rb by (simp add: u128_mul_def widths pricing_consts)
  have 4: "u128_mul s p = Some (s * p)" "u128_mul (s * p) 1 = Some (s * p)"
    using assms mul_lim [OF assms(2,3)] by (simp_all add: u128_mul_64 u128_mul_one)
  have "0 \<le> r * BPS_DENOM * PRICE_SCALE div (s * p)"
    using nn by (simp add: pos_imp_zdiv_nonneg_iff mult_pos_pos)
  then show ?thesis using False nn
    by (simp add: reserveRatioBps_def rs_reserve_ratio_bps_def pricing_eval parity_consts 1 2 3 4
        rs_to_u64_def U64_MAX_eq Let_def mult_pos_pos)
qed


lemma normalize_parity:
  assumes "in_u64 v" "in_i32 e"
  shows "result_opt (normalizeTo1e8 v e) = rs_normalize_to_1e8 v e"
proof (cases "e + 8 < -30 \<or> e + 8 > 30")
  case True
  then show ?thesis by (auto simp: normalizeTo1e8_def rs_normalize_to_1e8_def Let_def)
next
  case False
  then have i: "in_i32 (e + 8)" by (simp add: in_i32_def)
  show ?thesis
  proof (cases "e + 8 \<ge> 0")
    case True
    have n: "0 \<le> v * 10 ^ nat (e + 8)" using assms by (simp add: in_u64_def)
    show ?thesis
    proof (cases "v * 10 ^ nat (e + 8) < u128_lim")
      case True
      then show ?thesis using False i n \<open>e + 8 \<ge> 0\<close>
        by (simp add: normalizeTo1e8_def rs_normalize_to_1e8_def pow10_def Let_def u128_mul_def
            rs_to_u64_eq [where what = "''normalizeTo1e8''"])
    next
      case big: False
      then have "\<not> in_u64 (v * 10 ^ nat (e + 8))" by (simp add: widths)
      then show ?thesis using False i n big \<open>e + 8 \<ge> 0\<close>
        by (simp add: normalizeTo1e8_def rs_normalize_to_1e8_def pow10_def Let_def u128_mul_def
            toU64_def in_u64_def U64_MAX_eq)
    qed
  next
    case neg: False
    have v: "0 \<le> v" "v \<le> u64_max" using assms by (simp_all add: in_u64_def)
    have "v div 10 ^ nat (- (e + 8)) \<le> v div 1"
      using v by (intro zdiv_mono2) auto
    then have "v div 10 ^ nat (- (e + 8)) \<le> u64_max" using v by simp
    then show ?thesis using False i neg v
      by (simp add: normalizeTo1e8_def rs_normalize_to_1e8_def pow10_def Let_def rs_to_u64_def)
  qed
qed

lemma normalize_range:
  assumes "in_u64 v" "normalizeTo1e8 v e = Inr p"
  shows "in_u64 p"
proof -
  have v: "0 \<le> v" "v \<le> u64_max" using assms by (simp_all add: in_u64_def)
  have "v div 10 ^ nat (- (e + 8)) \<le> v div 1"
    using v by (intro zdiv_mono2) auto
  then show ?thesis using assms v
    by (auto simp: normalizeTo1e8_def pow10_def Let_def in_u64_def pos_imp_zdiv_nonneg_iff split: if_splits)
qed

lemma scale_quote_parity:
  assumes "in_u64 v" "in_i32 e" "in_u64 f" "in_i32 fe"
  shows "result_opt (scaleQuote v e q f fe) = rs_scale_quote v e q f fe"
proof (cases "normalizeTo1e8 v e")
  case (Inl err)
  then show ?thesis using normalize_parity [OF assms(1,2)]
    by (simp add: scaleQuote_def rs_scale_quote_def)
next
  case p: (Inr p)
  then have rp: "rs_normalize_to_1e8 v e = Some p" using normalize_parity [OF assms(1,2)] by simp
  have up: "in_u64 p" using normalize_range [OF assms(1) p] .
  show ?thesis
  proof (cases "normalizeTo1e8 f fe")
    case (Inl err)
    then have "rs_normalize_to_1e8 f fe = None" using normalize_parity [OF assms(3,4)] by simp
    then show ?thesis using Inl p rp up
      by (simp add: scaleQuote_def rs_scale_quote_def enum_consts in_u64_def)
  next
    case (Inr x)
    then have "rs_normalize_to_1e8 f fe = Some x" using normalize_parity [OF assms(3,4)] by simp
    moreover have ux: "in_u64 x" using normalize_range [OF assms(3) Inr] .
    moreover have "0 \<le> p * x div PRICE_SCALE"
      using up ux by (simp add: in_u64_def pos_imp_zdiv_nonneg_iff)
    ultimately show ?thesis using Inr p rp up mul_lim [OF up ux]
      by (simp add: scaleQuote_def rs_scale_quote_def enum_consts parity_consts u128_mul_64
          in_u64_def rs_to_u64_eq [where what = "''scaleQuote''"])
  qed
qed

text \<open>
  The Rust loop gives up when an accumulator leaves the 128-bit range; the script's unbounded
  accumulators then fail the weight check or the final range check.
\<close>

lemma rs_weighted_loop_Some:
  "rs_weighted_loop legs w a = Some (w', a') \<Longrightarrow> weightedSum_loop legs w a = (w', a')"
  by (induction legs w a rule: rs_weighted_loop.induct)
    (auto simp: u128_add_def u128_mul_def bind_eq_Some_conv split: if_splits)

lemma weightedSum_loop_mono:
  assumes "\<forall>(v, w) \<in> set legs. 0 \<le> v \<and> 0 \<le> w"
  shows "w \<le> fst (weightedSum_loop legs w a) \<and> a \<le> snd (weightedSum_loop legs w a)"
proof -
  have "0 \<le> sum_list (map snd legs)" "0 \<le> sum_list (map (\<lambda>(v, w). v * w) legs)"
    using assms by (auto intro!: sum_list_nonneg_map)
  then show ?thesis by (simp add: weightedSum_loop_eq)
qed

lemma rs_weighted_loop_None:
  assumes "rs_weighted_loop legs w a = None" "\<forall>(v, w) \<in> set legs. 0 \<le> v \<and> 0 \<le> w" "0 \<le> w" "0 \<le> a"
  shows "fst (weightedSum_loop legs w a) \<ge> u128_lim \<or> snd (weightedSum_loop legs w a) \<ge> u128_lim"
  using assms
proof (induction legs w a rule: rs_weighted_loop.induct)
  case (2 v k legs w a)
  have leg: "0 \<le> v" "0 \<le> k" and rest: "\<forall>(v, w) \<in> set legs. 0 \<le> v \<and> 0 \<le> w"
    using "2.prems"(2) by auto
  note mono = weightedSum_loop_mono [OF rest, of "w + k" "a + v * k"]
  show ?case
  proof (cases "w + k < u128_lim \<and> v * k < u128_lim \<and> a + v * k < u128_lim")
    case True
    then have "rs_weighted_loop legs (w + k) (a + v * k) = None"
      using "2.prems"(1) by (simp add: u128_add_def u128_mul_def)
    then show ?thesis using True leg rest "2.prems"
      using "2.IH" [of "w + k" "v * k" "a + v * k"] by (simp add: u128_add_def u128_mul_def)
  next
    case False
    then show ?thesis using mono "2.prems" by auto
  qed
qed simp

lemma weighted_sum_parity:
  assumes "\<forall>(v, w) \<in> set legs. in_u64 v \<and> in_u16 w"
  shows "result_opt (weightedSum legs) = rs_weighted_sum legs"
proof -
  have nn: "\<forall>(v, w) \<in> set legs. 0 \<le> v \<and> 0 \<le> w" using assms by (auto simp: widths)
  obtain ws acc where l: "weightedSum_loop legs 0 0 = (ws, acc)" by (cases "weightedSum_loop legs 0 0")
  have acc: "0 \<le> acc" using weightedSum_loop_mono [OF nn, of 0 0] l by simp
  show ?thesis
  proof (cases "rs_weighted_loop legs 0 0")
    case None
    then have "ws \<ge> u128_lim \<or> acc \<ge> u128_lim" using rs_weighted_loop_None [OF None nn] l by simp
    moreover have "acc \<ge> u128_lim \<Longrightarrow> \<not> in_u64 (acc div BPS_DENOM)"
      using div_ge_iff [of BPS_DENOM "2 ^ 64" acc] by (auto simp: widths BPS_DENOM_def)
    ultimately show ?thesis using None l acc
      by (auto simp: weightedSum_def rs_weighted_sum_def toU64_def in_u64_def U64_MAX_eq
          u128_lim_def BPS_DENOM_def pos_imp_zdiv_nonneg_iff)
  next
    case (Some wa)
    then have "wa = (ws, acc)" using rs_weighted_loop_Some [of legs 0 0 "fst wa" "snd wa"] l by simp
    then show ?thesis using Some l acc
      by (simp add: weightedSum_def rs_weighted_sum_def parity_consts pos_imp_zdiv_nonneg_iff
          rs_to_u64_eq [where what = "''weightedSum''"])
  qed
qed


lemma u128_lim_num: "u128_lim = 340282366920938463463374607431768211456"
  by (simp add: u128_lim_def)

lemma rs_reserve_ratio_range:
  assumes "in_u64 r" "in_u64 s" "in_u64 p"
  shows "in_u64 (rs_reserve_ratio_bps r s p)"
proof (cases "s = 0 \<or> p = 0")
  case True
  then show ?thesis by (auto simp: rs_reserve_ratio_bps_def in_u64_def u64_max_def)
next
  case False
  have "\<exists>x. reserveRatioBps r s p 6 6 = Inr x \<and>
    (case x of None \<Rightarrow> s = 0 \<or> p = 0 | Some y \<Rightarrow> s \<noteq> 0 \<and> p \<noteq> 0 \<and> 0 \<le> y \<and> y \<le> U64_MAX \<and>
      (0 \<le> y \<longleftrightarrow> 0 * (s * p * decNum 6 6) \<le> r * BPS_DENOM * PRICE_SCALE * decDen 6 6))"
    using assms by (intro reserve_ratio_lemma) (simp_all add: in_u64_def U64_MAX_def)
  then show ?thesis using False reserve_ratio_parity [OF assms] by (simp add: in_u64_def U64_MAX_eq)
qed

lemma effective_spread_parity:
  assumes r: "in_u16 base" "in_u16 closed" "in_u16 mult" "in_u64 conf" "in_u64 price" "in_u64 age"
    "in_u32 maxAge" "in_u64 ratio" "in_u16 warn"
    and ratio: "opt = Some ratio \<or> (opt = None \<and> ratio = u64_max)"
  shows "result_opt (effectiveSpreadBps \<lparr>sa_base = base, sa_closed = closed, sa_confMult = mult,
      sa_conf = conf, sa_price = price, sa_age = age, sa_maxAge = maxAge, sa_status = status,
      sa_reserveRatioBps = opt, sa_warnBps = warn\<rparr>)
    = rs_effective_spread_bps base closed mult conf price age maxAge status ratio warn"
proof (cases "price = 0")
  case True
  then show ?thesis by (simp add: effectiveSpreadBps_def rs_effective_spread_bps_def parity_consts)
next
  case False
  let ?a = "\<lparr>sa_base = base, sa_closed = closed, sa_confMult = mult, sa_conf = conf, sa_price = price,
      sa_age = age, sa_maxAge = maxAge, sa_status = status, sa_reserveRatioBps = opt, sa_warnBps = warn\<rparr>"
  have nn: "0 \<le> base" "0 \<le> closed" "0 \<le> mult" "0 \<le> conf" "0 < price" "0 \<le> age" "0 \<le> maxAge"
    using r False by (auto simp: widths)
  have wf: "spread_wf ?a" using nn by (simp add: spread_wf_def)
  have mc: "mult * conf \<le> 2 ^ 16 * 2 ^ 64" using r by (intro mult_mono) (auto simp: widths)
  define ct where "ct = cdiv (mult * conf * 100) price"
  have ct: "0 \<le> ct" "ct \<le> mult * conf * 100"
    unfolding ct_def
    subgoal using nn by (intro cdiv_nonneg) auto
    subgoal using nn mult_left_mono [of 1 price "mult * conf * 100"] by (simp add: cdiv_le_iff)
    done
  define pen where "pen = age_term age maxAge base"
  have pen: "0 \<le> pen" "pen \<le> base"
    unfolding pen_def using nn age_term_nonneg age_term_le_base by auto
  define s0 where "s0 = (if status = 1 then closed else base)"
  have s0: "0 \<le> s0" "s0 < 65536" "base < 65536" using r by (auto simp: s0_def widths)
  have mc': "mult * conf \<le> 1208925819614629174706176" using mc by simp
  have lt1: "mult * conf < u128_lim" using mc' unfolding u128_lim_num by linarith
  have lt: "mult * conf * 100 < u128_lim" using mc' unfolding u128_lim_num by linarith
  have m: "u128_mul mult conf = Some (mult * conf)" "u128_mul (mult * conf) 100 = Some (mult * conf * 100)"
    using lt1 lt by (simp_all only: u128_mul_def if_True)
  have bound: "(s0 + ct + pen) * 2 < u128_lim"
  proof -
    have "ct \<le> 120892581961462917470617600" using mc' ct(2) by linarith
    moreover have "s0 + pen \<le> 131072" using s0 pen by linarith
    ultimately show ?thesis unfolding u128_lim_num by presburger
  qed
  have "s0 + ct < u128_lim" "s0 + ct + pen < u128_lim"
    subgoal using bound ct(1) s0(1) pen(1) by presburger
    subgoal using bound ct(1) s0(1) pen(1) by presburger
    done
  with bound have s1: "u128_saturating_add s0 ct = s0 + ct"
    and s2: "u128_saturating_add (s0 + ct) pen = s0 + ct + pen"
    and s3: "u128_saturating_mul (s0 + ct + pen) 2 = (s0 + ct + pen) * 2"
    by (simp_all only: u128_saturating_add_def u128_saturating_mul_def if_True)
  define over where "over = min age maxAge - maxAge div 2"
  have "spread_raw ?a = s0 + ct + pen"
    by (simp add: spread_raw_def Status_Closed_def s0_def ct_def pen_def)
  moreover have "spread_factor ?a = (if ratio < warn then 2 else 1)"
    using ratio r by (auto simp: spread_factor_def widths)
  ultimately have ts: "result_opt (effectiveSpreadBps ?a) =
      Some (min ((s0 + ct + pen) * (if ratio < warn then 2 else 1)) MAX_SPREAD_BPS)"
    using False wf by (simp add: effectiveSpreadBps_eq min.commute)
  have cd: "rs_ceil_div (mult * conf * 100) price = Some ct"
    unfolding ct_def by (rule rs_ceil_div_eq [OF False])
  show ?thesis
  proof (cases "age > maxAge div 2 \<and> maxAge > maxAge div 2")
    case True
    have "u128_mul base over = Some (base * over)"
      using True r nn unfolding over_def
      by (intro u128_mul_le [where x = "2 ^ 16" and y = "2 ^ 64"]) (auto simp: widths)
    moreover have "rs_ceil_div (base * over) (maxAge - maxAge div 2) = Some pen"
      using True by (simp add: rs_ceil_div_eq pen_def age_term_def over_def)
    ultimately have "rs_effective_spread_bps base closed mult conf price age maxAge status ratio warn =
        Some (min ((s0 + ct + pen) * (if ratio < warn then 2 else 1)) MAX_SPREAD_BPS)"
      using False True s1 s2 s3 m cd
      by (simp add: rs_effective_spread_bps_def s0_def [symmetric] over_def [symmetric] parity_consts Let_def)
    then show ?thesis using ts by simp
  next
    case noage: False
    then have "pen = 0" by (auto simp: age_term_def pen_def)
    then have "rs_effective_spread_bps base closed mult conf price age maxAge status ratio warn =
        Some (min ((s0 + ct + pen) * (if ratio < warn then 2 else 1)) MAX_SPREAD_BPS)"
      using False noage s1 s3 m cd
      by (auto simp: rs_effective_spread_bps_def s0_def [symmetric] parity_consts Let_def)
    then show ?thesis using ts by simp
  qed
qed

section \<open>Properties\<close>

text \<open>
  C34: the SDK quotes what the program charges.  For every spread, price and amount of the Rust
  types, ask, bid and the three conversions of the SDK (at the 6/6 decimals the program is
  compiled with) return the program's result, and throw exactly when the program returns \<open>None\<close>.
\<close>

theorem trade_path_parity:
  assumes "in_u64 price" "in_u16 spread" "in_u64 amount" "in_u64 rate"
  shows "result_opt (askPrice price spread) = rs_ask price spread \<and>
    result_opt (bidPrice price spread) = rs_bid price spread \<and>
    result_opt (coinOutForUsdcIn amount rate COIN_DECIMALS USDC_DECIMALS) = rs_coin_out_for_usdc amount rate \<and>
    result_opt (usdcOutForCoinIn amount rate COIN_DECIMALS USDC_DECIMALS) = rs_usdc_out_for_coin amount rate \<and>
    result_opt (maxUsdcInForCoinOut amount rate COIN_DECIMALS USDC_DECIMALS) = rs_usdc_in_for_coin amount rate \<and>
    result_opt (confBps amount price) = rs_conf_bps amount price"
  using assms
  by (simp add: ask_parity bid_parity coin_out_parity usdc_out_parity usdc_in_parity conf_bps_parity
      COIN_DECIMALS_def USDC_DECIMALS_def)

theorem trade_path_parity_witness:
  "result_opt (askPrice 400000000000 12) = rs_ask 400000000000 12 \<and>
    result_opt (coinOutForUsdcIn 100000000 400480000000 COIN_DECIMALS USDC_DECIMALS)
      = rs_coin_out_for_usdc 100000000 400480000000"
  using trade_path_parity [of 400000000000 12 100000000 400480000000] by (simp add: widths)

text \<open>
  C35: the SDK widens the spread when the program does.  On the program's input types the SDK's
  effective spread equals the on-chain one (which never overflows), when the reserve ratio passed
  is the one both sides compute; the SDK's \<open>null\<close> stands for the program's \<open>u64::MAX\<close>.
\<close>

theorem spread_parity:
  assumes "in_u16 base" "in_u16 closed" "in_u16 mult" "in_u64 conf" "in_u64 price" "in_u64 age"
    "in_u32 maxAge" "in_u16 warn" "in_u64 reserve" "in_u64 supply" "in_u8 status"
  shows "\<exists>ratio. reserveRatioBps reserve supply price COIN_DECIMALS USDC_DECIMALS = Inr ratio \<and>
    result_opt (effectiveSpreadBps \<lparr>sa_base = base, sa_closed = closed, sa_confMult = mult,
      sa_conf = conf, sa_price = price, sa_age = age, sa_maxAge = maxAge, sa_status = status,
      sa_reserveRatioBps = ratio, sa_warnBps = warn\<rparr>)
    = rs_effective_spread_bps base closed mult conf price age maxAge status
        (rs_reserve_ratio_bps reserve supply price) warn"
proof -
  let ?rr = "rs_reserve_ratio_bps reserve supply price"
  let ?opt = "if supply = 0 \<or> price = 0 then None else Some ?rr"
  have eq: "reserveRatioBps reserve supply price COIN_DECIMALS USDC_DECIMALS = Inr ?opt"
    using reserve_ratio_parity [OF assms(9,10,5)] by (simp add: COIN_DECIMALS_def USDC_DECIMALS_def)
  have "in_u64 ?rr" using assms(9,10,5) by (rule rs_reserve_ratio_range)
  moreover have "?opt = Some ?rr \<or> (?opt = None \<and> ?rr = u64_max)"
    by (auto simp: rs_reserve_ratio_bps_def)
  ultimately show ?thesis
    using eq effective_spread_parity [OF assms(1-7) _ assms(8)] by (intro exI [of _ ?opt] conjI) auto
qed

theorem spread_parity_witness:
  "\<exists>ratio. reserveRatioBps 4000000000 1000000 400000000000 COIN_DECIMALS USDC_DECIMALS = Inr ratio \<and>
    result_opt (effectiveSpreadBps \<lparr>sa_base = 10, sa_closed = 150, sa_confMult = 50,
      sa_conf = 400000000, sa_price = 400000000000, sa_age = 45, sa_maxAge = 60, sa_status = 0,
      sa_reserveRatioBps = ratio, sa_warnBps = 10200\<rparr>)
    = rs_effective_spread_bps 10 150 50 400000000 400000000000 45 60 0
        (rs_reserve_ratio_bps 4000000000 1000000 400000000000) 10200"
  by (rule spread_parity) (simp_all add: widths)

text \<open>
  The keeper and the program read an oracle alike.  On the program's input types, re-scaling a
  raw oracle price to USD at 1e8 and the weighted sum of composite legs agree with the program,
  including when they fail.
\<close>

theorem oracle_scaling_parity:
  assumes "in_u64 raw" "in_i32 expo" "in_u64 fx" "in_i32 fxExpo"
    and "\<forall>(v, w) \<in> set legs. in_u64 v \<and> in_u16 w"
  shows "result_opt (scaleQuote raw expo scale fx fxExpo) = rs_scale_quote raw expo scale fx fxExpo \<and>
    result_opt (weightedSum legs) = rs_weighted_sum legs"
  using scale_quote_parity [OF assms(1-4)] weighted_sum_parity [OF assms(5)] by blast

theorem oracle_scaling_parity_witness:
  "result_opt (scaleQuote 3150 (-2) 2 110 (-2)) = rs_scale_quote 3150 (-2) 2 110 (-2) \<and>
    result_opt (weightedSum [(100, 6000), (300, 4000)]) = rs_weighted_sum [(100, 6000), (300, 4000)]"
  by (rule oracle_scaling_parity) (simp_all add: widths)

end
