(* ===== verification/Effects.thy ===== *)
theory Effects
  imports Prelude
begin

text \<open>
  Asynchronous code with effects.  An \<open>await\<close>ed computation is a function of the world: it returns
  a value, throws, or the process dies in the middle of it.  What goes wrong is read off a script of
  faults, one per remote call, so every theorem about the code holds for every script: a call may
  succeed, fail without effect, take effect and then fail, or be the last thing the process does.
  The second part is a Hoare logic for these computations, with a separate postcondition for every
  way a computation ends early.
\<close>

section \<open>Computations\<close>

datatype 'a outcome = Ret 'a | Throw string | Crash

type_synonym ('w, 'a) io = "'w \<Rightarrow> 'a outcome \<times> 'w"

datatype fault = Fine | FailBefore | FailAfter | DieBefore | DieAfter

definition io_ret :: "'a \<Rightarrow> ('w, 'a) io" where
  "io_ret a w = (Ret a, w)"

definition io_throw :: "string \<Rightarrow> ('w, 'a) io" where
  "io_throw e w = (Throw e, w)"

definition io_bind :: "('w, 'a) io \<Rightarrow> ('a \<Rightarrow> ('w, 'b) io) \<Rightarrow> ('w, 'b) io" where
  "io_bind m f w = (case m w of
     (Ret a, w') \<Rightarrow> f a w' | (Throw e, w') \<Rightarrow> (Throw e, w') | (Crash, w') \<Rightarrow> (Crash, w'))"

definition io_then :: "('w, 'a) io \<Rightarrow> ('w, 'b) io \<Rightarrow> ('w, 'b) io" where
  "io_then m n = io_bind m (\<lambda>_. n)"

text \<open>\<open>try { m } catch (err) { h(err) }\<close>: a dead process runs no handler.\<close>

definition io_catch :: "('w, 'a) io \<Rightarrow> (string \<Rightarrow> ('w, 'a) io) \<Rightarrow> ('w, 'a) io" where
  "io_catch m h w = (case m w of (Throw e, w') \<Rightarrow> h e w' | r \<Rightarrow> r)"

text \<open>Reading the world without a remote call, and a result with errors as a computation.\<close>

definition io_gets :: "('w \<Rightarrow> 'a) \<Rightarrow> ('w, 'a) io" where
  "io_gets f w = (Ret (f w), w)"

definition io_modify :: "('w \<Rightarrow> 'w) \<Rightarrow> ('w, unit) io" where
  "io_modify f w = (Ret (), f w)"

definition io_result :: "string + 'a \<Rightarrow> ('w, 'a) io" where
  "io_result r = (case r of Inl e \<Rightarrow> io_throw e | Inr a \<Rightarrow> io_ret a)"

text \<open>\<open>for (const x of xs) await body(x)\<close>, and with a state threaded through.\<close>

fun io_for :: "'x list \<Rightarrow> ('x \<Rightarrow> ('w, unit) io) \<Rightarrow> ('w, unit) io" where
  "io_for [] body = io_ret ()"
| "io_for (x # xs) body = io_then (body x) (io_for xs body)"

fun io_fold :: "'x list \<Rightarrow> ('x \<Rightarrow> 's \<Rightarrow> ('w, 's) io) \<Rightarrow> 's \<Rightarrow> ('w, 's) io" where
  "io_fold [] body s = io_ret s"
| "io_fold (x # xs) body s = io_bind (body x s) (io_fold xs body)"

text \<open>
  A remote call \<open>act\<close> under the fault taken from the world by \<open>pop\<close>.  \<open>FailAfter\<close> is the lost
  answer: the other side did the work.
\<close>

definition remote :: "('w \<Rightarrow> fault \<times> 'w) \<Rightarrow> ('w, 'a) io \<Rightarrow> ('w, 'a) io" where
  "remote pop act w = (case pop w of (f, w') \<Rightarrow> (case f of
       Fine \<Rightarrow> act w'
     | FailBefore \<Rightarrow> (Throw ''unavailable'', w')
     | FailAfter \<Rightarrow> (Throw ''answer lost'', snd (act w'))
     | DieBefore \<Rightarrow> (Crash, w')
     | DieAfter \<Rightarrow> (Crash, snd (act w'))))"

section \<open>Program logic\<close>

text \<open>
  \<open>io_spec P m Q E\<close>: from a world satisfying \<open>P\<close>, \<open>m\<close> returns into \<open>Q\<close>, or ends early (a throw or
  the death of the process) in \<open>E\<close>.
\<close>

definition io_spec ::
  "('w \<Rightarrow> bool) \<Rightarrow> ('w, 'a) io \<Rightarrow> ('a \<Rightarrow> 'w \<Rightarrow> bool) \<Rightarrow> ('w \<Rightarrow> bool) \<Rightarrow> bool" where
  "io_spec P m Q E \<longleftrightarrow> (\<forall>w. P w \<longrightarrow> (case m w of (Ret a, w') \<Rightarrow> Q a w' | (_, w') \<Rightarrow> E w'))"

named_theorems io_rules "Hoare rules of computations"

lemma io_specI:
  "(\<And>w. P w \<Longrightarrow> (case m w of (Ret a, w') \<Rightarrow> Q a w' | (_, w') \<Rightarrow> E w')) \<Longrightarrow> io_spec P m Q E"
  by (simp add: io_spec_def)

lemma io_specD:
  assumes "io_spec P m Q E" "P w" "m w = (r, w')"
  shows "case r of Ret a \<Rightarrow> Q a w' | _ \<Rightarrow> E w'"
  using assms by (auto simp: io_spec_def split: outcome.splits dest!: spec [of _ w])

lemma io_spec_pre: "io_spec P' m Q E \<Longrightarrow> (\<And>w. P w \<Longrightarrow> P' w) \<Longrightarrow> io_spec P m Q E"
  by (auto simp: io_spec_def)

lemma io_spec_post:
  assumes "io_spec P m Q' E'" "\<And>a w. Q' a w \<Longrightarrow> Q a w" "\<And>w. E' w \<Longrightarrow> E w"
  shows "io_spec P m Q E"
proof (rule io_specI)
  fix w assume "P w"
  then have "case m w of (Ret a, w') \<Rightarrow> Q' a w' | (_, w') \<Rightarrow> E' w'" using assms(1) by (simp add: io_spec_def)
  then show "case m w of (Ret a, w') \<Rightarrow> Q a w' | (_, w') \<Rightarrow> E w'"
    using assms(2,3) by (auto split: prod.splits outcome.splits)
qed

lemma io_spec_conj_pre: "(C \<Longrightarrow> io_spec P m Q E) \<Longrightarrow> io_spec (\<lambda>w. C \<and> P w) m Q E"
  by (auto simp: io_spec_def)

lemma io_ret_spec [io_rules]: "(\<And>w. P w \<Longrightarrow> Q a w) \<Longrightarrow> io_spec P (io_ret a) Q E"
  by (simp add: io_spec_def io_ret_def)

lemma io_throw_spec [io_rules]: "(\<And>w. P w \<Longrightarrow> E w) \<Longrightarrow> io_spec P (io_throw e) Q E"
  by (simp add: io_spec_def io_throw_def)

lemma io_gets_spec [io_rules]: "(\<And>w. P w \<Longrightarrow> Q (f w) w) \<Longrightarrow> io_spec P (io_gets f) Q E"
  by (simp add: io_spec_def io_gets_def)

lemma io_result_spec [io_rules]:
  "(\<And>a w. r = Inr a \<Longrightarrow> P w \<Longrightarrow> Q a w) \<Longrightarrow> (\<And>w. P w \<Longrightarrow> E w) \<Longrightarrow> io_spec P (io_result r) Q E"
  by (cases r) (simp_all add: io_spec_def io_result_def io_ret_def io_throw_def)

lemma io_bind_spec:
  assumes "io_spec P m R E" "\<And>a. io_spec (R a) (f a) Q E"
  shows "io_spec P (io_bind m f) Q E"
proof (rule io_specI)
  fix w assume P: "P w"
  obtain r w' where m: "m w = (r, w')" by (cases "m w")
  have "case r of Ret a \<Rightarrow> R a w' | _ \<Rightarrow> E w'" using io_specD [OF assms(1) P m] .
  then show "case io_bind m f w of (Ret a, w') \<Rightarrow> Q a w' | (_, w') \<Rightarrow> E w'"
    using assms(2) by (cases r) (auto simp: io_bind_def m io_spec_def)
qed

lemma io_then_spec:
  "io_spec P m (\<lambda>_. R) E \<Longrightarrow> io_spec R n Q E \<Longrightarrow> io_spec P (io_then m n) Q E"
  unfolding io_then_def by (rule io_bind_spec)

text \<open>A handler must cope with whatever held when the body threw.\<close>

lemma io_catch_spec:
  assumes "io_spec P m Q E" "\<And>e. io_spec E (h e) Q E"
  shows "io_spec P (io_catch m h) Q E"
proof (rule io_specI)
  fix w assume P: "P w"
  obtain r w' where m: "m w = (r, w')" by (cases "m w")
  have "case r of Ret a \<Rightarrow> Q a w' | _ \<Rightarrow> E w'" using io_specD [OF assms(1) P m] .
  then show "case io_catch m h w of (Ret a, w') \<Rightarrow> Q a w' | (_, w') \<Rightarrow> E w'"
    using assms(2) by (cases r) (auto simp: io_catch_def m io_spec_def)
qed

lemma io_if_spec:
  "(c \<Longrightarrow> io_spec P m Q E) \<Longrightarrow> (\<not> c \<Longrightarrow> io_spec P n Q E) \<Longrightarrow> io_spec P (if c then m else n) Q E"
  by simp

lemma io_for_spec:
  assumes "\<And>x. x \<in> set xs \<Longrightarrow> io_spec I (body x) (\<lambda>_. I) E"
  shows "io_spec I (io_for xs body) (\<lambda>_. I) E"
  using assms
proof (induction xs)
  case Nil
  then show ?case by (simp add: io_ret_spec)
next
  case (Cons x xs)
  have "io_spec I (body x) (\<lambda>_. I) E" using Cons.prems by simp
  moreover have "io_spec I (io_for xs body) (\<lambda>_. I) E" using Cons by simp
  ultimately show ?case by (simp add: io_then_spec)
qed

lemma io_fold_spec:
  assumes "\<And>x s. x \<in> set xs \<Longrightarrow> io_spec (I s) (body x s) I E"
  shows "io_spec (I s) (io_fold xs body s) I E"
  using assms
proof (induction xs arbitrary: s)
  case Nil
  then show ?case by (simp add: io_ret_spec)
next
  case (Cons x xs)
  have "io_spec (I s) (body x s) I E" using Cons.prems by simp
  moreover have "io_spec (I s') (io_fold xs body s') I E" for s' using Cons by simp
  ultimately show ?case by (simp add: io_bind_spec)
qed

text \<open>
  A remote call keeps an invariant of early ends \<open>E\<close> when taking a fault keeps the precondition,
  which implies \<open>E\<close>, and the action itself ends in \<open>E\<close> however it ends.
\<close>

lemma remote_spec:
  assumes "\<And>w f w'. P w \<Longrightarrow> pop w = (f, w') \<Longrightarrow> P w'" "\<And>w. P w \<Longrightarrow> E w"
    and "\<And>w r w'. P w \<Longrightarrow> act w = (r, w') \<Longrightarrow> E w' \<and> (\<forall>a. r = Ret a \<longrightarrow> Q a w')"
  shows "io_spec P (remote pop act) Q E"
proof (rule io_specI)
  fix w assume P: "P w"
  obtain f w' where f: "pop w = (f, w')" by (cases "pop w")
  have P': "P w'" using assms(1) [OF P f] .
  obtain r w'' where a: "act w' = (r, w'')" by (cases "act w'")
  show "case remote pop act w of (Ret a, w') \<Rightarrow> Q a w' | (_, w') \<Rightarrow> E w'"
    using assms(2) [OF P'] assms(3) [OF P' a]
    by (cases f; cases r) (simp_all add: remote_def f a)
qed

text \<open>Invariants: \<open>io_inv I m\<close> is \<open>I\<close> before and after, however \<open>m\<close> ends.\<close>

definition io_inv :: "('w \<Rightarrow> bool) \<Rightarrow> ('w, 'a) io \<Rightarrow> bool" where
  "io_inv I m \<longleftrightarrow> io_spec I m (\<lambda>_. I) I"

lemma io_inv_iff: "io_inv I m \<longleftrightarrow> (\<forall>w. I w \<longrightarrow> I (snd (m w)))"
proof -
  have "(case m w of (Ret a, w') \<Rightarrow> I w' | (_, w') \<Rightarrow> I w') = I (snd (m w))" for w
    by (cases "m w"; cases "fst (m w)") auto
  then show ?thesis by (simp add: io_inv_def io_spec_def)
qed

lemma io_invD: "io_inv I m \<Longrightarrow> I w \<Longrightarrow> I (snd (m w))"
  by (simp add: io_inv_iff)

lemma io_invI: "(\<And>w. I w \<Longrightarrow> I (snd (m w))) \<Longrightarrow> io_inv I m"
  by (simp add: io_inv_iff)

lemma io_inv_ret [io_rules]: "io_inv I (io_ret a)"
  by (rule io_invI) (simp add: io_ret_def)

lemma io_inv_throw [io_rules]: "io_inv I (io_throw e)"
  by (rule io_invI) (simp add: io_throw_def)

lemma io_inv_gets [io_rules]: "io_inv I (io_gets f)"
  by (rule io_invI) (simp add: io_gets_def)

lemma io_inv_result [io_rules]: "io_inv I (io_result r)"
  by (cases r) (simp_all add: io_result_def io_inv_ret io_inv_throw)

lemma io_inv_bind [io_rules]: "io_inv I m \<Longrightarrow> (\<And>a. io_inv I (f a)) \<Longrightarrow> io_inv I (io_bind m f)"
  unfolding io_inv_def by (rule io_bind_spec)

lemma io_inv_then [io_rules]: "io_inv I m \<Longrightarrow> io_inv I n \<Longrightarrow> io_inv I (io_then m n)"
  unfolding io_then_def by (rule io_inv_bind)

lemma io_inv_catch [io_rules]: "io_inv I m \<Longrightarrow> (\<And>e. io_inv I (h e)) \<Longrightarrow> io_inv I (io_catch m h)"
  unfolding io_inv_def by (rule io_catch_spec)

lemma io_inv_for [io_rules]: "(\<And>x. io_inv I (body x)) \<Longrightarrow> io_inv I (io_for xs body)"
  unfolding io_inv_def by (rule io_for_spec)

lemma io_inv_fold [io_rules]: "(\<And>x s. io_inv I (body x s)) \<Longrightarrow> io_inv I (io_fold xs body s)"
  unfolding io_inv_def by (rule io_fold_spec)

lemma io_inv_if [io_rules]: "io_inv I m \<Longrightarrow> io_inv I n \<Longrightarrow> io_inv I (if c then m else n)"
  by simp

lemma io_inv_remote:
  assumes "\<And>w. I w \<Longrightarrow> I (snd (pop w))" "\<And>w. I w \<Longrightarrow> I (snd (act w))"
  shows "io_inv I (remote pop act)"
proof (rule io_invI)
  fix w assume I: "I w"
  obtain f w' where f: "pop w = (f, w')" by (cases "pop w")
  have "I w'" using assms(1) [OF I] f by simp
  then show "I (snd (remote pop act w))" using assms(2) [of w']
    by (cases f) (simp_all add: remote_def f)
qed

end
