(* ===== verification/Js_String.thy ===== *)
theory Js_String
  imports Prelude
begin

text \<open>
  JavaScript strings, as character lists (the code's strings are ASCII wherever a model reads
  their characters): printing and parsing of integers, hexadecimal text of bytes, splitting and
  the order of the default \<^verbatim>\<open>sort\<close>.
\<close>

section \<open>Digits\<close>

definition digit_char :: "int \<Rightarrow> char" where
  "digit_char d = char_of (nat (if d < 10 then 48 + d else 87 + d))"

definition digit_val :: "char \<Rightarrow> int option" where
  "digit_val c = (let k = int (of_char c) in
     if 48 \<le> k \<and> k \<le> 57 then Some (k - 48)
     else if 97 \<le> k \<and> k \<le> 122 then Some (k - 87)
     else if 65 \<le> k \<and> k \<le> 90 then Some (k - 55) else None)"

lemma of_char_digit_char:
  "0 \<le> d \<Longrightarrow> d < 36 \<Longrightarrow> (of_char (digit_char d) :: nat) = nat (if d < 10 then 48 + d else 87 + d)"
  by (simp add: digit_char_def)

lemma digit_val_char [simp]: "0 \<le> d \<Longrightarrow> d < 36 \<Longrightarrow> digit_val (digit_char d) = Some d"
  by (auto simp: digit_val_def of_char_digit_char Let_def)

lemma digit_char_inj: "0 \<le> d \<Longrightarrow> d < 36 \<Longrightarrow> 0 \<le> e \<Longrightarrow> e < 36 \<Longrightarrow> digit_char d = digit_char e \<longleftrightarrow> d = e"
  by (metis digit_val_char option.inject)

section \<open>Decimal integers\<close>

text \<open>\<open>String(n)\<close> of a BigInt or of an integer below \<open>1e21\<close>.\<close>

function nat_text :: "int \<Rightarrow> string" where
  "nat_text n = (if n < 10 then [digit_char n] else nat_text (n div 10) @ [digit_char (n mod 10)])"
  by auto
termination by (relation "measure nat") auto

declare nat_text.simps [simp del]

definition int_text :: "int \<Rightarrow> string" where
  "int_text n = (if n < 0 then CHR ''-'' # nat_text (- n) else nat_text n)"

fun digits_value :: "int \<Rightarrow> int \<Rightarrow> string \<Rightarrow> int option" where
  "digits_value base acc [] = Some acc"
| "digits_value base acc (c # cs) = (case digit_val c of
     None \<Rightarrow> None
   | Some d \<Rightarrow> if d < base then digits_value base (acc * base + d) cs else None)"

definition is_space :: "char \<Rightarrow> bool" where
  "is_space c \<longleftrightarrow> of_char c \<in> {9, 10, 11, 12, 13, 32 :: nat}"

definition js_trim :: "string \<Rightarrow> string" where
  "js_trim s = rev (dropWhile is_space (rev (dropWhile is_space s)))"

text \<open>
  \<open>BigInt(s)\<close>: surrounding white space is ignored, the empty string is \<open>0n\<close>, an optional sign
  precedes decimal digits, \<open>0x\<close>, \<open>0o\<close> and \<open>0b\<close> start a literal of that base; anything else is a
  SyntaxError (\<open>None\<close>).
\<close>

definition digits_value1 :: "int \<Rightarrow> string \<Rightarrow> int option" where
  "digits_value1 base s = (if s = [] then None else digits_value base 0 s)"

fun bigint_body :: "string \<Rightarrow> int option" where
  "bigint_body [] = Some 0"
| "bigint_body (c # cs) =
     (if c = CHR ''-'' then map_option uminus (digits_value1 10 cs)
      else if c = CHR ''+'' then digits_value1 10 cs
      else if c = CHR ''0'' \<and> cs \<noteq> [] \<and> (hd cs = CHR ''x'' \<or> hd cs = CHR ''X'') then digits_value1 16 (tl cs)
      else if c = CHR ''0'' \<and> cs \<noteq> [] \<and> (hd cs = CHR ''o'' \<or> hd cs = CHR ''O'') then digits_value1 8 (tl cs)
      else if c = CHR ''0'' \<and> cs \<noteq> [] \<and> (hd cs = CHR ''b'' \<or> hd cs = CHR ''B'') then digits_value1 2 (tl cs)
      else digits_value1 10 (c # cs))"

definition parse_bigint :: "string \<Rightarrow> int option" where
  "parse_bigint s = bigint_body (js_trim s)"

lemma digits_value_append:
  "digits_value b acc (s @ t) = Option.bind (digits_value b acc s) (\<lambda>v. digits_value b v t)"
  by (induction s arbitrary: acc) (auto split: option.splits)

lemma digits_value_nat_text: "0 \<le> n \<Longrightarrow> digits_value 10 0 (nat_text n) = Some n"
proof (induction n rule: nat_text.induct)
  case (1 n)
  show ?case
  proof (cases "n < 10")
    case True
    then show ?thesis using 1 by (simp add: nat_text.simps [of n])
  next
    case False
    then have "digits_value 10 0 (nat_text (n div 10)) = Some (n div 10)"
      using 1 by (simp add: pos_imp_zdiv_nonneg_iff)
    then show ?thesis using False by (simp add: nat_text.simps [of n] digits_value_append)
  qed
qed

lemma nat_text_Cons: "0 \<le> n \<Longrightarrow> \<exists>d s. 0 \<le> d \<and> d < 10 \<and> nat_text n = digit_char d # s \<and> (s = [] \<or> 0 < d)"
proof (induction n rule: nat_text.induct)
  case (1 n)
  show ?case
  proof (cases "n < 10")
    case True
    then show ?thesis using 1 by (auto simp: nat_text.simps [of n])
  next
    case False
    have d0: "0 \<le> n div 10" using 1 by (simp add: pos_imp_zdiv_nonneg_iff)
    obtain d s where ds: "0 \<le> d" "d < 10" "nat_text (n div 10) = digit_char d # s" "s = [] \<or> 0 < d"
      using 1 False d0 by blast
    have "0 < d"
    proof (cases "s = []")
      case True
      then have "digits_value 10 0 [digit_char d] = Some (n div 10)"
        using digits_value_nat_text [OF d0] ds(3) by simp
      then show ?thesis using ds False by simp
    qed (use ds in simp)
    moreover have "nat_text n = digit_char d # s @ [digit_char (n mod 10)]"
      using ds False by (simp add: nat_text.simps [of n])
    ultimately show ?thesis using ds by blast
  qed
qed

lemma nat_text_digits: "0 \<le> n \<Longrightarrow> \<forall>c \<in> set (nat_text n). \<exists>d. 0 \<le> d \<and> d < 10 \<and> c = digit_char d"
proof (induction n rule: nat_text.induct)
  case (1 n)
  show ?case
  proof (cases "n < 10")
    case True
    then show ?thesis using 1 by (auto simp: nat_text.simps [of n])
  next
    case False
    moreover have "\<exists>d. 0 \<le> d \<and> d < 10 \<and> digit_char (n mod 10) = digit_char d"
      by (intro exI [of _ "n mod 10"]) simp
    ultimately show ?thesis using 1
      by (auto simp: nat_text.simps [of n] pos_imp_zdiv_nonneg_iff)
  qed
qed

lemma digit_not_space: "0 \<le> d \<Longrightarrow> d < 36 \<Longrightarrow> \<not> is_space (digit_char d)"
  by (simp add: is_space_def of_char_digit_char) arith

lemma js_trim_no_space: "\<forall>c \<in> set s. \<not> is_space c \<Longrightarrow> js_trim s = s"
proof -
  have d: "\<forall>c \<in> set t. \<not> is_space c \<Longrightarrow> dropWhile is_space t = t" for t by (cases t) auto
  show "\<forall>c \<in> set s. \<not> is_space c \<Longrightarrow> ?thesis" by (simp add: js_trim_def d)
qed

lemma digit_char_neq:
  "0 \<le> d \<Longrightarrow> d < 10 \<Longrightarrow> digit_char d \<noteq> CHR ''-'' \<and> digit_char d \<noteq> CHR ''+''
    \<and> (digit_char d = CHR ''0'' \<longleftrightarrow> d = 0)"
proof -
  assume d: "0 \<le> d" "d < 10"
  then have o: "(of_char (digit_char d) :: nat) = nat (48 + d)" by (simp add: of_char_digit_char)
  have "digit_char 0 = CHR ''0''" by code_simp
  moreover have "(of_char CHR ''-'' :: nat) = 45" "(of_char CHR ''+'' :: nat) = 43" by simp_all
  ultimately show ?thesis using o d digit_char_inj [of d 0] by auto
qed

text \<open>Parsing undoes printing.\<close>

lemma parse_int_text [simp]: "parse_bigint (int_text n) = Some n"
proof (cases "n < 0")
  case True
  have ns: "\<forall>c \<in> set (int_text n). \<not> is_space c"
    using nat_text_digits [of "- n"] True digit_not_space by (auto simp: int_text_def is_space_def)
  obtain d s where "nat_text (- n) = digit_char d # s" using nat_text_Cons [of "- n"] True by auto
  then show ?thesis using True digits_value_nat_text [of "- n"] js_trim_no_space [OF ns]
    by (simp add: parse_bigint_def int_text_def digits_value1_def)
next
  case False
  have ns: "\<forall>c \<in> set (int_text n). \<not> is_space c"
    using nat_text_digits [of n] False digit_not_space by (fastforce simp: int_text_def)
  obtain d s where ds: "0 \<le> d" "d < 10" "nat_text n = digit_char d # s" "s = [] \<or> 0 < d"
    using nat_text_Cons [of n] False by auto
  have "parse_bigint (int_text n) = bigint_body (digit_char d # s)"
    using js_trim_no_space [OF ns] False ds(3) by (simp add: parse_bigint_def int_text_def)
  also have "\<dots> = digits_value1 10 (digit_char d # s)"
    using digit_char_neq [OF ds(1,2)] ds(4) by auto
  also have "\<dots> = Some n" using digits_value_nat_text [of n] False ds(3) by (simp add: digits_value1_def)
  finally show ?thesis .
qed

lemma int_text_inj: "int_text a = int_text b \<longleftrightarrow> a = b"
  by (metis option.inject parse_int_text)

section \<open>Hexadecimal text\<close>

definition hex_byte :: "byte \<Rightarrow> string" where
  "hex_byte b = [digit_char (uint b div 16), digit_char (uint b mod 16)]"

text \<open>\<open>buffer.toString("hex")\<close>\<close>

definition hex_text :: "bytes \<Rightarrow> string" where
  "hex_text bs = concat (map hex_byte bs)"

lemma hex_byte_inj: "hex_byte a = hex_byte b \<longleftrightarrow> a = b"
proof
  assume e: "hex_byte a = hex_byte b"
  have r: "0 \<le> uint c div 16 \<and> uint c div 16 < 16 \<and> 0 \<le> uint c mod 16 \<and> uint c mod 16 < 16" for c :: byte
    using uint_lt2p [of c] by (auto simp: pos_imp_zdiv_nonneg_iff)
  have "uint a div 16 = uint b div 16" "uint a mod 16 = uint b mod 16"
    using e r [of a] r [of b] digit_char_inj by (auto simp: hex_byte_def)
  then have "uint a = uint b" by (metis div_mult_mod_eq)
  then show "a = b" by (metis word_of_int_uint)
qed simp

lemma hex_text_inj: "hex_text a = hex_text b \<longleftrightarrow> a = b"
proof (induction a arbitrary: b)
  case Nil
  then show ?case by (cases b) (auto simp: hex_text_def hex_byte_def)
next
  case (Cons x a)
  show ?case
  proof (cases b)
    case Nil
    then show ?thesis by (simp add: hex_text_def hex_byte_def)
  next
    case (Cons y b')
    have "hex_text (x # a) = hex_text b \<longleftrightarrow> hex_byte x = hex_byte y \<and> hex_text a = hex_text b'"
      by (auto simp: Cons hex_text_def hex_byte_def)
    then show ?thesis using Cons.IH by (simp add: Cons hex_byte_inj)
  qed
qed

end

