(* ===== verification/Store.thy ===== *)
theory Store
  imports Effects Js_String Complex_Main
begin

text \<open>
  The keeper's database (\<^verbatim>\<open>apps/keeper/src/db.ts\<close> over \<^verbatim>\<open>apps/indexer/schema.sql\<close>).  A table is
  the list of its rows, a query one remote call that runs its statement on the whole database at
  once.  Columns \<^verbatim>\<open>numeric(30,6)\<close> and \<^verbatim>\<open>numeric(20,8)\<close> hold rationals in human units, as the
  schema says, and the statements convert; timestamps are unix seconds.  Rows selected without an
  \<^verbatim>\<open>order by\<close> come in table order.  The locale \<open>keyed_table\<close> states what an insertion that does
  nothing on conflict promises; it is interpreted on the four tables both writers share.
\<close>

section \<open>Rows and tables\<close>

definition sql_round :: "rat \<Rightarrow> int" where
  "sql_round x = (if 0 \<le> x then \<lfloor>x + 1 / 2\<rfloor> else - \<lfloor>- x + 1 / 2\<rfloor>)"

text \<open>\<open>$n::numeric / 1e6\<close> and \<open>round(col * 1e6)::bigint\<close>; the same at 1e8 for prices.\<close>

definition to_human6 :: "int \<Rightarrow> rat" where "to_human6 n = of_int n / 1000000"
definition of_human6 :: "rat \<Rightarrow> int" where "of_human6 x = sql_round (x * 1000000)"
definition to_human8 :: "int \<Rightarrow> rat" where "to_human8 n = of_int n / 100000000"
definition of_human8 :: "rat \<Rightarrow> int" where "of_human8 x = sql_round (x * 100000000)"

record PriceCol =
  pc_commodity :: string
  pc_ts :: int
  pc_price :: rat
  pc_conf :: "rat option"
  pc_source :: string

record PoolRow =
  po_dbc_pool :: string
  po_base_mint :: string
  po_quote_mint :: string
  po_commodity :: string
  po_creator :: string
  po_fee_bps :: int
  po_created_at :: int
  po_migrated_at :: "int option"
  po_damm_pool :: "string option"

record BalanceCol =
  bc_pool :: string
  bc_wallet :: string
  bc_delta :: rat
  bc_ts :: int

record EpochCol =
  ec_pool :: string
  ec_index :: int
  ec_coin_mint :: string
  ec_start_ts :: int
  ec_end_ts :: int
  ec_total_amount :: rat
  ec_pushed_amount :: rat
  ec_merkle_root :: "string option"
  ec_merkle_total :: rat
  ec_eligible_holders :: int
  ec_finalized :: bool
  ec_epoch_pubkey :: string

record PayoutCol =
  yc_pool :: string
  yc_epoch :: int
  yc_wallet :: string
  yc_coin_mint :: string
  yc_amount :: rat
  yc_kind :: int
  yc_ts :: int
  yc_sig :: "string option"

datatype EpochPhase = Planned | Opened | Pushed | Finalized

record EpochPlanItem =
  pi_wallet :: string
  pi_amount :: int

record ProgressCol =
  gc_pool :: string
  gc_epoch_index :: int
  gc_epoch_pubkey :: string
  gc_coin_mint :: string
  gc_phase :: EpochPhase
  gc_start_ts :: int
  gc_end_ts :: int
  gc_total_amount :: string
  gc_plan :: "(string \<times> string) list"
  gc_open_sig :: "string option"
  gc_finalize_sig :: "string option"
  gc_merkle_root :: "string option"
  gc_last_error :: "string option"

record CandleCol =
  cc_pool :: string
  cc_tf :: string
  cc_ts :: int
  cc_c :: rat

record MerkleLeafRow =
  ml_pool :: string
  ml_epoch_index :: int
  ml_epoch_pubkey :: string
  ml_wallet :: string
  ml_coin_mint :: string
  ml_amount :: string
  ml_proof :: "string list"

record FeeClaimCol =
  fc_pool :: string
  fc_source :: int
  fc_quote_amount :: rat
  fc_base_amount :: rat
  fc_ts :: int
  fc_sig :: string

record BuybackCol =
  bb_coin_mint :: string
  bb_coin_amount :: rat
  bb_gld_amount :: rat
  bb_ice_burned :: rat
  bb_ts :: int
  bb_sig :: string

record CommodityCol =
  mc_symbol :: string
  mc_commodity_pubkey :: "string option"
  mc_status :: string
  mc_session_kind :: int
  mc_oracle_kind :: int
  mc_feed_account :: "string option"
  mc_last_price_usd :: "rat option"
  mc_last_publish_time :: "int option"

record db =
  db_prices :: "PriceCol list"
  db_pools :: "PoolRow list"
  db_balance_events :: "BalanceCol list"
  db_epochs :: "EpochCol list"
  db_payouts :: "PayoutCol list"
  db_progress :: "ProgressCol list"
  db_candles :: "CandleCol list"
  db_leaves :: "MerkleLeafRow list"
  db_fee_claims :: "FeeClaimCol list"
  db_buybacks :: "BuybackCol list"
  db_commodities :: "CommodityCol list"

text \<open>The part of the world every cycle of the keeper shares: faults to come, database, \<open>now()\<close>.\<close>

record keeper_world =
  kw_faults :: "fault list"
  kw_db :: db
  kw_now :: int

definition pop_fault :: "'x keeper_world_scheme \<Rightarrow> fault \<times> 'x keeper_world_scheme" where
  "pop_fault w = (case kw_faults w of [] \<Rightarrow> (Fine, w) | f # fs \<Rightarrow> (f, w\<lparr>kw_faults := fs\<rparr>))"

definition db_query :: "(int \<Rightarrow> db \<Rightarrow> 'a \<times> db) \<Rightarrow> ('x keeper_world_scheme, 'a) io" where
  "db_query f = remote pop_fault (\<lambda>w. case f (kw_now w) (kw_db w) of (a, d) \<Rightarrow> (Ret a, w\<lparr>kw_db := d\<rparr>))"

definition db_read :: "(db \<Rightarrow> 'a) \<Rightarrow> ('x keeper_world_scheme, 'a) io" where
  "db_read f = db_query (\<lambda>now d. (f d, d))"

definition db_write :: "(int \<Rightarrow> db \<Rightarrow> db) \<Rightarrow> ('x keeper_world_scheme, unit) io" where
  "db_write f = db_query (\<lambda>now d. ((), f now d))"

text \<open>\<open>insert ... on conflict (key) do nothing\<close> and \<open>... do update set ...\<close>; \<open>update ... where\<close>.\<close>

definition insert_or_ignore :: "('row \<Rightarrow> 'key) \<Rightarrow> 'row \<Rightarrow> 'row list \<Rightarrow> 'row list" where
  "insert_or_ignore key r t = (if key r \<in> key ` set t then t else t @ [r])"

definition upsert :: "('row \<Rightarrow> 'key) \<Rightarrow> ('row \<Rightarrow> 'row) \<Rightarrow> 'row \<Rightarrow> 'row list \<Rightarrow> 'row list" where
  "upsert key upd r t = (if key r \<in> key ` set t then map (\<lambda>x. if key x = key r then upd x else x) t else t @ [r])"

definition update_where :: "('row \<Rightarrow> bool) \<Rightarrow> ('row \<Rightarrow> 'row) \<Rightarrow> 'row list \<Rightarrow> 'row list" where
  "update_where P upd t = map (\<lambda>x. if P x then upd x else x) t"

definition first_row :: "'row list \<Rightarrow> 'row option" where
  "first_row t = (case t of [] \<Rightarrow> None | r # _ \<Rightarrow> Some r)"

section \<open>Prices\<close>

record PriceRow =
  pr_commodity :: string
  pr_ts :: int
  pr_price :: int
  pr_conf :: int
  pr_source :: string

definition insertPrice :: "PriceRow \<Rightarrow> ('x keeper_world_scheme, unit) io" where
  "insertPrice row = io_then
     (db_write (\<lambda>now d. d\<lparr>db_prices := insert_or_ignore (\<lambda>r. (pc_commodity r, pc_ts r, pc_source r))
        \<lparr>pc_commodity = pr_commodity row, pc_ts = pr_ts row, pc_price = to_human8 (pr_price row),
         pc_conf = Some (to_human8 (pr_conf row)), pc_source = pr_source row\<rparr> (db_prices d)\<rparr>))
     (db_write (\<lambda>now d. d\<lparr>db_commodities := update_where
        (\<lambda>c. mc_symbol c = pr_commodity row \<and>
          (case mc_last_publish_time c of None \<Rightarrow> True | Some t \<Rightarrow> t \<le> pr_ts row))
        (\<lambda>c. c\<lparr>mc_last_price_usd := Some (to_human8 (pr_price row)), mc_last_publish_time := Some (pr_ts row)\<rparr>)
        (db_commodities d)\<rparr>))"

definition getLatestPrice :: "string \<Rightarrow> ('x keeper_world_scheme, PriceRow option) io" where
  "getLatestPrice commodity = db_read (\<lambda>d. map_option
     (\<lambda>r. \<lparr>pr_commodity = pc_commodity r, pr_ts = pc_ts r, pr_price = of_human8 (pc_price r),
           pr_conf = of_human8 (case pc_conf r of None \<Rightarrow> 0 | Some c \<Rightarrow> c), pr_source = pc_source r\<rparr>)
     (first_row (sort_key (\<lambda>r. - pc_ts r) (filter (\<lambda>r. pc_commodity r = commodity) (db_prices d)))))"

section \<open>Pools\<close>

definition listActivePools :: "('x keeper_world_scheme, PoolRow list) io" where
  "listActivePools = db_read (\<lambda>d. filter (\<lambda>p. po_migrated_at p = None) (db_pools d))"

definition listUnmigratedPools :: "('x keeper_world_scheme, PoolRow list) io" where
  "listUnmigratedPools = listActivePools"

definition listAllPools :: "('x keeper_world_scheme, PoolRow list) io" where
  "listAllPools = db_read db_pools"

definition listMigratedPools :: "('x keeper_world_scheme, PoolRow list) io" where
  "listMigratedPools = db_read (\<lambda>d. filter (\<lambda>p. po_migrated_at p \<noteq> None) (db_pools d))"

definition markPoolMigrated :: "string \<Rightarrow> string \<Rightarrow> ('x keeper_world_scheme, unit) io" where
  "markPoolMigrated dbcPool dammPool = db_write (\<lambda>now d. d\<lparr>db_pools := update_where
     (\<lambda>p. po_dbc_pool p = dbcPool) (\<lambda>p. p\<lparr>po_migrated_at := Some now, po_damm_pool := Some dammPool\<rparr>) (db_pools d)\<rparr>)"

section \<open>Balance events\<close>

record BalanceEventRow =
  br_pool :: string
  br_wallet :: string
  br_delta :: string
  br_ts :: int

definition balance_row :: "BalanceCol \<Rightarrow> BalanceEventRow" where
  "balance_row r = \<lparr>br_pool = bc_pool r, br_wallet = bc_wallet r,
     br_delta = int_text (of_human6 (bc_delta r)), br_ts = bc_ts r\<rparr>"

definition getBalanceEvents :: "string \<Rightarrow> int \<Rightarrow> int \<Rightarrow> ('x keeper_world_scheme, BalanceEventRow list) io" where
  "getBalanceEvents pool startTs endTs = db_read (\<lambda>d. map balance_row (sort_key bc_ts
     (filter (\<lambda>r. bc_pool r = pool \<and> startTs \<le> bc_ts r \<and> bc_ts r < endTs) (db_balance_events d))))"

definition getBalanceEventsBefore :: "string \<Rightarrow> int \<Rightarrow> ('x keeper_world_scheme, BalanceEventRow list) io" where
  "getBalanceEventsBefore pool startTs = db_read (\<lambda>d. map balance_row (sort_key bc_ts
     (filter (\<lambda>r. bc_pool r = pool \<and> bc_ts r < startTs) (db_balance_events d))))"

section \<open>Epochs\<close>

record EpochRow =
  er_pool :: string
  er_index :: int
  er_coin_mint :: string
  er_start_ts :: int
  er_end_ts :: int
  er_total_amount :: string
  er_pushed_amount :: string
  er_merkle_root :: "string option"
  er_finalized :: bool

definition getLastEpoch :: "string \<Rightarrow> ('x keeper_world_scheme, EpochRow option) io" where
  "getLastEpoch pool = db_read (\<lambda>d. map_option
     (\<lambda>r. \<lparr>er_pool = ec_pool r, er_index = ec_index r, er_coin_mint = ec_coin_mint r,
           er_start_ts = ec_start_ts r, er_end_ts = ec_end_ts r,
           er_total_amount = int_text (of_human6 (ec_total_amount r)),
           er_pushed_amount = int_text (of_human6 (ec_pushed_amount r)),
           er_merkle_root = ec_merkle_root r, er_finalized = ec_finalized r\<rparr>)
     (first_row (sort_key (\<lambda>r. - ec_index r) (filter (\<lambda>r. ec_pool r = pool) (db_epochs d)))))"

text \<open>The argument of \<open>insertEpoch\<close>.\<close>

record EpochInsert =
  ei_pool :: string
  ei_index :: int
  ei_coin_mint :: string
  ei_start_ts :: int
  ei_end_ts :: int
  ei_total_amount :: int
  ei_eligible_holders :: int
  ei_epoch_pubkey :: string

definition insertEpoch :: "EpochInsert \<Rightarrow> ('x keeper_world_scheme, unit) io" where
  "insertEpoch row = db_write (\<lambda>now d. d\<lparr>db_epochs := upsert (\<lambda>r. (ec_pool r, ec_index r))
     (\<lambda>r. r\<lparr>ec_coin_mint := ei_coin_mint row, ec_start_ts := ei_start_ts row, ec_end_ts := ei_end_ts row,
        ec_total_amount := to_human6 (ei_total_amount row), ec_eligible_holders := ei_eligible_holders row,
        ec_epoch_pubkey := ei_epoch_pubkey row\<rparr>)
     \<lparr>ec_pool = ei_pool row, ec_index = ei_index row, ec_coin_mint = ei_coin_mint row,
      ec_start_ts = ei_start_ts row, ec_end_ts = ei_end_ts row, ec_total_amount = to_human6 (ei_total_amount row),
      ec_pushed_amount = 0, ec_merkle_root = None, ec_merkle_total = 0,
      ec_eligible_holders = ei_eligible_holders row, ec_finalized = False, ec_epoch_pubkey = ei_epoch_pubkey row\<rparr>
     (db_epochs d)\<rparr>)"

definition markEpochFinalized :: "string \<Rightarrow> int \<Rightarrow> string \<Rightarrow> int \<Rightarrow> int \<Rightarrow> ('x keeper_world_scheme, unit) io" where
  "markEpochFinalized pool index merkleRoot pushedAmount merkleTotal = db_write (\<lambda>now d. d\<lparr>db_epochs := update_where
     (\<lambda>r. ec_pool r = pool \<and> ec_index r = index)
     (\<lambda>r. r\<lparr>ec_finalized := True, ec_merkle_root := Some merkleRoot,
        ec_pushed_amount := to_human6 pushedAmount, ec_merkle_total := to_human6 merkleTotal\<rparr>) (db_epochs d)\<rparr>)"

record PayoutInsert =
  yi_pool :: string
  yi_epoch_index :: int
  yi_wallet :: string
  yi_coin_mint :: string
  yi_amount :: int
  yi_kind :: int
  yi_sig :: "string option"

definition payout_key :: "PayoutCol \<Rightarrow> string \<times> int \<times> string \<times> int" where
  "payout_key r = (yc_pool r, yc_epoch r, yc_wallet r, yc_kind r)"

definition payout_row :: "PayoutInsert \<Rightarrow> int \<Rightarrow> PayoutCol" where
  "payout_row row now = \<lparr>yc_pool = yi_pool row, yc_epoch = yi_epoch_index row, yc_wallet = yi_wallet row,
     yc_coin_mint = yi_coin_mint row, yc_amount = to_human6 (yi_amount row), yc_kind = yi_kind row,
     yc_ts = now, yc_sig = yi_sig row\<rparr>"

definition recordPayout :: "PayoutInsert \<Rightarrow> ('x keeper_world_scheme, unit) io" where
  "recordPayout row = db_write (\<lambda>now d. d\<lparr>db_payouts :=
     insert_or_ignore payout_key (payout_row row now) (db_payouts d)\<rparr>)"

definition pushed_rows :: "string \<Rightarrow> int \<Rightarrow> db \<Rightarrow> (string \<times> int) list" where
  "pushed_rows pool epochIndex d = map (\<lambda>r. (yc_wallet r, of_human6 (yc_amount r)))
     (filter (\<lambda>r. yc_pool r = pool \<and> yc_epoch r = epochIndex \<and> yc_kind r = 0) (db_payouts d))"

definition getPushedPayouts :: "string \<Rightarrow> int \<Rightarrow> ('x keeper_world_scheme, (string \<times> int) list) io" where
  "getPushedPayouts pool epochIndex = db_read (pushed_rows pool epochIndex)"

section \<open>Epoch progress\<close>

record EpochProgressRow =
  gr_pool :: string
  gr_epoch_index :: int
  gr_epoch_pubkey :: string
  gr_coin_mint :: string
  gr_phase :: EpochPhase
  gr_start_ts :: int
  gr_end_ts :: int
  gr_total_amount :: int
  gr_plan :: "EpochPlanItem list"
  gr_merkle_root :: "string option"

record EpochPlanInsert =
  gi_pool :: string
  gi_epoch_index :: int
  gi_epoch_pubkey :: string
  gi_coin_mint :: string
  gi_start_ts :: int
  gi_end_ts :: int
  gi_total_amount :: int
  gi_plan :: "EpochPlanItem list"

definition plan_json :: "EpochPlanItem list \<Rightarrow> (string \<times> string) list" where
  "plan_json plan = map (\<lambda>p. (pi_wallet p, int_text (pi_amount p))) plan"

definition progress_key :: "ProgressCol \<Rightarrow> string \<times> int" where
  "progress_key r = (gc_pool r, gc_epoch_index r)"

text \<open>The row inserted, and the \<open>do update set ... where phase = 'planned'\<close> of the same statement.\<close>

definition plan_new :: "EpochPlanInsert \<Rightarrow> ProgressCol" where
  "plan_new row =
     \<lparr>gc_pool = gi_pool row, gc_epoch_index = gi_epoch_index row, gc_epoch_pubkey = gi_epoch_pubkey row,
      gc_coin_mint = gi_coin_mint row, gc_phase = Planned, gc_start_ts = gi_start_ts row,
      gc_end_ts = gi_end_ts row, gc_total_amount = int_text (gi_total_amount row),
      gc_plan = plan_json (gi_plan row), gc_open_sig = None, gc_finalize_sig = None,
      gc_merkle_root = None, gc_last_error = None\<rparr>"

definition plan_update :: "EpochPlanInsert \<Rightarrow> ProgressCol \<Rightarrow> ProgressCol" where
  "plan_update row r =
     (if gc_phase r = Planned
      then r\<lparr>gc_epoch_pubkey := gi_epoch_pubkey row, gc_coin_mint := gi_coin_mint row,
             gc_start_ts := gi_start_ts row, gc_end_ts := gi_end_ts row,
             gc_total_amount := int_text (gi_total_amount row), gc_plan := plan_json (gi_plan row),
             gc_phase := Planned, gc_last_error := None\<rparr>
      else r)"

definition saveEpochPlan :: "EpochPlanInsert \<Rightarrow> ('x keeper_world_scheme, unit) io" where
  "saveEpochPlan row = db_write (\<lambda>now d. d\<lparr>db_progress :=
     upsert progress_key (plan_update row) (plan_new row) (db_progress d)\<rparr>)"

text \<open>Reading a row back parses the amounts; text that is no integer makes \<open>BigInt\<close> throw.\<close>

fun parse_plan :: "(string \<times> string) list \<Rightarrow> EpochPlanItem list option" where
  "parse_plan [] = Some []"
| "parse_plan ((w, a) # rest) = (case parse_bigint a of None \<Rightarrow> None | Some n \<Rightarrow>
     map_option (\<lambda>ps. \<lparr>pi_wallet = w, pi_amount = n\<rparr> # ps) (parse_plan rest))"

definition progress_row :: "ProgressCol \<Rightarrow> string + EpochProgressRow" where
  "progress_row r = (case parse_bigint (gc_total_amount r) of None \<Rightarrow> Inl ''SyntaxError''
     | Some amt \<Rightarrow> (case parse_plan (gc_plan r) of None \<Rightarrow> Inl ''SyntaxError''
     | Some plan \<Rightarrow> Inr \<lparr>gr_pool = gc_pool r, gr_epoch_index = gc_epoch_index r,
         gr_epoch_pubkey = gc_epoch_pubkey r, gr_coin_mint = gc_coin_mint r, gr_phase = gc_phase r,
         gr_start_ts = gc_start_ts r, gr_end_ts = gc_end_ts r, gr_total_amount = amt, gr_plan = plan,
         gr_merkle_root = gc_merkle_root r\<rparr>))"

definition find_progress :: "string \<Rightarrow> int \<Rightarrow> db \<Rightarrow> ProgressCol option" where
  "find_progress pool epochIndex d =
     first_row (filter (\<lambda>r. gc_pool r = pool \<and> gc_epoch_index r = epochIndex) (db_progress d))"

definition getEpochProgress :: "string \<Rightarrow> int \<Rightarrow> ('x keeper_world_scheme, EpochProgressRow option) io" where
  "getEpochProgress pool epochIndex = io_bind (db_read (find_progress pool epochIndex)) (\<lambda>r.
     case r of None \<Rightarrow> io_ret None
     | Some row \<Rightarrow> io_bind (io_result (progress_row row)) (\<lambda>p. io_ret (Some p)))"

record PhaseExtra =
  px_open_sig :: "string option"
  px_finalize_sig :: "string option"
  px_merkle_root :: "string option"
  px_last_error :: "string option"

definition no_extra :: PhaseExtra where
  "no_extra = \<lparr>px_open_sig = None, px_finalize_sig = None, px_merkle_root = None, px_last_error = None\<rparr>"

definition coalesce :: "'a option \<Rightarrow> 'a option \<Rightarrow> 'a option" where
  "coalesce a b = (case a of None \<Rightarrow> b | Some x \<Rightarrow> Some x)"

definition setEpochPhase :: "string \<Rightarrow> int \<Rightarrow> EpochPhase \<Rightarrow> PhaseExtra \<Rightarrow> ('x keeper_world_scheme, unit) io" where
  "setEpochPhase pool epochIndex phase extra = db_write (\<lambda>now d. d\<lparr>db_progress := update_where
     (\<lambda>r. gc_pool r = pool \<and> gc_epoch_index r = epochIndex)
     (\<lambda>r. r\<lparr>gc_phase := phase, gc_open_sig := coalesce (px_open_sig extra) (gc_open_sig r),
        gc_finalize_sig := coalesce (px_finalize_sig extra) (gc_finalize_sig r),
        gc_merkle_root := coalesce (px_merkle_root extra) (gc_merkle_root r),
        gc_last_error := px_last_error extra\<rparr>) (db_progress d)\<rparr>)"

definition setEpochError :: "string \<Rightarrow> int \<Rightarrow> string \<Rightarrow> ('x keeper_world_scheme, unit) io" where
  "setEpochError pool epochIndex error = db_write (\<lambda>now d. d\<lparr>db_progress := update_where
     (\<lambda>r. gc_pool r = pool \<and> gc_epoch_index r = epochIndex)
     (\<lambda>r. r\<lparr>gc_last_error := Some (take 2000 error)\<rparr>) (db_progress d)\<rparr>)"

fun sql_max :: "int list \<Rightarrow> int option" where
  "sql_max [] = None"
| "sql_max (x # xs) = (case sql_max xs of None \<Rightarrow> Some x | Some m \<Rightarrow> Some (max x m))"

text \<open>\<open>greatest\<close> ignores nulls.\<close>

definition sql_greatest :: "int option \<Rightarrow> int option \<Rightarrow> int option" where
  "sql_greatest a b = (case a of None \<Rightarrow> b | Some x \<Rightarrow> (case b of None \<Rightarrow> Some x | Some y \<Rightarrow> Some (max x y)))"

definition max_known_index :: "string \<Rightarrow> db \<Rightarrow> int" where
  "max_known_index pool d = (case sql_greatest
       (sql_max (map ec_index (filter (\<lambda>r. ec_pool r = pool) (db_epochs d))))
       (sql_max (map gc_epoch_index (filter (\<lambda>r. gc_pool r = pool) (db_progress d)))) of
     None \<Rightarrow> -1 | Some m \<Rightarrow> m)"

definition getMaxKnownEpochIndex :: "string \<Rightarrow> ('x keeper_world_scheme, int) io" where
  "getMaxKnownEpochIndex pool = db_read (max_known_index pool)"

section \<open>Candles and leaves\<close>

text \<open>\<open>order by ts desc, tf asc limit 1\<close>; the close is returned exactly (a numeric as text).\<close>

definition getLatestCandleClose :: "string \<Rightarrow> ('x keeper_world_scheme, (rat \<times> int) option) io" where
  "getLatestCandleClose pool = db_read (\<lambda>d. map_option (\<lambda>r. (cc_c r, cc_ts r))
     (first_row (sort_key (\<lambda>r. - cc_ts r) (sort_key cc_tf
        (filter (\<lambda>r. cc_pool r = pool \<and> cc_c r > 0) (db_candles d))))))"

definition leaf_key :: "MerkleLeafRow \<Rightarrow> string \<times> int \<times> string" where
  "leaf_key r = (ml_pool r, ml_epoch_index r, ml_wallet r)"

definition insert_leaf :: "MerkleLeafRow \<Rightarrow> MerkleLeafRow list \<Rightarrow> MerkleLeafRow list" where
  "insert_leaf r = upsert leaf_key (\<lambda>x. x\<lparr>ml_amount := ml_amount r, ml_proof := ml_proof r\<rparr>) r"

text \<open>
  The transaction: statements between \<open>begin\<close> and \<open>commit\<close> work on a private copy of the table, and
  only a commit that reaches the server publishes it.
\<close>

definition client_query :: "('s \<Rightarrow> 's) \<Rightarrow> 's \<Rightarrow> ('x keeper_world_scheme, 's) io" where
  "client_query f staged = remote pop_fault (io_ret (f staged))"

definition insertMerkleLeaves :: "MerkleLeafRow list \<Rightarrow> ('x keeper_world_scheme, unit) io" where
  "insertMerkleLeaves rows = (if rows = [] then io_ret () else
     io_bind (db_read db_leaves) (\<lambda>start.
     io_catch
       (io_bind (io_fold rows (\<lambda>r. client_query (insert_leaf r)) start) (\<lambda>staged.
        db_write (\<lambda>now d. d\<lparr>db_leaves := staged\<rparr>)))
       (\<lambda>err. io_then (client_query id ()) (io_throw err))))"

section \<open>Fee claims, buybacks, commodities\<close>

record FeeClaimInsert =
  fi_pool :: string
  fi_source :: int
  fi_quote_amount :: int
  fi_base_amount :: int
  fi_sig :: string

definition fee_claim_key :: "FeeClaimCol \<Rightarrow> string \<times> string \<times> int" where
  "fee_claim_key r = (fc_sig r, fc_pool r, fc_source r)"

definition recordFeeClaim :: "FeeClaimInsert \<Rightarrow> ('x keeper_world_scheme, unit) io" where
  "recordFeeClaim row = db_write (\<lambda>now d. d\<lparr>db_fee_claims := insert_or_ignore fee_claim_key
     \<lparr>fc_pool = fi_pool row, fc_source = fi_source row, fc_quote_amount = to_human6 (fi_quote_amount row),
      fc_base_amount = to_human6 (fi_base_amount row), fc_ts = now, fc_sig = fi_sig row\<rparr> (db_fee_claims d)\<rparr>)"

record BuybackInsert =
  bi_coin_mint :: string
  bi_coin_amount :: int
  bi_gld_amount :: int
  bi_ice_burned :: int
  bi_sig :: string

definition recordBuyback :: "BuybackInsert \<Rightarrow> ('x keeper_world_scheme, unit) io" where
  "recordBuyback row = db_write (\<lambda>now d. d\<lparr>db_buybacks := insert_or_ignore bb_sig
     \<lparr>bb_coin_mint = bi_coin_mint row, bb_coin_amount = to_human6 (bi_coin_amount row),
      bb_gld_amount = to_human6 (bi_gld_amount row), bb_ice_burned = to_human6 (bi_ice_burned row),
      bb_ts = now, bb_sig = bi_sig row\<rparr> (db_buybacks d)\<rparr>)"

record CommodityRow =
  cr_symbol :: string
  cr_commodity_pubkey :: string
  cr_status :: int
  cr_session_kind :: int
  cr_oracle_kind :: int
  cr_feed_account :: "string option"

definition STATUS_TEXT :: "string list" where
  "STATUS_TEXT = [''open'', ''closed'', ''halted'']"

definition status_code :: "string \<Rightarrow> int" where
  "status_code s = (if s = ''open'' then 0 else if s = ''closed'' then 1 else 2)"

definition status_text :: "int \<Rightarrow> string" where
  "status_text status = (if 0 \<le> status \<and> status < 3 then STATUS_TEXT ! nat status else ''halted'')"

definition listCommodities :: "('x keeper_world_scheme, CommodityRow list) io" where
  "listCommodities = db_read (\<lambda>d. List.map_filter (\<lambda>r. map_option
     (\<lambda>k. \<lparr>cr_symbol = mc_symbol r, cr_commodity_pubkey = k, cr_status = status_code (mc_status r),
           cr_session_kind = mc_session_kind r, cr_oracle_kind = mc_oracle_kind r,
           cr_feed_account = mc_feed_account r\<rparr>) (mc_commodity_pubkey r)) (db_commodities d))"

definition updateCommodityStatus :: "string \<Rightarrow> int \<Rightarrow> ('x keeper_world_scheme, unit) io" where
  "updateCommodityStatus symbol status = db_write (\<lambda>now d. d\<lparr>db_commodities := update_where
     (\<lambda>c. mc_symbol c = symbol) (\<lambda>c. c\<lparr>mc_status := status_text status\<rparr>) (db_commodities d)\<rparr>)"

definition updateCommodityFeedAccount :: "string \<Rightarrow> string \<Rightarrow> ('x keeper_world_scheme, unit) io" where
  "updateCommodityFeedAccount symbol feedAccount = db_write (\<lambda>now d. d\<lparr>db_commodities := update_where
     (\<lambda>c. mc_symbol c = symbol) (\<lambda>c. c\<lparr>mc_feed_account := Some feedAccount\<rparr>) (db_commodities d)\<rparr>)"


section \<open>Conversions are exact\<close>

lemma sql_round_of_int: "sql_round (of_int n) = n"
proof -
  have "\<lfloor>of_int k + 1 / 2 :: rat\<rfloor> = k" for k by (intro floor_unique) simp_all
  from this [of n] this [of "- n"] show ?thesis by (simp add: sql_round_def)
qed

lemma of_to_human6 [simp]: "of_human6 (to_human6 n) = n"
  by (simp add: of_human6_def to_human6_def sql_round_of_int)

lemma of_to_human8 [simp]: "of_human8 (to_human8 n) = n"
  by (simp add: of_human8_def to_human8_def sql_round_of_int)

lemma parse_plan_json [simp]: "parse_plan (plan_json plan) = Some plan"
  by (induction plan) (simp_all add: plan_json_def)

section \<open>Keyed tables\<close>

text \<open>
  The contract of \<open>insert ... on conflict do nothing\<close> with a unique key: the key stays unique, the
  inserted key is present afterwards, a row already there is kept, nothing else changes.
\<close>

locale keyed_table =
  fixes key :: "'row \<Rightarrow> 'key" and ins :: "'row \<Rightarrow> 'row list \<Rightarrow> 'row list"
  assumes ins_fresh: "key r \<notin> key ` set t \<Longrightarrow> ins r t = t @ [r]"
    and ins_present: "key r \<in> key ` set t \<Longrightarrow> ins r t = t"
begin

definition unique_keys :: "'row list \<Rightarrow> bool" where
  "unique_keys t \<longleftrightarrow> distinct (map key t)"

lemma unique_ins: "unique_keys t \<Longrightarrow> unique_keys (ins r t)"
  by (cases "key r \<in> key ` set t") (simp_all add: ins_fresh ins_present unique_keys_def)

lemma keys_ins: "key ` set (ins r t) = insert (key r) (key ` set t)"
  by (cases "key r \<in> key ` set t") (auto simp: ins_fresh ins_present)

lemma ins_idem: "ins r (ins r' t) = ins r' t" if "key r = key r'"
  using that keys_ins [of r' t] by (intro ins_present) auto

lemma first_writer_wins: "x \<in> set t \<Longrightarrow> x \<in> set (ins r t)"
  by (cases "key r \<in> key ` set t") (simp_all add: ins_fresh ins_present)

lemma ins_only: "x \<in> set (ins r t) \<Longrightarrow> x \<in> set t \<or> x = r"
  by (cases "key r \<in> key ` set t") (auto simp: ins_fresh ins_present)

text \<open>Two writers of the same facts, in either order, leave the same keys.\<close>

lemma keys_commute: "key ` set (ins r (ins s t)) = key ` set (ins s (ins r t))"
  by (auto simp: keys_ins)

end

interpretation payouts_tbl: keyed_table payout_key "insert_or_ignore payout_key"
  by unfold_locales (simp_all add: insert_or_ignore_def)

interpretation fee_claims_tbl: keyed_table fee_claim_key "insert_or_ignore fee_claim_key"
  by unfold_locales (simp_all add: insert_or_ignore_def)

interpretation buybacks_tbl: keyed_table bb_sig "insert_or_ignore bb_sig"
  by unfold_locales (simp_all add: insert_or_ignore_def)

interpretation prices_tbl: keyed_table "\<lambda>r. (pc_commodity r, pc_ts r, pc_source r)"
    "insert_or_ignore (\<lambda>r. (pc_commodity r, pc_ts r, pc_source r))"
  by unfold_locales (simp_all add: insert_or_ignore_def)

section \<open>Rules for queries\<close>

lemma snd_pop_fault: "pop_fault w = (f, w') \<Longrightarrow> w' = w \<or> (\<exists>fs. w' = w\<lparr>kw_faults := fs\<rparr>)"
  by (auto simp: pop_fault_def split: list.splits)

definition fault_blind :: "('x keeper_world_scheme \<Rightarrow> bool) \<Rightarrow> bool" where
  "fault_blind I \<longleftrightarrow> (\<forall>w fs. I w \<longrightarrow> I (w\<lparr>kw_faults := fs\<rparr>))"

lemma fault_blind_pop: "fault_blind I \<Longrightarrow> I w \<Longrightarrow> pop_fault w = (f, w') \<Longrightarrow> I w'"
  using snd_pop_fault [of w f w'] by (auto simp: fault_blind_def)

text \<open>A query returns what it read and leaves what it wrote, or fails around either.\<close>

lemma db_query_spec:
  assumes "fault_blind P" "\<And>w. P w \<Longrightarrow> E w"
    and "\<And>w a d. P w \<Longrightarrow> f (kw_now w) (kw_db w) = (a, d) \<Longrightarrow> E (w\<lparr>kw_db := d\<rparr>) \<and> Q a (w\<lparr>kw_db := d\<rparr>)"
  shows "io_spec P (db_query f) Q E"
  unfolding db_query_def
  using assms by (intro remote_spec) (auto intro: fault_blind_pop split: prod.splits)

lemma db_read_spec [io_rules]:
  assumes "fault_blind P" "\<And>w. P w \<Longrightarrow> E w" "\<And>w. P w \<Longrightarrow> Q (f (kw_db w)) w"
  shows "io_spec P (db_read f) Q E"
  unfolding db_read_def by (rule db_query_spec [OF assms(1,2)]) (use assms(2,3) in auto)

lemma db_write_spec [io_rules]:
  assumes "fault_blind P" "\<And>w. P w \<Longrightarrow> E w"
    "\<And>w. P w \<Longrightarrow> E (w\<lparr>kw_db := f (kw_now w) (kw_db w)\<rparr>) \<and> Q () (w\<lparr>kw_db := f (kw_now w) (kw_db w)\<rparr>)"
  shows "io_spec P (db_write f) Q E"
  unfolding db_write_def by (rule db_query_spec [OF assms(1,2)]) (use assms(3) in auto)

lemma db_read_inv [io_rules]: "fault_blind I \<Longrightarrow> io_inv I (db_read f)"
  unfolding io_inv_def by (intro db_read_spec)

lemma db_write_inv:
  "fault_blind I \<Longrightarrow> (\<And>w. I w \<Longrightarrow> I (w\<lparr>kw_db := f (kw_now w) (kw_db w)\<rparr>)) \<Longrightarrow> io_inv I (db_write f)"
  unfolding io_inv_def by (intro db_write_spec) auto

lemma client_query_inv [io_rules]: "fault_blind I \<Longrightarrow> io_inv I (client_query f s)"
  unfolding client_query_def by (intro io_inv_remote) (auto simp: io_ret_def dest: fault_blind_pop intro: prod.collapse [symmetric])


section \<open>The progress table\<close>

lemma find_progress_Some:
  "find_progress pool i d = Some r \<Longrightarrow> r \<in> set (db_progress d) \<and> progress_key r = (pool, i)"
  by (auto simp: find_progress_def first_row_def progress_key_def dest!: filter_eq_ConsD split: list.splits)

lemma find_progress_None: "find_progress pool i d = None \<longleftrightarrow> (pool, i) \<notin> progress_key ` set (db_progress d)"
  by (force simp: find_progress_def first_row_def progress_key_def filter_empty_conv
      dest: filter_eq_ConsD split: list.splits)

lemma first_row_filter_upsert:
  assumes "\<And>x. key (upd x) = key x"
  shows "first_row (filter (\<lambda>x. key x = key r) (upsert key upd r t)) =
    (case first_row (filter (\<lambda>x. key x = key r) t) of None \<Rightarrow> Some r | Some x \<Rightarrow> Some (upd x))"
proof (cases "key r \<in> key ` set t")
  case True
  have "first_row (filter (\<lambda>x. key x = key r) (map (\<lambda>x. if key x = key r then upd x else x) t)) =
      map_option upd (first_row (filter (\<lambda>x. key x = key r) t))"
    using assms by (induction t) (auto simp: first_row_def)
  moreover have "first_row (filter (\<lambda>x. key x = key r) t) \<noteq> None"
    using True by (auto simp: first_row_def filter_empty_conv split: list.splits)
  ultimately show ?thesis using True by (auto simp: upsert_def)
next
  case False
  then have "filter (\<lambda>x. key x = key r) t = []" by (auto simp: filter_empty_conv) (metis imageI)
  then show ?thesis using False by (simp add: upsert_def first_row_def)
qed

lemma find_progress_key: "find_progress pool i d = first_row (filter (\<lambda>x. progress_key x = (pool, i)) (db_progress d))"
  by (simp add: find_progress_def progress_key_def)

text \<open>A write that returned took effect.\<close>

lemma db_write_Ret:
  assumes "db_write f w = (Ret u, w')"
  shows "\<exists>fs. w' = w\<lparr>kw_faults := fs, kw_db := f (kw_now w) (kw_db w)\<rparr>"
proof -
  obtain g w1 where p: "pop_fault w = (g, w1)" by (cases "pop_fault w")
  then have "\<exists>fs. w1 = w\<lparr>kw_faults := fs\<rparr>"
    using snd_pop_fault [OF p] by (auto intro: exI [of _ "kw_faults w"])
  then show ?thesis using assms p
    by (cases g) (auto simp: db_write_def db_query_def remote_def)
qed

section \<open>Transactions\<close>

lemma pop_fault_db [simp]: "pop_fault w = (f, w') \<Longrightarrow> kw_db w' = kw_db w"
  using snd_pop_fault [of w f w'] by auto

lemma client_query_db: "client_query f s w = (r, w') \<Longrightarrow> kw_db w' = kw_db w \<and> (\<forall>a. r = Ret a \<longrightarrow> a = f s)"
  by (cases "fst (pop_fault w)"; cases "pop_fault w")
    (auto simp: client_query_def remote_def io_ret_def)

lemma staged_inserts:
  "io_fold rows (\<lambda>r. client_query (insert_leaf r)) s w = (res, w') \<Longrightarrow>
    kw_db w' = kw_db w \<and> (\<forall>a. res = Ret a \<longrightarrow> a = fold insert_leaf rows s)"
proof (induction rows arbitrary: s w)
  case Nil
  then show ?case by (auto simp: io_ret_def)
next
  case (Cons r rows)
  obtain q w1 where q: "client_query (insert_leaf r) s w = (q, w1)" by (cases "client_query (insert_leaf r) s w")
  note cq = client_query_db [OF q]
  show ?case
  proof (cases q)
    case (Ret a)
    then have "io_fold rows (\<lambda>r. client_query (insert_leaf r)) a w1 = (res, w')" "a = insert_leaf r s"
      using Cons.prems q cq by (auto simp: io_bind_def)
    then show ?thesis using Cons.IH [of a w1] cq by simp
  qed (use Cons.prems q cq in \<open>auto simp: io_bind_def\<close>)
qed

lemma db_write_leaves:
  "db_write (\<lambda>now d. d\<lparr>db_leaves := l\<rparr>) w = (r, w') \<Longrightarrow>
    db_leaves (kw_db w') \<in> {db_leaves (kw_db w), l} \<and> (r = Ret () \<longrightarrow> db_leaves (kw_db w') = l)"
  by (cases "fst (pop_fault w)"; cases "pop_fault w")
    (auto simp: db_write_def db_query_def remote_def)

lemma db_read_db: "db_read f w = (r, w') \<Longrightarrow> kw_db w' = kw_db w \<and> (\<forall>a. r = Ret a \<longrightarrow> a = f (kw_db w))"
  by (cases "fst (pop_fault w)"; cases "pop_fault w") (auto simp: db_read_def db_query_def remote_def)

section \<open>Properties\<close>

text \<open>
  The plan an epoch was opened with is the plan it resumes.  A \<open>saveEpochPlan\<close> that returned
  is read back as it was written, amounts exact, when the epoch is new or still \<open>planned\<close>; once the
  epoch has been opened the saved plan is never replaced.
\<close>

theorem plan_persisted:
  assumes "saveEpochPlan row w = (Ret (), w')"
  shows "case find_progress (gi_pool row) (gi_epoch_index row) (kw_db w) of
      Some r \<Rightarrow> (if gc_phase r = Planned
        then \<exists>r' p. find_progress (gi_pool row) (gi_epoch_index row) (kw_db w') = Some r' \<and>
          progress_row r' = Inr p \<and> gr_plan p = gi_plan row \<and> gr_total_amount p = gi_total_amount row \<and>
          gr_phase p = Planned
        else find_progress (gi_pool row) (gi_epoch_index row) (kw_db w') = Some r)
    | None \<Rightarrow> \<exists>r' p. find_progress (gi_pool row) (gi_epoch_index row) (kw_db w') = Some r' \<and>
          progress_row r' = Inr p \<and> gr_plan p = gi_plan row \<and> gr_total_amount p = gi_total_amount row \<and>
          gr_phase p = Planned"
proof -
  have key: "progress_key (plan_update row x) = progress_key x"
    "progress_key (plan_new row) = (gi_pool row, gi_epoch_index row)" for x
    by (simp_all add: progress_key_def plan_update_def plan_new_def)
  have "db_progress (kw_db w') = upsert progress_key (plan_update row) (plan_new row) (db_progress (kw_db w))"
    using db_write_Ret [OF assms [unfolded saveEpochPlan_def]] by auto
  then have "find_progress (gi_pool row) (gi_epoch_index row) (kw_db w') =
      (case find_progress (gi_pool row) (gi_epoch_index row) (kw_db w) of
        None \<Rightarrow> Some (plan_new row) | Some x \<Rightarrow> Some (plan_update row x))"
    using first_row_filter_upsert [of progress_key "plan_update row" "plan_new row" "db_progress (kw_db w)"] key
    by (simp add: find_progress_key)
  then show ?thesis
    by (auto simp: progress_row_def plan_new_def plan_update_def split: option.splits)
qed

definition demo_db :: db where
  "demo_db = \<lparr>db_prices = [], db_pools = [], db_balance_events = [], db_epochs = [], db_payouts = [],
     db_progress = [], db_candles = [], db_leaves = [], db_fee_claims = [], db_buybacks = [], db_commodities = []\<rparr>"

definition demo_world :: "fault list \<Rightarrow> keeper_world" where
  "demo_world fs = \<lparr>kw_faults = fs, kw_db = demo_db, kw_now = 1000\<rparr>"

definition demo_plan :: EpochPlanInsert where
  "demo_plan = \<lparr>gi_pool = ''p'', gi_epoch_index = 0, gi_epoch_pubkey = ''e'', gi_coin_mint = ''c'', gi_start_ts = 0,
     gi_end_ts = 900, gi_total_amount = 1000,
     gi_plan = [\<lparr>pi_wallet = ''a'', pi_amount = 610\<rparr>, \<lparr>pi_wallet = ''b'', pi_amount = 390\<rparr>]\<rparr>"

theorem plan_persisted_witness:
  "\<exists>r p. find_progress ''p'' 0 (kw_db (snd (saveEpochPlan demo_plan (demo_world [])))) = Some r \<and>
    progress_row r = Inr p \<and> gr_plan p = gi_plan demo_plan"
proof -
  obtain w' where "saveEpochPlan demo_plan (demo_world []) = (Ret (), w')"
    by (simp add: saveEpochPlan_def db_write_def db_query_def remote_def pop_fault_def demo_world_def)
  moreover have "find_progress (gi_pool demo_plan) (gi_epoch_index demo_plan) (kw_db (demo_world [])) = None"
    by (simp add: find_progress_def demo_world_def demo_db_def first_row_def)
  ultimately show ?thesis using plan_persisted [of demo_plan "demo_world []" w']
    by (auto simp: demo_plan_def)
qed

text \<open>
  The leaves of an epoch are stored together or not at all.  Whatever faults hit the
  transaction, \<open>insertMerkleLeaves\<close> leaves the table as it was or with every row upserted, and it
  returns only in the second case.
\<close>

theorem leaves_atomic:
  assumes "insertMerkleLeaves rows w = (r, w')"
  shows "db_leaves (kw_db w') \<in> {db_leaves (kw_db w), fold insert_leaf rows (db_leaves (kw_db w))} \<and>
    (r = Ret () \<longrightarrow> db_leaves (kw_db w') = fold insert_leaf rows (db_leaves (kw_db w)))"
proof (cases "rows = []")
  case True
  then show ?thesis using assms by (auto simp: insertMerkleLeaves_def io_ret_def)
next
  case False
  let ?body = "\<lambda>start. io_bind (io_fold rows (\<lambda>r. client_query (insert_leaf r)) start) (\<lambda>staged.
        db_write (\<lambda>now d. d\<lparr>db_leaves := staged\<rparr>))"
  obtain q w1 where q: "db_read db_leaves w = (q, w1)" by (cases "db_read db_leaves w")
  note rd = db_read_db [OF q]
  show ?thesis
  proof (cases q)
    case (Ret start)
    then have start: "start = db_leaves (kw_db w)" "kw_db w1 = kw_db w" using rd by auto
    obtain b w2 where b: "?body start w1 = (b, w2)" by (cases "?body start w1")
    obtain f w3 where f: "io_fold rows (\<lambda>r. client_query (insert_leaf r)) start w1 = (f, w3)"
      by (cases "io_fold rows (\<lambda>r. client_query (insert_leaf r)) start w1")
    note st = staged_inserts [OF f]
    have body: "db_leaves (kw_db w2) \<in> {db_leaves (kw_db w), fold insert_leaf rows (db_leaves (kw_db w))} \<and>
        (b = Ret () \<longrightarrow> db_leaves (kw_db w2) = fold insert_leaf rows (db_leaves (kw_db w)))"
      using b f st start by (cases f) (auto simp: io_bind_def dest!: db_write_leaves)
    have run: "io_catch (?body start) (\<lambda>err. io_then (client_query id ()) (io_throw err)) w1 = (r, w')"
      using assms False q Ret by (simp add: insertMerkleLeaves_def io_bind_def)
    show ?thesis
    proof (cases b)
      case (Throw e)
      obtain c w4 where c: "client_query id () w2 = (c, w4)" by (cases "client_query id () w2")
      have "r \<noteq> Ret ()" "w' = w4"
        using run b Throw c by (cases c; auto simp: io_catch_def io_then_def io_bind_def io_throw_def)+
      then show ?thesis using body client_query_db [OF c] by simp
    qed (use run b body in \<open>auto simp: io_catch_def\<close>)
  qed (use assms False q rd in \<open>auto simp: insertMerkleLeaves_def io_bind_def\<close>)
qed

definition demo_leaf :: "string \<Rightarrow> MerkleLeafRow" where
  "demo_leaf wallet = \<lparr>ml_pool = ''p'', ml_epoch_index = 0, ml_epoch_pubkey = ''e'', ml_wallet = wallet,
     ml_coin_mint = ''c'', ml_amount = ''5'', ml_proof = []\<rparr>"

theorem leaves_atomic_witness:
  "db_leaves (kw_db (snd (insertMerkleLeaves [demo_leaf ''a'', demo_leaf ''b''] (demo_world [Fine, Fine, FailAfter])))) = []"
proof -
  obtain r w' where run: "insertMerkleLeaves [demo_leaf ''a'', demo_leaf ''b''] (demo_world [Fine, Fine, FailAfter]) = (r, w')"
    by (cases "insertMerkleLeaves [demo_leaf ''a'', demo_leaf ''b''] (demo_world [Fine, Fine, FailAfter])")
  have "db_leaves (kw_db w') \<noteq> fold insert_leaf [demo_leaf ''a'', demo_leaf ''b''] []"
    using run by (simp add: insertMerkleLeaves_def io_bind_def io_catch_def io_then_def db_read_def db_query_def
        remote_def pop_fault_def demo_world_def client_query_def io_ret_def io_throw_def demo_db_def
        insert_leaf_def upsert_def split: prod.splits) auto
  then show ?thesis using leaves_atomic [OF run] run by (simp add: demo_world_def demo_db_def)
qed

end
