(* ===== verification/Js_Number.thy ===== *)
theory Js_Number
  imports Prelude Complex_Main
begin

text \<open>
  JavaScript numbers.  A \<open>number\<close> is an IEEE binary64 value: a finite one is kept as the rational
  it denotes (the sign of zero is not kept: no code modelled here observes it), the others are
  \<open>PInf\<close>, \<open>NInf\<close> and \<open>NaN\<close>.  Every operation rounds its exact result to the nearest double, ties
  to even, with gradual underflow and overflow to infinity.  The first part defines that rounding on
  rationals (\<open>fl\<close>) and proves what the components rely on: it is monotone, odd, exact on the
  integers up to \<open>2 ^ 53\<close> and within half a unit in the last place.
\<close>

section \<open>Rounding to the nearest integer, ties to even\<close>

definition rne :: "rat \<Rightarrow> int" where
  "rne y = (let f = \<lfloor>y\<rfloor>; d = y - of_int f
     in if d < 1 / 2 then f else if d > 1 / 2 then f + 1 else if even f then f else f + 1)"

lemma rne_of_int [simp]: "rne (of_int n) = n"
  by (simp add: rne_def)

lemma rne_zero [simp]: "rne 0 = 0"
  using rne_of_int [of 0] by simp

lemma rne_floor_le: "\<lfloor>y\<rfloor> \<le> rne y"
  by (simp add: rne_def Let_def)

lemma rne_le_ceiling_bound: "rne y \<le> \<lfloor>y\<rfloor> + 1"
  by (simp add: rne_def Let_def)

lemma rne_mono: "x \<le> y \<Longrightarrow> rne x \<le> rne y"
proof -
  assume xy: "x \<le> y"
  then have f: "\<lfloor>x\<rfloor> \<le> \<lfloor>y\<rfloor>" by (rule floor_mono)
  show ?thesis
  proof (cases "\<lfloor>x\<rfloor> = \<lfloor>y\<rfloor>")
    case True
    then show ?thesis using xy by (auto simp: rne_def Let_def)
  next
    case False
    then have "\<lfloor>x\<rfloor> + 1 \<le> \<lfloor>y\<rfloor>" using f by simp
    then show ?thesis using rne_le_ceiling_bound [of x] rne_floor_le [of y] by linarith
  qed
qed

lemma rne_error: "\<bar>of_int (rne y) - y\<bar> \<le> 1 / 2"
proof -
  have "of_int \<lfloor>y\<rfloor> \<le> y" "y < of_int \<lfloor>y\<rfloor> + 1" by linarith+
  then show ?thesis by (auto simp: rne_def Let_def)
qed

lemma floor_minus_frac:
  fixes y :: rat
  assumes "y \<noteq> of_int \<lfloor>y\<rfloor>"
  shows "\<lfloor>- y\<rfloor> = - \<lfloor>y\<rfloor> - 1"
proof -
  have "of_int \<lfloor>y\<rfloor> < y" "y < of_int \<lfloor>y\<rfloor> + 1" using assms by linarith+
  then show ?thesis by (intro floor_unique) simp_all
qed

lemma rne_minus: "rne (- y) = - rne y"
proof (cases "y = of_int \<lfloor>y\<rfloor>")
  case True
  then show ?thesis using rne_of_int [of "\<lfloor>y\<rfloor>"] rne_of_int [of "- \<lfloor>y\<rfloor>"] by simp
next
  case False
  then have f: "\<lfloor>- y\<rfloor> = - \<lfloor>y\<rfloor> - 1" by (rule floor_minus_frac)
  show ?thesis by (auto simp: rne_def Let_def f)
qed

section \<open>Binary exponents\<close>

text \<open>\<open>flog2 x\<close> is the exponent of the leading bit of a positive rational.\<close>

function int_log2 :: "int \<Rightarrow> int" where
  "int_log2 n = (if n < 2 then 0 else 1 + int_log2 (n div 2))"
  by auto
termination by (relation "measure nat") auto

declare int_log2.simps [simp del]

lemma int_log2_bounds: "1 \<le> n \<Longrightarrow> 0 \<le> int_log2 n \<and> 2 ^ nat (int_log2 n) \<le> n \<and> n < 2 * 2 ^ nat (int_log2 n)"
proof (induction n rule: int_log2.induct)
  case (1 n)
  show ?case
  proof (cases "n < 2")
    case True
    then show ?thesis using 1 by (simp add: int_log2.simps [of n])
  next
    case False
    then have d: "1 \<le> n div 2" by simp
    let ?k = "int_log2 (n div 2)"
    have ih: "0 \<le> ?k" "2 ^ nat ?k \<le> n div 2" "n div 2 < 2 * 2 ^ nat ?k" using 1 False d by auto
    have e: "int_log2 n = 1 + ?k" using False by (simp add: int_log2.simps [of n])
    have p: "(2::int) ^ nat (int_log2 n) = 2 * 2 ^ nat ?k" using ih(1) by (simp add: e nat_add_distrib)
    have "0 \<le> int_log2 n" using ih(1) e by simp
    moreover have "2 ^ nat (int_log2 n) \<le> n" "n < 2 * 2 ^ nat (int_log2 n)"
      unfolding p using ih(2,3) by linarith+
    ultimately show ?thesis by blast
  qed
qed

definition flog2 :: "rat \<Rightarrow> int" where
  "flog2 x = (case quotient_of x of (p, q) \<Rightarrow>
     if q \<le> p then int_log2 (p div q)
     else (let k = int_log2 (q div p) in if p * 2 ^ nat k = q then - k else - k - 1))"

lemma powi_nonneg_nat: "0 \<le> k \<Longrightarrow> (2::rat) powi k = of_int (2 ^ nat k)"
  by (simp add: power_int_def)

lemma powi_Suc2: "(2::rat) powi (k + 1) = 2 * 2 powi k"
  by (subst power_int_add) simp_all

lemma powi_minus_one: "(2::rat) powi (k - 1) = 2 powi k / 2"
  by (subst power_int_diff) simp_all

lemma flog2_bounds:
  assumes "0 < x"
  shows "2 powi flog2 x \<le> x" "x < 2 powi (flog2 x + 1)"
proof -
  obtain p q where pq: "quotient_of x = (p, q)" by (cases "quotient_of x")
  have q: "0 < q" using pq by (rule quotient_of_denom_pos)
  have x: "x = of_int p / of_int q" using pq by (rule quotient_of_div)
  have p: "0 < p" using assms q by (simp add: x zero_less_divide_iff)
  have "2 powi flog2 x \<le> x \<and> x < 2 powi (flog2 x + 1)"
  proof (cases "q \<le> p")
    case True
    let ?k = "int_log2 (p div q)"
    have "1 \<le> p div q" using True q by (simp add: div_ge_iff)
    from int_log2_bounds [OF this] have k: "0 \<le> ?k" "2 ^ nat ?k \<le> p div q" "p div q + 1 \<le> 2 * 2 ^ nat ?k"
      by auto
    have "2 ^ nat ?k * q \<le> p" using k(2) q by (simp add: div_ge_iff)
    then have lo: "of_int (2 ^ nat ?k) * of_int q \<le> (of_int p :: rat)"
      by (simp only: of_int_le_iff of_int_mult [symmetric])
    have "p div q < 2 * 2 ^ nat ?k" using k(3) by simp
    then have "\<not> 2 * 2 ^ nat ?k * q \<le> p" using div_ge_iff [OF q, of "2 * 2 ^ nat ?k" p] by simp
    then have "p < 2 * 2 ^ nat ?k * q" by simp
    then have hi: "(of_int p :: rat) < of_int (2 * 2 ^ nat ?k) * of_int q"
      by (simp only: of_int_less_iff of_int_mult [symmetric])
    have e: "flog2 x = ?k" using True by (simp add: flog2_def pq)
    have n: "nat (?k + 1) = Suc (nat ?k)" using k(1) by simp
    show ?thesis unfolding e using lo hi q k(1)
      by (simp add: powi_nonneg_nat n x pos_le_divide_eq pos_divide_less_eq)
  next
    case False
    then have lt: "p < q" by simp
    let ?k = "int_log2 (q div p)"
    have "1 \<le> q div p" using lt p by (simp add: div_ge_iff)
    from int_log2_bounds [OF this] have k: "0 \<le> ?k" "2 ^ nat ?k \<le> q div p" "q div p < 2 * 2 ^ nat ?k"
      by auto
    have lo: "p * 2 ^ nat ?k \<le> q" using k(2) p by (simp add: div_ge_iff mult.commute)
    have "\<not> 2 * 2 ^ nat ?k * p \<le> q" using k(3) div_ge_iff [OF p, of "2 * 2 ^ nat ?k" q] by simp
    then have hi: "q < p * (2 * 2 ^ nat ?k)" by (simp add: ac_simps)
    have pw: "(2::rat) powi (- ?k) = 1 / of_int (2 ^ nat ?k)"
      using k(1) by (simp add: power_int_minus powi_nonneg_nat divide_inverse)
    have pw1: "(2::rat) powi (- ?k - 1) = 1 / of_int (2 * 2 ^ nat ?k)"
      unfolding powi_minus_one pw by simp
    have half: "(2::rat) powi (- ?k + 1) = 2 * (1 / of_int (2 ^ nat ?k))"
      unfolding powi_Suc2 pw by simp
    show ?thesis
    proof (cases "p * 2 ^ nat ?k = q")
      case True
      then have e: "flog2 x = - ?k" using lt by (simp add: flog2_def pq Let_def)
      define K where "K = nat ?k"
      have "(of_int q :: rat) = of_int (p * 2 ^ K)" unfolding K_def True ..
      then have "x = 1 / of_int (2 ^ K)" using p by (simp add: x)
      then have "x = 1 / of_int (2 ^ nat ?k)" unfolding K_def .
      then show ?thesis unfolding e half pw by (simp add: divide_strict_right_mono)
    next
      case False
      then have e: "flog2 x = - ?k - 1" using lt by (simp add: flog2_def pq Let_def)
      have "p * 2 ^ nat ?k < q" using lo False by simp
      then have lo': "(of_int p :: rat) * of_int (2 ^ nat ?k) < of_int q"
        by (simp only: of_int_less_iff of_int_mult [symmetric])
      have hi': "(of_int q :: rat) < of_int p * of_int (2 * 2 ^ nat ?k)"
        using hi by (simp only: of_int_less_iff of_int_mult [symmetric])
      have "1 / of_int (2 * 2 ^ nat ?k) \<le> x" using hi' q
        by (simp add: x field_simps)
      moreover have "x < 1 / of_int (2 ^ nat ?k)" using lo' q by (simp add: x field_simps)
      ultimately show ?thesis unfolding e pw1 diff_add_cancel pw by simp
    qed
  qed
  then show "2 powi flog2 x \<le> x" "x < 2 powi (flog2 x + 1)" by auto
qed

lemma powi_less_cancel: "(2::rat) powi a < 2 powi b \<Longrightarrow> a < b"
  by (metis linorder_not_less one_le_numeral power_int_increasing)

lemma flog2_mono: "0 < x \<Longrightarrow> x \<le> y \<Longrightarrow> flog2 x \<le> flog2 y"
proof -
  assume "0 < x" "x \<le> y"
  then have "2 powi flog2 x \<le> x" "x < 2 powi (flog2 y + 1)"
    using flog2_bounds [of x] flog2_bounds [of y] by auto
  then have "(2::rat) powi flog2 x < 2 powi (flog2 y + 1)" by simp
  then show ?thesis using powi_less_cancel by fastforce
qed


section \<open>Rounding to a double\<close>

text \<open>
  The unit in the last place of the binade of \<open>x\<close> is \<open>2 powi fexp x\<close>: 53 significant bits, and never
  below the subnormal unit \<open>2 ^ -1074\<close>.
\<close>

definition fexp :: "rat \<Rightarrow> int" where
  "fexp x = max (flog2 x - 52) (- 1074)"

definition fl_pos :: "rat \<Rightarrow> rat" where
  "fl_pos x = of_int (rne (x / 2 powi fexp x)) * 2 powi fexp x"

definition fl :: "rat \<Rightarrow> rat" where
  "fl x = (if 0 < x then fl_pos x else if x < 0 then - fl_pos (- x) else 0)"

lemma fl_zero [simp]: "fl 0 = 0"
  by (simp add: fl_def)

lemma fl_minus: "fl (- x) = - fl x"
  by (simp add: fl_def)

lemma powi_nat_int: "0 \<le> k \<Longrightarrow> \<exists>n::int. (2::rat) powi k = of_int n"
  using powi_nonneg_nat by blast

text \<open>A multiple of the unit is kept.\<close>

lemma fl_pos_multiple:
  assumes "0 < x" "x = of_int m * 2 powi e" "fexp x \<le> e"
  shows "fl_pos x = x"
proof -
  obtain n :: int where n: "(2::rat) powi (e - fexp x) = of_int n"
    using powi_nat_int [of "e - fexp x"] assms(3) by auto
  have "x / 2 powi fexp x = of_int m * 2 powi (e - fexp x)"
    by (subst assms(2)) (simp add: power_int_diff)
  then have "x / 2 powi fexp x = of_int (m * n)" by (simp add: n)
  then have "rne (x / 2 powi fexp x) = m * n" by (simp only: rne_of_int)
  moreover have "of_int (m * n) * 2 powi fexp x = x"
    using \<open>x / 2 powi fexp x = of_int (m * n)\<close> by (simp add: field_simps)
  ultimately show ?thesis by (simp add: fl_pos_def)
qed

lemma fl_pos_same_unit: "fexp x = fexp y \<Longrightarrow> x \<le> y \<Longrightarrow> fl_pos x \<le> fl_pos y"
  by (simp add: fl_pos_def mult_right_mono rne_mono divide_right_mono)

lemma fl_pos_le_binade:
  assumes "0 < x" "x \<le> 2 powi L" "fexp x \<le> L"
  shows "fl_pos x \<le> 2 powi L"
proof -
  obtain n :: int where n: "(2::rat) powi (L - fexp x) = of_int n"
    using powi_nat_int [of "L - fexp x"] assms(3) by auto
  have "x / 2 powi fexp x \<le> 2 powi L / 2 powi fexp x"
    using assms(2) by (intro divide_right_mono) simp_all
  also have "\<dots> = of_int n" by (simp add: n [symmetric] power_int_diff)
  finally have "rne (x / 2 powi fexp x) \<le> n" using rne_mono [of _ "of_int n"] by simp
  then have "of_int (rne (x / 2 powi fexp x)) * 2 powi fexp x \<le> of_int n * (2::rat) powi fexp x"
    by (intro mult_right_mono) simp_all
  also have "\<dots> = 2 powi L" by (simp add: n [symmetric] power_int_diff)
  finally show ?thesis by (simp add: fl_pos_def)
qed

lemma fl_pos_ge_binade:
  assumes "2 powi L \<le> x" "fexp x \<le> L"
  shows "2 powi L \<le> fl_pos x"
proof -
  obtain n :: int where n: "(2::rat) powi (L - fexp x) = of_int n"
    using powi_nat_int [of "L - fexp x"] assms(2) by auto
  have "of_int n = 2 powi L / (2::rat) powi fexp x" by (simp add: n [symmetric] power_int_diff)
  also have "\<dots> \<le> x / 2 powi fexp x" using assms(1) by (intro divide_right_mono) simp_all
  finally have "n \<le> rne (x / 2 powi fexp x)" using rne_mono [of "of_int n"] by simp
  then have "of_int n * (2::rat) powi fexp x \<le> of_int (rne (x / 2 powi fexp x)) * 2 powi fexp x"
    by (intro mult_right_mono) simp_all
  then show ?thesis by (simp add: fl_pos_def n [symmetric] power_int_diff)
qed

lemma fl_pos_mono:
  assumes "0 < x" "x \<le> y"
  shows "fl_pos x \<le> fl_pos y"
proof (cases "fexp x = fexp y")
  case True
  then show ?thesis using assms(2) by (rule fl_pos_same_unit)
next
  case False
  have "flog2 x \<le> flog2 y" using assms by (rule flog2_mono)
  with False have lt: "flog2 x < flog2 y" "fexp y = flog2 y - 52" "fexp x \<le> flog2 y"
    by (auto simp: fexp_def max_def split: if_splits)
  have "x \<le> 2 powi (flog2 x + 1)" using flog2_bounds(2) [OF assms(1)] by simp
  also have "\<dots> \<le> 2 powi flog2 y" using lt(1) by (intro power_int_increasing) auto
  finally have "fl_pos x \<le> 2 powi flog2 y" using assms(1) lt(3) by (intro fl_pos_le_binade)
  also have "\<dots> \<le> fl_pos y"
    using flog2_bounds(1) [of y] assms lt(2) by (intro fl_pos_ge_binade) auto
  finally show ?thesis .
qed

lemma fl_pos_nonneg: "0 < x \<Longrightarrow> 0 \<le> fl_pos x"
  using rne_mono [of 0 "x / 2 powi fexp x"] by (simp add: fl_pos_def)

lemma fl_nonneg: "0 \<le> x \<Longrightarrow> 0 \<le> fl x"
  by (auto simp: fl_def fl_pos_nonneg)

lemma fl_mono: "x \<le> y \<Longrightarrow> fl x \<le> fl y"
proof -
  assume xy: "x \<le> y"
  consider "0 < x" | "x \<le> 0" "0 \<le> y" | "y < 0" by linarith
  then show ?thesis
  proof cases
    case 1
    then show ?thesis using xy fl_pos_mono by (simp add: fl_def)
  next
    case 2
    have "fl x \<le> 0" using fl_nonneg [of "- x"] 2 by (simp add: fl_minus)
    also have "0 \<le> fl y" using 2 by (intro fl_nonneg)
    finally show ?thesis .
  next
    case 3
    then show ?thesis using xy fl_pos_mono [of "- y" "- x"] by (simp add: fl_def)
  qed
qed

lemma fl_pos_error: "\<bar>fl_pos x - x\<bar> \<le> 2 powi fexp x / 2"
proof -
  let ?u = "(2::rat) powi fexp x"
  have u: "0 < ?u" by simp
  have "fl_pos x - x = (of_int (rne (x / ?u)) - x / ?u) * ?u"
    using u by (simp add: fl_pos_def field_simps)
  then have "\<bar>fl_pos x - x\<bar> = \<bar>of_int (rne (x / ?u)) - x / ?u\<bar> * ?u"
    using u by (simp add: abs_mult)
  also have "\<dots> \<le> 1 / 2 * ?u" using u rne_error [of "x / ?u"] by (intro mult_right_mono) auto
  finally show ?thesis by simp
qed

text \<open>Integers up to \<open>2 ^ 53\<close> are doubles.\<close>

lemma fl_of_int_pos:
  assumes "0 < n" "n \<le> 2 ^ 53"
  shows "fl_pos (of_int n) = of_int n"
proof (cases "n = 2 ^ 53")
  case True
  have "2 powi flog2 (of_int n) \<le> (of_int n :: rat)" using assms by (intro flog2_bounds) simp
  also have "\<dots> < 2 powi 54" by (simp add: True powi_nonneg_nat)
  finally have "flog2 (of_int n) < 54" by (rule powi_less_cancel)
  then have "fexp (of_int n) \<le> 1" by (simp add: fexp_def)
  moreover have "(of_int n :: rat) = of_int (2 ^ 52) * 2 powi 1" by (simp add: True)
  ultimately show ?thesis using assms by (intro fl_pos_multiple [where e = 1 and m = "2 ^ 52"]) simp_all
next
  case False
  then have n: "n < 2 ^ 53" using assms by simp
  have "2 powi flog2 (of_int n) \<le> (of_int n :: rat)" using assms by (intro flog2_bounds) simp
  also have "\<dots> < of_int (2 ^ 53)" using n by (simp only: of_int_less_iff)
  also have "(of_int (2 ^ 53) :: rat) = 2 powi 53" by (simp add: powi_nonneg_nat)
  finally have "flog2 (of_int n) < 53" by (rule powi_less_cancel)
  then have "fexp (of_int n) \<le> 0" by (simp add: fexp_def)
  then show ?thesis using assms by (intro fl_pos_multiple [where e = 0 and m = n]) simp_all
qed

lemma fl_of_int: "\<bar>n\<bar> \<le> 2 ^ 53 \<Longrightarrow> fl (of_int n) = of_int n"
  using fl_of_int_pos [of n] fl_of_int_pos [of "- n"] by (auto simp: fl_def)


section \<open>The doubles\<close>

definition representable :: "rat \<Rightarrow> bool" where
  "representable x \<longleftrightarrow> (\<exists>m e. x = of_int m * 2 powi e \<and> \<bar>m\<bar> \<le> 2 ^ 53 \<and> - 1074 \<le> e)"

lemma representableI: "x = of_int m * 2 powi e \<Longrightarrow> \<bar>m\<bar> \<le> 2 ^ 53 \<Longrightarrow> - 1074 \<le> e \<Longrightarrow> representable x"
  unfolding representable_def by blast

lemma representableE:
  assumes "representable x"
  obtains m e where "x = of_int m * 2 powi e" "\<bar>m\<bar> \<le> 2 ^ 53" "- 1074 \<le> e"
  using assms unfolding representable_def by blast

lemma representable_minus:
  assumes "representable x"
  shows "representable (- x)"
proof -
  from assms obtain m e where "x = of_int m * 2 powi e" "\<bar>m\<bar> \<le> 2 ^ 53" "- 1074 \<le> e"
    by (rule representableE)
  then show ?thesis by (intro representableI [of _ "- m" e]) simp_all
qed

lemma representable_zero [simp]: "representable 0"
  unfolding representable_def by (intro exI [of _ 0] exI [of _ 0]) simp

lemma representable_of_int: "\<bar>n\<bar> \<le> 2 ^ 53 \<Longrightarrow> representable (of_int n)"
  unfolding representable_def by (intro exI [of _ n] exI [of _ 0]) simp

lemma representable_double:
  assumes "representable x"
  shows "representable (2 * x)"
proof -
  from assms obtain m e where "x = of_int m * 2 powi e" "\<bar>m\<bar> \<le> 2 ^ 53" "- 1074 \<le> e"
    by (rule representableE)
  then show ?thesis by (intro representableI [of _ m "e + 1"]) (simp_all add: powi_Suc2)
qed

lemma fl_pos_representable: "0 < x \<Longrightarrow> representable (fl_pos x)"
proof -
  assume x: "0 < x"
  let ?e = "fexp x"
  have "x < 2 powi (flog2 x + 1)" using x by (rule flog2_bounds)
  also have "\<dots> \<le> 2 powi (53 + ?e)" by (intro power_int_increasing) (simp_all add: fexp_def)
  also have "(2::rat) powi (53 + ?e) = 2 powi 53 * 2 powi ?e" by (subst power_int_add) simp_all
  also have "(2::rat) powi 53 = of_int (2 ^ 53)" by (simp add: powi_nonneg_nat)
  finally have "x / 2 powi ?e \<le> of_int (2 ^ 53)" by (simp add: pos_divide_le_eq)
  from rne_mono [OF this] have "rne (x / 2 powi ?e) \<le> 2 ^ 53" unfolding rne_of_int .
  moreover have "0 \<le> rne (x / 2 powi ?e)" using x rne_mono [of 0 "x / 2 powi ?e"] by simp
  ultimately show ?thesis unfolding representable_def fl_pos_def
    by (intro exI [of _ "rne (x / 2 powi ?e)"] exI [of _ ?e]) (simp add: fexp_def)
qed

lemma fl_representable: "representable (fl x)"
  using fl_pos_representable [of x] representable_minus [OF fl_pos_representable [of "- x"]]
  by (simp add: fl_def)

lemma fl_pos_exact:
  assumes "0 < x" "x = of_int m * 2 powi e" "\<bar>m\<bar> \<le> 2 ^ 53" "- 1074 \<le> e"
  shows "fl_pos x = x"
proof (cases "m = 2 ^ 53")
  case True
  have "2 powi flog2 x \<le> x" using assms(1) by (rule flog2_bounds)
  also have "x = 2 powi 53 * 2 powi e" by (simp add: assms(2) True powi_nonneg_nat)
  also have "\<dots> = 2 powi (53 + e)" by (subst power_int_add) simp_all
  also have "\<dots> < 2 powi (54 + e)" by (intro power_int_strict_increasing) simp_all
  finally have "flog2 x < 54 + e" by (rule powi_less_cancel)
  then have "fexp x \<le> e + 1" using assms(4) by (simp add: fexp_def)
  moreover have "x = of_int (2 ^ 52) * 2 powi (e + 1)" by (simp add: assms(2) True powi_Suc2)
  ultimately show ?thesis using assms(1) by (intro fl_pos_multiple [where m = "2 ^ 52"]) simp_all
next
  case False
  then have m: "m < 2 ^ 53" using assms(3) by auto
  have "2 powi flog2 x \<le> x" using assms(1) by (rule flog2_bounds)
  also have "\<dots> < of_int (2 ^ 53) * 2 powi e"
    unfolding assms(2) using m by (intro mult_strict_right_mono) (simp_all only: of_int_less_iff, simp)
  also have "(of_int (2 ^ 53) :: rat) = 2 powi 53" by (simp add: powi_nonneg_nat)
  also have "2 powi 53 * 2 powi e = (2::rat) powi (53 + e)" by (subst power_int_add) simp_all
  finally have "flog2 x < 53 + e" by (rule powi_less_cancel)
  then have "fexp x \<le> e" using assms(4) by (simp add: fexp_def)
  then show ?thesis using assms(1,2) by (intro fl_pos_multiple [where m = m])
qed

lemma fl_exact: "representable x \<Longrightarrow> fl x = x"
proof -
  assume "representable x"
  then obtain m e where x: "x = of_int m * 2 powi e" "\<bar>m\<bar> \<le> 2 ^ 53" "- 1074 \<le> e"
    unfolding representable_def by blast
  have "- x = of_int (- m) * 2 powi e" "\<bar>- m\<bar> \<le> 2 ^ 53" using x by simp_all
  then show ?thesis using fl_pos_exact [OF _ x] fl_pos_exact [of "- x" "- m" e] x(3)
    by (auto simp: fl_def)
qed

lemma fl_idem [simp]: "fl (fl x) = fl x"
  by (rule fl_exact [OF fl_representable])

text \<open>
  What the components use of the rounding is a contract: a monotone map that keeps zero, the small
  integers and the doubled values, and whose results are fixed points.
\<close>

locale double_rounding =
  fixes rnd :: "rat \<Rightarrow> rat"
  assumes rnd_mono: "x \<le> y \<Longrightarrow> rnd x \<le> rnd y"
    and rnd_idem: "rnd (rnd x) = rnd x"
    and rnd_int: "\<bar>n\<bar> \<le> 2 ^ 53 \<Longrightarrow> rnd (of_int n) = of_int n"
    and rnd_double: "rnd x = x \<Longrightarrow> rnd (2 * x) = 2 * x"
begin

lemma rnd_zero: "rnd 0 = 0"
  using rnd_int [of 0] by simp

lemma rnd_between: "rnd a = a \<Longrightarrow> rnd b = b \<Longrightarrow> a \<le> x \<Longrightarrow> x \<le> b \<Longrightarrow> a \<le> rnd x \<and> rnd x \<le> b"
  using rnd_mono [of a x] rnd_mono [of x b] by simp

text \<open>The midpoint as the code computes it, \<open>(a + b) / 2\<close> with both steps rounded, is a mean.\<close>

lemma midpoint_between:
  assumes "rnd a = a" "rnd b = b" "a \<le> b"
  shows "a \<le> rnd (rnd (a + b) / 2) \<and> rnd (rnd (a + b) / 2) \<le> b"
proof -
  have "2 * a \<le> rnd (a + b) \<and> rnd (a + b) \<le> 2 * b"
    using assms by (intro rnd_between rnd_double) simp_all
  then show ?thesis using assms(1,2) by (intro rnd_between) simp_all
qed

lemma rnd_int_between:
  assumes "of_int m \<le> x" "x \<le> of_int n" "\<bar>m\<bar> \<le> 2 ^ 53" "\<bar>n\<bar> \<le> 2 ^ 53"
  shows "of_int m \<le> rnd x \<and> rnd x \<le> of_int n"
  using assms by (intro rnd_between rnd_int)

end

interpretation fl64: double_rounding fl
proof
  show "fl x \<le> fl y" if "x \<le> y" for x y using that by (rule fl_mono)
  show "fl (2 * x) = 2 * x" if "fl x = x" for x
    using fl_representable [of x] that by (intro fl_exact representable_double) simp
qed (simp_all add: fl_of_int)

section \<open>Numbers\<close>

datatype jsnum = Fin (fin_val: rat) | PInf | NInf | NaN

text \<open>The number nearest to an exact value, and the number of an integer literal or BigInt.\<close>

definition mk_num :: "rat \<Rightarrow> jsnum" where
  "mk_num x = (let r = fl x in if 2 ^ 1024 \<le> r then PInf else if r \<le> - (2 ^ 1024) then NInf else Fin r)"

definition num_of_int :: "int \<Rightarrow> jsnum" where
  "num_of_int n = mk_num (of_int n)"

fun isFinite :: "jsnum \<Rightarrow> bool" where
  "isFinite (Fin _) = True"
| "isFinite _ = False"

fun isNaN :: "jsnum \<Rightarrow> bool" where
  "isNaN NaN = True"
| "isNaN _ = False"

text \<open>A number in the sense of the machine: a finite one is a double.\<close>

fun num_wf :: "jsnum \<Rightarrow> bool" where
  "num_wf (Fin x) \<longleftrightarrow> fl x = x \<and> \<bar>x\<bar> < 2 ^ 1024"
| "num_wf _ \<longleftrightarrow> True"

instantiation jsnum :: ord
begin

fun less_jsnum :: "jsnum \<Rightarrow> jsnum \<Rightarrow> bool" where
  "less_jsnum (Fin x) (Fin y) = (x < y)"
| "less_jsnum (Fin _) PInf = True"
| "less_jsnum NInf (Fin _) = True"
| "less_jsnum NInf PInf = True"
| "less_jsnum _ _ = False"

fun less_eq_jsnum :: "jsnum \<Rightarrow> jsnum \<Rightarrow> bool" where
  "less_eq_jsnum (Fin x) (Fin y) = (x \<le> y)"
| "less_eq_jsnum NaN _ = False"
| "less_eq_jsnum _ NaN = False"
| "less_eq_jsnum NInf _ = True"
| "less_eq_jsnum _ PInf = True"
| "less_eq_jsnum _ _ = False"

instance ..

end

instantiation jsnum :: "{plus, minus, times, divide, uminus}"
begin

fun uminus_jsnum :: "jsnum \<Rightarrow> jsnum" where
  "uminus_jsnum (Fin x) = Fin (- x)"
| "uminus_jsnum PInf = NInf"
| "uminus_jsnum NInf = PInf"
| "uminus_jsnum NaN = NaN"

fun plus_jsnum :: "jsnum \<Rightarrow> jsnum \<Rightarrow> jsnum" where
  "plus_jsnum (Fin x) (Fin y) = mk_num (x + y)"
| "plus_jsnum NaN _ = NaN"
| "plus_jsnum _ NaN = NaN"
| "plus_jsnum PInf NInf = NaN"
| "plus_jsnum NInf PInf = NaN"
| "plus_jsnum PInf _ = PInf"
| "plus_jsnum _ PInf = PInf"
| "plus_jsnum NInf _ = NInf"
| "plus_jsnum _ NInf = NInf"

definition minus_jsnum :: "jsnum \<Rightarrow> jsnum \<Rightarrow> jsnum" where
  "minus_jsnum a b = a + (- b)"

definition inf_of_sign :: "rat \<Rightarrow> jsnum" where
  "inf_of_sign s = (if 0 < s then PInf else if s < 0 then NInf else NaN)"

fun times_jsnum :: "jsnum \<Rightarrow> jsnum \<Rightarrow> jsnum" where
  "times_jsnum (Fin x) (Fin y) = mk_num (x * y)"
| "times_jsnum NaN _ = NaN"
| "times_jsnum _ NaN = NaN"
| "times_jsnum (Fin x) PInf = inf_of_sign x"
| "times_jsnum (Fin x) NInf = inf_of_sign (- x)"
| "times_jsnum PInf (Fin y) = inf_of_sign y"
| "times_jsnum NInf (Fin y) = inf_of_sign (- y)"
| "times_jsnum PInf PInf = PInf"
| "times_jsnum NInf NInf = PInf"
| "times_jsnum PInf NInf = NInf"
| "times_jsnum NInf PInf = NInf"

text \<open>Division by zero gives an infinity; the divisors of the code are never negative zero.\<close>

fun divide_jsnum :: "jsnum \<Rightarrow> jsnum \<Rightarrow> jsnum" where
  "divide_jsnum (Fin x) (Fin y) = (if y = 0 then inf_of_sign x else mk_num (x / y))"
| "divide_jsnum NaN _ = NaN"
| "divide_jsnum _ NaN = NaN"
| "divide_jsnum (Fin _) _ = Fin 0"
| "divide_jsnum PInf (Fin y) = (if y < 0 then NInf else PInf)"
| "divide_jsnum NInf (Fin y) = (if y < 0 then PInf else NInf)"
| "divide_jsnum _ _ = NaN"

instance ..

end

fun jabs :: "jsnum \<Rightarrow> jsnum" where
  "jabs (Fin x) = Fin \<bar>x\<bar>"
| "jabs NaN = NaN"
| "jabs _ = PInf"

text \<open>\<open>Math.round\<close> is \<open>floor (x + 1/2)\<close> computed exactly, \<open>Math.floor\<close> the floor.\<close>

fun jround :: "jsnum \<Rightarrow> jsnum" where
  "jround (Fin x) = Fin (of_int \<lfloor>x + 1 / 2\<rfloor>)"
| "jround a = a"

fun jfloor :: "jsnum \<Rightarrow> jsnum" where
  "jfloor (Fin x) = Fin (of_int \<lfloor>x\<rfloor>)"
| "jfloor a = a"

fun jceil :: "jsnum \<Rightarrow> jsnum" where
  "jceil (Fin x) = Fin (of_int \<lceil>x\<rceil>)"
| "jceil a = a"

fun jmax :: "jsnum \<Rightarrow> jsnum \<Rightarrow> jsnum" where
  "jmax a b = (if isNaN a \<or> isNaN b then NaN else if a < b then b else a)"

fun jmin :: "jsnum \<Rightarrow> jsnum \<Rightarrow> jsnum" where
  "jmin a b = (if isNaN a \<or> isNaN b then NaN else if b < a then b else a)"

text \<open>\<open>BigInt(x)\<close> of a number: a RangeError unless \<open>x\<close> is an integer.\<close>

fun bigint_of_num :: "jsnum \<Rightarrow> int option" where
  "bigint_of_num (Fin x) = (if of_int \<lfloor>x\<rfloor> = x then Some \<lfloor>x\<rfloor> else None)"
| "bigint_of_num _ = None"

lemma mk_num_cases: "mk_num x = Fin (fl x) \<and> \<bar>fl x\<bar> < 2 ^ 1024 \<or> mk_num x = PInf \<or> mk_num x = NInf"
  by (auto simp: mk_num_def Let_def)

lemma mk_num_wf [simp]: "num_wf (mk_num x)"
  by (auto simp: mk_num_def Let_def)

lemma mk_num_Fin_iff: "mk_num x = Fin y \<longleftrightarrow> y = fl x \<and> \<bar>fl x\<bar> < 2 ^ 1024"
  by (auto simp: mk_num_def Let_def)

lemma num_of_int_small: "\<bar>n\<bar> \<le> 2 ^ 53 \<Longrightarrow> num_of_int n = Fin (of_int n)"
proof -
  assume n: "\<bar>n\<bar> \<le> 2 ^ 53"
  have "\<bar>of_int n :: rat\<bar> \<le> of_int (2 ^ 53)" using n by (simp only: of_int_abs [symmetric] of_int_le_iff)
  also have "\<dots> < 2 ^ 1024" by simp
  finally show ?thesis using n by (simp add: num_of_int_def mk_num_Fin_iff fl_of_int)
qed

lemma mk_num_of_int: "\<bar>n\<bar> \<le> 2 ^ 53 \<Longrightarrow> mk_num (of_int n) = Fin (of_int n)"
  using num_of_int_small by (simp add: num_of_int_def)

text \<open>Arithmetic on the integers up to \<open>2 ^ 53\<close> is exact.\<close>

lemma Fin_times_int: "\<bar>a * b\<bar> \<le> 2 ^ 53 \<Longrightarrow> Fin (of_int a) * Fin (of_int b) = Fin (of_int (a * b))"
  by (simp only: times_jsnum.simps of_int_mult [symmetric] mk_num_of_int)

lemma Fin_plus_int: "\<bar>a + b\<bar> \<le> 2 ^ 53 \<Longrightarrow> Fin (of_int a) + Fin (of_int b) = Fin (of_int (a + b))"
  by (simp only: plus_jsnum.simps of_int_add [symmetric] mk_num_of_int)

lemma mk_num_numeral: "(numeral k :: int) \<le> 2 ^ 53 \<Longrightarrow> mk_num (numeral k) = Fin (numeral k)"
  using mk_num_of_int [of "numeral k"] by simp

lemma jround_error: "jround (Fin x) = Fin y \<Longrightarrow> \<bar>y - x\<bar> \<le> 1 / 2"
proof -
  assume "jround (Fin x) = Fin y"
  then have "y = of_int \<lfloor>x + 1 / 2\<rfloor>" by simp
  then show ?thesis by linarith
qed

lemma bigint_of_jround [simp]: "bigint_of_num (jround (Fin x)) = Some \<lfloor>x + 1 / 2\<rfloor>"
  by simp

lemma jround_of_int: "jround (Fin (of_int n)) = Fin (of_int n)"
proof -
  have "\<lfloor>of_int n + 1 / 2 :: rat\<rfloor> = n" by (intro floor_unique) simp_all
  then show ?thesis by simp
qed

lemma jround_numeral [simp]: "jround (Fin (numeral k)) = Fin (numeral k)"
  using jround_of_int [of "numeral k"] by simp

end
