(* ===== verification/Config.thy ===== *)
theory Config
  imports Js_Number Js_String
begin

text \<open>
  The keeper's configuration (\<^verbatim>\<open>apps/keeper/src/config.ts\<close>), the cluster and USDC helpers of the
  registry (\<^verbatim>\<open>packages/registry/src/programs.ts\<close>) and the circuit-breaker caps
  (\<^verbatim>\<open>packages/registry/src/risk.ts\<close>).  The environment is a partial map from names to texts; a
  \<open>ConfigError\<close> is a value.  The module-level cache returns the first configuration again and is
  left out: the environment of a process does not change.
\<close>

section \<open>Numbers in texts\<close>

definition is_digit :: "char \<Rightarrow> bool" where
  "is_digit c \<longleftrightarrow> (let k = (of_char c :: nat) in 48 \<le> k \<and> k \<le> 57)"

definition digits_int :: "string \<Rightarrow> int" where
  "digits_int s = foldl (\<lambda>acc c. acc * 10 + int (of_char c) - 48) 0 s"

definition split_sign :: "string \<Rightarrow> int \<times> string" where
  "split_sign s = (case s of [] \<Rightarrow> (1, [])
     | c # cs \<Rightarrow> if c = CHR ''-'' then (-1, cs) else if c = CHR ''+'' then (1, cs) else (1, s))"

text \<open>\<open>Number.parseInt(v, 10)\<close>: the longest digit prefix after white space and a sign.\<close>

definition parseInt10 :: "string \<Rightarrow> jsnum" where
  "parseInt10 s = (case split_sign (dropWhile is_space s) of (sg, r) \<Rightarrow>
     let ds = takeWhile is_digit r in if ds = [] then NaN else mk_num (of_int (sg * digits_int ds)))"

text \<open>\<open>Number.parseFloat(v)\<close>: the longest prefix that is a decimal literal.\<close>

definition pow10_rat :: "int \<Rightarrow> rat" where
  "pow10_rat e = (if 0 \<le> e then 10 ^ nat e else 1 / 10 ^ nat (- e))"

definition parse_exponent :: "string \<Rightarrow> int" where
  "parse_exponent s = (case s of [] \<Rightarrow> 0
     | c # cs \<Rightarrow> if c = CHR ''e'' \<or> c = CHR ''E''
         then (case split_sign cs of (sg, r) \<Rightarrow> sg * digits_int (takeWhile is_digit r)) else 0)"

definition parseFloat :: "string \<Rightarrow> jsnum" where
  "parseFloat s = (case split_sign (dropWhile is_space s) of (sg, r) \<Rightarrow>
     if take 8 r = ''Infinity'' then (if sg = 1 then PInf else NInf) else
     let ip = takeWhile is_digit r; r1 = dropWhile is_digit r;
         dot = (case r1 of c # _ \<Rightarrow> c = CHR ''.'' | [] \<Rightarrow> False);
         fp = (if dot then takeWhile is_digit (tl r1) else []);
         r2 = (if dot then dropWhile is_digit (tl r1) else r1)
     in if ip = [] \<and> fp = [] then NaN
        else mk_num (of_int (sg * digits_int (ip @ fp)) * pow10_rat (parse_exponent r2 - int (length fp))))"

section \<open>Clusters\<close>

datatype Cluster = Localnet | Devnet | MainnetBeta

definition cluster_text :: "Cluster \<Rightarrow> string" where
  "cluster_text c = (case c of Localnet \<Rightarrow> ''localnet'' | Devnet \<Rightarrow> ''devnet'' | MainnetBeta \<Rightarrow> ''mainnet-beta'')"

definition text_or :: "string option \<Rightarrow> string" where
  "text_or v = (case v of None \<Rightarrow> '''' | Some s \<Rightarrow> s)"

definition parseCluster :: "string option \<Rightarrow> Cluster \<Rightarrow> string + Cluster" where
  "parseCluster value fallback =
     (let t = js_trim (text_or value); v = (if t = [] then cluster_text fallback else t)
      in if v = ''localnet'' then Inr Localnet else if v = ''devnet'' then Inr Devnet
         else if v = ''mainnet-beta'' then Inr MainnetBeta
         else Inl (''SOLANA_CLUSTER must be one of localnet|devnet|mainnet-beta, got '' @ v))"

definition USDC :: "Cluster \<Rightarrow> string" where
  "USDC c = (case c of MainnetBeta \<Rightarrow> ''EPjFWdd5AufqSSqeM2qN1xzybapC8G4wEGGkZwyTDt1v''
     | _ \<Rightarrow> ''4zMMC9srt5Ri5X14GAgXhaHii3GnPAEERYPJgZJDncDU'')"

definition usdcMintFor :: "Cluster \<Rightarrow> string option \<Rightarrow> string + string" where
  "usdcMintFor cluster override =
     (let ov = js_trim (text_or override)
      in if ov \<noteq> [] then Inr ov
         else if cluster = Localnet then Inl ''localnet has no canonical USDC mint''
         else Inr (USDC cluster))"

text \<open>\<open>FEE_SPLIT_BPS\<close>: the split of the platform's share between holders, buyback and protocol.\<close>

definition FEE_SPLIT_BPS :: "int \<times> int \<times> int" where
  "FEE_SPLIT_BPS = (5000, 2500, 2500)"

section \<open>The environment\<close>

type_synonym env = "string \<Rightarrow> string option"

datatype config_error =
    MissingVar string
  | NotAnInteger string string
  | NotANumber string string
  | BadCluster string
  | BadUsdc string
  | StaleUsdc string string

definition required :: "env \<Rightarrow> string \<Rightarrow> config_error + string" where
  "required env name = (let v = text_or (env name)
     in if js_trim v = [] then Inl (MissingVar name) else Inr v)"

definition optional :: "env \<Rightarrow> string \<Rightarrow> string \<Rightarrow> string" where
  "optional env name fallback = (let v = text_or (env name) in if js_trim v \<noteq> [] then v else fallback)"

definition optionalInt :: "env \<Rightarrow> string \<Rightarrow> jsnum \<Rightarrow> config_error + jsnum" where
  "optionalInt env name fallback = (let v = text_or (env name)
     in if js_trim v = [] then Inr fallback
        else let n = parseInt10 v in if isFinite n then Inr n else Inl (NotAnInteger name v))"

definition optionalFloat :: "env \<Rightarrow> string \<Rightarrow> jsnum \<Rightarrow> config_error + jsnum" where
  "optionalFloat env name fallback = (let v = text_or (env name)
     in if js_trim v = [] then Inr fallback
        else let n = parseFloat v in if isFinite n then Inr n else Inl (NotANumber name v))"

definition configCluster :: "env \<Rightarrow> string \<Rightarrow> Cluster \<Rightarrow> config_error + Cluster" where
  "configCluster env name fallback =
     (case parseCluster (env name) fallback of Inl e \<Rightarrow> Inl (BadCluster e) | Inr c \<Rightarrow> Inr c)"

definition resolveUsdcMint :: "env \<Rightarrow> Cluster \<Rightarrow> config_error + string" where
  "resolveUsdcMint env cluster =
     sbind (case usdcMintFor cluster (env ''USDC_MINT_OVERRIDE'') of Inl e \<Rightarrow> Inl (BadUsdc e) | Inr m \<Rightarrow> Inr m) (\<lambda>mint.
     let legacy = js_trim (text_or (env ''USDC_MINT''))
     in if legacy \<noteq> [] \<and> legacy \<noteq> mint then Inl (StaleUsdc legacy mint) else Inr mint)"

record KeeperConfig =
  cfg_cluster :: Cluster
  cfg_rpcUrl :: string
  cfg_wsUrl :: "string option"
  cfg_keeperKeypairPath :: string
  cfg_pegDeskProgramId :: string
  cfg_feeRouterProgramId :: string
  cfg_distributorProgramId :: string
  cfg_buybackProgramId :: string
  cfg_dbcProgramId :: string
  cfg_dammV2ProgramId :: string
  cfg_pythReceiverProgramId :: string
  cfg_usdcMint :: string
  cfg_hermesUrl :: string
  cfg_pythApiKey :: "string option"
  cfg_switchboardQueue :: "string option"
  cfg_pricempireApiKey :: "string option"
  cfg_csfloatApiKey :: "string option"
  cfg_pokemonTcgApiKey :: "string option"
  cfg_dataVendorApiKey :: "string option"
  cfg_heliusApiKey :: "string option"
  cfg_watchChartsApiKey :: "string option"
  cfg_collectorCryptCollection :: "string option"
  cfg_collectorCryptApiUrl :: "string option"
  cfg_oraclePushIntervalSec :: jsnum
  cfg_feeCycleIntervalSec :: jsnum
  cfg_payoutMinPoolUsd :: jsnum
  cfg_payoutMinHoldingUsd :: jsnum
  cfg_payoutMinAmountUsd :: jsnum
  cfg_sessionCycleIntervalSec :: jsnum
  cfg_migrateCycleIntervalSec :: jsnum
  cfg_buybackCycleIntervalSec :: jsnum
  cfg_databaseUrl :: string
  cfg_healthzPort :: jsnum
  cfg_jitoBundleUrl :: "string option"
  cfg_priorityMicroLamports :: jsnum
  cfg_computeUnitLimit :: jsnum

text \<open>The first failing field, in source order, is the error.\<close>

definition loadConfig :: "env \<Rightarrow> config_error + KeeperConfig" where
  "loadConfig env =
     sbind (configCluster env ''SOLANA_CLUSTER'' Devnet) (\<lambda>cluster.
     sbind (required env ''RPC_URL'') (\<lambda>rpcUrl.
     sbind (required env ''KEEPER_KEYPAIR_PATH'') (\<lambda>keypairPath.
     sbind (required env ''PEG_DESK_PROGRAM_ID'') (\<lambda>pegDesk.
     sbind (required env ''FEE_ROUTER_PROGRAM_ID'') (\<lambda>feeRouter.
     sbind (required env ''DISTRIBUTOR_PROGRAM_ID'') (\<lambda>distributor.
     sbind (required env ''BUYBACK_PROGRAM_ID'') (\<lambda>buyback.
     sbind (required env ''DBC_PROGRAM_ID'') (\<lambda>dbc.
     sbind (required env ''DAMM_V2_PROGRAM_ID'') (\<lambda>damm.
     sbind (required env ''PYTH_RECEIVER_PROGRAM_ID'') (\<lambda>pyth.
     sbind (resolveUsdcMint env cluster) (\<lambda>usdc.
     sbind (optionalInt env ''ORACLE_PUSH_INTERVAL'' (Fin 30)) (\<lambda>oracleSec.
     sbind (optionalInt env ''FEE_CYCLE_INTERVAL'' (Fin 900)) (\<lambda>feeSec.
     sbind (optionalFloat env ''PAYOUT_MIN_POOL_USD'' (Fin 100)) (\<lambda>minPool.
     sbind (optionalFloat env ''PAYOUT_MIN_HOLDING_USD'' (Fin 5)) (\<lambda>minHolding.
     sbind (optionalFloat env ''PAYOUT_MIN_AMOUNT_USD'' (Fin 1)) (\<lambda>minAmount.
     sbind (optionalInt env ''SESSION_CYCLE_INTERVAL'' (Fin 15)) (\<lambda>sessionSec.
     sbind (optionalInt env ''MIGRATE_CYCLE_INTERVAL'' (Fin 60)) (\<lambda>migrateSec.
     sbind (optionalInt env ''BUYBACK_CYCLE_INTERVAL'' (Fin 900)) (\<lambda>buybackSec.
     sbind (required env ''DATABASE_URL'') (\<lambda>databaseUrl.
     sbind (optionalInt env ''HEALTHZ_PORT'' (Fin 8787)) (\<lambda>healthz.
     sbind (optionalInt env ''PRIORITY_MICROLAMPORTS'' (Fin 10000)) (\<lambda>priority.
     sbind (optionalInt env ''COMPUTE_UNIT_LIMIT'' (Fin 400000)) (\<lambda>cuLimit.
     Inr \<lparr>cfg_cluster = cluster, cfg_rpcUrl = rpcUrl, cfg_wsUrl = env ''WS_URL'',
       cfg_keeperKeypairPath = keypairPath, cfg_pegDeskProgramId = pegDesk, cfg_feeRouterProgramId = feeRouter,
       cfg_distributorProgramId = distributor, cfg_buybackProgramId = buyback, cfg_dbcProgramId = dbc,
       cfg_dammV2ProgramId = damm, cfg_pythReceiverProgramId = pyth, cfg_usdcMint = usdc,
       cfg_hermesUrl = optional env ''HERMES_URL'' ''https://hermes.pyth.network'',
       cfg_pythApiKey = (if text_or (env ''PYTH_API_KEY'') = [] then None else env ''PYTH_API_KEY''),
       cfg_switchboardQueue = env ''SWITCHBOARD_QUEUE'', cfg_pricempireApiKey = env ''PRICEMPIRE_API_KEY'',
       cfg_csfloatApiKey = env ''CSFLOAT_API_KEY'', cfg_pokemonTcgApiKey = env ''POKEMONTCG_API_KEY'',
       cfg_dataVendorApiKey = env ''DATA_VENDOR_API_KEY'', cfg_heliusApiKey = env ''HELIUS_API_KEY'',
       cfg_watchChartsApiKey = env ''WATCHCHARTS_API_KEY'',
       cfg_collectorCryptCollection = env ''COLLECTORCRYPT_COLLECTION'',
       cfg_collectorCryptApiUrl = env ''COLLECTORCRYPT_API_URL'',
       cfg_oraclePushIntervalSec = oracleSec, cfg_feeCycleIntervalSec = feeSec,
       cfg_payoutMinPoolUsd = minPool, cfg_payoutMinHoldingUsd = minHolding, cfg_payoutMinAmountUsd = minAmount,
       cfg_sessionCycleIntervalSec = sessionSec, cfg_migrateCycleIntervalSec = migrateSec,
       cfg_buybackCycleIntervalSec = buybackSec, cfg_databaseUrl = databaseUrl, cfg_healthzPort = healthz,
       cfg_jitoBundleUrl = env ''JITO_BUNDLE_URL'', cfg_priorityMicroLamports = priority,
       cfg_computeUnitLimit = cuLimit\<rparr>)))))))))))))))))))))))"

section \<open>Circuit-breaker caps\<close>

datatype Tier = A24 | AHours | TierB | TierC

record BreakerDefaults =
  bd_maxDeviationBps :: int
  bd_deviationWindowSecs :: int
  bd_dailyMintCapBps :: int
  bd_dailyRedeemCapBps :: int

definition BREAKER_DEFAULTS :: "Tier \<Rightarrow> BreakerDefaults" where
  "BREAKER_DEFAULTS t = (case t of
     A24 \<Rightarrow> \<lparr>bd_maxDeviationBps = 300, bd_deviationWindowSecs = 900, bd_dailyMintCapBps = 2500, bd_dailyRedeemCapBps = 2500\<rparr>
   | AHours \<Rightarrow> \<lparr>bd_maxDeviationBps = 400, bd_deviationWindowSecs = 900, bd_dailyMintCapBps = 2500, bd_dailyRedeemCapBps = 2500\<rparr>
   | TierB \<Rightarrow> \<lparr>bd_maxDeviationBps = 600, bd_deviationWindowSecs = 900, bd_dailyMintCapBps = 1500, bd_dailyRedeemCapBps = 1500\<rparr>
   | TierC \<Rightarrow> \<lparr>bd_maxDeviationBps = 800, bd_deviationWindowSecs = 1800, bd_dailyMintCapBps = 1000, bd_dailyRedeemCapBps = 1000\<rparr>)"

record BreakerCaps =
  bk_dailyMintCap :: int
  bk_dailyRedeemCap :: int
  bk_maxDeviationBps :: int
  bk_deviationWindowSecs :: int

definition breakerCaps :: "Tier \<Rightarrow> int \<Rightarrow> jsnum \<Rightarrow> string + BreakerCaps" where
  "breakerCaps tier supplyCapCoinBase supplyCapUsd =
     (let d = BREAKER_DEFAULTS tier in
      case bigint_of_num (jround supplyCapUsd) of None \<Rightarrow> Inl ''RangeError''
      | Some usd \<Rightarrow> let usdcBase = usd * 1000000 in
          Inr \<lparr>bk_dailyMintCap = (supplyCapCoinBase * bd_dailyMintCapBps d) sdiv 10000,
               bk_dailyRedeemCap = (usdcBase * bd_dailyRedeemCapBps d) sdiv 10000,
               bk_maxDeviationBps = bd_maxDeviationBps d, bk_deviationWindowSecs = bd_deviationWindowSecs d\<rparr>)"


section \<open>Properties\<close>

lemma sbind_InrE:
  assumes "sbind m f = Inr b"
  obtains a where "m = Inr a" "f a = Inr b"
  using assms by (auto simp: sbind_eq_Inr_iff)

lemma required_Inr: "required env n = Inr v \<longleftrightarrow> env n = Some v \<and> js_trim v \<noteq> []"
  by (cases "env n") (auto simp: required_def text_or_def js_trim_def Let_def)

lemma optionalInt_finite: "optionalInt env n (Fin d) = Inr v \<Longrightarrow> isFinite v"
  by (auto simp: optionalInt_def Let_def split: if_splits)

lemma optionalFloat_finite: "optionalFloat env n (Fin d) = Inr v \<Longrightarrow> isFinite v"
  by (auto simp: optionalFloat_def Let_def split: if_splits)

lemma resolveUsdcMint_Inr:
  assumes "resolveUsdcMint env cluster = Inr m"
  shows "m = (if js_trim (text_or (env ''USDC_MINT_OVERRIDE'')) \<noteq> [] then js_trim (text_or (env ''USDC_MINT_OVERRIDE''))
      else USDC cluster)"
    and "js_trim (text_or (env ''USDC_MINT_OVERRIDE'')) = [] \<Longrightarrow> cluster \<noteq> Localnet"
    and "js_trim (text_or (env ''USDC_MINT'')) \<in> {[], m}"
  using assms by (auto simp: resolveUsdcMint_def usdcMintFor_def Let_def split: if_splits)

definition required_names :: "string list" where
  "required_names = [''RPC_URL'', ''KEEPER_KEYPAIR_PATH'', ''PEG_DESK_PROGRAM_ID'', ''FEE_ROUTER_PROGRAM_ID'',
     ''DISTRIBUTOR_PROGRAM_ID'', ''BUYBACK_PROGRAM_ID'', ''DBC_PROGRAM_ID'', ''DAMM_V2_PROGRAM_ID'',
     ''PYTH_RECEIVER_PROGRAM_ID'', ''DATABASE_URL'']"

text \<open>
  A configuration that loads is complete.  Every required variable is set and not blank, every
  numeric setting is a finite number, and the USDC mint is the override or the canonical mint of the
  chosen cluster, which on localnet must be overridden; a stale \<open>USDC_MINT\<close> that names another mint
  is refused.
\<close>

theorem config_complete:
  assumes "loadConfig env = Inr c"
  shows "(\<forall>n \<in> set required_names. \<exists>v. env n = Some v \<and> js_trim v \<noteq> []) \<and>
    (\<forall>x \<in> {cfg_oraclePushIntervalSec c, cfg_feeCycleIntervalSec c, cfg_payoutMinPoolUsd c,
        cfg_payoutMinHoldingUsd c, cfg_payoutMinAmountUsd c, cfg_sessionCycleIntervalSec c,
        cfg_migrateCycleIntervalSec c, cfg_buybackCycleIntervalSec c, cfg_healthzPort c,
        cfg_priorityMicroLamports c, cfg_computeUnitLimit c}. isFinite x) \<and>
    (let ov = js_trim (text_or (env ''USDC_MINT_OVERRIDE''))
     in cfg_usdcMint c = (if ov \<noteq> [] then ov else USDC (cfg_cluster c)) \<and>
        (ov = [] \<longrightarrow> cfg_cluster c \<noteq> Localnet)) \<and>
    js_trim (text_or (env ''USDC_MINT'')) \<in> {[], cfg_usdcMint c}"
proof -
  note run = assms [unfolded loadConfig_def]
  have ints: "optionalInt env ''ORACLE_PUSH_INTERVAL'' (Fin 30) = Inr (cfg_oraclePushIntervalSec c) \<and>
      optionalInt env ''FEE_CYCLE_INTERVAL'' (Fin 900) = Inr (cfg_feeCycleIntervalSec c) \<and>
      optionalFloat env ''PAYOUT_MIN_POOL_USD'' (Fin 100) = Inr (cfg_payoutMinPoolUsd c) \<and>
      optionalFloat env ''PAYOUT_MIN_HOLDING_USD'' (Fin 5) = Inr (cfg_payoutMinHoldingUsd c) \<and>
      optionalFloat env ''PAYOUT_MIN_AMOUNT_USD'' (Fin 1) = Inr (cfg_payoutMinAmountUsd c) \<and>
      optionalInt env ''SESSION_CYCLE_INTERVAL'' (Fin 15) = Inr (cfg_sessionCycleIntervalSec c) \<and>
      optionalInt env ''MIGRATE_CYCLE_INTERVAL'' (Fin 60) = Inr (cfg_migrateCycleIntervalSec c) \<and>
      optionalInt env ''BUYBACK_CYCLE_INTERVAL'' (Fin 900) = Inr (cfg_buybackCycleIntervalSec c) \<and>
      optionalInt env ''HEALTHZ_PORT'' (Fin 8787) = Inr (cfg_healthzPort c) \<and>
      optionalInt env ''PRIORITY_MICROLAMPORTS'' (Fin 10000) = Inr (cfg_priorityMicroLamports c) \<and>
      optionalInt env ''COMPUTE_UNIT_LIMIT'' (Fin 400000) = Inr (cfg_computeUnitLimit c) \<and>
      resolveUsdcMint env (cfg_cluster c) = Inr (cfg_usdcMint c)"
    using run
    apply (elim sbind_InrE)
    apply (drule sum.inject(2) [THEN iffD1])
    apply hypsubst
    apply (simp only: KeeperConfig.simps)
    done
  have req: "\<forall>n \<in> set required_names. \<exists>v. env n = Some v \<and> js_trim v \<noteq> []"
    using run by (elim sbind_InrE) (simp only: required_Inr required_names_def list.set ball_simps, blast)
  have usdc: "resolveUsdcMint env (cfg_cluster c) = Inr (cfg_usdcMint c)" using ints by blast
  have fin: "\<forall>x \<in> {cfg_oraclePushIntervalSec c, cfg_feeCycleIntervalSec c, cfg_payoutMinPoolUsd c,
        cfg_payoutMinHoldingUsd c, cfg_payoutMinAmountUsd c, cfg_sessionCycleIntervalSec c,
        cfg_migrateCycleIntervalSec c, cfg_buybackCycleIntervalSec c, cfg_healthzPort c,
        cfg_priorityMicroLamports c, cfg_computeUnitLimit c}. isFinite x"
    using ints by (auto dest: optionalInt_finite optionalFloat_finite)
  show ?thesis using req fin resolveUsdcMint_Inr [OF usdc] by (simp add: Let_def)
qed

definition demo_env :: env where
  "demo_env n = (if n = ''SOLANA_CLUSTER'' \<or> n = ''USDC_MINT'' \<or> n = ''USDC_MINT_OVERRIDE'' then None else Some ''45'')"

lemma demo_settings:
  "demo_env ''RPC_URL'' = Some ''45''"
  "demo_env ''KEEPER_KEYPAIR_PATH'' = Some ''45''"
  "demo_env ''PEG_DESK_PROGRAM_ID'' = Some ''45''"
  "demo_env ''FEE_ROUTER_PROGRAM_ID'' = Some ''45''"
  "demo_env ''DISTRIBUTOR_PROGRAM_ID'' = Some ''45''"
  "demo_env ''BUYBACK_PROGRAM_ID'' = Some ''45''"
  "demo_env ''DBC_PROGRAM_ID'' = Some ''45''"
  "demo_env ''DAMM_V2_PROGRAM_ID'' = Some ''45''"
  "demo_env ''PYTH_RECEIVER_PROGRAM_ID'' = Some ''45''"
  "demo_env ''DATABASE_URL'' = Some ''45''"
  "demo_env ''ORACLE_PUSH_INTERVAL'' = Some ''45''"
  "demo_env ''FEE_CYCLE_INTERVAL'' = Some ''45''"
  "demo_env ''PAYOUT_MIN_POOL_USD'' = Some ''45''"
  "demo_env ''PAYOUT_MIN_HOLDING_USD'' = Some ''45''"
  "demo_env ''PAYOUT_MIN_AMOUNT_USD'' = Some ''45''"
  "demo_env ''SESSION_CYCLE_INTERVAL'' = Some ''45''"
  "demo_env ''MIGRATE_CYCLE_INTERVAL'' = Some ''45''"
  "demo_env ''BUYBACK_CYCLE_INTERVAL'' = Some ''45''"
  "demo_env ''HEALTHZ_PORT'' = Some ''45''"
  "demo_env ''PRIORITY_MICROLAMPORTS'' = Some ''45''"
  "demo_env ''COMPUTE_UNIT_LIMIT'' = Some ''45''"
  by (simp_all add: demo_env_def)

lemma demo_values:
  assumes "demo_env n = Some ''45''"
  shows "required demo_env n = Inr ''45''" "optionalInt demo_env n d = Inr (parseInt10 ''45'')"
    "optionalFloat demo_env n d = Inr (parseFloat ''45'')"
proof -
  have trim: "js_trim ''45'' = ''45''" by code_simp
  have i: "isFinite (parseInt10 ''45'')"
    by (simp add: parseInt10_def split_sign_def is_space_def is_digit_def digits_int_def mk_num_numeral)
  have f: "isFinite (parseFloat ''45'')"
    by (simp add: parseFloat_def split_sign_def is_space_def is_digit_def digits_int_def parse_exponent_def
        pow10_rat_def mk_num_numeral Let_def)
  note fin = i f
  show "required demo_env n = Inr ''45''" "optionalInt demo_env n d = Inr (parseInt10 ''45'')"
    "optionalFloat demo_env n d = Inr (parseFloat ''45'')"
    using assms trim fin by (simp_all add: required_def optionalInt_def optionalFloat_def text_or_def Let_def)
qed

lemma demo_loads: "\<exists>c. loadConfig demo_env = Inr c \<and> cfg_cluster c = Devnet"
proof -
  have trim: "js_trim [] = []" by code_simp
  have cl: "configCluster demo_env ''SOLANA_CLUSTER'' Devnet = Inr Devnet"
    by (simp add: configCluster_def parseCluster_def demo_env_def text_or_def trim cluster_text_def)
  have us: "resolveUsdcMint demo_env Devnet = Inr (USDC Devnet)"
    by (simp add: resolveUsdcMint_def usdcMintFor_def demo_env_def text_or_def trim)
  show ?thesis
    unfolding loadConfig_def cl
    by (simp only: sbind.simps us demo_settings [THEN demo_values(1)] demo_settings [THEN demo_values(2)]
        demo_settings [THEN demo_values(3)]) (rule exI, rule conjI, rule refl, rule KeeperConfig.select_convs(1))
qed

theorem config_complete_witness:
  "\<exists>c. loadConfig demo_env = Inr c \<and> isFinite (cfg_oraclePushIntervalSec c) \<and> cfg_usdcMint c = USDC Devnet"
proof -
  obtain c where c: "loadConfig demo_env = Inr c" "cfg_cluster c = Devnet" using demo_loads by blast
  have "js_trim (text_or (demo_env ''USDC_MINT_OVERRIDE'')) = []"
    by (simp add: demo_env_def text_or_def js_trim_def)
  then show ?thesis using config_complete [OF c(1)] c by (auto simp: Let_def)
qed

lemma sdiv_share_le: "0 \<le> a \<Longrightarrow> 0 \<le> k \<Longrightarrow> (a * k) sdiv 10000 * 10000 \<le> a * (k::int)"
  by (simp add: div_times_less_eq_dividend)

text \<open>
  No day can move more than a quarter of the supply.  For every tier, when the caps are computed
  at all, the daily mint cap is at most 25\% of the supply cap and the daily redemption cap at most
  25\% of the dollar cap, and keeper-signed coins have the tightest budget of all tiers.
\<close>

theorem breaker_caps_bounded:
  assumes "breakerCaps tier supply (Fin usd) = Inr b" "0 \<le> supply" "0 \<le> usd"
  shows "0 \<le> bk_dailyMintCap b \<and> 4 * bk_dailyMintCap b \<le> supply \<and>
    0 \<le> bk_dailyRedeemCap b \<and> 4 * bk_dailyRedeemCap b \<le> \<lfloor>usd + 1 / 2\<rfloor> * 1000000 \<and>
    (\<forall>c. breakerCaps TierC supply (Fin usd) = Inr c \<longrightarrow> bk_dailyMintCap c \<le> bk_dailyMintCap b)"
proof -
  have d: "1000 \<le> bd_dailyMintCapBps (BREAKER_DEFAULTS tier)" "bd_dailyMintCapBps (BREAKER_DEFAULTS tier) \<le> 2500"
    "0 \<le> bd_dailyRedeemCapBps (BREAKER_DEFAULTS tier)" "bd_dailyRedeemCapBps (BREAKER_DEFAULTS tier) \<le> 2500"
    by (cases tier; simp add: BREAKER_DEFAULTS_def)+
  let ?m = "bd_dailyMintCapBps (BREAKER_DEFAULTS tier)" and ?r = "bd_dailyRedeemCapBps (BREAKER_DEFAULTS tier)"
  let ?u = "\<lfloor>usd + 1 / 2\<rfloor> * 1000000"
  have u: "0 \<le> ?u" using assms(3) by simp
  have b: "bk_dailyMintCap b = supply * ?m div 10000" "bk_dailyRedeemCap b = ?u * ?r div 10000"
    using assms(1,2) d u by (auto simp: breakerCaps_def Let_def)
  have quarter: "4 * (a * k div 10000) \<le> a" if "0 \<le> a" "0 \<le> k" "k \<le> 2500" for a k :: int
  proof -
    have "a * k \<le> a * 2500" using that by (intro mult_left_mono) auto
    then have "a * k div 10000 \<le> a * 2500 div 10000" by (intro zdiv_mono1) auto
    then show ?thesis using that by linarith
  qed
  have "bk_dailyMintCap c \<le> bk_dailyMintCap b" if "breakerCaps TierC supply (Fin usd) = Inr c" for c
  proof -
    have "bk_dailyMintCap c = supply * 1000 div 10000"
      using that assms(2) by (auto simp: breakerCaps_def BREAKER_DEFAULTS_def Let_def)
    also have "\<dots> \<le> supply * ?m div 10000" using assms(2) d by (intro zdiv_mono1 mult_left_mono) auto
    finally show ?thesis by (simp add: b)
  qed
  then show ?thesis using assms(2) d u quarter [OF assms(2)] quarter [OF u]
    by (simp add: b pos_imp_zdiv_nonneg_iff)
qed

theorem breaker_caps_bounded_witness: "4 * (250000000::int) \<le> 1000000000"
proof -
  have "breakerCaps A24 1000000000 (Fin 50000) = Inr \<lparr>bk_dailyMintCap = 250000000, bk_dailyRedeemCap = 12500000000,
      bk_maxDeviationBps = 300, bk_deviationWindowSecs = 900\<rparr>"
    by (simp add: breakerCaps_def BREAKER_DEFAULTS_def Let_def del: jround.simps bigint_of_jround)
  from breaker_caps_bounded [OF this] show ?thesis by simp
qed

end
