(* ===== verification/Rpc.thy ===== *)
theory Rpc
  imports Store Config
begin

text \<open>
  Sending transactions (\<^verbatim>\<open>apps/keeper/src/rpc.ts\<close>).  The chain is a parameter: \<open>exec\<close> runs one
  instruction of a transaction on it, or fails; a transaction runs all its instructions or none, as
  Solana's do.  The world gains the chain, a fault script for sent transactions and the number of
  signatures made: every attempt signs a fresh blockhash, so it has a signature of its own.
\<close>

section \<open>The chain in the world\<close>

record 'c chain_world = keeper_world +
  cw_sends :: "fault list"
  cw_chain :: 'c
  cw_signed :: nat

datatype 'ix tx_ix = SetComputeUnitLimit jsnum | SetComputeUnitPrice jsnum | Ix 'ix

type_synonym ('ix, 'c) executor = "string \<Rightarrow> 'ix \<Rightarrow> 'c \<Rightarrow> string + 'c"

definition signature :: "nat \<Rightarrow> string" where
  "signature n = ''tx'' @ nat_text (int n)"

fun exec_tx :: "('ix, 'c) executor \<Rightarrow> string \<Rightarrow> 'ix tx_ix list \<Rightarrow> 'c \<Rightarrow> string + 'c" where
  "exec_tx exec sig [] c = Inr c"
| "exec_tx exec sig (Ix ix # ixs) c = sbind (exec sig ix c) (exec_tx exec sig ixs)"
| "exec_tx exec sig (_ # ixs) c = exec_tx exec sig ixs c"

definition pop_send :: "('c, 'x) chain_world_scheme \<Rightarrow> fault \<times> ('c, 'x) chain_world_scheme" where
  "pop_send w = (case cw_sends w of [] \<Rightarrow> (Fine, w) | f # fs \<Rightarrow> (f, w\<lparr>cw_sends := fs\<rparr>))"

text \<open>A read of the chain through the RPC node.\<close>

definition rpc_read :: "('c \<Rightarrow> 'a) \<Rightarrow> (('c, 'x) chain_world_scheme, 'a) io" where
  "rpc_read f = remote pop_fault (\<lambda>w. (Ret (f (cw_chain w)), w))"

text \<open>\<open>chainNowSec\<close>: the time of the latest confirmed block, or the host clock.\<close>

definition chain_now :: "('c \<Rightarrow> int) \<Rightarrow> (('c, 'x) chain_world_scheme, int) io" where
  "chain_now clock = io_bind
     (io_catch (io_then (rpc_read (\<lambda>_. ())) (io_bind (rpc_read clock) (\<lambda>t. io_ret (Some t)))) (\<lambda>_. io_ret None))
     (\<lambda>t. case t of Some v \<Rightarrow> if v \<noteq> 0 then io_ret v else io_gets kw_now | None \<Rightarrow> io_gets kw_now)"

section \<open>Sending\<close>

record SendOpts =
  so_cuLimit :: "jsnum option"
  so_priorityMicroLamports :: "jsnum option"
  so_maxRetries :: "nat option"

definition no_opts :: SendOpts where
  "no_opts = \<lparr>so_cuLimit = None, so_priorityMicroLamports = None, so_maxRetries = None\<rparr>"

definition option_or :: "'a option \<Rightarrow> 'a \<Rightarrow> 'a" where
  "option_or v d = (case v of None \<Rightarrow> d | Some x \<Rightarrow> x)"

definition tx_of :: "KeeperConfig \<Rightarrow> 'ix list \<Rightarrow> SendOpts \<Rightarrow> 'ix tx_ix list" where
  "tx_of cfg ixs opts =
     SetComputeUnitLimit (option_or (so_cuLimit opts) (cfg_computeUnitLimit cfg)) #
     SetComputeUnitPrice (option_or (so_priorityMicroLamports opts) (cfg_priorityMicroLamports cfg)) # map Ix ixs"

text \<open>\<open>tx.sign\<close>: the next signature.\<close>

definition sign_next :: "(('c, 'x) chain_world_scheme, string) io" where
  "sign_next w = (Ret (signature (cw_signed w)), w\<lparr>cw_signed := Suc (cw_signed w)\<rparr>)"

definition run_tx :: "('ix, 'c) executor \<Rightarrow> 'ix tx_ix list \<Rightarrow> string \<Rightarrow> (('c, 'x) chain_world_scheme, string) io" where
  "run_tx exec tx sig w = (case exec_tx exec sig tx (cw_chain w) of
     Inl e \<Rightarrow> (Throw e, w) | Inr c \<Rightarrow> (Ret sig, w\<lparr>cw_chain := c\<rparr>))"

text \<open>One attempt: blockhash, signature, send and confirm.\<close>

definition send_attempt :: "('ix, 'c) executor \<Rightarrow> 'ix tx_ix list \<Rightarrow> (('c, 'x) chain_world_scheme, string) io" where
  "send_attempt exec tx =
     io_then (rpc_read (\<lambda>_. ())) (io_bind sign_next (\<lambda>sig. remote pop_send (run_tx exec tx sig)))"

text \<open>\<open>sendRawTransaction\<close> followed by \<open>confirmTransaction\<close>.\<close>

definition send_attempt_v0 :: "('ix, 'c) executor \<Rightarrow> 'ix tx_ix list \<Rightarrow> (('c, 'x) chain_world_scheme, string) io" where
  "send_attempt_v0 exec tx =
     io_then (rpc_read (\<lambda>_. ())) (io_bind sign_next (\<lambda>sig.
     io_bind (remote pop_send (run_tx exec tx sig)) (\<lambda>sig. io_then (rpc_read (\<lambda>_. ())) (io_ret sig))))"

text \<open>The retry loop: the last error is rethrown.\<close>

fun send_retry :: "nat \<Rightarrow> ('w, 'a) io \<Rightarrow> string \<Rightarrow> ('w, 'a) io" where
  "send_retry 0 attempt lastErr = io_throw lastErr"
| "send_retry (Suc k) attempt lastErr = io_catch attempt (send_retry k attempt)"

definition sendWithPriority ::
  "('ix, 'c) executor \<Rightarrow> KeeperConfig \<Rightarrow> 'ix list \<Rightarrow> SendOpts \<Rightarrow> (('c, 'x) chain_world_scheme, string) io" where
  "sendWithPriority exec cfg ixs opts =
     send_retry (option_or (so_maxRetries opts) 3) (send_attempt exec (tx_of cfg ixs opts))
       ''sendWithPriority: failed''"

definition sendJitoBundle ::
  "('ix, 'c) executor \<Rightarrow> KeeperConfig \<Rightarrow> 'ix list \<Rightarrow> SendOpts \<Rightarrow> (('c, 'x) chain_world_scheme, string) io" where
  "sendJitoBundle exec cfg ixs opts =
     (if text_or (cfg_jitoBundleUrl cfg) = [] then sendWithPriority exec cfg ixs opts
      else io_throw ''sendJitoBundle: not implemented'')"

definition sendV0WithPriority ::
  "('ix, 'c) executor \<Rightarrow> KeeperConfig \<Rightarrow> 'ix list \<Rightarrow> SendOpts \<Rightarrow> (('c, 'x) chain_world_scheme, string) io" where
  "sendV0WithPriority exec cfg ixs opts =
     send_retry (option_or (so_maxRetries opts) 3) (send_attempt_v0 exec (tx_of cfg ixs opts))
       ''sendV0WithPriority: failed''"

section \<open>What a send does to the chain\<close>

text \<open>
  \<open>clean_sends\<close>: no transaction of the script lands while its sender is told it failed.  A process
  may still die right after a transaction landed.
\<close>

definition clean_sends :: "('c, 'x) chain_world_scheme \<Rightarrow> bool" where
  "clean_sends w \<longleftrightarrow> FailAfter \<notin> set (cw_sends w)"

text \<open>The rest of the world: everything but the chain and the scripts.\<close>

definition same_rest :: "('c, 'x) chain_world_scheme \<Rightarrow> ('c, 'x) chain_world_scheme \<Rightarrow> bool" where
  "same_rest w w' \<longleftrightarrow> w'\<lparr>kw_faults := kw_faults w, cw_sends := cw_sends w, cw_signed := cw_signed w, cw_chain := cw_chain w\<rparr> = w"

lemma same_rest_refl [simp]: "same_rest w w"
  by (simp add: same_rest_def)

lemma same_rest_iff:
  "same_rest w w' \<longleftrightarrow> kw_db w' = kw_db w \<and> kw_now w' = kw_now w \<and> chain_world.more w' = chain_world.more w"
  by (cases w; cases w') (auto simp: same_rest_def)

lemma same_rest_trans: "same_rest u v \<Longrightarrow> same_rest v w \<Longrightarrow> same_rest u w"
  by (simp add: same_rest_iff)

lemma same_rest_db: "same_rest w w' \<Longrightarrow> kw_db w' = kw_db w \<and> kw_now w' = kw_now w"
  by (simp add: same_rest_iff)

lemma same_rest_update [simp]:
  "same_rest w (w\<lparr>kw_faults := fs\<rparr>)" "same_rest w (w\<lparr>cw_sends := ss\<rparr>)"
  "same_rest w (w\<lparr>cw_signed := n\<rparr>)" "same_rest w (w\<lparr>cw_chain := c\<rparr>)"
  by (simp_all add: same_rest_iff)

definition tx_effect ::
  "('ix, 'c) executor \<Rightarrow> 'ix tx_ix list \<Rightarrow> ('c, 'x) chain_world_scheme \<Rightarrow> string outcome \<Rightarrow> ('c, 'x) chain_world_scheme \<Rightarrow> bool"
where
  "tx_effect exec tx w r w' \<longleftrightarrow> same_rest w w' \<and> clean_sends w' \<and> (case r of
      Ret sig \<Rightarrow> exec_tx exec sig tx (cw_chain w) = Inr (cw_chain w')
    | Throw _ \<Rightarrow> cw_chain w' = cw_chain w
    | Crash \<Rightarrow> cw_chain w' = cw_chain w \<or> (\<exists>sig. exec_tx exec sig tx (cw_chain w) = Inr (cw_chain w')))"

lemma pop_fault_rest: "pop_fault w = (f, w') \<Longrightarrow> same_rest w w' \<and> cw_chain w' = cw_chain w \<and> cw_sends w' = cw_sends w"
  using snd_pop_fault [of w] by auto

lemma rpc_read_effect:
  "rpc_read f w = (r, w') \<Longrightarrow> same_rest w w' \<and> cw_chain w' = cw_chain w \<and> cw_sends w' = cw_sends w \<and>
    (\<forall>a. r = Ret a \<longrightarrow> a = f (cw_chain w))"
proof -
  assume run: "rpc_read f w = (r, w')"
  obtain g w1 where p: "pop_fault w = (g, w1)" by (cases "pop_fault w")
  note rest = pop_fault_rest [OF p]
  show ?thesis using run rest by (cases g) (auto simp: rpc_read_def remote_def p)
qed

lemma pop_send_rest:
  "pop_send w = (f, w') \<Longrightarrow> clean_sends w \<Longrightarrow>
    same_rest w w' \<and> cw_chain w' = cw_chain w \<and> clean_sends w' \<and> f \<noteq> FailAfter"
  by (auto simp: pop_send_def clean_sends_def split: list.splits)

lemma run_tx_effect:
  assumes "run_tx exec tx sig w = (r, w')" "clean_sends w"
  shows "tx_effect exec tx w r w'" and "r \<noteq> Crash" and "\<And>s. r = Ret s \<Longrightarrow> s = sig"
  using assms by (auto simp: run_tx_def tx_effect_def clean_sends_def split: sum.splits)

lemma tx_effect_shift:
  assumes "same_rest w w1" "cw_chain w1 = cw_chain w" "tx_effect exec tx w1 r w'"
  shows "tx_effect exec tx w r w'"
  using assms same_rest_trans by (auto simp: tx_effect_def split: outcome.splits)

lemma remote_send_effect:
  assumes "remote pop_send (run_tx exec tx sig) w = (r, w')" "clean_sends w"
  shows "tx_effect exec tx w r w'"
proof -
  obtain f w1 where p: "pop_send w = (f, w1)" by (cases "pop_send w")
  note rest = pop_send_rest [OF p assms(2)]
  obtain q w2 where q: "run_tx exec tx sig w1 = (q, w2)" by (cases "run_tx exec tx sig w1")
  have eff: "tx_effect exec tx w1 q w2" using run_tx_effect(1) [OF q] rest by simp
  have "tx_effect exec tx w1 r w'"
  proof (cases f)
    case DieAfter
    then have "r = Crash" "w' = w2" using assms(1) by (auto simp: remote_def p q)
    then show ?thesis using eff run_tx_effect(3) [OF q] rest
      by (cases q) (auto simp: tx_effect_def)
  qed (use assms(1) rest eff in \<open>auto simp: remote_def p q tx_effect_def\<close>)
  then show ?thesis using tx_effect_shift rest by blast
qed

lemma send_attempt_effect:
  assumes "send_attempt exec tx w = (r, w')" "clean_sends w"
  shows "tx_effect exec tx w r w'"
proof -
  obtain q w1 where q: "rpc_read (\<lambda>_. ()) w = (q, w1)" by (cases "rpc_read (\<lambda>_. ()) w")
  note rest = rpc_read_effect [OF q]
  have clean: "clean_sends w1" using rest assms(2) by (simp add: clean_sends_def)
  show ?thesis
  proof (cases q)
    case (Ret u)
    let ?w2 = "w1\<lparr>cw_signed := Suc (cw_signed w1)\<rparr>"
    have w2: "same_rest w1 ?w2" "clean_sends ?w2" "cw_chain ?w2 = cw_chain w1"
      using clean by (simp_all add: clean_sends_def)
    have "remote pop_send (run_tx exec tx (signature (cw_signed w1))) ?w2 = (r, w')"
      using assms(1) q Ret by (simp add: send_attempt_def io_then_def io_bind_def sign_next_def)
    from remote_send_effect [OF this w2(2)] have "tx_effect exec tx w1 r w'"
      using tx_effect_shift [OF w2(1,3)] by blast
    then show ?thesis using tx_effect_shift rest by blast
  qed (use assms q rest clean in \<open>auto simp: send_attempt_def io_then_def io_bind_def tx_effect_def\<close>)
qed

lemma send_retry_effect:
  "send_retry k (send_attempt exec tx) e w = (r, w') \<Longrightarrow> clean_sends w \<Longrightarrow> tx_effect exec tx w r w'"
proof (induction k arbitrary: e w)
  case 0
  then show ?case by (auto simp: io_throw_def tx_effect_def)
next
  case (Suc k)
  obtain q w1 where q: "send_attempt exec tx w = (q, w1)" by (cases "send_attempt exec tx w")
  note eff = send_attempt_effect [OF q Suc.prems(2)]
  show ?case
  proof (cases q)
    case (Throw x)
    then have "send_retry k (send_attempt exec tx) x w1 = (r, w')" using Suc.prems q by (simp add: io_catch_def)
    moreover have shift: "same_rest w w1" "clean_sends w1" "cw_chain w1 = cw_chain w"
      using eff Throw by (simp_all add: tx_effect_def)
    ultimately have "tx_effect exec tx w1 r w'" by (intro Suc.IH)
    then show ?thesis by (rule tx_effect_shift [OF shift(1,3)])
  qed (use Suc.prems q eff in \<open>auto simp: io_catch_def\<close>)
qed

lemma send_effect:
  "sendWithPriority exec cfg ixs opts w = (r, w') \<Longrightarrow> clean_sends w \<Longrightarrow> tx_effect exec (tx_of cfg ixs opts) w r w'"
  unfolding sendWithPriority_def by (rule send_retry_effect)

lemma exec_tx_Nil: "exec_tx exec sig [] = Inr"
  by (rule ext) simp

lemma exec_tx_single: "exec_tx exec sig (tx_of cfg [ix] opts) c = exec sig ix c"
  by (cases "exec sig ix c") (simp_all add: tx_of_def exec_tx_Nil)

text \<open>Signatures differ, so the chain can tell the attempts apart.\<close>

lemma signature_inject [simp]: "signature m = signature n \<longleftrightarrow> m = n"
proof
  assume "signature m = signature n"
  then have "int_text (int m) = int_text (int n)" by (simp add: signature_def int_text_def)
  then show "m = n" by (simp add: int_text_inj)
qed simp

section \<open>Sends under any faults\<close>

abbreviation on_cw :: "('c \<Rightarrow> bool) \<Rightarrow> ('c, 'x) chain_world_scheme \<Rightarrow> bool" where
  "on_cw B \<equiv> \<lambda>w. B (cw_chain w)"

lemma rpc_read_inv:
  assumes "fault_blind I"
  shows "io_inv I (rpc_read f)"
  unfolding rpc_read_def
  by (rule io_inv_remote) (auto dest: fault_blind_pop [OF assms] intro: prod.collapse [symmetric])

lemma fault_blind_on_cw [simp]: "fault_blind (on_cw B)"
  by (simp add: fault_blind_def)

lemma pop_send_cw: "pop_send w = (f, w') \<Longrightarrow> cw_chain w' = cw_chain w"
  by (auto simp: pop_send_def split: list.splits)

lemma send_attempt_inv:
  assumes "\<And>sig c c'. B c \<Longrightarrow> exec_tx exec sig tx c = Inr c' \<Longrightarrow> B c'"
  shows "io_inv (on_cw B) (send_attempt exec tx)"
proof -
  have "io_inv (on_cw B) (remote pop_send (run_tx exec tx sig))" for sig
  proof (rule io_inv_remote)
    fix w assume "B (cw_chain w)"
    then show "B (cw_chain (snd (pop_send w)))" using pop_send_cw [of w] by (cases "pop_send w") simp
    show "B (cw_chain (snd (run_tx exec tx sig w)))"
      using \<open>B (cw_chain w)\<close> assms by (auto simp: run_tx_def split: sum.splits)
  qed
  moreover have "io_inv (on_cw B) sign_next" by (rule io_invI) (simp add: sign_next_def)
  ultimately show ?thesis unfolding send_attempt_def by (intro io_inv_then io_inv_bind rpc_read_inv) simp_all
qed

lemma send_retry_inv: "io_inv I m \<Longrightarrow> io_inv I (send_retry n m e)"
  by (induction n arbitrary: e) (simp_all add: io_inv_throw io_inv_catch)

lemma send_inv:
  assumes "\<And>sig c c'. B c \<Longrightarrow> exec sig ix c = Inr c' \<Longrightarrow> B c'"
  shows "io_inv (on_cw B) (sendWithPriority exec cfg [ix] opts)"
  unfolding sendWithPriority_def
  using assms by (intro send_retry_inv send_attempt_inv) (simp add: exec_tx_single)

text \<open>A transaction that cannot execute is never reported as sent.\<close>

lemma send_attempt_never:
  assumes "\<And>sig c c'. B c \<Longrightarrow> exec_tx exec sig tx c \<noteq> Inr c'"
  shows "io_spec (on_cw B) (send_attempt exec tx) (\<lambda>_ _. False) (on_cw B)"
proof -
  have "io_spec (on_cw B) (remote pop_send (run_tx exec tx sig)) (\<lambda>_ _. False) (on_cw B)" for sig
  proof (rule remote_spec)
    fix w w' r assume B: "B (cw_chain w)" and run: "run_tx exec tx sig w = (r, w')"
    obtain e where "exec_tx exec sig tx (cw_chain w) = Inl e" using assms [OF B] by (cases "exec_tx exec sig tx (cw_chain w)") auto
    then show "B (cw_chain w') \<and> (\<forall>a. r = Ret a \<longrightarrow> False)" using run B by (auto simp: run_tx_def)
  qed (auto dest: pop_send_cw)
  moreover have "io_inv (on_cw B) sign_next" by (rule io_invI) (simp add: sign_next_def)
  moreover have "io_inv (on_cw B) (rpc_read (\<lambda>_. ()))" by (rule rpc_read_inv) simp
  ultimately show ?thesis unfolding send_attempt_def io_inv_def
    by (intro io_then_spec [where R = "on_cw B"] io_bind_spec [where R = "\<lambda>_. on_cw B"])
qed

lemma send_never:
  assumes "\<And>sig c c'. B c \<Longrightarrow> exec sig ix c \<noteq> Inr c'"
  shows "io_spec (on_cw B) (sendWithPriority exec cfg [ix] opts) (\<lambda>_ _. False) (on_cw B)"
proof -
  have "io_spec (on_cw B) (send_attempt exec (tx_of cfg [ix] opts)) (\<lambda>_ _. False) (on_cw B)"
    using assms by (intro send_attempt_never) (simp add: exec_tx_single)
  then have "io_spec (on_cw B) (send_retry n (send_attempt exec (tx_of cfg [ix] opts)) e) (\<lambda>_ _. False) (on_cw B)" for n e
    by (induction n arbitrary: e) (auto intro: io_throw_spec io_catch_spec)
  then show ?thesis unfolding sendWithPriority_def .
qed

section \<open>Attempts\<close>

text \<open>A failed attempt without faults on the read side, and a good one.\<close>

lemma send_attempt_FailBefore:
  assumes "kw_faults w = []" "cw_sends w = FailBefore # ss"
  shows "send_attempt exec tx w =
    (Throw ''unavailable'', w\<lparr>cw_sends := ss, cw_signed := Suc (cw_signed w)\<rparr>)"
  using assms
  by (simp add: send_attempt_def io_then_def io_bind_def rpc_read_def remote_def pop_fault_def pop_send_def sign_next_def)

lemma send_attempt_Fine:
  assumes "kw_faults w = []" "cw_sends w = [] \<or> (\<exists>ss. cw_sends w = Fine # ss)"
    and "exec_tx exec (signature (cw_signed w)) tx (cw_chain w) = Inr c"
  shows "send_attempt exec tx w =
    (Ret (signature (cw_signed w)), w\<lparr>cw_sends := tl (cw_sends w), cw_signed := Suc (cw_signed w), cw_chain := c\<rparr>)"
  using assms
  by (cases "cw_sends w")
    (auto simp: send_attempt_def io_then_def io_bind_def rpc_read_def remote_def pop_fault_def pop_send_def
      sign_next_def run_tx_def)

lemma send_attempt_FailAfter:
  assumes "kw_faults w = []" "cw_sends w = FailAfter # ss"
    and "exec_tx exec (signature (cw_signed w)) tx (cw_chain w) = Inr c"
  shows "send_attempt exec tx w =
    (Throw ''answer lost'', w\<lparr>cw_sends := ss, cw_signed := Suc (cw_signed w), cw_chain := c\<rparr>)"
  using assms
  by (simp add: send_attempt_def io_then_def io_bind_def rpc_read_def remote_def pop_fault_def pop_send_def
      sign_next_def run_tx_def)

lemma send_retry_lands:
  assumes "k < n" "kw_faults w = []" "cw_sends w = replicate k FailBefore"
    and "exec_tx exec (signature (cw_signed w + k)) tx (cw_chain w) = Inr c"
  shows "send_retry n (send_attempt exec tx) e w =
    (Ret (signature (cw_signed w + k)), w\<lparr>cw_sends := [], cw_signed := Suc (cw_signed w + k), cw_chain := c\<rparr>)"
  using assms
proof (induction n arbitrary: k e w)
  case (Suc n)
  show ?case
  proof (cases k)
    case 0
    then show ?thesis using Suc.prems by (simp add: io_catch_def send_attempt_Fine)
  next
    case (Suc j)
    let ?w = "w\<lparr>cw_sends := replicate j FailBefore, cw_signed := Suc (cw_signed w)\<rparr>"
    have "send_retry n (send_attempt exec tx) ''unavailable'' ?w =
      (Ret (signature (cw_signed ?w + j)), ?w\<lparr>cw_sends := [], cw_signed := Suc (cw_signed ?w + j), cw_chain := c\<rparr>)"
      using Suc.prems Suc by (intro Suc.IH) simp_all
    moreover have "send_attempt exec tx w = (Throw ''unavailable'', ?w)"
      using Suc.prems Suc by (intro send_attempt_FailBefore) simp_all
    ultimately show ?thesis using Suc by (simp add: io_catch_def)
  qed
qed simp

section \<open>Properties\<close>

text \<open>
  C37: when no landed transaction is reported as failed, \<open>sendWithPriority\<close> executes its
  instructions exactly once if it returns a signature, not at all if it throws, and at most once if
  the process dies in it; whatever happens, the database is untouched.
\<close>

theorem send_exactly_once:
  assumes "sendWithPriority exec cfg ixs opts w = (r, w')" "clean_sends w"
  shows "kw_db w' = kw_db w \<and> (case r of
      Ret sig \<Rightarrow> exec_tx exec sig (tx_of cfg ixs opts) (cw_chain w) = Inr (cw_chain w')
    | Throw _ \<Rightarrow> cw_chain w' = cw_chain w
    | Crash \<Rightarrow> cw_chain w' = cw_chain w \<or>
        (\<exists>sig. exec_tx exec sig (tx_of cfg ixs opts) (cw_chain w) = Inr (cw_chain w')))"
  using send_effect [OF assms] same_rest_db [of w w'] by (simp add: tx_effect_def)

text \<open>
  Up to two refused sends are survived: with \<open>k < maxRetries\<close> sends that never reached the
  chain, the next attempt lands the transaction, under the signature of that attempt.
\<close>

theorem send_retries_land:
  assumes "k < option_or (so_maxRetries opts) 3" "kw_faults w = []" "cw_sends w = replicate k FailBefore"
    and "exec_tx exec (signature (cw_signed w + k)) (tx_of cfg ixs opts) (cw_chain w) = Inr c"
  shows "sendWithPriority exec cfg ixs opts w =
    (Ret (signature (cw_signed w + k)), w\<lparr>cw_sends := [], cw_signed := Suc (cw_signed w + k), cw_chain := c\<rparr>)"
  unfolding sendWithPriority_def using assms by (rule send_retry_lands)

text \<open>
  A transaction that lands while its confirmation is lost is executed again by the retry: the
  loop signs a fresh blockhash instead of asking what became of the signature it sent.
\<close>

theorem send_lost_confirmation_doubles:
  assumes "kw_faults w = []" "cw_sends w = [FailAfter]" "so_maxRetries opts = None"
    and "exec_tx exec (signature (cw_signed w)) (tx_of cfg ixs opts) (cw_chain w) = Inr c1"
    and "exec_tx exec (signature (Suc (cw_signed w))) (tx_of cfg ixs opts) c1 = Inr c2"
  shows "sendWithPriority exec cfg ixs opts w =
    (Ret (signature (Suc (cw_signed w))), w\<lparr>cw_sends := [], cw_signed := Suc (Suc (cw_signed w)), cw_chain := c2\<rparr>)"
proof -
  have three: "(3::nat) = Suc (Suc (Suc 0))" by simp
  show ?thesis using assms
    by (simp add: sendWithPriority_def option_or_def three io_catch_def send_attempt_FailAfter send_attempt_Fine)
qed

section \<open>Witnesses\<close>

text \<open>A chain that counts: the instruction \<open>n\<close> adds \<open>n\<close>.\<close>

definition counter_exec :: "(nat, nat) executor" where
  "counter_exec sig n c = Inr (c + n)"

definition counter_world :: "fault list \<Rightarrow> nat chain_world" where
  "counter_world ss = \<lparr>kw_faults = [], kw_db = demo_db, kw_now = 0, cw_sends = ss, cw_chain = 0, cw_signed = 0\<rparr>"

lemma counter_exec_tx [simp]: "exec_tx counter_exec sig (tx_of cfg [5] opts) c = Inr (c + 5)"
  by (simp add: exec_tx_single counter_exec_def)

lemma send_retries_land_witness:
  "\<forall>cfg. sendWithPriority counter_exec cfg [5] no_opts (counter_world [FailBefore, FailBefore]) =
    (Ret (signature 2), (counter_world [])\<lparr>cw_signed := 3, cw_chain := 5\<rparr>)"
proof
  fix cfg
  have "replicate 2 FailBefore = [FailBefore, FailBefore]" by (simp add: numeral_2_eq_2)
  then show "sendWithPriority counter_exec cfg [5] no_opts (counter_world [FailBefore, FailBefore]) =
    (Ret (signature 2), (counter_world [])\<lparr>cw_signed := 3, cw_chain := 5\<rparr>)"
    using send_retries_land [of 2 no_opts "counter_world [FailBefore, FailBefore]" counter_exec cfg "[5]" 5]
    by (simp add: no_opts_def option_or_def counter_world_def)
qed

lemma send_lost_confirmation_doubles_witness:
  "\<forall>cfg. sendWithPriority counter_exec cfg [5] no_opts (counter_world [FailAfter]) =
    (Ret (signature 1), (counter_world [])\<lparr>cw_signed := 2, cw_chain := 10\<rparr>)"
proof
  fix cfg
  show "sendWithPriority counter_exec cfg [5] no_opts (counter_world [FailAfter]) =
    (Ret (signature 1), (counter_world [])\<lparr>cw_signed := 2, cw_chain := 10\<rparr>)"
    using send_lost_confirmation_doubles [of "counter_world [FailAfter]" no_opts counter_exec cfg "[5]" 5 10]
    by (simp add: no_opts_def counter_world_def)
qed

lemma send_exactly_once_witness:
  "\<forall>cfg. cw_chain (snd (sendWithPriority counter_exec cfg [5] no_opts (counter_world [FailBefore]))) \<in> {0, 5}"
proof
  fix cfg
  show "cw_chain (snd (sendWithPriority counter_exec cfg [5] no_opts (counter_world [FailBefore]))) \<in> {0, 5}"
    using send_exactly_once [of counter_exec cfg "[5]" no_opts "counter_world [FailBefore]"]
    by (cases "sendWithPriority counter_exec cfg [5] no_opts (counter_world [FailBefore])")
      (auto simp: clean_sends_def counter_world_def split: outcome.splits)
qed

end
