(* ===== verification/Pda.thy ===== *)
theory Pda
  imports Prelude
begin

text \<open>
  Program-derived addresses (\<^verbatim>\<open>packages/sdk/src/pda.ts\<close>, seeds of \<^verbatim>\<open>packages/registry/src/programs.ts\<close>).
  \<open>@solana/web3.js\<close> is a parameter: \<open>w3_find\<close> is \<open>findProgramAddressSync\<close>, \<open>w3_key\<close> the base58
  reading of \<open>new PublicKey(text)\<close> (which throws on anything else), \<open>w3_text\<close> is \<open>toBase58\<close>.
  A public key is its 32 bytes.  The theorem of this theory: the seeds of the derivations of one
  program never run together, so two accounts share an address only if the hash collides.
\<close>

section \<open>Keys\<close>

record web3 =
  w3_find :: "bytes list \<Rightarrow> bytes \<Rightarrow> bytes \<times> int"
  w3_key :: "string \<Rightarrow> bytes option"
  w3_text :: "bytes \<Rightarrow> string"

text \<open>What the library documents of its base58 codec.\<close>

definition web3_ok :: "web3 \<Rightarrow> bool" where
  "web3_ok w3 \<longleftrightarrow> (\<forall>s b. w3_key w3 s = Some b \<longrightarrow> length b = 32 \<and> w3_text w3 b = s) \<and>
     (\<forall>b. length b = 32 \<longrightarrow> w3_key w3 (w3_text w3 b) = Some b)"

text \<open>\<open>new PublicKey(text)\<close>, and a module constant: a module whose constant throws is never loaded.\<close>

definition new_PublicKey :: "web3 \<Rightarrow> string \<Rightarrow> string + bytes" where
  "new_PublicKey w3 s = (case w3_key w3 s of None \<Rightarrow> Inl ''Invalid public key input'' | Some b \<Rightarrow> Inr b)"

definition const_key :: "web3 \<Rightarrow> string \<Rightarrow> bytes" where
  "const_key w3 s = (case w3_key w3 s of None \<Rightarrow> [] | Some b \<Rightarrow> b)"

definition ascii_bytes :: "string \<Rightarrow> bytes" where
  "ascii_bytes s = map of_char s"

definition symbolToBytes12 :: "string \<Rightarrow> string + bytes" where
  "symbolToBytes12 symbol =
     (if 1 \<le> length symbol \<and> length symbol \<le> 12 \<and>
         (\<forall>c \<in> set symbol. (CHR ''A'' \<le> c \<and> c \<le> CHR ''Z'') \<or> (CHR ''0'' \<le> c \<and> c \<le> CHR ''9''))
      then Inr (ascii_bytes symbol @ replicate (12 - length symbol) 0)
      else Inl ''symbolToBytes12'')"

definition TOKEN_PROGRAM :: "web3 \<Rightarrow> bytes" where
  "TOKEN_PROGRAM w3 = const_key w3 ''TokenkegQfeZyiNwAJbNbGKPFXCWuBvf9Ss623VQ5DA''"

definition ASSOCIATED_TOKEN_PROGRAM :: "web3 \<Rightarrow> bytes" where
  "ASSOCIATED_TOKEN_PROGRAM w3 = const_key w3 ''ATokenGPvbdGVxr1b2hvZbsiqW5xWH25efTNsLJA8knL''"

definition BPF_LOADER_UPGRADEABLE :: "web3 \<Rightarrow> bytes" where
  "BPF_LOADER_UPGRADEABLE w3 = const_key w3 ''BPFLoaderUpgradeab1e11111111111111111111111''"

definition programDataPda :: "web3 \<Rightarrow> bytes \<Rightarrow> bytes" where
  "programDataPda w3 programId = fst (w3_find w3 [programId] (BPF_LOADER_UPGRADEABLE w3))"

text \<open>\<open>ata(mint, owner, tokenProgram)\<close>; the default argument is \<open>ata_default\<close>.\<close>

definition ata :: "web3 \<Rightarrow> bytes \<Rightarrow> bytes \<Rightarrow> bytes \<Rightarrow> bytes" where
  "ata w3 mint owner tokenProgram = fst (w3_find w3 [owner, tokenProgram, mint] (ASSOCIATED_TOKEN_PROGRAM w3))"

definition u32LE :: "int \<Rightarrow> bytes" where
  "u32LE n = le_bytes 4 (n mod 2 ^ 32)"

section \<open>Seeds\<close>

record Seeds =
  sd_config :: string
  sd_commodity :: string
  sd_reserve :: string
  sd_hedge :: string
  sd_keeperPrice :: string
  sd_mintAuth :: string
  sd_router :: string
  sd_holderVault :: string
  sd_buybackVault :: string
  sd_treasury :: string
  sd_poolState :: string
  sd_dist :: string
  sd_distAuth :: string
  sd_epoch :: string
  sd_claimed :: string
  sd_bbState :: string
  sd_bbAuth :: string

definition SEEDS :: Seeds where
  "SEEDS = \<lparr>sd_config = ''config'', sd_commodity = ''cmdty'', sd_reserve = ''reserve'', sd_hedge = ''hedge'',
     sd_keeperPrice = ''kp'', sd_mintAuth = ''mint_auth'',
     sd_router = ''router'', sd_holderVault = ''holder_vault'', sd_buybackVault = ''buyback_vault'',
     sd_treasury = ''treasury'', sd_poolState = ''pool'',
     sd_dist = ''dist'', sd_distAuth = ''dist_auth'', sd_epoch = ''epoch'', sd_claimed = ''claimed'',
     sd_bbState = ''buyback'', sd_bbAuth = ''bb_auth''\<rparr>"

section \<open>peg\_desk\<close>

definition pegDesk_config :: "web3 \<Rightarrow> bytes \<Rightarrow> bytes \<times> int" where
  "pegDesk_config w3 programId = w3_find w3 [ascii_bytes (sd_config SEEDS)] programId"

definition pegDesk_commodity :: "web3 \<Rightarrow> bytes \<Rightarrow> string \<Rightarrow> string + (bytes \<times> int)" where
  "pegDesk_commodity w3 programId symbol = sbind (symbolToBytes12 symbol) (\<lambda>sym.
     Inr (w3_find w3 [ascii_bytes (sd_commodity SEEDS), sym] programId))"

definition pegDesk_reserve :: "web3 \<Rightarrow> bytes \<Rightarrow> bytes \<Rightarrow> bytes \<times> int" where
  "pegDesk_reserve w3 programId commodity = w3_find w3 [ascii_bytes (sd_reserve SEEDS), commodity] programId"

definition pegDesk_hedge :: "web3 \<Rightarrow> bytes \<Rightarrow> bytes \<Rightarrow> bytes \<times> int" where
  "pegDesk_hedge w3 programId commodity = w3_find w3 [ascii_bytes (sd_hedge SEEDS), commodity] programId"

definition pegDesk_keeperPrice :: "web3 \<Rightarrow> bytes \<Rightarrow> bytes \<Rightarrow> bytes \<times> int" where
  "pegDesk_keeperPrice w3 programId commodity = w3_find w3 [ascii_bytes (sd_keeperPrice SEEDS), commodity] programId"

definition pegDesk_mintAuth :: "web3 \<Rightarrow> bytes \<Rightarrow> bytes \<times> int" where
  "pegDesk_mintAuth w3 programId = w3_find w3 [ascii_bytes (sd_mintAuth SEEDS)] programId"

section \<open>fee\_router\<close>

definition feeRouter_router :: "web3 \<Rightarrow> bytes \<Rightarrow> bytes \<times> int" where
  "feeRouter_router w3 programId = w3_find w3 [ascii_bytes (sd_router SEEDS)] programId"

definition feeRouter_pool :: "web3 \<Rightarrow> bytes \<Rightarrow> bytes \<Rightarrow> bytes \<times> int" where
  "feeRouter_pool w3 programId dbcPool = w3_find w3 [ascii_bytes (sd_poolState SEEDS), dbcPool] programId"

definition feeRouter_holderVault :: "web3 \<Rightarrow> bytes \<Rightarrow> bytes \<Rightarrow> bytes \<times> int" where
  "feeRouter_holderVault w3 programId dbcPool = w3_find w3 [ascii_bytes (sd_holderVault SEEDS), dbcPool] programId"

definition feeRouter_buybackVault :: "web3 \<Rightarrow> bytes \<Rightarrow> bytes \<Rightarrow> bytes \<times> int" where
  "feeRouter_buybackVault w3 programId coinMint = w3_find w3 [ascii_bytes (sd_buybackVault SEEDS), coinMint] programId"

definition feeRouter_treasury :: "web3 \<Rightarrow> bytes \<Rightarrow> bytes \<Rightarrow> bytes \<times> int" where
  "feeRouter_treasury w3 programId coinMint = w3_find w3 [ascii_bytes (sd_treasury SEEDS), coinMint] programId"

definition feeRouter_routerQuoteRecv :: "web3 \<Rightarrow> bytes \<Rightarrow> bytes \<Rightarrow> bytes \<Rightarrow> bytes" where
  "feeRouter_routerQuoteRecv w3 programId coinMint tokenProgram =
     ata w3 coinMint (fst (feeRouter_router w3 programId)) tokenProgram"

section \<open>distributor\<close>

definition distributor_config :: "web3 \<Rightarrow> bytes \<Rightarrow> bytes \<times> int" where
  "distributor_config w3 programId = w3_find w3 [ascii_bytes (sd_dist SEEDS)] programId"

definition distributor_distAuth :: "web3 \<Rightarrow> bytes \<Rightarrow> bytes \<times> int" where
  "distributor_distAuth w3 programId = w3_find w3 [ascii_bytes (sd_distAuth SEEDS)] programId"

definition distributor_epoch :: "web3 \<Rightarrow> bytes \<Rightarrow> bytes \<Rightarrow> int \<Rightarrow> bytes \<times> int" where
  "distributor_epoch w3 programId pool index = w3_find w3 [ascii_bytes (sd_epoch SEEDS), pool, u32LE index] programId"

definition distributor_epochVault :: "web3 \<Rightarrow> bytes \<Rightarrow> bytes \<Rightarrow> bytes \<Rightarrow> bytes" where
  "distributor_epochVault w3 epoch coinMint tokenProgram = ata w3 coinMint epoch tokenProgram"

definition distributor_claimed :: "web3 \<Rightarrow> bytes \<Rightarrow> bytes \<Rightarrow> bytes \<Rightarrow> bytes \<times> int" where
  "distributor_claimed w3 programId epoch wallet = w3_find w3 [ascii_bytes (sd_claimed SEEDS), epoch, wallet] programId"

section \<open>buyback\<close>

definition buyback_state :: "web3 \<Rightarrow> bytes \<Rightarrow> bytes \<times> int" where
  "buyback_state w3 programId = w3_find w3 [ascii_bytes (sd_bbState SEEDS)] programId"

definition buyback_authority :: "web3 \<Rightarrow> bytes \<Rightarrow> bytes \<times> int" where
  "buyback_authority w3 programId = w3_find w3 [ascii_bytes (sd_bbAuth SEEDS)] programId"

section \<open>Meteora\<close>

text \<open>Program ids of the registry and the derivations of \<^verbatim>\<open>packages/sdk/src/meteora.ts\<close>.\<close>

definition PROGRAM_IDS_dbc :: string where
  "PROGRAM_IDS_dbc = ''dbcij3LWUppWqq96dh6gJWwBifmcGfLSB5D4DuSMaqN''"

definition PROGRAM_IDS_dammV2 :: string where
  "PROGRAM_IDS_dammV2 = ''cpamdpZCGKUy5JxQXB4dcpGPiikHawvSWAd6mEn1sGG''"

definition DBC_ID :: "web3 \<Rightarrow> bytes" where
  "DBC_ID w3 = const_key w3 PROGRAM_IDS_dbc"

definition DAMM_V2_PROGRAM_ID :: "web3 \<Rightarrow> bytes" where
  "DAMM_V2_PROGRAM_ID w3 = const_key w3 PROGRAM_IDS_dammV2"

definition meteora_pda :: "web3 \<Rightarrow> bytes list \<Rightarrow> bytes \<Rightarrow> bytes" where
  "meteora_pda w3 seeds program = fst (w3_find w3 seeds program)"

definition dbcPoolAuthority :: "web3 \<Rightarrow> bytes" where
  "dbcPoolAuthority w3 = meteora_pda w3 [ascii_bytes ''pool_authority''] (DBC_ID w3)"

definition dbcEventAuthority :: "web3 \<Rightarrow> bytes" where
  "dbcEventAuthority w3 = meteora_pda w3 [ascii_bytes ''__event_authority''] (DBC_ID w3)"

definition dbcTokenVault :: "web3 \<Rightarrow> bytes \<Rightarrow> bytes \<Rightarrow> bytes" where
  "dbcTokenVault w3 mint pool = meteora_pda w3 [ascii_bytes ''token_vault'', mint, pool] (DBC_ID w3)"

definition dammPoolAuthority :: "web3 \<Rightarrow> bytes" where
  "dammPoolAuthority w3 = meteora_pda w3 [ascii_bytes ''pool_authority''] (DAMM_V2_PROGRAM_ID w3)"

definition dammEventAuthority :: "web3 \<Rightarrow> bytes" where
  "dammEventAuthority w3 = meteora_pda w3 [ascii_bytes ''__event_authority''] (DAMM_V2_PROGRAM_ID w3)"

definition dammTokenVault :: "web3 \<Rightarrow> bytes \<Rightarrow> bytes \<Rightarrow> bytes" where
  "dammTokenVault w3 mint pool = meteora_pda w3 [ascii_bytes ''token_vault'', mint, pool] (DAMM_V2_PROGRAM_ID w3)"

definition dammPosition :: "web3 \<Rightarrow> bytes \<Rightarrow> bytes" where
  "dammPosition w3 positionNftMint = meteora_pda w3 [ascii_bytes ''position'', positionNftMint] (DAMM_V2_PROGRAM_ID w3)"

section \<open>Derivations as data\<close>

text \<open>Every account the functions above derive, and the address the code computes for it.\<close>

datatype pda =
    PegConfig | PegCommodity bytes | PegReserve bytes | PegHedge bytes | PegKeeperPrice bytes | PegMintAuth
  | Router | PoolState bytes | HolderVault bytes | BuybackVault bytes | Treasury bytes
  | Dist | DistAuth | EpochPda bytes int | ClaimedPda bytes bytes
  | BuybackState | BuybackAuth

datatype owner = PegDesk | FeeRouter | Distributor | Buyback

fun pda_owner :: "pda \<Rightarrow> owner" where
  "pda_owner PegConfig = PegDesk" | "pda_owner (PegCommodity _) = PegDesk" | "pda_owner (PegReserve _) = PegDesk"
| "pda_owner (PegHedge _) = PegDesk" | "pda_owner (PegKeeperPrice _) = PegDesk" | "pda_owner PegMintAuth = PegDesk"
| "pda_owner Router = FeeRouter" | "pda_owner (PoolState _) = FeeRouter" | "pda_owner (HolderVault _) = FeeRouter"
| "pda_owner (BuybackVault _) = FeeRouter" | "pda_owner (Treasury _) = FeeRouter"
| "pda_owner Dist = Distributor" | "pda_owner DistAuth = Distributor" | "pda_owner (EpochPda _ _) = Distributor"
| "pda_owner (ClaimedPda _ _) = Distributor"
| "pda_owner BuybackState = Buyback" | "pda_owner BuybackAuth = Buyback"

fun pda_address :: "web3 \<Rightarrow> bytes \<Rightarrow> pda \<Rightarrow> bytes" where
  "pda_address w3 p PegConfig = fst (pegDesk_config w3 p)"
| "pda_address w3 p (PegCommodity b) = fst (w3_find w3 [ascii_bytes (sd_commodity SEEDS), b] p)"
| "pda_address w3 p (PegReserve c) = fst (pegDesk_reserve w3 p c)"
| "pda_address w3 p (PegHedge c) = fst (pegDesk_hedge w3 p c)"
| "pda_address w3 p (PegKeeperPrice c) = fst (pegDesk_keeperPrice w3 p c)"
| "pda_address w3 p PegMintAuth = fst (pegDesk_mintAuth w3 p)"
| "pda_address w3 p Router = fst (feeRouter_router w3 p)"
| "pda_address w3 p (PoolState d) = fst (feeRouter_pool w3 p d)"
| "pda_address w3 p (HolderVault d) = fst (feeRouter_holderVault w3 p d)"
| "pda_address w3 p (BuybackVault m) = fst (feeRouter_buybackVault w3 p m)"
| "pda_address w3 p (Treasury m) = fst (feeRouter_treasury w3 p m)"
| "pda_address w3 p Dist = fst (distributor_config w3 p)"
| "pda_address w3 p DistAuth = fst (distributor_distAuth w3 p)"
| "pda_address w3 p (EpochPda d i) = fst (distributor_epoch w3 p d i)"
| "pda_address w3 p (ClaimedPda e w) = fst (distributor_claimed w3 p e w)"
| "pda_address w3 p BuybackState = fst (buyback_state w3 p)"
| "pda_address w3 p BuybackAuth = fst (buyback_authority w3 p)"

text \<open>Keys are 32 bytes, symbols 12, an epoch index a \<open>u32\<close>.\<close>

fun pda_wf :: "pda \<Rightarrow> bool" where
  "pda_wf (PegCommodity s) = (length s = 12)"
| "pda_wf (PegReserve k) = (length k = 32)" | "pda_wf (PegHedge k) = (length k = 32)"
| "pda_wf (PegKeeperPrice k) = (length k = 32)" | "pda_wf (PoolState k) = (length k = 32)"
| "pda_wf (HolderVault k) = (length k = 32)" | "pda_wf (BuybackVault k) = (length k = 32)"
| "pda_wf (Treasury k) = (length k = 32)" | "pda_wf (EpochPda k i) = (length k = 32 \<and> 0 \<le> i \<and> i < 2 ^ 32)"
| "pda_wf (ClaimedPda e w) = (length e = 32 \<and> length w = 32)"
| "pda_wf _ = True"

text \<open>The bytes the program hashes: the seeds run together.\<close>

fun pda_seed_bytes :: "pda \<Rightarrow> bytes" where
  "pda_seed_bytes PegConfig = ascii_bytes ''config''"
| "pda_seed_bytes (PegCommodity s) = ascii_bytes ''cmdty'' @ s"
| "pda_seed_bytes (PegReserve k) = ascii_bytes ''reserve'' @ k"
| "pda_seed_bytes (PegHedge k) = ascii_bytes ''hedge'' @ k"
| "pda_seed_bytes (PegKeeperPrice k) = ascii_bytes ''kp'' @ k"
| "pda_seed_bytes PegMintAuth = ascii_bytes ''mint_auth''"
| "pda_seed_bytes Router = ascii_bytes ''router''"
| "pda_seed_bytes (PoolState k) = ascii_bytes ''pool'' @ k"
| "pda_seed_bytes (HolderVault k) = ascii_bytes ''holder_vault'' @ k"
| "pda_seed_bytes (BuybackVault k) = ascii_bytes ''buyback_vault'' @ k"
| "pda_seed_bytes (Treasury k) = ascii_bytes ''treasury'' @ k"
| "pda_seed_bytes Dist = ascii_bytes ''dist''"
| "pda_seed_bytes DistAuth = ascii_bytes ''dist_auth''"
| "pda_seed_bytes (EpochPda k i) = ascii_bytes ''epoch'' @ k @ u32LE i"
| "pda_seed_bytes (ClaimedPda e w) = ascii_bytes ''claimed'' @ e @ w"
| "pda_seed_bytes BuybackState = ascii_bytes ''buyback''"
| "pda_seed_bytes BuybackAuth = ascii_bytes ''bb_auth''"

section \<open>Lemmas\<close>

lemma length_ascii_bytes [simp]: "length (ascii_bytes s) = length s"
  by (simp add: ascii_bytes_def)

lemma length_u32LE [simp]: "length (u32LE n) = 4"
  by (simp add: u32LE_def)

lemma u32LE_inj: "0 \<le> i \<Longrightarrow> i < 2 ^ 32 \<Longrightarrow> 0 \<le> j \<Longrightarrow> j < 2 ^ 32 \<Longrightarrow> u32LE i = u32LE j \<Longrightarrow> i = j"
  using le_bytes_inj [of i 4 j] by (simp add: u32LE_def)

text \<open>The length of the hashed bytes tells the kind of account, except for the two buyback singletons.\<close>

fun pda_kind :: "pda \<Rightarrow> nat" where
  "pda_kind PegConfig = 0"
| "pda_kind (PegCommodity _) = 1"
| "pda_kind (PegReserve _) = 2"
| "pda_kind (PegHedge _) = 3"
| "pda_kind (PegKeeperPrice _) = 4"
| "pda_kind PegMintAuth = 5"
| "pda_kind Router = 6"
| "pda_kind (PoolState _) = 7"
| "pda_kind (HolderVault _) = 8"
| "pda_kind (BuybackVault _) = 9"
| "pda_kind (Treasury _) = 10"
| "pda_kind Dist = 11"
| "pda_kind DistAuth = 12"
| "pda_kind (EpochPda _ _) = 13"
| "pda_kind (ClaimedPda _ _) = 14"
| "pda_kind BuybackState = 15"
| "pda_kind BuybackAuth = 16"

fun seed_length :: "pda \<Rightarrow> nat" where
  "seed_length PegConfig = 6"
| "seed_length (PegCommodity _) = 17"
| "seed_length (PegReserve _) = 39"
| "seed_length (PegHedge _) = 37"
| "seed_length (PegKeeperPrice _) = 34"
| "seed_length PegMintAuth = 9"
| "seed_length Router = 6"
| "seed_length (PoolState _) = 36"
| "seed_length (HolderVault _) = 44"
| "seed_length (BuybackVault _) = 45"
| "seed_length (Treasury _) = 40"
| "seed_length Dist = 4"
| "seed_length DistAuth = 9"
| "seed_length (EpochPda _ _) = 41"
| "seed_length (ClaimedPda _ _) = 71"
| "seed_length BuybackState = 7"
| "seed_length BuybackAuth = 7"

lemma length_pda_seed_bytes: "pda_wf p \<Longrightarrow> length (pda_seed_bytes p) = seed_length p"
  by (cases p) simp_all

lemma seed_length_kind:
  "pda_owner p = pda_owner q \<Longrightarrow> seed_length p = seed_length q \<Longrightarrow> pda_owner p \<noteq> Buyback \<Longrightarrow> pda_kind p = pda_kind q"
  by (cases p; cases q) simp_all

lemma pda_seed_inj_kind:
  "pda_kind p = pda_kind q \<Longrightarrow> pda_wf p \<Longrightarrow> pda_wf q \<Longrightarrow> pda_seed_bytes p = pda_seed_bytes q \<Longrightarrow> p = q"
  by (cases p; cases q) (auto simp: u32LE_inj append_eq_append_conv)

lemma pda_seed_length_inj:
  assumes "pda_owner p = pda_owner q" "pda_wf p" "pda_wf q" "pda_seed_bytes p = pda_seed_bytes q"
  shows "p = q"
proof (cases "pda_owner p = Buyback")
  case True
  have "ascii_bytes ''buyback'' \<noteq> ascii_bytes ''bb_auth''" by (simp add: ascii_bytes_def)
  then show ?thesis using assms True by (cases p; cases q) auto
next
  case False
  have "seed_length p = seed_length q" using assms(2-4) length_pda_seed_bytes [of p] length_pda_seed_bytes [of q] by simp
  then show ?thesis using assms False by (intro pda_seed_inj_kind seed_length_kind)
qed

lemma pda_address_find:
  "(\<And>s. w3_find w3 s pid = h (concat s)) \<Longrightarrow> pda_address w3 pid p = fst (h (pda_seed_bytes p))"
  by (cases p)
    (simp_all add: pegDesk_config_def pegDesk_reserve_def pegDesk_hedge_def pegDesk_keeperPrice_def pegDesk_mintAuth_def
      feeRouter_router_def feeRouter_pool_def feeRouter_holderVault_def feeRouter_buybackVault_def feeRouter_treasury_def
      distributor_config_def distributor_distAuth_def distributor_epoch_def distributor_claimed_def
      buyback_state_def buyback_authority_def SEEDS_def)

section \<open>Properties\<close>

text \<open>
  Two accounts of one program have the same address only if the derivation, which hashes the
  concatenated seeds, collides on their seeds: no confusion of kinds, keys or epoch indices is left
  to the layout of the seeds.
\<close>

theorem pda_domains_separate:
  assumes "\<forall>s. w3_find w3 s pid = h (concat s)"
    and "pda_owner p = pda_owner q" "pda_wf p" "pda_wf q"
    and "fst (h (pda_seed_bytes p)) = fst (h (pda_seed_bytes q)) \<longrightarrow> pda_seed_bytes p = pda_seed_bytes q"
    and "pda_address w3 pid p = pda_address w3 pid q"
  shows "p = q"
  using assms pda_address_find [of w3 pid h] pda_seed_length_inj by auto

definition seed_web3 :: web3 where
  "seed_web3 = \<lparr>w3_find = (\<lambda>s p. (concat s, 255)), w3_key = (\<lambda>s. None), w3_text = (\<lambda>b. [])\<rparr>"

lemma pda_domains_separate_witness:
  "pda_address seed_web3 [] (HolderVault (replicate 32 1)) \<noteq> pda_address seed_web3 [] (PoolState (replicate 32 1))"
  using pda_domains_separate [of seed_web3 "[]" "\<lambda>x. (x, 255)" "HolderVault (replicate 32 1)" "PoolState (replicate 32 1)"]
  by (auto simp: seed_web3_def)

text \<open>Symbols.\<close>

lemma of_char_byte_inj: "of_char c = (of_char d :: byte) \<longleftrightarrow> c = d"
proof
  have val: "uint (of_char c :: byte) = of_char c" for c
  proof -
    have "uint (of_char c :: byte) = uint (word_of_int (of_char c) :: byte)" by (simp only: of_int_of_char)
    also have "\<dots> = of_char c mod 2 ^ LENGTH(8)" by (rule uint_word_of_int)
    also have "\<dots> = of_char c mod 256" by (simp only: len_num0 len_bit0 len_num1 len_of_numeral_defs) simp
    also have "\<dots> = of_char c" by (rule of_char_mod_256)
    finally show ?thesis .
  qed
  assume "of_char c = (of_char d :: byte)"
  then have "uint (of_char c :: byte) = uint (of_char d :: byte)" by (rule arg_cong)
  then show "c = d" unfolding val by (rule of_char_eqI)
qed simp

lemma ascii_bytes_inj: "ascii_bytes s = ascii_bytes t \<longleftrightarrow> s = t"
proof
  assume "ascii_bytes s = ascii_bytes t"
  moreover have "inj (of_char :: char \<Rightarrow> byte)" by (simp add: inj_def of_char_byte_inj)
  ultimately show "s = t" by (simp add: ascii_bytes_def inj_map_eq_map)
qed simp

lemma takeWhile_symbol:
  assumes "\<forall>c \<in> set s. c \<noteq> CHR 0x00"
  shows "takeWhile (\<lambda>b. b \<noteq> 0) (ascii_bytes s @ replicate n 0) = ascii_bytes s"
proof -
  have "of_char c \<noteq> (0 :: byte)" if "c \<in> set s" for c
  proof
    assume "of_char c = (0 :: byte)"
    moreover have "(of_char (CHR 0x00) :: byte) = 0" by simp
    ultimately have "c = CHR 0x00" using of_char_byte_inj [of c "CHR 0x00"] by (simp only: simp_thms)
    then show False using assms that by blast
  qed
  then show ?thesis by (auto simp: ascii_bytes_def takeWhile_append)
qed

lemma symbol_char_nonzero:
  "(CHR ''A'' \<le> c \<and> c \<le> CHR ''Z'') \<or> (CHR ''0'' \<le> c \<and> c \<le> CHR ''9'') \<Longrightarrow> c \<noteq> CHR 0x00"
  by (auto simp: less_eq_char_def)

lemma symbolToBytes12_Inr:
  assumes "symbolToBytes12 s = Inr b"
  shows "length b = 12" "takeWhile (\<lambda>x. x \<noteq> 0) b = ascii_bytes s"
proof -
  have s: "length s \<le> 12" "\<forall>c \<in> set s. c \<noteq> CHR 0x00" and b: "b = ascii_bytes s @ replicate (12 - length s) 0"
    using assms symbol_char_nonzero by (auto simp: symbolToBytes12_def split: if_splits)
  show "length b = 12" using s(1) b by simp
  show "takeWhile (\<lambda>x. x \<noteq> 0) b = ascii_bytes s" unfolding b by (rule takeWhile_symbol [OF s(2)])
qed

text \<open>
  An accepted symbol fills 12 bytes from which it can be read back (the text before the first
  NUL), so two symbols never share a commodity account seed.
\<close>

theorem symbol_bytes_roundtrip:
  assumes "symbolToBytes12 s = Inr b"
  shows "length b = 12 \<and> takeWhile (\<lambda>x. x \<noteq> 0) b = ascii_bytes s \<and> (\<forall>t. symbolToBytes12 t = Inr b \<longrightarrow> t = s)"
  using symbolToBytes12_Inr [OF assms] symbolToBytes12_Inr [of _ b] ascii_bytes_inj by auto

lemma symbol_bytes_roundtrip_witness:
  "\<exists>b. symbolToBytes12 ''GLD'' = Inr b \<and> length b = 12 \<and> takeWhile (\<lambda>x. x \<noteq> 0) b = ascii_bytes ''GLD''"
proof -
  have "symbolToBytes12 ''GLD'' = Inr (ascii_bytes ''GLD'' @ replicate 9 0)"
    by (simp add: symbolToBytes12_def less_eq_char_def)
  from this symbol_bytes_roundtrip [OF this] show ?thesis by blast
qed

end
