(* ===== verification/Keccak.thy ===== *)
theory Keccak
  imports Prelude
begin

text \<open>
  The SDK's own Keccak-256 (\<^verbatim>\<open>packages/sdk/src/keccak256.ts\<close>).  The state is the code's
  \<^verbatim>\<open>BigUint64Array(25)\<close>: a list of 25 lanes of type \<open>64 word\<close>, whose stores truncate to 64 bits
  as the array's do; the nested \<^verbatim>\<open>for\<close> loops are folds over the same index ranges that update the
  list in place.
\<close>

unbundle bit_operations_syntax

section \<open>Constants\<close>

type_synonym lane = "64 word"

definition ROUNDS :: nat where "ROUNDS = 24"
definition RATE_BYTES :: nat where "RATE_BYTES = 136"

definition RC :: "lane list" where
  "RC = [
    0x0000000000000001, 0x0000000000008082, 0x800000000000808a, 0x8000000080008000,
    0x000000000000808b, 0x0000000080000001, 0x8000000080008081, 0x8000000000008009,
    0x000000000000008a, 0x0000000000000088, 0x0000000080008009, 0x000000008000000a,
    0x000000008000808b, 0x800000000000008b, 0x8000000000008089, 0x8000000000008003,
    0x8000000000008002, 0x8000000000000080, 0x000000000000800a, 0x800000008000000a,
    0x8000000080008081, 0x8000000000008080, 0x0000000080000001, 0x8000000080008008]"

definition ROT :: "nat list" where
  "ROT = [0, 1, 62, 28, 27, 36, 44, 6, 55, 20, 3, 10, 43, 25, 39, 41, 45, 15, 21, 8, 18, 2, 61, 56, 14]"

definition rotl64 :: "lane \<Rightarrow> nat \<Rightarrow> lane" where
  "rotl64 x n = (if n = 0 then x else push_bit n x OR drop_bit (64 - n) x)"

section \<open>The permutation\<close>

text \<open>\<open>for (x = 0; x < 5; x++) for (y = 0; y < 5; y++)\<close>, with a body that has a name.\<close>

definition for_y :: "(nat \<Rightarrow> nat \<Rightarrow> lane list \<Rightarrow> lane list) \<Rightarrow> nat \<Rightarrow> lane list \<Rightarrow> lane list" where
  "for_y body x s = fold (body x) [0..<5] s"

definition for_xy :: "(nat \<Rightarrow> nat \<Rightarrow> lane list \<Rightarrow> lane list) \<Rightarrow> lane list \<Rightarrow> lane list" where
  "for_xy body s = fold (for_y body) [0..<5] s"

definition theta_C :: "lane list \<Rightarrow> lane list" where
  "theta_C state = map (\<lambda>x. state ! x XOR state ! (x + 5) XOR state ! (x + 10) XOR state ! (x + 15)
     XOR state ! (x + 20)) [0..<5]"

definition theta_D :: "lane list \<Rightarrow> lane list" where
  "theta_D C = map (\<lambda>x. C ! ((x + 4) mod 5) XOR rotl64 (C ! ((x + 1) mod 5)) 1) [0..<5]"

definition theta_body :: "lane list \<Rightarrow> nat \<Rightarrow> nat \<Rightarrow> lane list \<Rightarrow> lane list" where
  "theta_body D x y s = s[x + 5 * y := s ! (x + 5 * y) XOR D ! x]"

definition theta :: "lane list \<Rightarrow> lane list" where
  "theta state = for_xy (theta_body (theta_D (theta_C state))) state"

text \<open>\<open>newX = y\<close> and \<open>newY = (2 * x + 3 * y) mod 5\<close>\<close>

definition rho_pi_body :: "lane list \<Rightarrow> nat \<Rightarrow> nat \<Rightarrow> lane list \<Rightarrow> lane list" where
  "rho_pi_body state x y B =
     B[y + 5 * ((2 * x + 3 * y) mod 5) := rotl64 (state ! (x + 5 * y)) (ROT ! (x + 5 * y))]"

definition rho_pi :: "lane list \<Rightarrow> lane list \<Rightarrow> lane list" where
  "rho_pi state B = for_xy (rho_pi_body state) B"

definition chi_body :: "lane list \<Rightarrow> nat \<Rightarrow> nat \<Rightarrow> lane list \<Rightarrow> lane list" where
  "chi_body B x y s =
     s[x + 5 * y := B ! (x + 5 * y) XOR (NOT (B ! ((x + 1) mod 5 + 5 * y)) AND B ! ((x + 2) mod 5 + 5 * y))]"

definition chi :: "lane list \<Rightarrow> lane list \<Rightarrow> lane list" where
  "chi B state = for_xy (chi_body B) state"

definition iota :: "nat \<Rightarrow> lane list \<Rightarrow> lane list" where
  "iota round state = state[0 := state ! 0 XOR RC ! round]"

text \<open>One round; the array \<open>B\<close> is allocated once and carried from round to round.\<close>

definition chi_iota :: "nat \<Rightarrow> lane list \<Rightarrow> lane list \<Rightarrow> lane list \<times> lane list" where
  "chi_iota round state B = (iota round (chi B state), B)"

definition after_theta :: "nat \<Rightarrow> lane list \<Rightarrow> lane list \<Rightarrow> lane list \<times> lane list" where
  "after_theta round B state = chi_iota round state (rho_pi state B)"

fun keccak_round :: "nat \<Rightarrow> lane list \<times> lane list \<Rightarrow> lane list \<times> lane list" where
  "keccak_round round (state, B) = after_theta round B (theta state)"

definition keccakF1600 :: "lane list \<Rightarrow> lane list" where
  "keccakF1600 state = fst (fold keccak_round [0..<ROUNDS] (state, replicate 25 0))"

section \<open>The sponge\<close>

definition pad_block :: "bytes \<Rightarrow> bytes" where
  "pad_block input =
     (let numBlocks = length input div RATE_BYTES + 1;
          padded = input @ replicate (numBlocks * RATE_BYTES - length input) 0;
          padded = padded[length input := padded ! length input XOR 0x01]
      in padded[length padded - 1 := padded ! (length padded - 1) XOR 0x80])"

text \<open>\<open>getBigUint64(_, true)\<close> and \<open>writeBigUInt64LE\<close>\<close>

definition get_u64_le :: "bytes \<Rightarrow> nat \<Rightarrow> lane" where
  "get_u64_le buf off = word_of_int (le_value (take 8 (drop off buf)))"

definition put_u64_le :: "lane \<Rightarrow> bytes" where
  "put_u64_le w = le_bytes 8 (uint w)"

definition absorb_block :: "bytes \<Rightarrow> nat \<Rightarrow> lane list \<Rightarrow> lane list" where
  "absorb_block padded off state =
     keccakF1600 (fold (\<lambda>i s. s[i := s ! i XOR get_u64_le padded (off + i * 8)]) [0..<RATE_BYTES div 8] state)"

definition absorb :: "bytes \<Rightarrow> lane list \<Rightarrow> lane list" where
  "absorb padded state = fold (\<lambda>b. absorb_block padded (b * RATE_BYTES)) [0..<length padded div RATE_BYTES] state"

definition keccak256 :: "bytes \<Rightarrow> bytes" where
  "keccak256 input = (let state = absorb (pad_block input) (replicate 25 0)
     in concat (map (\<lambda>i. put_u64_le (state ! i)) [0..<4]))"

section \<open>In-place loops\<close>

text \<open>
  A loop whose body rewrites one cell, a different one for each index, from the cell's old value
  leaves in every visited cell the value computed from the original content.
\<close>

lemma length_fold_update:
  "(\<And>k t. length (f k t) = length t) \<Longrightarrow> length (fold f ks s) = length s"
  by (induction ks arbitrary: s) auto

lemma fold_update_other:
  assumes "\<And>k t. f k t = t[g k := F k (t ! g k)]" "j \<notin> g ` set ks"
  shows "fold f ks s ! j = s ! j"
  using assms(2) by (induction ks arbitrary: s) (auto simp: assms(1))

lemma fold_update_nth:
  assumes body: "\<And>k t. f k t = t[g k := F k (t ! g k)]"
    and "inj_on g (set ks)" "distinct ks" "k \<in> set ks" "g k < length s"
  shows "fold f ks s ! g k = F k (s ! g k)"
  using assms(2-)
proof (induction ks arbitrary: s)
  case Nil
  then show ?case by simp
next
  case (Cons a ks)
  show ?case
  proof (cases "k = a")
    case True
    have "g a \<notin> g ` set ks" using Cons.prems by (auto simp: inj_on_def)
    then have "fold f ks (f a s) ! g a = f a s ! g a" by (intro fold_update_other [OF body])
    moreover have "f a s ! g a = F a (s ! g a)" using Cons.prems True by (simp add: body)
    ultimately show ?thesis by (simp only: fold_Cons comp_apply True)
  next
    case False
    then have "k \<in> set ks" "g k \<noteq> g a" using Cons.prems by (auto simp: inj_on_def)
    then have "fold f ks (f a s) ! g k = F k (f a s ! g k)"
      using Cons.prems by (intro Cons.IH) (auto simp: body inj_on_def)
    moreover have "f a s ! g k = s ! g k" using \<open>g k \<noteq> g a\<close> by (simp add: body)
    ultimately show ?thesis by (simp only: fold_Cons comp_apply)
  qed
qed

definition xy_pairs :: "(nat \<times> nat) list" where
  "xy_pairs = List.product [0..<5] [0..<5]"

lemma fold_map_pairs:
  "fold (\<lambda>(a, b). f a b) (map (Pair x) ys) s = fold (f x) ys s"
  by (induction ys arbitrary: s) auto

lemma fold_product:
  "fold (\<lambda>x. fold (f x) ys) xs s = fold (\<lambda>(x, y). f x y) (List.product xs ys) s"
  by (induction xs arbitrary: s) (auto simp: fold_map_pairs)

lemma for_xy_pairs: "for_xy body s = fold (\<lambda>(x, y). body x y) xy_pairs s"
proof -
  have "for_xy body s = fold (\<lambda>x. fold (body x) [0..<5]) [0..<5] s"
    by (simp only: for_xy_def) (intro fold_cong, simp_all add: for_y_def fun_eq_iff)
  then show ?thesis by (simp only: fold_product xy_pairs_def)
qed

lemma set_xy_pairs: "set xy_pairs = {0..<5} \<times> {0..<5}"
  by (simp add: xy_pairs_def)

lemma distinct_xy_pairs: "distinct xy_pairs"
  by (simp add: xy_pairs_def distinct_product)

lemma for_xy_nth:
  assumes "\<And>x y t. body x y t = t[g x y := F x y (t ! g x y)]"
    and "inj_on (\<lambda>(x, y). g x y) ({0..<5} \<times> {0..<5})" "x < 5" "y < 5" "g x y < length s"
  shows "for_xy body s ! g x y = F x y (s ! g x y)"
  using fold_update_nth [of "\<lambda>(x, y). body x y" "\<lambda>(x, y). g x y" "\<lambda>(x, y). F x y" xy_pairs "(x, y)" s] assms
  by (simp add: for_xy_pairs set_xy_pairs distinct_xy_pairs split: prod.splits)

lemma length_for_xy: "(\<And>x y t. length (body x y t) = length t) \<Longrightarrow> length (for_xy body s) = length s"
  unfolding for_xy_pairs by (intro length_fold_update) (simp split: prod.splits)

lemma lane_index_inj: "inj_on (\<lambda>(x, y). x + 5 * y) ({0..<5} \<times> {0..<(5::nat)})"
proof -
  have "distinct (map (\<lambda>(x, y). x + 5 * y) xy_pairs)" by code_simp
  then show ?thesis by (simp only: distinct_map set_xy_pairs)
qed

lemma pi_index_inj: "inj_on (\<lambda>(x, y). y + 5 * ((2 * x + 3 * y) mod 5)) ({0..<5} \<times> {0..<(5::nat)})"
proof -
  have "distinct (map (\<lambda>(x, y). y + 5 * ((2 * x + 3 * y) mod 5)) xy_pairs)" by code_simp
  then show ?thesis by (simp only: distinct_map set_xy_pairs)
qed

section \<open>The reference permutation\<close>

text \<open>
  Keccak-f[1600] as its specification states it: the state is a 5 by 5 matrix of lanes, each step
  maps a whole matrix to a whole matrix, rotations are the library's \<^const>\<open>word_rotl\<close>, the
  rotation offsets are the triangular numbers along the walk \<open>(x, y) \<mapsto> (y, 2x + 3y)\<close>, and the
  round constants come from the shift register \<open>x\<^sup>8 + x\<^sup>6 + x\<^sup>5 + x\<^sup>4 + 1\<close>.
\<close>

type_synonym matrix = "nat \<Rightarrow> nat \<Rightarrow> lane"

definition spec_theta :: "matrix \<Rightarrow> matrix" where
  "spec_theta A = (let C = (\<lambda>x. A x 0 XOR A x 1 XOR A x 2 XOR A x 3 XOR A x 4)
     in (\<lambda>x y. A x y XOR (C ((x + 4) mod 5) XOR word_rotl 1 (C ((x + 1) mod 5)))))"

text \<open>The walk starts at \<open>(1, 0)\<close>; step \<open>t\<close> of it has offset \<open>(t + 1) (t + 2) / 2\<close>.\<close>

fun spec_offset_from :: "nat \<Rightarrow> nat \<Rightarrow> nat \<Rightarrow> nat \<Rightarrow> nat \<Rightarrow> nat \<Rightarrow> nat" where
  "spec_offset_from 0 t px py x y = 0"
| "spec_offset_from (Suc k) t px py x y =
     (if px = x \<and> py = y then ((t + 1) * (t + 2) div 2) mod 64
      else spec_offset_from k (t + 1) py ((2 * px + 3 * py) mod 5) x y)"

definition spec_offset :: "nat \<Rightarrow> nat \<Rightarrow> nat" where
  "spec_offset x y = spec_offset_from 24 0 1 0 x y"

definition spec_rho_pi :: "matrix \<Rightarrow> matrix" where
  "spec_rho_pi A = (\<lambda>x y. word_rotl (spec_offset ((x + 3 * y) mod 5) x) (A ((x + 3 * y) mod 5) x))"

definition spec_chi :: "matrix \<Rightarrow> matrix" where
  "spec_chi A = (\<lambda>x y. A x y XOR (NOT (A ((x + 1) mod 5) y) AND A ((x + 2) mod 5) y))"

fun lfsr_step :: "bool list \<Rightarrow> bool list" where
  "lfsr_step [r0, r1, r2, r3, r4, r5, r6, r7] =
     [r7, r0, r1, r2, r3 \<noteq> r7, r4 \<noteq> r7, r5 \<noteq> r7, r6]"
| "lfsr_step r = r"

fun lfsr :: "nat \<Rightarrow> bool list" where
  "lfsr 0 = [True, False, False, False, False, False, False, False]"
| "lfsr (Suc t) = lfsr_step (lfsr t)"

fun spec_rc_bits :: "nat \<Rightarrow> nat \<Rightarrow> lane" where
  "spec_rc_bits 0 round = 0"
| "spec_rc_bits (Suc j) round =
     (if hd (lfsr (j + 7 * round)) then spec_rc_bits j round OR push_bit (2 ^ j - 1) 1
      else spec_rc_bits j round)"

definition spec_rc :: "nat \<Rightarrow> lane" where
  "spec_rc round = spec_rc_bits 7 round"

definition spec_iota :: "nat \<Rightarrow> matrix \<Rightarrow> matrix" where
  "spec_iota round A = (\<lambda>x y. if x = 0 \<and> y = 0 then A 0 0 XOR spec_rc round else A x y)"

definition spec_round :: "nat \<Rightarrow> matrix \<Rightarrow> matrix" where
  "spec_round round A = spec_iota round (spec_chi (spec_rho_pi (spec_theta A)))"

definition spec_permutation :: "matrix \<Rightarrow> matrix" where
  "spec_permutation A = fold spec_round [0..<24] A"

section \<open>The code's permutation is the reference\<close>

lemma word_rotl_rotl64:
  assumes "n < 64"
  shows "word_rotl n (w :: lane) = rotl64 w n"
proof (cases "n = 0")
  case True
  have "word_rotl 0 w = w" by (rule bit_eqI) (simp add: bit_word_rotl_iff)
  then show ?thesis by (simp add: True rotl64_def)
next
  case False
  show ?thesis
  proof (rule bit_eqI)
    fix i
    assume "possible_bit TYPE(lane) i"
    then have i: "i < 64" by simp
    show "bit (word_rotl n w) i \<longleftrightarrow> bit (rotl64 w n) i"
    proof (cases "n \<le> i")
      case True
      then have "(i + (64 - n)) mod 64 = i - n" using i assms
        by (simp add: mod_if)
      then show ?thesis using i True False assms
        by (auto simp: bit_word_rotl_iff rotl64_def bit_simps dest: bit_imp_le_length [of w "64 + i - n"])
    next
      case le: False
      then have "(i + (64 - n)) mod 64 = i + (64 - n)" using i assms by simp
      then show ?thesis using i le False assms
        by (auto simp: bit_word_rotl_iff rotl64_def bit_simps add.commute [of i 64])
    qed
  qed
qed

definition lanes :: "lane list \<Rightarrow> matrix" where
  "lanes s = (\<lambda>x y. s ! (x + 5 * y))"

text \<open>Two matrices agree when they agree on the 25 positions.\<close>

definition agree :: "matrix \<Rightarrow> matrix \<Rightarrow> bool" where
  "agree A B \<longleftrightarrow> (\<forall>x<5. \<forall>y<5. A x y = B x y)"

lemma less_five_cases: "x < (5::nat) \<Longrightarrow> x = 0 \<or> x = 1 \<or> x = 2 \<or> x = 3 \<or> x = 4"
  by auto

lemma theta_agree: "length s = 25 \<Longrightarrow> agree (lanes (theta s)) (spec_theta (lanes s))"
proof -
  assume s: "length s = 25"
  have "lanes (theta s) x y = spec_theta (lanes s) x y" if xy: "x < 5" "y < 5" for x y
  proof -
    have "theta s ! (x + 5 * y) = s ! (x + 5 * y) XOR theta_D (theta_C s) ! x"
      unfolding theta_def
      using xy s by (intro for_xy_nth [where F = "\<lambda>x y w. w XOR theta_D (theta_C s) ! x"])
        (simp_all add: theta_body_def lane_index_inj)
    moreover have "theta_D (theta_C s) ! x =
      theta_C s ! ((x + 4) mod 5) XOR rotl64 (theta_C s ! ((x + 1) mod 5)) 1"
      using xy by (simp add: theta_D_def)
    moreover have "theta_C s ! k = s ! k XOR s ! (k + 5) XOR s ! (k + 10) XOR s ! (k + 15) XOR s ! (k + 20)"
      if "k < 5" for k using that by (simp add: theta_C_def)
    ultimately show ?thesis
      by (simp add: lanes_def spec_theta_def Let_def word_rotl_rotl64 xor.assoc)
  qed
  then show ?thesis by (simp add: agree_def)
qed

fun offset_ok :: "nat \<times> nat \<Rightarrow> bool" where
  "offset_ok (x, y) \<longleftrightarrow> ROT ! (x + 5 * y) = spec_offset x y \<and> spec_offset x y < 64"

lemma offsets_eq: "x < 5 \<Longrightarrow> y < 5 \<Longrightarrow> ROT ! (x + 5 * y) = spec_offset x y \<and> spec_offset x y < 64"
proof -
  have "list_all offset_ok xy_pairs" by code_simp
  then show "x < 5 \<Longrightarrow> y < 5 \<Longrightarrow> ?thesis" by (auto simp: list_all_iff set_xy_pairs)
qed

lemma rho_pi_agree:
  assumes "length B = 25"
  shows "agree (lanes (rho_pi s B)) (spec_rho_pi (lanes s))"
proof -
  have "lanes (rho_pi s B) x y = spec_rho_pi (lanes s) x y" if xy: "x < 5" "y < 5" for x y
  proof -
    let ?x = "(x + 3 * y) mod 5"
    have return: "(2 * ?x + 3 * x) mod 5 = y"
      using less_five_cases [OF xy(1)] less_five_cases [OF xy(2)] by auto
    have "rho_pi s B ! (x + 5 * ((2 * ?x + 3 * x) mod 5)) = rotl64 (s ! (?x + 5 * x)) (ROT ! (?x + 5 * x))"
      unfolding rho_pi_def
      using xy assms
      by (intro for_xy_nth [where F = "\<lambda>x y w. rotl64 (s ! (x + 5 * y)) (ROT ! (x + 5 * y))"
            and x = ?x and y = x and g = "\<lambda>x y. y + 5 * ((2 * x + 3 * y) mod 5)"])
        (simp_all add: rho_pi_body_def pi_index_inj return)
    then show ?thesis using xy offsets_eq
      by (simp add: lanes_def spec_rho_pi_def word_rotl_rotl64 return)
  qed
  then show ?thesis by (simp add: agree_def)
qed

lemma chi_agree:
  assumes "length s = 25"
  shows "agree (lanes (chi B s)) (spec_chi (lanes B))"
proof -
  have "lanes (chi B s) x y = spec_chi (lanes B) x y" if xy: "x < 5" "y < 5" for x y
  proof -
    have "chi B s ! (x + 5 * y) =
      B ! (x + 5 * y) XOR (NOT (B ! ((x + 1) mod 5 + 5 * y)) AND B ! ((x + 2) mod 5 + 5 * y))"
      unfolding chi_def
      using xy assms by (intro for_xy_nth [where F = "\<lambda>x y w. B ! (x + 5 * y) XOR
          (NOT (B ! ((x + 1) mod 5 + 5 * y)) AND B ! ((x + 2) mod 5 + 5 * y))"])
        (simp_all add: chi_body_def lane_index_inj)
    then show ?thesis by (simp add: lanes_def spec_chi_def)
  qed
  then show ?thesis by (simp add: agree_def)
qed

definition rc_ok :: "nat \<Rightarrow> bool" where
  "rc_ok round \<longleftrightarrow> RC ! round = spec_rc round"

lemma rc_eq: "round < 24 \<Longrightarrow> RC ! round = spec_rc round"
proof -
  have "list_all rc_ok [0..<24]" by code_simp
  then show "round < 24 \<Longrightarrow> ?thesis" by (simp add: list_all_iff rc_ok_def)
qed

lemma iota_agree:
  assumes "length s = 25" "round < 24"
  shows "agree (lanes (iota round s)) (spec_iota round (lanes s))"
  using assms by (auto simp: agree_def lanes_def iota_def spec_iota_def rc_eq nth_list_update)

lemma length_steps [simp]:
  "length (theta s) = length s" "length (rho_pi s B) = length B" "length (chi B s) = length s"
  "length (iota round s) = length s"
  by (simp_all add: theta_def rho_pi_def chi_def iota_def length_for_xy theta_body_def rho_pi_body_def
      chi_body_def)

text \<open>The specification's steps read only the 25 positions.\<close>

lemma spec_steps_cong:
  assumes "agree A B"
  shows "agree (spec_theta A) (spec_theta B)" "agree (spec_rho_pi A) (spec_rho_pi B)"
    "agree (spec_chi A) (spec_chi B)" "agree (spec_iota round A) (spec_iota round B)"
  using assms by (simp_all add: agree_def spec_theta_def spec_rho_pi_def spec_chi_def spec_iota_def Let_def)

lemma agree_trans: "agree A B \<Longrightarrow> agree B C \<Longrightarrow> agree A C"
  by (simp add: agree_def)

lemma round_agree:
  assumes "length s = 25" "length B = 25" "round < 24" "agree (lanes s) A"
  shows "agree (lanes (fst (keccak_round round (s, B)))) (spec_round round A)"
    and "length (fst (keccak_round round (s, B))) = 25" "length (snd (keccak_round round (s, B))) = 25"
proof -
  let ?t = "theta s"
  have t: "agree (lanes ?t) (spec_theta A)"
    using theta_agree [OF assms(1)] spec_steps_cong(1) [OF assms(4)] by (rule agree_trans)
  have r: "agree (lanes (rho_pi ?t B)) (spec_rho_pi (spec_theta A))"
    using rho_pi_agree [OF assms(2)] spec_steps_cong(2) [OF t] by (rule agree_trans)
  have c: "agree (lanes (chi (rho_pi ?t B) ?t)) (spec_chi (spec_rho_pi (spec_theta A)))"
    using chi_agree [of ?t "rho_pi ?t B"] spec_steps_cong(3) [OF r] assms(1)
    by (simp add: agree_def)
  have "agree (lanes (iota round (chi (rho_pi ?t B) ?t))) (spec_iota round (spec_chi (spec_rho_pi (spec_theta A))))"
    using iota_agree [of "chi (rho_pi ?t B) ?t" round] spec_steps_cong(4) [OF c] assms(1,3)
    by (simp add: agree_def)
  then show "agree (lanes (fst (keccak_round round (s, B)))) (spec_round round A)"
    by (simp add: after_theta_def chi_iota_def spec_round_def)
qed (use assms in \<open>simp_all add: after_theta_def chi_iota_def\<close>)

lemma rounds_agree:
  assumes "length s = 25" "length B = 25" "agree (lanes s) A" "\<forall>r \<in> set rs. r < 24"
  shows "agree (lanes (fst (fold keccak_round rs (s, B)))) (fold spec_round rs A)
    \<and> length (fst (fold keccak_round rs (s, B))) = 25"
  using assms
proof (induction rs arbitrary: s B A)
  case Nil
  then show ?case by simp
next
  case (Cons r rs)
  obtain s' B' where sB: "keccak_round r (s, B) = (s', B')" by (cases "keccak_round r (s, B)")
  then have "agree (lanes s') (spec_round r A)" "length s' = 25" "length B' = 25"
    using round_agree [of s B r A] Cons.prems by auto
  then show ?case using Cons.IH [of s' B' "spec_round r A"] Cons.prems sB by simp
qed

lemma keccakF1600_agree: "length s = 25 \<Longrightarrow> agree (lanes (keccakF1600 s)) (spec_permutation (lanes s))"
  and length_keccakF1600: "length s = 25 \<Longrightarrow> length (keccakF1600 s) = 25"
  using rounds_agree [of s "replicate 25 0" "lanes s" "[0..<24]"]
  by (simp_all add: keccakF1600_def spec_permutation_def ROUNDS_def agree_def)

section \<open>The reference sponge\<close>

text \<open>
  Padding \<open>10\<^sup>*1\<close> on bytes with the domain bit of the original Keccak, absorption of 136-byte
  blocks into the first 17 lanes, and the first four lanes of the final matrix as the digest.
\<close>

definition spec_pad :: "bytes \<Rightarrow> bytes" where
  "spec_pad input = (let r = length input mod 136
     in input @ (if r = 135 then [0x81] else 0x01 # replicate (134 - r) 0 @ [0x80]))"

definition spec_block :: "bytes \<Rightarrow> nat \<Rightarrow> bytes" where
  "spec_block padded b = take 136 (drop (136 * b) padded)"

definition spec_absorb :: "bytes \<Rightarrow> matrix \<Rightarrow> matrix" where
  "spec_absorb block A = spec_permutation (\<lambda>x y. if x + 5 * y < 17
     then A x y XOR word_of_int (le_value (take 8 (drop (8 * (x + 5 * y)) block))) else A x y)"

definition spec_keccak256 :: "bytes \<Rightarrow> bytes" where
  "spec_keccak256 input = (let padded = spec_pad input;
       A = fold (\<lambda>b. spec_absorb (spec_block padded b)) [0..<length padded div 136] (\<lambda>x y. 0)
     in put_u64_le (A 0 0) @ put_u64_le (A 1 0) @ put_u64_le (A 2 0) @ put_u64_le (A 3 0))"

lemma length_pad_block: "length (pad_block input) = (length input div 136 + 1) * 136"
proof -
  have "length input < (length input div 136 + 1) * 136"
    using div_mult_mod_eq [of "length input" 136] mod_less_divisor [of 136 "length input"] by simp
  then show ?thesis by (simp add: pad_block_def RATE_BYTES_def Let_def)
qed

lemma pad_block_eq: "pad_block input = spec_pad input"
proof -
  define n where "n = length input"
  define r where "r = n mod 136"
  have r: "r < 136" by (simp add: r_def)
  have tail: "(n div 136 + 1) * 136 - n = Suc (135 - r)"
  proof -
    define q where "q = n div 136"
    have "n = q * 136 + r" by (simp add: q_def r_def)
    then show ?thesis using r unfolding q_def [symmetric] by simp
  qed
  have len: "length (input @ replicate (Suc (135 - r)) (0::byte)) - 1 = n + (135 - r)" by (simp add: n_def)
  have "pad_block input = (input @ 1 # replicate (135 - r) 0)
      [n + (135 - r) := (input @ 1 # replicate (135 - r) 0) ! (n + (135 - r)) XOR 0x80]"
    unfolding pad_block_def RATE_BYTES_def Let_def n_def [symmetric] tail
    by (simp add: n_def list_update_append)
  also have "\<dots> = spec_pad input"
  proof (cases "r = 135")
    case True
    then show ?thesis by (simp add: spec_pad_def n_def [symmetric] r_def [symmetric])
        (simp add: n_def list_update_append)
  next
    case False
    then have s: "135 - r = Suc (134 - r)" using r by simp
    have e: "replicate (Suc (134 - r)) (0::byte) = replicate (134 - r) 0 @ [0]"
      by (simp add: replicate_append_same)
    show ?thesis using False
      by (simp add: spec_pad_def n_def [symmetric] r_def [symmetric] s e del: replicate.simps)
        (simp add: n_def list_update_append nth_append)
  qed
  finally show ?thesis .
qed

lemma length_put_u64_le [simp]: "length (put_u64_le w) = 8"
  by (simp add: put_u64_le_def)

lemma concat_four: "concat (map f [0..<4]) = f 0 @ f 1 @ f 2 @ f (3::nat)"
  by (simp add: upt_rec numeral_2_eq_2 numeral_3_eq_3)

lemma length_keccak256: "length (keccak256 input) = 32"
  by (simp add: keccak256_def Let_def concat_four)

lemma absorb_block_agree:
  assumes "length s = 25" "agree (lanes s) A" "136 * b + 136 \<le> length padded"
  shows "length (absorb_block padded (b * RATE_BYTES) s) = 25 \<and>
    agree (lanes (absorb_block padded (b * RATE_BYTES) s)) (spec_absorb (spec_block padded b) A)"
proof -
  let ?f = "\<lambda>i t. t[i := t ! i XOR get_u64_le padded (b * RATE_BYTES + i * 8)]"
  let ?s = "fold ?f [0..<17] s"
  have len: "length ?s = 25" using assms(1) by (simp add: length_fold_update)
  have hit: "?s ! i = s ! i XOR get_u64_le padded (b * RATE_BYTES + i * 8)" if "i < 17" for i
    using fold_update_nth [of ?f id "\<lambda>i w. w XOR get_u64_le padded (b * RATE_BYTES + i * 8)" "[0..<17]" i s]
      that assms(1) by simp
  have miss: "?s ! i = s ! i" if "\<not> i < 17" for i
    using fold_update_other [of ?f id "\<lambda>i w. w XOR get_u64_le padded (b * RATE_BYTES + i * 8)" i "[0..<17]" s]
      that by simp
  have read: "get_u64_le padded (b * RATE_BYTES + i * 8) =
      word_of_int (le_value (take 8 (drop (8 * i) (spec_block padded b))))" if "i < 17" for i
    using that assms(3)
    by (simp add: get_u64_le_def RATE_BYTES_def spec_block_def drop_take take_take min_def
        add.commute mult.commute)
  let ?A = "\<lambda>x y. if x + 5 * y < 17
     then A x y XOR word_of_int (le_value (take 8 (drop (8 * (x + 5 * y)) (spec_block padded b)))) else A x y"
  have "?s ! (x + 5 * y) = ?A x y" if "x < 5" "y < 5" for x y
  proof -
    have "s ! (x + 5 * y) = A x y" using assms(2) that by (simp add: agree_def lanes_def)
    then show ?thesis using hit [of "x + 5 * y"] miss [of "x + 5 * y"] read [of "x + 5 * y"]
      by (cases "x + 5 * y < 17") simp_all
  qed
  then have "agree (lanes ?s) ?A" by (simp only: agree_def lanes_def) blast
  then have "agree (spec_permutation (lanes ?s)) (spec_permutation ?A)"
    using rounds_agree [of ?s "replicate 25 0" ?A "[0..<24]"] keccakF1600_agree [OF len] len
    by (simp add: agree_def keccakF1600_def spec_permutation_def ROUNDS_def)
  then have "agree (lanes (keccakF1600 ?s)) (spec_permutation ?A)"
    using keccakF1600_agree [OF len] by (rule agree_trans [rotated])
  then show ?thesis using length_keccakF1600 [OF len]
    by (simp add: absorb_block_def spec_absorb_def RATE_BYTES_def)
qed

lemma agree_lane: "agree (lanes s) A \<Longrightarrow> x < 5 \<Longrightarrow> s ! x = A x 0"
  unfolding agree_def lanes_def by (drule spec [of _ x], drule mp, assumption, drule spec [of _ 0]) simp

lemma absorb_agree:
  assumes "length s = 25" "agree (lanes s) A" "\<forall>b \<in> set bs. 136 * b + 136 \<le> length padded"
  shows "agree (lanes (fold (\<lambda>b. absorb_block padded (b * RATE_BYTES)) bs s))
    (fold (\<lambda>b. spec_absorb (spec_block padded b)) bs A)"
  using assms
proof (induction bs arbitrary: s A)
  case Nil
  then show ?case by simp
next
  case (Cons b bs)
  then have "length (absorb_block padded (b * RATE_BYTES) s) = 25 \<and>
    agree (lanes (absorb_block padded (b * RATE_BYTES) s)) (spec_absorb (spec_block padded b) A)"
    by (intro absorb_block_agree) auto
  then show ?case using Cons by simp
qed

lemma keccak256_reference: "keccak256 input = spec_keccak256 input"
proof -
  let ?p = "pad_block input"
  let ?s = "absorb ?p (replicate 25 0)"
  let ?A = "fold (\<lambda>b. spec_absorb (spec_block ?p b)) [0..<length ?p div 136] (\<lambda>x y. 0)"
  have "agree (lanes (replicate 25 0)) (\<lambda>x y. 0)" by (simp add: agree_def lanes_def)
  then have "agree (lanes ?s) ?A"
    unfolding absorb_def RATE_BYTES_def [symmetric]
    by (intro absorb_agree) (auto simp: length_pad_block RATE_BYTES_def)
  from agree_lane [OF this] have "?s ! 0 = ?A 0 0" "?s ! 1 = ?A 1 0" "?s ! 2 = ?A 2 0" "?s ! 3 = ?A 3 0"
    by simp_all
  then show ?thesis
    by (simp add: keccak256_def spec_keccak256_def Let_def concat_four pad_block_eq [symmetric])
qed

section \<open>Properties\<close>

text \<open>
  C40: the SDK's \<open>keccak256\<close> is Keccak-256.  For every input the code's in-place rounds, hand-written
  constants and buffer arithmetic produce the digest of the reference definition, 32 bytes long.
\<close>

theorem keccak256_is_reference:
  "keccak256 input = spec_keccak256 input \<and> length (keccak256 input) = 32"
  using keccak256_reference length_keccak256 by blast

text \<open>
  Padding never merges inputs.  The padded message fills whole blocks and determines the
  input, so no two inputs reach the permutation as the same blocks.
\<close>

theorem padding_injective:
  "length (pad_block a) mod RATE_BYTES = 0 \<and> (pad_block a = pad_block b \<longleftrightarrow> a = b)"
proof -
  define strip :: "bytes \<Rightarrow> bytes" where
    "strip p = (if last p = 0x81 then butlast p else rev (tl (dropWhile ((=) 0) (tl (rev p)))))" for p
  have "dropWhile ((=) 0) (replicate k (0::byte) @ 1 # xs) = 1 # xs" for k xs
    by (induction k) simp_all
  then have "strip (spec_pad c) = c" for c
    by (simp add: strip_def spec_pad_def Let_def butlast_append)
  then have "a = b" if "pad_block a = pad_block b" using that by (metis pad_block_eq)
  moreover have "length (pad_block a) mod RATE_BYTES = 0"
    unfolding length_pad_block RATE_BYTES_def by simp
  ultimately show ?thesis by blast
qed

end
