(* ===== verification/Merkle.thy ===== *)
theory Merkle
  imports Keccak Js_String
begin

text \<open>
  The Merkle trees of distributor epochs (\<^verbatim>\<open>packages/sdk/src/merkle.ts\<close>) and the program's proof
  check (\<^verbatim>\<open>programs/distributor/src/merkle.rs\<close>).  Buffers are byte lists; what throws is a value of
  \<open>merkle_error\<close>.  The locale \<open>pair_layers\<close> states what a layer of pair hashes is; it is
  interpreted on the code's \<open>hashPair\<close> and loop, and carries the completeness proof.
\<close>

section \<open>Leaves and pairs\<close>

datatype merkle_error =
    BadKeyLength nat
  | AmountOutOfRange int
  | BadBigInt string
  | NoLeaves
  | BadIndex int nat
  | NoEntries
  | DuplicateWallet string
  | WalletNotInTree

definition toBuffer :: "bytes \<Rightarrow> merkle_error + bytes" where
  "toBuffer b = (if length b \<noteq> 32 then Inl (BadKeyLength (length b)) else Inr b)"

record MerkleLeafInput =
  li_epoch :: bytes
  li_wallet :: bytes
  li_amount :: int

definition u64LE :: "int \<Rightarrow> merkle_error + bytes" where
  "u64LE n = (if n < 0 \<or> n > 0xffffffffffffffff then Inl (AmountOutOfRange n) else Inr (le_bytes 8 n))"

definition hashLeaf :: "MerkleLeafInput \<Rightarrow> merkle_error + bytes" where
  "hashLeaf input =
     sbind (toBuffer (li_epoch input)) (\<lambda>e.
     sbind (toBuffer (li_wallet input)) (\<lambda>w.
     sbind (u64LE (li_amount input)) (\<lambda>a.
     Inr (keccak256 (e @ w @ a)))))"

text \<open>\<open>Buffer.compare(a, b) <= 0\<close>: bytewise, a proper prefix first.\<close>

fun bytes_le :: "bytes \<Rightarrow> bytes \<Rightarrow> bool" where
  "bytes_le [] b = True"
| "bytes_le (x # xs) [] = False"
| "bytes_le (x # xs) (y # ys) = (x < y \<or> x = y \<and> bytes_le xs ys)"

definition sort_pair :: "bytes \<Rightarrow> bytes \<Rightarrow> bytes" where
  "sort_pair a b = (if bytes_le a b then a @ b else b @ a)"

definition hashPair :: "bytes \<Rightarrow> bytes \<Rightarrow> bytes" where
  "hashPair a b = keccak256 (sort_pair a b)"

section \<open>Trees and proofs\<close>

record MerkleTree =
  t_layers :: "bytes list list"
  t_root :: bytes
  t_leafCount :: nat

text \<open>The inner loop of \<open>buildTree\<close>: pairs are hashed, an odd last node is carried up.\<close>

fun pair_layer :: "bytes list \<Rightarrow> bytes list" where
  "pair_layer [] = []"
| "pair_layer [a] = [a]"
| "pair_layer (a # b # rest) = hashPair a b # pair_layer rest"

lemma length_pair_layer: "length (pair_layer xs) = (length xs + 1) div 2"
  by (induction xs rule: pair_layer.induct) auto

text \<open>The outer loop: layers up to the one of a single node.\<close>

function build_layers :: "bytes list \<Rightarrow> bytes list list" where
  "build_layers current =
     (if length current > 1 then current # build_layers (pair_layer current) else [current])"
  by auto
termination by (relation "measure length") (auto simp: length_pair_layer)

declare build_layers.simps [simp del]

definition buildTree :: "bytes list \<Rightarrow> merkle_error + MerkleTree" where
  "buildTree leaves = (if leaves = [] then Inl NoLeaves
     else let layers = build_layers leaves
       in Inr \<lparr>t_layers = layers, t_root = hd (last layers), t_leafCount = length leaves\<rparr>)"

definition buildTreeFromInputs :: "MerkleLeafInput list \<Rightarrow> merkle_error + (MerkleTree \<times> bytes list)" where
  "buildTreeFromInputs inputs = sbind (smap hashLeaf inputs) (\<lambda>leaves.
     sbind (buildTree leaves) (\<lambda>t. Inr (t, leaves)))"

fun proof_loop :: "bytes list list \<Rightarrow> nat \<Rightarrow> bytes list" where
  "proof_loop [] idx = []"
| "proof_loop [rootLayer] idx = []"
| "proof_loop (nodes # up # rest) idx =
     (let siblingIdx = (if idx mod 2 = 1 then idx - 1 else idx + 1)
      in (if siblingIdx < length nodes then [nodes ! siblingIdx] else []) @ proof_loop (up # rest) (idx div 2))"

definition getProof :: "bytes list list \<Rightarrow> int \<Rightarrow> merkle_error + bytes list" where
  "getProof layers index = (let leafCount = length (hd layers) in
     if index < 0 \<or> index \<ge> int leafCount then Inl (BadIndex index leafCount)
     else Inr (proof_loop layers (nat index)))"

definition verify :: "bytes \<Rightarrow> bytes list \<Rightarrow> bytes \<Rightarrow> bool" where
  "verify leaf proof root = (foldl hashPair leaf proof = root)"

definition verifyInput :: "MerkleLeafInput \<Rightarrow> bytes list \<Rightarrow> bytes \<Rightarrow> merkle_error + bool" where
  "verifyInput input proof root = sbind (hashLeaf input) (\<lambda>l. Inr (verify l proof root))"

definition verifyProof :: "bytes list \<Rightarrow> bytes \<Rightarrow> bytes \<Rightarrow> bool" where
  "verifyProof proof root leaf = verify leaf proof root"

section \<open>Epoch trees\<close>

text \<open>
  A key is raw bytes or an object whose \<open>toBuffer()\<close> or \<open>toBytes()\<close> returns them; an amount is a
  bigint or anything whose \<open>toString()\<close> is read by \<open>BigInt\<close>.
\<close>

datatype KeyLike = RawKey bytes | HasToBuffer bytes | HasToBytes bytes
datatype AmountLike = BigAmount int | TextAmount string

record MerkleEntry =
  me_wallet :: KeyLike
  me_amount :: AmountLike

record EpochMerkleTree = MerkleTree +
  t_entries :: "(bytes \<times> int) list"
  t_total :: int

definition keyBytes :: "KeyLike \<Rightarrow> merkle_error + bytes" where
  "keyBytes k = (let b = (case k of RawKey b \<Rightarrow> b | HasToBuffer b \<Rightarrow> b | HasToBytes b \<Rightarrow> b)
     in if length b \<noteq> 32 then Inl (BadKeyLength (length b)) else Inr b)"

definition amountU64 :: "AmountLike \<Rightarrow> merkle_error + int" where
  "amountU64 amount =
     sbind (case amount of BigAmount n \<Rightarrow> Inr n
            | TextAmount s \<Rightarrow> (case parse_bigint s of None \<Rightarrow> Inl (BadBigInt s) | Some n \<Rightarrow> Inr n)) (\<lambda>v.
     if v < 0 \<or> v > 0xffffffffffffffff then Inl (AmountOutOfRange v) else Inr v)"

definition leafHash :: "KeyLike \<Rightarrow> KeyLike \<Rightarrow> AmountLike \<Rightarrow> merkle_error + bytes" where
  "leafHash epoch wallet amount =
     sbind (keyBytes epoch) (\<lambda>e. sbind (keyBytes wallet) (\<lambda>w. sbind (amountU64 amount) (\<lambda>a.
     hashLeaf \<lparr>li_epoch = e, li_wallet = w, li_amount = a\<rparr>)))"

definition norm_entry :: "MerkleEntry \<Rightarrow> merkle_error + (bytes \<times> int)" where
  "norm_entry e = sbind (keyBytes (me_wallet e)) (\<lambda>w. sbind (amountU64 (me_amount e)) (\<lambda>a. Inr (w, a)))"

text \<open>The duplicate check: a set of hexadecimal keys grown along the entries.\<close>

fun check_duplicates :: "string list \<Rightarrow> (bytes \<times> int) list \<Rightarrow> merkle_error + unit" where
  "check_duplicates seen [] = Inr ()"
| "check_duplicates seen (e # es) = (let k = hex_text (fst e) in
     if k \<in> set seen then Inl (DuplicateWallet k) else check_duplicates (k # seen) es)"

definition buildEpochTree :: "KeyLike \<Rightarrow> MerkleEntry list \<Rightarrow> merkle_error + EpochMerkleTree" where
  "buildEpochTree epoch entries = (if entries = [] then Inl NoEntries else
     sbind (smap norm_entry entries) (\<lambda>norm.
     sbind (check_duplicates [] norm) (\<lambda>_.
     sbind (smap (\<lambda>e. leafHash epoch (RawKey (fst e)) (BigAmount (snd e))) norm) (\<lambda>leaves.
     sbind (buildTree leaves) (\<lambda>tree.
     Inr \<lparr>t_layers = t_layers tree, t_root = t_root tree, t_leafCount = t_leafCount tree,
          t_entries = norm, t_total = sum_list (map snd norm)\<rparr>)))))"

fun find_index :: "('a \<Rightarrow> bool) \<Rightarrow> 'a list \<Rightarrow> nat option" where
  "find_index P [] = None"
| "find_index P (x # xs) = (if P x then Some 0 else map_option Suc (find_index P xs))"

definition getProofForWallet :: "EpochMerkleTree \<Rightarrow> KeyLike \<Rightarrow> merkle_error + (nat \<times> int \<times> bytes list)" where
  "getProofForWallet tree wallet = sbind (keyBytes wallet) (\<lambda>w.
     case find_index (\<lambda>e. fst e = w) (t_entries tree) of
       None \<Rightarrow> Inl WalletNotInTree
     | Some index \<Rightarrow> sbind (getProof (t_layers tree) (int index)) (\<lambda>p.
         Inr (index, snd (t_entries tree ! index), p)))"

definition toArray32 :: "bytes \<Rightarrow> int list" where
  "toArray32 b = map uint b"

definition proofToArgs :: "bytes list \<Rightarrow> int list list" where
  "proofToArgs proof = map toArray32 proof"

section \<open>The program's check\<close>

text \<open>
  \<open>hashv\<close> is Solana's keccak over the concatenation of its slices, which is not part of the
  repository; the properties below assume of it only that documented behaviour.
\<close>

definition rs_leaf :: "(bytes list \<Rightarrow> bytes) \<Rightarrow> bytes \<Rightarrow> bytes \<Rightarrow> int \<Rightarrow> bytes" where
  "rs_leaf hashv epoch wallet amount = hashv [epoch, wallet, le_bytes 8 amount]"

definition rs_hash_pair :: "(bytes list \<Rightarrow> bytes) \<Rightarrow> bytes \<Rightarrow> bytes \<Rightarrow> bytes" where
  "rs_hash_pair hashv a b = (if bytes_le a b then hashv [a, b] else hashv [b, a])"

definition rs_verify :: "(bytes list \<Rightarrow> bytes) \<Rightarrow> bytes list \<Rightarrow> bytes \<Rightarrow> bytes \<Rightarrow> bool" where
  "rs_verify hashv proof root leaf =
     (fold (\<lambda>node computed. rs_hash_pair hashv computed node) proof leaf = root)"


section \<open>Sorted pairs\<close>

lemma bytes_le_linear: "bytes_le a b \<or> bytes_le b a"
proof (induction a b rule: bytes_le.induct)
  case (3 x xs y ys)
  then show ?case using linorder_less_linear [of x y] by auto
qed simp_all

lemma bytes_le_antisym: "bytes_le a b \<Longrightarrow> bytes_le b a \<Longrightarrow> a = b"
proof (induction a b rule: bytes_le.induct)
  case (1 b)
  then show ?case by (cases b) auto
qed auto

lemma sort_pair_commute: "sort_pair a b = sort_pair b a"
  using bytes_le_linear [of a b] bytes_le_antisym [of a b] by (auto simp: sort_pair_def)

lemma sort_pair_inj:
  assumes "sort_pair a b = sort_pair c d" "length a = n" "length b = n" "length c = n" "length d = n"
  shows "(a = c \<and> b = d) \<or> (a = d \<and> b = c)"
  using assms by (auto simp: sort_pair_def split: if_splits)

lemma length_hashPair [simp]: "length (hashPair a b) = 32"
  by (simp add: hashPair_def length_keccak256)

section \<open>Layers of pair hashes\<close>

text \<open>
  The contract of one layer: neighbours are combined, an odd last node stays.  A commutative
  combination is all that checking a proof needs of the hash.
\<close>

locale pair_layers =
  fixes hp :: "'a \<Rightarrow> 'a \<Rightarrow> 'a"
    and layer :: "'a list \<Rightarrow> 'a list"
  assumes hp_commute: "hp a b = hp b a"
    and layer_Nil: "layer [] = []"
    and layer_single: "layer [a] = [a]"
    and layer_pair: "layer (a # b # rest) = hp a b # layer rest"
begin

lemma layer_length: "length (layer xs) = (length xs + 1) div 2"
proof (induction xs rule: induct_list012)
  case (3 x y zs)
  then show ?case by (simp add: layer_pair)
qed (simp_all add: layer_Nil layer_single)

lemma layer_nth:
  "i < length (layer xs) \<Longrightarrow> layer xs ! i =
     (if 2 * i + 1 < length xs then hp (xs ! (2 * i)) (xs ! (2 * i + 1)) else xs ! (2 * i))"
proof (induction xs arbitrary: i rule: induct_list012)
  case (3 x y zs)
  then show ?case by (cases i) (auto simp: layer_pair)
qed (simp_all add: layer_Nil layer_single)

text \<open>Combining a node with its sibling, when it has one, gives its parent.\<close>

lemma proof_step:
  assumes "idx < length xs"
  defines "sib \<equiv> (if idx mod 2 = 1 then idx - 1 else idx + 1)"
  shows "foldl hp (xs ! idx) (if sib < length xs then [xs ! sib] else []) = layer xs ! (idx div 2)"
    and "idx div 2 < length (layer xs)"
proof -
  show l: "idx div 2 < length (layer xs)" using assms(1) unfolding layer_length by linarith
  show "foldl hp (xs ! idx) (if sib < length xs then [xs ! sib] else []) = layer xs ! (idx div 2)"
  proof (cases "idx mod 2 = 1")
    case True
    then have e: "2 * (idx div 2) = idx - 1" "2 * (idx div 2) + 1 = idx" by presburger+
    then have "layer xs ! (idx div 2) = hp (xs ! (idx - 1)) (xs ! idx)"
      using assms(1) layer_nth [OF l] by simp
    moreover have "idx - 1 < length xs" using assms(1) by simp
    ultimately show ?thesis using True hp_commute [of "xs ! idx"] by (simp add: sib_def)
  next
    case False
    then have "2 * (idx div 2) = idx" by presburger
    then show ?thesis using False assms(1) layer_nth [OF l] by (simp add: sib_def)
  qed
qed

end

interpretation hash_layers: pair_layers hashPair pair_layer
  by unfold_locales (simp_all add: hashPair_def sort_pair_commute)

section \<open>Completeness\<close>

lemma build_layers_nonempty: "build_layers xs \<noteq> []"
  by (simp add: build_layers.simps [of xs])

lemma hd_build_layers: "hd (build_layers xs) = xs"
  by (simp add: build_layers.simps [of xs])

lemma build_layers_single [simp]: "build_layers [a] = [[a]]"
  by (simp add: build_layers.simps [of "[a]"])

lemma proof_loop_unfold:
  assumes "length xs > 1"
  defines "sib \<equiv> \<lambda>idx. if idx mod 2 = 1 then idx - 1 else idx + 1"
  shows "proof_loop (build_layers xs) idx = (if sib idx < length xs then [xs ! sib idx] else [])
    @ proof_loop (build_layers (pair_layer xs)) (idx div 2)"
proof -
  obtain l ls where "build_layers (pair_layer xs) = l # ls"
    using build_layers_nonempty by (cases "build_layers (pair_layer xs)") auto
  then show ?thesis using assms(1) by (simp add: build_layers.simps [of xs] Let_def sib_def)
qed

lemma proof_loop_root:
  "idx < length xs \<Longrightarrow> foldl hashPair (xs ! idx) (proof_loop (build_layers xs) idx) = hd (last (build_layers xs))"
proof (induction xs arbitrary: idx rule: build_layers.induct)
  case (1 xs)
  show ?case
  proof (cases "length xs > 1")
    case True
    let ?up = "pair_layer xs"
    note step = hash_layers.proof_step [OF 1(2)]
    have "foldl hashPair (xs ! idx) (proof_loop (build_layers xs) idx) =
      foldl hashPair (?up ! (idx div 2)) (proof_loop (build_layers ?up) (idx div 2))"
      by (simp only: proof_loop_unfold [OF True] foldl_append step(1))
    also have "\<dots> = hd (last (build_layers ?up))" by (rule 1(1) [OF True step(2)])
    also have "\<dots> = hd (last (build_layers xs))"
      using True build_layers_nonempty [of ?up] by (simp add: build_layers.simps [of xs])
    finally show ?thesis .
  next
    case False
    then have "xs = [xs ! 0]" "idx = 0" using 1(2) by (cases xs; simp)+
    then show ?thesis by (cases xs) simp_all
  qed
qed

lemma proof_loop_length:
  "xs \<noteq> [] \<Longrightarrow> 2 ^ length (proof_loop (build_layers xs) idx) < 2 * length xs"
proof (induction xs arbitrary: idx rule: build_layers.induct)
  case (1 xs)
  show ?case
  proof (cases "length xs > 1")
    case True
    let ?up = "pair_layer xs"
    have "?up \<noteq> []" using True length_pair_layer [of xs] by (cases ?up) auto
    then have ih: "2 ^ length (proof_loop (build_layers ?up) (idx div 2)) < 2 * ((length xs + 1) div 2)"
      using 1(1) [OF True, of "idx div 2"] by (simp add: length_pair_layer)
    let ?m = "length (proof_loop (build_layers ?up) (idx div 2))"
    have "length (proof_loop (build_layers xs) idx) \<le> Suc ?m"
      by (simp add: proof_loop_unfold [OF True])
    then have le: "(2::nat) ^ length (proof_loop (build_layers xs) idx) \<le> 2 * 2 ^ ?m"
      by (metis one_le_numeral power_Suc power_increasing)
    have "(2::nat) ^ ?m < length xs"
    proof (cases "?m = 0")
      case False
      then have "even ((2::nat) ^ ?m)" by simp
      then show ?thesis using ih by presburger
    qed (use True in simp)
    then show ?thesis using le by linarith
  next
    case False
    then show ?thesis using 1(2) by (cases xs) simp_all
  qed
qed


section \<open>Epoch trees\<close>

definition leaf_input :: "bytes \<Rightarrow> bytes \<times> int \<Rightarrow> bytes" where
  "leaf_input e p = e @ fst p @ le_bytes 8 (snd p)"

definition entry_wf :: "bytes \<times> int \<Rightarrow> bool" where
  "entry_wf p \<longleftrightarrow> length (fst p) = 32 \<and> in_u64 (snd p)"

lemma keyBytes_Inr: "keyBytes k = Inr b \<Longrightarrow> length b = 32"
  by (auto simp: keyBytes_def Let_def split: if_splits)

lemma keyBytes_raw [simp]: "length b = 32 \<Longrightarrow> keyBytes (RawKey b) = Inr b"
  by (simp add: keyBytes_def)

lemma amountU64_Inr: "amountU64 a = Inr n \<Longrightarrow> in_u64 n"
  by (auto simp: amountU64_def in_u64_def u64_max_def result_simps split: if_splits)

lemma amountU64_big [simp]: "in_u64 n \<Longrightarrow> amountU64 (BigAmount n) = Inr n"
  by (simp add: amountU64_def in_u64_def u64_max_def)

lemma norm_entry_Inr: "norm_entry e = Inr p \<Longrightarrow> entry_wf p"
  by (auto simp: norm_entry_def result_simps entry_wf_def dest: keyBytes_Inr amountU64_Inr)

lemma hashLeaf_eq:
  "length e = 32 \<Longrightarrow> entry_wf p \<Longrightarrow>
    hashLeaf \<lparr>li_epoch = e, li_wallet = fst p, li_amount = snd p\<rparr> = Inr (keccak256 (leaf_input e p))"
  by (simp add: hashLeaf_def toBuffer_def u64LE_def entry_wf_def in_u64_def u64_max_def leaf_input_def)

lemma leafHash_eq:
  assumes "keyBytes epoch = Inr e" "entry_wf p"
  shows "leafHash epoch (RawKey (fst p)) (BigAmount (snd p)) = Inr (keccak256 (leaf_input e p))"
proof -
  have "length e = 32" using assms(1) by (rule keyBytes_Inr)
  then show ?thesis using assms hashLeaf_eq [of e p] by (simp add: leafHash_def entry_wf_def)
qed

lemma check_duplicates_iff:
  "check_duplicates seen es = Inr () \<longleftrightarrow> distinct (map fst es) \<and> (\<forall>e \<in> set es. hex_text (fst e) \<notin> set seen)"
proof (induction es arbitrary: seen)
  case (Cons e es)
  have "(\<forall>x \<in> set es. hex_text (fst x) \<noteq> hex_text (fst e)) \<longleftrightarrow> fst e \<notin> fst ` set es"
    by (simp only: hex_text_inj image_iff) metis
  then show ?case by (auto simp: Let_def Cons.IH)
qed simp

lemma smap_Inr_all:
  assumes "smap f xs = Inr ys" "\<And>x y. f x = Inr y \<Longrightarrow> P y"
  shows "\<forall>y \<in> set ys. P y"
  using smap_Inr_length [OF assms(1)] smap_Inr_nth [OF assms(1)] assms(2)
  by (metis in_set_conv_nth)

text \<open>What a successful build returns.\<close>

lemma buildEpochTree_Inr:
  assumes "buildEpochTree epoch entries = Inr t" "keyBytes epoch = Inr e"
  defines "norm \<equiv> t_entries t"
  defines "leaves \<equiv> map (\<lambda>p. keccak256 (leaf_input e p)) norm"
  shows "smap norm_entry entries = Inr norm" "norm \<noteq> []" "distinct (map fst norm)"
    "\<forall>p \<in> set norm. entry_wf p" "t_layers t = build_layers leaves"
    "t_root t = hd (last (build_layers leaves))" "t_total t = sum_list (map snd norm)"
proof -
  obtain ns ls tr where ns: "entries \<noteq> []" "smap norm_entry entries = Inr ns"
    and d: "check_duplicates [] ns = Inr ()"
    and ls: "smap (\<lambda>p. leafHash epoch (RawKey (fst p)) (BigAmount (snd p))) ns = Inr ls"
    and tr: "buildTree ls = Inr tr"
    and t: "t = \<lparr>t_layers = t_layers tr, t_root = t_root tr, t_leafCount = t_leafCount tr,
          t_entries = ns, t_total = sum_list (map snd ns)\<rparr>"
    using assms(1) by (auto simp: buildEpochTree_def result_simps split: if_splits)
  have wf: "\<forall>p \<in> set ns. entry_wf p" using ns(2) norm_entry_Inr by (rule smap_Inr_all)
  have norm: "norm = ns" by (simp add: norm_def t)
  have "smap (\<lambda>p. leafHash epoch (RawKey (fst p)) (BigAmount (snd p))) ns =
      Inr (map (\<lambda>p. keccak256 (leaf_input e p)) ns)"
    using wf leafHash_eq [OF assms(2)] by (intro smap_all_Inr) auto
  then have "ls = leaves" using ls by (simp add: leaves_def norm)
  then have tr': "t_layers tr = build_layers leaves" "t_root tr = hd (last (build_layers leaves))"
    using tr by (auto simp: buildTree_def Let_def split: if_splits)
  have len: "length ns = length entries" using ns(2) by (rule smap_Inr_length)
  show "smap norm_entry entries = Inr norm" using ns(2) by (simp add: norm)
  show "norm \<noteq> []" using ns(1) len by (auto simp: norm)
  show "distinct (map fst norm)" using d by (simp add: norm check_duplicates_iff)
  show "\<forall>p \<in> set norm. entry_wf p" using wf by (simp add: norm)
  show "t_layers t = build_layers leaves" "t_root t = hd (last (build_layers leaves))"
    using tr' by (simp_all add: t)
  show "t_total t = sum_list (map snd norm)" by (simp add: t norm)
qed

text \<open>Valid entries with distinct wallets always give a tree.\<close>

lemma buildEpochTree_succeeds:
  assumes "smap norm_entry entries = Inr norm" "entries \<noteq> []" "distinct (map fst norm)" "keyBytes epoch = Inr e"
  shows "\<exists>t. buildEpochTree epoch entries = Inr t \<and> t_entries t = norm"
proof -
  have wf: "\<forall>p \<in> set norm. entry_wf p" using assms(1) norm_entry_Inr by (rule smap_Inr_all)
  let ?ls = "map (\<lambda>p. keccak256 (leaf_input e p)) norm"
  have "smap (\<lambda>p. leafHash epoch (RawKey (fst p)) (BigAmount (snd p))) norm = Inr ?ls"
    using wf leafHash_eq [OF assms(4)] by (intro smap_all_Inr) auto
  moreover have "check_duplicates [] norm = Inr ()" using assms(3) by (simp add: check_duplicates_iff)
  moreover have "norm \<noteq> []" using assms(1,2) smap_Inr_length by fastforce
  ultimately show ?thesis using assms(1,2) by (simp add: buildEpochTree_def buildTree_def Let_def)
qed

lemma find_index_Some: "find_index P xs = Some i \<Longrightarrow> i < length xs \<and> P (xs ! i)"
  by (induction xs arbitrary: i) (auto split: if_splits)

lemma find_index_None: "find_index P xs = None \<longleftrightarrow> (\<forall>x \<in> set xs. \<not> P x)"
  by (induction xs) auto

lemma find_index_key:
  assumes "distinct (map fst xs)" "(k, v) \<in> set xs"
  shows "\<exists>i. find_index (\<lambda>p. fst p = k) xs = Some i \<and> i < length xs \<and> xs ! i = (k, v)"
  using assms by (induction xs) (force simp: image_iff)+

text \<open>The program's functions, under the documented meaning of \<open>hashv\<close>, are the SDK's.\<close>

lemma rs_merkle_eq:
  assumes "\<forall>xs. hashv xs = spec_keccak256 (concat xs)"
  shows "rs_leaf hashv e (fst p) (snd p) = keccak256 (leaf_input e p)"
    and "rs_hash_pair hashv = hashPair"
    and "rs_verify hashv proof root leaf = verify leaf proof root"
proof -
  have h: "hashv xs = keccak256 (concat xs)" for xs
    using assms keccak256_reference [of "concat xs"] by simp
  show "rs_leaf hashv e (fst p) (snd p) = keccak256 (leaf_input e p)"
    by (simp add: rs_leaf_def h leaf_input_def)
  show hp: "rs_hash_pair hashv = hashPair"
    by (intro ext) (simp add: rs_hash_pair_def h hashPair_def sort_pair_def)
  show "rs_verify hashv proof root leaf = verify leaf proof root"
    by (simp add: rs_verify_def hp verify_def foldl_conv_fold)
qed

section \<open>Soundness\<close>

text \<open>
  Everything the tree and one proof check hash, as byte strings.  Over these inputs the only way to
  prove a leaf that is not in the tree is a collision among them.
\<close>

fun layer_inputs :: "bytes list \<Rightarrow> bytes list" where
  "layer_inputs (a # b # rest) = sort_pair a b # layer_inputs rest"
| "layer_inputs _ = []"

function tree_inputs :: "bytes list \<Rightarrow> bytes list" where
  "tree_inputs current = (if length current > 1
     then layer_inputs current @ tree_inputs (pair_layer current) else [])"
  by auto
termination by (relation "measure length") (auto simp: length_pair_layer)

declare tree_inputs.simps [simp del]

fun proof_inputs :: "bytes \<Rightarrow> bytes list \<Rightarrow> bytes list" where
  "proof_inputs leaf [] = []"
| "proof_inputs leaf (p # ps) = sort_pair leaf p # proof_inputs (hashPair leaf p) ps"

definition hashed_inputs :: "bytes \<Rightarrow> (bytes \<times> int) list \<Rightarrow> bytes \<times> int \<Rightarrow> bytes list \<Rightarrow> bytes list" where
  "hashed_inputs e norm claim proof =
     map (leaf_input e) norm @ tree_inputs (map (\<lambda>p. keccak256 (leaf_input e p)) norm)
     @ leaf_input e claim # proof_inputs (keccak256 (leaf_input e claim)) proof"

definition tree_nodes :: "bytes list \<Rightarrow> bytes set" where
  "tree_nodes xs = \<Union> (set ` set (build_layers xs))"

lemma pair_layer_nodes:
  "v \<in> set (pair_layer xs) \<Longrightarrow> v \<in> set xs \<or>
    (\<exists>a \<in> set xs. \<exists>b \<in> set xs. v = hashPair a b \<and> sort_pair a b \<in> set (layer_inputs xs))"
  by (induction xs rule: pair_layer.induct) auto

text \<open>A node of the tree is a leaf or the hash of a pair of nodes that the build hashed.\<close>

lemma tree_nodes_cases:
  "v \<in> tree_nodes xs \<Longrightarrow> v \<in> set xs \<or>
    (\<exists>a \<in> tree_nodes xs. \<exists>b \<in> tree_nodes xs. v = hashPair a b \<and> sort_pair a b \<in> set (tree_inputs xs))"
proof (induction xs rule: build_layers.induct)
  case (1 xs)
  show ?case
  proof (cases "length xs > 1")
    case True
    have nodes: "tree_nodes xs = set xs \<union> tree_nodes (pair_layer xs)"
      using True by (simp add: tree_nodes_def build_layers.simps [of xs])
    have inputs: "set (tree_inputs xs) = set (layer_inputs xs) \<union> set (tree_inputs (pair_layer xs))"
      using True by (simp add: tree_inputs.simps [of xs])
    show ?thesis using 1 True pair_layer_nodes [of v xs] unfolding nodes inputs by blast
  next
    case False
    then show ?thesis using 1(2) by (simp add: tree_nodes_def build_layers.simps [of xs])
  qed
qed

lemma length_tree_nodes:
  assumes "\<forall>x \<in> set xs. length x = 32" "v \<in> tree_nodes xs"
  shows "length v = 32"
  using tree_nodes_cases [OF assms(2)] assms(1) by auto

lemma root_in_tree_nodes: "xs \<noteq> [] \<Longrightarrow> hd (last (build_layers xs)) \<in> tree_nodes xs"
proof (induction xs rule: build_layers.induct)
  case (1 xs)
  show ?case
  proof (cases "length xs > 1")
    case True
    have "pair_layer xs \<noteq> []" using True length_pair_layer [of xs] by (cases "pair_layer xs") auto
    then show ?thesis using 1(1) True build_layers_nonempty
      by (simp add: tree_nodes_def build_layers.simps [of xs])
  next
    case False
    then show ?thesis using 1(2) by (cases xs) (simp_all add: tree_nodes_def)
  qed
qed

lemma length_sort_pair: "length (sort_pair a b) = length a + length b"
  by (simp add: sort_pair_def)

text \<open>A proof that ends in a node of the tree starts in one.\<close>

lemma proof_starts_in_tree:
  assumes inj: "inj_on keccak256 (set ins \<union> set (tree_inputs xs) \<union> set (proof_inputs v ps))"
    and leaves: "\<forall>x \<in> set xs. \<exists>i \<in> set ins. x = keccak256 i \<and> length i = 72"
    and len: "length v = 32" "\<forall>p \<in> set ps. length p = 32"
    and nodes: "foldl hashPair v ps \<in> tree_nodes xs"
  shows "v \<in> tree_nodes xs"
  using inj len nodes
proof (induction ps arbitrary: v)
  case Nil
  then show ?case by simp
next
  case (Cons p ps)
  let ?h = "hashPair v p"
  have lv: "\<forall>x \<in> set xs. length x = 32"
    using leaves by (auto simp: length_keccak256)
  have "inj_on keccak256 (set ins \<union> set (tree_inputs xs) \<union> set (proof_inputs ?h ps))"
    by (rule inj_on_subset [OF Cons.prems(1)]) auto
  then have "?h \<in> tree_nodes xs" using Cons by simp
  then consider i where "i \<in> set ins" "?h = keccak256 i" "length i = 72"
    | a b where "a \<in> tree_nodes xs" "b \<in> tree_nodes xs" "?h = hashPair a b"
        "sort_pair a b \<in> set (tree_inputs xs)"
    using tree_nodes_cases [of ?h xs] leaves by metis
  then show ?case
  proof cases
    case 1
    then have "sort_pair v p = i" using inj_onD [OF Cons.prems(1), of "sort_pair v p" i]
      by (simp add: hashPair_def)
    then show ?thesis using 1(3) Cons.prems length_sort_pair [of v p] by simp
  next
    case 2
    then have "sort_pair v p = sort_pair a b"
      using inj_onD [OF Cons.prems(1), of "sort_pair v p" "sort_pair a b"] by (simp add: hashPair_def)
    moreover have "length a = 32" "length b = 32"
      using length_tree_nodes [OF lv 2(1)] length_tree_nodes [OF lv 2(2)] by simp_all
    ultimately have "v = a \<or> v = b" using Cons.prems sort_pair_inj [of v p a b 32] by auto
    then show ?thesis using 2 by blast
  qed
qed

lemma leaf_input_inj:
  assumes "entry_wf p" "entry_wf q"
  shows "leaf_input e p = leaf_input e q \<longleftrightarrow> p = q"
proof
  assume "leaf_input e p = leaf_input e q"
  then have "fst p = fst q" "le_bytes 8 (snd p) = le_bytes 8 (snd q)"
    using assms by (auto simp: leaf_input_def entry_wf_def)
  moreover from this(2) have "snd p = snd q"
    using assms by (intro le_bytes_inj [of _ 8]) (auto simp: entry_wf_def in_u64_def u64_max_def)
  ultimately show "p = q" by (simp add: prod_eq_iff)
qed simp


section \<open>Proofs and entries\<close>

lemma accepted_proof_exists:
  assumes "\<forall>xs. hashv xs = spec_keccak256 (concat xs)"
    and "buildEpochTree epoch entries = Inr t" "keyBytes epoch = Inr e" "(w, a) \<in> set (t_entries t)"
  shows "\<exists>i proof. getProofForWallet t (RawKey w) = Inr (i, a, proof) \<and>
      rs_verify hashv proof (t_root t) (rs_leaf hashv e w a) \<and>
      2 ^ length proof < 2 * length (t_entries t)"
proof -
  note t = buildEpochTree_Inr [OF assms(2,3)]
  define leaves where "leaves = map (\<lambda>p. keccak256 (leaf_input e p)) (t_entries t)"
  have ll: "length leaves = length (t_entries t)" by (simp add: leaves_def)
  have w: "length w = 32" using t(4) assms(4) by (auto simp: entry_wf_def)
  obtain i where i: "find_index (\<lambda>p. fst p = w) (t_entries t) = Some i" "i < length (t_entries t)"
    "t_entries t ! i = (w, a)" using find_index_key [OF t(3) assms(4)] by blast
  define pf where "pf = proof_loop (build_layers leaves) i"
  have "getProofForWallet t (RawKey w) = Inr (i, a, pf)"
    using w i ll
    by (simp add: getProofForWallet_def getProof_def Let_def t(5) hd_build_layers leaves_def [symmetric] pf_def)
  moreover have "leaves ! i = rs_leaf hashv e w a"
    using rs_merkle_eq(1) [OF assms(1), of e "(w, a)"] i by (simp add: leaves_def)
  then have "rs_verify hashv pf (t_root t) (rs_leaf hashv e w a)"
    using proof_loop_root [of i leaves] i(2) ll
    by (simp add: rs_merkle_eq(3) [OF assms(1)] verify_def t(6) leaves_def [symmetric] pf_def)
  moreover have "2 ^ length pf < 2 * length (t_entries t)"
    using proof_loop_length [of leaves i] t(2) ll unfolding pf_def by (cases "leaves = []") auto
  ultimately show ?thesis by blast
qed

lemma accepted_leaf_in_tree:
  assumes "\<forall>xs. hashv xs = spec_keccak256 (concat xs)"
    and "buildEpochTree epoch entries = Inr t" "keyBytes epoch = Inr e"
    and "length w = 32" "in_u64 a" "\<forall>p \<in> set proof. length p = 32"
    and "rs_verify hashv proof (t_root t) (rs_leaf hashv e w a)"
    and "inj_on keccak256 (set (hashed_inputs e (t_entries t) (w, a) proof))"
  shows "(w, a) \<in> set (t_entries t)"
proof -
  note t = buildEpochTree_Inr [OF assms(2,3)]
  let ?es = "t_entries t" and ?xs = "map (\<lambda>p. keccak256 (leaf_input e p)) (t_entries t)"
  let ?i = "leaf_input e (w, a)"
  have le: "length e = 32" using assms(3) by (rule keyBytes_Inr)
  have wf: "entry_wf (w, a)" using assms(4,5) by (simp add: entry_wf_def)
  have len: "length (leaf_input e p) = 72" if "entry_wf p" for p
    using that le by (simp add: leaf_input_def entry_wf_def)
  have inj: "inj_on keccak256 (set (?i # map (leaf_input e) ?es) \<union> set (tree_inputs ?xs)
      \<union> set (proof_inputs (keccak256 ?i) proof))"
    using assms(8) by (rule inj_on_subset) (auto simp: hashed_inputs_def)
  have "foldl hashPair (keccak256 ?i) proof = t_root t"
    using assms(7) rs_merkle_eq(1) [OF assms(1), of e "(w, a)"] rs_merkle_eq(3) [OF assms(1)]
    by (simp add: verify_def)
  then have root: "foldl hashPair (keccak256 ?i) proof \<in> tree_nodes ?xs"
    using t(2,6) root_in_tree_nodes [of ?xs] by simp
  have leaves: "\<forall>x \<in> set ?xs. \<exists>i \<in> set (?i # map (leaf_input e) ?es). x = keccak256 i \<and> length i = 72"
    using t(4) len by auto
  have "keccak256 ?i \<in> tree_nodes ?xs"
    by (rule proof_starts_in_tree [OF inj leaves length_keccak256 assms(6) root])
  then consider p where "p \<in> set ?es" "keccak256 ?i = keccak256 (leaf_input e p)"
    | x y where "x \<in> tree_nodes ?xs" "y \<in> tree_nodes ?xs" "keccak256 ?i = hashPair x y"
        "sort_pair x y \<in> set (tree_inputs ?xs)"
    using tree_nodes_cases [of "keccak256 ?i" ?xs] by auto
  then show ?thesis
  proof cases
    case 1
    have "?i = leaf_input e p" by (rule inj_onD [OF inj 1(2)]) (use 1(1) in simp_all)
    then show ?thesis using 1(1) leaf_input_inj [OF wf, of p e] t(4) by auto
  next
    case 2
    then have "?i = sort_pair x y" using inj_onD [OF inj, of ?i "sort_pair x y"] by (simp add: hashPair_def)
    moreover have "\<forall>x \<in> set ?xs. length x = 32" by (simp add: length_keccak256)
    then have "length x = 32" "length y = 32"
      using length_tree_nodes [OF _ 2(1)] length_tree_nodes [OF _ 2(2)] by blast+
    ultimately show ?thesis using len [OF wf] length_sort_pair [of x y] by simp
  qed
qed


section \<open>Properties\<close>

text \<open>
  C1: every payee of an epoch tree can claim.  When the tree of an epoch is built, each of its
  entries gets a proof of at most \<open>log2\<close> of the number of leaves, rounded up, that the program's
  own check accepts for that wallet and amount; the total is the sum of the amounts and no wallet
  occurs twice.
\<close>

theorem epoch_tree_complete:
  assumes "\<forall>xs. hashv xs = spec_keccak256 (concat xs)"
    and "buildEpochTree epoch entries = Inr t" "keyBytes epoch = Inr e" "(w, a) \<in> set (t_entries t)"
  shows "t_total t = sum_list (map snd (t_entries t)) \<and> distinct (map fst (t_entries t)) \<and>
    (\<exists>i proof. getProofForWallet t (RawKey w) = Inr (i, a, proof) \<and>
      rs_verify hashv proof (t_root t) (rs_leaf hashv e w a) \<and>
      2 ^ length proof < 2 * length (t_entries t))"
  using accepted_proof_exists [OF assms] buildEpochTree_Inr(3,7) [OF assms(2,3)] by blast

definition demo_epoch :: KeyLike where
  "demo_epoch = RawKey (replicate 32 9)"

definition demo_entries :: "MerkleEntry list" where
  "demo_entries = [
    \<lparr>me_wallet = RawKey (replicate 32 1), me_amount = BigAmount 100\<rparr>,
    \<lparr>me_wallet = HasToBuffer (replicate 32 2), me_amount = TextAmount ''250''\<rparr>,
    \<lparr>me_wallet = HasToBytes (replicate 32 3), me_amount = BigAmount 7\<rparr>]"

lemma demo_norm:
  "smap norm_entry demo_entries = Inr [(replicate 32 1, 100), (replicate 32 2, 250), (replicate 32 3, 7)]"
  by code_simp

lemma demo_key: "keyBytes demo_epoch = Inr (replicate 32 9)"
  by code_simp

lemma demo_tree:
  "\<exists>t. buildEpochTree demo_epoch demo_entries = Inr t \<and>
    t_entries t = [(replicate 32 1, 100), (replicate 32 2, 250), (replicate 32 3, 7)]"
  by (rule buildEpochTree_succeeds [OF demo_norm _ _ demo_key]) (simp_all add: demo_entries_def replicate_eq_replicate)

theorem epoch_tree_complete_witness:
  "\<exists>t i proof. buildEpochTree demo_epoch demo_entries = Inr t \<and>
    getProofForWallet t (RawKey (replicate 32 2)) = Inr (i, 250, proof) \<and>
    rs_verify (\<lambda>xs. spec_keccak256 (concat xs)) proof (t_root t)
      (rs_leaf (\<lambda>xs. spec_keccak256 (concat xs)) (replicate 32 9) (replicate 32 2) 250)"
proof -
  obtain t where t: "buildEpochTree demo_epoch demo_entries = Inr t"
    "t_entries t = [(replicate 32 1, 100), (replicate 32 2, 250), (replicate 32 3, 7)]"
    using demo_tree by blast
  show ?thesis
    using epoch_tree_complete [of "\<lambda>xs. spec_keccak256 (concat xs)", OF _ t(1) demo_key, of "replicate 32 2" 250] t
    by auto
qed

text \<open>
  C3: nobody else can claim.  If the program's check accepts a proof for a wallet and an amount
  against the root of an epoch tree, that pair is one of the tree's entries, unless the byte strings
  hashed to build the tree and to check this proof contain a collision of Keccak-256.
\<close>

theorem epoch_tree_sound:
  assumes "\<forall>xs. hashv xs = spec_keccak256 (concat xs)"
    and "buildEpochTree epoch entries = Inr t" "keyBytes epoch = Inr e"
    and "length w = 32" "in_u64 a" "\<forall>p \<in> set proof. length p = 32"
    and "rs_verify hashv proof (t_root t) (rs_leaf hashv e w a)"
    and "inj_on keccak256 (set (hashed_inputs e (t_entries t) (w, a) proof))"
  shows "(w, a) \<in> set (t_entries t)"
  using assms by (rule accepted_leaf_in_tree)

lemma demo_single:
  "\<exists>t. buildEpochTree demo_epoch [\<lparr>me_wallet = RawKey (replicate 32 1), me_amount = BigAmount 100\<rparr>] = Inr t
    \<and> t_entries t = [(replicate 32 1, 100)]"
  by (rule buildEpochTree_succeeds [OF _ _ _ demo_key])
    (simp_all add: norm_entry_def keyBytes_def amountU64_def)

theorem epoch_tree_sound_witness:
  "\<exists>t. buildEpochTree demo_epoch [\<lparr>me_wallet = RawKey (replicate 32 1), me_amount = BigAmount 100\<rparr>] = Inr t
    \<and> rs_verify (\<lambda>xs. spec_keccak256 (concat xs)) [] (t_root t)
        (rs_leaf (\<lambda>xs. spec_keccak256 (concat xs)) (replicate 32 9) (replicate 32 1) 100)
    \<and> (replicate 32 1, 100) \<in> set (t_entries t)"
proof -
  let ?h = "\<lambda>xs. spec_keccak256 (concat xs)"
  obtain t where t: "buildEpochTree demo_epoch [\<lparr>me_wallet = RawKey (replicate 32 1), me_amount = BigAmount 100\<rparr>] = Inr t"
    "t_entries t = [(replicate 32 1, 100)]" using demo_single by blast
  have eq: "rs_leaf ?h (replicate 32 9) (replicate 32 1) 100 = keccak256 (leaf_input (replicate 32 9) (replicate 32 1, 100))"
    using rs_merkle_eq(1) [of ?h "replicate 32 9" "(replicate 32 1, 100)"] by simp
  have v: "rs_verify ?h [] (t_root t) (rs_leaf ?h (replicate 32 9) (replicate 32 1) 100)"
    using buildEpochTree_Inr(6) [OF t(1) demo_key] t(2) unfolding eq
    by (simp add: rs_verify_def)
  have i: "inj_on keccak256 (set (hashed_inputs (replicate 32 9) (t_entries t) (replicate 32 1, 100) []))"
    by (simp add: t(2) hashed_inputs_def tree_inputs.simps)
  have "(replicate 32 1, 100) \<in> set (t_entries t)"
    by (rule epoch_tree_sound [OF _ t(1) demo_key _ _ _ v i]) (simp_all add: in_u64_def u64_max_def)
  then show ?thesis using t(1) v by blast
qed

end
