(* ===== verification/Distributor.thy ===== *)
theory Distributor
  imports Pda Merkle
begin

text \<open>
  The distributor program (\<^verbatim>\<open>programs/distributor\<close>) and the fee\_router withdrawal it calls, as the
  keeper's payout cycle and the claim page see them.  An instruction maps the chain to an error or to
  the new chain; accounts are looked up by address, Anchor's constraints come first, then the
  handler's checks in source order.  The SPL token program is the parameter \<open>xf\<close>: a transfer of
  \<open>amount\<close> between two accounts under an authority, which may fail.  The second half is a step
  relation over all instructions and the invariant of its reachable chains.
\<close>

section \<open>Chain\<close>

record token_account =
  ta_mint :: bytes
  ta_owner :: bytes
  ta_amount :: int

text \<open>An account that is no token account has no decoded data here.\<close>

record account =
  ac_program :: bytes
  ac_token :: "token_account option"

type_synonym accounts = "bytes \<Rightarrow> account option"

text \<open>from, to, mint, authority, amount.\<close>

type_synonym transfer_checked = "bytes \<Rightarrow> bytes \<Rightarrow> bytes \<Rightarrow> bytes \<Rightarrow> int \<Rightarrow> accounts \<Rightarrow> string + accounts"

record DistConfig =
  di_admin :: bytes
  di_keepers :: "bytes list"
  di_fee_router :: bytes
  di_max_push_per_epoch_bps :: int
  di_paused :: bool

record Epoch =
  ep_pool :: bytes
  ep_index :: int
  ep_coin_mint :: bytes
  ep_start_ts :: int
  ep_end_ts :: int
  ep_total_amount :: int
  ep_pushed_amount :: int
  ep_merkle_root :: bytes
  ep_merkle_total :: int
  ep_claimed_amount :: int
  ep_eligible_holders :: int
  ep_twab_total :: int
  ep_finalized :: bool

record Claimed =
  cl_epoch :: bytes
  cl_wallet :: bytes
  cl_amount :: int

record Payout =
  pv_pool :: bytes
  pv_epoch :: bytes
  pv_wallet :: bytes
  pv_coin_mint :: bytes
  pv_amount :: int
  pv_kind :: int

datatype dist_event =
    EpochOpened bytes int int int
  | PayoutEvent Payout
  | EpochFinalized bytes int bytes int
  | EpochSwept bytes int int bytes

text \<open>What one executed instruction leaves in the ledger: signature, the epoch it touched, events.\<close>

record tx_record =
  tx_sig :: string
  tx_epoch :: bytes
  tx_events :: "dist_event list"

text \<open>The fee\_router accounts a withdrawal reads: the singleton config and the pool states.\<close>

record RouterState =
  rs_paused :: bool
  rs_distributor_program :: bytes

record RouterPool =
  rp_dbc_pool :: bytes
  rp_quote_mint :: bytes

record dist_chain =
  ch_clock :: int
  ch_dist :: "DistConfig option"
  ch_epochs :: "bytes \<Rightarrow> Epoch option"
  ch_claimed :: "bytes \<Rightarrow> Claimed option"
  ch_accounts :: accounts
  ch_router :: RouterState
  ch_router_pools :: "bytes \<Rightarrow> RouterPool option"
  ch_log :: "tx_record list"

definition MAX_PUSH_ITEMS :: nat where "MAX_PUSH_ITEMS = 12"
definition MAX_PROOF_LEN :: nat where "MAX_PROOF_LEN = 32"
definition DIST_BPS_DENOM :: int where "DIST_BPS_DENOM = 10000"
definition MAX_EPOCH_AGE_SECS :: int where "MAX_EPOCH_AGE_SECS = 30 * 86400"
definition SWEEP_DELAY_SECS :: int where "SWEEP_DELAY_SECS = 180 * 24 * 60 * 60"

text \<open>Checked \<open>u64\<close> arithmetic.\<close>

definition checked_u64 :: "int \<Rightarrow> string + int" where
  "checked_u64 n = (if in_u64 n then Inr n else Inl ''MathOverflow'')"

definition is_admin_or_keeper :: "DistConfig \<Rightarrow> bytes \<Rightarrow> bool" where
  "is_admin_or_keeper cfg key \<longleftrightarrow> key = di_admin cfg \<or> key \<in> set (di_keepers cfg)"

definition token_at :: "accounts \<Rightarrow> bytes \<Rightarrow> token_account option" where
  "token_at m a = Option.bind (m a) ac_token"

definition saturating_i64 :: "int \<Rightarrow> int" where
  "saturating_i64 n = max (- (2 ^ 63)) (min n (2 ^ 63 - 1))"

section \<open>open\_epoch\<close>

record OpenEpochArgs =
  oe_pool :: bytes
  oe_index :: int
  oe_start_ts :: int
  oe_end_ts :: int
  oe_total_amount :: int
  oe_eligible_holders :: int
  oe_twab_total :: int

record OpenEpochAccounts =
  oa_keeper :: bytes
  oa_epoch :: bytes
  oa_coin_mint :: bytes
  oa_epoch_vault :: bytes
  oa_source_vault :: bytes
  oa_source_authority :: bytes
  oa_source_signs :: bool
  oa_token_program :: bytes
  oa_remaining :: "bytes list"

text \<open>fee\_router's \<open>withdraw_for_epoch\<close>, called by the distributor's signer.\<close>

definition withdraw_for_epoch ::
  "web3 \<Rightarrow> transfer_checked \<Rightarrow> bytes \<Rightarrow> bytes \<Rightarrow> bytes \<Rightarrow> bytes \<Rightarrow> bytes \<Rightarrow> int \<Rightarrow> dist_chain \<Rightarrow> string + accounts" where
  "withdraw_for_epoch w3 xf fr dist_authority pool_state holder_vault destination amount c =
     sbind (some_or (ch_router_pools c pool_state) ''AccountNotInitialized'') (\<lambda>rp.
     sbind (require (holder_vault = fst (feeRouter_holderVault w3 fr (rp_dbc_pool rp))) ''ConstraintSeeds'') (\<lambda>_.
     sbind (some_or (token_at (ch_accounts c) holder_vault) ''AccountNotInitialized'') (\<lambda>hv.
     sbind (require (ta_mint hv = rp_quote_mint rp \<and> ta_owner hv = pool_state) ''ConstraintTokenMint'') (\<lambda>_.
     sbind (some_or (token_at (ch_accounts c) destination) ''AccountNotInitialized'') (\<lambda>dv.
     sbind (require (ta_mint dv = rp_quote_mint rp) ''ConstraintTokenMint'') (\<lambda>_.
     sbind (require (\<not> rs_paused (ch_router c)) ''Paused'') (\<lambda>_.
     sbind (require (amount > 0) ''ZeroAmount'') (\<lambda>_.
     sbind (require (dist_authority = fst (distributor_distAuth w3 (rs_distributor_program (ch_router c)))) ''InvalidAuthority'') (\<lambda>_.
     sbind (require (ta_amount hv \<ge> amount) ''InsufficientVault'') (\<lambda>_.
     xf holder_vault destination (rp_quote_mint rp) pool_state amount (ch_accounts c)))))))))))"

text \<open>\<open>init_if_needed\<close> of the epoch's vault: an existing token account must fit.\<close>

definition ensure_vault :: "bytes \<Rightarrow> bytes \<Rightarrow> bytes \<Rightarrow> bytes \<Rightarrow> accounts \<Rightarrow> string + accounts" where
  "ensure_vault vault mint authority token_program m = (case m vault of
     None \<Rightarrow> Inr (m(vault \<mapsto> \<lparr>ac_program = token_program,
        ac_token = Some \<lparr>ta_mint = mint, ta_owner = authority, ta_amount = 0\<rparr>\<rparr>))
   | Some a \<Rightarrow> (case ac_token a of None \<Rightarrow> Inl ''ConstraintTokenMint''
       | Some t \<Rightarrow> if ta_mint t = mint \<and> ta_owner t = authority \<and> ac_program a = token_program then Inr m
                   else Inl ''ConstraintTokenMint''))"

text \<open>The funding: a direct transfer, or the pull from the pool's holder vault.\<close>

definition fund_epoch ::
  "web3 \<Rightarrow> transfer_checked \<Rightarrow> bytes \<Rightarrow> DistConfig \<Rightarrow> OpenEpochAccounts \<Rightarrow> OpenEpochArgs \<Rightarrow> dist_chain \<Rightarrow> string + accounts"
where
  "fund_epoch w3 xf prog cfg a args c =
     sbind (some_or (token_at (ch_accounts c) (oa_source_vault a)) ''AccountNotInitialized'') (\<lambda>src.
     sbind (require (ta_mint src = oa_coin_mint a) ''ConstraintTokenMint'') (\<lambda>_.
     if oa_source_signs a \<and> ta_owner src = oa_source_authority a
     then xf (oa_source_vault a) (oa_epoch_vault a) (oa_coin_mint a) (oa_source_authority a) (oe_total_amount args) (ch_accounts c)
     else
       sbind (require (length (oa_remaining a) \<ge> 2) ''MissingRouterAccounts'') (\<lambda>_.
       sbind (require (hd (oa_remaining a) = di_fee_router cfg) ''InvalidFeeRouter'') (\<lambda>_.
       sbind (require (oa_source_authority a = fst (feeRouter_pool w3 (di_fee_router cfg) (oe_pool args))) ''InvalidSource'') (\<lambda>_.
       sbind (require (ta_owner src = fst (feeRouter_pool w3 (di_fee_router cfg) (oe_pool args))) ''InvalidSource'') (\<lambda>_.
       withdraw_for_epoch w3 xf (di_fee_router cfg) (fst (distributor_distAuth w3 prog)) (oa_source_authority a)
         (oa_source_vault a) (oa_epoch_vault a) (oe_total_amount args) c))))))"

definition vault_balance :: "accounts \<Rightarrow> bytes \<Rightarrow> int" where
  "vault_balance m a = (case token_at m a of None \<Rightarrow> 0 | Some t \<Rightarrow> ta_amount t)"

definition new_epoch :: "OpenEpochArgs \<Rightarrow> bytes \<Rightarrow> Epoch" where
  "new_epoch args mint = \<lparr>ep_pool = oe_pool args, ep_index = oe_index args, ep_coin_mint = mint,
     ep_start_ts = oe_start_ts args, ep_end_ts = oe_end_ts args, ep_total_amount = oe_total_amount args,
     ep_pushed_amount = 0, ep_merkle_root = replicate 32 0, ep_merkle_total = 0, ep_claimed_amount = 0,
     ep_eligible_holders = oe_eligible_holders args, ep_twab_total = oe_twab_total args, ep_finalized = False\<rparr>"

definition open_epoch ::
  "web3 \<Rightarrow> transfer_checked \<Rightarrow> bytes \<Rightarrow> string \<Rightarrow> OpenEpochAccounts \<Rightarrow> OpenEpochArgs \<Rightarrow> dist_chain \<Rightarrow> string + dist_chain" where
  "open_epoch w3 xf prog sig a args c =
     sbind (some_or (ch_dist c) ''AccountNotInitialized'') (\<lambda>cfg.
     sbind (require (oa_epoch a = fst (distributor_epoch w3 prog (oe_pool args) (oe_index args))) ''ConstraintSeeds'') (\<lambda>_.
     sbind (require (ch_epochs c (oa_epoch a) = None) ''AlreadyInUse'') (\<lambda>_.
     sbind (require (oa_epoch_vault a = ata w3 (oa_coin_mint a) (oa_epoch a) (oa_token_program a)) ''ConstraintAssociated'') (\<lambda>_.
     sbind (ensure_vault (oa_epoch_vault a) (oa_coin_mint a) (oa_epoch a) (oa_token_program a) (ch_accounts c)) (\<lambda>m0.
     sbind (require (\<not> di_paused cfg) ''Paused'') (\<lambda>_.
     sbind (require (is_admin_or_keeper cfg (oa_keeper a)) ''Unauthorized'') (\<lambda>_.
     sbind (require (oe_end_ts args > oe_start_ts args) ''InvalidWindow'') (\<lambda>_.
     sbind (require (oe_end_ts args \<le> ch_clock c \<and> oe_end_ts args \<ge> saturating_i64 (ch_clock c - MAX_EPOCH_AGE_SECS)) ''InvalidWindow'') (\<lambda>_.
     sbind (require (oe_total_amount args > 0) ''ZeroAmount'') (\<lambda>_.
     sbind (fund_epoch w3 xf prog cfg a args (c\<lparr>ch_accounts := m0\<rparr>)) (\<lambda>m1.
     sbind (require (max 0 (vault_balance m1 (oa_epoch_vault a) - vault_balance m0 (oa_epoch_vault a)) = oe_total_amount args) ''FundingMismatch'') (\<lambda>_.
     Inr (c\<lparr>ch_accounts := m1, ch_epochs := (ch_epochs c)(oa_epoch a \<mapsto> new_epoch args (oa_coin_mint a)),
       ch_log := ch_log c @ [\<lparr>tx_sig = sig, tx_epoch = oa_epoch a,
         tx_events = [EpochOpened (oe_pool args) (oe_index args) (oe_total_amount args) (oe_eligible_holders args)]\<rparr>]\<rparr>)))))))))))))"

section \<open>push\_payouts\<close>

record PayoutItem =
  it_wallet :: bytes
  it_amount :: int

record PushAccounts =
  pa_keeper :: bytes
  pa_epoch :: bytes
  pa_coin_mint :: bytes
  pa_epoch_vault :: bytes
  pa_token_program :: bytes
  pa_remaining :: "(bytes \<times> bool) list"

text \<open>\<open>epoch.load\<close>: Anchor's seeds constraint on an epoch account.\<close>

definition load_epoch :: "web3 \<Rightarrow> bytes \<Rightarrow> bytes \<Rightarrow> dist_chain \<Rightarrow> string + Epoch" where
  "load_epoch w3 prog key c =
     sbind (some_or (ch_epochs c key) ''AccountNotInitialized'') (\<lambda>e.
     sbind (require (key = fst (distributor_epoch w3 prog (ep_pool e) (ep_index e))) ''ConstraintSeeds'') (\<lambda>_. Inr e))"

definition check_vault :: "web3 \<Rightarrow> bytes \<Rightarrow> bytes \<Rightarrow> bytes \<Rightarrow> bytes \<Rightarrow> dist_chain \<Rightarrow> string + unit" where
  "check_vault w3 vault mint epoch token_program c =
     sbind (require (vault = ata w3 mint epoch token_program) ''ConstraintAssociated'') (\<lambda>_.
     sbind (some_or (token_at (ch_accounts c) vault) ''AccountNotInitialized'') (\<lambda>t.
     require (ta_mint t = mint \<and> ta_owner t = epoch) ''ConstraintTokenOwner''))"

fun sum_items :: "PayoutItem list \<Rightarrow> int \<Rightarrow> string + int" where
  "sum_items [] s = Inr s"
| "sum_items (it # its) s =
     sbind (require (it_amount it > 0) ''ZeroAmount'') (\<lambda>_. sbind (checked_u64 (s + it_amount it)) (sum_items its))"

definition payout_event :: "bytes \<Rightarrow> Epoch \<Rightarrow> int \<Rightarrow> bytes \<Rightarrow> int \<Rightarrow> dist_event" where
  "payout_event key e kind wallet amount = PayoutEvent \<lparr>pv_pool = ep_pool e, pv_epoch = key, pv_wallet = wallet,
     pv_coin_mint = ep_coin_mint e, pv_amount = amount, pv_kind = kind\<rparr>"

text \<open>The destination checks and the transfer of one item.\<close>

definition push_item ::
  "transfer_checked \<Rightarrow> PushAccounts \<Rightarrow> Epoch \<Rightarrow> PayoutItem \<Rightarrow> bytes \<times> bool \<Rightarrow> accounts \<Rightarrow> string + accounts" where
  "push_item xf a e it d m =
     sbind (require (snd d) ''InvalidDestination'') (\<lambda>_.
     sbind (some_or (m (fst d)) ''InvalidDestination'') (\<lambda>acct.
     sbind (require (ac_program acct = pa_token_program a) ''InvalidDestination'') (\<lambda>_.
     sbind (require (fst d \<noteq> pa_epoch_vault a) ''InvalidDestination'') (\<lambda>_.
     sbind (some_or (ac_token acct) ''InvalidDestination'') (\<lambda>t.
     sbind (require (ta_mint t = ep_coin_mint e) ''InvalidDestination'') (\<lambda>_.
     sbind (require (ta_owner t = it_wallet it) ''InvalidDestination'') (\<lambda>_.
     xf (pa_epoch_vault a) (fst d) (ep_coin_mint e) (pa_epoch a) (it_amount it) m)))))))"

fun push_loop ::
  "transfer_checked \<Rightarrow> PushAccounts \<Rightarrow> Epoch \<Rightarrow> PayoutItem list \<Rightarrow> (bytes \<times> bool) list \<Rightarrow> accounts \<Rightarrow> string + accounts" where
  "push_loop xf a e (it # its) (d # ds) m = sbind (push_item xf a e it d m) (push_loop xf a e its ds)"
| "push_loop xf a e _ _ m = Inr m"

definition push_payouts ::
  "web3 \<Rightarrow> transfer_checked \<Rightarrow> bytes \<Rightarrow> string \<Rightarrow> PushAccounts \<Rightarrow> PayoutItem list \<Rightarrow> dist_chain \<Rightarrow> string + dist_chain" where
  "push_payouts w3 xf prog sig a items c =
     sbind (some_or (ch_dist c) ''AccountNotInitialized'') (\<lambda>cfg.
     sbind (load_epoch w3 prog (pa_epoch a) c) (\<lambda>e.
     sbind (require (ep_coin_mint e = pa_coin_mint a) ''ConstraintHasOne'') (\<lambda>_.
     sbind (check_vault w3 (pa_epoch_vault a) (pa_coin_mint a) (pa_epoch a) (pa_token_program a) c) (\<lambda>_.
     sbind (require (\<not> di_paused cfg) ''Paused'') (\<lambda>_.
     sbind (require (is_admin_or_keeper cfg (pa_keeper a)) ''Unauthorized'') (\<lambda>_.
     sbind (require (length items \<le> MAX_PUSH_ITEMS) ''TooManyItems'') (\<lambda>_.
     sbind (require (length (pa_remaining a) = length items) ''AccountsMismatch'') (\<lambda>_.
     sbind (require (\<not> ep_finalized e) ''AlreadyFinalized'') (\<lambda>_.
     sbind (sum_items items 0) (\<lambda>s.
     sbind (checked_u64 (ep_total_amount e - ep_pushed_amount e)) (\<lambda>remainder.
     sbind (require (s \<le> remainder) ''ExceedsRemainder'') (\<lambda>_.
     sbind (checked_u64 (ep_pushed_amount e + s)) (\<lambda>new_pushed.
     sbind (require (new_pushed \<le> (ep_total_amount e * di_max_push_per_epoch_bps cfg) div DIST_BPS_DENOM) ''PushCapExceeded'') (\<lambda>_.
     sbind (push_loop xf a e items (pa_remaining a) (ch_accounts c)) (\<lambda>m.
     Inr (c\<lparr>ch_accounts := m, ch_epochs := (ch_epochs c)(pa_epoch a \<mapsto> e\<lparr>ep_pushed_amount := new_pushed\<rparr>),
       ch_log := ch_log c @ [\<lparr>tx_sig = sig, tx_epoch = pa_epoch a,
         tx_events = map (\<lambda>it. payout_event (pa_epoch a) e 0 (it_wallet it) (it_amount it)) items\<rparr>]\<rparr>))))))))))))))))"

section \<open>finalize\_epoch, claim, sweep\_unclaimed\<close>

definition finalize_epoch ::
  "web3 \<Rightarrow> bytes \<Rightarrow> string \<Rightarrow> bytes \<Rightarrow> bytes \<Rightarrow> bytes \<Rightarrow> int \<Rightarrow> dist_chain \<Rightarrow> string + dist_chain" where
  "finalize_epoch w3 prog sig keeper key merkle_root merkle_total c =
     sbind (some_or (ch_dist c) ''AccountNotInitialized'') (\<lambda>cfg.
     sbind (load_epoch w3 prog key c) (\<lambda>e.
     sbind (require (\<not> di_paused cfg) ''Paused'') (\<lambda>_.
     sbind (require (is_admin_or_keeper cfg keeper) ''Unauthorized'') (\<lambda>_.
     sbind (require (\<not> ep_finalized e) ''AlreadyFinalized'') (\<lambda>_.
     sbind (checked_u64 (ep_total_amount e - ep_pushed_amount e)) (\<lambda>remainder.
     sbind (require (merkle_total \<le> remainder) ''ExceedsRemainder'') (\<lambda>_.
     Inr (c\<lparr>ch_epochs := (ch_epochs c)(key \<mapsto> e\<lparr>ep_merkle_root := merkle_root, ep_merkle_total := merkle_total, ep_finalized := True\<rparr>),
       ch_log := ch_log c @ [\<lparr>tx_sig = sig, tx_epoch = key,
         tx_events = [EpochFinalized (ep_pool e) (ep_index e) merkle_root remainder]\<rparr>]\<rparr>))))))))"

record ClaimAccounts =
  ca_wallet :: bytes
  ca_epoch :: bytes
  ca_claimed :: bytes
  ca_coin_mint :: bytes
  ca_epoch_vault :: bytes
  ca_wallet_ata :: bytes
  ca_token_program :: bytes

text \<open>Solana's \<open>keccak::hashv\<close> is the parameter \<open>hashv\<close>.\<close>

definition claim ::
  "web3 \<Rightarrow> transfer_checked \<Rightarrow> (bytes list \<Rightarrow> bytes) \<Rightarrow> bytes \<Rightarrow> string \<Rightarrow> ClaimAccounts \<Rightarrow> int \<Rightarrow> bytes list \<Rightarrow> dist_chain \<Rightarrow>
     string + dist_chain" where
  "claim w3 xf hashv prog sig a amount nodes c =
     sbind (some_or (ch_dist c) ''AccountNotInitialized'') (\<lambda>cfg.
     sbind (load_epoch w3 prog (ca_epoch a) c) (\<lambda>e.
     sbind (require (ep_coin_mint e = ca_coin_mint a) ''ConstraintHasOne'') (\<lambda>_.
     sbind (require (ca_claimed a = fst (distributor_claimed w3 prog (ca_epoch a) (ca_wallet a))) ''ConstraintSeeds'') (\<lambda>_.
     sbind (require (ch_claimed c (ca_claimed a) = None) ''AlreadyInUse'') (\<lambda>_.
     sbind (check_vault w3 (ca_epoch_vault a) (ca_coin_mint a) (ca_epoch a) (ca_token_program a) c) (\<lambda>_.
     sbind (require (ca_wallet_ata a = ata w3 (ca_coin_mint a) (ca_wallet a) (ca_token_program a)) ''ConstraintAssociated'') (\<lambda>_.
     sbind (ensure_vault (ca_wallet_ata a) (ca_coin_mint a) (ca_wallet a) (ca_token_program a) (ch_accounts c)) (\<lambda>m0.
     sbind (require (\<not> di_paused cfg) ''Paused'') (\<lambda>_.
     sbind (require (amount > 0) ''ZeroAmount'') (\<lambda>_.
     sbind (require (length nodes \<le> MAX_PROOF_LEN) ''ProofTooLong'') (\<lambda>_.
     sbind (require (ep_finalized e) ''NotFinalized'') (\<lambda>_.
     sbind (require (ch_clock c \<le> saturating_i64 (ep_end_ts e + SWEEP_DELAY_SECS)) ''ClaimWindowClosed'') (\<lambda>_.
     sbind (require (rs_verify hashv nodes (ep_merkle_root e) (rs_leaf hashv (ca_epoch a) (ca_wallet a) amount)) ''InvalidProof'') (\<lambda>_.
     sbind (checked_u64 (ep_claimed_amount e + amount)) (\<lambda>new_claimed.
     sbind (require (new_claimed \<le> ep_merkle_total e) ''ExceedsRemainder'') (\<lambda>_.
     sbind (xf (ca_epoch_vault a) (ca_wallet_ata a) (ca_coin_mint a) (ca_epoch a) amount m0) (\<lambda>m1.
     Inr (c\<lparr>ch_accounts := m1, ch_epochs := (ch_epochs c)(ca_epoch a \<mapsto> e\<lparr>ep_claimed_amount := new_claimed\<rparr>),
       ch_claimed := (ch_claimed c)(ca_claimed a \<mapsto> \<lparr>cl_epoch = ca_epoch a, cl_wallet = ca_wallet a, cl_amount = amount\<rparr>),
       ch_log := ch_log c @ [\<lparr>tx_sig = sig, tx_epoch = ca_epoch a,
         tx_events = [payout_event (ca_epoch a) e 1 (ca_wallet a) amount]\<rparr>]\<rparr>))))))))))))))))))"

definition sweep_unclaimed ::
  "web3 \<Rightarrow> transfer_checked \<Rightarrow> bytes \<Rightarrow> string \<Rightarrow> bytes \<Rightarrow> bytes \<Rightarrow> bytes \<Rightarrow> bytes \<Rightarrow> bytes \<Rightarrow> bytes \<Rightarrow> dist_chain \<Rightarrow> string + dist_chain" where
  "sweep_unclaimed w3 xf prog sig admin key coin_mint epoch_vault treasury token_program c =
     sbind (some_or (ch_dist c) ''AccountNotInitialized'') (\<lambda>cfg.
     sbind (require (admin = di_admin cfg) ''Unauthorized'') (\<lambda>_.
     sbind (load_epoch w3 prog key c) (\<lambda>e.
     sbind (require (ep_coin_mint e = coin_mint) ''ConstraintHasOne'') (\<lambda>_.
     sbind (check_vault w3 epoch_vault coin_mint key token_program c) (\<lambda>_.
     sbind (some_or (token_at (ch_accounts c) treasury) ''AccountNotInitialized'') (\<lambda>tr.
     sbind (require (ta_mint tr = coin_mint) ''ConstraintTokenMint'') (\<lambda>_.
     sbind (require (ch_clock c > saturating_i64 (ep_end_ts e + SWEEP_DELAY_SECS)) ''SweepTooEarly'') (\<lambda>_.
     sbind (require (treasury = fst (feeRouter_treasury w3 (di_fee_router cfg) coin_mint)) ''InvalidTreasury'') (\<lambda>_.
     sbind (if vault_balance (ch_accounts c) epoch_vault > 0
            then xf epoch_vault treasury coin_mint key (vault_balance (ch_accounts c) epoch_vault) (ch_accounts c)
            else Inr (ch_accounts c)) (\<lambda>m.
     Inr (c\<lparr>ch_accounts := m, ch_epochs := (ch_epochs c)(key \<mapsto> e\<lparr>ep_finalized := True\<rparr>),
       ch_log := ch_log c @ [\<lparr>tx_sig = sig, tx_epoch = key,
         tx_events = [EpochSwept (ep_pool e) (ep_index e) (vault_balance (ch_accounts c) epoch_vault) treasury]\<rparr>]\<rparr>)))))))))))"

section \<open>Administration\<close>

definition initialize :: "bytes \<Rightarrow> bytes \<Rightarrow> bytes \<Rightarrow> int \<Rightarrow> dist_chain \<Rightarrow> string + dist_chain" where
  "initialize upgrade_authority payer fee_router bps c =
     sbind (require (ch_dist c = None) ''AlreadyInUse'') (\<lambda>_.
     sbind (require (payer = upgrade_authority) ''NotUpgradeAuthority'') (\<lambda>_.
     sbind (require (bps \<le> DIST_BPS_DENOM) ''InvalidBps'') (\<lambda>_.
     Inr (c\<lparr>ch_dist := Some \<lparr>di_admin = payer, di_keepers = [], di_fee_router = fee_router,
       di_max_push_per_epoch_bps = bps, di_paused = False\<rparr>\<rparr>))))"

definition set_keepers :: "bytes \<Rightarrow> bytes list \<Rightarrow> dist_chain \<Rightarrow> string + dist_chain" where
  "set_keepers admin keepers c =
     sbind (some_or (ch_dist c) ''AccountNotInitialized'') (\<lambda>cfg.
     sbind (require (admin = di_admin cfg) ''Unauthorized'') (\<lambda>_.
     sbind (require (length keepers \<le> 8) ''TooManyKeepers'') (\<lambda>_.
     Inr (c\<lparr>ch_dist := Some (cfg\<lparr>di_keepers := keepers\<rparr>)\<rparr>))))"

definition update_with :: "'a option \<Rightarrow> ('a \<Rightarrow> 'b \<Rightarrow> 'b) \<Rightarrow> 'b \<Rightarrow> 'b" where
  "update_with v f x = (case v of None \<Rightarrow> x | Some a \<Rightarrow> f a x)"

definition set_params ::
  "bytes \<Rightarrow> bytes option \<Rightarrow> int option \<Rightarrow> bool option \<Rightarrow> bytes option \<Rightarrow> dist_chain \<Rightarrow> string + dist_chain" where
  "set_params admin fee_router bps paused new_admin c =
     sbind (some_or (ch_dist c) ''AccountNotInitialized'') (\<lambda>cfg.
     sbind (require (admin = di_admin cfg) ''Unauthorized'') (\<lambda>_.
     sbind (require (case bps of None \<Rightarrow> True | Some v \<Rightarrow> v \<le> DIST_BPS_DENOM) ''InvalidBps'') (\<lambda>_.
     Inr (c\<lparr>ch_dist := Some (update_with new_admin (\<lambda>v x. x\<lparr>di_admin := v\<rparr>)
       (update_with paused (\<lambda>v x. x\<lparr>di_paused := v\<rparr>)
       (update_with bps (\<lambda>v x. x\<lparr>di_max_push_per_epoch_bps := v\<rparr>)
       (update_with fee_router (\<lambda>v x. x\<lparr>di_fee_router := v\<rparr>) cfg))))\<rparr>))))"

section \<open>Instructions and steps\<close>

datatype dist_ix =
    OpenEpoch OpenEpochAccounts OpenEpochArgs
  | PushPayouts PushAccounts "PayoutItem list"
  | FinalizeEpoch bytes bytes bytes int
  | Claim ClaimAccounts int "bytes list"
  | SweepUnclaimed bytes bytes bytes bytes bytes bytes
  | Initialize bytes bytes bytes int
  | SetKeepers bytes "bytes list"
  | SetParams bytes "bytes option" "int option" "bool option" "bytes option"

text \<open>The amounts of an instruction are encoded as \<open>u64\<close>; anything else fails before it is sent.\<close>

fun ix_amounts :: "dist_ix \<Rightarrow> int list" where
  "ix_amounts (OpenEpoch a args) = [oe_total_amount args]"
| "ix_amounts (PushPayouts a items) = map it_amount items"
| "ix_amounts (FinalizeEpoch keeper key root t) = [t]"
| "ix_amounts (Claim a amount nodes) = [amount]"
| "ix_amounts _ = []"

fun dist_run :: "web3 \<Rightarrow> transfer_checked \<Rightarrow> (bytes list \<Rightarrow> bytes) \<Rightarrow> bytes \<Rightarrow> string \<Rightarrow> dist_ix \<Rightarrow> dist_chain \<Rightarrow> string + dist_chain" where
  "dist_run w3 xf hashv prog sig (OpenEpoch a args) c = open_epoch w3 xf prog sig a args c"
| "dist_run w3 xf hashv prog sig (PushPayouts a items) c = push_payouts w3 xf prog sig a items c"
| "dist_run w3 xf hashv prog sig (FinalizeEpoch keeper key root t) c = finalize_epoch w3 prog sig keeper key root t c"
| "dist_run w3 xf hashv prog sig (Claim a amount nodes) c = claim w3 xf hashv prog sig a amount nodes c"
| "dist_run w3 xf hashv prog sig (SweepUnclaimed admin key mint vault treasury tp) c =
     sweep_unclaimed w3 xf prog sig admin key mint vault treasury tp c"
| "dist_run w3 xf hashv prog sig (Initialize authority payer fr bps) c = initialize authority payer fr bps c"
| "dist_run w3 xf hashv prog sig (SetKeepers admin ks) c = set_keepers admin ks c"
| "dist_run w3 xf hashv prog sig (SetParams admin fr bps paused new_admin) c = set_params admin fr bps paused new_admin c"

definition dist_exec ::
  "web3 \<Rightarrow> transfer_checked \<Rightarrow> (bytes list \<Rightarrow> bytes) \<Rightarrow> bytes \<Rightarrow> string \<Rightarrow> dist_ix \<Rightarrow> dist_chain \<Rightarrow> string + dist_chain" where
  "dist_exec w3 xf hashv prog sig ix c =
     sbind (require (list_all in_u64 (ix_amounts ix)) ''RangeError'') (\<lambda>_. dist_run w3 xf hashv prog sig ix c)"

text \<open>Payout events of one epoch, in ledger order.\<close>

fun payout_in :: "bytes \<Rightarrow> int \<Rightarrow> dist_event \<Rightarrow> (bytes \<times> int) option" where
  "payout_in key kind (PayoutEvent p) = (if pv_epoch p = key \<and> pv_kind p = kind then Some (pv_wallet p, pv_amount p) else None)"
| "payout_in key kind _ = None"

definition events_payouts :: "bytes \<Rightarrow> int \<Rightarrow> tx_record list \<Rightarrow> (bytes \<times> int) list" where
  "events_payouts key kind recs = List.map_filter (payout_in key kind) (concat (map tx_events recs))"

abbreviation pushes :: "bytes \<Rightarrow> dist_chain \<Rightarrow> (bytes \<times> int) list" where
  "pushes key c \<equiv> events_payouts key 0 (ch_log c)"

abbreviation claims :: "bytes \<Rightarrow> dist_chain \<Rightarrow> (bytes \<times> int) list" where
  "claims key c \<equiv> events_payouts key 1 (ch_log c)"

text \<open>One step of the chain: an instruction that succeeds, or time and the token program moving on.\<close>

inductive dist_step :: "web3 \<Rightarrow> transfer_checked \<Rightarrow> (bytes list \<Rightarrow> bytes) \<Rightarrow> bytes \<Rightarrow> dist_chain \<Rightarrow> dist_chain \<Rightarrow> bool"
  for w3 xf hashv prog where
  run: "dist_exec w3 xf hashv prog sig ix c = Inr c' \<Longrightarrow> dist_step w3 xf hashv prog c c'"
| outside: "dist_step w3 xf hashv prog c (c\<lparr>ch_clock := t, ch_accounts := m, ch_router := r, ch_router_pools := ps\<rparr>)"

inductive_cases dist_stepE: "dist_step w3 xf hashv prog c c'"

inductive dist_reachable :: "web3 \<Rightarrow> transfer_checked \<Rightarrow> (bytes list \<Rightarrow> bytes) \<Rightarrow> bytes \<Rightarrow> dist_chain \<Rightarrow> bool"
  for w3 xf hashv prog where
  start: "ch_epochs c = Map.empty \<Longrightarrow> ch_claimed c = Map.empty \<Longrightarrow> ch_log c = [] \<Longrightarrow> dist_reachable w3 xf hashv prog c"
| step: "dist_reachable w3 xf hashv prog c \<Longrightarrow> dist_step w3 xf hashv prog c c' \<Longrightarrow> dist_reachable w3 xf hashv prog c'"

section \<open>Effects of the operations\<close>

lemma checked_u64_eq_Inr [result_simps]: "checked_u64 n = Inr m \<longleftrightarrow> in_u64 n \<and> m = n"
  by (auto simp: checked_u64_def)

definition push_record :: "string \<Rightarrow> bytes \<Rightarrow> Epoch \<Rightarrow> PayoutItem list \<Rightarrow> tx_record" where
  "push_record sig key e items = \<lparr>tx_sig = sig, tx_epoch = key,
     tx_events = map (\<lambda>it. payout_event key e 0 (it_wallet it) (it_amount it)) items\<rparr>"

lemma sum_items_Inr:
  "sum_items items s = Inr t \<Longrightarrow> (\<forall>it \<in> set items. 0 < it_amount it) \<and> t = s + sum_list (map it_amount items)"
  by (induction items arbitrary: s) (simp, fastforce simp: result_simps algebra_simps)

lemma push_payouts_Inr:
  assumes "push_payouts w3 xf prog sig a items c = Inr c'"
  obtains cfg e m where "ch_dist c = Some cfg" "ch_epochs c (pa_epoch a) = Some e" "\<not> ep_finalized e"
    "length items \<le> MAX_PUSH_ITEMS" "\<forall>it \<in> set items. 0 < it_amount it"
    "ep_pushed_amount e + sum_list (map it_amount items) \<le> ep_total_amount e"
    "ep_pushed_amount e + sum_list (map it_amount items) \<le> (ep_total_amount e * di_max_push_per_epoch_bps cfg) div DIST_BPS_DENOM"
    "c' = c\<lparr>ch_accounts := m,
       ch_epochs := (ch_epochs c)(pa_epoch a \<mapsto> e\<lparr>ep_pushed_amount := ep_pushed_amount e + sum_list (map it_amount items)\<rparr>),
       ch_log := ch_log c @ [push_record sig (pa_epoch a) e items]\<rparr>"
    "push_loop xf a e items (pa_remaining a) (ch_accounts c) = Inr m"
proof -
  obtain cfg e s m where c: "ch_dist c = Some cfg" "ch_epochs c (pa_epoch a) = Some e" "\<not> ep_finalized e"
      "length items \<le> MAX_PUSH_ITEMS" "sum_items items 0 = Inr s" "s \<le> ep_total_amount e - ep_pushed_amount e"
      "ep_pushed_amount e + s \<le> (ep_total_amount e * di_max_push_per_epoch_bps cfg) div DIST_BPS_DENOM"
      "c' = c\<lparr>ch_accounts := m, ch_epochs := (ch_epochs c)(pa_epoch a \<mapsto> e\<lparr>ep_pushed_amount := ep_pushed_amount e + s\<rparr>),
        ch_log := ch_log c @ [push_record sig (pa_epoch a) e items]\<rparr>"
      "push_loop xf a e items (pa_remaining a) (ch_accounts c) = Inr m"
    using assms by (auto simp: push_payouts_def load_epoch_def result_simps push_record_def)
  show ?thesis
    by (rule that [OF c(1-4) _ _ _ _ c(9)]) (use c(6-8) sum_items_Inr [OF c(5)] in auto)
qed

lemma finalize_epoch_Inr:
  assumes "finalize_epoch w3 prog sig keeper key root t c = Inr c'"
  obtains e where "ch_epochs c key = Some e" "\<not> ep_finalized e" "t \<le> ep_total_amount e - ep_pushed_amount e"
    "c' = c\<lparr>ch_epochs := (ch_epochs c)(key \<mapsto> e\<lparr>ep_merkle_root := root, ep_merkle_total := t, ep_finalized := True\<rparr>),
       ch_log := ch_log c @ [\<lparr>tx_sig = sig, tx_epoch = key,
         tx_events = [EpochFinalized (ep_pool e) (ep_index e) root (ep_total_amount e - ep_pushed_amount e)]\<rparr>]\<rparr>"
  using assms by (auto simp: finalize_epoch_def load_epoch_def result_simps)

lemma open_epoch_Inr:
  assumes "open_epoch w3 xf prog sig a args c = Inr c'"
  obtains m where "ch_epochs c (oa_epoch a) = None" "0 < oe_total_amount args"
    "oa_epoch a = fst (distributor_epoch w3 prog (oe_pool args) (oe_index args))"
    "c' = c\<lparr>ch_accounts := m, ch_epochs := (ch_epochs c)(oa_epoch a \<mapsto> new_epoch args (oa_coin_mint a)),
       ch_log := ch_log c @ [\<lparr>tx_sig = sig, tx_epoch = oa_epoch a,
         tx_events = [EpochOpened (oe_pool args) (oe_index args) (oe_total_amount args) (oe_eligible_holders args)]\<rparr>]\<rparr>"
  using assms by (auto simp: open_epoch_def result_simps)

lemma claim_Inr:
  assumes "claim w3 xf hashv prog sig a amount nodes c = Inr c'"
  obtains e m where "ch_epochs c (ca_epoch a) = Some e" "ep_finalized e" "0 < amount"
    "ca_claimed a = fst (distributor_claimed w3 prog (ca_epoch a) (ca_wallet a))" "ch_claimed c (ca_claimed a) = None"
    "ep_claimed_amount e + amount \<le> ep_merkle_total e"
    "rs_verify hashv nodes (ep_merkle_root e) (rs_leaf hashv (ca_epoch a) (ca_wallet a) amount)"
    "c' = c\<lparr>ch_accounts := m, ch_epochs := (ch_epochs c)(ca_epoch a \<mapsto> e\<lparr>ep_claimed_amount := ep_claimed_amount e + amount\<rparr>),
       ch_claimed := (ch_claimed c)(ca_claimed a \<mapsto> \<lparr>cl_epoch = ca_epoch a, cl_wallet = ca_wallet a, cl_amount = amount\<rparr>),
       ch_log := ch_log c @ [\<lparr>tx_sig = sig, tx_epoch = ca_epoch a, tx_events = [payout_event (ca_epoch a) e 1 (ca_wallet a) amount]\<rparr>]\<rparr>"
  using assms by (auto simp: claim_def load_epoch_def result_simps)

lemma sweep_unclaimed_Inr:
  assumes "sweep_unclaimed w3 xf prog sig admin key mint vault treasury tp c = Inr c'"
  obtains e m where "ch_epochs c key = Some e"
    "c' = c\<lparr>ch_accounts := m, ch_epochs := (ch_epochs c)(key \<mapsto> e\<lparr>ep_finalized := True\<rparr>),
       ch_log := ch_log c @ [\<lparr>tx_sig = sig, tx_epoch = key,
         tx_events = [EpochSwept (ep_pool e) (ep_index e) (vault_balance (ch_accounts c) vault) treasury]\<rparr>]\<rparr>"
  using assms by (auto simp: sweep_unclaimed_def load_epoch_def result_simps)

section \<open>Invariant\<close>

text \<open>The counters of an epoch agree with its payout events and stay within what funded it.\<close>

definition epoch_ok :: "Epoch option \<Rightarrow> (bytes \<times> int) list \<Rightarrow> (bytes \<times> int) list \<Rightarrow> bool" where
  "epoch_ok x ps cs = (case x of None \<Rightarrow> ps = [] \<and> cs = []
     | Some e \<Rightarrow> ep_pushed_amount e = ledger_sum ps \<and> ep_claimed_amount e = ledger_sum cs \<and>
         ep_claimed_amount e \<le> ep_merkle_total e \<and> ep_pushed_amount e + ep_merkle_total e \<le> ep_total_amount e \<and>
         (\<not> ep_finalized e \<longrightarrow> ep_merkle_total e = 0 \<and> cs = []))"

definition dist_inv :: "web3 \<Rightarrow> bytes \<Rightarrow> dist_chain \<Rightarrow> bool" where
  "dist_inv w3 prog c \<longleftrightarrow> (\<forall>key. epoch_ok (ch_epochs c key) (pushes key c) (claims key c) \<and>
     positive (pushes key c) \<and> positive (claims key c) \<and> distinct (map fst (claims key c)) \<and>
     (\<forall>w \<in> fst ` set (claims key c). ch_claimed c (fst (distributor_claimed w3 prog key w)) \<noteq> None) \<and>
     (\<forall>e. ch_epochs c key = Some e \<longrightarrow> key = fst (distributor_epoch w3 prog (ep_pool e) (ep_index e))))"

lemma events_payouts_append [simp]:
  "events_payouts key kind (rs @ [r]) = events_payouts key kind rs @ List.map_filter (payout_in key kind) (tx_events r)"
  by (simp add: events_payouts_def map_filter_def)

lemma events_payouts_Nil [simp]: "events_payouts key kind [] = []"
  by (simp add: events_payouts_def map_filter_def)

lemma map_filter_push_record:
  "List.map_filter (payout_in key kind) (tx_events (push_record sig k e items)) =
    (if key = k \<and> kind = 0 then map (\<lambda>it. (it_wallet it, it_amount it)) items else [])"
  by (induction items) (simp_all add: push_record_def map_filter_def payout_event_def)

text \<open>
  One record about one epoch: only that epoch's account and payouts change, so its own conditions
  are all there is to check.
\<close>

lemma dist_inv_record:
  assumes inv: "dist_inv w3 prog c"
    and c': "ch_epochs c' = (ch_epochs c)(k \<mapsto> e')" "ch_log c' = ch_log c @ [r]"
    and only: "\<And>key kind. key \<noteq> k \<Longrightarrow> List.map_filter (payout_in key kind) (tx_events r) = []"
    and ps: "List.map_filter (payout_in k 0) (tx_events r) = ps" and cs: "List.map_filter (payout_in k 1) (tx_events r) = cs"
    and ok: "epoch_ok (Some e') (pushes k c @ ps) (claims k c @ cs)" "positive ps" "positive cs"
    and key: "k = fst (distributor_epoch w3 prog (ep_pool e') (ep_index e'))"
    and dist: "distinct (map fst cs)" "\<forall>w \<in> fst ` set cs. ch_claimed c (fst (distributor_claimed w3 prog k w)) = None"
    and cl: "\<forall>x. ch_claimed c x \<noteq> None \<longrightarrow> ch_claimed c' x \<noteq> None" "\<forall>w \<in> fst ` set cs. ch_claimed c' (fst (distributor_claimed w3 prog k w)) \<noteq> None"
  shows "dist_inv w3 prog c'"
proof -
  have other: "pushes key c' = pushes key c" "claims key c' = claims key c" if "key \<noteq> k" for key
    using only that by (simp_all add: c')
  have new: "pushes k c' = pushes k c @ ps" "claims k c' = claims k c @ cs" using ps cs by (simp_all add: c')
  have old: "epoch_ok (ch_epochs c key) (pushes key c) (claims key c)" "positive (pushes key c)" "positive (claims key c)"
      "distinct (map fst (claims key c))"
      "\<forall>w \<in> fst ` set (claims key c). ch_claimed c (fst (distributor_claimed w3 prog key w)) \<noteq> None"
      "\<And>e. ch_epochs c key = Some e \<Longrightarrow> key = fst (distributor_epoch w3 prog (ep_pool e) (ep_index e))" for key
    using inv unfolding dist_inv_def by blast+
  have "fst ` set (claims k c) \<inter> fst ` set cs = {}" using old(5) [of k] dist(2) by blast
  then have distinct: "distinct (map fst (claims k c'))" using new old(4) dist(1) by simp
  show ?thesis unfolding dist_inv_def
  proof (intro allI conjI)
    fix key
    show "epoch_ok (ch_epochs c' key) (pushes key c') (claims key c')"
      using other [of key] new old(1) ok(1) by (cases "key = k") (simp_all add: c'(1))
    show "positive (pushes key c')" "positive (claims key c')"
      using other [of key] new old(2,3) ok(2,3) by (cases "key = k"; simp)+
    show "distinct (map fst (claims key c'))" using distinct other [of key] old(4) by (cases "key = k") simp_all
    show "\<forall>w \<in> fst ` set (claims key c'). ch_claimed c' (fst (distributor_claimed w3 prog key w)) \<noteq> None"
    proof (cases "key = k")
      case True
      then show ?thesis using new(2) old(5) [of k] cl by (auto simp del: not_None_eq)
    next
      case False
      then show ?thesis using other(2) [OF False] old(5) [of key] cl(1) by (simp del: not_None_eq)
    qed
    fix e
    show "ch_epochs c' key = Some e \<longrightarrow> key = fst (distributor_epoch w3 prog (ep_pool e) (ep_index e))"
      using old(6) [of key e] key by (simp add: c'(1))
  qed
qed

lemma dist_inv_epoch:
  assumes "dist_inv w3 prog c" "ch_epochs c k = Some e"
  shows "ep_pushed_amount e = ledger_sum (pushes k c)" "ep_claimed_amount e = ledger_sum (claims k c)"
    "ep_claimed_amount e \<le> ep_merkle_total e" "ep_pushed_amount e + ep_merkle_total e \<le> ep_total_amount e"
    "\<not> ep_finalized e \<Longrightarrow> ep_merkle_total e = 0 \<and> claims k c = []"
    "k = fst (distributor_epoch w3 prog (ep_pool e) (ep_index e))"
    "positive (pushes k c)" "positive (claims k c)"
proof -
  have "epoch_ok (Some e) (pushes k c) (claims k c)" using assms unfolding dist_inv_def by metis
  then show "ep_pushed_amount e = ledger_sum (pushes k c)" "ep_claimed_amount e = ledger_sum (claims k c)"
    "ep_claimed_amount e \<le> ep_merkle_total e" "ep_pushed_amount e + ep_merkle_total e \<le> ep_total_amount e"
    "\<not> ep_finalized e \<Longrightarrow> ep_merkle_total e = 0 \<and> claims k c = []" by (simp_all add: epoch_ok_def)
  show "k = fst (distributor_epoch w3 prog (ep_pool e) (ep_index e))" "positive (pushes k c)" "positive (claims k c)"
    using assms unfolding dist_inv_def by blast+
qed

lemma dist_inv_open:
  assumes "dist_inv w3 prog c" "open_epoch w3 xf prog sig a args c = Inr c'"
  shows "dist_inv w3 prog c'"
proof -
  obtain m where o: "ch_epochs c (oa_epoch a) = None" "0 < oe_total_amount args"
    "oa_epoch a = fst (distributor_epoch w3 prog (oe_pool args) (oe_index args))"
    and c': "c' = c\<lparr>ch_accounts := m, ch_epochs := (ch_epochs c)(oa_epoch a \<mapsto> new_epoch args (oa_coin_mint a)),
       ch_log := ch_log c @ [\<lparr>tx_sig = sig, tx_epoch = oa_epoch a,
         tx_events = [EpochOpened (oe_pool args) (oe_index args) (oe_total_amount args) (oe_eligible_holders args)]\<rparr>]\<rparr>"
    using assms(2) by (rule open_epoch_Inr)
  have "epoch_ok None (pushes (oa_epoch a) c) (claims (oa_epoch a) c)" using assms(1) o(1) unfolding dist_inv_def by metis
  then have none: "pushes (oa_epoch a) c = []" "claims (oa_epoch a) c = []" by (simp_all add: epoch_ok_def)
  show ?thesis
    by (rule dist_inv_record [OF assms(1), where k = "oa_epoch a" and e' = "new_epoch args (oa_coin_mint a)" and ps = "[]" and cs = "[]"])
      (use none o in \<open>auto simp: c' map_filter_def epoch_ok_def new_epoch_def positive_def\<close>)
qed

lemma dist_inv_push:
  assumes "dist_inv w3 prog c" "push_payouts w3 xf prog sig a items c = Inr c'"
  shows "dist_inv w3 prog c'"
proof -
  obtain cfg e m where p: "ch_dist c = Some cfg" "ch_epochs c (pa_epoch a) = Some e" "\<not> ep_finalized e"
    "\<forall>it \<in> set items. 0 < it_amount it" "ep_pushed_amount e + sum_list (map it_amount items) \<le> ep_total_amount e"
    and c': "c' = c\<lparr>ch_accounts := m,
       ch_epochs := (ch_epochs c)(pa_epoch a \<mapsto> e\<lparr>ep_pushed_amount := ep_pushed_amount e + sum_list (map it_amount items)\<rparr>),
       ch_log := ch_log c @ [push_record sig (pa_epoch a) e items]\<rparr>"
    using assms(2) by (rule push_payouts_Inr)
  note inv = dist_inv_epoch [OF assms(1) p(2)]
  let ?ps = "map (\<lambda>it. (it_wallet it, it_amount it)) items"
  have s: "ledger_sum ?ps = sum_list (map it_amount items)" by (simp add: ledger_sum_def comp_def)
  show ?thesis
    by (rule dist_inv_record [OF assms(1), where k = "pa_epoch a" and ps = ?ps and cs = "[]"
          and e' = "e\<lparr>ep_pushed_amount := ep_pushed_amount e + sum_list (map it_amount items)\<rparr>"])
      (use inv p s in \<open>auto simp: c' map_filter_push_record epoch_ok_def positive_def\<close>)
qed

lemma dist_inv_finalize:
  assumes "dist_inv w3 prog c" "finalize_epoch w3 prog sig keeper key root t c = Inr c'" "0 \<le> t"
  shows "dist_inv w3 prog c'"
proof -
  obtain e where f: "ch_epochs c key = Some e" "\<not> ep_finalized e" "t \<le> ep_total_amount e - ep_pushed_amount e"
    and c': "c' = c\<lparr>ch_epochs := (ch_epochs c)(key \<mapsto> e\<lparr>ep_merkle_root := root, ep_merkle_total := t, ep_finalized := True\<rparr>),
       ch_log := ch_log c @ [\<lparr>tx_sig = sig, tx_epoch = key,
         tx_events = [EpochFinalized (ep_pool e) (ep_index e) root (ep_total_amount e - ep_pushed_amount e)]\<rparr>]\<rparr>"
    using assms(2) by (rule finalize_epoch_Inr)
  note inv = dist_inv_epoch [OF assms(1) f(1)]
  show ?thesis
    by (rule dist_inv_record [OF assms(1), where k = key and ps = "[]" and cs = "[]"
          and e' = "e\<lparr>ep_merkle_root := root, ep_merkle_total := t, ep_finalized := True\<rparr>"])
      (use inv f assms(3) in \<open>auto simp: c' map_filter_def epoch_ok_def positive_def\<close>)
qed

lemma dist_inv_claim:
  assumes "dist_inv w3 prog c" "claim w3 xf hashv prog sig a amount nodes c = Inr c'"
  shows "dist_inv w3 prog c'"
proof -
  obtain e m where p: "ch_epochs c (ca_epoch a) = Some e" "ep_finalized e" "0 < amount"
    "ca_claimed a = fst (distributor_claimed w3 prog (ca_epoch a) (ca_wallet a))" "ch_claimed c (ca_claimed a) = None"
    "ep_claimed_amount e + amount \<le> ep_merkle_total e"
    and c': "c' = c\<lparr>ch_accounts := m, ch_epochs := (ch_epochs c)(ca_epoch a \<mapsto> e\<lparr>ep_claimed_amount := ep_claimed_amount e + amount\<rparr>),
       ch_claimed := (ch_claimed c)(ca_claimed a \<mapsto> \<lparr>cl_epoch = ca_epoch a, cl_wallet = ca_wallet a, cl_amount = amount\<rparr>),
       ch_log := ch_log c @ [\<lparr>tx_sig = sig, tx_epoch = ca_epoch a, tx_events = [payout_event (ca_epoch a) e 1 (ca_wallet a) amount]\<rparr>]\<rparr>"
    using assms(2) by (rule claim_Inr)
  note inv = dist_inv_epoch [OF assms(1) p(1)]
  show ?thesis
    by (rule dist_inv_record [OF assms(1), where k = "ca_epoch a" and ps = "[]" and cs = "[(ca_wallet a, amount)]"
          and e' = "e\<lparr>ep_claimed_amount := ep_claimed_amount e + amount\<rparr>"])
      (use inv p in \<open>auto simp: c' map_filter_def payout_event_def epoch_ok_def positive_def\<close>)
qed

lemma dist_inv_sweep:
  assumes "dist_inv w3 prog c" "sweep_unclaimed w3 xf prog sig admin key mint vault treasury tp c = Inr c'"
  shows "dist_inv w3 prog c'"
proof -
  obtain e m where p: "ch_epochs c key = Some e"
    and c': "c' = c\<lparr>ch_accounts := m, ch_epochs := (ch_epochs c)(key \<mapsto> e\<lparr>ep_finalized := True\<rparr>),
       ch_log := ch_log c @ [\<lparr>tx_sig = sig, tx_epoch = key,
         tx_events = [EpochSwept (ep_pool e) (ep_index e) (vault_balance (ch_accounts c) vault) treasury]\<rparr>]\<rparr>"
    using assms(2) by (rule sweep_unclaimed_Inr)
  note inv = dist_inv_epoch [OF assms(1) p]
  show ?thesis
    by (rule dist_inv_record [OF assms(1), where k = key and e' = "e\<lparr>ep_finalized := True\<rparr>" and ps = "[]" and cs = "[]"])
      (use inv p in \<open>auto simp: c' map_filter_def epoch_ok_def positive_def\<close>)
qed

lemma dist_inv_admin:
  "dist_inv w3 prog c \<Longrightarrow> dist_inv w3 prog (c\<lparr>ch_dist := d\<rparr>)"
  by (simp add: dist_inv_def)

lemma dist_inv_exec:
  assumes "dist_inv w3 prog c" "dist_exec w3 xf hashv prog sig ix c = Inr c'"
  shows "dist_inv w3 prog c'"
proof -
  have run: "dist_run w3 xf hashv prog sig ix c = Inr c'" and am: "list_all in_u64 (ix_amounts ix)"
    using assms(2) by (auto simp: dist_exec_def result_simps)
  show ?thesis
  proof (cases ix)
    case (FinalizeEpoch keeper key root t)
    then show ?thesis using run am assms(1) by (auto simp: in_u64_def intro: dist_inv_finalize)
  qed (use run assms(1) in \<open>auto simp: initialize_def set_keepers_def set_params_def result_simps
        intro: dist_inv_open dist_inv_push dist_inv_claim dist_inv_sweep dist_inv_admin\<close>)
qed

lemma dist_inv_cong:
  "ch_epochs c' = ch_epochs c \<Longrightarrow> ch_claimed c' = ch_claimed c \<Longrightarrow> ch_log c' = ch_log c \<Longrightarrow>
    dist_inv w3 prog c' = dist_inv w3 prog c"
  unfolding dist_inv_def by (simp only:)

lemma dist_inv_step: "dist_step w3 xf hashv prog c c' \<Longrightarrow> dist_inv w3 prog c \<Longrightarrow> dist_inv w3 prog c'"
proof (erule dist_stepE)
  fix sig ix
  assume "dist_inv w3 prog c" "dist_exec w3 xf hashv prog sig ix c = Inr c'"
  then show ?thesis by (rule dist_inv_exec)
next
  fix t m r ps
  assume inv: "dist_inv w3 prog c" and "c' = c\<lparr>ch_clock := t, ch_accounts := m, ch_router := r, ch_router_pools := ps\<rparr>"
  then have "dist_inv w3 prog c' = dist_inv w3 prog c" by (intro dist_inv_cong) simp_all
  then show ?thesis using inv by simp
qed

lemma dist_inv_start:
  assumes "ch_epochs c = Map.empty" "ch_log c = []"
  shows "dist_inv w3 prog c"
proof -
  have "pushes key c = []" "claims key c = []" "ch_epochs c key = None" for key using assms by simp_all
  then show ?thesis unfolding dist_inv_def by (simp add: epoch_ok_def positive_def)
qed

lemma dist_reachable_inv: "dist_reachable w3 xf hashv prog c \<Longrightarrow> dist_inv w3 prog c"
  by (induction rule: dist_reachable.induct) (auto intro: dist_inv_start dist_inv_step)

section \<open>Properties\<close>

text \<open>
  C4: on every reachable chain an epoch pays out no more than it was funded with: what was pushed
  and what was claimed are exactly its payout events, together at most its total; no wallet claims
  twice; an epoch that was never opened has paid nobody.
\<close>

theorem epochs_never_overpay:
  assumes "dist_reachable w3 xf hashv prog c"
  shows "case ch_epochs c key of
      None \<Rightarrow> pushes key c = [] \<and> claims key c = []
    | Some e \<Rightarrow> ep_pushed_amount e = ledger_sum (pushes key c) \<and> ep_claimed_amount e = ledger_sum (claims key c) \<and>
        0 \<le> ep_pushed_amount e \<and> 0 \<le> ep_claimed_amount e \<and>
        ep_pushed_amount e + ep_claimed_amount e \<le> ep_total_amount e \<and> distinct (map fst (claims key c))"
proof -
  have "dist_inv w3 prog c" using assms by (rule dist_reachable_inv)
  then have "epoch_ok (ch_epochs c key) (pushes key c) (claims key c)" "positive (pushes key c)" "positive (claims key c)"
    "distinct (map fst (claims key c))" unfolding dist_inv_def by blast+
  then show ?thesis using ledger_sum_nonneg [of "pushes key c"] ledger_sum_nonneg [of "claims key c"]
    by (auto simp: epoch_ok_def split: option.splits)
qed

text \<open>
  C14: a claim pays a leaf.  On an epoch finalised with the root of a tree built by the SDK, a
  successful claim is by a wallet of the tree, for exactly its amount, and the wallet had not claimed
  before; a second claim of the same wallet fails.
\<close>

theorem claim_pays_exact_leaf:
  assumes "dist_inv w3 prog c" "claim w3 xf hashv prog sig a amount nodes c = Inr c'"
    and "\<forall>xs. hashv xs = spec_keccak256 (concat xs)"
    and "buildEpochTree (RawKey (ca_epoch a)) entries = Inr t" "keyBytes (RawKey (ca_epoch a)) = Inr key"
    and "map_option ep_merkle_root (ch_epochs c (ca_epoch a)) = Some (t_root t)"
    and "length (ca_wallet a) = 32" "in_u64 amount" "\<forall>p \<in> set nodes. length p = 32"
    and "inj_on keccak256 (set (hashed_inputs key (t_entries t) (ca_wallet a, amount) nodes))"
  shows "(ca_wallet a, amount) \<in> set (t_entries t) \<and> ca_wallet a \<notin> fst ` set (claims (ca_epoch a) c) \<and>
    claims (ca_epoch a) c' = claims (ca_epoch a) c @ [(ca_wallet a, amount)] \<and>
    (\<forall>sig' amount' nodes'. \<nexists>c''. claim w3 xf hashv prog sig' a amount' nodes' c' = Inr c'')"
proof -
  obtain e m where p: "ch_epochs c (ca_epoch a) = Some e"
    "ca_claimed a = fst (distributor_claimed w3 prog (ca_epoch a) (ca_wallet a))" "ch_claimed c (ca_claimed a) = None"
    "rs_verify hashv nodes (ep_merkle_root e) (rs_leaf hashv (ca_epoch a) (ca_wallet a) amount)"
    and c': "c' = c\<lparr>ch_accounts := m, ch_epochs := (ch_epochs c)(ca_epoch a \<mapsto> e\<lparr>ep_claimed_amount := ep_claimed_amount e + amount\<rparr>),
       ch_claimed := (ch_claimed c)(ca_claimed a \<mapsto> \<lparr>cl_epoch = ca_epoch a, cl_wallet = ca_wallet a, cl_amount = amount\<rparr>),
       ch_log := ch_log c @ [\<lparr>tx_sig = sig, tx_epoch = ca_epoch a, tx_events = [payout_event (ca_epoch a) e 1 (ca_wallet a) amount]\<rparr>]\<rparr>"
    using assms(2) by (rule claim_Inr)
  have key: "key = ca_epoch a" using assms(5) by (auto simp: keyBytes_def Let_def split: if_splits)
  have "rs_verify hashv nodes (t_root t) (rs_leaf hashv key (ca_wallet a) amount)" using assms(6) p(1,4) key by simp
  then have leaf: "(ca_wallet a, amount) \<in> set (t_entries t)"
    by (rule accepted_leaf_in_tree [OF assms(3-5) assms(7-9) _ assms(10)])
  have "\<forall>w \<in> fst ` set (claims (ca_epoch a) c). ch_claimed c (fst (distributor_claimed w3 prog (ca_epoch a) w)) \<noteq> None"
    using assms(1) unfolding dist_inv_def by blast
  then have fresh: "ca_wallet a \<notin> fst ` set (claims (ca_epoch a) c)" using p(2,3) by auto
  have ev: "claims (ca_epoch a) c' = claims (ca_epoch a) c @ [(ca_wallet a, amount)]"
    by (simp add: c' map_filter_def payout_event_def)
  have "\<nexists>c''. claim w3 xf hashv prog sig' a amount' nodes' c' = Inr c''" for sig' amount' nodes'
    by (auto simp: c' elim!: claim_Inr)
  then show ?thesis using leaf fresh ev by blast
qed

text \<open>
  C15: no leaf is starved.  On an epoch finalised with the SDK's tree, whose claims so far are leaves
  of it, every wallet that has not claimed can: the proof the SDK gives it makes the claim succeed
  while claims are open, the accounts fit and the token program carries out the transfer.
\<close>

theorem leaf_can_be_claimed:
  assumes "dist_inv w3 prog c" "ch_epochs c (ca_epoch a) = Some e" "ep_finalized e"
    and "\<forall>xs. hashv xs = spec_keccak256 (concat xs)"
    and "buildEpochTree (RawKey (ca_epoch a)) entries = Inr t" "keyBytes (RawKey (ca_epoch a)) = Inr key"
    and "ep_merkle_root e = t_root t" "ep_merkle_total e = t_total t" "in_u64 (ep_merkle_total e)"
    and "length (t_entries t) \<le> 2 ^ 32" "positive (t_entries t)"
    and "set (claims (ca_epoch a) c) \<subseteq> set (t_entries t)" "(ca_wallet a, amount) \<in> set (t_entries t)"
    and "ca_claimed a = fst (distributor_claimed w3 prog (ca_epoch a) (ca_wallet a))" "ch_claimed c (ca_claimed a) = None"
    and "ch_dist c = Some cfg" "\<not> di_paused cfg" "ch_clock c \<le> saturating_i64 (ep_end_ts e + SWEEP_DELAY_SECS)"
    and "ep_coin_mint e = ca_coin_mint a"
    and "check_vault w3 (ca_epoch_vault a) (ca_coin_mint a) (ca_epoch a) (ca_token_program a) c = Inr ()"
    and "ca_wallet_ata a = ata w3 (ca_coin_mint a) (ca_wallet a) (ca_token_program a)"
    and "ensure_vault (ca_wallet_ata a) (ca_coin_mint a) (ca_wallet a) (ca_token_program a) (ch_accounts c) = Inr m0"
    and "xf (ca_epoch_vault a) (ca_wallet_ata a) (ca_coin_mint a) (ca_epoch a) amount m0 = Inr m1"
  shows "\<exists>i nodes c'. getProofForWallet t (RawKey (ca_wallet a)) = Inr (i, amount, nodes) \<and>
    claim w3 xf hashv prog sig a amount nodes c = Inr c' \<and> (ca_wallet a, amount) \<in> set (claims (ca_epoch a) c')"
proof -
  have key: "key = ca_epoch a" using assms(6) by (auto simp: keyBytes_def Let_def split: if_splits)
  note tree = buildEpochTree_Inr [OF assms(5,6)] and inv = dist_inv_epoch [OF assms(1,2)]
  obtain i nodes where pf: "getProofForWallet t (RawKey (ca_wallet a)) = Inr (i, amount, nodes)"
    "rs_verify hashv nodes (t_root t) (rs_leaf hashv key (ca_wallet a) amount)" "2 ^ length nodes < 2 * length (t_entries t)"
    using accepted_proof_exists [OF assms(4-6) assms(13)] by blast
  have "2 ^ length nodes < (2::nat) ^ 33" using pf(3) assms(10) by simp
  then have depth: "length nodes \<le> MAX_PROOF_LEN" unfolding MAX_PROOF_LEN_def
    using power_less_imp_less_exp [of "2::nat" "length nodes" 33] by simp
  have "distinct (map fst (claims (ca_epoch a) c))"
    "\<forall>w \<in> fst ` set (claims (ca_epoch a) c). ch_claimed c (fst (distributor_claimed w3 prog (ca_epoch a) w)) \<noteq> None"
    using assms(1) unfolding dist_inv_def by blast+
  then have "distinct (map fst ((ca_wallet a, amount) # claims (ca_epoch a) c))" using assms(14,15) by auto
  moreover have "set ((ca_wallet a, amount) # claims (ca_epoch a) c) \<subseteq> set (t_entries t)" using assms(12,13) by simp
  ultimately have "ledger_sum ((ca_wallet a, amount) # claims (ca_epoch a) c) \<le> ledger_sum (t_entries t)"
    by (intro sub_ledger(1) [OF tree(3) _ _ assms(11)])
  then have room: "ep_claimed_amount e + amount \<le> ep_merkle_total e"
    using assms(8) tree(7) inv(2) by (simp add: ledger_sum_def)
  have pos: "0 < amount" using assms(11,13) by (auto simp: positive_def)
  have u64: "in_u64 (ep_claimed_amount e + amount)"
    using room pos assms(9) inv(2) ledger_sum_nonneg [OF inv(8)] by (simp add: in_u64_def)
  have "load_epoch w3 prog (ca_epoch a) c = Inr e" using assms(2) inv(6) by (simp add: load_epoch_def some_or_def require_def)
  then have "\<exists>c'. claim w3 xf hashv prog sig a amount nodes c = Inr c'"
    using assms pf(2) depth room pos u64 key
    by (simp add: claim_def some_or_def require_def checked_u64_def)
  then obtain c' where c': "claim w3 xf hashv prog sig a amount nodes c = Inr c'" by blast
  then have "(ca_wallet a, amount) \<in> set (claims (ca_epoch a) c')"
    by (elim claim_Inr) (simp add: map_filter_def payout_event_def)
  then show ?thesis using pf(1) c' by blast
qed

section \<open>Witnesses\<close>

text \<open>
  A derivation with 32-byte addresses, a token program that moves balances, and a chain on which the
  admin \<open>[1]\<close> funds an epoch directly from its own account \<open>[20]\<close>.
\<close>

definition demo_web3 :: web3 where
  "demo_web3 = \<lparr>w3_find = (\<lambda>s p. (take 32 (rev (concat s) @ replicate 32 0), 255)), w3_key = (\<lambda>s. None), w3_text = (\<lambda>b. [])\<rparr>"

definition demo_transfer :: transfer_checked where
  "demo_transfer src dst mint authority amount m = (case (m src, m dst) of
     (Some s, Some d) \<Rightarrow> (case (ac_token s, ac_token d) of
        (Some ts, Some td) \<Rightarrow> if ta_amount ts < amount then Inl ''insufficient funds'' else
          Inr (m(src \<mapsto> s\<lparr>ac_token := Some (ts\<lparr>ta_amount := ta_amount ts - amount\<rparr>)\<rparr>,
                 dst \<mapsto> d\<lparr>ac_token := Some (td\<lparr>ta_amount := ta_amount td + amount\<rparr>)\<rparr>))
      | _ \<Rightarrow> Inl ''invalid account'')
   | _ \<Rightarrow> Inl ''invalid account'')"

definition demo_epoch_key :: bytes where
  "demo_epoch_key = fst (distributor_epoch demo_web3 [7] (replicate 32 5) 0)"

definition demo_vault :: bytes where
  "demo_vault = ata demo_web3 [3] demo_epoch_key [6]"

definition demo_token :: "bytes \<Rightarrow> int \<Rightarrow> account" where
  "demo_token own n = \<lparr>ac_program = [6], ac_token = Some \<lparr>ta_mint = [3], ta_owner = own, ta_amount = n\<rparr>\<rparr>"

definition demo_dist :: DistConfig where
  "demo_dist = \<lparr>di_admin = [1], di_keepers = [], di_fee_router = [8], di_max_push_per_epoch_bps = 10000, di_paused = False\<rparr>"

definition demo_chain :: "accounts \<Rightarrow> (bytes \<Rightarrow> Epoch option) \<Rightarrow> tx_record list \<Rightarrow> dist_chain" where
  "demo_chain m es log = \<lparr>ch_clock = 1000, ch_dist = Some demo_dist, ch_epochs = es, ch_claimed = Map.empty,
     ch_accounts = m, ch_router = \<lparr>rs_paused = False, rs_distributor_program = [7]\<rparr>,
     ch_router_pools = Map.empty, ch_log = log\<rparr>"

lemma length_demo_keys [simp]: "length demo_epoch_key = 32" "length demo_vault = 32"
  by (simp_all add: demo_epoch_key_def demo_vault_def distributor_epoch_def ata_def demo_web3_def)

lemma demo_keys_neq [simp]: "demo_vault \<noteq> [20]" "[20] \<noteq> demo_vault"
proof -
  have "length demo_vault \<noteq> length [20 :: byte]" by simp
  then show "demo_vault \<noteq> [20]" "[20] \<noteq> demo_vault" by metis+
qed

definition demo_open_accounts :: OpenEpochAccounts where
  "demo_open_accounts = \<lparr>oa_keeper = [1], oa_epoch = demo_epoch_key, oa_coin_mint = [3], oa_epoch_vault = demo_vault,
     oa_source_vault = [20], oa_source_authority = [1], oa_source_signs = True, oa_token_program = [6], oa_remaining = []\<rparr>"

definition demo_open_args :: OpenEpochArgs where
  "demo_open_args = \<lparr>oe_pool = replicate 32 5, oe_index = 0, oe_start_ts = 100, oe_end_ts = 900, oe_total_amount = 400,
     oe_eligible_holders = 1, oe_twab_total = 1\<rparr>"

lemma demo_open:
  "\<exists>c'. dist_exec demo_web3 demo_transfer hashv [7] ''s1'' (OpenEpoch demo_open_accounts demo_open_args)
      (demo_chain [[20] \<mapsto> demo_token [1] 500] Map.empty []) = Inr c' \<and>
    ch_epochs c' demo_epoch_key = Some (new_epoch demo_open_args [3])"
  by (simp add: dist_exec_def require_def in_u64_def u64_max_def open_epoch_def demo_open_accounts_def demo_open_args_def
      demo_chain_def some_or_def demo_epoch_key_def [symmetric] demo_vault_def [symmetric] ensure_vault_def demo_dist_def
      is_admin_or_keeper_def saturating_i64_def MAX_EPOCH_AGE_SECS_def fund_epoch_def token_at_def demo_token_def
      demo_transfer_def vault_balance_def)

lemma epochs_never_overpay_witness:
  "\<exists>c e. dist_reachable demo_web3 demo_transfer (\<lambda>xs. spec_keccak256 (concat xs)) [7] c \<and>
    ch_epochs c demo_epoch_key = Some e \<and> ep_pushed_amount e + ep_claimed_amount e \<le> ep_total_amount e"
proof -
  let ?c = "demo_chain [[20] \<mapsto> demo_token [1] 500] Map.empty []" and ?h = "\<lambda>xs. spec_keccak256 (concat xs)"
  obtain c' where c': "dist_exec demo_web3 demo_transfer ?h [7] ''s1'' (OpenEpoch demo_open_accounts demo_open_args) ?c = Inr c'"
    "ch_epochs c' demo_epoch_key = Some (new_epoch demo_open_args [3])" using demo_open [of ?h] by blast
  have "dist_reachable demo_web3 demo_transfer ?h [7] ?c" by (rule dist_reachable.start) (simp_all add: demo_chain_def)
  then have r: "dist_reachable demo_web3 demo_transfer ?h [7] c'"
    by (rule dist_reachable.step) (rule dist_step.run [OF c'(1)])
  show ?thesis using epochs_never_overpay [OF r, of demo_epoch_key] c'(2) r by auto
qed

text \<open>A finalised epoch with one leaf.\<close>

definition demo_final :: "bytes \<Rightarrow> Epoch" where
  "demo_final root = \<lparr>ep_pool = replicate 32 5, ep_index = 0, ep_coin_mint = [3], ep_start_ts = 100, ep_end_ts = 900,
     ep_total_amount = 100, ep_pushed_amount = 0, ep_merkle_root = root, ep_merkle_total = 100, ep_claimed_amount = 0,
     ep_eligible_holders = 1, ep_twab_total = 1, ep_finalized = True\<rparr>"

definition final_chain :: "bytes \<Rightarrow> dist_chain" where
  "final_chain root = demo_chain [demo_vault \<mapsto> demo_token demo_epoch_key 100] [demo_epoch_key \<mapsto> demo_final root] []"

definition demo_wallet :: bytes where
  "demo_wallet = replicate 32 1"

definition demo_claim :: ClaimAccounts where
  "demo_claim = \<lparr>ca_wallet = demo_wallet, ca_epoch = demo_epoch_key,
     ca_claimed = fst (distributor_claimed demo_web3 [7] demo_epoch_key demo_wallet), ca_coin_mint = [3],
     ca_epoch_vault = demo_vault, ca_wallet_ata = ata demo_web3 [3] demo_wallet [6], ca_token_program = [6]\<rparr>"

lemma final_chain_inv: "dist_inv demo_web3 [7] (final_chain root)"
proof -
  have "pushes key (final_chain root) = []" "claims key (final_chain root) = []" for key
    by (simp_all add: final_chain_def demo_chain_def)
  moreover have "ch_epochs (final_chain root) key = (if key = demo_epoch_key then Some (demo_final root) else None)" for key
    by (simp add: final_chain_def demo_chain_def)
  ultimately show ?thesis
    by (simp add: dist_inv_def epoch_ok_def positive_def demo_final_def demo_epoch_key_def)
qed

definition demo_leaf_entries :: "MerkleEntry list" where
  "demo_leaf_entries = [\<lparr>me_wallet = RawKey demo_wallet, me_amount = BigAmount 100\<rparr>]"

lemma demo_leaf_tree:
  "\<exists>t. buildEpochTree (RawKey demo_epoch_key) demo_leaf_entries = Inr t \<and> t_entries t = [(demo_wallet, 100)] \<and>
    keyBytes (RawKey demo_epoch_key) = Inr demo_epoch_key"
proof -
  have key: "keyBytes (RawKey demo_epoch_key) = Inr demo_epoch_key" by (simp add: keyBytes_def)
  then show ?thesis
    using buildEpochTree_succeeds [of demo_leaf_entries "[(demo_wallet, 100)]", OF _ _ _ key]
    by (auto simp: demo_leaf_entries_def norm_entry_def keyBytes_def amountU64_def demo_wallet_def)
qed

lemma demo_ata_neq: "demo_vault \<noteq> ata demo_web3 [3] demo_wallet [6]"
proof -
  have "demo_vault ! 2 = 5" "ata demo_web3 [3] demo_wallet [6] ! 2 = 1"
    by (simp_all add: demo_vault_def ata_def demo_web3_def demo_epoch_key_def distributor_epoch_def u32LE_def
        demo_wallet_def rev_append nth_append)
  then show ?thesis by auto
qed

lemma demo_vault_checks:
  "check_vault demo_web3 demo_vault [3] demo_epoch_key [6] (final_chain root) = Inr ()"
  "\<exists>m0 m1. ensure_vault (ata demo_web3 [3] demo_wallet [6]) [3] demo_wallet [6] (ch_accounts (final_chain root)) = Inr m0 \<and>
     demo_transfer demo_vault (ata demo_web3 [3] demo_wallet [6]) [3] demo_epoch_key 100 m0 = Inr m1"
  using demo_ata_neq
  by (auto simp: check_vault_def require_def some_or_def token_at_def final_chain_def demo_chain_def demo_token_def
      demo_vault_def [symmetric] ensure_vault_def demo_transfer_def)

lemma claim_pays_exact_leaf_witness:
  "\<exists>t c'. buildEpochTree (RawKey demo_epoch_key) demo_leaf_entries = Inr t \<and>
    claim demo_web3 demo_transfer (\<lambda>xs. spec_keccak256 (concat xs)) [7] ''s2'' demo_claim 100 [] (final_chain (t_root t)) = Inr c' \<and>
    claims demo_epoch_key c' = [(demo_wallet, 100)]"
proof -
  let ?h = "\<lambda>xs. spec_keccak256 (concat xs)"
  obtain t where t: "buildEpochTree (RawKey demo_epoch_key) demo_leaf_entries = Inr t" "t_entries t = [(demo_wallet, 100)]"
    "keyBytes (RawKey demo_epoch_key) = Inr demo_epoch_key" using demo_leaf_tree by blast
  let ?c = "final_chain (t_root t)"
  have eq: "rs_leaf ?h demo_epoch_key demo_wallet 100 = keccak256 (leaf_input demo_epoch_key (demo_wallet, 100))"
    using rs_merkle_eq(1) [of ?h demo_epoch_key "(demo_wallet, 100)"] by simp
  have v: "rs_verify ?h [] (t_root t) (rs_leaf ?h demo_epoch_key demo_wallet 100)"
    using buildEpochTree_Inr(6) [OF t(1,3)] t(2) unfolding eq by (simp add: rs_verify_def)
  obtain m0 m1 where m: "ensure_vault (ata demo_web3 [3] demo_wallet [6]) [3] demo_wallet [6] (ch_accounts ?c) = Inr m0"
    "demo_transfer demo_vault (ata demo_web3 [3] demo_wallet [6]) [3] demo_epoch_key 100 m0 = Inr m1"
    using demo_vault_checks(2) by blast
  have facts: "ch_dist ?c = Some demo_dist" "ch_epochs ?c demo_epoch_key = Some (demo_final (t_root t))"
    "ch_claimed ?c = Map.empty" "ch_clock ?c = 1000" by (simp_all add: final_chain_def demo_chain_def)
  have "\<exists>c'. claim demo_web3 demo_transfer ?h [7] ''s2'' demo_claim 100 [] ?c = Inr c'"
    using v m demo_vault_checks(1) [of "t_root t"] unfolding claim_def facts
    by (simp add: demo_claim_def some_or_def require_def load_epoch_def facts demo_final_def demo_epoch_key_def [symmetric]
        demo_dist_def MAX_PROOF_LEN_def saturating_i64_def SWEEP_DELAY_SECS_def checked_u64_def in_u64_def u64_max_def)
  then obtain c' where c': "claim demo_web3 demo_transfer ?h [7] ''s2'' demo_claim 100 [] ?c = Inr c'" by blast
  have "claims (ca_epoch demo_claim) c' = claims (ca_epoch demo_claim) ?c @ [(ca_wallet demo_claim, 100)]"
    using claim_pays_exact_leaf [OF final_chain_inv c', of demo_leaf_entries t demo_epoch_key] t facts
    by (simp add: demo_claim_def demo_final_def demo_wallet_def in_u64_def u64_max_def hashed_inputs_def tree_inputs.simps)
  then have "claims demo_epoch_key c' = [(demo_wallet, 100)]" by (simp add: demo_claim_def final_chain_def demo_chain_def)
  then show ?thesis using t(1) c' by blast
qed

lemma leaf_can_be_claimed_witness:
  "\<exists>t nodes c'. buildEpochTree (RawKey demo_epoch_key) demo_leaf_entries = Inr t \<and>
    claim demo_web3 demo_transfer (\<lambda>xs. spec_keccak256 (concat xs)) [7] ''s2'' demo_claim 100 nodes (final_chain (t_root t)) = Inr c'"
proof -
  let ?h = "\<lambda>xs. spec_keccak256 (concat xs)"
  obtain t where t: "buildEpochTree (RawKey demo_epoch_key) demo_leaf_entries = Inr t" "t_entries t = [(demo_wallet, 100)]"
    "keyBytes (RawKey demo_epoch_key) = Inr demo_epoch_key" using demo_leaf_tree by blast
  let ?c = "final_chain (t_root t)"
  obtain m0 m1 where m: "ensure_vault (ata demo_web3 [3] demo_wallet [6]) [3] demo_wallet [6] (ch_accounts ?c) = Inr m0"
    "demo_transfer demo_vault (ata demo_web3 [3] demo_wallet [6]) [3] demo_epoch_key 100 m0 = Inr m1"
    using demo_vault_checks(2) by blast
  have facts: "ch_dist ?c = Some demo_dist" "ch_epochs ?c demo_epoch_key = Some (demo_final (t_root t))"
    "ch_claimed ?c = Map.empty" "ch_clock ?c = 1000" "ch_log ?c = []" by (simp_all add: final_chain_def demo_chain_def)
  have total: "t_total t = 100" using buildEpochTree_Inr(7) [OF t(1,3)] t(2) by simp
  obtain i nodes c' where "claim demo_web3 demo_transfer ?h [7] ''s2'' demo_claim 100 nodes ?c = Inr c'"
    using leaf_can_be_claimed [OF final_chain_inv, of "t_root t" demo_claim "demo_final (t_root t)" ?h demo_leaf_entries t
        demo_epoch_key 100 demo_dist m0 demo_transfer m1 "''s2''"] t m facts total demo_vault_checks(1) [of "t_root t"]
    by (auto simp: demo_claim_def demo_final_def positive_def in_u64_def u64_max_def demo_dist_def saturating_i64_def
        SWEEP_DELAY_SECS_def)
  then show ?thesis using t(1) by blast
qed

end
