(* ===== verification/Twab.thy ===== *)
theory Twab
  imports Js_Number "HOL-Library.Multiset"
begin

text \<open>
  Time-weighted average balances and payout shares (\<^verbatim>\<open>packages/sdk/src/twab.ts\<close>).  Wallets are
  strings, balances BigInts, timestamps whole unix seconds (the \<^verbatim>\<open>INTEGER\<close> column \<open>ts\<close> of
  \<^verbatim>\<open>balance_events\<close>); the dollar threshold is a JavaScript number.  The reference definition of
  an average is the sum of the balance over every second of the window.
\<close>

section \<open>Model\<close>

record BalanceEvent =
  be_pool :: string
  be_wallet :: string
  be_delta :: int
  be_ts :: int

record TwabOptions =
  tw_start :: int
  tw_end :: int
  tw_exclude :: "string list option"

datatype twab_error =
    EmptyWindow int int
  | BadPrice int
  | NotAnInteger jsnum
  | NegativeExponent int

definition excluded :: "string list option \<Rightarrow> string \<Rightarrow> bool" where
  "excluded ex w = (case ex of None \<Rightarrow> False | Some ws \<Rightarrow> w \<in> set ws)"

text \<open>The first loop: events grouped by wallet, in order of arrival.\<close>

fun group_events ::
  "string list option \<Rightarrow> BalanceEvent list \<Rightarrow> (string, BalanceEvent list) jsmap \<Rightarrow> (string, BalanceEvent list) jsmap"
where
  "group_events ex [] m = m"
| "group_events ex (ev # evs) m = group_events ex evs
     (if excluded ex (be_wallet ev) then m
      else case map_of m (be_wallet ev) of
        None \<Rightarrow> AList.update (be_wallet ev) [ev] m
      | Some arr \<Rightarrow> AList.update (be_wallet ev) (arr @ [ev]) m)"

text \<open>The balance carried into the window: events before \<open>start\<close>, and what is left of the list.\<close>

fun carry_in :: "int \<Rightarrow> BalanceEvent list \<Rightarrow> int \<Rightarrow> BalanceEvent list \<times> int" where
  "carry_in start [] balance = ([], balance)"
| "carry_in start (ev # evs) balance =
     (if be_ts ev < start then carry_in start evs (balance + be_delta ev) else (ev # evs, balance))"

text \<open>The events inside the window: balance, cursor and weighted sum.\<close>

fun integrate :: "int \<Rightarrow> int \<Rightarrow> BalanceEvent list \<Rightarrow> int \<Rightarrow> int \<Rightarrow> int \<Rightarrow> int \<times> int \<times> int" where
  "integrate start end [] balance cursor weightedSum = (balance, cursor, weightedSum)"
| "integrate start end (ev # evs) balance cursor weightedSum =
     (if be_ts ev < end then
        let evTs = max (be_ts ev) start in
        if evTs > cursor
        then integrate start end evs (balance + be_delta ev) evTs (weightedSum + balance * (evTs - cursor))
        else integrate start end evs (balance + be_delta ev) cursor weightedSum
      else (balance, cursor, weightedSum))"

definition wallet_weight :: "int \<Rightarrow> int \<Rightarrow> BalanceEvent list \<Rightarrow> int" where
  "wallet_weight start end walletEvents =
     (let sorted = sort_key be_ts walletEvents;
          (rest, balance) = carry_in start sorted 0;
          (balance, cursor, weightedSum) = integrate start end rest balance start 0
      in if cursor < end then weightedSum + balance * (end - cursor) else weightedSum)"

fun twab_loop :: "int \<Rightarrow> int \<Rightarrow> (string, BalanceEvent list) jsmap \<Rightarrow> (string, int) jsmap \<Rightarrow> (string, int) jsmap" where
  "twab_loop start end [] result = result"
| "twab_loop start end ((wallet, walletEvents) # rest) result = twab_loop start end rest
     (let weightedSum = wallet_weight start end walletEvents
      in if weightedSum > 0 then AList.update wallet (weightedSum sdiv (end - start)) result else result)"

definition computeTwab :: "BalanceEvent list \<Rightarrow> TwabOptions \<Rightarrow> twab_error + (string, int) jsmap" where
  "computeTwab events opts =
     (if tw_end opts \<le> tw_start opts then Inl (EmptyWindow (tw_end opts) (tw_start opts))
      else Inr (twab_loop (tw_start opts) (tw_end opts) (group_events (tw_exclude opts) events []) []))"

text \<open>\<open>usdToCoinBaseUnits\<close>: the threshold in coin base units, at the precision of a cent.\<close>

definition usdToCoinBaseUnits :: "jsnum \<Rightarrow> int \<Rightarrow> int \<Rightarrow> twab_error + int" where
  "usdToCoinBaseUnits usd priceUsd8 coinDecimals =
     (if priceUsd8 \<le> 0 then Inl (BadPrice priceUsd8) else
      case bigint_of_num (jround (usd * Fin 100)) of
        None \<Rightarrow> Inl (NotAnInteger (jround (usd * Fin 100)))
      | Some usdCents \<Rightarrow>
          if coinDecimals < 0 then Inl (NegativeExponent coinDecimals)
          else Inr ((usdCents * 100000000 * 10 ^ nat coinDecimals) sdiv (100 * priceUsd8)))"

record ShareOptions =
  sh_minHoldingUsd :: jsnum
  sh_priceUsd8 :: int
  sh_coinDecimals :: int

text \<open>The share loop carries the shares, the sum distributed and the largest holder so far.\<close>

fun share_loop ::
  "int \<Rightarrow> int \<Rightarrow> (string \<times> int) list \<Rightarrow> (string, int) jsmap \<times> int \<times> string \<times> int
    \<Rightarrow> (string, int) jsmap \<times> int \<times> string \<times> int"
where
  "share_loop totalAmount twabTotal [] st = st"
| "share_loop totalAmount twabTotal ((wallet, bal) # rest) (shares, distributed, largestWallet, largestBal) =
     (let share = (totalAmount * bal) sdiv twabTotal
      in share_loop totalAmount twabTotal rest
           (AList.update wallet share shares, distributed + share,
            if bal > largestBal then wallet else largestWallet,
            if bal > largestBal then bal else largestBal))"

definition computeShares :: "(string, int) jsmap \<Rightarrow> int \<Rightarrow> ShareOptions \<Rightarrow> twab_error + (string, int) jsmap" where
  "computeShares twab totalAmount opts =
     sbind (usdToCoinBaseUnits (sh_minHoldingUsd opts) (sh_priceUsd8 opts) (sh_coinDecimals opts)) (\<lambda>minHoldingBase.
     let eligible = filter (\<lambda>(_, bal). bal \<ge> minHoldingBase) twab;
         twabTotal = fold (\<lambda>(_, bal) sum. sum + bal) eligible 0
     in if twabTotal = 0 \<or> eligible = [] then Inr []
        else let (shares, distributed, largestWallet, _) =
                   share_loop totalAmount twabTotal eligible ([], 0, fst (hd eligible), -1);
                 remainder = totalAmount - distributed
             in Inr (if remainder > 0
                     then AList.update largestWallet
                            ((case map_of shares largestWallet of None \<Rightarrow> 0 | Some v \<Rightarrow> v) + remainder) shares
                     else shares))"

section \<open>The reference average\<close>

text \<open>The balance of a wallet at second \<open>t\<close>, and its sum over the seconds of a window.\<close>

definition balance_at :: "BalanceEvent list \<Rightarrow> int \<Rightarrow> int" where
  "balance_at evs t = sum_list (map be_delta (filter (\<lambda>e. be_ts e \<le> t) evs))"

definition seconds_sum :: "(int \<Rightarrow> int) \<Rightarrow> int \<Rightarrow> int \<Rightarrow> int" where
  "seconds_sum f a b = sum_list (map f [a..b - 1])"

lemma seconds_sum_split: "a \<le> m \<Longrightarrow> m \<le> b \<Longrightarrow> seconds_sum f a b = seconds_sum f a m + seconds_sum f m b"
proof -
  assume "a \<le> m" "m \<le> b"
  then have "[a..b - 1] = [a..m - 1] @ [m..b - 1]"
    by (cases "m = b") (auto intro: upto_split1)
  then show ?thesis by (simp add: seconds_sum_def)
qed

lemma seconds_sum_const: "a \<le> b \<Longrightarrow> (\<And>t. a \<le> t \<Longrightarrow> t < b \<Longrightarrow> f t = c) \<Longrightarrow> seconds_sum f a b = c * (b - a)"
proof -
  assume "a \<le> b" and f: "\<And>t. a \<le> t \<Longrightarrow> t < b \<Longrightarrow> f t = c"
  have "map f [a..b - 1] = replicate (length [a..b - 1]) c"
    using f by (intro replicate_eqI) auto
  then show ?thesis using \<open>a \<le> b\<close> by (simp add: seconds_sum_def sum_list_replicate)
qed

lemma seconds_sum_cong: "(\<And>t. a \<le> t \<Longrightarrow> t < b \<Longrightarrow> f t = g t) \<Longrightarrow> seconds_sum f a b = seconds_sum g a b"
  unfolding seconds_sum_def by (intro arg_cong [where f = sum_list] map_cong) auto

lemma balance_at_mset: "mset evs = mset evs' \<Longrightarrow> balance_at evs t = balance_at evs' t"
proof -
  assume "mset evs = mset evs'"
  then have "mset (map be_delta (filter (\<lambda>e. be_ts e \<le> t) evs)) = mset (map be_delta (filter (\<lambda>e. be_ts e \<le> t) evs'))"
    by simp
  then show ?thesis unfolding balance_at_def by (metis sum_mset_sum_list)
qed

lemma balance_at_Cons: "balance_at (ev # evs) t = (if be_ts ev \<le> t then be_delta ev else 0) + balance_at evs t"
  by (simp add: balance_at_def)

lemma balance_at_before: "\<forall>e \<in> set evs. t < be_ts e \<Longrightarrow> balance_at evs t = 0"
  by (induction evs) (auto simp: balance_at_def)

text \<open>The carried balance and the remaining events, of a sorted list.\<close>

lemma carry_in_spec:
  assumes "sorted (map be_ts evs)" "carry_in start evs bal = (rest, bal')" "start \<le> t"
  shows "bal + balance_at evs t = bal' + balance_at rest t" "sorted (map be_ts rest)"
    "\<forall>e \<in> set rest. start \<le> be_ts e"
proof -
  have "bal + balance_at evs t = bal' + balance_at rest t \<and> sorted (map be_ts rest) \<and> (\<forall>e \<in> set rest. start \<le> be_ts e)"
    using assms
  proof (induction evs arbitrary: bal)
    case Nil
    then show ?case by simp
  next
    case (Cons ev evs)
    show ?case
    proof (cases "be_ts ev < start")
      case True
      then have "carry_in start evs (bal + be_delta ev) = (rest, bal')" using Cons.prems by simp
      then show ?thesis using Cons.IH [of "bal + be_delta ev"] Cons.prems True by (simp add: balance_at_Cons)
    next
      case False
      then show ?thesis using Cons.prems by force
    qed
  qed
  then show "bal + balance_at evs t = bal' + balance_at rest t" "sorted (map be_ts rest)"
    "\<forall>e \<in> set rest. start \<le> be_ts e" by auto
qed

text \<open>The loop computes the sum over the seconds from the cursor on.\<close>

lemma integrate_spec:
  assumes "sorted (map be_ts evs)" "\<forall>e \<in> set evs. cursor \<le> be_ts e" "start \<le> cursor" "cursor \<le> end"
    "integrate start end evs bal cursor ws = (bal', cursor', ws')"
  shows "ws' + bal' * (end - cursor') = ws + seconds_sum (\<lambda>t. bal + balance_at evs t) cursor end \<and> cursor' \<le> end"
  using assms
proof (induction evs arbitrary: bal cursor ws)
  case Nil
  then show ?case using seconds_sum_const [of cursor "end" "\<lambda>t. bal + balance_at [] t" bal] by (simp add: balance_at_def)
next
  case (Cons ev evs)
  show ?case
  proof (cases "be_ts ev < end")
    case False
    have "bal + balance_at (ev # evs) t = bal" if "t < end" for t
      using balance_at_before [of "ev # evs" t] Cons.prems(1) False that by force
    then have "seconds_sum (\<lambda>t. bal + balance_at (ev # evs) t) cursor end = bal * (end - cursor)"
      using Cons.prems(4) by (intro seconds_sum_const) auto
    then show ?thesis using Cons.prems(4,5) False by simp
  next
    case True
    let ?ts = "be_ts ev"
    have ts: "cursor \<le> ?ts" "max ?ts start = ?ts" "?ts \<le> end" using Cons.prems True by auto
    have run: "integrate start end evs (bal + be_delta ev) ?ts (ws + bal * (?ts - cursor)) = (bal', cursor', ws')"
      using Cons.prems(5) True ts by (cases "?ts > cursor") (auto simp: Let_def)
    have ih: "ws' + bal' * (end - cursor') = ws + bal * (?ts - cursor)
        + seconds_sum (\<lambda>t. bal + be_delta ev + balance_at evs t) ?ts end \<and> cursor' \<le> end"
      using Cons.prems ts by (intro Cons.IH run) auto
    have "bal + balance_at (ev # evs) t = bal" if "t < ?ts" for t
      using balance_at_before [of "ev # evs" t] Cons.prems(1) that by force
    then have "seconds_sum (\<lambda>t. bal + balance_at (ev # evs) t) cursor ?ts = bal * (?ts - cursor)"
      using ts by (intro seconds_sum_const) auto
    moreover have "seconds_sum (\<lambda>t. bal + balance_at (ev # evs) t) ?ts end
        = seconds_sum (\<lambda>t. bal + be_delta ev + balance_at evs t) ?ts end"
      by (intro seconds_sum_cong) (simp add: balance_at_Cons)
    ultimately show ?thesis
      using ih seconds_sum_split [of cursor ?ts "end" "\<lambda>t. bal + balance_at (ev # evs) t"] ts by simp
  qed
qed

lemma wallet_weight_spec:
  assumes "start < end"
  shows "wallet_weight start end evs = seconds_sum (balance_at evs) start end"
proof -
  let ?sorted = "sort_key be_ts evs"
  obtain rest bal where c: "carry_in start ?sorted 0 = (rest, bal)" by (cases "carry_in start ?sorted 0")
  obtain bal' cur ws where i: "integrate start end rest bal start 0 = (bal', cur, ws)"
    by (cases "integrate start end rest bal start 0") auto
  have srt: "sorted (map be_ts ?sorted)" by simp
  note cs = carry_in_spec [OF srt c]
  have "ws + bal' * (end - cur) = 0 + seconds_sum (\<lambda>t. bal + balance_at rest t) start end \<and> cur \<le> end"
    using cs(2,3) [OF order_refl] assms by (intro integrate_spec [OF _ _ _ _ i]) auto
  moreover have "seconds_sum (\<lambda>t. bal + balance_at rest t) start end = seconds_sum (balance_at evs) start end"
    using cs(1) balance_at_mset [of ?sorted evs] by (intro seconds_sum_cong) simp
  ultimately show ?thesis by (auto simp: wallet_weight_def c i)
qed


section \<open>Grouping\<close>

definition wallet_events :: "BalanceEvent list \<Rightarrow> string \<Rightarrow> BalanceEvent list" where
  "wallet_events evs w = filter (\<lambda>e. be_wallet e = w) evs"

lemma group_events_map_of:
  "map_of (group_events ex evs m) w =
    (if excluded ex w \<or> wallet_events evs w = [] then map_of m w
     else Some ((case map_of m w of None \<Rightarrow> [] | Some arr \<Rightarrow> arr) @ wallet_events evs w))"
proof (induction evs arbitrary: m)
  case Nil
  then show ?case by (simp add: wallet_events_def)
next
  case (Cons ev evs)
  show ?case
    by (cases "be_wallet ev = w"; cases "excluded ex w"; cases "map_of m (be_wallet ev)")
      (auto simp: Cons.IH wallet_events_def update_conv')
qed

lemma group_events_wf: "jsmap_wf m \<Longrightarrow> jsmap_wf (group_events ex evs m)"
  by (induction evs arbitrary: m) (auto simp: jsmap_wf_update split: option.splits)

lemma twab_loop_map_of:
  assumes "jsmap_wf m" "fst ` set m \<inter> fst ` set res = {}"
  shows "map_of (twab_loop start end m res) w = (case map_of m w of
      None \<Rightarrow> map_of res w
    | Some evs \<Rightarrow> if wallet_weight start end evs > 0
        then Some (wallet_weight start end evs sdiv (end - start)) else None)"
  using assms
proof (induction m arbitrary: res)
  case Nil
  then show ?case by simp
next
  case (Cons p m)
  obtain k evs where p: "p = (k, evs)" by (cases p)
  let ?ww = "wallet_weight start end evs"
  let ?res = "if ?ww > 0 then AList.update k (?ww sdiv (end - start)) res else res"
  have fresh: "k \<notin> fst ` set m" "fst ` set m \<inter> fst ` set res = {}" "map_of res k = None" "map_of m k = None"
    using Cons.prems by (auto simp: p map_of_eq_None_iff)
  have "fst ` set m \<inter> fst ` set ?res = {}" using fresh by (auto simp: dom_update [symmetric] dom_map_of_conv_image_fst [symmetric] update_conv')
  then have "map_of (twab_loop start end m ?res) w = (case map_of m w of None \<Rightarrow> map_of ?res w
      | Some evs \<Rightarrow> if wallet_weight start end evs > 0
        then Some (wallet_weight start end evs sdiv (end - start)) else None)"
    using Cons.prems by (intro Cons.IH) (auto simp: p)
  then show ?case using fresh by (auto simp: p Let_def update_conv' split: option.splits)
qed

lemma computeTwab_map_of:
  assumes "computeTwab events opts = Inr m"
  shows "map_of m w = (let I = seconds_sum (balance_at (wallet_events events w)) (tw_start opts) (tw_end opts)
     in if excluded (tw_exclude opts) w \<or> I \<le> 0 then None else Some (I div (tw_end opts - tw_start opts)))"
    and "tw_start opts < tw_end opts"
proof -
  show se: "tw_start opts < tw_end opts" using assms by (auto simp: computeTwab_def split: if_splits)
  have m: "m = twab_loop (tw_start opts) (tw_end opts) (group_events (tw_exclude opts) events []) []"
    using assms se by (simp add: computeTwab_def)
  have none: "seconds_sum (balance_at []) a b = 0" for a b
  proof -
    have "balance_at [] = (\<lambda>_. 0)" by (simp add: balance_at_def fun_eq_iff)
    then show ?thesis by (simp add: seconds_sum_def)
  qed
  show "map_of m w = (let I = seconds_sum (balance_at (wallet_events events w)) (tw_start opts) (tw_end opts)
     in if excluded (tw_exclude opts) w \<or> I \<le> 0 then None else Some (I div (tw_end opts - tw_start opts)))"
    unfolding m
    using se none by (subst twab_loop_map_of)
      (auto simp: group_events_wf group_events_map_of wallet_weight_spec Let_def)
qed

section \<open>Shares\<close>

lemma fold_add_sum: "fold (\<lambda>(_, bal) sum. sum + bal) xs (a::int) = a + sum_list (map snd xs)"
  by (induction xs arbitrary: a) auto

definition pro_rata :: "int \<Rightarrow> int \<Rightarrow> int \<Rightarrow> int" where
  "pro_rata totalAmount twabTotal bal = (totalAmount * bal) div twabTotal"

text \<open>The loop's result for distinct wallets: one share each, and a holder of the largest balance.\<close>

lemma share_loop_spec:
  assumes "share_loop amt tt xs (shares, dst, lw, lb) = (shares', dst', lw', lb')"
    and "0 \<le> amt" "0 < tt" "\<forall>(w, b) \<in> set xs. 0 \<le> b"
    and "distinct (map fst xs)" "fst ` set shares \<inter> fst ` set xs = {}"
  shows "shares' = shares @ map (\<lambda>(w, b). (w, pro_rata amt tt b)) xs"
    and "dst' = dst + sum_list (map (\<lambda>(w, b). pro_rata amt tt b) xs)"
    and "(lw', lb') = (lw, lb) \<and> (\<forall>(w, b) \<in> set xs. b \<le> lb) \<or>
      (lw', lb') \<in> set xs \<and> lb < lb' \<and> (\<forall>(w, b) \<in> set xs. b \<le> lb')"
proof -
  have "shares' = shares @ map (\<lambda>(w, b). (w, pro_rata amt tt b)) xs \<and>
    dst' = dst + sum_list (map (\<lambda>(w, b). pro_rata amt tt b) xs) \<and>
    ((lw', lb') = (lw, lb) \<and> (\<forall>(w, b) \<in> set xs. b \<le> lb) \<or>
      (lw', lb') \<in> set xs \<and> lb < lb' \<and> (\<forall>(w, b) \<in> set xs. b \<le> lb'))"
    using assms
  proof (induction xs arbitrary: shares dst lw lb)
    case Nil
    then show ?case by simp
  next
    case (Cons x xs)
    obtain w b where x: "x = (w, b)" by (cases x)
    have b: "0 \<le> b" "0 \<le> amt * b" using Cons.prems(2,4) by (auto simp: x)
    have up: "AList.update w (pro_rata amt tt b) shares = shares @ [(w, pro_rata amt tt b)]"
      using Cons.prems(6) by (intro update_fresh) (auto simp: x)
    let ?lw = "if b > lb then w else lw" and ?lb = "if b > lb then b else lb"
    have run: "share_loop amt tt xs (shares @ [(w, pro_rata amt tt b)], dst + pro_rata amt tt b, ?lw, ?lb)
        = (shares', dst', lw', lb')"
      using Cons.prems(1,3) b up by (simp add: x Let_def pro_rata_def)
    have "shares' = (shares @ [(w, pro_rata amt tt b)]) @ map (\<lambda>(w, b). (w, pro_rata amt tt b)) xs \<and>
      dst' = dst + pro_rata amt tt b + sum_list (map (\<lambda>(w, b). pro_rata amt tt b) xs) \<and>
      ((lw', lb') = (?lw, ?lb) \<and> (\<forall>(w, b) \<in> set xs. b \<le> ?lb) \<or>
        (lw', lb') \<in> set xs \<and> ?lb < lb' \<and> (\<forall>(w, b) \<in> set xs. b \<le> lb'))"
      using Cons.prems by (intro Cons.IH [OF run]) (auto simp: x)
    then show ?case by (auto simp: x split: if_splits)
  qed
  then show "shares' = shares @ map (\<lambda>(w, b). (w, pro_rata amt tt b)) xs"
    and "dst' = dst + sum_list (map (\<lambda>(w, b). pro_rata amt tt b) xs)"
    and "(lw', lb') = (lw, lb) \<and> (\<forall>(w, b) \<in> set xs. b \<le> lb) \<or>
      (lw', lb') \<in> set xs \<and> lb < lb' \<and> (\<forall>(w, b) \<in> set xs. b \<le> lb')" by blast+
qed

text \<open>Rounding down loses less than one unit per wallet.\<close>

lemma pro_rata_sum:
  assumes "0 < tt"
  shows "sum_list (map (\<lambda>(w, b). pro_rata amt tt b) xs) * tt \<le> amt * sum_list (map snd xs)"
    and "xs \<noteq> [] \<Longrightarrow> amt * sum_list (map snd xs) < (sum_list (map (\<lambda>(w, b). pro_rata amt tt b) xs) + int (length xs)) * tt"
proof -
  have lo: "pro_rata amt tt b * tt \<le> amt * b" and hi: "amt * b < (pro_rata amt tt b + 1) * tt" for b
  proof -
    have "amt * b = pro_rata amt tt b * tt + amt * b mod tt" by (simp add: pro_rata_def)
    moreover have "(pro_rata amt tt b + 1) * tt = pro_rata amt tt b * tt + tt" by (simp add: distrib_right)
    ultimately show "pro_rata amt tt b * tt \<le> amt * b" "amt * b < (pro_rata amt tt b + 1) * tt"
      using pos_mod_bound [OF assms, of "amt * b"] pos_mod_sign [OF assms, of "amt * b"] by linarith+
  qed
  show "sum_list (map (\<lambda>(w, b). pro_rata amt tt b) xs) * tt \<le> amt * sum_list (map snd xs)"
  proof (induction xs)
    case (Cons x xs)
    then show ?case using lo [of "snd x"] by (cases x) (simp add: distrib_left distrib_right)
  qed simp
  show "amt * sum_list (map snd xs) < (sum_list (map (\<lambda>(w, b). pro_rata amt tt b) xs) + int (length xs)) * tt"
    if "xs \<noteq> []" using that
  proof (induction xs rule: list_nonempty_induct)
    case (single x)
    then show ?case using hi [of "snd x"] by (cases x) simp
  next
    case (cons x xs)
    then show ?case using hi [of "snd x"] by (cases x) (simp add: distrib_left distrib_right)
  qed
qed


lemma sum_list_update_jsmap:
  "distinct (map fst m) \<Longrightarrow> map_of m k = Some v \<Longrightarrow>
    sum_list (map snd (AList.update k (v + r) m)) = sum_list (map snd m) + (r::int)"
  by (induction m) (auto split: if_splits)

lemma map_of_map_values: "map_of (map (\<lambda>(w, b). (w, f b)) xs) w = map_option f (map_of xs w)"
  by (induction xs) auto

text \<open>The shares of a non-empty result, in full.\<close>

lemma computeShares_Inr:
  assumes run: "computeShares twab amt opts = Inr shares" "shares \<noteq> []"
    and wf: "distinct (map fst twab)" "\<forall>(w, b) \<in> set twab. 0 \<le> b" "0 \<le> amt"
  obtains minBase E T where
    "usdToCoinBaseUnits (sh_minHoldingUsd opts) (sh_priceUsd8 opts) (sh_coinDecimals opts) = Inr minBase"
    "E = filter (\<lambda>(_, b). minBase \<le> b) twab" "T = sum_list (map snd E)" "0 < T"
    "map fst shares = map fst E" "sum_list (map snd shares) = amt"
    "\<forall>(w, s) \<in> set shares. \<exists>b. (w, b) \<in> set E \<and> pro_rata amt T b \<le> s \<and>
       (s = pro_rata amt T b \<or> (\<forall>(_, b') \<in> set E. b' \<le> b) \<and> s < pro_rata amt T b + int (length E))"
proof -
  obtain minBase where mb: "usdToCoinBaseUnits (sh_minHoldingUsd opts) (sh_priceUsd8 opts) (sh_coinDecimals opts) = Inr minBase"
    using run(1) by (auto simp: computeShares_def result_simps)
  define E where "E = filter (\<lambda>(_, b). minBase \<le> b) twab"
  define T where "T = sum_list (map snd E)"
  have fold: "fold (\<lambda>(_, bal) sum. sum + bal) E 0 = T" by (simp add: fold_add_sum T_def)
  have ne: "T \<noteq> 0" "E \<noteq> []"
    using run mb by (auto simp: computeShares_def E_def [symmetric] fold split: if_splits)
  have E: "distinct (map fst E)" "\<forall>(w, b) \<in> set E. 0 \<le> b"
    using wf by (auto simp: E_def distinct_map_filter)
  have "0 \<le> T" unfolding T_def using E(2) by (intro sum_list_nonneg_map) auto
  then have T: "0 < T" using ne(1) by simp
  obtain sh dst lw lb where loop: "share_loop amt T E ([], 0, fst (hd E), -1) = (sh, dst, lw, lb)"
    by (cases "share_loop amt T E ([], 0, fst (hd E), -1)") auto
  note ls = share_loop_spec [OF loop wf(3) T E(2,1)]
  have sh: "sh = map (\<lambda>(w, b). (w, pro_rata amt T b)) E"
    and dst: "dst = sum_list (map (\<lambda>(w, b). pro_rata amt T b) E)" using ls(1,2) by simp_all
  obtain w0 b0 where hd: "hd E = (w0, b0)" "(w0, b0) \<in> set E" using ne(2) by (cases E) auto
  have "\<not> b0 \<le> -1" using E(2) hd(2) by auto
  then have lw: "(lw, lb) \<in> set E" "\<forall>(w, b) \<in> set E. b \<le> lb" using ls(3) hd(2) by auto
  have at: "map_of sh lw = Some (pro_rata amt T lb)"
    using E(1) lw(1) by (simp add: sh map_of_map_values)
  let ?r = "amt - dst"
  have r: "0 \<le> ?r" "?r < int (length E)"
  proof -
    have "dst * T \<le> amt * T" using pro_rata_sum(1) [OF T, of amt E] by (simp add: dst T_def)
    then show "0 \<le> ?r" using T by simp
    have "amt * T < (dst + int (length E)) * T"
      using pro_rata_sum(2) [OF T, of E amt] ne(2) by (simp add: dst T_def)
    then have "amt < dst + int (length E)" using T by (simp add: mult_less_cancel_right_pos)
    then show "?r < int (length E)" by simp
  qed
  have cur: "(case map_of sh lw of None \<Rightarrow> 0 | Some v \<Rightarrow> v) = pro_rata amt T lb"
    unfolding at by simp
  have shares: "shares = (if ?r > 0 then AList.update lw (pro_rata amt T lb + ?r) sh else sh)"
  proof -
    have "computeShares twab amt opts = Inr (if ?r > 0
        then AList.update lw ((case map_of sh lw of None \<Rightarrow> 0 | Some v \<Rightarrow> v) + ?r) sh else sh)"
      by (simp add: computeShares_def mb E_def [symmetric] fold ne loop)
    then show ?thesis unfolding cur using run(1) by simp
  qed
  have fsts: "map fst sh = map fst E" by (simp add: sh case_prod_beta comp_def)
  have sum: "sum_list (map snd sh) = dst" by (simp add: sh dst split_def comp_def)
  have dsh: "distinct (map fst sh)" using E(1) fsts by simp
  show thesis
  proof (rule that [OF mb E_def T_def T])
    show "map fst shares = map fst E"
      using fsts at by (auto simp: shares map_fst_update dest: map_of_SomeD intro: rev_image_eqI)
    show "sum_list (map snd shares) = amt"
      using sum r(1) sum_list_update_jsmap [OF dsh at, of ?r] by (auto simp: shares)
    have "\<exists>b. (w, b) \<in> set E \<and> pro_rata amt T b \<le> s \<and>
       (s = pro_rata amt T b \<or> (\<forall>(_, b') \<in> set E. b' \<le> b) \<and> s < pro_rata amt T b + int (length E))"
      if ws: "(w, s) \<in> set shares" for w s
    proof (cases "?r > 0 \<and> w = lw")
      case True
      have "map_of shares w = Some s"
        using ws dsh by (intro map_of_is_SomeI) (auto simp: shares jsmap_wf_update)
      then have "s = pro_rata amt T lb + ?r" using True by (simp add: shares update_conv')
      then show ?thesis using lw r True by (intro exI [of _ lb]) auto
    next
      case False
      have "(w, s) \<in> set sh"
      proof -
        have "map_of shares w = Some s"
          using ws dsh by (intro map_of_is_SomeI) (auto simp: shares jsmap_wf_update)
        then have "map_of sh w = Some s" using False by (auto simp: shares update_conv' split: if_splits)
        then show ?thesis by (rule map_of_SomeD)
      qed
      then show ?thesis by (auto simp: sh)
    qed
    then show "\<forall>(w, s) \<in> set shares. \<exists>b. (w, b) \<in> set E \<and> pro_rata amt T b \<le> s \<and>
       (s = pro_rata amt T b \<or> (\<forall>(_, b') \<in> set E. b' \<le> b) \<and> s < pro_rata amt T b + int (length E))"
      by blast
  qed
qed

section \<open>Properties\<close>

text \<open>
  C10: the average is the average.  For whole-second timestamps the result of \<open>computeTwab\<close> is, for
  every wallet that is not excluded, the sum of its balance over all seconds of the window divided
  by the window, rounded down; wallets with nothing to weigh are absent.  The order in which the
  events are given does not matter.
\<close>

theorem twab_is_average:
  assumes "computeTwab events opts = Inr m" "mset events' = mset events"
  shows "\<exists>m'. computeTwab events' opts = Inr m' \<and> (\<forall>w. map_of m' w = map_of m w \<and>
    map_of m w = (let I = seconds_sum (balance_at (wallet_events events w)) (tw_start opts) (tw_end opts)
     in if excluded (tw_exclude opts) w \<or> I \<le> 0 then None else Some (I div (tw_end opts - tw_start opts))))"
proof -
  obtain m' where m': "computeTwab events' opts = Inr m'"
    using assms(1) by (auto simp: computeTwab_def split: if_splits)
  have "balance_at (wallet_events events' w) = balance_at (wallet_events events w)" for w
    using assms(2) by (intro ext balance_at_mset) (simp add: wallet_events_def)
  then have "map_of m' w = map_of m w" for w
    using computeTwab_map_of(1) [OF m', of w] computeTwab_map_of(1) [OF assms(1), of w] by simp
  then show ?thesis using m' computeTwab_map_of(1) [OF assms(1)] by blast
qed

definition demo_events :: "BalanceEvent list" where
  "demo_events = [
    \<lparr>be_pool = ''p'', be_wallet = ''a'', be_delta = 100, be_ts = 5\<rparr>,
    \<lparr>be_pool = ''p'', be_wallet = ''b'', be_delta = 60, be_ts = 12\<rparr>,
    \<lparr>be_pool = ''p'', be_wallet = ''a'', be_delta = -50, be_ts = 15\<rparr>,
    \<lparr>be_pool = ''p'', be_wallet = ''vault'', be_delta = 900, be_ts = 1\<rparr>]"

definition demo_window :: TwabOptions where
  "demo_window = \<lparr>tw_start = 10, tw_end = 20, tw_exclude = Some [''vault'']\<rparr>"

lemma demo_twab: "computeTwab demo_events demo_window = Inr [(''a'', 75), (''b'', 48)]"
  by (simp add: computeTwab_def demo_events_def demo_window_def excluded_def wallet_weight_def)

theorem twab_is_average_witness:
  "(75::int) = seconds_sum (balance_at (wallet_events demo_events ''a'')) 10 20 div 10"
proof -
  have "0 < seconds_sum (balance_at (wallet_events demo_events ''a'')) 10 20" by code_simp
  then show ?thesis
    using twab_is_average [OF demo_twab refl] by (auto simp: demo_window_def excluded_def Let_def dest: spec [of _ "''a''"])
qed

text \<open>
  C12: shares neither create nor lose money.  When anything is paid, the shares sum to the amount
  exactly; each goes to a wallet above the dollar threshold, none is below its pro-rata part rounded
  down, and only a holder of the largest balance gets more, by less than one unit per payee.
\<close>

theorem shares_conserve:
  assumes "computeShares twab amt opts = Inr shares" "shares \<noteq> []"
    and "distinct (map fst twab)" "\<forall>(w, b) \<in> set twab. 0 \<le> b" "0 \<le> amt"
  shows "\<exists>minBase E T.
    usdToCoinBaseUnits (sh_minHoldingUsd opts) (sh_priceUsd8 opts) (sh_coinDecimals opts) = Inr minBase \<and>
    E = filter (\<lambda>(_, b). minBase \<le> b) twab \<and> T = sum_list (map snd E) \<and>
    map fst shares = map fst E \<and> sum_list (map snd shares) = amt \<and>
    (\<forall>(w, s) \<in> set shares. \<exists>b. (w, b) \<in> set E \<and> pro_rata amt T b \<le> s \<and>
       (s = pro_rata amt T b \<or> (\<forall>(_, b') \<in> set E. b' \<le> b) \<and> s < pro_rata amt T b + int (length E)))"
  by (rule computeShares_Inr [OF assms]) (intro exI conjI; assumption)

definition demo_shares :: ShareOptions where
  "demo_shares = \<lparr>sh_minHoldingUsd = Fin 1, sh_priceUsd8 = 400000000, sh_coinDecimals = 2\<rparr>"

lemma demo_shares_run: "computeShares [(''a'', 75), (''b'', 48), (''c'', 3)] 1000 demo_shares = Inr [(''a'', 610), (''b'', 390)]"
  by (simp add: computeShares_def demo_shares_def usdToCoinBaseUnits_def mk_num_numeral del: jround.simps)

theorem shares_conserve_witness:
  "sum_list (map snd [(''a'', 610), (''b'', 390)]) = (1000::int)"
proof -
  have "\<forall>(w, b) \<in> set [(''a'', 75), (''b'', 48), (''c'', 3)]. (0::int) \<le> b" by simp
  from shares_conserve [OF demo_shares_run _ _ this] obtain m E T where
    "sum_list (map snd [(''a'', 610), (''b'', 390)]) = (1000::int)" by auto
  then show ?thesis .
qed

end
