(* ===== verification/Payouts.thy ===== *)
theory Payouts
  imports Rpc Distributor Twab
begin

text \<open>
  The payout cycle of the keeper (\<^verbatim>\<open>apps/keeper/src/cycles/payouts.ts\<close>), function by function.
  The world is the database and the distributor's chain; every await is a database query, a chain
  read or a sent transaction, each of which may fail, lose its answer or be the last thing the process
  does.  Keys are bytes on the chain and base58 text in the database.  Logging is left out.
\<close>

type_synonym payout_world = "dist_chain chain_world"

type_synonym 'a pio = "(payout_world, 'a) io"

text \<open>
  What the cycle takes from outside: configuration, \<open>web3.js\<close>, the keeper's key, the chain, and how
  many epochs the forward probe follows before the run is given up.
\<close>

record payout_env =
  pe_cfg :: KeeperConfig
  pe_w3 :: web3
  pe_keeper :: bytes
  pe_exec :: "(dist_ix, dist_chain) executor"
  pe_fuel :: nat

definition io_error :: "'e + 'a \<Rightarrow> 'a pio" where
  "io_error r = (case r of Inl _ \<Rightarrow> io_throw ''Error'' | Inr a \<Rightarrow> io_ret a)"

definition io_some :: "'a option \<Rightarrow> string \<Rightarrow> 'a pio" where
  "io_some x err = (case x of None \<Rightarrow> io_throw err | Some a \<Rightarrow> io_ret a)"

definition PUSH_CHUNK_SIZE :: nat where "PUSH_CHUNK_SIZE = 12"
definition BPS :: int where "BPS = 10000"
definition ZERO_ROOT_HEX :: string where "ZERO_ROOT_HEX = replicate 64 CHR ''0''"

section \<open>The epoch account\<close>

record EpochAccount =
  ea_pool :: bytes
  ea_index :: int
  ea_coinMint :: bytes
  ea_startTs :: int
  ea_endTs :: int
  ea_totalAmount :: int
  ea_pushedAmount :: int
  ea_merkleRootHex :: string
  ea_merkleTotal :: int
  ea_finalized :: bool

definition epoch_account :: "Epoch \<Rightarrow> EpochAccount" where
  "epoch_account raw = \<lparr>ea_pool = ep_pool raw, ea_index = ep_index raw, ea_coinMint = ep_coin_mint raw,
     ea_startTs = ep_start_ts raw, ea_endTs = ep_end_ts raw, ea_totalAmount = ep_total_amount raw,
     ea_pushedAmount = ep_pushed_amount raw, ea_merkleRootHex = hex_text (ep_merkle_root raw),
     ea_merkleTotal = ep_merkle_total raw, ea_finalized = ep_finalized raw\<rparr>"

definition fetchEpoch :: "bytes \<Rightarrow> EpochAccount option pio" where
  "fetchEpoch epoch = rpc_read (\<lambda>c. map_option epoch_account (ch_epochs c epoch))"

section \<open>Pool context\<close>

record PoolCtx =
  pc_pool :: PoolRow
  pc_keeper :: bytes
  pc_dbcPool :: bytes
  pc_coinMint :: bytes
  pc_distId :: bytes
  pc_frId :: bytes
  pc_holderVault :: bytes
  pc_distConfig :: bytes

definition poolCtx :: "payout_env \<Rightarrow> PoolRow \<Rightarrow> string + PoolCtx" where
  "poolCtx env pool =
     sbind (new_PublicKey (pe_w3 env) (cfg_distributorProgramId (pe_cfg env))) (\<lambda>distId.
     sbind (new_PublicKey (pe_w3 env) (cfg_feeRouterProgramId (pe_cfg env))) (\<lambda>frId.
     sbind (new_PublicKey (pe_w3 env) (po_dbc_pool pool)) (\<lambda>dbcPool.
     sbind (new_PublicKey (pe_w3 env) (po_quote_mint pool)) (\<lambda>coinMint.
     Inr \<lparr>pc_pool = pool, pc_keeper = pe_keeper env, pc_dbcPool = dbcPool, pc_coinMint = coinMint,
       pc_distId = distId, pc_frId = frId, pc_holderVault = fst (feeRouter_holderVault (pe_w3 env) frId dbcPool),
       pc_distConfig = fst (distributor_config (pe_w3 env) distId)\<rparr>))))"

definition epochPdaFor :: "payout_env \<Rightarrow> PoolCtx \<Rightarrow> int \<Rightarrow> bytes" where
  "epochPdaFor env ctx index = fst (distributor_epoch (pe_w3 env) (pc_distId ctx) (pc_dbcPool ctx) index)"

definition excludedAddresses :: "payout_env \<Rightarrow> PoolCtx \<Rightarrow> string list" where
  "excludedAddresses env ctx = (let w3 = pe_w3 env; fr = pc_frId ctx; pool = pc_pool ctx in
     [po_dbc_pool pool, w3_text w3 (fst (feeRouter_router w3 fr)), w3_text w3 (fst (feeRouter_pool w3 fr (pc_dbcPool ctx))),
      w3_text w3 (dbcPoolAuthority w3), w3_text w3 (dammPoolAuthority w3), ''11111111111111111111111111111111''] @
     (case po_damm_pool pool of None \<Rightarrow> [] | Some d \<Rightarrow> if d = [] then [] else [d]))"

section \<open>The newest epoch\<close>

text \<open>\<open>for (;;)\<close>: the highest consecutive index from \<open>idx\<close> on whose epoch exists.\<close>

fun probe_forward :: "payout_env \<Rightarrow> PoolCtx \<Rightarrow> nat \<Rightarrow> int \<Rightarrow> int pio" where
  "probe_forward env ctx 0 idx = (\<lambda>w. (Crash, w))"
| "probe_forward env ctx (Suc fuel) idx =
     io_bind (fetchEpoch (epochPdaFor env ctx (idx + 1))) (\<lambda>nxt.
       case nxt of None \<Rightarrow> io_ret idx | Some _ \<Rightarrow> probe_forward env ctx fuel (idx + 1))"

fun first_epoch :: "payout_env \<Rightarrow> PoolCtx \<Rightarrow> int list \<Rightarrow> EpochAccount option pio" where
  "first_epoch env ctx [] = io_ret None"
| "first_epoch env ctx (i # rest) = io_bind (fetchEpoch (epochPdaFor env ctx i)) (\<lambda>acc.
     case acc of None \<Rightarrow> first_epoch env ctx rest | Some a \<Rightarrow> io_ret (Some a))"

definition findLatestOnChainEpoch :: "payout_env \<Rightarrow> PoolCtx \<Rightarrow> EpochAccount option pio" where
  "findLatestOnChainEpoch env ctx =
     io_bind (getMaxKnownEpochIndex (po_dbc_pool (pc_pool ctx))) (\<lambda>start.
     io_bind (probe_forward env ctx (pe_fuel env) start) (\<lambda>idx.
     first_epoch env ctx (filter (\<lambda>i. i \<ge> 0) [idx, idx - 1, idx - 2])))"

section \<open>The plan\<close>

record Plan =
  pl_items :: "EpochPlanItem list"
  pl_twabTotal :: int

text \<open>
  \<open>applyMinHoldingFilter\<close>: the threshold is a JavaScript number; without a candle or a price, or with
  a price that is not positive, every balance stays.
\<close>

definition min_base_units :: "jsnum \<Rightarrow> rat \<Rightarrow> int \<Rightarrow> int option option" where
  "min_base_units minUsd close price =
     (let memeUsd = mk_num close * (num_of_int price div Fin 100000000)
      in if \<not> isFinite memeUsd \<or> memeUsd \<le> Fin 0 then None
         else Some (bigint_of_num (jceil ((minUsd div memeUsd) * Fin 1000000))))"

definition applyMinHoldingFilter ::
  "payout_env \<Rightarrow> PoolRow \<Rightarrow> (string, int) jsmap \<Rightarrow> (string, int) jsmap pio" where
  "applyMinHoldingFilter env pool twab =
     (if \<not> cfg_payoutMinHoldingUsd (pe_cfg env) > Fin 0 then io_ret twab else
      io_bind (getLatestCandleClose (po_dbc_pool pool)) (\<lambda>candle.
      io_bind (getLatestPrice (po_commodity pool)) (\<lambda>coin.
      case (candle, coin) of
        (Some (close, _), Some price) \<Rightarrow>
          (case min_base_units (cfg_payoutMinHoldingUsd (pe_cfg env)) close (pr_price price) of
             None \<Rightarrow> io_ret twab
           | Some None \<Rightarrow> io_throw ''RangeError''
           | Some (Some minBase) \<Rightarrow> io_ret (filter (\<lambda>(_, bal). bal \<ge> minBase) twab))
      | _ \<Rightarrow> io_ret twab)))"

fun balance_events :: "BalanceEventRow list \<Rightarrow> string + BalanceEvent list" where
  "balance_events [] = Inr []"
| "balance_events (r # rs) = (case parse_bigint (br_delta r) of None \<Rightarrow> Inl ''SyntaxError''
     | Some n \<Rightarrow> sbind (balance_events rs) (\<lambda>es.
         Inr (\<lparr>be_pool = br_pool r, be_wallet = br_wallet r, be_delta = n, be_ts = br_ts r\<rparr> # es)))"

definition plan_items :: "(string, int) jsmap \<Rightarrow> EpochPlanItem list" where
  "plan_items shares = sort_key pi_wallet
     (map (\<lambda>(wallet, amount). \<lparr>pi_wallet = wallet, pi_amount = amount\<rparr>) (filter (\<lambda>(_, amount). amount > 0) shares))"

definition computePlan :: "payout_env \<Rightarrow> PoolCtx \<Rightarrow> int \<Rightarrow> int \<Rightarrow> int \<Rightarrow> Plan option pio" where
  "computePlan env ctx startTs endTs amount =
     io_bind (getBalanceEvents (po_dbc_pool (pc_pool ctx)) startTs endTs) (\<lambda>events.
     io_bind (getBalanceEventsBefore (po_dbc_pool (pc_pool ctx)) startTs) (\<lambda>priorEvents.
     io_bind (io_error (balance_events (priorEvents @ events))) (\<lambda>allEvents.
     io_bind (io_error (computeTwab allEvents
       \<lparr>tw_start = startTs, tw_end = endTs, tw_exclude = Some (excludedAddresses env ctx)\<rparr>)) (\<lambda>twab.
     if twab = [] then io_ret None else
     io_bind (applyMinHoldingFilter env (pc_pool ctx) twab) (\<lambda>eligible.
     if eligible = [] then io_ret None else
     io_bind (io_error (computeShares eligible amount
       \<lparr>sh_minHoldingUsd = Fin 0, sh_priceUsd8 = 1, sh_coinDecimals = 0\<rparr>)) (\<lambda>shares.
     if plan_items shares = [] then io_ret None else
     io_ret (Some \<lparr>pl_items = plan_items shares, pl_twabTotal = sum_list (map snd eligible)\<rparr>)))))))"

section \<open>What is already pushed\<close>

text \<open>Transactions that touched the epoch, oldest first, of the newest 1000.\<close>

definition signatures_for :: "bytes \<Rightarrow> dist_chain \<Rightarrow> string list" where
  "signatures_for epoch c = rev (take 1000 (rev (remdups (map tx_sig (filter (\<lambda>r. tx_epoch r = epoch) (ch_log c))))))"

definition parseEvents :: "string \<Rightarrow> dist_event list pio" where
  "parseEvents sig = rpc_read (\<lambda>c. concat (map tx_events (filter (\<lambda>r. tx_sig r = sig) (ch_log c))))"

definition payout_insert :: "PoolCtx \<Rightarrow> payout_env \<Rightarrow> int \<Rightarrow> string \<Rightarrow> int \<Rightarrow> string \<Rightarrow> PayoutInsert" where
  "payout_insert ctx env index wallet amount sig = \<lparr>yi_pool = po_dbc_pool (pc_pool ctx), yi_epoch_index = index,
     yi_wallet = wallet, yi_coin_mint = w3_text (pe_w3 env) (pc_coinMint ctx), yi_amount = amount, yi_kind = 0, yi_sig = Some sig\<rparr>"

text \<open>One event of one signature: a push of this epoch to a wallet not seen yet is recorded.\<close>

definition reconcile_event ::
  "payout_env \<Rightarrow> PoolCtx \<Rightarrow> EpochAccount \<Rightarrow> string \<Rightarrow> dist_event \<Rightarrow> (string, int) jsmap \<Rightarrow> (string, int) jsmap pio" where
  "reconcile_event env ctx acc sig e pushed = (case e of
     PayoutEvent d \<Rightarrow>
       (if pv_kind d \<noteq> 0 \<or> pv_epoch d \<noteq> epochPdaFor env ctx (ea_index acc) then io_ret pushed
        else if w3_text (pe_w3 env) (pv_wallet d) \<in> fst ` set pushed then io_ret pushed
        else io_then (recordPayout (payout_insert ctx env (ea_index acc) (w3_text (pe_w3 env) (pv_wallet d)) (pv_amount d) sig))
               (io_ret (AList.update (w3_text (pe_w3 env) (pv_wallet d)) (pv_amount d) pushed)))
   | _ \<Rightarrow> io_ret pushed)"

definition reconcile_sig ::
  "payout_env \<Rightarrow> PoolCtx \<Rightarrow> EpochAccount \<Rightarrow> string \<Rightarrow> (string, int) jsmap \<Rightarrow> (string, int) jsmap pio" where
  "reconcile_sig env ctx acc sig pushed =
     io_bind (parseEvents sig) (\<lambda>events. io_fold events (reconcile_event env ctx acc sig) pushed)"

text \<open>\<open>new Map(rows)\<close>: a later row of a wallet overwrites its value.\<close>

definition new_Map :: "('k \<times> 'v) list \<Rightarrow> ('k, 'v) jsmap" where
  "new_Map rows = fold (\<lambda>(k, v). AList.update k v) rows []"

definition reconcilePushed :: "payout_env \<Rightarrow> PoolCtx \<Rightarrow> EpochAccount \<Rightarrow> (string, int) jsmap pio" where
  "reconcilePushed env ctx acc =
     io_bind (getPushedPayouts (po_dbc_pool (pc_pool ctx)) (ea_index acc)) (\<lambda>rows.
     if ledger_sum rows = ea_pushedAmount acc then io_ret (new_Map rows) else
     io_bind (rpc_read (signatures_for (epochPdaFor env ctx (ea_index acc)))) (\<lambda>sigs.
     io_bind (io_fold sigs (reconcile_sig env ctx acc) (new_Map rows)) (\<lambda>pushed.
     if ledger_sum pushed \<noteq> ea_pushedAmount acc then io_throw ''cannot reconcile pushes''
     else io_ret pushed)))"

section \<open>Push and finalise\<close>

record Pushable =
  pb_wallet :: string
  pb_amount :: int
  pb_dest :: bytes

text \<open>
  The split of the remaining plan: an item whose token account exists is pushed while the cap has
  room, the others become leaves.  The last component is the running \<open>pushedTotal\<close>.
\<close>

fun split_remaining ::
  "bytes \<Rightarrow> int \<Rightarrow> (EpochPlanItem \<times> bytes \<times> account option) list \<Rightarrow> int \<Rightarrow> Pushable list \<times> EpochPlanItem list \<times> int" where
  "split_remaining token cap [] pushedTotal = ([], [], pushedTotal)"
| "split_remaining token cap ((p, dest, info) # rest) pushedTotal =
     (if (case info of None \<Rightarrow> False | Some a \<Rightarrow> ac_program a = token) \<and> pushedTotal + pi_amount p \<le> cap
      then (case split_remaining token cap rest (pushedTotal + pi_amount p) of (pushable, merkle, total') \<Rightarrow>
              (\<lparr>pb_wallet = pi_wallet p, pb_amount = pi_amount p, pb_dest = dest\<rparr> # pushable, merkle, total'))
      else (case split_remaining token cap rest pushedTotal of (pushable, merkle, total') \<Rightarrow>
              (pushable, p # merkle, total')))"

text \<open>\<open>getMultipleAccountsInfo\<close>: the RPC method takes at most 100 keys and rejects more.\<close>

definition getMultipleAccountsInfo :: "bytes list \<Rightarrow> account option list pio" where
  "getMultipleAccountsInfo keys = (if length keys > 100 then io_throw ''Too many inputs provided; max 100''
     else rpc_read (\<lambda>c. map (ch_accounts c) keys))"

definition associatedToken :: "payout_env \<Rightarrow> bytes \<Rightarrow> bytes \<Rightarrow> bytes" where
  "associatedToken env mint own = ata (pe_w3 env) mint own (TOKEN_PROGRAM (pe_w3 env))"

definition push_ix :: "payout_env \<Rightarrow> PoolCtx \<Rightarrow> bytes \<Rightarrow> (bytes \<times> Pushable) list \<Rightarrow> dist_ix" where
  "push_ix env ctx epoch chunk = PushPayouts
     \<lparr>pa_keeper = pc_keeper ctx, pa_epoch = epoch, pa_coin_mint = pc_coinMint ctx,
      pa_epoch_vault = associatedToken env (pc_coinMint ctx) epoch, pa_token_program = TOKEN_PROGRAM (pe_w3 env),
      pa_remaining = map (\<lambda>(_, c). (pb_dest c, True)) chunk\<rparr>
     (map (\<lambda>(k, c). \<lparr>it_wallet = k, it_amount = pb_amount c\<rparr>) chunk)"

definition push_chunk :: "payout_env \<Rightarrow> PoolCtx \<Rightarrow> EpochAccount \<Rightarrow> bytes \<Rightarrow> Pushable list \<Rightarrow> unit pio" where
  "push_chunk env ctx acc epoch chunk =
     io_bind (io_result (smap (\<lambda>c. new_PublicKey (pe_w3 env) (pb_wallet c)) chunk)) (\<lambda>keys.
     io_bind (sendWithPriority (pe_exec env) (pe_cfg env) [push_ix env ctx epoch (zip keys chunk)] no_opts) (\<lambda>sig.
     io_for chunk (\<lambda>c. recordPayout (payout_insert ctx env (ea_index acc) (pb_wallet c) (pb_amount c) sig))))"

definition epoch_tree :: "payout_env \<Rightarrow> bytes \<Rightarrow> EpochPlanItem list \<Rightarrow> EpochMerkleTree option pio" where
  "epoch_tree env epoch merkle = (if merkle = [] then io_ret None else
     io_bind (io_result (smap (\<lambda>m. new_PublicKey (pe_w3 env) (pi_wallet m)) merkle)) (\<lambda>keys.
     io_bind (io_error (buildEpochTree (HasToBuffer epoch)
       (map (\<lambda>(k, m). \<lparr>me_wallet = HasToBuffer k, me_amount = BigAmount (pi_amount m)\<rparr>) (zip keys merkle)))) (\<lambda>t.
     io_ret (Some t))))"

definition tree_root :: "EpochMerkleTree option \<Rightarrow> bytes" where
  "tree_root tree = (case tree of None \<Rightarrow> replicate 32 0 | Some t \<Rightarrow> t_root t)"

definition tree_total :: "EpochMerkleTree option \<Rightarrow> int" where
  "tree_total tree = (case tree of None \<Rightarrow> 0 | Some t \<Rightarrow> t_total t)"

definition leaf_row :: "payout_env \<Rightarrow> PoolCtx \<Rightarrow> int \<Rightarrow> bytes \<Rightarrow> EpochMerkleTree \<Rightarrow> nat \<times> bytes \<times> int \<Rightarrow> string + MerkleLeafRow" where
  "leaf_row env ctx index epoch tree = (\<lambda>(i, wallet, amount).
     case getProof (t_layers tree) (int i) of Inl _ \<Rightarrow> Inl ''Error'' | Inr nodes \<Rightarrow>
     Inr \<lparr>ml_pool = po_dbc_pool (pc_pool ctx), ml_epoch_index = index, ml_epoch_pubkey = w3_text (pe_w3 env) epoch,
       ml_wallet = w3_text (pe_w3 env) wallet, ml_coin_mint = w3_text (pe_w3 env) (pc_coinMint ctx),
       ml_amount = int_text amount, ml_proof = map hex_text nodes\<rparr>)"

definition writeFinalized ::
  "payout_env \<Rightarrow> PoolCtx \<Rightarrow> int \<Rightarrow> bytes \<Rightarrow> string \<Rightarrow> int \<Rightarrow> EpochMerkleTree option \<Rightarrow> string option \<Rightarrow> unit pio" where
  "writeFinalized env ctx index epoch rootHex pushedTotal tree finalizeSig =
     io_then (case tree of None \<Rightarrow> io_ret () | Some t \<Rightarrow>
       io_bind (io_result (smap (leaf_row env ctx index epoch t) (enumerate 0 (t_entries t)))) insertMerkleLeaves)
     (io_then (markEpochFinalized (po_dbc_pool (pc_pool ctx)) index rootHex pushedTotal (tree_total tree))
     (setEpochPhase (po_dbc_pool (pc_pool ctx)) index Finalized
        \<lparr>px_open_sig = None, px_finalize_sig = finalizeSig, px_merkle_root = Some rootHex, px_last_error = None\<rparr>))"

definition pushAndFinalize ::
  "payout_env \<Rightarrow> PoolCtx \<Rightarrow> EpochAccount \<Rightarrow> EpochPlanItem list \<Rightarrow> (string, int) jsmap \<Rightarrow> unit pio" where
  "pushAndFinalize env ctx acc plan alreadyPushed =
     (let epoch = epochPdaFor env ctx (ea_index acc) in
     io_bind (rpc_read ch_dist) (\<lambda>dc. io_bind (io_some dc ''Account does not exist'') (\<lambda>dc.
     let pushCap = (ea_totalAmount acc * di_max_push_per_epoch_bps dc) sdiv BPS;
         remaining = filter (\<lambda>p. pi_amount p > 0 \<and> pi_wallet p \<notin> fst ` set alreadyPushed) plan in
     io_bind (io_result (smap (\<lambda>p. new_PublicKey (pe_w3 env) (pi_wallet p)) remaining)) (\<lambda>keys.
     let destAtas = map (associatedToken env (pc_coinMint ctx)) keys in
     io_bind (if remaining = [] then io_ret [] else getMultipleAccountsInfo destAtas) (\<lambda>infos.
     case split_remaining (TOKEN_PROGRAM (pe_w3 env)) pushCap (zip remaining (zip destAtas infos)) (ea_pushedAmount acc) of
       (pushable, unsorted, pushedTotal) \<Rightarrow>
     io_then (io_for (chunks PUSH_CHUNK_SIZE pushable) (push_chunk env ctx acc epoch))
     (io_then (setEpochPhase (po_dbc_pool (pc_pool ctx)) (ea_index acc) Pushed no_extra)
     (io_bind (epoch_tree env epoch (sort_key pi_wallet unsorted)) (\<lambda>tree.
     if tree_total tree > ea_totalAmount acc - pushedTotal then io_throw ''merkle total exceeds remainder'' else
     io_bind (sendWithPriority (pe_exec env) (pe_cfg env)
       [FinalizeEpoch (pc_keeper ctx) epoch (tree_root tree) (tree_total tree)] no_opts) (\<lambda>finalizeSig.
     writeFinalized env ctx (ea_index acc) epoch (hex_text (tree_root tree)) pushedTotal tree (Some finalizeSig))))))))))"

section \<open>Resume and repair\<close>

definition plan_insert :: "PoolCtx \<Rightarrow> payout_env \<Rightarrow> int \<Rightarrow> bytes \<Rightarrow> int \<Rightarrow> int \<Rightarrow> int \<Rightarrow> EpochPlanItem list \<Rightarrow> EpochPlanInsert" where
  "plan_insert ctx env index mint startTs endTs amount plan = \<lparr>gi_pool = po_dbc_pool (pc_pool ctx), gi_epoch_index = index,
     gi_epoch_pubkey = w3_text (pe_w3 env) (epochPdaFor env ctx index), gi_coin_mint = w3_text (pe_w3 env) mint,
     gi_start_ts = startTs, gi_end_ts = endTs, gi_total_amount = amount, gi_plan = plan\<rparr>"

definition epoch_insert :: "PoolCtx \<Rightarrow> payout_env \<Rightarrow> int \<Rightarrow> bytes \<Rightarrow> int \<Rightarrow> int \<Rightarrow> int \<Rightarrow> EpochPlanItem list \<Rightarrow> EpochInsert" where
  "epoch_insert ctx env index mint startTs endTs amount plan = \<lparr>ei_pool = po_dbc_pool (pc_pool ctx), ei_index = index,
     ei_coin_mint = w3_text (pe_w3 env) mint, ei_start_ts = startTs, ei_end_ts = endTs, ei_total_amount = amount,
     ei_eligible_holders = int (length plan), ei_epoch_pubkey = w3_text (pe_w3 env) (epochPdaFor env ctx index)\<rparr>"

definition recompute_plan :: "payout_env \<Rightarrow> PoolCtx \<Rightarrow> EpochAccount \<Rightarrow> EpochPlanItem list pio" where
  "recompute_plan env ctx acc =
     io_bind (computePlan env ctx (ea_startTs acc) (ea_endTs acc) (ea_totalAmount acc)) (\<lambda>recomputed.
     let plan = (case recomputed of None \<Rightarrow> [] | Some p \<Rightarrow> pl_items p) in
     io_then (saveEpochPlan (plan_insert ctx env (ea_index acc) (ea_coinMint acc) (ea_startTs acc) (ea_endTs acc)
       (ea_totalAmount acc) plan)) (io_ret plan))"

definition resume_plan :: "payout_env \<Rightarrow> PoolCtx \<Rightarrow> EpochAccount \<Rightarrow> EpochPlanItem list pio" where
  "resume_plan env ctx acc =
     io_bind (getEpochProgress (po_dbc_pool (pc_pool ctx)) (ea_index acc)) (\<lambda>progress.
     case progress of
       Some p \<Rightarrow> if gr_total_amount p = ea_totalAmount acc then io_ret (gr_plan p) else recompute_plan env ctx acc
     | None \<Rightarrow> recompute_plan env ctx acc)"

definition error_text :: "string \<Rightarrow> string" where
  "error_text err = ''Error: '' @ err"

definition resumeEpoch :: "payout_env \<Rightarrow> PoolCtx \<Rightarrow> EpochAccount \<Rightarrow> unit pio" where
  "resumeEpoch env ctx acc =
     io_bind (resume_plan env ctx acc) (\<lambda>plan.
     io_then (setEpochPhase (po_dbc_pool (pc_pool ctx)) (ea_index acc) Opened no_extra)
     (io_then (insertEpoch (epoch_insert ctx env (ea_index acc) (ea_coinMint acc) (ea_startTs acc) (ea_endTs acc)
        (ea_totalAmount acc) plan))
     (io_catch
       (io_bind (reconcilePushed env ctx acc) (pushAndFinalize env ctx acc plan))
       (\<lambda>err. io_then (setEpochError (po_dbc_pool (pc_pool ctx)) (ea_index acc) (error_text err)) (io_throw err)))))"

definition repairFinalizedBookkeeping :: "payout_env \<Rightarrow> PoolCtx \<Rightarrow> EpochAccount \<Rightarrow> unit pio" where
  "repairFinalizedBookkeeping env ctx acc =
     io_bind (getEpochProgress (po_dbc_pool (pc_pool ctx)) (ea_index acc)) (\<lambda>progress.
     case progress of None \<Rightarrow> io_ret () | Some p \<Rightarrow> if gr_phase p = Finalized then io_ret () else
     io_bind (reconcilePushed env ctx acc) (\<lambda>pushed.
     let merkle = sort_key pi_wallet (filter (\<lambda>x. pi_amount x > 0 \<and> pi_wallet x \<notin> fst ` set pushed) (gr_plan p));
         epoch = epochPdaFor env ctx (ea_index acc) in
     io_bind (epoch_tree env epoch merkle) (\<lambda>tree.
     let rootHex = (case tree of None \<Rightarrow> ZERO_ROOT_HEX | Some t \<Rightarrow> hex_text (t_root t)) in
     if rootHex \<noteq> ea_merkleRootHex acc
     then setEpochError (po_dbc_pool (pc_pool ctx)) (ea_index acc) ''rebuilt root differs; merkle_leaves NOT written''
     else writeFinalized env ctx (ea_index acc) epoch rootHex (ea_pushedAmount acc) tree None)))"

section \<open>A new epoch\<close>

text \<open>\<open>chainNowSec\<close> of \<^verbatim>\<open>oracle.ts\<close>: the time of the latest confirmed block, or the host clock.\<close>

definition chainNowSec :: "int pio" where
  "chainNowSec = chain_now ch_clock"

text \<open>\<open>getTokenAccountBalance(vault).catch(() => null)\<close>.\<close>

definition vaultBalance :: "bytes \<Rightarrow> int option pio" where
  "vaultBalance vault = io_catch
     (io_bind (rpc_read (\<lambda>c. token_at (ch_accounts c) vault)) (\<lambda>t.
        io_bind (io_some t ''could not find account'') (\<lambda>t. io_ret (Some (ta_amount t)))))
     (\<lambda>_. io_ret None)"

definition num_int :: "jsnum \<Rightarrow> int" where
  "num_int x = (case x of Fin q \<Rightarrow> \<lfloor>q\<rfloor> | _ \<Rightarrow> 0)"

definition open_ix :: "payout_env \<Rightarrow> PoolCtx \<Rightarrow> int \<Rightarrow> int \<Rightarrow> int \<Rightarrow> int \<Rightarrow> Plan \<Rightarrow> dist_ix" where
  "open_ix env ctx index startTs endTs amount plan = (let epoch = epochPdaFor env ctx index in OpenEpoch
     \<lparr>oa_keeper = pc_keeper ctx, oa_epoch = epoch, oa_coin_mint = pc_coinMint ctx,
      oa_epoch_vault = associatedToken env (pc_coinMint ctx) epoch, oa_source_vault = pc_holderVault ctx,
      oa_source_authority = fst (feeRouter_pool (pe_w3 env) (pc_frId ctx) (pc_dbcPool ctx)), oa_source_signs = False,
      oa_token_program = TOKEN_PROGRAM (pe_w3 env),
      oa_remaining = [pc_frId ctx, fst (feeRouter_router (pe_w3 env) (pc_frId ctx))]\<rparr>
     \<lparr>oe_pool = pc_dbcPool ctx, oe_index = index, oe_start_ts = startTs, oe_end_ts = endTs, oe_total_amount = amount,
      oe_eligible_holders = int (length (pl_items plan)), oe_twab_total = pl_twabTotal plan\<rparr>)"

definition start_epoch :: "payout_env \<Rightarrow> PoolCtx \<Rightarrow> int \<Rightarrow> int \<Rightarrow> int \<Rightarrow> int \<Rightarrow> Plan \<Rightarrow> unit pio" where
  "start_epoch env ctx index startTs endTs amount plan =
     io_then (saveEpochPlan (plan_insert ctx env index (pc_coinMint ctx) startTs endTs amount (pl_items plan)))
     (io_bind (sendWithPriority (pe_exec env) (pe_cfg env) [open_ix env ctx index startTs endTs amount plan] no_opts) (\<lambda>openSig.
     io_then (setEpochPhase (po_dbc_pool (pc_pool ctx)) index Opened (no_extra\<lparr>px_open_sig := Some openSig\<rparr>))
     (io_then (insertEpoch (epoch_insert ctx env index (pc_coinMint ctx) startTs endTs amount (pl_items plan)))
     (io_bind (fetchEpoch (epochPdaFor env ctx index)) (\<lambda>acc.
     io_bind (io_some acc ''Epoch not readable yet; will resume next cycle'') (\<lambda>acc.
     pushAndFinalize env ctx acc (pl_items plan) []))))))"

definition vault_usd :: "int \<Rightarrow> int \<Rightarrow> jsnum" where
  "vault_usd vaultBaseUnits price = (num_of_int vaultBaseUnits div Fin 1000000) * (num_of_int price div Fin 100000000)"

definition openNewEpoch :: "payout_env \<Rightarrow> PoolCtx \<Rightarrow> EpochAccount option \<Rightarrow> unit pio" where
  "openNewEpoch env ctx latest =
     io_bind (vaultBalance (pc_holderVault ctx)) (\<lambda>balance. case balance of None \<Rightarrow> io_ret () | Some vaultBaseUnits \<Rightarrow>
     if vaultBaseUnits = 0 then io_ret () else
     io_bind (getLatestPrice (po_commodity (pc_pool ctx))) (\<lambda>coinPrice. case coinPrice of None \<Rightarrow> io_ret () | Some price \<Rightarrow>
     if vault_usd vaultBaseUnits (pr_price price) < cfg_payoutMinPoolUsd (pe_cfg env) then io_ret () else
     io_bind chainNowSec (\<lambda>nowSec.
     let index = (case latest of None \<Rightarrow> 0 | Some l \<Rightarrow> ea_index l + 1);
         startTs = (case latest of None \<Rightarrow> nowSec - num_int (cfg_feeCycleIntervalSec (pe_cfg env)) | Some l \<Rightarrow> ea_endTs l);
         endTs = nowSec in
     if endTs \<le> startTs then io_ret () else
     io_bind (computePlan env ctx startTs endTs vaultBaseUnits) (\<lambda>plan. case plan of None \<Rightarrow> io_ret () | Some p \<Rightarrow>
     start_epoch env ctx index startTs endTs vaultBaseUnits p))))"

section \<open>The cycle\<close>

definition runPayoutsForPool :: "payout_env \<Rightarrow> PoolCtx \<Rightarrow> unit pio" where
  "runPayoutsForPool env ctx = io_bind (findLatestOnChainEpoch env ctx) (\<lambda>latest. case latest of
     None \<Rightarrow> openNewEpoch env ctx None
   | Some l \<Rightarrow> if \<not> ea_finalized l then resumeEpoch env ctx l else
       io_then (io_catch (repairFinalizedBookkeeping env ctx l)
         (\<lambda>err. setEpochError (po_dbc_pool (pc_pool ctx)) (ea_index l) (error_text err)))
       (openNewEpoch env ctx (Some l)))"

definition runPayoutsCycle :: "payout_env \<Rightarrow> unit pio" where
  "runPayoutsCycle env = io_bind listAllPools (\<lambda>pools. io_for pools (\<lambda>pool.
     io_catch (io_bind (io_result (poolCtx env pool)) (runPayoutsForPool env)) (\<lambda>err. io_ret ())))"

end
