(* ===== verification/Payout_Safety.thy ===== *)
theory Payout_Safety
  imports Payouts
begin

text \<open>
  The payout cycle pays nobody twice.  The invariant ties the keeper's tables to the ledger: every
  push in the \<open>payouts\<close> table happened on the chain, no wallet was pushed twice in an epoch, stored
  plans name a wallet once.  It holds at every await, so it survives the death of the process
  anywhere; the central lemma is that a part of an epoch's pushes with the same positive sum is all
  of them, which is what makes the comparison with \<open>Epoch.pushed_amount\<close> enough.
\<close>

section \<open>Invariant\<close>

definition prog_key :: "payout_env \<Rightarrow> bytes" where
  "prog_key env = const_key (pe_w3 env) (cfg_distributorProgramId (pe_cfg env))"

definition epoch_of :: "payout_env \<Rightarrow> bytes \<Rightarrow> int \<Rightarrow> bytes" where
  "epoch_of env pool index = fst (distributor_epoch (pe_w3 env) (prog_key env) pool index)"

text \<open>
  What the proofs assume of the outside: the base58 codec, the distributor behind the configured
  program id, and that no other seeds derive the epoch address of a pool the keeper serves.
\<close>

definition env_ok :: "payout_env \<Rightarrow> transfer_checked \<Rightarrow> (bytes list \<Rightarrow> bytes) \<Rightarrow> bytes set \<Rightarrow> bool" where
  "env_ok env xf hashv S \<longleftrightarrow> web3_ok (pe_w3 env) \<and>
     new_PublicKey (pe_w3 env) (cfg_distributorProgramId (pe_cfg env)) = Inr (prog_key env) \<and>
     pe_exec env = dist_exec (pe_w3 env) xf hashv (prog_key env) \<and>
     (\<forall>p \<in> S. \<forall>p' i j. epoch_of env p i = epoch_of env p' j \<longrightarrow> p' = p \<and> u32LE i = u32LE j)"

text \<open>A row of the payouts table is backed by a push on the chain.\<close>

definition backed :: "payout_env \<Rightarrow> dist_chain \<Rightarrow> PayoutCol \<Rightarrow> bool" where
  "backed env c r \<longleftrightarrow> (yc_kind r = 0 \<longrightarrow> (\<exists>b k. w3_key (pe_w3 env) (yc_pool r) = Some b \<and>
     w3_key (pe_w3 env) (yc_wallet r) = Some k \<and>
     (k, of_human6 (yc_amount r)) \<in> set (pushes (epoch_of env b (yc_epoch r)) c)))"

definition chain_ok :: "payout_env \<Rightarrow> dist_chain \<Rightarrow> bool" where
  "chain_ok env c \<longleftrightarrow> dist_inv (pe_w3 env) (prog_key env) c \<and>
     (\<forall>key. distinct (map fst (pushes key c)) \<and> (\<forall>k \<in> fst ` set (pushes key c). length k = 32))"

definition plans_ok :: "ProgressCol list \<Rightarrow> bool" where
  "plans_ok t \<longleftrightarrow> (\<forall>r \<in> set t. \<forall>plan. parse_plan (gc_plan r) = Some plan \<longrightarrow> distinct (map pi_wallet plan))"

definition pools_ok :: "payout_env \<Rightarrow> bytes set \<Rightarrow> PoolRow list \<Rightarrow> bool" where
  "pools_ok env S t \<longleftrightarrow> (\<forall>p \<in> set t. \<forall>b. w3_key (pe_w3 env) (po_dbc_pool p) = Some b \<longrightarrow> b \<in> S)"

definition ledger_inv :: "payout_env \<Rightarrow> bytes set \<Rightarrow> payout_world \<Rightarrow> bool" where
  "ledger_inv env S w \<longleftrightarrow> chain_ok env (cw_chain w) \<and> clean_sends w \<and>
     (\<forall>r \<in> set (db_payouts (kw_db w)). backed env (cw_chain w) r) \<and> distinct (map payout_key (db_payouts (kw_db w))) \<and>
     plans_ok (db_progress (kw_db w)) \<and> pools_ok env S (db_pools (kw_db w))"

text \<open>\<open>steady c\<close>: the invariant, on the chain \<open>c\<close>.  Everything but a sent transaction keeps it.\<close>

definition steady :: "payout_env \<Rightarrow> bytes set \<Rightarrow> dist_chain \<Rightarrow> payout_world \<Rightarrow> bool" where
  "steady env S c w \<longleftrightarrow> ledger_inv env S w \<and> cw_chain w = c"

lemma steady_ledger: "steady env S c w \<Longrightarrow> ledger_inv env S w"
  by (simp add: steady_def)

lemma ledger_steady: "ledger_inv env S w \<Longrightarrow> steady env S (cw_chain w) w"
  by (simp add: steady_def)

lemma fault_blind_ledger [simp, intro]: "fault_blind (ledger_inv env S)" "fault_blind (steady env S c)"
  by (auto simp: fault_blind_def ledger_inv_def steady_def clean_sends_def)

section \<open>Keys and text\<close>

lemma web3_key_text: "web3_ok w3 \<Longrightarrow> w3_key w3 s = Some b \<Longrightarrow> w3_text w3 b = s \<and> length b = 32"
  by (simp add: web3_ok_def)

lemma web3_text_key: "web3_ok w3 \<Longrightarrow> length b = 32 \<Longrightarrow> w3_key w3 (w3_text w3 b) = Some b"
  by (simp add: web3_ok_def)

lemma new_PublicKey_Inr: "new_PublicKey w3 s = Inr b \<longleftrightarrow> w3_key w3 s = Some b"
  by (simp add: new_PublicKey_def split: option.splits)

lemma smap_keys:
  "smap (\<lambda>x. new_PublicKey w3 (f x)) xs = Inr ks \<Longrightarrow>
    length ks = length xs \<and> (\<forall>i < length xs. w3_key w3 (f (xs ! i)) = Some (ks ! i))"
  using smap_Inr_length smap_Inr_nth by (fastforce simp: new_PublicKey_Inr)

section \<open>Queries keep the invariant\<close>

lemma steady_db:
  assumes "steady env S c w" "db_payouts d = db_payouts (kw_db w)" "db_progress d = db_progress (kw_db w)"
    "db_pools d = db_pools (kw_db w)"
  shows "steady env S c (w\<lparr>kw_db := d\<rparr>)"
  using assms by (auto simp: steady_def ledger_inv_def clean_sends_def)

lemma steady_progress:
  assumes "steady env S c w" "db_payouts d = db_payouts (kw_db w)" "plans_ok (db_progress d)" "db_pools d = db_pools (kw_db w)"
  shows "steady env S c (w\<lparr>kw_db := d\<rparr>)"
  using assms by (auto simp: steady_def ledger_inv_def clean_sends_def)

lemma steady_reads [io_rules]:
  "io_inv (steady env S c) (db_read f)" "io_inv (steady env S c) (rpc_read g)"
  by (simp_all add: db_read_inv rpc_read_inv)

text \<open>Updates that leave the plans alone.\<close>

lemma plans_ok_update:
  assumes "plans_ok t" "\<And>r. gc_plan (upd r) = gc_plan r"
  shows "plans_ok (update_where P upd t)"
  using assms by (auto simp: plans_ok_def update_where_def)

lemma steady_setEpochPhase [io_rules]: "io_inv (steady env S c) (setEpochPhase pool i ph ex)"
  unfolding setEpochPhase_def
proof (rule db_write_inv)
  fix w assume s: "steady env S c w"
  then have "plans_ok (db_progress (kw_db w))" by (simp add: steady_def ledger_inv_def)
  then show "steady env S c (w\<lparr>kw_db := (kw_db w)\<lparr>db_progress := update_where
     (\<lambda>r. gc_pool r = pool \<and> gc_epoch_index r = i)
     (\<lambda>r. r\<lparr>gc_phase := ph, gc_open_sig := coalesce (px_open_sig ex) (gc_open_sig r),
        gc_finalize_sig := coalesce (px_finalize_sig ex) (gc_finalize_sig r),
        gc_merkle_root := coalesce (px_merkle_root ex) (gc_merkle_root r),
        gc_last_error := px_last_error ex\<rparr>) (db_progress (kw_db w))\<rparr>\<rparr>)"
    using s by (intro steady_progress) (simp_all add: plans_ok_update)
qed simp

lemma steady_setEpochError [io_rules]: "io_inv (steady env S c) (setEpochError pool i err)"
  unfolding setEpochError_def
proof (rule db_write_inv)
  fix w assume s: "steady env S c w"
  then have "plans_ok (db_progress (kw_db w))" by (simp add: steady_def ledger_inv_def)
  then show "steady env S c (w\<lparr>kw_db := (kw_db w)\<lparr>db_progress := update_where
     (\<lambda>r. gc_pool r = pool \<and> gc_epoch_index r = i)
     (\<lambda>r. r\<lparr>gc_last_error := Some (take 2000 err)\<rparr>) (db_progress (kw_db w))\<rparr>\<rparr>)"
    using s by (intro steady_progress) (simp_all add: plans_ok_update)
qed simp

lemma steady_insertEpoch [io_rules]: "io_inv (steady env S c) (insertEpoch row)"
  unfolding insertEpoch_def by (rule db_write_inv) (simp_all add: steady_db)

lemma steady_markEpochFinalized [io_rules]: "io_inv (steady env S c) (markEpochFinalized p i r a t)"
  unfolding markEpochFinalized_def by (rule db_write_inv) (simp_all add: steady_db)

lemma steady_insertMerkleLeaves [io_rules]: "io_inv (steady env S c) (insertMerkleLeaves rows)"
proof -
  have "io_inv (steady env S c) (db_write (\<lambda>now d. d\<lparr>db_leaves := staged\<rparr>))" for staged
    by (rule db_write_inv) (simp_all add: steady_db)
  then show ?thesis unfolding insertMerkleLeaves_def by (simp add: io_rules)
qed

lemma steady_saveEpochPlan [io_rules]:
  assumes "distinct (map pi_wallet (gi_plan row))"
  shows "io_inv (steady env S c) (saveEpochPlan row)"
  unfolding saveEpochPlan_def
proof (rule db_write_inv)
  fix w assume s: "steady env S c w"
  then have "plans_ok (db_progress (kw_db w))" by (simp add: steady_def ledger_inv_def)
  then have "plans_ok (upsert progress_key (plan_update row) (plan_new row) (db_progress (kw_db w)))"
    using assms by (auto simp: plans_ok_def upsert_def plan_update_def plan_new_def split: if_splits)
  then show "steady env S c (w\<lparr>kw_db := (kw_db w)\<lparr>db_progress :=
      upsert progress_key (plan_update row) (plan_new row) (db_progress (kw_db w))\<rparr>\<rparr>)"
    using s by (intro steady_progress) simp_all
qed simp

text \<open>Recording a payout that happened.\<close>

lemma steady_recordPayout:
  assumes "\<And>now. backed env c (payout_row row now)"
  shows "io_inv (steady env S c) (recordPayout row)"
  unfolding recordPayout_def
proof (rule db_write_inv)
  fix w assume s: "steady env S c w"
  let ?t = "insert_or_ignore payout_key (payout_row row (kw_now w)) (db_payouts (kw_db w))"
  have "\<forall>r \<in> set ?t. backed env c r"
    using s assms payouts_tbl.ins_only by (fastforce simp: steady_def ledger_inv_def)
  moreover have "distinct (map payout_key ?t)"
    using s payouts_tbl.unique_ins by (simp add: steady_def ledger_inv_def payouts_tbl.unique_keys_def)
  ultimately show "steady env S c (w\<lparr>kw_db := (kw_db w)\<lparr>db_payouts := ?t\<rparr>\<rparr>)"
    using s by (auto simp: steady_def ledger_inv_def clean_sends_def)
qed simp

section \<open>Computations with a value\<close>

lemma io_spec_value:
  assumes "io_inv I m" "\<And>w a w'. I w \<Longrightarrow> m w = (Ret a, w') \<Longrightarrow> R a"
  shows "io_spec I m (\<lambda>a w. R a \<and> I w) I"
proof (rule io_specI)
  fix w assume I: "I w"
  obtain r w' where m: "m w = (r, w')" by (cases "m w")
  have "I w'" using io_invD [OF assms(1) I] m by simp
  then show "case m w of (Ret a, w') \<Rightarrow> R a \<and> I w' | (_, w') \<Rightarrow> I w'"
    using assms(2) [OF I] m by (cases r) auto
qed

text \<open>Reading the chain returns what the chain says.\<close>

lemma rpc_read_value: "rpc_read f w = (Ret a, w') \<Longrightarrow> a = f (cw_chain w)"
  using rpc_read_effect by blast

lemma db_read_value: "db_read f w = (Ret a, w') \<Longrightarrow> a = f (kw_db w)"
proof -
  assume r: "db_read f w = (Ret a, w')"
  obtain g w1 where p: "pop_fault w = (g, w1)" by (cases "pop_fault w")
  then show ?thesis using r pop_fault_db [OF p] by (cases g) (auto simp: db_read_def db_query_def remote_def)
qed

lemma rpc_read_steady:
  "io_spec (steady env S c) (rpc_read f) (\<lambda>a w. a = f c \<and> steady env S c w) (steady env S c)"
  by (rule io_spec_value [OF steady_reads(2)]) (auto dest: rpc_read_value simp: steady_def)

section \<open>Results of the queries\<close>

lemma io_bind_value:
  assumes "io_bind m f w = (Ret b, w')"
  obtains a w1 where "m w = (Ret a, w1)" "f a w1 = (Ret b, w')"
  using assms by (cases "m w"; cases "fst (m w)") (auto simp: io_bind_def)

lemma find_progress_mem: "find_progress p i d = Some r \<Longrightarrow> r \<in> set (db_progress d)"
  using find_progress_Some by blast

lemma steady_getEpochProgress [io_rules]: "io_inv (steady env S c) (getEpochProgress p i)"
  unfolding getEpochProgress_def by (intro io_rules) (auto split: option.splits intro!: io_rules)

lemma progress_row_plan: "progress_row r = Inr p \<Longrightarrow> parse_plan (gc_plan r) = Some (gr_plan p)"
  by (auto simp: progress_row_def split: option.splits)

lemma getEpochProgress_plan:
  "io_spec (steady env S c) (getEpochProgress p i)
     (\<lambda>a w. (\<forall>g. a = Some g \<longrightarrow> distinct (map pi_wallet (gr_plan g))) \<and> steady env S c w) (steady env S c)"
proof (rule io_spec_value [OF steady_getEpochProgress], intro allI impI)
  fix w a w' g
  assume s: "steady env S c w" and r: "getEpochProgress p i w = (Ret a, w')" and a: "a = Some g"
  obtain row w1 where row: "db_read (find_progress p i) w = (Ret row, w1)"
    "(case row of None \<Rightarrow> io_ret None | Some row \<Rightarrow> io_bind (io_result (progress_row row)) (\<lambda>p. io_ret (Some p))) w1 = (Ret a, w')"
    using r unfolding getEpochProgress_def by (rule io_bind_value)
  then obtain rr where rr: "row = Some rr" "progress_row rr = Inr g"
    using a by (cases row; cases "progress_row (the row)") (auto simp: io_ret_def io_bind_def io_result_def io_throw_def)
  have "rr \<in> set (db_progress (kw_db w))" using db_read_value [OF row(1)] rr(1) find_progress_mem by metis
  then show "distinct (map pi_wallet (gr_plan g))"
    using s progress_row_plan [OF rr(2)] by (auto simp: steady_def ledger_inv_def plans_ok_def)
qed

text \<open>Plans name a wallet once.\<close>

lemma share_loop_distinct:
  "distinct (map fst (fst st)) \<Longrightarrow> distinct (map fst (fst (share_loop a t xs st)))"
  by (induction a t xs st rule: share_loop.induct) (simp_all add: Let_def distinct_update)

lemma computeShares_distinct: "computeShares twab a opts = Inr shares \<Longrightarrow> distinct (map fst shares)"
proof -
  assume run: "computeShares twab a opts = Inr shares"
  obtain mb where mb: "usdToCoinBaseUnits (sh_minHoldingUsd opts) (sh_priceUsd8 opts) (sh_coinDecimals opts) = Inr mb"
    using run by (auto simp: computeShares_def result_simps)
  let ?e = "filter (\<lambda>(_, bal). bal \<ge> mb) twab"
  let ?l = "share_loop a (fold (\<lambda>(_, bal) sum. sum + bal) ?e 0) ?e ([], 0, fst (hd ?e), -1)"
  have "distinct (map fst (fst ?l))" by (rule share_loop_distinct) simp
  then show ?thesis using run mb
    by (cases ?l) (auto simp: computeShares_def Let_def distinct_update split: if_splits)
qed

lemma plan_items_distinct: "distinct (map fst shares) \<Longrightarrow> distinct (map pi_wallet (plan_items shares))"
proof -
  assume d: "distinct (map fst shares)"
  let ?items = "map (\<lambda>(wallet, amount). \<lparr>pi_wallet = wallet, pi_amount = amount\<rparr>) (filter (\<lambda>(_, amount). amount > 0) shares)"
  have "map pi_wallet ?items = map fst (filter (\<lambda>(_, amount). amount > 0) shares)" by (induction shares) auto
  moreover have "distinct (map fst (filter (\<lambda>(_, amount). amount > 0) shares))" using d by (rule distinct_map_filter)
  ultimately have "distinct (map pi_wallet ?items)" by (simp only:)
  moreover have "mset (map pi_wallet (sort_key pi_wallet xs)) = mset (map pi_wallet xs)" for xs
    by (simp only: mset_map mset_sort)
  ultimately show ?thesis unfolding plan_items_def using mset_eq_imp_distinct_iff by blast
qed

lemma io_error_inv [io_rules]: "io_inv I (io_error r)"
  by (cases r) (simp_all add: io_error_def io_rules)

lemma io_some_inv [io_rules]: "io_inv I (io_some x e)"
  by (cases x) (simp_all add: io_some_def io_rules)

lemma steady_applyMinHoldingFilter [io_rules]: "io_inv (steady env S c) (applyMinHoldingFilter env' pool twab)"
  unfolding applyMinHoldingFilter_def getLatestCandleClose_def getLatestPrice_def
  by (intro io_rules) (auto split: option.splits intro!: io_rules)

lemma computePlan_distinct:
  "io_spec (steady env S c) (computePlan env' ctx s e a)
     (\<lambda>p w. (\<forall>q. p = Some q \<longrightarrow> distinct (map pi_wallet (pl_items q))) \<and> steady env S c w) (steady env S c)"
proof (rule io_spec_value)
  show "io_inv (steady env S c) (computePlan env' ctx s e a)"
    unfolding computePlan_def getBalanceEvents_def getBalanceEventsBefore_def by (intro io_rules)
next
  fix w p w'
  assume run: "computePlan env' ctx s e a w = (Ret p, w')"
  show "\<forall>q. p = Some q \<longrightarrow> distinct (map pi_wallet (pl_items q))"
  proof (intro allI impI)
    fix q assume q: "p = Some q"
    obtain shares where "pl_items q = plan_items shares" "distinct (map fst shares)"
      using run q unfolding computePlan_def
      by (elim io_bind_value)
        (auto simp: io_ret_def io_error_def io_throw_def split: if_splits sum.splits elim!: io_bind_value
          dest!: computeShares_distinct)
    then show "distinct (map pi_wallet (pl_items q))" by (simp add: plan_items_distinct)
  qed
qed

section \<open>Reconciling\<close>

text \<open>
  \<open>partial pushed\<close>: every entry is a push of the epoch, one per wallet; \<open>full pushed\<close>: every pushed
  wallet has an entry.
\<close>

definition partial_pushed :: "payout_env \<Rightarrow> bytes \<Rightarrow> dist_chain \<Rightarrow> (string, int) jsmap \<Rightarrow> bool" where
  "partial_pushed env key c pushed \<longleftrightarrow> distinct (map fst pushed) \<and>
     (\<forall>(s, a) \<in> set pushed. \<exists>k. w3_key (pe_w3 env) s = Some k \<and> (k, a) \<in> set (pushes key c))"

definition full_pushed :: "payout_env \<Rightarrow> bytes \<Rightarrow> dist_chain \<Rightarrow> (string, int) jsmap \<Rightarrow> bool" where
  "full_pushed env key c pushed \<longleftrightarrow> (\<forall>k \<in> fst ` set (pushes key c). w3_text (pe_w3 env) k \<in> fst ` set pushed)"

lemma chain_ok_pushes:
  assumes "chain_ok env c"
  shows "distinct (map fst (pushes key c))" "positive (pushes key c)" "k \<in> fst ` set (pushes key c) \<Longrightarrow> length k = 32"
  using assms unfolding chain_ok_def dist_inv_def by blast+

text \<open>A part with the same sum is everything.\<close>

lemma partial_full:
  assumes "web3_ok (pe_w3 env)" "chain_ok env c" "partial_pushed env key c pushed"
    and "ledger_sum pushed = ledger_sum (pushes key c)"
  shows "full_pushed env key c pushed"
proof -
  let ?key = "\<lambda>s. the (w3_key (pe_w3 env) s)"
  let ?ys = "map (\<lambda>(s, a). (?key s, a)) pushed"
  note ok = chain_ok_pushes [OF assms(2)]
  have entry: "\<exists>k. w3_key (pe_w3 env) s = Some k \<and> (k, a) \<in> set (pushes key c)" if "(s, a) \<in> set pushed" for s a
    using assms(3) that by (auto simp: partial_pushed_def)
  have "inj_on ?key (fst ` set pushed)"
  proof (rule inj_onI)
    fix s t assume st: "s \<in> fst ` set pushed" "t \<in> fst ` set pushed" "?key s = ?key t"
    then obtain k l where "w3_key (pe_w3 env) s = Some k" "w3_key (pe_w3 env) t = Some l" using entry by fastforce
    then show "s = t" using st(3) web3_key_text [OF assms(1), of s] web3_key_text [OF assms(1), of t] by auto
  qed
  then have "distinct (map ?key (map fst pushed))"
    using assms(3) unfolding partial_pushed_def distinct_map by (simp add: image_image)
  moreover have "map ?key (map fst pushed) = map fst ?ys" by (induction pushed) auto
  ultimately have d: "distinct (map fst ?ys)" by (simp only:)
  have sub: "set ?ys \<subseteq> set (pushes key c)" using entry by fastforce
  have "ledger_sum ?ys = ledger_sum pushed" by (induction pushed) auto
  then have "set ?ys = set (pushes key c)" using assms(4) by (intro sub_ledger(2) [OF ok(1) d sub ok(2)]) simp
  then show ?thesis unfolding full_pushed_def
  proof (intro ballI)
    fix k assume ys: "set ?ys = set (pushes key c)" and "k \<in> fst ` set (pushes key c)"
    then have "k \<in> fst ` set ?ys" by (simp only:)
    then obtain s a where sa: "(s, a) \<in> set pushed" "k = ?key s" by auto
    obtain l where "w3_key (pe_w3 env) s = Some l" using entry [OF sa(1)] by blast
    then have "w3_text (pe_w3 env) k = s" using web3_key_text [OF assms(1)] sa(2) by auto
    then show "w3_text (pe_w3 env) k \<in> fst ` set pushed" using sa(1) by force
  qed
qed

text \<open>The rows of the database are a part.\<close>

lemma new_Map_distinct: "distinct (map fst rows) \<Longrightarrow> new_Map rows = rows"
proof -
  have "distinct (map fst (m @ rows)) \<Longrightarrow> fold (\<lambda>(k, v). AList.update k v) rows m = m @ rows" for m
  proof (induction rows arbitrary: m)
    case (Cons r rows)
    then have "AList.update (fst r) (snd r) m = m @ [r]" by (cases r) (auto intro: update_fresh)
    then show ?case using Cons.IH [of "m @ [r]"] Cons.prems by (cases r) simp
  qed simp
  from this [of "[]"] show "distinct (map fst rows) \<Longrightarrow> new_Map rows = rows" by (simp add: new_Map_def)
qed

lemma pushed_rows_partial:
  assumes "\<forall>r \<in> set (db_payouts d). backed env c r" "distinct (map payout_key (db_payouts d))"
    and "w3_key (pe_w3 env) pool = Some b"
  shows "partial_pushed env (epoch_of env b i) c (pushed_rows pool i d)"
proof -
  let ?P = "\<lambda>r. yc_pool r = pool \<and> yc_epoch r = i \<and> yc_kind r = 0"
  have "distinct (map payout_key (filter ?P (db_payouts d)))" using assms(2) by (rule distinct_map_filter)
  then have "distinct (map yc_wallet (filter ?P (db_payouts d)))"
    unfolding distinct_map by (auto simp: inj_on_def payout_key_def)
  then have "distinct (map fst (pushed_rows pool i d))" by (simp add: pushed_rows_def comp_def)
  moreover have "\<exists>k. w3_key (pe_w3 env) s = Some k \<and> (k, a) \<in> set (pushes (epoch_of env b i) c)"
    if "(s, a) \<in> set (pushed_rows pool i d)" for s a
    using that assms(1,3) by (fastforce simp: pushed_rows_def backed_def)
  ultimately show ?thesis by (auto simp: partial_pushed_def)
qed

text \<open>Events read from the chain are pushes of the epoch.\<close>

lemma map_filter_mem: "x \<in> set xs \<Longrightarrow> f x = Some y \<Longrightarrow> y \<in> set (List.map_filter f xs)"
  by (induction xs) (auto simp: map_filter_def)

lemma event_in_pushes:
  assumes "r \<in> set (ch_log c)" "PayoutEvent d \<in> set (tx_events r)" "pv_kind d = 0" "pv_epoch d = key"
  shows "(pv_wallet d, pv_amount d) \<in> set (pushes key c)"
proof -
  have "PayoutEvent d \<in> set (concat (map tx_events (ch_log c)))" using assms(1,2) by auto
  then show ?thesis unfolding events_payouts_def by (rule map_filter_mem) (simp add: assms(3,4))
qed

text \<open>The context of a pool.\<close>

definition ctx_ok :: "payout_env \<Rightarrow> bytes set \<Rightarrow> PoolCtx \<Rightarrow> bool" where
  "ctx_ok env S ctx \<longleftrightarrow> pc_distId ctx = prog_key env \<and> pc_dbcPool ctx \<in> S \<and>
     w3_key (pe_w3 env) (po_dbc_pool (pc_pool ctx)) = Some (pc_dbcPool ctx)"

lemma epochPda_epoch_of: "ctx_ok env S ctx \<Longrightarrow> epochPdaFor env ctx i = epoch_of env (pc_dbcPool ctx) i"
  by (simp add: epochPdaFor_def epoch_of_def ctx_ok_def)

lemma backed_payout_row:
  assumes "ctx_ok env S ctx" "w3_key (pe_w3 env) s = Some k" "(k, a) \<in> set (pushes (epochPdaFor env ctx i) c)"
  shows "backed env c (payout_row (payout_insert ctx env i s a sig) now)"
  using assms by (auto simp: backed_def payout_row_def payout_insert_def epochPda_epoch_of ctx_ok_def)

lemma reconcile_event_spec:
  assumes "web3_ok (pe_w3 env)" "chain_ok env c" "ctx_ok env S ctx" "key = epochPdaFor env ctx (ea_index acc)"
    and "\<And>d. e = PayoutEvent d \<Longrightarrow> pv_kind d = 0 \<Longrightarrow> pv_epoch d = key \<Longrightarrow> (pv_wallet d, pv_amount d) \<in> set (pushes key c)"
  shows "io_spec (\<lambda>w. partial_pushed env key c pushed \<and> steady env S c w) (reconcile_event env ctx acc sig e pushed)
    (\<lambda>p w. partial_pushed env key c p \<and> steady env S c w) (steady env S c)"
proof (rule io_spec_conj_pre)
  assume part: "partial_pushed env key c pushed"
  have ret: "io_spec (steady env S c) (io_ret pushed) (\<lambda>p w. partial_pushed env key c p \<and> steady env S c w) (steady env S c)"
    using part by (intro io_ret_spec) simp
  show "io_spec (steady env S c) (reconcile_event env ctx acc sig e pushed)
    (\<lambda>p w. partial_pushed env key c p \<and> steady env S c w) (steady env S c)"
  proof (cases e)
    case (PayoutEvent d)
    let ?s = "w3_text (pe_w3 env) (pv_wallet d)"
    show ?thesis
    proof (cases "pv_kind d \<noteq> 0 \<or> pv_epoch d \<noteq> key \<or> ?s \<in> fst ` set pushed")
      case True
      then show ?thesis using ret PayoutEvent assms(4) by (auto simp: reconcile_event_def)
    next
      case False
      then have mem: "(pv_wallet d, pv_amount d) \<in> set (pushes key c)" using assms(5) PayoutEvent by blast
      have k: "w3_key (pe_w3 env) ?s = Some (pv_wallet d)"
        using chain_ok_pushes(3) [OF assms(2), of "pv_wallet d" key] mem by (intro web3_text_key [OF assms(1)]) force
      have "partial_pushed env key c (AList.update ?s (pv_amount d) pushed)"
        using part False mem k by (auto simp: partial_pushed_def update_fresh)
      moreover have "io_inv (steady env S c) (recordPayout (payout_insert ctx env (ea_index acc) ?s (pv_amount d) sig))"
        using mem k assms(3,4) by (intro steady_recordPayout backed_payout_row) simp_all
      ultimately show ?thesis using False PayoutEvent assms(4)
        by (auto simp: reconcile_event_def io_inv_def intro!: io_then_spec io_ret_spec)
    qed
  qed (simp_all add: reconcile_event_def ret)
qed

lemma reconcile_sig_spec:
  assumes "web3_ok (pe_w3 env)" "chain_ok env c" "ctx_ok env S ctx" "key = epochPdaFor env ctx (ea_index acc)"
  shows "io_spec (\<lambda>w. partial_pushed env key c pushed \<and> steady env S c w) (reconcile_sig env ctx acc sig pushed)
    (\<lambda>p w. partial_pushed env key c p \<and> steady env S c w) (steady env S c)"
  unfolding reconcile_sig_def parseEvents_def
proof (rule io_spec_conj_pre, rule io_bind_spec [OF rpc_read_steady], rule io_spec_conj_pre)
  fix events
  assume part: "partial_pushed env key c pushed"
    and ev: "events = concat (map tx_events (filter (\<lambda>r. tx_sig r = sig) (ch_log c)))"
  let ?I = "\<lambda>p w. partial_pushed env key c p \<and> steady env S c w"
  have "io_spec (?I pushed) (io_fold events (reconcile_event env ctx acc sig) pushed) ?I (steady env S c)"
  proof (rule io_fold_spec)
    fix e p assume "e \<in> set events"
    then obtain r where r: "r \<in> set (ch_log c)" "e \<in> set (tx_events r)" using ev by auto
    show "io_spec (?I p) (reconcile_event env ctx acc sig e p) ?I (steady env S c)"
      by (rule reconcile_event_spec [OF assms]) (use event_in_pushes r in blast)
  qed
  then show "io_spec (steady env S c) (io_fold events (reconcile_event env ctx acc sig) pushed) ?I (steady env S c)"
    using part by (auto elim: io_spec_pre)
qed

lemma reconcilePushed_spec:
  assumes "web3_ok (pe_w3 env)" "ctx_ok env S ctx" "key = epochPdaFor env ctx (ea_index acc)"
    and "ea_pushedAmount acc = ledger_sum (pushes key c)"
  shows "io_spec (steady env S c) (reconcilePushed env ctx acc)
    (\<lambda>p w. full_pushed env key c p \<and> steady env S c w) (steady env S c)"
  unfolding reconcilePushed_def
proof (rule io_bind_spec)
  let ?R = "\<lambda>rows w. (chain_ok env c \<and> partial_pushed env key c rows) \<and> steady env S c w"
  show "io_spec (steady env S c) (getPushedPayouts (po_dbc_pool (pc_pool ctx)) (ea_index acc)) ?R (steady env S c)"
    unfolding getPushedPayouts_def
  proof (rule io_spec_value [OF steady_reads(1)])
    fix w rows w'
    assume s: "steady env S c w" and r: "db_read (pushed_rows (po_dbc_pool (pc_pool ctx)) (ea_index acc)) w = (Ret rows, w')"
    have "partial_pushed env (epoch_of env (pc_dbcPool ctx) (ea_index acc)) c (pushed_rows (po_dbc_pool (pc_pool ctx)) (ea_index acc) (kw_db w))"
      using s assms(2) by (intro pushed_rows_partial) (auto simp: steady_def ledger_inv_def ctx_ok_def)
    then show "chain_ok env c \<and> partial_pushed env key c rows"
      using s db_read_value [OF r] assms(2,3) by (auto simp: steady_def ledger_inv_def epochPda_epoch_of)
  qed
  fix rows
  let ?full = "\<lambda>p w. full_pushed env key c p \<and> steady env S c w"
  show "io_spec (?R rows) (if ledger_sum rows = ea_pushedAmount acc then io_ret (new_Map rows) else
     io_bind (rpc_read (signatures_for (epochPdaFor env ctx (ea_index acc)))) (\<lambda>sigs.
     io_bind (io_fold sigs (reconcile_sig env ctx acc) (new_Map rows)) (\<lambda>pushed.
     if ledger_sum pushed \<noteq> ea_pushedAmount acc then io_throw ''cannot reconcile pushes''
     else io_ret pushed))) ?full (steady env S c)" (is "io_spec _ ?m _ _")
  proof (rule io_spec_conj_pre, elim conjE)
    assume ok: "chain_ok env c" and part: "partial_pushed env key c rows"
    have map: "new_Map rows = rows" using part by (intro new_Map_distinct) (simp add: partial_pushed_def)
    have full: "full_pushed env key c p" if "partial_pushed env key c p" "ledger_sum p = ea_pushedAmount acc" for p
      using that assms(4) by (intro partial_full [OF assms(1) ok]) simp_all
    let ?I = "\<lambda>p w. partial_pushed env key c p \<and> steady env S c w"
    have "io_spec (?I rows) (io_fold sigs (reconcile_sig env ctx acc) rows) ?I (steady env S c)" for sigs
      by (rule io_fold_spec) (rule reconcile_sig_spec [OF assms(1) ok assms(2,3)])
    then have fold: "io_spec (steady env S c) (io_fold sigs (reconcile_sig env ctx acc) rows) ?I (steady env S c)" for sigs
      using part by (auto elim: io_spec_pre)
    have "io_spec (steady env S c) (io_bind (rpc_read (signatures_for (epochPdaFor env ctx (ea_index acc)))) (\<lambda>sigs.
       io_bind (io_fold sigs (reconcile_sig env ctx acc) rows) (\<lambda>pushed.
       if ledger_sum pushed \<noteq> ea_pushedAmount acc then io_throw ''cannot reconcile pushes'' else io_ret pushed))) ?full (steady env S c)"
      using full steady_reads(2) unfolding io_inv_def
      by (auto intro!: io_bind_spec [OF _ io_bind_spec [OF fold]] io_throw_spec io_ret_spec)
    moreover have "ledger_sum rows = ea_pushedAmount acc \<Longrightarrow> io_spec (steady env S c) (io_ret rows) ?full (steady env S c)"
      using full [OF part] by (intro io_ret_spec) simp
    ultimately show "io_spec (steady env S c) ?m ?full (steady env S c)" by (simp add: map)
  qed
qed

section \<open>Sent transactions\<close>

lemma io_spec_ex:
  assumes "\<And>x. io_spec (P x) m Q E"
  shows "io_spec (\<lambda>w. \<exists>x. P x w) m Q E"
  unfolding io_spec_def
proof (intro allI impI, elim exE)
  fix w x assume "P x w"
  then show "case m w of (Ret a, w') \<Rightarrow> Q a w' | (_, w') \<Rightarrow> E w'"
    using assms [of x, unfolded io_spec_def, rule_format, of w] by simp
qed

lemma ledger_of_steady: "(\<And>c. io_inv (steady env S c) m) \<Longrightarrow> io_inv (ledger_inv env S) m"
  by (rule io_invI) (blast dest: io_invD intro: ledger_steady steady_ledger)

lemma ledger_inv_send:
  assumes "ledger_inv env S w" "same_rest w w'" "clean_sends w'" "chain_ok env (cw_chain w')"
    and "\<And>key. set (pushes key (cw_chain w)) \<subseteq> set (pushes key (cw_chain w'))"
  shows "ledger_inv env S w'"
proof -
  have "kw_db w' = kw_db w" using same_rest_db [OF assms(2)] by simp
  moreover have "backed env (cw_chain w') r" if "backed env (cw_chain w) r" for r
    using that assms(5) unfolding backed_def by blast
  ultimately show ?thesis using assms(1,3,4) by (simp add: ledger_inv_def)
qed

text \<open>What an instruction may do to the ledger, and the rule for sending one.\<close>

definition grows :: "dist_chain \<Rightarrow> dist_chain \<Rightarrow> bool" where
  "grows c c' \<longleftrightarrow> (\<forall>key. set (pushes key c) \<subseteq> set (pushes key c'))"

lemma send_spec:
  assumes exec: "pe_exec env = dist_exec (pe_w3 env) xf hashv (prog_key env)"
    and ok: "\<And>sig c'. chain_ok env c \<Longrightarrow> dist_exec (pe_w3 env) xf hashv (prog_key env) sig ix c = Inr c' \<Longrightarrow>
      chain_ok env c' \<and> grows c c' \<and> R c'"
  shows "io_spec (steady env S c) (sendWithPriority (pe_exec env) (pe_cfg env) [ix] opts)
    (\<lambda>sig w. \<exists>c'. R c' \<and> steady env S c' w) (ledger_inv env S)"
proof (rule io_specI)
  fix w assume s: "steady env S c w"
  then have inv: "ledger_inv env S w" and c: "cw_chain w = c" and clean: "clean_sends w" and chain: "chain_ok env c"
    by (auto simp: steady_def ledger_inv_def)
  obtain r w' where run: "sendWithPriority (pe_exec env) (pe_cfg env) [ix] opts w = (r, w')"
    by (cases "sendWithPriority (pe_exec env) (pe_cfg env) [ix] opts w")
  have eff: "tx_effect (pe_exec env) (tx_of (pe_cfg env) [ix] opts) w r w'" by (rule send_effect [OF run clean])
  then have rest: "same_rest w w'" "clean_sends w'" by (simp_all add: tx_effect_def)
  have new: "ledger_inv env S w' \<and> R (cw_chain w')" if "pe_exec env sig ix c = Inr (cw_chain w')" for sig
  proof -
    have "chain_ok env (cw_chain w') \<and> grows c (cw_chain w') \<and> R (cw_chain w')"
      using ok [OF chain, of sig "cw_chain w'"] that exec by simp
    then show ?thesis using ledger_inv_send [OF inv rest] c by (simp add: grows_def)
  qed
  have old: "ledger_inv env S w'" if "cw_chain w' = c"
    using ledger_inv_send [OF inv rest] chain that c by simp
  show "case sendWithPriority (pe_exec env) (pe_cfg env) [ix] opts w of
      (Ret a, w') \<Rightarrow> \<exists>c'. R c' \<and> steady env S c' w' | (_, w') \<Rightarrow> ledger_inv env S w'"
  proof (cases r)
    case (Ret sig)
    then show ?thesis using eff new c by (auto simp: run tx_effect_def exec_tx_single steady_def)
  next
    case (Throw e)
    then show ?thesis using eff old c by (auto simp: run tx_effect_def)
  next
    case Crash
    then show ?thesis using eff old new c by (auto simp: run tx_effect_def exec_tx_single)
  qed
qed

fun is_push :: "dist_ix \<Rightarrow> bool" where
  "is_push (PushPayouts a items) = True"
| "is_push _ = False"

lemma exec_not_push:
  assumes "dist_exec w3 xf hashv prog sig ix c = Inr c'" "\<not> is_push ix"
  shows "pushes key c' = pushes key c"
proof -
  have run: "dist_run w3 xf hashv prog sig ix c = Inr c'" using assms(1) by (auto simp: dist_exec_def result_simps)
  show ?thesis
  proof (cases ix)
    case (OpenEpoch a args)
    then show ?thesis using run by (auto elim!: open_epoch_Inr simp: map_filter_def)
  next
    case (FinalizeEpoch keeper k root t)
    then show ?thesis using run by (auto elim!: finalize_epoch_Inr simp: map_filter_def)
  next
    case (Claim a amount nodes)
    then show ?thesis using run by (auto elim!: claim_Inr simp: map_filter_def payout_event_def)
  next
    case (SweepUnclaimed admin k mint vault treasury tp)
    then show ?thesis using run by (auto elim!: sweep_unclaimed_Inr simp: map_filter_def)
  qed (use run assms(2) in \<open>auto simp: initialize_def set_keepers_def set_params_def result_simps\<close>)
qed

lemma exec_not_push_ok:
  assumes "dist_exec (pe_w3 env) xf hashv (prog_key env) sig ix c = Inr c'" "\<not> is_push ix" "chain_ok env c"
  shows "chain_ok env c' \<and> grows c c'"
  using assms dist_inv_exec [OF _ assms(1)] exec_not_push [OF assms(1,2)] by (simp add: chain_ok_def grows_def)

lemma send_not_push:
  assumes "env_ok env xf hashv P" "\<not> is_push ix"
  shows "io_inv (ledger_inv env S) (sendWithPriority (pe_exec env) (pe_cfg env) [ix] opts)"
  unfolding io_inv_def
proof (rule io_spec_pre)
  have "io_spec (steady env S c) (sendWithPriority (pe_exec env) (pe_cfg env) [ix] opts)
      (\<lambda>sig w. \<exists>c'. True \<and> steady env S c' w) (ledger_inv env S)" for c
    using assms exec_not_push_ok [OF _ assms(2)] by (intro send_spec [where xf = xf and hashv = hashv]) (auto simp: env_ok_def)
  then show "io_spec (\<lambda>w. \<exists>c. steady env S c w) (sendWithPriority (pe_exec env) (pe_cfg env) [ix] opts)
      (\<lambda>_. ledger_inv env S) (ledger_inv env S)"
    by (intro io_spec_ex) (rule io_spec_post, assumption, auto dest: steady_ledger)
qed (blast intro: ledger_steady)

text \<open>A chunk of wallets none of which was pushed.\<close>

definition fresh :: "payout_env \<Rightarrow> dist_chain \<Rightarrow> bytes \<Rightarrow> string list \<Rightarrow> bool" where
  "fresh env c key ws \<longleftrightarrow> distinct ws \<and>
     (\<forall>s \<in> set ws. \<forall>k. w3_key (pe_w3 env) s = Some k \<longrightarrow> k \<notin> fst ` set (pushes key c))"

definition chunk_items :: "(bytes \<times> Pushable) list \<Rightarrow> PayoutItem list" where
  "chunk_items chunk = map (\<lambda>(k, c). \<lparr>it_wallet = k, it_amount = pb_amount c\<rparr>) chunk"

lemma exec_push:
  assumes "dist_exec w3 xf hashv prog sig (push_ix env ctx key chunk) c = Inr c'"
  shows "pushes key c' = pushes key c @ map (\<lambda>(k, p). (k, pb_amount p)) chunk"
    "key' \<noteq> key \<Longrightarrow> pushes key' c' = pushes key' c"
proof -
  obtain a where a: "push_ix env ctx key chunk = PushPayouts a (chunk_items chunk)" "pa_epoch a = key"
    by (simp add: push_ix_def chunk_items_def)
  have "push_payouts w3 xf prog sig a (chunk_items chunk) c = Inr c'"
    using assms a by (auto simp: dist_exec_def result_simps)
  then obtain e where "ch_log c' = ch_log c @ [push_record sig key e (chunk_items chunk)]"
    using a(2) by (elim push_payouts_Inr) auto
  moreover have "map (\<lambda>it. (it_wallet it, it_amount it)) (chunk_items chunk) = map (\<lambda>(k, p). (k, pb_amount p)) chunk"
    by (induction chunk) (auto simp: chunk_items_def)
  ultimately show "pushes key c' = pushes key c @ map (\<lambda>(k, p). (k, pb_amount p)) chunk"
    "key' \<noteq> key \<Longrightarrow> pushes key' c' = pushes key' c" by (simp_all add: map_filter_push_record)
qed

lemma chunk_keys:
  assumes "web3_ok w3" "smap (\<lambda>c. new_PublicKey w3 (pb_wallet c)) chunk = Inr keys" "distinct (map pb_wallet chunk)"
  shows "length keys = length chunk" "distinct keys" "\<forall>k \<in> set keys. length k = 32"
    "\<And>k p. (k, p) \<in> set (zip keys chunk) \<Longrightarrow> w3_key w3 (pb_wallet p) = Some k"
    "\<And>p. p \<in> set chunk \<Longrightarrow> \<exists>k. (k, p) \<in> set (zip keys chunk)"
proof -
  have k: "length keys = length chunk" "\<And>i. i < length chunk \<Longrightarrow> w3_key w3 (pb_wallet (chunk ! i)) = Some (keys ! i)"
    using smap_keys [OF assms(2)] by auto
  show "length keys = length chunk" by (rule k(1))
  have str: "w3_text w3 (keys ! i) = pb_wallet (chunk ! i)" "length (keys ! i) = 32" if "i < length chunk" for i
    using web3_key_text [OF assms(1) k(2) [OF that]] by auto
  show "\<forall>k \<in> set keys. length k = 32" using str(2) k(1) by (auto simp: in_set_conv_nth)
  show "distinct keys" unfolding distinct_conv_nth
  proof (intro allI impI)
    fix i j assume ij: "i < length keys" "j < length keys" "i \<noteq> j"
    then have "pb_wallet (chunk ! i) \<noteq> pb_wallet (chunk ! j)"
      using assms(3) k(1) by (auto simp: distinct_conv_nth)
    then show "keys ! i \<noteq> keys ! j" using str(1) ij k(1) by metis
  qed
  show "w3_key w3 (pb_wallet p) = Some k" if "(k, p) \<in> set (zip keys chunk)" for k p
    using that k by (auto simp: in_set_zip)
  show "\<exists>k. (k, p) \<in> set (zip keys chunk)" if p: "p \<in> set chunk" for p
  proof -
    obtain i where i: "i < length chunk" "p = chunk ! i" using p by (auto simp: in_set_conv_nth)
    then have "zip keys chunk ! i = (keys ! i, p)" "i < length (zip keys chunk)" using k(1) by simp_all
    then show ?thesis by (metis nth_mem)
  qed
qed

lemma push_chunk_spec:
  assumes env: "env_ok env xf hashv P" and ctx: "ctx_ok env S ctx" and key: "key = epochPdaFor env ctx (ea_index acc)"
    and fresh: "fresh env c key (map pb_wallet chunk @ rest)"
  shows "io_spec (steady env S c) (push_chunk env ctx acc key chunk)
    (\<lambda>_ w. \<exists>c'. fresh env c' key rest \<and> steady env S c' w) (ledger_inv env S)"
  unfolding push_chunk_def
proof (rule io_bind_spec [where R = "\<lambda>keys w. smap (\<lambda>c. new_PublicKey (pe_w3 env) (pb_wallet c)) chunk = Inr keys \<and> steady env S c w"])
  show "io_spec (steady env S c) (io_result (smap (\<lambda>c. new_PublicKey (pe_w3 env) (pb_wallet c)) chunk))
    (\<lambda>keys w. smap (\<lambda>c. new_PublicKey (pe_w3 env) (pb_wallet c)) chunk = Inr keys \<and> steady env S c w) (ledger_inv env S)"
    by (rule io_result_spec) (auto dest: steady_ledger)
  have w3: "web3_ok (pe_w3 env)" using env by (simp add: env_ok_def)
  fix keys :: "bytes list"
  let ?new = "map (\<lambda>(k, p). (k, pb_amount p)) (zip keys chunk)"
  let ?R = "\<lambda>c'. pushes key c' = pushes key c @ ?new"
  show "io_spec (\<lambda>w. smap (\<lambda>c. new_PublicKey (pe_w3 env) (pb_wallet c)) chunk = Inr keys \<and> steady env S c w)
    (io_bind (sendWithPriority (pe_exec env) (pe_cfg env) [push_ix env ctx key (zip keys chunk)] no_opts) (\<lambda>sig.
     io_for chunk (\<lambda>c. recordPayout (payout_insert ctx env (ea_index acc) (pb_wallet c) (pb_amount c) sig))))
    (\<lambda>_ w. \<exists>c'. fresh env c' key rest \<and> steady env S c' w) (ledger_inv env S)"
  proof (rule io_spec_conj_pre)
    assume "smap (\<lambda>c. new_PublicKey (pe_w3 env) (pb_wallet c)) chunk = Inr keys"
    note ck = chunk_keys [OF w3 this]
    have d: "distinct (map pb_wallet chunk)" "set (map pb_wallet chunk) \<inter> set rest = {}" using fresh by (auto simp: fresh_def)
    note ck = ck [OF d(1)]
    have fst_new: "map fst ?new = keys" using ck(1) by (simp add: comp_def case_prod_unfold)
    have disj: "fst ` set (pushes key c) \<inter> set keys = {}"
    proof -
      have "k \<notin> fst ` set (pushes key c)" if "k \<in> set keys" for k
      proof -
        obtain p where "(k, p) \<in> set (zip keys chunk)" using \<open>k \<in> set keys\<close> ck(1) by (metis in_set_impl_in_set_zip1)
        then have "w3_key (pe_w3 env) (pb_wallet p) = Some k" "p \<in> set chunk" using ck(4) set_zip_rightD by metis+
        then show ?thesis using fresh by (auto simp: fresh_def)
      qed
      then show ?thesis by blast
    qed
    show "io_spec (steady env S c)
      (io_bind (sendWithPriority (pe_exec env) (pe_cfg env) [push_ix env ctx key (zip keys chunk)] no_opts) (\<lambda>sig.
       io_for chunk (\<lambda>c. recordPayout (payout_insert ctx env (ea_index acc) (pb_wallet c) (pb_amount c) sig))))
      (\<lambda>_ w. \<exists>c'. fresh env c' key rest \<and> steady env S c' w) (ledger_inv env S)"
    proof (rule io_bind_spec)
      show "io_spec (steady env S c) (sendWithPriority (pe_exec env) (pe_cfg env) [push_ix env ctx key (zip keys chunk)] no_opts)
        (\<lambda>sig w. \<exists>c'. ?R c' \<and> steady env S c' w) (ledger_inv env S)"
      proof (rule send_spec [where xf = xf and hashv = hashv])
        show "pe_exec env = dist_exec (pe_w3 env) xf hashv (prog_key env)" using env by (simp add: env_ok_def)
        fix sig c'
        assume ok: "chain_ok env c" and run: "dist_exec (pe_w3 env) xf hashv (prog_key env) sig (push_ix env ctx key (zip keys chunk)) c = Inr c'"
        note ex = exec_push [OF run]
        have "dist_inv (pe_w3 env) (prog_key env) c'" using ok dist_inv_exec [OF _ run] by (simp add: chain_ok_def)
        moreover have "distinct (map fst (pushes k c')) \<and> (\<forall>x \<in> fst ` set (pushes k c'). length x = 32)" for k
        proof (cases "k = key")
          case True
          have "distinct (map fst (pushes key c @ ?new))"
            unfolding map_append fst_new using chain_ok_pushes(1) [OF ok] ck(2) disj by simp
          moreover have "fst ` set ?new = set keys" using fst_new by (metis list.set_map)
          then have "\<forall>x \<in> fst ` set (pushes key c @ ?new). length x = 32"
            using chain_ok_pushes(3) [OF ok, of _ key] ck(3) unfolding set_append image_Un by blast
          ultimately show ?thesis unfolding True ex(1) by blast
        next
          case False
          then show ?thesis using ex(2) chain_ok_pushes [OF ok] by simp
        qed
        ultimately have "chain_ok env c'" by (simp add: chain_ok_def)
        moreover have "set (pushes k c) \<subseteq> set (pushes k c')" for k using ex by (cases "k = key") simp_all
        then have "grows c c'" by (simp add: grows_def)
        ultimately show "chain_ok env c' \<and> grows c c' \<and> ?R c'" using ex(1) by blast
      qed
      fix sig
      show "io_spec (\<lambda>w. \<exists>c'. ?R c' \<and> steady env S c' w)
        (io_for chunk (\<lambda>c. recordPayout (payout_insert ctx env (ea_index acc) (pb_wallet c) (pb_amount c) sig)))
        (\<lambda>_ w. \<exists>c'. fresh env c' key rest \<and> steady env S c' w) (ledger_inv env S)"
      proof (rule io_spec_ex, rule io_spec_conj_pre)
        fix c' assume R: "?R c'"
        have "fresh env c' key rest" unfolding fresh_def
        proof (intro conjI ballI allI impI notI)
          show "distinct rest" using fresh by (simp add: fresh_def)
          fix s k assume s: "s \<in> set rest" "w3_key (pe_w3 env) s = Some k" "k \<in> fst ` set (pushes key c')"
          have "k \<notin> fst ` set (pushes key c)"
            using fresh [unfolded fresh_def, THEN conjunct2, rule_format, of s k] s(1,2) by simp
          then have "k \<in> fst ` set ?new" using s(3) unfolding R by auto
          then have "k \<in> set keys" using fst_new by (metis list.set_map)
          then obtain p where "(k, p) \<in> set (zip keys chunk)" using ck(1) by (metis in_set_impl_in_set_zip1)
          then have "w3_key (pe_w3 env) (pb_wallet p) = Some k" "p \<in> set chunk" using ck(4) set_zip_rightD by metis+
          then have "pb_wallet p = s" using web3_key_text [OF w3] s(2) by metis
          then show False using d(2) s(1) \<open>p \<in> set chunk\<close> by auto
        qed
        moreover have "io_inv (steady env S c') (recordPayout (payout_insert ctx env (ea_index acc) (pb_wallet p) (pb_amount p) sig))"
          if p: "p \<in> set chunk" for p
        proof -
          obtain k where k: "(k, p) \<in> set (zip keys chunk)" using ck(5) [OF p] by blast
          then have "(k, pb_amount p) \<in> set ?new" by force
          then have "(k, pb_amount p) \<in> set (pushes (epochPdaFor env ctx (ea_index acc)) c')" using R key by simp
          then show ?thesis by (intro steady_recordPayout backed_payout_row [OF ctx ck(4) [OF k]])
        qed
        then have "io_spec (steady env S c')
          (io_for chunk (\<lambda>c. recordPayout (payout_insert ctx env (ea_index acc) (pb_wallet c) (pb_amount c) sig)))
          (\<lambda>_. steady env S c') (steady env S c')"
          unfolding io_inv_def by (rule io_for_spec)
        ultimately show "io_spec (steady env S c')
          (io_for chunk (\<lambda>c. recordPayout (payout_insert ctx env (ea_index acc) (pb_wallet c) (pb_amount c) sig)))
          (\<lambda>_ w. \<exists>c'. fresh env c' key rest \<and> steady env S c' w) (ledger_inv env S)"
          by (blast intro: io_spec_post steady_ledger)
      qed
    qed
  qed
qed

lemma push_chunks_spec:
  assumes env: "env_ok env xf hashv P" and ctx: "ctx_ok env S ctx" and key: "key = epochPdaFor env ctx (ea_index acc)"
  shows "fresh env c key (concat (map (map pb_wallet) css)) \<Longrightarrow>
    io_spec (steady env S c) (io_for css (push_chunk env ctx acc key)) (\<lambda>_. ledger_inv env S) (ledger_inv env S)"
proof (induction css arbitrary: c)
  case Nil
  then show ?case by (auto intro!: io_ret_spec dest: steady_ledger)
next
  case (Cons ch css)
  have "io_spec (steady env S c) (push_chunk env ctx acc key ch)
    (\<lambda>_ w. \<exists>c'. fresh env c' key (concat (map (map pb_wallet) css)) \<and> steady env S c' w) (ledger_inv env S)"
    using Cons.prems by (intro push_chunk_spec [OF env ctx key]) simp
  moreover have "io_spec (\<lambda>w. \<exists>c'. fresh env c' key (concat (map (map pb_wallet) css)) \<and> steady env S c' w)
    (io_for css (push_chunk env ctx acc key)) (\<lambda>_. ledger_inv env S) (ledger_inv env S)"
    by (rule io_spec_ex, rule io_spec_conj_pre, rule Cons.IH)
  ultimately show ?case by (simp add: io_then_spec)
qed

lemma split_remaining_wallets:
  "split_remaining token cap xs t = (ps, ms, t') \<Longrightarrow>
    set (map pb_wallet ps) \<subseteq> set (map (pi_wallet \<circ> fst) xs) \<and>
    (distinct (map (pi_wallet \<circ> fst) xs) \<longrightarrow> distinct (map pb_wallet ps))"
proof (induction token cap xs t arbitrary: ps ms t' rule: split_remaining.induct)
  case (2 token cap p dest info rest t)
  show ?case
  proof (cases "(case info of None \<Rightarrow> False | Some a \<Rightarrow> ac_program a = token) \<and> t + pi_amount p \<le> cap")
    case True
    obtain ps' ms' t2 where r: "split_remaining token cap rest (t + pi_amount p) = (ps', ms', t2)"
      by (cases "split_remaining token cap rest (t + pi_amount p)") auto
    have "ps = \<lparr>pb_wallet = pi_wallet p, pb_amount = pi_amount p, pb_dest = dest\<rparr> # ps'" using "2.prems" True r by simp
    then show ?thesis using "2.IH"(1) [OF True r] by auto
  next
    case False
    obtain ps' ms' t2 where r: "split_remaining token cap rest t = (ps', ms', t2)"
      by (cases "split_remaining token cap rest t") auto
    have "ps = ps'" using "2.prems" False r by (auto split: if_splits)
    then show ?thesis using "2.IH"(2) [OF False r] by auto
  qed
qed simp

lemma epoch_tree_inv [io_rules]: "io_inv I (epoch_tree env key ms)"
  unfolding epoch_tree_def by (intro io_rules)

lemma writeFinalized_inv [io_rules]: "io_inv (steady env S c) (writeFinalized env' ctx i key h t tree sig)"
proof -
  have "io_inv (steady env S c) (case tree of None \<Rightarrow> io_ret () | Some t \<Rightarrow>
       io_bind (io_result (smap (leaf_row env' ctx i key t) (enumerate 0 (t_entries t)))) insertMerkleLeaves)"
    by (cases tree) (simp_all add: io_rules)
  then show ?thesis unfolding writeFinalized_def by (intro io_inv_then io_rules)
qed

lemma getMultipleAccountsInfo_inv [io_rules]: "io_inv (steady env S c) (getMultipleAccountsInfo keys)"
  unfolding getMultipleAccountsInfo_def by (intro io_rules)

text \<open>The last part of \<open>pushAndFinalize\<close>: nothing in it pushes.\<close>

definition finish_epoch :: "payout_env \<Rightarrow> PoolCtx \<Rightarrow> EpochAccount \<Rightarrow> bytes \<Rightarrow> EpochPlanItem list \<Rightarrow> int \<Rightarrow> unit pio" where
  "finish_epoch env ctx acc epoch unsorted pushedTotal =
     io_then (setEpochPhase (po_dbc_pool (pc_pool ctx)) (ea_index acc) Pushed no_extra)
     (io_bind (epoch_tree env epoch (sort_key pi_wallet unsorted)) (\<lambda>tree.
     if tree_total tree > ea_totalAmount acc - pushedTotal then io_throw ''merkle total exceeds remainder'' else
     io_bind (sendWithPriority (pe_exec env) (pe_cfg env)
       [FinalizeEpoch (pc_keeper ctx) epoch (tree_root tree) (tree_total tree)] no_opts) (\<lambda>finalizeSig.
     writeFinalized env ctx (ea_index acc) epoch (hex_text (tree_root tree)) pushedTotal tree (Some finalizeSig))))"

lemma finish_epoch_inv:
  assumes "env_ok env xf hashv P"
  shows "io_inv (ledger_inv env S) (finish_epoch env ctx acc key ms t)"
  unfolding finish_epoch_def
  by (intro io_inv_then io_inv_bind io_inv_if io_inv_throw epoch_tree_inv send_not_push [OF assms] ledger_of_steady
      steady_setEpochPhase writeFinalized_inv) simp

text \<open>A step that only reads or writes tables, before the rest.\<close>

lemma steady_bind:
  assumes "io_inv (steady env S c) m" "\<And>a. io_spec (steady env S c) (f a) Q (ledger_inv env S)"
  shows "io_spec (steady env S c) (io_bind m f) Q (ledger_inv env S)"
proof (rule io_bind_spec)
  show "io_spec (steady env S c) m (\<lambda>_. steady env S c) (ledger_inv env S)"
    using assms(1) unfolding io_inv_def by (rule io_spec_post) (auto dest: steady_ledger)
qed (rule assms(2))

lemma steady_then:
  "io_inv (steady env S c) m \<Longrightarrow> io_spec (steady env S c) n Q (ledger_inv env S) \<Longrightarrow>
    io_spec (steady env S c) (io_then m n) Q (ledger_inv env S)"
  unfolding io_then_def by (rule steady_bind)

text \<open>A step with a result that is known to satisfy \<open>R\<close>.\<close>

lemma steady_bind_value:
  assumes "io_spec (steady env S c) m (\<lambda>a w. R a \<and> steady env S c w) (steady env S c)"
    and "\<And>a. R a \<Longrightarrow> io_spec (steady env S c) (f a) Q (ledger_inv env S)"
  shows "io_spec (steady env S c) (io_bind m f) Q (ledger_inv env S)"
proof (rule io_bind_spec)
  show "io_spec (steady env S c) m (\<lambda>a w. R a \<and> steady env S c w) (ledger_inv env S)"
    using assms(1) by (rule io_spec_post) (auto dest: steady_ledger)
qed (rule io_spec_conj_pre, rule assms(2))

lemma pushAndFinalize_spec:
  assumes env: "env_ok env xf hashv P" and ctx: "ctx_ok env S ctx" and key: "key = epochPdaFor env ctx (ea_index acc)"
    and plan: "distinct (map pi_wallet plan)" and full: "full_pushed env key c pushed"
  shows "io_spec (steady env S c) (pushAndFinalize env ctx acc plan pushed) (\<lambda>_. ledger_inv env S) (ledger_inv env S)"
proof -
  have w3: "web3_ok (pe_w3 env)" using env by (simp add: env_ok_def)
  let ?rem = "filter (\<lambda>p. pi_amount p > 0 \<and> pi_wallet p \<notin> fst ` set pushed) plan"
  have main: "io_spec (steady env S c)
     (io_then (io_for (chunks PUSH_CHUNK_SIZE ps) (push_chunk env ctx acc key)) (finish_epoch env ctx acc key ms t'))
     (\<lambda>_. ledger_inv env S) (ledger_inv env S)"
    if split: "split_remaining tok cap (zip ?rem xs) t0 = (ps, ms, t')" for tok cap xs t0 ps ms t'
  proof (rule io_then_spec)
    have zip: "map (pi_wallet \<circ> fst) (zip ?rem xs) = take (length xs) (map pi_wallet ?rem)"
      by (simp add: map_fst_zip_take take_map [symmetric] min_def flip: map_map)
    have "distinct (map pi_wallet ?rem)" using plan by (rule distinct_map_filter)
    then have ps: "distinct (map pb_wallet ps)" "set (map pb_wallet ps) \<subseteq> set (map pi_wallet ?rem)"
      using split_remaining_wallets [OF split] set_take_subset [of "length xs" "map pi_wallet ?rem"]
      unfolding zip by auto
    have "fresh env c key (map pb_wallet ps)" unfolding fresh_def
    proof (intro conjI ballI allI impI notI)
      show "distinct (map pb_wallet ps)" by (rule ps(1))
      fix s k assume s: "s \<in> set (map pb_wallet ps)" "w3_key (pe_w3 env) s = Some k" "k \<in> fst ` set (pushes key c)"
      have "w3_text (pe_w3 env) k \<in> fst ` set pushed" using full s(3) unfolding full_pushed_def by blast
      then have "s \<in> fst ` set pushed" using web3_key_text [OF w3 s(2)] by simp
      moreover have "s \<in> set (map pi_wallet ?rem)" using s(1) ps(2) by blast
      then have "s \<notin> fst ` set pushed" by auto
      ultimately show False by blast
    qed
    then have "fresh env c key (concat (map (map pb_wallet) (chunks PUSH_CHUNK_SIZE ps)))"
      by (simp add: PUSH_CHUNK_SIZE_def concat_chunks map_concat [symmetric])
    then show "io_spec (steady env S c) (io_for (chunks PUSH_CHUNK_SIZE ps) (push_chunk env ctx acc key))
      (\<lambda>_. ledger_inv env S) (ledger_inv env S)" by (rule push_chunks_spec [OF env ctx key])
    show "io_spec (ledger_inv env S) (finish_epoch env ctx acc key ms t') (\<lambda>_. ledger_inv env S) (ledger_inv env S)"
      using finish_epoch_inv [OF env] unfolding io_inv_def by blast
  qed
  show ?thesis
    unfolding pushAndFinalize_def Let_def key [symmetric] finish_epoch_def [symmetric]
    by (intro steady_bind io_rules) (auto split: prod.splits intro: main)
qed

section \<open>The newest epoch\<close>

definition on_chain :: "payout_env \<Rightarrow> PoolCtx \<Rightarrow> dist_chain \<Rightarrow> EpochAccount \<Rightarrow> bool" where
  "on_chain env ctx c l \<longleftrightarrow> (\<exists>i e. ch_epochs c (epochPdaFor env ctx i) = Some e \<and> l = epoch_account e)"

lemma fetchEpoch_spec:
  "io_spec (steady env S c) (fetchEpoch key) (\<lambda>a w. a = map_option epoch_account (ch_epochs c key) \<and> steady env S c w) (steady env S c)"
  unfolding fetchEpoch_def by (rule rpc_read_steady)

lemma fetchEpoch_inv [io_rules]: "io_inv (steady env S c) (fetchEpoch key)"
  unfolding fetchEpoch_def by (rule steady_reads)

lemma crash_inv [io_rules]: "io_inv I (\<lambda>w. (Crash, w))"
  by (rule io_invI) simp

lemma io_inv_option [io_rules]:
  "(x = None \<Longrightarrow> io_inv I m) \<Longrightarrow> (\<And>a. x = Some a \<Longrightarrow> io_inv I (f a)) \<Longrightarrow> io_inv I (case x of None \<Rightarrow> m | Some a \<Rightarrow> f a)"
  by (cases x) simp_all

lemma probe_forward_inv [io_rules]: "io_inv (steady env S c) (probe_forward env' ctx fuel i)"
  by (induction fuel arbitrary: i) (auto intro!: io_rules)

lemma first_epoch_spec:
  "io_spec (steady env S c) (first_epoch env ctx is')
    (\<lambda>a w. (\<forall>l. a = Some l \<longrightarrow> on_chain env ctx c l) \<and> steady env S c w) (steady env S c)"
proof (induction is')
  case Nil
  then show ?case by (auto intro!: io_ret_spec)
next
  case (Cons i is')
  show ?case unfolding first_epoch.simps
  proof (rule io_bind_spec [OF fetchEpoch_spec], rule io_spec_conj_pre)
    fix acc assume acc: "acc = map_option epoch_account (ch_epochs c (epochPdaFor env ctx i))"
    then have some: "on_chain env ctx c l" if "acc = Some l" for l using that by (cases "ch_epochs c (epochPdaFor env ctx i)") (auto simp: on_chain_def)
    show "io_spec (steady env S c) (case acc of None \<Rightarrow> first_epoch env ctx is' | Some a \<Rightarrow> io_ret (Some a))
      (\<lambda>a w. (\<forall>l. a = Some l \<longrightarrow> on_chain env ctx c l) \<and> steady env S c w) (steady env S c)"
      using Cons.IH some by (cases acc) (auto intro!: io_ret_spec)
  qed
qed

lemma findLatest_spec:
  "io_spec (steady env S c) (findLatestOnChainEpoch env ctx)
    (\<lambda>a w. (\<forall>l. a = Some l \<longrightarrow> on_chain env ctx c l) \<and> steady env S c w) (steady env S c)"
proof -
  have "io_inv (steady env S c) (getMaxKnownEpochIndex p)" for p unfolding getMaxKnownEpochIndex_def by (rule steady_reads)
  then show ?thesis unfolding findLatestOnChainEpoch_def
    using probe_forward_inv first_epoch_spec unfolding io_inv_def by (blast intro: io_bind_spec)
qed

text \<open>An epoch read at an address of the pool is the one its own index names.\<close>

lemma on_chain_epoch:
  assumes env: "env_ok env xf hashv S" and ctx: "ctx_ok env S ctx" and chain: "chain_ok env c" and l: "on_chain env ctx c l"
  shows "ea_pushedAmount l = ledger_sum (pushes (epochPdaFor env ctx (ea_index l)) c)"
proof -
  obtain i e where e: "ch_epochs c (epochPdaFor env ctx i) = Some e" "l = epoch_account e" using l by (auto simp: on_chain_def)
  let ?key = "epochPdaFor env ctx i"
  have "dist_inv (pe_w3 env) (prog_key env) c" using chain by (simp add: chain_ok_def)
  note inv = dist_inv_epoch [OF this e(1)]
  have eq: "epoch_of env (pc_dbcPool ctx) i = epoch_of env (ep_pool e) (ep_index e)"
    using inv(6) epochPda_epoch_of [OF ctx, of i] by (simp add: epoch_of_def)
  moreover have "pc_dbcPool ctx \<in> S" using ctx by (simp add: ctx_ok_def)
  ultimately have "ep_pool e = pc_dbcPool ctx" using env by (auto simp: env_ok_def)
  then have "epochPdaFor env ctx (ea_index l) = ?key"
    using eq epochPda_epoch_of [OF ctx] e(2) by (simp add: epoch_account_def)
  then show ?thesis using inv(1) e(2) by (simp add: epoch_account_def)
qed

section \<open>Resume, repair, open\<close>

lemma recompute_plan_spec:
  "io_spec (steady env S c) (recompute_plan env' ctx acc)
    (\<lambda>p w. distinct (map pi_wallet p) \<and> steady env S c w) (steady env S c)"
  unfolding recompute_plan_def
proof (rule io_bind_spec [OF computePlan_distinct], rule io_spec_conj_pre)
  fix r assume r: "\<forall>q. r = Some q \<longrightarrow> distinct (map pi_wallet (pl_items q))"
  let ?plan = "case r of None \<Rightarrow> [] | Some p \<Rightarrow> pl_items p"
  have d: "distinct (map pi_wallet ?plan)" using r by (cases r) simp_all
  then have "io_inv (steady env S c) (saveEpochPlan (plan_insert ctx env' (ea_index acc) (ea_coinMint acc) (ea_startTs acc)
      (ea_endTs acc) (ea_totalAmount acc) ?plan))" by (intro steady_saveEpochPlan) (simp add: plan_insert_def)
  then show "io_spec (steady env S c) (let plan = ?plan in io_then (saveEpochPlan (plan_insert ctx env' (ea_index acc)
      (ea_coinMint acc) (ea_startTs acc) (ea_endTs acc) (ea_totalAmount acc) plan)) (io_ret plan))
    (\<lambda>p w. distinct (map pi_wallet p) \<and> steady env S c w) (steady env S c)"
    using d unfolding Let_def io_inv_def by (auto intro: io_then_spec io_ret_spec)
qed

lemma resume_plan_spec:
  "io_spec (steady env S c) (resume_plan env' ctx acc)
    (\<lambda>p w. distinct (map pi_wallet p) \<and> steady env S c w) (steady env S c)"
  unfolding resume_plan_def
proof (rule io_bind_spec [OF getEpochProgress_plan], rule io_spec_conj_pre)
  fix pr assume "\<forall>g. pr = Some g \<longrightarrow> distinct (map pi_wallet (gr_plan g))"
  then show "io_spec (steady env S c) (case pr of
       Some p \<Rightarrow> if gr_total_amount p = ea_totalAmount acc then io_ret (gr_plan p) else recompute_plan env' ctx acc
     | None \<Rightarrow> recompute_plan env' ctx acc)
    (\<lambda>p w. distinct (map pi_wallet p) \<and> steady env S c w) (steady env S c)"
    using recompute_plan_spec by (cases pr) (auto intro!: io_ret_spec)
qed

lemma steady_chain_ok: "(chain_ok env c \<Longrightarrow> io_spec (steady env S c) m Q E) \<Longrightarrow> io_spec (steady env S c) m Q E"
proof (cases "chain_ok env c")
  case False
  then have "\<not> steady env S c w" for w by (auto simp: steady_def ledger_inv_def)
  then show ?thesis by (simp add: io_spec_def)
qed simp

lemma resumeEpoch_spec:
  assumes env: "env_ok env xf hashv S" and ctx: "ctx_ok env S ctx" and acc: "on_chain env ctx c acc"
  shows "io_spec (steady env S c) (resumeEpoch env ctx acc) (\<lambda>_. ledger_inv env S) (ledger_inv env S)"
  unfolding resumeEpoch_def
proof (rule steady_chain_ok, rule steady_bind_value [OF resume_plan_spec])
  fix plan :: "EpochPlanItem list"
  assume chain: "chain_ok env c" and plan: "distinct (map pi_wallet plan)"
  have w3: "web3_ok (pe_w3 env)" using env by (simp add: env_ok_def)
  have "io_spec (steady env S c) (io_bind (reconcilePushed env ctx acc) (pushAndFinalize env ctx acc plan))
      (\<lambda>_. ledger_inv env S) (ledger_inv env S)"
    by (rule steady_bind_value [OF reconcilePushed_spec [OF w3 ctx refl on_chain_epoch [OF env ctx chain acc]]])
      (rule pushAndFinalize_spec [OF env ctx refl plan])
  moreover have "io_inv (ledger_inv env S) (io_then (setEpochError p i err) (io_throw e))" for p i err e
    by (intro io_inv_then ledger_of_steady steady_setEpochError io_inv_throw)
  ultimately have "io_spec (steady env S c) (io_catch
       (io_bind (reconcilePushed env ctx acc) (pushAndFinalize env ctx acc plan))
       (\<lambda>err. io_then (setEpochError (po_dbc_pool (pc_pool ctx)) (ea_index acc) (error_text err)) (io_throw err)))
     (\<lambda>_. ledger_inv env S) (ledger_inv env S)"
    unfolding io_inv_def by (rule io_catch_spec)
  then show "io_spec (steady env S c) (io_then (setEpochPhase (po_dbc_pool (pc_pool ctx)) (ea_index acc) Opened no_extra)
     (io_then (insertEpoch (epoch_insert ctx env (ea_index acc) (ea_coinMint acc) (ea_startTs acc) (ea_endTs acc)
        (ea_totalAmount acc) plan))
     (io_catch (io_bind (reconcilePushed env ctx acc) (pushAndFinalize env ctx acc plan))
       (\<lambda>err. io_then (setEpochError (po_dbc_pool (pc_pool ctx)) (ea_index acc) (error_text err)) (io_throw err)))))
     (\<lambda>_. ledger_inv env S) (ledger_inv env S)"
    by (intro steady_then steady_setEpochPhase steady_insertEpoch)
qed

lemma repair_inv:
  assumes env: "env_ok env xf hashv S" and ctx: "ctx_ok env S ctx" and acc: "on_chain env ctx c acc"
  shows "io_inv (steady env S c) (repairFinalizedBookkeeping env ctx acc)"
proof (cases "chain_ok env c")
  case True
  have w3: "web3_ok (pe_w3 env)" using env by (simp add: env_ok_def)
  have "io_inv (steady env S c) (reconcilePushed env ctx acc)"
    unfolding io_inv_def
    by (rule io_spec_post [OF reconcilePushed_spec [OF w3 ctx refl on_chain_epoch [OF env ctx True acc]]]) auto
  then show ?thesis unfolding repairFinalizedBookkeeping_def Let_def
    by (intro io_rules steady_getEpochProgress)
next
  case False
  then show ?thesis by (intro io_invI) (auto simp: steady_def ledger_inv_def)
qed

lemma start_epoch_spec:
  assumes env: "env_ok env xf hashv S" and ctx: "ctx_ok env S ctx" and plan: "distinct (map pi_wallet (pl_items plan))"
  shows "io_spec (steady env S c) (start_epoch env ctx index startTs endTs amount plan) (\<lambda>_. ledger_inv env S) (ledger_inv env S)"
  unfolding start_epoch_def
proof (rule steady_then)
  show "io_inv (steady env S c) (saveEpochPlan (plan_insert ctx env index (pc_coinMint ctx) startTs endTs amount (pl_items plan)))"
    using plan by (intro steady_saveEpochPlan) (simp add: plan_insert_def)
  let ?key = "epochPdaFor env ctx index"
  let ?R = "\<lambda>c'. pushes ?key c' = [] \<and> map_option ep_index (ch_epochs c' ?key) = Some index"
  let ?rest = "\<lambda>openSig. io_then (setEpochPhase (po_dbc_pool (pc_pool ctx)) index Opened (no_extra\<lparr>px_open_sig := Some openSig\<rparr>))
     (io_then (insertEpoch (epoch_insert ctx env index (pc_coinMint ctx) startTs endTs amount (pl_items plan)))
     (io_bind (fetchEpoch ?key) (\<lambda>acc.
     io_bind (io_some acc ''Epoch not readable yet; will resume next cycle'') (\<lambda>acc.
     pushAndFinalize env ctx acc (pl_items plan) []))))"
  show "io_spec (steady env S c)
    (io_bind (sendWithPriority (pe_exec env) (pe_cfg env) [open_ix env ctx index startTs endTs amount plan] no_opts) ?rest)
    (\<lambda>_. ledger_inv env S) (ledger_inv env S)"
  proof (rule io_bind_spec)
    show "io_spec (steady env S c)
      (sendWithPriority (pe_exec env) (pe_cfg env) [open_ix env ctx index startTs endTs amount plan] no_opts)
      (\<lambda>sig w. \<exists>c'. ?R c' \<and> steady env S c' w) (ledger_inv env S)"
    proof (rule send_spec [where xf = xf and hashv = hashv])
      show "pe_exec env = dist_exec (pe_w3 env) xf hashv (prog_key env)" using env by (simp add: env_ok_def)
      fix sig c'
      assume ok: "chain_ok env c"
        and run: "dist_exec (pe_w3 env) xf hashv (prog_key env) sig (open_ix env ctx index startTs endTs amount plan) c = Inr c'"
      have np: "\<not> is_push (open_ix env ctx index startTs endTs amount plan)" by (simp add: open_ix_def Let_def)
      have new: "ch_epochs c ?key = None \<and> map_option ep_index (ch_epochs c' ?key) = Some index"
        using run by (auto simp: dist_exec_def open_ix_def Let_def result_simps new_epoch_def elim!: open_epoch_Inr)
      have "epoch_ok (ch_epochs c ?key) (pushes ?key c) (claims ?key c)" using ok unfolding chain_ok_def dist_inv_def by blast
      then have "pushes ?key c' = []" using new exec_not_push [OF run np] by (simp add: epoch_ok_def)
      then show "chain_ok env c' \<and> grows c c' \<and> ?R c'" using exec_not_push_ok [OF run np ok] new by blast
    qed
    fix openSig
    show "io_spec (\<lambda>w. \<exists>c'. ?R c' \<and> steady env S c' w) (?rest openSig) (\<lambda>_. ledger_inv env S) (ledger_inv env S)"
    proof (rule io_spec_ex, rule io_spec_conj_pre)
      fix c' assume R: "?R c'"
      have "io_spec (steady env S c') (io_bind (io_some acc ''Epoch not readable yet; will resume next cycle'') (\<lambda>acc.
          pushAndFinalize env ctx acc (pl_items plan) [])) (\<lambda>_. ledger_inv env S) (ledger_inv env S)"
        if acc: "acc = map_option epoch_account (ch_epochs c' ?key)" for acc
      proof -
        obtain e where e: "acc = Some (epoch_account e)" "ep_index e = index" using R acc by (cases "ch_epochs c' ?key") auto
        have "io_spec (steady env S c') (pushAndFinalize env ctx (epoch_account e) (pl_items plan) []) (\<lambda>_. ledger_inv env S) (ledger_inv env S)"
          using R e(2) by (intro pushAndFinalize_spec [OF env ctx _ plan, of ?key]) (simp_all add: epoch_account_def full_pushed_def)
        moreover have "io_bind (io_some acc err) f = f (epoch_account e)" for err and f :: "EpochAccount \<Rightarrow> unit pio"
          by (rule ext) (simp add: e(1) io_some_def io_bind_def io_ret_def)
        ultimately show ?thesis by simp
      qed
      then show "io_spec (steady env S c') (?rest openSig) (\<lambda>_. ledger_inv env S) (ledger_inv env S)"
        by (intro steady_then steady_setEpochPhase steady_insertEpoch steady_bind_value [OF fetchEpoch_spec])
    qed
  qed
qed

lemma vaultBalance_inv [io_rules]: "io_inv (steady env S c) (vaultBalance v)"
  unfolding vaultBalance_def by (intro io_rules)

lemma chainNowSec_inv [io_rules]: "io_inv (steady env S c) chainNowSec"
  unfolding chainNowSec_def chain_now_def by (intro io_rules)

lemma openNewEpoch_spec:
  assumes env: "env_ok env xf hashv S" and ctx: "ctx_ok env S ctx"
  shows "io_spec (steady env S c) (openNewEpoch env ctx latest) (\<lambda>_. ledger_inv env S) (ledger_inv env S)"
proof -
  have ret: "io_spec (steady env S c) (io_ret ()) (\<lambda>_. ledger_inv env S) (ledger_inv env S)"
    by (rule io_ret_spec) (rule steady_ledger)
  have price: "io_inv (steady env S c) (getLatestPrice p)" for p unfolding getLatestPrice_def by (rule steady_reads)
  have plan: "io_spec (steady env S c) (case p of None \<Rightarrow> io_ret () | Some q \<Rightarrow> start_epoch env ctx i s e a q)
      (\<lambda>_. ledger_inv env S) (ledger_inv env S)" if "\<forall>q. p = Some q \<longrightarrow> distinct (map pi_wallet (pl_items q))" for p i s e a
    using that ret start_epoch_spec [OF env ctx] by (cases p) simp_all
  show ?thesis unfolding openNewEpoch_def Let_def
    by (intro steady_bind [OF vaultBalance_inv]) (auto split: option.split intro!: ret steady_bind [OF price]
        steady_bind [OF chainNowSec_inv] steady_bind_value [OF computePlan_distinct] plan)
qed

section \<open>The cycle\<close>

lemma runPayoutsForPool_spec:
  assumes env: "env_ok env xf hashv S" and ctx: "ctx_ok env S ctx"
  shows "io_spec (steady env S c) (runPayoutsForPool env ctx) (\<lambda>_. ledger_inv env S) (ledger_inv env S)"
  unfolding runPayoutsForPool_def
proof (rule steady_bind_value [OF findLatest_spec])
  fix latest assume l: "\<forall>l. latest = Some l \<longrightarrow> on_chain env ctx c l"
  show "io_spec (steady env S c) (case latest of None \<Rightarrow> openNewEpoch env ctx None
   | Some l \<Rightarrow> if \<not> ea_finalized l then resumeEpoch env ctx l else
       io_then (io_catch (repairFinalizedBookkeeping env ctx l)
         (\<lambda>err. setEpochError (po_dbc_pool (pc_pool ctx)) (ea_index l) (error_text err)))
       (openNewEpoch env ctx (Some l))) (\<lambda>_. ledger_inv env S) (ledger_inv env S)"
    using l openNewEpoch_spec [OF env ctx] resumeEpoch_spec [OF env ctx]
    by (cases latest) (auto intro!: steady_then io_inv_catch repair_inv [OF env ctx] steady_setEpochError)
qed

lemma poolCtx_ok:
  assumes "env_ok env xf hashv S" "pools_ok env S pools" "pool \<in> set pools" "poolCtx env pool = Inr ctx"
  shows "ctx_ok env S ctx"
  using assms by (auto simp: poolCtx_def result_simps ctx_ok_def env_ok_def pools_ok_def new_PublicKey_Inr)

lemma runPayoutsCycle_inv:
  assumes env: "env_ok env xf hashv S"
  shows "io_inv (ledger_inv env S) (runPayoutsCycle env)"
  unfolding runPayoutsCycle_def io_inv_def
proof (rule io_bind_spec)
  show "io_spec (ledger_inv env S) listAllPools (\<lambda>pools w. pools_ok env S pools \<and> ledger_inv env S w) (ledger_inv env S)"
    unfolding listAllPools_def
    by (rule io_spec_value [OF db_read_inv]) (auto dest: db_read_value simp: ledger_inv_def)
  fix pools
  show "io_spec (\<lambda>w. pools_ok env S pools \<and> ledger_inv env S w)
    (io_for pools (\<lambda>pool. io_catch (io_bind (io_result (poolCtx env pool)) (runPayoutsForPool env)) (\<lambda>err. io_ret ())))
    (\<lambda>_. ledger_inv env S) (ledger_inv env S)"
  proof (rule io_spec_conj_pre, rule io_for_spec)
    fix pool assume ok: "pools_ok env S pools" "pool \<in> set pools"
    have "io_spec (\<lambda>w. \<exists>c. steady env S c w) (io_bind (io_result (poolCtx env pool)) (runPayoutsForPool env))
        (\<lambda>_. ledger_inv env S) (ledger_inv env S)"
    proof (rule io_spec_ex)
      fix c
      show "io_spec (steady env S c) (io_bind (io_result (poolCtx env pool)) (runPayoutsForPool env))
        (\<lambda>_. ledger_inv env S) (ledger_inv env S)"
        by (rule steady_bind_value [where R = "\<lambda>ctx. poolCtx env pool = Inr ctx"])
          (auto intro!: io_result_spec runPayoutsForPool_spec [OF env] poolCtx_ok [OF env ok])
    qed
    then have "io_spec (ledger_inv env S) (io_bind (io_result (poolCtx env pool)) (runPayoutsForPool env))
        (\<lambda>_. ledger_inv env S) (ledger_inv env S)" by (rule io_spec_pre) (blast intro: ledger_steady)
    then show "io_spec (ledger_inv env S)
      (io_catch (io_bind (io_result (poolCtx env pool)) (runPayoutsForPool env)) (\<lambda>err. io_ret ()))
      (\<lambda>_. ledger_inv env S) (ledger_inv env S)" by (rule io_catch_spec) (auto intro!: io_ret_spec)
  qed
qed

section \<open>Runs\<close>

text \<open>
  The keeper runs cycles, dies in the middle of them and starts again; between cycles the world moves:
  time, faults to come, holders claiming, administrators, the indexer writing its own tables and
  recording payouts it sees, new pools.  Nobody else pushes and no landed transaction is reported as
  failed.
\<close>

definition world_moves :: "payout_env \<Rightarrow> bytes set \<Rightarrow> payout_world \<Rightarrow> payout_world \<Rightarrow> bool" where
  "world_moves env S w w' \<longleftrightarrow>
     chain_ok env (cw_chain w') \<and> (\<forall>key. pushes key (cw_chain w') = pushes key (cw_chain w)) \<and> clean_sends w' \<and>
     (db_payouts (kw_db w') = db_payouts (kw_db w) \<or>
       (\<exists>r. backed env (cw_chain w') r \<and> db_payouts (kw_db w') = insert_or_ignore payout_key r (db_payouts (kw_db w)))) \<and>
     db_progress (kw_db w') = db_progress (kw_db w) \<and> pools_ok env S (db_pools (kw_db w'))"

inductive payout_run :: "payout_env \<Rightarrow> bytes set \<Rightarrow> payout_world \<Rightarrow> bool" for env S where
  init: "ch_epochs (cw_chain w) = Map.empty \<Longrightarrow> ch_log (cw_chain w) = [] \<Longrightarrow> clean_sends w \<Longrightarrow>
    db_payouts (kw_db w) = [] \<Longrightarrow> db_progress (kw_db w) = [] \<Longrightarrow> pools_ok env S (db_pools (kw_db w)) \<Longrightarrow> payout_run env S w"
| cycle: "payout_run env S w \<Longrightarrow> payout_run env S (snd (runPayoutsCycle env w))"
| moves: "payout_run env S w \<Longrightarrow> world_moves env S w w' \<Longrightarrow> payout_run env S w'"

lemma ledger_inv_moves:
  assumes "ledger_inv env S w" "world_moves env S w w'"
  shows "ledger_inv env S w'"
proof -
  have "backed env (cw_chain w') r = backed env (cw_chain w) r" for r
    using assms(2) by (simp add: world_moves_def backed_def)
  then have old: "\<forall>r \<in> set (db_payouts (kw_db w)). backed env (cw_chain w') r"
    using assms(1) by (simp add: ledger_inv_def)
  have "(\<forall>r \<in> set (db_payouts (kw_db w')). backed env (cw_chain w') r) \<and> distinct (map payout_key (db_payouts (kw_db w')))"
  proof (cases "db_payouts (kw_db w') = db_payouts (kw_db w)")
    case True
    then show ?thesis using old assms(1) by (simp add: ledger_inv_def)
  next
    case False
    then obtain r where "backed env (cw_chain w') r" "db_payouts (kw_db w') = insert_or_ignore payout_key r (db_payouts (kw_db w))"
      using assms(2) by (auto simp: world_moves_def)
    then show ?thesis using old assms(1) payouts_tbl.ins_only payouts_tbl.unique_ins [of "db_payouts (kw_db w)" r]
      by (auto simp: ledger_inv_def payouts_tbl.unique_keys_def)
  qed
  then show ?thesis using assms by (simp add: ledger_inv_def world_moves_def)
qed

lemma payout_run_ledger:
  assumes "env_ok env xf hashv S"
  shows "payout_run env S w \<Longrightarrow> ledger_inv env S w"
proof (induction rule: payout_run.induct)
  case (init w)
  have "pushes key (cw_chain w) = []" for key using init(2) by simp
  moreover have "dist_inv (pe_w3 env) (prog_key env) (cw_chain w)" using init(1,2) by (rule dist_inv_start)
  ultimately have "chain_ok env (cw_chain w)" by (simp add: chain_ok_def)
  then show ?case using init(3-6) by (simp add: ledger_inv_def plans_ok_def)
next
  case (cycle w)
  then show ?case using runPayoutsCycle_inv [OF assms] by (blast dest: io_invD)
next
  case (moves w w')
  then show ?case by (blast intro: ledger_inv_moves)
qed

section \<open>Properties\<close>


section \<open>Witness\<close>

text \<open>A base58 that is one character per byte, derivations that run their seeds together.\<close>

definition plain_web3 :: web3 where
  "plain_web3 = \<lparr>w3_find = (\<lambda>s p. (concat s, 0)),
     w3_key = (\<lambda>s. if length s = 32 then Some (ascii_bytes s) else None),
     w3_text = (\<lambda>b. map (\<lambda>x. char_of (unat x)) b)\<rparr>"

lemma of_char_of_byte: "of_char (char_of (unat x)) = (x :: byte)"
proof -
  have "(of_char (char_of (unat x)) :: byte) = of_nat (of_char (char_of (unat x)))" by (simp only: of_nat_of_char)
  also have "\<dots> = of_nat (unat x mod 256)" by simp
  also have "unat x mod 256 = unat x"
  proof -
    have "unat x < 2 ^ LENGTH(8)" by (rule unsigned_less)
    then show ?thesis by simp
  qed
  finally show ?thesis by simp
qed

lemma char_of_byte: "char_of (unat (of_char c :: byte)) = c"
  using of_char_of_byte [of "of_char c"] of_char_byte_inj by blast

lemma plain_web3_ok: "web3_ok plain_web3"
  by (auto simp: web3_ok_def plain_web3_def ascii_bytes_def comp_def of_char_of_byte char_of_byte map_idI split: if_splits)

definition plain_env :: "KeeperConfig \<Rightarrow> payout_env" where
  "plain_env cfg = \<lparr>pe_cfg = cfg\<lparr>cfg_distributorProgramId := replicate 32 CHR ''D''\<rparr>, pe_w3 = plain_web3, pe_keeper = [1],
     pe_exec = dist_exec plain_web3 demo_transfer (\<lambda>xs. spec_keccak256 (concat xs)) (ascii_bytes (replicate 32 CHR ''D'')),
     pe_fuel = 10\<rparr>"

lemma plain_env_ok: "env_ok (plain_env cfg) demo_transfer (\<lambda>xs. spec_keccak256 (concat xs)) UNIV"
proof -
  have key: "prog_key (plain_env cfg) = ascii_bytes (replicate 32 CHR ''D'')"
    by (simp add: prog_key_def const_key_def plain_env_def plain_web3_def)
  have "p' = p \<and> u32LE i = u32LE j" if "epoch_of (plain_env cfg) p i = epoch_of (plain_env cfg) p' j" for p p' i j
  proof -
    have eq: "p @ u32LE i = p' @ u32LE j"
      using that by (simp add: epoch_of_def distributor_epoch_def plain_env_def plain_web3_def)
    then have "length p = length p'" by (metis add_right_cancel length_append length_u32LE)
    then show ?thesis using eq by simp
  qed
  then have inj: "\<forall>p \<in> UNIV. \<forall>p' i j. epoch_of (plain_env cfg) p i = epoch_of (plain_env cfg) p' j \<longrightarrow> p' = p \<and> u32LE i = u32LE j"
    by blast
  have "new_PublicKey (pe_w3 (plain_env cfg)) (cfg_distributorProgramId (pe_cfg (plain_env cfg))) = Inr (prog_key (plain_env cfg))"
    unfolding key by (simp add: plain_env_def new_PublicKey_def plain_web3_def)
  moreover have "web3_ok (pe_w3 (plain_env cfg))" using plain_web3_ok by (simp add: plain_env_def)
  moreover have "pe_exec (plain_env cfg) = dist_exec (pe_w3 (plain_env cfg)) demo_transfer (\<lambda>xs. spec_keccak256 (concat xs)) (prog_key (plain_env cfg))"
    unfolding key by (simp add: plain_env_def)
  ultimately show ?thesis using inj unfolding env_ok_def by (intro conjI)
qed

definition plain_world :: payout_world where
  "plain_world = \<lparr>kw_faults = [Fine, FailBefore, DieAfter], kw_db = demo_db\<lparr>db_payouts := [], db_progress := []\<rparr>, kw_now = 0,
     cw_sends = [FailBefore, Fine, DieAfter], cw_chain = demo_chain Map.empty Map.empty [], cw_signed = 0\<rparr>"


end
