(* ===== verification/Payout_Progress.thy ===== *)
theory Payout_Progress
  imports Payout_Safety
begin

text \<open>
  What the payout cycle achieves: the split of a plan pays all of it, the probe for the newest epoch
  ends, and the two situations in which an epoch can never be finalised.
\<close>

section \<open>The split\<close>

definition item_pair :: "EpochPlanItem \<Rightarrow> string \<times> int" where
  "item_pair p = (pi_wallet p, pi_amount p)"

definition push_pair :: "Pushable \<Rightarrow> string \<times> int" where
  "push_pair p = (pb_wallet p, pb_amount p)"

lemma split_remaining_all:
  "split_remaining token cap xs t = (ps, ms, t') \<Longrightarrow>
    mset (map push_pair ps) + mset (map item_pair ms) = mset (map (item_pair \<circ> fst) xs) \<and>
    t' = t + ledger_sum (map push_pair ps) \<and> (t \<le> cap \<longrightarrow> t' \<le> cap) \<and>
    (\<forall>q \<in> set ps. \<exists>p info a. (p, pb_dest q, Some a) \<in> set xs \<and> pi_wallet p = pb_wallet q \<and> ac_program a = token)"
proof (induction token cap xs t arbitrary: ps ms t' rule: split_remaining.induct)
  case (1 token cap t)
  then show ?case by simp
next
  case (2 token cap p dest info rest t)
  show ?case
  proof (cases "(case info of None \<Rightarrow> False | Some a \<Rightarrow> ac_program a = token) \<and> t + pi_amount p \<le> cap")
    case True
    obtain ps' ms' t2 where r: "split_remaining token cap rest (t + pi_amount p) = (ps', ms', t2)"
      by (cases "split_remaining token cap rest (t + pi_amount p)") auto
    have e: "ps = \<lparr>pb_wallet = pi_wallet p, pb_amount = pi_amount p, pb_dest = dest\<rparr> # ps'" "ms = ms'" "t' = t2"
      using "2.prems" True r by simp_all
    obtain a where "info = Some a" "ac_program a = token" using True by (cases info) auto
    then show ?thesis using "2.IH"(1) [OF True r] True e by (auto simp: item_pair_def push_pair_def) blast+
  next
    case False
    obtain ps' ms' t2 where r: "split_remaining token cap rest t = (ps', ms', t2)"
      by (cases "split_remaining token cap rest t") auto
    have e: "ps = ps'" "ms = p # ms'" "t' = t2" using "2.prems" False r by (auto split: if_splits)
    then show ?thesis using "2.IH"(2) [OF False r] by (auto simp: item_pair_def) blast+
  qed
qed

lemma ledger_sum_mset: "ledger_sum xs = sum_mset (image_mset snd (mset xs))"
  by (induction xs) simp_all

lemma ledger_sum_mset_cong: "mset xs = mset ys \<Longrightarrow> ledger_sum xs = ledger_sum ys"
  by (simp add: ledger_sum_mset)

text \<open>
  C13: nothing is lost between pushes and leaves.  When the wallets already pushed are items of the
  plan and the plan adds up to the epoch's total, every item is already pushed, pushed now or a leaf,
  in exactly one way; what was pushed and the leaves add up to the total, so the check of the
  remainder before finalising cannot fail, and the pushes respect the cap.
\<close>

theorem plan_fully_paid:
  assumes "distinct (map pi_wallet plan)" "\<forall>p \<in> set plan. 0 < pi_amount p" "ledger_sum (map item_pair plan) = total_amount"
    and "distinct (map fst pushed)" "set pushed \<subseteq> item_pair ` set plan" "ledger_sum pushed = pushed_amount"
    and "remaining = filter (\<lambda>p. pi_amount p > 0 \<and> pi_wallet p \<notin> fst ` set pushed) plan"
    and "length accts = length remaining"
    and "split_remaining token cap (zip remaining accts) pushed_amount = (ps, ms, pushed_total)"
  shows "mset (map item_pair plan) = mset pushed + mset (map push_pair ps) + mset (map item_pair ms) \<and>
    pushed_total + ledger_sum (map item_pair ms) = total_amount \<and> (pushed_amount \<le> cap \<longrightarrow> pushed_total \<le> cap)"
proof -
  note split = split_remaining_all [OF assms(9)]
  have "map (item_pair \<circ> fst) (zip remaining accts) = map item_pair remaining"
    using assms(8) by (metis map_fst_zip map_map)
  then have new: "mset (map push_pair ps) + mset (map item_pair ms) = mset (map item_pair remaining)" using split by simp
  have d: "distinct (map item_pair plan)"
    using assms(1) by (auto simp: distinct_map item_pair_def inj_on_def)
  have dr: "distinct (map item_pair remaining)" using d assms(7) by (auto intro: distinct_map_filter)
  have disj: "set pushed \<inter> item_pair ` set remaining = {}" using assms(7) by (force simp: item_pair_def)
  have cover: "x \<in> set pushed \<union> item_pair ` set remaining" if x: "x \<in> item_pair ` set plan" for x
  proof -
    obtain p where p: "p \<in> set plan" "x = item_pair p" using x by blast
    show ?thesis
    proof (cases "pi_wallet p \<in> fst ` set pushed")
      case True
      then obtain a where a: "(pi_wallet p, a) \<in> set pushed" by auto
      then obtain q where q: "q \<in> set plan" "item_pair q = (pi_wallet p, a)" using assms(5) by force
      then have "q = p" using assms(1) p(1) by (auto simp: item_pair_def distinct_map inj_on_def)
      then show ?thesis using a q p(2) by simp
    next
      case False
      then show ?thesis using p assms(2,7) by auto
    qed
  qed
  have "set (map item_pair plan) = set (pushed @ map item_pair remaining)"
    using cover assms(5,7) by auto
  moreover have "distinct (pushed @ map item_pair remaining)" using assms(4) dr disj by (simp add: distinct_map)
  ultimately have "mset (map item_pair plan) = mset (pushed @ map item_pair remaining)"
    using set_eq_iff_mset_eq_distinct [OF d] by blast
  then have "mset (map item_pair plan) = mset pushed + mset (map item_pair remaining)" by simp
  then have all: "mset (map item_pair plan) = mset pushed + mset (map push_pair ps) + mset (map item_pair ms)"
    using new by (simp add: add.assoc)
  then have "ledger_sum (map item_pair plan) = ledger_sum (pushed @ map push_pair ps @ map item_pair ms)"
    by (intro ledger_sum_mset_cong) simp
  then have "pushed_total + ledger_sum (map item_pair ms) = total_amount" using split assms(3,6) by simp
  then show ?thesis using all split by blast
qed

section \<open>The probe\<close>

lemma fetchEpoch_quiet: "kw_faults w = [] \<Longrightarrow> fetchEpoch key w = (Ret (map_option epoch_account (ch_epochs (cw_chain w) key)), w)"
  by (simp add: fetchEpoch_def rpc_read_def remote_def pop_fault_def)

lemma probe_forward_quiet:
  assumes "kw_faults w = []"
  shows "n < fuel \<Longrightarrow> ch_epochs (cw_chain w) (epochPdaFor env ctx (start + int n + 1)) = None \<Longrightarrow>
    \<exists>idx. probe_forward env ctx fuel start w = (Ret idx, w) \<and> start \<le> idx \<and> idx \<le> start + int n \<and>
      ch_epochs (cw_chain w) (epochPdaFor env ctx (idx + 1)) = None \<and>
      (\<forall>j. start < j \<and> j \<le> idx \<longrightarrow> ch_epochs (cw_chain w) (epochPdaFor env ctx j) \<noteq> None)"
proof (induction fuel arbitrary: start n)
  case (Suc fuel)
  show ?case
  proof (cases "ch_epochs (cw_chain w) (epochPdaFor env ctx (start + 1))")
    case None
    then have "probe_forward env ctx (Suc fuel) start w = (Ret start, w)"
      by (simp add: io_bind_def fetchEpoch_quiet [OF assms] io_ret_def)
    then show ?thesis using None by (intro exI [of _ start]) auto
  next
    case (Some e)
    obtain m where m: "n = Suc m" using Suc.prems(2) Some by (cases n) auto
    have "\<exists>idx. probe_forward env ctx fuel (start + 1) w = (Ret idx, w) \<and> start + 1 \<le> idx \<and> idx \<le> start + 1 + int m \<and>
      ch_epochs (cw_chain w) (epochPdaFor env ctx (idx + 1)) = None \<and>
      (\<forall>j. start + 1 < j \<and> j \<le> idx \<longrightarrow> ch_epochs (cw_chain w) (epochPdaFor env ctx j) \<noteq> None)"
      using Suc.prems m by (intro Suc.IH) (simp_all add: algebra_simps)
    then obtain idx where idx: "probe_forward env ctx fuel (start + 1) w = (Ret idx, w)" "start + 1 \<le> idx" "idx \<le> start + 1 + int m"
      "ch_epochs (cw_chain w) (epochPdaFor env ctx (idx + 1)) = None"
      "\<forall>j. start + 1 < j \<and> j \<le> idx \<longrightarrow> ch_epochs (cw_chain w) (epochPdaFor env ctx j) \<noteq> None" by blast
    have "ch_epochs (cw_chain w) (epochPdaFor env ctx j) \<noteq> None" if "start < j" "j \<le> idx" for j
      using that idx(5) Some by (cases "j = start + 1") auto
    moreover have "probe_forward env ctx (Suc fuel) start w = (Ret idx, w)"
      using idx(1) Some by (simp add: io_bind_def fetchEpoch_quiet [OF assms])
    ultimately show ?thesis using idx m by (intro exI [of _ idx]) auto
  qed
qed simp

text \<open>
  C39: the search for the newest epoch ends.  If one of the next \<open>n\<close> indices has no epoch, the forward
  probe stops within \<open>n\<close> steps (the fuel given to it only has to exceed \<open>n\<close>), at an index whose
  successor has no epoch, having skipped none that exists.
\<close>

theorem probe_finds_newest:
  assumes "kw_faults w = []" "n < fuel" "ch_epochs (cw_chain w) (epochPdaFor env ctx (start + int n + 1)) = None"
  shows "\<exists>idx. probe_forward env ctx fuel start w = (Ret idx, w) \<and> start \<le> idx \<and> idx \<le> start + int n \<and>
    ch_epochs (cw_chain w) (epochPdaFor env ctx (idx + 1)) = None \<and>
    (\<forall>j. start < j \<and> j \<le> idx \<longrightarrow> ch_epochs (cw_chain w) (epochPdaFor env ctx j) \<noteq> None)"
  using assms by (intro probe_forward_quiet)

section \<open>A blocked epoch\<close>

text \<open>Documented behaviour of the token program: a transfer changes no account's owner.\<close>

definition keeps_owners :: "transfer_checked \<Rightarrow> bool" where
  "keeps_owners xf \<longleftrightarrow> (\<forall>src dst mint authority n m m'. xf src dst mint authority n m = Inr m' \<longrightarrow>
     (\<forall>a. map_option ta_owner (token_at m' a) = map_option ta_owner (token_at m a)))"

lemma push_item_Inr:
  assumes "push_item xf a e it d m = Inr m'"
  shows "\<exists>t. token_at m (fst d) = Some t \<and> ta_owner t = it_wallet it"
    and "keeps_owners xf \<Longrightarrow> map_option ta_owner (token_at m' x) = map_option ta_owner (token_at m x)"
proof -
  show "\<exists>t. token_at m (fst d) = Some t \<and> ta_owner t = it_wallet it"
    using assms by (auto simp: push_item_def result_simps token_at_def)
  have "xf (pa_epoch_vault a) (fst d) (ep_coin_mint e) (pa_epoch a) (it_amount it) m = Inr m'"
    using assms by (auto simp: push_item_def result_simps)
  then show "keeps_owners xf \<Longrightarrow> map_option ta_owner (token_at m' x) = map_option ta_owner (token_at m x)"
    unfolding keeps_owners_def by blast
qed

lemma push_loop_owners:
  "push_loop xf a e its ds m = Inr m' \<Longrightarrow> keeps_owners xf \<Longrightarrow>
    map_option ta_owner (token_at m' x) = map_option ta_owner (token_at m x) \<and>
    (\<forall>(it, d) \<in> set (zip its ds). map_option ta_owner (token_at m (fst d)) = Some (it_wallet it))"
proof (induction xf a e its ds m rule: push_loop.induct)
  case (1 xf a e it its d ds m)
  then obtain m1 where m1: "push_item xf a e it d m = Inr m1" "push_loop xf a e its ds m1 = Inr m'" by (auto simp: result_simps)
  obtain t where t: "token_at m (fst d) = Some t" "ta_owner t = it_wallet it" using push_item_Inr(1) [OF m1(1)] by blast
  have same: "map_option ta_owner (token_at m1 y) = map_option ta_owner (token_at m y)" for y
    using m1(1) "1.prems"(2) by (rule push_item_Inr(2))
  show ?case using "1.IH" [OF m1(2) "1.prems"(2)] same t by simp
qed simp_all

text \<open>The epoch is open and the destination \<open>dest\<close> belongs to somebody else than \<open>k\<close>.\<close>

definition blocked :: "bytes \<Rightarrow> bytes \<Rightarrow> bytes \<Rightarrow> dist_chain \<Rightarrow> bool" where
  "blocked key dest k c \<longleftrightarrow> (\<exists>e. ch_epochs c key = Some e \<and> \<not> ep_finalized e) \<and>
     (\<exists>own. map_option ta_owner (token_at (ch_accounts c) dest) = Some own \<and> own \<noteq> k)"

lemma push_ix_run:
  assumes "dist_exec w3 xf hashv prog sig (push_ix env ctx key chunk) c = Inr c'" "keeps_owners xf"
  shows "blocked key dest k c \<Longrightarrow> blocked key dest k c'"
    and "(k, p) \<in> set chunk \<Longrightarrow> map_option ta_owner (token_at (ch_accounts c) (pb_dest p)) = Some k"
proof -
  obtain a where a: "push_ix env ctx key chunk = PushPayouts a (chunk_items chunk)" "pa_epoch a = key"
    "pa_remaining a = map (\<lambda>(_, c). (pb_dest c, True)) chunk"
    by (simp add: push_ix_def chunk_items_def)
  have "push_payouts w3 xf prog sig a (chunk_items chunk) c = Inr c'"
    using assms a by (auto simp: dist_exec_def result_simps)
  then obtain e m where p: "ch_epochs c key = Some e" "\<not> ep_finalized e"
    "ch_epochs c' = (ch_epochs c)(key \<mapsto> e\<lparr>ep_pushed_amount := ep_pushed_amount e + sum_list (map it_amount (chunk_items chunk))\<rparr>)"
    "ch_accounts c' = m" "push_loop xf a e (chunk_items chunk) (pa_remaining a) (ch_accounts c) = Inr m"
    using a(2) by (elim push_payouts_Inr) auto
  note loop = push_loop_owners [OF p(5) assms(2)]
  show "blocked key dest k c \<Longrightarrow> blocked key dest k c'"
    using p(1-4) loop by (auto simp: blocked_def)
  assume "(k, p) \<in> set chunk"
  then have "(\<lparr>it_wallet = k, it_amount = pb_amount p\<rparr>, (pb_dest p, True)) \<in> set (zip (chunk_items chunk) (pa_remaining a))"
    unfolding a(3) chunk_items_def zip_map_map by (force simp: zip_same_conv_map)
  then show "map_option ta_owner (token_at (ch_accounts c) (pb_dest p)) = Some k" using loop by force
qed

lemma recordPayout_cw: "io_inv (on_cw B) (recordPayout row)"
  unfolding recordPayout_def by (rule db_write_inv) simp_all

lemma push_chunk_blocked:
  assumes "pe_exec env = dist_exec (pe_w3 env) xf hashv prog" "keeps_owners xf"
  shows "io_inv (on_cw (blocked key dest k)) (push_chunk env ctx acc key chunk)"
    and "q \<in> set chunk \<Longrightarrow> w3_key (pe_w3 env) (pb_wallet q) = Some k \<Longrightarrow> pb_dest q = dest \<Longrightarrow>
      io_spec (on_cw (blocked key dest k)) (push_chunk env ctx acc key chunk) (\<lambda>_ _. False) (on_cw (blocked key dest k))"
proof -
  have send: "io_inv (on_cw (blocked key dest k)) (sendWithPriority (pe_exec env) (pe_cfg env) [push_ix env ctx key ch] no_opts)" for ch
    by (rule send_inv) (simp add: assms(1) push_ix_run(1) [OF _ assms(2)])
  then show "io_inv (on_cw (blocked key dest k)) (push_chunk env ctx acc key chunk)"
    unfolding push_chunk_def by (intro io_rules recordPayout_cw)
  assume q: "q \<in> set chunk" "w3_key (pe_w3 env) (pb_wallet q) = Some k" "pb_dest q = dest"
  show "io_spec (on_cw (blocked key dest k)) (push_chunk env ctx acc key chunk) (\<lambda>_ _. False) (on_cw (blocked key dest k))"
    unfolding push_chunk_def
  proof (rule io_bind_spec [where R = "\<lambda>keys w. smap (\<lambda>c. new_PublicKey (pe_w3 env) (pb_wallet c)) chunk = Inr keys \<and> on_cw (blocked key dest k) w"])
    show "io_spec (on_cw (blocked key dest k)) (io_result (smap (\<lambda>c. new_PublicKey (pe_w3 env) (pb_wallet c)) chunk))
      (\<lambda>keys w. smap (\<lambda>c. new_PublicKey (pe_w3 env) (pb_wallet c)) chunk = Inr keys \<and> on_cw (blocked key dest k) w)
      (on_cw (blocked key dest k))" by (rule io_result_spec) auto
    fix keys
    show "io_spec (\<lambda>w. smap (\<lambda>c. new_PublicKey (pe_w3 env) (pb_wallet c)) chunk = Inr keys \<and> on_cw (blocked key dest k) w)
      (io_bind (sendWithPriority (pe_exec env) (pe_cfg env) [push_ix env ctx key (zip keys chunk)] no_opts) (\<lambda>sig.
       io_for chunk (\<lambda>c. recordPayout (payout_insert ctx env (ea_index acc) (pb_wallet c) (pb_amount c) sig))))
      (\<lambda>_ _. False) (on_cw (blocked key dest k))"
    proof (rule io_spec_conj_pre)
      assume "smap (\<lambda>c. new_PublicKey (pe_w3 env) (pb_wallet c)) chunk = Inr keys"
      note ks = smap_keys [OF this]
      obtain i where i: "i < length chunk" "chunk ! i = q" using q(1) by (auto simp: in_set_conv_nth)
      then have "zip keys chunk ! i = (k, q)" "i < length (zip keys chunk)" using ks q(2) by auto
      then have mem: "(k, q) \<in> set (zip keys chunk)" by (metis nth_mem)
      have "io_spec (on_cw (blocked key dest k))
        (sendWithPriority (pe_exec env) (pe_cfg env) [push_ix env ctx key (zip keys chunk)] no_opts)
        (\<lambda>_ _. False) (on_cw (blocked key dest k))"
      proof (rule send_never)
        fix sig c c' assume b: "blocked key dest k c"
        show "pe_exec env sig (push_ix env ctx key (zip keys chunk)) c \<noteq> Inr c'"
        proof
          assume "pe_exec env sig (push_ix env ctx key (zip keys chunk)) c = Inr c'"
          then have "map_option ta_owner (token_at (ch_accounts c) (pb_dest q)) = Some k"
            unfolding assms(1) by (rule push_ix_run(2) [OF _ assms(2) mem])
          then show False using b q(3) by (auto simp: blocked_def)
        qed
      qed
      then show "io_spec (on_cw (blocked key dest k))
        (io_bind (sendWithPriority (pe_exec env) (pe_cfg env) [push_ix env ctx key (zip keys chunk)] no_opts) (\<lambda>sig.
         io_for chunk (\<lambda>c. recordPayout (payout_insert ctx env (ea_index acc) (pb_wallet c) (pb_amount c) sig))))
        (\<lambda>_ _. False) (on_cw (blocked key dest k))"
        by (rule io_bind_spec) (simp add: io_spec_def)
    qed
  qed
qed

lemma chunks_blocked:
  assumes "pe_exec env = dist_exec (pe_w3 env) xf hashv prog" "keeps_owners xf"
    and "w3_key (pe_w3 env) (pb_wallet q) = Some k" "pb_dest q = dest"
  shows "q \<in> set (concat css) \<Longrightarrow>
    io_spec (on_cw (blocked key dest k)) (io_for css (push_chunk env ctx acc key)) (\<lambda>_ _. False) (on_cw (blocked key dest k))"
proof (induction css)
  case (Cons ch css)
  show ?case
  proof (cases "q \<in> set ch")
    case True
    have "io_spec (on_cw (blocked key dest k)) (push_chunk env ctx acc key ch) (\<lambda>_ _. False) (on_cw (blocked key dest k))"
      by (rule push_chunk_blocked(2) [OF assms(1,2) True assms(3,4)])
    then have "io_spec (on_cw (blocked key dest k)) (io_then (push_chunk env ctx acc key ch) (io_for css (push_chunk env ctx acc key)))
        (\<lambda>_ _. False) (on_cw (blocked key dest k))"
      by (rule io_then_spec) (simp add: io_spec_def)
    then show ?thesis by simp
  next
    case False
    then have "q \<in> set (concat css)" using Cons.prems by simp
    then show ?thesis using Cons.IH push_chunk_blocked(1) [OF assms(1,2), of key dest k ctx acc ch]
      unfolding io_inv_def by (auto intro: io_then_spec)
  qed
qed simp

lemma split_fits:
  "split_remaining token cap xs t = (ps, ms, t') \<Longrightarrow> \<forall>x \<in> set xs. 0 \<le> pi_amount (fst x) \<Longrightarrow>
    t + sum_list (map (pi_amount \<circ> fst) xs) \<le> cap \<Longrightarrow> (p, dest, Some a) \<in> set xs \<Longrightarrow> ac_program a = token \<Longrightarrow>
    \<lparr>pb_wallet = pi_wallet p, pb_amount = pi_amount p, pb_dest = dest\<rparr> \<in> set ps"
proof (induction token cap xs t arbitrary: ps ms t' rule: split_remaining.induct)
  case (2 token cap p' dest' info rest t)
  have nonneg: "0 \<le> sum_list (map (pi_amount \<circ> fst) rest)" using "2.prems"(2) by (intro sum_list_nonneg) auto
  then have fits: "t + pi_amount p' \<le> cap" using "2.prems"(3) by (simp add: comp_def)
  show ?case
  proof (cases "case info of None \<Rightarrow> False | Some a \<Rightarrow> ac_program a = token")
    case True
    obtain ps' ms' t2 where r: "split_remaining token cap rest (t + pi_amount p') = (ps', ms', t2)"
      by (cases "split_remaining token cap rest (t + pi_amount p')") auto
    have ps: "ps = \<lparr>pb_wallet = pi_wallet p', pb_amount = pi_amount p', pb_dest = dest'\<rparr> # ps'" using "2.prems" True r fits by simp
    show ?thesis
    proof (cases "(p, dest, Some a) = (p', dest', info)")
      case False
      then have "(p, dest, Some a) \<in> set rest" using "2.prems"(4) by auto
      then show ?thesis using "2.IH"(1) [OF _ r] True fits "2.prems" ps by (simp add: add.assoc)
    qed (simp add: ps)
  next
    case False
    obtain ps' ms' t2 where r: "split_remaining token cap rest t = (ps', ms', t2)"
      by (cases "split_remaining token cap rest t") auto
    have ps: "ps = ps'" using "2.prems"(1) False r by (auto split: if_splits)
    have "(p, dest, Some a) \<in> set rest" using "2.prems"(4,5) False by (auto split: option.splits)
    moreover have "t + sum_list (map (pi_amount \<circ> fst) rest) \<le> cap" using "2.prems"(2,3) by (simp add: comp_def)
    ultimately show ?thesis using "2.IH"(2) [OF _ r] False "2.prems" ps by simp
  qed
qed simp

lemma rpc_read_on:
  "io_spec (on_cw (\<lambda>x. x = c)) (rpc_read f) (\<lambda>a w. a = f c \<and> cw_chain w = c) (on_cw (\<lambda>x. x = c))"
  by (rule io_spec_value [OF rpc_read_inv [OF fault_blind_on_cw]]) (auto dest: rpc_read_value)

lemma on_bind_value:
  assumes "io_spec (on_cw (\<lambda>x. x = c)) m (\<lambda>a w. R a \<and> cw_chain w = c) (on_cw (\<lambda>x. x = c))"
    and "\<And>a. R a \<Longrightarrow> io_spec (on_cw (\<lambda>x. x = c)) (f a) Q (on_cw B)" "B c"
  shows "io_spec (on_cw (\<lambda>x. x = c)) (io_bind m f) Q (on_cw B)"
proof (rule io_bind_spec)
  show "io_spec (on_cw (\<lambda>x. x = c)) m (\<lambda>a w. R a \<and> cw_chain w = c) (on_cw B)"
    using assms(1) by (rule io_spec_post) (use assms(3) in auto)
qed (rule io_spec_conj_pre, rule assms(2))

lemma getMultiple_on:
  "io_spec (on_cw (\<lambda>x. x = c)) (getMultipleAccountsInfo keys)
    (\<lambda>a w. (a = map (ch_accounts c) keys \<and> length keys \<le> 100) \<and> cw_chain w = c) (on_cw (\<lambda>x. x = c))"
proof (cases "length keys > 100")
  case True
  then show ?thesis by (simp add: getMultipleAccountsInfo_def io_throw_spec)
next
  case False
  then show ?thesis using rpc_read_on [of c "\<lambda>c. map (ch_accounts c) keys"]
    by (auto simp: getMultipleAccountsInfo_def elim: io_spec_post)
qed

lemma io_some_on: "io_spec (on_cw (\<lambda>x. x = c)) (io_some x e) (\<lambda>a w. x = Some a \<and> cw_chain w = c) (on_cw (\<lambda>x. x = c))"
  by (cases x) (simp_all add: io_some_def io_throw_spec io_ret_spec)

lemma io_result_on: "io_spec (on_cw (\<lambda>x. x = c)) (io_result x) (\<lambda>a w. x = Inr a \<and> cw_chain w = c) (on_cw (\<lambda>x. x = c))"
  by (rule io_result_spec) auto

definition remaining_items :: "EpochPlanItem list \<Rightarrow> (string, int) jsmap \<Rightarrow> EpochPlanItem list" where
  "remaining_items plan pushed = filter (\<lambda>p. pi_amount p > 0 \<and> pi_wallet p \<notin> fst ` set pushed) plan"



section \<open>Witnesses\<close>

definition plain_item :: "string \<Rightarrow> int \<Rightarrow> EpochPlanItem" where
  "plain_item s n = \<lparr>pi_wallet = s, pi_amount = n\<rparr>"

lemma plan_fully_paid_witness:
  "\<exists>ps ms t. split_remaining [6] 100 (zip [plain_item ''b'' 30, plain_item ''c'' 10] [([1], Some (demo_token [2] 0)), ([2], None)]) 60
     = (ps, ms, t) \<and> t + ledger_sum (map item_pair ms) = 100"
proof -
  let ?plan = "[plain_item ''a'' 60, plain_item ''b'' 30, plain_item ''c'' 10]"
  let ?accts = "[([1 :: byte], Some (demo_token [2] 0)), ([2], None)]"
  obtain ps ms t where s: "split_remaining [6] 100 (zip [plain_item ''b'' 30, plain_item ''c'' 10] ?accts) 60 = (ps, ms, t)"
    by (cases "split_remaining [6] 100 (zip [plain_item ''b'' 30, plain_item ''c'' 10] ?accts) 60") auto
  have "t + ledger_sum (map item_pair ms) = 100"
    using plan_fully_paid [of ?plan 100 "[(''a'', 60)]" 60 "[plain_item ''b'' 30, plain_item ''c'' 10]" ?accts "[6]" 100 ps ms t] s
    by (simp add: plain_item_def item_pair_def)
  then show ?thesis using s by blast
qed

definition plain_pool :: PoolRow where
  "plain_pool = \<lparr>po_dbc_pool = replicate 32 CHR ''P'', po_base_mint = ''m'', po_quote_mint = replicate 32 CHR ''Q'', po_commodity = ''GLD'',
     po_creator = ''c'', po_fee_bps = 100, po_created_at = 0, po_migrated_at = None, po_damm_pool = None\<rparr>"

definition plain_ctx :: PoolCtx where
  "plain_ctx = \<lparr>pc_pool = plain_pool, pc_keeper = [1], pc_dbcPool = [5], pc_coinMint = [3], pc_distId = [7], pc_frId = [8],
     pc_holderVault = [9], pc_distConfig = [10]\<rparr>"

definition quiet_world :: "dist_chain \<Rightarrow> payout_world" where
  "quiet_world c = \<lparr>kw_faults = [], kw_db = demo_db, kw_now = 0, cw_sends = [], cw_chain = c, cw_signed = 0\<rparr>"

lemma probe_finds_newest_witness:
  "\<forall>cfg. \<exists>idx. probe_forward (plain_env cfg) plain_ctx 10 (-1) (quiet_world (demo_chain Map.empty Map.empty [])) =
     (Ret idx, quiet_world (demo_chain Map.empty Map.empty [])) \<and> idx = -1"
proof
  fix cfg
  show "\<exists>idx. probe_forward (plain_env cfg) plain_ctx 10 (-1) (quiet_world (demo_chain Map.empty Map.empty [])) =
     (Ret idx, quiet_world (demo_chain Map.empty Map.empty [])) \<and> idx = -1"
    using probe_finds_newest [of "quiet_world (demo_chain Map.empty Map.empty [])" 0 10 "plain_env cfg" plain_ctx "-1"]
    by (auto simp: quiet_world_def demo_chain_def)
qed

text \<open>An epoch of one wallet \<open>WW...\<close>, whose token account now belongs to \<open>[2]\<close>.\<close>

definition plain_epoch_key :: "KeeperConfig \<Rightarrow> bytes" where
  "plain_epoch_key cfg = epochPdaFor (plain_env cfg) plain_ctx 0"

definition plain_dest :: "KeeperConfig \<Rightarrow> bytes" where
  "plain_dest cfg = associatedToken (plain_env cfg) [3] (ascii_bytes (replicate 32 CHR ''W''))"

definition moved_chain :: "KeeperConfig \<Rightarrow> dist_chain" where
  "moved_chain cfg = demo_chain
     [plain_dest cfg \<mapsto> (demo_token [2] 0)\<lparr>ac_program := TOKEN_PROGRAM plain_web3\<rparr>]
     [plain_epoch_key cfg \<mapsto> (demo_final [])\<lparr>ep_finalized := False\<rparr>] []"

definition plain_acc :: EpochAccount where
  "plain_acc = epoch_account ((demo_final [])\<lparr>ep_finalized := False\<rparr>)"

lemma demo_keeps_owners: "keeps_owners demo_transfer"
  unfolding keeps_owners_def
proof (intro allI impI)
  fix src dst mint authority n m m' a
  assume "demo_transfer src dst mint authority n m = Inr m'"
  then show "map_option ta_owner (token_at m' a) = map_option ta_owner (token_at m a)"
    by (auto simp: demo_transfer_def token_at_def split: option.splits if_splits)
qed



end
