(* ===== verification/Registry.thy ===== *)
theory Registry
  imports Config Pda
begin

text \<open>
  The commodity registry every component reads (\<^verbatim>\<open>packages/registry/src\<close>): its vocabulary
  (\<^verbatim>\<open>types.ts\<close>), the table itself (\<^verbatim>\<open>commodities.ts\<close>) and the checks of \<^verbatim>\<open>validate.ts\<close>, whose
  errors are returned as the list it prints.  The presentation glyphs of the entries and the constant
  release phase are left out; an absent optional field and \<open>null\<close> are both \<open>None\<close>.
\<close>

section \<open>Vocabulary\<close>

datatype Category = Metals | Energy | Agriculture | Livestock | FastFood | Cs2Skins | GameGold | TradingCards | Water | Cars | Watches

datatype OracleKind = PythPull | Switchboard | KeeperSigned | Composite

definition OracleKind_code :: "OracleKind \<Rightarrow> int" where
  "OracleKind_code k = (case k of PythPull \<Rightarrow> 0 | Switchboard \<Rightarrow> 1 | KeeperSigned \<Rightarrow> 2 | Composite \<Rightarrow> 3)"

datatype SessionKind = Continuous | CmeGlobex | IceUs | Lme | Slow

definition SessionKind_code :: "SessionKind \<Rightarrow> int" where
  "SessionKind_code k = (case k of Continuous \<Rightarrow> 0 | CmeGlobex \<Rightarrow> 1 | IceUs \<Rightarrow> 2 | Lme \<Rightarrow> 3 | Slow \<Rightarrow> 4)"

datatype Quote = QuoteUSD | QuoteUSc | QuoteEUR

record OracleSpec =
  os_kind :: OracleKind
  os_pythSymbol :: "string option"
  os_feedId :: "string option"
  os_quote :: "Quote option"
  os_fxFeedId :: "string option"
  os_switchboardJob :: "string option"
  os_cadenceSec :: "int option"
  os_legs :: "(string \<times> int) list option"

record RiskParams =
  rp_baseSpreadBps :: int
  rp_closedSpreadBps :: int
  rp_confMultBps :: int
  rp_maxAgeOpenSec :: int
  rp_maxAgeClosedSec :: int
  rp_supplyCapUsd :: int
  rp_perTxCapUsd :: int

record Commodity =
  cm_symbol :: string
  cm_name :: string
  cm_displayName :: "string option"
  cm_category :: Category
  cm_unit :: string
  cm_unitShort :: string
  cm_tier :: Tier
  cm_session :: SessionKind
  cm_oracle :: OracleSpec
  cm_params :: RiskParams

section \<open>Presets and builders\<close>

definition preset :: "int \<Rightarrow> int \<Rightarrow> int \<Rightarrow> int \<Rightarrow> int \<Rightarrow> int \<Rightarrow> int \<Rightarrow> RiskParams" where
  "preset base shut mult open_age closed_age supply tx = \<lparr>rp_baseSpreadBps = base, rp_closedSpreadBps = shut,
     rp_confMultBps = mult, rp_maxAgeOpenSec = open_age, rp_maxAgeClosedSec = closed_age,
     rp_supplyCapUsd = supply, rp_perTxCapUsd = tx\<rparr>"

definition P_A24 :: RiskParams where "P_A24 = preset 10 10 50 60 60 250000 25000"
definition P_AHours :: RiskParams where "P_AHours = preset 15 150 50 120 (72 * 3600) 150000 15000"
definition P_B :: RiskParams where "P_B = preset 25 150 100 300 (72 * 3600) 75000 7500"
definition P_BMkt :: RiskParams where "P_BMkt = preset 100 100 100 3600 3600 50000 5000"
definition P_C :: RiskParams where "P_C = preset 150 150 100 (48 * 3600) (48 * 3600) 25000 2500"
definition P_CManual :: RiskParams where "P_CManual = preset 200 200 0 (30 * 86400) (30 * 86400) 25000 2500"

definition EURUSD :: string where
  "EURUSD = ''a995d00bb36a63cef7fd2c287dc105fc8f3d93779f062f09551b0af3e81ec30b''"

definition no_oracle :: "OracleKind \<Rightarrow> OracleSpec" where
  "no_oracle k = \<lparr>os_kind = k, os_pythSymbol = None, os_feedId = None, os_quote = None, os_fxFeedId = None,
     os_switchboardJob = None, os_cadenceSec = None, os_legs = None\<rparr>"

definition pyth :: "string \<Rightarrow> string option \<Rightarrow> Quote \<Rightarrow> OracleSpec" where
  "pyth pythSymbol feedId q = (no_oracle PythPull)\<lparr>os_pythSymbol := Some pythSymbol, os_feedId := feedId,
     os_quote := Some q, os_fxFeedId := (if q = QuoteEUR then Some EURUSD else None)\<rparr>"

definition sb :: "string \<Rightarrow> OracleSpec" where
  "sb switchboardJob = (no_oracle Switchboard)\<lparr>os_switchboardJob := Some switchboardJob\<rparr>"

definition manual :: "int \<Rightarrow> OracleSpec" where
  "manual cadenceSec = (no_oracle KeeperSigned)\<lparr>os_cadenceSec := Some cadenceSec\<rparr>"

definition composite :: "(string \<times> int) list \<Rightarrow> OracleSpec" where
  "composite legs = (no_oracle Composite)\<lparr>os_legs := Some legs\<rparr>"

definition com :: "string \<Rightarrow> string \<Rightarrow> string option \<Rightarrow> Category \<Rightarrow> string \<Rightarrow> string \<Rightarrow> Tier \<Rightarrow> SessionKind \<Rightarrow> OracleSpec \<Rightarrow> RiskParams \<Rightarrow> Commodity" where
  "com symbol name displayName category unit unitShort tier session oracle params =
     \<lparr>cm_symbol = symbol, cm_name = name, cm_displayName = displayName, cm_category = category, cm_unit = unit,
      cm_unitShort = unitShort, cm_tier = tier, cm_session = session, cm_oracle = oracle, cm_params = params\<rparr>"

text \<open>\<open>toLowerCase\<close> of an ASCII text.\<close>

definition lower_char :: "char \<Rightarrow> char" where
  "lower_char c = (if CHR ''A'' \<le> c \<and> c \<le> CHR ''Z'' then char_of ((of_char c :: nat) + 32) else c)"

definition toLowerCase :: "string \<Rightarrow> string" where
  "toLowerCase s = map lower_char s"

section \<open>The table\<close>

definition METALS :: "Commodity list" where
  "METALS =
  [com ''GLD'' ''Gold'' None Metals ''1 troy oz'' ''oz'' A24 Continuous (pyth ''Metal.Index.GOLD/USD'' (Some ''fa0f57505be633c026896e15afef2c7ce2cf8ff9a45349d1da737f4f01266b01'') QuoteUSD) P_A24,
   com ''SLV'' ''Silver'' None Metals ''1 troy oz'' ''oz'' A24 Continuous (pyth ''Metal.Index.SILVER/USD'' (Some ''6afca47e1c79ecd0d2844327efb463478417a9d498dfb0915ce5e88ae6d952d3'') QuoteUSD) P_A24,
   com ''XPT'' ''Platinum'' None Metals ''1 troy oz'' ''oz'' AHours CmeGlobex (pyth ''Metal.XPT/USD'' (Some ''398e4bbc7cbf89d6648c21e08019d878967677753b3096799595c78f805a34e5'') QuoteUSD) P_AHours,
   com ''XPD'' ''Palladium'' None Metals ''1 troy oz'' ''oz'' AHours CmeGlobex (pyth ''Metal.XPD/USD'' (Some ''80367e9664197f37d89a07a804dffd2101c479c7c4e8490501bc9d9e1e7f9021'') QuoteUSD) P_AHours,
   com ''HG'' ''Copper'' None Metals ''1 lb'' ''lb'' A24 Continuous (pyth ''Commodities.Index.CU/USD'' (Some ''b2b238aeb6ef5a722c5cf278595bf40434e174cac4f88c8ad5b6f5009b548c59'') QuoteUSD) P_A24,
   com ''ALI'' ''Aluminium'' None Metals ''1 metric ton'' ''t'' AHours Lme (pyth ''Metal.AL3M/USD'' (Some ''9397ba38556359e78a52853b5db5e350e86b9e9a6c01094698130112f3d10cb6'') QuoteUSD) P_AHours]"

definition ENERGY :: "Commodity list" where
  "ENERGY =
  [com ''CL'' ''WTI Crude'' None Energy ''1 barrel'' ''bbl'' AHours CmeGlobex (pyth ''Commodities.Index.WTI1M/USD'' None QuoteUSD) P_AHours,
   com ''BZ'' ''Brent Crude'' None Energy ''1 barrel'' ''bbl'' A24 Continuous (pyth ''Commodities.Index.BRENT/USD'' (Some ''f33ce961935076ef4dc98be75cf2126046eac1bffdcd7a0fa05ccf18b746fda6'') QuoteUSD) P_A24,
   com ''OIL'' ''Oil (Pyth 24/7 blend)'' None Energy ''1 barrel'' ''bbl'' A24 Continuous (pyth ''Commodities.Index.PYTHOIL/USD'' (Some ''67784f72e95ac01337edb7d7bd5bbd1c03669101b7068a620df228ed4e52ef14'') QuoteUSD) P_A24,
   com ''USO'' ''Oil fund exposure'' None Energy ''1 unit'' ''unit'' AHours CmeGlobex (pyth ''Equity.US.USO/USD'' (Some ''d00bd77d97dc5769de77f96d0e1a79cbf1364e14d0dbf046e221bce2e89710dd'') QuoteUSD) P_AHours,
   com ''NG'' ''Natural Gas'' None Energy ''1 MMBtu'' ''MMBtu'' A24 Continuous (pyth ''Commodities.Index.NATGAS/USD'' (Some ''45f95717fbe158e896415d1cea33814d73e54169022a8f7bcbb815ebef92f71c'') QuoteUSD) P_A24,
   com ''RB'' ''Gasoline'' None Energy ''1 gallon'' ''gal'' TierB CmeGlobex (sb ''nymex_rbob_front_month'') P_B,
   com ''HO'' ''Heating Oil'' None Energy ''1 gallon'' ''gal'' TierB CmeGlobex (sb ''nymex_ho_front_month'') P_B]"

definition AGRICULTURE :: "Commodity list" where
  "AGRICULTURE =
  [com ''LBR'' ''Lumber'' None Agriculture ''1,000 board ft'' ''mbf'' TierB CmeGlobex (sb ''cme_lumber_front_month'') P_B,
   com ''ZW'' ''Wheat'' None Agriculture ''1 bushel'' ''bu'' AHours CmeGlobex (pyth ''Commodities.WHZ6/USD'' (Some ''3f4760e9dcbaa7208a1d72af7edb1642681a48473c33100ee4e85aebf9a1b80f'') QuoteUSc) P_AHours,
   com ''ZC'' ''Corn'' None Agriculture ''1 bushel'' ''bu'' AHours CmeGlobex (pyth ''Commodities.COZ6/USD'' (Some ''417f8c1eef7f02018a1f62fa554046ab33cb7bd57dbb0b9a12ff01136c8556b1'') QuoteUSc) P_AHours,
   com ''ZS'' ''Soybeans'' None Agriculture ''1 bushel'' ''bu'' AHours CmeGlobex (pyth ''Commodities.SOX6/USD'' (Some ''20b5c568be5e8ac92de4db32c0353bf3d85104d2fd2954fe8cd62e6b59ff2516'') QuoteUSc) P_AHours,
   com ''ZM'' ''Soybean Meal'' None Agriculture ''1 short ton'' ''ton'' TierB CmeGlobex (sb ''cbot_soymeal_front_month'') P_B,
   com ''ZL'' ''Soybean Oil'' None Agriculture ''1 lb'' ''lb'' TierB CmeGlobex (sb ''cbot_soyoil_front_month'') P_B,
   com ''ZR'' ''Rice'' None Agriculture ''1 cwt'' ''cwt'' TierB CmeGlobex (sb ''cbot_rice_front_month'') P_B,
   com ''ZO'' ''Oats'' None Agriculture ''1 bushel'' ''bu'' TierB CmeGlobex (sb ''cbot_oats_front_month'') P_B,
   com ''SB'' ''Sugar'' None Agriculture ''1 lb'' ''lb'' AHours IceUs (pyth ''Commodities.RSV6/USc'' (Some ''083ec5425198db3a08d69ac2ac97fd8382bef92cd957526130f2daa48c1f9059'') QuoteUSc) P_AHours,
   com ''KC'' ''Coffee'' None Agriculture ''1 lb'' ''lb'' AHours IceUs (pyth ''Commodities.CFZ6/USc'' (Some ''a61c21c0ca93300f50f231b52f59e9a6f47a07d33e78c1a9b8f84bd5928a3e8f'') QuoteUSc) P_AHours,
   com ''CC'' ''Cocoa'' None Agriculture ''1 metric ton'' ''t'' AHours IceUs (pyth ''Commodities.CAZ6/USD'' (Some ''7452a0c6aa220280021272c3cebaaa0f32cc910cd14ea43460ff8ae2d1e773ea'') QuoteUSD) P_AHours,
   com ''CT'' ''Cotton'' None Agriculture ''1 lb'' ''lb'' TierB IceUs (sb ''ice_cotton_front_month'') P_B,
   com ''OJ'' ''Orange Juice'' None Agriculture ''1 lb'' ''lb'' TierB IceUs (sb ''ice_oj_front_month'') P_B,
   com ''DC'' ''Milk'' None Agriculture ''1 cwt (Class III)'' ''cwt'' TierB CmeGlobex (sb ''cme_class3_milk_front_month'') P_B]"

definition LIVESTOCK :: "Commodity list" where
  "LIVESTOCK =
  [com ''LE'' ''Live Cattle'' None Livestock ''1 lb'' ''lb'' AHours CmeGlobex (pyth ''Commodities.LCV6/USc'' (Some ''38f7825b9a942b6ec6fd63cb9c6d2e6e9903170dce9aba353d279ad0e1172d83'') QuoteUSc) P_AHours,
   com ''GF'' ''Feeder Cattle'' None Livestock ''1 lb'' ''lb'' TierB CmeGlobex (sb ''cme_feeder_cattle_front_month'') P_B,
   com ''HE'' ''Lean Hogs'' None Livestock ''1 lb'' ''lb'' TierB CmeGlobex (sb ''cme_lean_hogs_front_month'') P_B]"

definition FAST_FOOD :: "Commodity list" where
  "FAST_FOOD =
  [com ''BURGER'' ''Flagship burger'' (Some ''Big Mac'') FastFood ''1 sandwich'' ''sandwich'' TierC Slow (manual (7 * 86400)) P_CManual,
   com ''NUGGETS'' ''10 pc chicken nuggets'' (Some ''10 pc McNuggets'') FastFood ''1 order'' ''order'' TierC Slow (manual (7 * 86400)) P_CManual,
   com ''BIGBURGER'' ''Flame-grilled burger'' (Some ''Whopper'') FastFood ''1 sandwich'' ''sandwich'' TierC Slow (manual (7 * 86400)) P_CManual,
   com ''CHIXSAND'' ''Chicken sandwich'' (Some ''Chick-fil-A Sandwich'') FastFood ''1 sandwich'' ''sandwich'' TierC Slow (manual (7 * 86400)) P_CManual,
   com ''TACO'' ''Crunchy taco'' (Some ''Crunchy Taco'') FastFood ''1 taco'' ''taco'' TierC Slow (manual (7 * 86400)) P_CManual,
   com ''BURRITO'' ''Chicken burrito'' (Some ''Chicken Burrito'') FastFood ''1 burrito'' ''burrito'' TierC Slow (manual (7 * 86400)) P_CManual,
   com ''LATTE'' ''Grande latte'' (Some ''Grande Latte'') FastFood ''1 drink'' ''drink'' TierC Slow (manual (7 * 86400)) P_CManual,
   com ''PIZZA'' ''Large pepperoni pizza'' (Some ''Large Pepperoni'') FastFood ''1 pizza'' ''pizza'' TierC Slow (manual (7 * 86400)) P_CManual,
   com ''DBLBURGER'' ''Double cheeseburger'' (Some ''Double-Double'') FastFood ''1 burger'' ''burger'' TierC Slow (manual (7 * 86400)) P_CManual,
   com ''BACONBRGR'' ''Bacon burger'' (Some ''Baconator'') FastFood ''1 burger'' ''burger'' TierC Slow (manual (7 * 86400)) P_CManual,
   com ''SPICYCHIX'' ''Spicy chicken sandwich'' (Some ''Popeyes Sandwich'') FastFood ''1 sandwich'' ''sandwich'' TierC Slow (manual (7 * 86400)) P_CManual,
   com ''MEDCOFFEE'' ''Medium coffee'' (Some ''Dunkin Medium Coffee'') FastFood ''1 coffee'' ''coffee'' TierC Slow (manual (7 * 86400)) P_CManual,
   com ''FRIES'' ''Medium fries'' (Some ''Medium Fries'') FastFood ''1 order'' ''order'' TierC Slow (manual (7 * 86400)) P_CManual]"

definition CS2_SKINS :: "Commodity list" where
  "CS2_SKINS = map (\<lambda>(symbol, name). com symbol name None Cs2Skins ''1 item'' ''item'' TierB Continuous
    (sb (''cs2_'' @ toLowerCase symbol @ ''_median3'')) P_BMkt)
  [(''AKREDLINE'', ''AK-47 Redline (FT)''),
   (''AWPASIIMOV'', ''AWP Asiimov (FT)''),
   (''DLORE'', ''AWP Dragon Lore (FT)''),
   (''HOWL'', ''M4A4 Howl (FT)''),
   (''KARAMBIT'', ''Karambit Doppler (FN)''),
   (''BFLYFADE'', ''Butterfly Knife Fade (FN)''),
   (''DEAGLBLAZE'', ''Desert Eagle Blaze (FN)''),
   (''GLOCKFADE'', ''Glock-18 Fade (FN)''),
   (''PRNTSTREAM'', ''M4A1-S Printstream (FT)''),
   (''VICEGLOVES'', ''Sport Gloves Vice (FT)''),
   (''BRAVOCASE'', ''Operation Bravo Case''),
   (''VULCAN'', ''AK-47 Vulcan (FT)'')]"

definition GAME_GOLD :: "Commodity list" where
  "GAME_GOLD =
  [com ''RSGP'' ''OSRS Gold'' None GameGold ''1M gp'' ''M gp'' TierB Continuous (sb ''osrs_gp_median_sellers'') P_BMkt]"

definition TRADING_CARDS :: "Commodity list" where
  "TRADING_CARDS = map (\<lambda>(symbol, name, unit). com symbol name None TradingCards (''1 '' @ unit) unit TierC Slow
    (sb (''tcg_'' @ toLowerCase symbol @ ''_market'')) P_C)
  [(''ETB151'', ''151 Elite Trainer Box'', ''box''),
   (''ETBPRISM'', ''Prismatic Evolutions ETB'', ''box''),
   (''ETBRIVALS'', ''Destined Rivals ETB'', ''box''),
   (''ETBHEROES'', ''Ascended Heroes ETB'', ''box''),
   (''ETBCHAOS'', ''Chaos Rising ETB'', ''box''),
   (''ETBPHANTOM'', ''Phantasmal Flames ETB'', ''box''),
   (''ETBMASQ'', ''Twilight Masquerade ETB'', ''box''),
   (''ETBSPARKS'', ''Surging Sparks ETB'', ''box''),
   (''ETBBOLT'', ''Black Bolt ETB'', ''box''),
   (''ETBFLARE'', ''White Flare ETB'', ''box''),
   (''ETBMEGA'', ''Mega Evolution ETB'', ''box''),
   (''ETBZENITH'', ''Crown Zenith ETB'', ''box''),
   (''ETBOBSIDN'', ''Obsidian Flames ETB'', ''box''),
   (''UMBREONEX'', ''Umbreon ex SIR 161/131'', ''card''),
   (''MOONBREON'', ''Umbreon VMAX Alt Art'', ''card''),
   (''ZARDEX199'', ''Charizard ex SIR 199/165'', ''card''),
   (''ZARDEX223'', ''Charizard ex SIR 223/197'', ''card''),
   (''ZARDBASE'', ''Base Set Charizard'', ''card''),
   (''PIKAEX238'', ''Pikachu ex SIR 238/191'', ''card''),
   (''MEWEX232'', ''Mew ex SIR 232/091'', ''card''),
   (''TRMEWTWO'', ''Team Rocket's Mewtwo ex SIR'', ''card''),
   (''MEGAZARDY'', ''Mega Charizard Y ex 294/217'', ''card''),
   (''GIRATINAV'', ''Giratina V Alt Art'', ''card''),
   (''GARCHOMPEX'', ''Cynthia's Garchomp ex SIR'', ''card''),
   (''ZOROARKEX'', ''N's Zoroark ex SIR'', ''card'')]"

definition WATER_AND_CARS :: "Commodity list" where
  "WATER_AND_CARS =
  [com ''H2O'' ''California Water'' None Water ''1 acre-foot (NQH2O)'' ''af'' TierC Slow (manual (7 * 86400)) P_CManual,
   com ''LAMBO'' ''Italian supercar'' (Some ''Lamborghini Temerario'') Cars ''1 car (MSRP)'' ''car'' TierC Slow (manual (30 * 86400)) P_CManual]"

definition WATCHES :: "Commodity list" where
  "WATCHES = map (\<lambda>(symbol, name, displayName). com symbol name (Some displayName) Watches ''1 watch (unworn, full set)'' ''watch'' TierC Slow
    (sb (''watch_'' @ toLowerCase symbol @ ''_median3'')) P_C)
  [(''SUBMARINER'', ''Rolex Submariner Date 126610LN'', ''Rolex Submariner''),
   (''DAYTONA'', ''Rolex Cosmograph Daytona 126500LN'', ''Rolex Daytona''),
   (''GMTMASTER'', ''Rolex GMT-Master II 126710BLNR'', ''Rolex GMT-Master II''),
   (''DATEJUST'', ''Rolex Datejust 41 126334'', ''Rolex Datejust''),
   (''ROYALOAK'', ''AP Royal Oak 15510ST'', ''AP Royal Oak''),
   (''NAUTILUS'', ''Patek Philippe Nautilus 5811/1G'', ''Patek Nautilus''),
   (''SPEEDMSTR'', ''Omega Speedmaster Moonwatch 310.30.42.50.01.001'', ''Omega Speedmaster''),
   (''SANTOS'', ''Cartier Santos Large WSSA0018'', ''Cartier Santos''),
   (''GSHOCK'', ''Casio G-Shock DW-5600E'', ''G-Shock DW-5600''),
   (''TISSOTPRX'', ''Tissot PRX Powermatic 80'', ''Tissot PRX'')]"

definition COMMODITIES :: "Commodity list" where
  "COMMODITIES = METALS @ ENERGY @ AGRICULTURE @ LIVESTOCK @ FAST_FOOD @ CS2_SKINS @ GAME_GOLD @
     TRADING_CARDS @ WATER_AND_CARS @ WATCHES"

definition INDEX_COINS :: "Commodity list" where
  "INDEX_COINS =
  [com ''PMX'' ''Precious Metals Index'' None Metals ''1 index unit'' ''idx'' AHours CmeGlobex (composite [(''GLD'', 4000), (''SLV'', 3000), (''XPT'', 1500), (''XPD'', 1500)]) P_AHours,
   com ''WATCHX'' ''Luxury Watch Index'' None Watches ''1 index unit'' ''idx'' TierC Slow (composite [(''SUBMARINER'', 2500), (''DAYTONA'', 2500), (''ROYALOAK'', 2000), (''NAUTILUS'', 2000), (''SPEEDMSTR'', 1000)]) P_C,
   com ''CS2X'' ''CS2 Skins Index'' None Cs2Skins ''1 index unit'' ''idx'' TierB Continuous (composite [(''KARAMBIT'', 2500), (''HOWL'', 2500), (''DLORE'', 2500), (''AWPASIIMOV'', 1500), (''AKREDLINE'', 1000)]) P_BMkt]"

definition ALL_COINS :: "Commodity list" where
  "ALL_COINS = COMMODITIES @ INDEX_COINS"

definition bySymbol :: "string \<Rightarrow> Commodity option" where
  "bySymbol s = find (\<lambda>c. cm_symbol c = s) ALL_COINS"

definition CATEGORY_LABEL :: "Category \<Rightarrow> string" where
  "CATEGORY_LABEL c = (case c of Metals \<Rightarrow> ''Metals'' | Energy \<Rightarrow> ''Energy'' | Agriculture \<Rightarrow> ''Agriculture''
     | Livestock \<Rightarrow> ''Livestock'' | FastFood \<Rightarrow> ''Fast food'' | Cs2Skins \<Rightarrow> ''CS2 skins'' | GameGold \<Rightarrow> ''Game gold''
     | TradingCards \<Rightarrow> ''Trading cards'' | Water \<Rightarrow> ''Water'' | Cars \<Rightarrow> ''Cars'' | Watches \<Rightarrow> ''Watches'')"

section \<open>Validation\<close>

text \<open>The classes \<^verbatim>\<open>[A-Z0-9]\<close> and \<^verbatim>\<open>[0-9a-f]\<close> of the regular expressions.\<close>

definition upper_alnum :: "char \<Rightarrow> bool" where
  "upper_alnum c \<longleftrightarrow> (CHR ''A'' \<le> c \<and> c \<le> CHR ''Z'') \<or> (CHR ''0'' \<le> c \<and> c \<le> CHR ''9'')"

definition lower_hex :: "char \<Rightarrow> bool" where
  "lower_hex c \<longleftrightarrow> (CHR ''0'' \<le> c \<and> c \<le> CHR ''9'') \<or> (CHR ''a'' \<le> c \<and> c \<le> CHR ''f'')"

definition truthy :: "string option \<Rightarrow> bool" where
  "truthy v = (case v of None \<Rightarrow> False | Some s \<Rightarrow> s \<noteq> [])"

definition complain :: "bool \<Rightarrow> string \<Rightarrow> string list" where
  "complain bad msg = (if bad then [msg] else [])"

definition symbol_errors :: "Commodity \<Rightarrow> string list" where
  "symbol_errors c =
     complain (\<not> (list_all upper_alnum (cm_symbol c) \<and> 2 \<le> length (cm_symbol c) \<and> length (cm_symbol c) \<le> 12))
       (cm_symbol c @ '': symbol must be 2-12 uppercase alnum'') @
     complain (length (cm_symbol c) > 10) (cm_symbol c @ '': symbol must be at most 10 chars'')"

definition pyth_errors :: "Commodity \<Rightarrow> string list" where
  "pyth_errors c = (let ora = cm_oracle c in if os_kind ora \<noteq> PythPull then [] else
     complain (\<not> truthy (os_pythSymbol ora)) (cm_symbol c @ '': pyth symbol missing'') @
     complain (case os_feedId ora of None \<Rightarrow> False
       | Some f \<Rightarrow> f \<noteq> [] \<and> \<not> (list_all lower_hex f \<and> length f = 64)) (cm_symbol c @ '': bad feed id'') @
     complain (os_quote ora = Some QuoteEUR \<and> \<not> truthy (os_fxFeedId ora)) (cm_symbol c @ '': EUR quote needs fxFeedId''))"

definition switchboard_errors :: "Commodity \<Rightarrow> string list" where
  "switchboard_errors c = complain (os_kind (cm_oracle c) = Switchboard \<and> \<not> truthy (os_switchboardJob (cm_oracle c)))
     (cm_symbol c @ '': switchboard job missing'')"

definition leg_list :: "Commodity \<Rightarrow> (string \<times> int) list" where
  "leg_list c = (case os_legs (cm_oracle c) of None \<Rightarrow> [] | Some l \<Rightarrow> l)"

definition composite_errors :: "Commodity list \<Rightarrow> Commodity \<Rightarrow> string list" where
  "composite_errors commodities c = (if os_kind (cm_oracle c) \<noteq> Composite then [] else
     let legs = leg_list c; total_bps = sum_list (map snd legs) in
     complain (total_bps \<noteq> 10000) (cm_symbol c @ '': legs sum '' @ int_text total_bps @ '' != 10000'') @
     complain (length legs > 5) (cm_symbol c @ '': >5 legs'') @
     concat (map (\<lambda>l. complain (fst l \<notin> cm_symbol ` set commodities) (cm_symbol c @ '': unknown leg '' @ fst l)) legs) @
     concat (map (\<lambda>l. complain (snd l < 500) (cm_symbol c @ '': leg '' @ fst l @ '' < 5%'')) legs))"

definition param_errors :: "Commodity \<Rightarrow> string list" where
  "param_errors c = (let p = cm_params c in
     complain (rp_baseSpreadBps p < 1 \<or> rp_baseSpreadBps p > 1000) (cm_symbol c @ '': spread out of range'') @
     complain (rp_maxAgeClosedSec p < rp_maxAgeOpenSec p) (cm_symbol c @ '': closed max age < open''))"

fun entry_errors :: "Commodity list \<Rightarrow> string list \<Rightarrow> Commodity list \<Rightarrow> string list" where
  "entry_errors commodities seen [] = []"
| "entry_errors commodities seen (c # cs) =
     complain (cm_symbol c \<in> set seen) (''duplicate symbol '' @ cm_symbol c) @
     symbol_errors c @ pyth_errors c @ switchboard_errors c @ composite_errors commodities c @ param_errors c @
     entry_errors commodities (cm_symbol c # seen) cs"

definition EXCLUDED :: "string list" where
  "EXCLUDED = [''COKE'', ''HEROIN'', ''METH'', ''FENT'', ''MOLLY'', ''WEED'', ''ACID'', ''SHROOMS'', ''KET'', ''CRACK'', ''OXY'', ''XAN'']"

definition validate :: "Commodity list \<Rightarrow> Commodity list \<Rightarrow> string list" where
  "validate commodities everything = entry_errors commodities [] everything @
     concat (map (\<lambda>d. complain (d \<in> cm_symbol ` set everything) (''excluded category present: '' @ d)) EXCLUDED)"


section \<open>What validation promises\<close>

text \<open>An entry every reader of the registry can rely on.\<close>

definition oracle_ok :: "Commodity list \<Rightarrow> OracleSpec \<Rightarrow> bool" where
  "oracle_ok commodities ora = (case os_kind ora of
     PythPull \<Rightarrow> truthy (os_pythSymbol ora) \<and>
       (case os_feedId ora of None \<Rightarrow> True | Some f \<Rightarrow> f = [] \<or> list_all lower_hex f \<and> length f = 64) \<and>
       (os_quote ora = Some QuoteEUR \<longrightarrow> truthy (os_fxFeedId ora))
   | Switchboard \<Rightarrow> truthy (os_switchboardJob ora)
   | KeeperSigned \<Rightarrow> True
   | Composite \<Rightarrow> (let legs = (case os_legs ora of None \<Rightarrow> [] | Some l \<Rightarrow> l) in
       sum_list (map snd legs) = 10000 \<and> length legs \<le> 5 \<and>
       (\<forall>(s, w) \<in> set legs. s \<in> cm_symbol ` set commodities \<and> 500 \<le> w)))"

definition symbol_ok :: "string \<Rightarrow> bool" where
  "symbol_ok s \<longleftrightarrow> list_all upper_alnum s \<and> 2 \<le> length s \<and> length s \<le> 10 \<and> s \<notin> set EXCLUDED"

definition params_ok :: "RiskParams \<Rightarrow> bool" where
  "params_ok p \<longleftrightarrow> 1 \<le> rp_baseSpreadBps p \<and> rp_baseSpreadBps p \<le> 1000 \<and> rp_maxAgeOpenSec p \<le> rp_maxAgeClosedSec p"

definition entry_ok :: "Commodity list \<Rightarrow> Commodity \<Rightarrow> bool" where
  "entry_ok commodities c \<longleftrightarrow> symbol_ok (cm_symbol c) \<and> oracle_ok commodities (cm_oracle c) \<and> params_ok (cm_params c)"

definition registry_ok :: "Commodity list \<Rightarrow> Commodity list \<Rightarrow> bool" where
  "registry_ok commodities everything \<longleftrightarrow> distinct (map cm_symbol everything) \<and>
     (\<forall>c \<in> set everything. entry_ok commodities c)"

lemma complain_Nil [simp]: "complain bad msg = [] \<longleftrightarrow> \<not> bad"
  by (simp add: complain_def)

lemma oracle_errors_Nil:
  "pyth_errors c = [] \<and> switchboard_errors c = [] \<and> composite_errors commodities c = [] \<longleftrightarrow>
    oracle_ok commodities (cm_oracle c)"
proof (cases "os_kind (cm_oracle c)")
  case Composite
  then show ?thesis
    by (auto simp: pyth_errors_def switchboard_errors_def composite_errors_def oracle_ok_def leg_list_def Let_def
        not_less split: prod.splits)
qed (auto simp: pyth_errors_def switchboard_errors_def composite_errors_def oracle_ok_def Let_def split: option.splits)

lemma entry_errors_Nil:
  "entry_errors commodities seen cs = [] \<and> (\<forall>c \<in> set cs. cm_symbol c \<notin> set EXCLUDED) \<longleftrightarrow>
    distinct (map cm_symbol cs) \<and> (\<forall>c \<in> set cs. cm_symbol c \<notin> set seen \<and> entry_ok commodities c)"
proof (induction cs arbitrary: seen)
  case (Cons c cs)
  have "symbol_errors c = [] \<and> pyth_errors c = [] \<and> switchboard_errors c = [] \<and> composite_errors commodities c = [] \<and>
      param_errors c = [] \<and> cm_symbol c \<notin> set EXCLUDED \<longleftrightarrow> entry_ok commodities c"
    unfolding entry_ok_def oracle_errors_Nil [symmetric] symbol_ok_def params_ok_def
    by (auto simp: symbol_errors_def param_errors_def Let_def not_less)
  then show ?case using Cons.IH [of "cm_symbol c # seen"] by (auto simp: image_iff; metis)
qed simp

text \<open>
  \<open>validate\<close> reports no error exactly for a registry whose symbols are distinct, 2 to 10 upper-case
  alphanumeric characters, none of the excluded ones, whose oracle specifications are complete (pinned
  Pyth feeds are 64 hexadecimal digits, index legs are at most five listed commodities of at least 5 per
  cent that add up to 10000 bps) and whose spreads and ages are in range.
\<close>

theorem validate_complete: "validate commodities everything = [] \<longleftrightarrow> registry_ok commodities everything"
proof -
  have "validate commodities everything = [] \<longleftrightarrow>
      entry_errors commodities [] everything = [] \<and> (\<forall>c \<in> set everything. cm_symbol c \<notin> set EXCLUDED)"
    by (auto simp: validate_def)
  then show ?thesis by (simp add: registry_ok_def entry_errors_Nil)
qed

lemma upper_alnum_symbolToBytes12:
  "list_all upper_alnum s \<Longrightarrow> 1 \<le> length s \<Longrightarrow> length s \<le> 12 \<Longrightarrow> \<exists>b. symbolToBytes12 s = Inr b"
  by (simp add: symbolToBytes12_def upper_alnum_def list_all_iff)

lemma find_distinct_key:
  "distinct (map f xs) \<Longrightarrow> x \<in> set xs \<Longrightarrow> find (\<lambda>c. f c = f x) xs = Some x"
  by (induction xs) (auto simp: image_iff)

lemma com_sel [simp]:
  "cm_symbol (com s n d c u us t se ora p) = s" "cm_oracle (com s n d c u us t se ora p) = ora"
  "cm_params (com s n d c u us t se ora p) = p"
  by (simp_all add: com_def)

lemmas section_defs = METALS_def ENERGY_def AGRICULTURE_def LIVESTOCK_def FAST_FOOD_def CS2_SKINS_def GAME_GOLD_def
  TRADING_CARDS_def WATER_AND_CARS_def WATCHES_def

text \<open>The symbols, in the order of the table.\<close>

definition SYMBOLS :: "string list" where
  "SYMBOLS = [
   ''GLD'', ''SLV'', ''XPT'', ''XPD'', ''HG'', ''ALI'', ''CL'', ''BZ'', ''OIL'', ''USO'', ''NG'', ''RB'',
   ''HO'', ''LBR'', ''ZW'', ''ZC'', ''ZS'', ''ZM'', ''ZL'', ''ZR'', ''ZO'', ''SB'', ''KC'', ''CC'', ''CT'',
   ''OJ'', ''DC'', ''LE'', ''GF'', ''HE'', ''BURGER'', ''NUGGETS'', ''BIGBURGER'', ''CHIXSAND'', ''TACO'',
   ''BURRITO'', ''LATTE'', ''PIZZA'', ''DBLBURGER'', ''BACONBRGR'', ''SPICYCHIX'', ''MEDCOFFEE'', ''FRIES'',
   ''AKREDLINE'', ''AWPASIIMOV'', ''DLORE'', ''HOWL'', ''KARAMBIT'', ''BFLYFADE'', ''DEAGLBLAZE'',
   ''GLOCKFADE'', ''PRNTSTREAM'', ''VICEGLOVES'', ''BRAVOCASE'', ''VULCAN'', ''RSGP'', ''ETB151'',
   ''ETBPRISM'', ''ETBRIVALS'', ''ETBHEROES'', ''ETBCHAOS'', ''ETBPHANTOM'', ''ETBMASQ'', ''ETBSPARKS'',
   ''ETBBOLT'', ''ETBFLARE'', ''ETBMEGA'', ''ETBZENITH'', ''ETBOBSIDN'', ''UMBREONEX'', ''MOONBREON'',
   ''ZARDEX199'', ''ZARDEX223'', ''ZARDBASE'', ''PIKAEX238'', ''MEWEX232'', ''TRMEWTWO'', ''MEGAZARDY'',
   ''GIRATINAV'', ''GARCHOMPEX'', ''ZOROARKEX'', ''H2O'', ''LAMBO'', ''SUBMARINER'', ''DAYTONA'',
   ''GMTMASTER'', ''DATEJUST'', ''ROYALOAK'', ''NAUTILUS'', ''SPEEDMSTR'', ''SANTOS'', ''GSHOCK'',
   ''TISSOTPRX'', ''PMX'', ''WATCHX'', ''CS2X'']"

lemma symbols_of_table: "map cm_symbol ALL_COINS = SYMBOLS"
  by (simp add: ALL_COINS_def COMMODITIES_def INDEX_COINS_def section_defs SYMBOLS_def)

lemma symbols_ok: "list_all symbol_ok SYMBOLS"
  by code_simp

lemma symbols_distinct: "distinct SYMBOLS"
  by code_simp

lemma presets_ok [simp]: "params_ok P_A24" "params_ok P_AHours" "params_ok P_B" "params_ok P_BMkt" "params_ok P_C" "params_ok P_CManual"
  by (simp_all add: params_ok_def preset_def P_A24_def P_AHours_def P_B_def P_BMkt_def P_C_def P_CManual_def)

definition feed_ok :: "string option \<Rightarrow> bool" where
  "feed_ok f = (case f of None \<Rightarrow> True | Some h \<Rightarrow> list_all lower_hex h \<and> length h = 64)"

lemma oracle_ok_builders [simp]:
  "oracle_ok cs (sb j) \<longleftrightarrow> j \<noteq> []" "oracle_ok cs (manual n)"
  "p \<noteq> [] \<Longrightarrow> feed_ok f \<Longrightarrow> oracle_ok cs (pyth p f q)"
  "oracle_ok cs (composite legs) \<longleftrightarrow> sum_list (map snd legs) = 10000 \<and> length legs \<le> 5 \<and>
     (\<forall>(s, w) \<in> set legs. s \<in> cm_symbol ` set cs \<and> 500 \<le> w)"
  by (auto simp: oracle_ok_def sb_def manual_def pyth_def composite_def no_oracle_def truthy_def feed_ok_def EURUSD_def
      split: option.splits)

definition FEEDS :: "string list" where
  "FEEDS = [
   ''fa0f57505be633c026896e15afef2c7ce2cf8ff9a45349d1da737f4f01266b01'',
   ''6afca47e1c79ecd0d2844327efb463478417a9d498dfb0915ce5e88ae6d952d3'',
   ''398e4bbc7cbf89d6648c21e08019d878967677753b3096799595c78f805a34e5'',
   ''80367e9664197f37d89a07a804dffd2101c479c7c4e8490501bc9d9e1e7f9021'',
   ''b2b238aeb6ef5a722c5cf278595bf40434e174cac4f88c8ad5b6f5009b548c59'',
   ''9397ba38556359e78a52853b5db5e350e86b9e9a6c01094698130112f3d10cb6'',
   ''f33ce961935076ef4dc98be75cf2126046eac1bffdcd7a0fa05ccf18b746fda6'',
   ''67784f72e95ac01337edb7d7bd5bbd1c03669101b7068a620df228ed4e52ef14'',
   ''d00bd77d97dc5769de77f96d0e1a79cbf1364e14d0dbf046e221bce2e89710dd'',
   ''45f95717fbe158e896415d1cea33814d73e54169022a8f7bcbb815ebef92f71c'',
   ''3f4760e9dcbaa7208a1d72af7edb1642681a48473c33100ee4e85aebf9a1b80f'',
   ''417f8c1eef7f02018a1f62fa554046ab33cb7bd57dbb0b9a12ff01136c8556b1'',
   ''20b5c568be5e8ac92de4db32c0353bf3d85104d2fd2954fe8cd62e6b59ff2516'',
   ''083ec5425198db3a08d69ac2ac97fd8382bef92cd957526130f2daa48c1f9059'',
   ''a61c21c0ca93300f50f231b52f59e9a6f47a07d33e78c1a9b8f84bd5928a3e8f'',
   ''7452a0c6aa220280021272c3cebaaa0f32cc910cd14ea43460ff8ae2d1e773ea'',
   ''38f7825b9a942b6ec6fd63cb9c6d2e6e9903170dce9aba353d279ad0e1172d83'']"

lemma FEEDS_ok: "list_all (\<lambda>f. feed_ok (Some f)) FEEDS"
  by code_simp

lemma feed_ok_None [simp]: "feed_ok None"
  by (simp add: feed_ok_def)

lemma feed_ok_member: "f \<in> set FEEDS \<Longrightarrow> feed_ok (Some f)"
  using FEEDS_ok by (simp add: list_all_iff)


definition core_ok :: "Commodity list \<Rightarrow> Commodity \<Rightarrow> bool" where
  "core_ok cs c \<longleftrightarrow> oracle_ok cs (cm_oracle c) \<and> params_ok (cm_params c)"

lemma core_ok_com: "core_ok cs (com s n d c u us t se ora p) \<longleftrightarrow> oracle_ok cs ora \<and> params_ok p"
  by (simp add: core_ok_def)

lemmas core_simps = list.pred_inject core_ok_com oracle_ok_builders presets_ok feed_ok_None append_is_Nil_conv
  list.distinct simp_thms list.map prod.case

lemma sections_ok:
  "list_all (core_ok cs) METALS" "list_all (core_ok cs) ENERGY" "list_all (core_ok cs) AGRICULTURE"
  "list_all (core_ok cs) LIVESTOCK"
  using FEEDS_ok by (simp_all only: METALS_def ENERGY_def AGRICULTURE_def LIVESTOCK_def FEEDS_def core_simps)

lemma more_sections_ok:
  "list_all (core_ok cs) FAST_FOOD" "list_all (core_ok cs) CS2_SKINS" "list_all (core_ok cs) GAME_GOLD"
  "list_all (core_ok cs) TRADING_CARDS" "list_all (core_ok cs) WATER_AND_CARS" "list_all (core_ok cs) WATCHES"
  by (simp_all only: FAST_FOOD_def CS2_SKINS_def GAME_GOLD_def TRADING_CARDS_def WATER_AND_CARS_def WATCHES_def core_simps)

lemma entries_ok: "list_all (core_ok cs) COMMODITIES"
  by (simp only: COMMODITIES_def list_all_append sections_ok more_sections_ok simp_thms)

lemma length_commodities: "length COMMODITIES = 93"
  by (simp only: COMMODITIES_def section_defs length_append list.map list.size; simp)

lemma symbols_commodities: "cm_symbol ` set COMMODITIES = set (take 93 SYMBOLS)"
  by (simp add: symbols_of_table [symmetric] ALL_COINS_def length_commodities)

lemma index_entries_ok: "list_all (core_ok COMMODITIES) INDEX_COINS"
proof -
  have "list_all (\<lambda>s. s \<in> cm_symbol ` set COMMODITIES) [''GLD'', ''SLV'', ''XPT'', ''XPD'', ''SUBMARINER'', ''DAYTONA'', ''ROYALOAK'',
      ''NAUTILUS'', ''SPEEDMSTR'', ''KARAMBIT'', ''HOWL'', ''DLORE'', ''AWPASIIMOV'', ''AKREDLINE'']"
    unfolding symbols_commodities by code_simp
  then show ?thesis by (simp only: INDEX_COINS_def core_simps list.set ball_simps) simp?
qed

lemma registry_holds: "registry_ok COMMODITIES ALL_COINS"
proof -
  have sym: "symbol_ok (cm_symbol c)" if "c \<in> set ALL_COINS" for c
  proof -
    have "cm_symbol c \<in> set SYMBOLS" unfolding symbols_of_table [symmetric] using that by simp
    then show ?thesis using symbols_ok by (simp add: list_all_iff)
  qed
  have "oracle_ok COMMODITIES (cm_oracle c) \<and> params_ok (cm_params c)" if "c \<in> set ALL_COINS" for c
    using that entries_ok [of COMMODITIES] index_entries_ok by (auto simp: ALL_COINS_def list_all_iff core_ok_def)
  then show ?thesis using sym symbols_distinct by (simp add: registry_ok_def entry_ok_def symbols_of_table)
qed

text \<open>Every coin is found by its symbol.\<close>

lemma bySymbol_member:
  assumes "c \<in> set ALL_COINS"
  shows "bySymbol (cm_symbol c) = Some c"
proof -
  have "distinct (map cm_symbol ALL_COINS)" using registry_holds by (simp add: registry_ok_def)
  then show ?thesis unfolding bySymbol_def using assms by (rule find_distinct_key)
qed

text \<open>
  C27: the published registry passes its own validation, every entry is found again by its symbol, every
  symbol fits the 12-byte field of the program, and no two entries share those bytes.
\<close>

theorem registry_sound:
  assumes "c \<in> set ALL_COINS"
  shows "entry_ok COMMODITIES c \<and> bySymbol (cm_symbol c) = Some c \<and>
    (\<exists>b. symbolToBytes12 (cm_symbol c) = Inr b \<and>
      (\<forall>d \<in> set ALL_COINS. symbolToBytes12 (cm_symbol d) = Inr b \<longrightarrow> d = c))"
proof -
  have ok: "entry_ok COMMODITIES c"
    using registry_holds assms by (auto simp: registry_ok_def)
  obtain b where b: "symbolToBytes12 (cm_symbol c) = Inr b"
    using ok upper_alnum_symbolToBytes12 [of "cm_symbol c"] by (auto simp: entry_ok_def symbol_ok_def)
  have "x = c" if x: "x \<in> set ALL_COINS" "symbolToBytes12 (cm_symbol x) = Inr b" for x
  proof -
    have "ascii_bytes (cm_symbol x) = ascii_bytes (cm_symbol c)"
      using symbolToBytes12_Inr(2) [OF x(2)] symbolToBytes12_Inr(2) [OF b] by simp
    then have "cm_symbol x = cm_symbol c" by (simp add: ascii_bytes_inj)
    then have "Some x = Some c" using bySymbol_member [OF x(1)] bySymbol_member [OF assms] by metis
    then show ?thesis by (rule option.inject [THEN iffD1])
  qed
  then have "\<forall>d \<in> set ALL_COINS. symbolToBytes12 (cm_symbol d) = Inr b \<longrightarrow> d = c" by (intro ballI impI)
  then have "\<exists>b. symbolToBytes12 (cm_symbol c) = Inr b \<and> (\<forall>d \<in> set ALL_COINS. symbolToBytes12 (cm_symbol d) = Inr b \<longrightarrow> d = c)"
    using b by (intro exI [of _ b] conjI)
  then show ?thesis using ok bySymbol_member [OF assms] by (intro conjI)
qed

lemma registry_sound_witness: "bySymbol (cm_symbol (hd ALL_COINS)) = Some (hd ALL_COINS)"
proof -
  have "ALL_COINS \<noteq> []" by (simp only: ALL_COINS_def COMMODITIES_def METALS_def append_Cons list.distinct not_False_eq_True)
  then have "hd ALL_COINS \<in> set ALL_COINS" by (rule hd_in_set)
  from registry_sound [OF this, THEN conjunct2, THEN conjunct1] show ?thesis .
qed

end
