(* ===== verification/PegChain.thy ===== *)
theory PegChain
  imports Rpc Registry PricingRust
begin

text \<open>
  The part of the \<^verbatim>\<open>peg_desk\<close> program the keeper writes to
  (\<^verbatim>\<open>programs/peg_desk/src/instructions/{commodity,keeper}.rs\<close>): the status of a commodity, its feed
  accounts, and the posted keeper price with its bounds.  An instruction runs on the chain or fails
  with the program's error.  The second part is what the SDK's client
  (\<^verbatim>\<open>packages/sdk/src/pegDesk.ts\<close>) builds for it.
\<close>

section \<open>Accounts\<close>

datatype Status = StOpen | StClosed | StHalted

fun Status_code :: "Status \<Rightarrow> int" where
  "Status_code StOpen = 0" | "Status_code StClosed = 1" | "Status_code StHalted = 2"

definition Status_from_u8 :: "int \<Rightarrow> Status option" where
  "Status_from_u8 v = (if v = 0 then Some StOpen else if v = 1 then Some StClosed else if v = 2 then Some StHalted else None)"

lemma Status_from_code [simp]: "Status_from_u8 (Status_code s) = Some s"
  by (cases s) (simp_all add: Status_from_u8_def)

record GlobalConfig =
  gl_admin :: bytes
  gl_keepers :: "bytes list"

record PegCommodity =
  pg_oracle_kind :: int
  pg_status :: Status
  pg_feed_account :: bytes
  pg_fx_feed_account :: bytes

record KeeperPrice =
  kp_price :: int
  kp_conf :: int
  kp_publish_time :: int
  kp_source_hash :: bytes
  kp_max_move_bps :: int
  kp_min_interval :: int
  kp_last_update_ts :: int

record peg_chain =
  pd_config :: GlobalConfig
  pd_commodities :: "bytes \<Rightarrow> PegCommodity option"
  pd_prices :: "bytes \<Rightarrow> KeeperPrice option"
  pd_clock :: int

definition is_admin :: "GlobalConfig \<Rightarrow> bytes \<Rightarrow> bool" where
  "is_admin g k \<longleftrightarrow> gl_admin g = k"

definition is_keeper :: "GlobalConfig \<Rightarrow> bytes \<Rightarrow> bool" where
  "is_keeper g k \<longleftrightarrow> k \<in> set (gl_keepers g)"

section \<open>Instructions\<close>

record KeeperUpdate =
  ku_keeper :: bytes
  ku_commodity :: bytes
  ku_price :: int
  ku_conf :: int
  ku_publish_time :: int
  ku_source_hash :: bytes

datatype peg_ix =
    SetStatus bytes bytes int
  | SetFeedAccount bytes bytes bytes bytes
  | KeeperUpdatePrice KeeperUpdate
  | SetKeeperBounds bytes bytes int int
  | ForeignIx bytes

definition put_commodity :: "bytes \<Rightarrow> PegCommodity \<Rightarrow> peg_chain \<Rightarrow> peg_chain" where
  "put_commodity k m c = c\<lparr>pd_commodities := (pd_commodities c)(k \<mapsto> m)\<rparr>"

definition keeper_may :: "Status \<Rightarrow> Status \<Rightarrow> bool" where
  "keeper_may cur new \<longleftrightarrow> cur = new \<or> (cur = StOpen \<and> new = StClosed) \<or> (cur = StClosed \<and> new = StOpen) \<or> new = StHalted"

definition set_status :: "bytes \<Rightarrow> bytes \<Rightarrow> int \<Rightarrow> peg_chain \<Rightarrow> string + peg_chain" where
  "set_status who k status c =
     sbind (some_or (pd_commodities c k) ''AccountNotInitialized'') (\<lambda>m.
     sbind (require (is_admin (pd_config c) who \<or> is_keeper (pd_config c) who) ''Unauthorized'') (\<lambda>_.
     sbind (case Status_from_u8 status of None \<Rightarrow> Inl ''InvalidStatus'' | Some new \<Rightarrow> Inr new) (\<lambda>new.
     sbind (require (is_admin (pd_config c) who \<or> keeper_may (pg_status m) new) ''Unauthorized'') (\<lambda>_.
     Inr (put_commodity k (m\<lparr>pg_status := new\<rparr>) c)))))"

definition set_feed_account :: "bytes \<Rightarrow> bytes \<Rightarrow> bytes \<Rightarrow> bytes \<Rightarrow> peg_chain \<Rightarrow> string + peg_chain" where
  "set_feed_account who k feed fx c =
     sbind (some_or (pd_commodities c k) ''AccountNotInitialized'') (\<lambda>m.
     sbind (require (is_admin (pd_config c) who \<or> is_keeper (pd_config c) who) ''Unauthorized'') (\<lambda>_.
     Inr (put_commodity k (m\<lparr>pg_feed_account := feed, pg_fx_feed_account := fx\<rparr>) c)))"

definition DEFAULT_MAX_MOVE_BPS :: int where "DEFAULT_MAX_MOVE_BPS = 500"
definition DEFAULT_MIN_INTERVAL :: int where "DEFAULT_MIN_INTERVAL = 30"
definition MAX_FUTURE_SKEW_SECS :: int where "MAX_FUTURE_SKEW_SECS = 10"

text \<open>The account \<open>init_if_needed\<close> makes, with the bounds of the first write.\<close>

definition fresh_price :: KeeperPrice where
  "fresh_price = \<lparr>kp_price = 0, kp_conf = 0, kp_publish_time = 0, kp_source_hash = replicate 32 0,
     kp_max_move_bps = DEFAULT_MAX_MOVE_BPS, kp_min_interval = DEFAULT_MIN_INTERVAL, kp_last_update_ts = 0\<rparr>"

definition price_account :: "bytes \<Rightarrow> peg_chain \<Rightarrow> KeeperPrice" where
  "price_account k c = (case pd_prices c k of None \<Rightarrow> fresh_price | Some p \<Rightarrow> p)"

definition move_ok :: "KeeperPrice \<Rightarrow> int \<Rightarrow> bool" where
  "move_ok kp price \<longleftrightarrow> kp_price kp \<le> 0 \<or> \<bar>price - kp_price kp\<bar> * 10000 div kp_price kp \<le> kp_max_move_bps kp"

definition spacing_ok :: "KeeperPrice \<Rightarrow> int \<Rightarrow> bool" where
  "spacing_ok kp now \<longleftrightarrow> now - kp_last_update_ts kp \<ge> max 1 (kp_min_interval kp)"

definition keeper_update_price :: "KeeperUpdate \<Rightarrow> peg_chain \<Rightarrow> string + peg_chain" where
  "keeper_update_price a c =
     sbind (some_or (pd_commodities c (ku_commodity a)) ''AccountNotInitialized'') (\<lambda>m.
     sbind (require (is_keeper (pd_config c) (ku_keeper a)) ''Unauthorized'') (\<lambda>_.
     sbind (require (pg_oracle_kind m = OracleKind_code KeeperSigned \<or> pg_oracle_kind m = OracleKind_code Switchboard)
       ''InvalidOracleKind'') (\<lambda>_.
     sbind (require (ku_price a > 0) ''NonPositivePrice'') (\<lambda>_.
     sbind (require (ku_conf a < ku_price a) ''ConfidenceTooWide'') (\<lambda>_.
     sbind (require (0 \<le> ku_publish_time a \<and> ku_publish_time a \<le> pd_clock c + MAX_FUTURE_SKEW_SECS) ''InvalidParams'') (\<lambda>_.
     let kp = price_account (ku_commodity a) c in
     sbind (require (kp_publish_time kp = 0 \<or> ku_publish_time a > kp_publish_time kp) ''OracleNotMonotonic'') (\<lambda>_.
     sbind (require (kp_publish_time kp = 0 \<or> spacing_ok kp (pd_clock c)) ''TooSoon'') (\<lambda>_.
     sbind (require (move_ok kp (ku_price a)) ''MoveTooLarge'') (\<lambda>_.
     Inr (c\<lparr>pd_prices := (pd_prices c)(ku_commodity a \<mapsto> kp\<lparr>kp_price := ku_price a, kp_conf := ku_conf a,
       kp_publish_time := ku_publish_time a, kp_source_hash := ku_source_hash a,
       kp_last_update_ts := pd_clock c\<rparr>)\<rparr>))))))))))"

definition set_keeper_bounds :: "bytes \<Rightarrow> bytes \<Rightarrow> int \<Rightarrow> int \<Rightarrow> peg_chain \<Rightarrow> string + peg_chain" where
  "set_keeper_bounds who k max_move min_interval c =
     sbind (some_or (pd_commodities c k) ''AccountNotInitialized'') (\<lambda>_.
     sbind (some_or (pd_prices c k) ''AccountNotInitialized'') (\<lambda>kp.
     sbind (require (is_admin (pd_config c) who) ''Unauthorized'') (\<lambda>_.
     sbind (require (min_interval \<ge> 1) ''InvalidParams'') (\<lambda>_.
     sbind (require (0 < max_move \<and> max_move \<le> 10000) ''InvalidParams'') (\<lambda>_.
     Inr (c\<lparr>pd_prices := (pd_prices c)(k \<mapsto> kp\<lparr>kp_max_move_bps := max_move, kp_min_interval := min_interval\<rparr>)\<rparr>))))))"

text \<open>
  Running one instruction.  An instruction of another program (a Pyth post) leaves the accounts of
  this one alone.
\<close>

fun peg_exec :: "(peg_ix, peg_chain) executor" where
  "peg_exec sig (SetStatus who k s) c = set_status who k s c"
| "peg_exec sig (SetFeedAccount who k f fx) c = set_feed_account who k f fx c"
| "peg_exec sig (KeeperUpdatePrice a) c = keeper_update_price a c"
| "peg_exec sig (SetKeeperBounds who k mv iv) c = set_keeper_bounds who k mv iv c"
| "peg_exec sig (ForeignIx data) c = Inr c"

section \<open>The client\<close>

type_synonym peg_world = "peg_chain chain_world"

type_synonym 'a gio = "(peg_world, 'a) io"

record peg_env =
  pv_cfg :: KeeperConfig
  pv_w3 :: web3
  pv_keeper :: bytes
  pv_program :: bytes

definition commodityPda :: "peg_env \<Rightarrow> string \<Rightarrow> string + bytes" where
  "commodityPda env symbol = sbind (pegDesk_commodity (pv_w3 env) (pv_program env) symbol) (\<lambda>p. Inr (fst p))"

definition setStatusIx :: "peg_env \<Rightarrow> bytes \<Rightarrow> string \<Rightarrow> int \<Rightarrow> string + peg_ix" where
  "setStatusIx env authority symbol status = sbind (commodityPda env symbol) (\<lambda>k. Inr (SetStatus authority k status))"

definition setFeedAccountIx :: "peg_env \<Rightarrow> bytes \<Rightarrow> string \<Rightarrow> bytes \<Rightarrow> bytes \<Rightarrow> string + peg_ix" where
  "setFeedAccountIx env authority symbol feed fx =
     sbind (commodityPda env symbol) (\<lambda>k. Inr (SetFeedAccount authority k feed fx))"

text \<open>The Borsh coder takes prices that fit 64 bits.\<close>

definition keeperUpdatePriceIx :: "peg_env \<Rightarrow> bytes \<Rightarrow> string \<Rightarrow> bytes option \<Rightarrow> int \<Rightarrow> int \<Rightarrow> int \<Rightarrow> bytes \<Rightarrow> string + peg_ix" where
  "keeperUpdatePriceIx env keeper symbol commodity price conf publishTime sourceHash =
     sbind (case commodity of None \<Rightarrow> commodityPda env symbol | Some k \<Rightarrow> Inr k) (\<lambda>k.
     sbind (require (in_u64 price \<and> in_u64 conf \<and> - (2 ^ 63) \<le> publishTime \<and> publishTime < 2 ^ 63) ''byte array longer than desired length'') (\<lambda>_.
     Inr (KeeperUpdatePrice \<lparr>ku_keeper = keeper, ku_commodity = k, ku_price = price, ku_conf = conf,
       ku_publish_time = publishTime, ku_source_hash = sourceHash\<rparr>)))"

end
