(* ===== verification/Session.thy ===== *)
theory Session
  imports PegChain
begin

text \<open>
  The trading-hours calendar of the keeper (\<^verbatim>\<open>apps/keeper/src/cycles/session.ts\<close>).  A date is an
  instant in unix seconds.  \<open>Intl.DateTimeFormat\<close> is modelled by its parts: the proleptic Gregorian
  calendar and the two zones the code names, with the daylight-saving rules in force since 2007
  (New York) and 1996 (London).
\<close>

section \<open>Civil dates\<close>

definition civil_from_days :: "int \<Rightarrow> int \<times> int \<times> int" where
  "civil_from_days days =
     (let z = days + 719468; era = z div 146097; doe = z mod 146097;
          yoe = (doe - doe div 1460 + doe div 36524 - doe div 146096) div 365;
          doy = doe - (365 * yoe + yoe div 4 - yoe div 100);
          mp = (5 * doy + 2) div 153; d = doy - (153 * mp + 2) div 5 + 1;
          m = (if mp < 10 then mp + 3 else mp - 9); y = yoe + era * 400
      in (if m \<le> 2 then y + 1 else y, m, d))"

definition days_from_civil :: "int \<Rightarrow> int \<Rightarrow> int \<Rightarrow> int" where
  "days_from_civil y0 m d =
     (let y = (if m \<le> 2 then y0 - 1 else y0); era = y div 400; yoe = y mod 400;
          doy = (153 * (if m > 2 then m - 3 else m + 9) + 2) div 5 + d - 1;
          doe = yoe * 365 + yoe div 4 - yoe div 100 + doy
      in era * 146097 + doe - 719468)"

text \<open>0 is Sunday; 1970-01-01 was a Thursday.\<close>

definition weekday_of_days :: "int \<Rightarrow> int" where
  "weekday_of_days days = (days + 4) mod 7"

definition sunday_from :: "int \<Rightarrow> int" where
  "sunday_from days = days + (7 - weekday_of_days days) mod 7"

section \<open>Zones\<close>

datatype TimeZone = NewYork | London

definition year_of :: "int \<Rightarrow> int" where
  "year_of t = fst (civil_from_days (t div 86400))"

text \<open>
  New York: from the second Sunday of March, 07:00 UTC, to the first Sunday of November, 06:00 UTC.
  London: from the last Sunday of March to the last of October, 01:00 UTC.
\<close>

definition dst_window :: "TimeZone \<Rightarrow> int \<Rightarrow> int \<times> int" where
  "dst_window tz y = (case tz of
     NewYork \<Rightarrow> (sunday_from (days_from_civil y 3 8) * 86400 + 7 * 3600, sunday_from (days_from_civil y 11 1) * 86400 + 6 * 3600)
   | London \<Rightarrow> (sunday_from (days_from_civil y 3 25) * 86400 + 3600, sunday_from (days_from_civil y 10 25) * 86400 + 3600))"

definition utc_offset :: "TimeZone \<Rightarrow> int \<Rightarrow> int" where
  "utc_offset tz t = (case dst_window tz (year_of t) of (s, e) \<Rightarrow>
     (case tz of NewYork \<Rightarrow> - 5 * 3600 | London \<Rightarrow> 0) + (if s \<le> t \<and> t < e then 3600 else 0))"

definition local_time :: "TimeZone \<Rightarrow> int \<Rightarrow> int" where
  "local_time tz t = t + utc_offset tz t"

section \<open>\<open>formatToParts\<close>\<close>

definition two_digit :: "int \<Rightarrow> string" where
  "two_digit n = [digit_char (n div 10 mod 10), digit_char (n mod 10)]"

definition WEEKDAYS :: "string list" where
  "WEEKDAYS = [''Sun'', ''Mon'', ''Tue'', ''Wed'', ''Thu'', ''Fri'', ''Sat'']"

text \<open>With \<open>hour12: false\<close> midnight is hour 24.\<close>

definition formatToParts :: "TimeZone \<Rightarrow> int \<Rightarrow> (string \<times> string) list" where
  "formatToParts tz t =
     (let l = local_time tz t; days = l div 86400; s = l mod 86400; h = s div 3600; mi = s mod 3600 div 60
      in case civil_from_days days of (y, m, d) \<Rightarrow>
       [(''weekday'', WEEKDAYS ! nat (weekday_of_days days)), (''literal'', '', ''), (''month'', two_digit m),
        (''literal'', ''/''), (''day'', two_digit d), (''literal'', ''/''), (''year'', int_text y), (''literal'', '', ''),
        (''hour'', two_digit (if h = 0 then 24 else h)), (''literal'', '':''), (''minute'', two_digit mi)])"

section \<open>The calendar\<close>

definition US_HOLIDAYS_2026 :: "string list" where
  "US_HOLIDAYS_2026 = [''2026-01-01'', ''2026-01-19'', ''2026-02-16'', ''2026-04-03'', ''2026-05-25'', ''2026-06-19'',
     ''2026-07-03'', ''2026-09-07'', ''2026-11-26'', ''2026-12-25'']"

record ZonedNow =
  zn_weekday :: int
  zn_hour :: jsnum
  zn_minute :: jsnum
  zn_dateKey :: string

definition part :: "(string \<times> string) list \<Rightarrow> string \<Rightarrow> string" where
  "part parts type = (case map_of parts type of None \<Rightarrow> '''' | Some v \<Rightarrow> v)"

definition weekdayMap :: "string \<Rightarrow> int option" where
  "weekdayMap = map_of (zip WEEKDAYS [0..6])"

definition zonedNow :: "int \<Rightarrow> TimeZone \<Rightarrow> ZonedNow" where
  "zonedNow date timeZone =
     (let parts = formatToParts timeZone date;
          weekday = (case weekdayMap (part parts ''weekday'') of None \<Rightarrow> 0 | Some d \<Rightarrow> d);
          h = parseInt10 (part parts ''hour'');
          hour = (if h = Fin 24 then Fin 0 else h);
          minute = parseInt10 (part parts ''minute'');
          dateKey = part parts ''year'' @ ''-'' @ part parts ''month'' @ ''-'' @ part parts ''day''
      in \<lparr>zn_weekday = weekday, zn_hour = hour, zn_minute = minute, zn_dateKey = dateKey\<rparr>)"

definition minutesOfDay :: "ZonedNow \<Rightarrow> jsnum" where
  "minutesOfDay z = zn_hour z * Fin 60 + zn_minute z"

definition isOpenCmeGlobex :: "int \<Rightarrow> bool" where
  "isOpenCmeGlobex date =
     (let z = zonedNow date NewYork in
      if zn_dateKey z \<in> set US_HOLIDAYS_2026 then False else
      let mins = minutesOfDay z; OPEN_MIN = Fin (18 * 60); CLOSE_MIN = Fin (17 * 60) in
      if zn_weekday z = 5 \<and> mins \<ge> CLOSE_MIN then False
      else if zn_weekday z = 6 then False
      else if zn_weekday z = 0 \<and> mins < OPEN_MIN then False
      else if mins \<ge> CLOSE_MIN \<and> mins < OPEN_MIN then False
      else True)"

definition isOpenIceUs :: "int \<Rightarrow> bool" where
  "isOpenIceUs date =
     (let z = zonedNow date NewYork in
      if zn_dateKey z \<in> set US_HOLIDAYS_2026 then False
      else if zn_weekday z = 0 \<or> zn_weekday z = 6 then False
      else let mins = minutesOfDay z in mins \<ge> Fin (4 * 60) \<and> mins < Fin (14 * 60))"

definition isOpenLme :: "int \<Rightarrow> bool" where
  "isOpenLme date =
     (let z = zonedNow date London in
      if zn_weekday z = 0 \<or> zn_weekday z = 6 then False
      else let mins = minutesOfDay z in mins \<ge> Fin (1 * 60) \<and> mins < Fin (19 * 60))"

definition isSessionOpen :: "int \<Rightarrow> int \<Rightarrow> bool" where
  "isSessionOpen sessionKind date =
     (if sessionKind = SessionKind_code Continuous then True
      else if sessionKind = SessionKind_code CmeGlobex then isOpenCmeGlobex date
      else if sessionKind = SessionKind_code IceUs then isOpenIceUs date
      else if sessionKind = SessionKind_code Lme then isOpenLme date
      else if sessionKind = SessionKind_code Slow then True
      else True)"

section \<open>The cycle\<close>

definition desiredStatus :: "CommodityRow \<Rightarrow> int \<Rightarrow> int" where
  "desiredStatus c now = (if isSessionOpen (cr_session_kind c) now then 0 else 1)"

definition flip_status :: "peg_env \<Rightarrow> CommodityRow \<Rightarrow> int \<Rightarrow> unit gio" where
  "flip_status env c status = io_catch
     (io_bind (io_result (setStatusIx env (pv_keeper env) (cr_symbol c) status)) (\<lambda>ix.
      io_then (sendWithPriority peg_exec (pv_cfg env) [ix] no_opts) (updateCommodityStatus (cr_symbol c) status)))
     (\<lambda>err. io_ret ())"

definition session_one :: "peg_env \<Rightarrow> int \<Rightarrow> CommodityRow \<Rightarrow> unit gio" where
  "session_one env now c =
     (if cr_status c = 2 then io_ret ()
      else if cr_status c = desiredStatus c now then io_ret ()
      else if bySymbol (cr_symbol c) = None then io_ret ()
      else flip_status env c (desiredStatus c now))"

definition runSessionCycle :: "peg_env \<Rightarrow> unit gio" where
  "runSessionCycle env = io_bind listCommodities (\<lambda>commodities.
     io_bind (io_gets kw_now) (\<lambda>now. io_for commodities (session_one env now)))"

section \<open>What the parts say\<close>

lemma is_digit_digit_char: "0 \<le> d \<Longrightarrow> d < 10 \<Longrightarrow> is_digit (digit_char d)"
  by (simp add: is_digit_def of_char_digit_char Let_def nat_le_iff)

lemma parse_two_digit:
  assumes "0 \<le> n" "n < 100"
  shows "parseInt10 (two_digit n) = Fin (of_int n)"
proof -
  let ?a = "n div 10 mod 10" and ?b = "n mod 10"
  have a: "0 \<le> ?a" "?a < 10" and b: "0 \<le> ?b" "?b < 10" and n: "?a * 10 + ?b = n" using assms by simp_all
  have sp: "dropWhile is_space (two_digit n) = two_digit n"
    using digit_not_space [of ?a] a by (simp add: two_digit_def)
  have sign: "split_sign (two_digit n) = (1, two_digit n)"
    using digit_char_neq [OF a] by (simp add: split_sign_def two_digit_def)
  have tw: "takeWhile is_digit (two_digit n) = two_digit n"
    by (simp add: two_digit_def is_digit_digit_char [OF a] is_digit_digit_char [OF b])
  have val: "int (of_char (digit_char d)) = 48 + d" if "0 \<le> d" "d < 10" for d :: int
    using of_char_digit_char [of d] that by simp
  have "digits_int (two_digit n) = n" using n by (simp add: digits_int_def two_digit_def val a b)
  moreover have "two_digit n \<noteq> []" by (simp add: two_digit_def)
  ultimately show ?thesis using assms by (simp add: parseInt10_def sp sign tw mk_num_of_int)
qed

lemma weekdayMap_name:
  assumes "0 \<le> d" "d < 7"
  shows "weekdayMap (WEEKDAYS ! nat d) = Some d"
proof -
  consider "d = 0" | "d = 1" | "d = 2" | "d = 3" | "d = 4" | "d = 5" | "d = 6" using assms by linarith
  then show ?thesis by cases (simp_all add: weekdayMap_def WEEKDAYS_def upto.simps)
qed

text \<open>The day, and the minute of the day, on the clock of a zone.\<close>

definition local_day :: "TimeZone \<Rightarrow> int \<Rightarrow> int" where
  "local_day tz t = local_time tz t div 86400"

definition local_minute :: "TimeZone \<Rightarrow> int \<Rightarrow> int" where
  "local_minute tz t = local_time tz t mod 86400 div 60"

definition date_text :: "int \<Rightarrow> string" where
  "date_text days = (case civil_from_days days of (y, m, d) \<Rightarrow> int_text y @ ''-'' @ two_digit m @ ''-'' @ two_digit d)"

lemma local_minute_range: "0 \<le> local_minute tz t" "local_minute tz t < 1440"
  by (simp_all add: local_minute_def)

lemma clock_minutes:
  assumes "0 \<le> h" "h < 24" "0 \<le> m" "m < 60"
  shows "Fin (of_int h) * Fin (of_int 60) + Fin (of_int m) = Fin (of_int (h * 60 + m))"
proof -
  have "\<bar>h * 60\<bar> \<le> 2 ^ 53" "\<bar>h * 60 + m\<bar> \<le> 2 ^ 53" using assms by simp_all
  then show ?thesis by (simp only: Fin_times_int Fin_plus_int)
qed

lemma minutes_split: "s div 3600 * 60 + s mod 3600 div 60 = (s::int) div 60"
proof -
  have "s div (60 * 60) = s div 60 div 60" by (rule zdiv_zmult2_eq) simp
  moreover have "s mod (60 * 60) = 60 * (s div 60 mod 60) + s mod 60" by (rule zmod_zmult2_eq) simp
  moreover have "(60 * (s div 60 mod 60) + s mod 60) div 60 = s div 60 mod 60"
    by (simp only: div_mult_self4 [OF zero_neq_numeral [symmetric]] mod_div_trivial add_0_right)
  moreover have "s div 60 div 60 * 60 + s div 60 mod 60 = s div 60" by simp
  ultimately show ?thesis by simp
qed

lemma part_list:
  fixes a mo d y h mi :: string
  defines "parts \<equiv> [(''weekday'', a), (''literal'', '', ''), (''month'', mo), (''literal'', ''/''), (''day'', d),
    (''literal'', ''/''), (''year'', y), (''literal'', '', ''), (''hour'', h), (''literal'', '':''), (''minute'', mi)]"
  shows "part parts ''weekday'' = a" "part parts ''month'' = mo" "part parts ''day'' = d" "part parts ''year'' = y"
    "part parts ''hour'' = h" "part parts ''minute'' = mi"
  by (simp_all add: part_def parts_def)

lemma parts_of:
  assumes "civil_from_days (local_day tz t) = (y, m, d)"
  defines "s \<equiv> local_time tz t mod 86400"
  shows "part (formatToParts tz t) ''weekday'' = WEEKDAYS ! nat (weekday_of_days (local_day tz t))"
    "part (formatToParts tz t) ''month'' = two_digit m"
    "part (formatToParts tz t) ''day'' = two_digit d"
    "part (formatToParts tz t) ''year'' = int_text y"
    "part (formatToParts tz t) ''hour'' = two_digit (if s div 3600 = 0 then 24 else s div 3600)"
    "part (formatToParts tz t) ''minute'' = two_digit (s mod 3600 div 60)"
  unfolding s_def
  by (simp_all only: formatToParts_def Let_def local_day_def [symmetric] assms(1) prod.case part_list)

lemma hour_range: "0 \<le> s \<Longrightarrow> s < 86400 \<Longrightarrow> 0 \<le> s div 3600 \<and> (s::int) div 3600 < 24"
  using div_ge_iff [of 3600 24 s] div_ge_iff [of 3600 0 s] by linarith

lemma minute_range: "0 \<le> (s::int) mod 3600 div 60" "(s::int) mod 3600 div 60 < 60"
proof -
  define r where "r = s mod 3600"
  have "0 \<le> r" "r < 3600" by (simp_all add: r_def)
  then have "0 \<le> r div 60 \<and> r div 60 < 60" using div_ge_iff [of 60 60 r] div_ge_iff [of 60 0 r] by linarith
  then show "0 \<le> s mod 3600 div 60" "s mod 3600 div 60 < 60" by (simp_all add: r_def)
qed

lemma zonedNow_local:
  "zn_weekday (zonedNow t tz) = weekday_of_days (local_day tz t)"
  "minutesOfDay (zonedNow t tz) = Fin (of_int (local_minute tz t))"
  "zn_dateKey (zonedNow t tz) = date_text (local_day tz t)"
proof -
  obtain y m d where ymd: "civil_from_days (local_day tz t) = (y, m, d)" by (metis prod_cases3)
  note parts = parts_of [OF ymd]
  define s where "s = local_time tz t mod 86400"
  have s: "0 \<le> s" "s < 86400" by (simp_all add: s_def)
  define h mi where "h = s div 3600" and "mi = s mod 3600 div 60"
  have h: "0 \<le> h" "h < 24" using hour_range [OF s] by (simp_all add: h_def)
  have mi: "0 \<le> mi" "mi < 60" using minute_range [of s] by (simp_all add: mi_def)
  show "zn_weekday (zonedNow t tz) = weekday_of_days (local_day tz t)"
    by (simp add: zonedNow_def Let_def parts(1) weekdayMap_name weekday_of_days_def)
  show "zn_dateKey (zonedNow t tz) = date_text (local_day tz t)"
    by (simp add: zonedNow_def Let_def parts(2-4) date_text_def ymd)
  define hh where "hh = (if h = 0 then 24 else h)"
  have hh: "0 \<le> hh" "hh < 100" "hh = 24 \<and> h = 0 \<or> hh \<noteq> 24 \<and> hh = h" using h by (simp_all add: hh_def)
  have "zn_hour (zonedNow t tz) = (let x = parseInt10 (two_digit hh) in if x = Fin 24 then Fin 0 else x)"
    by (simp only: zonedNow_def Let_def parts(5) s_def [symmetric] h_def [symmetric] hh_def [symmetric] ZonedNow.simps)
  also have "\<dots> = (if (of_int hh :: rat) = 24 then Fin 0 else Fin (of_int hh))"
    by (simp only: parse_two_digit [OF hh(1,2)] Let_def jsnum.inject)
  also have "\<dots> = Fin (of_int h)" using hh(3) by (metis of_int_0 of_int_eq_numeral_iff)
  finally have "zn_hour (zonedNow t tz) = Fin (of_int h)" .
  moreover have "zn_minute (zonedNow t tz) = parseInt10 (two_digit mi)"
    by (simp only: zonedNow_def Let_def parts(6) s_def [symmetric] mi_def [symmetric] ZonedNow.simps)
  moreover have "parseInt10 (two_digit mi) = Fin (of_int mi)" using mi by (intro parse_two_digit) simp_all
  ultimately have "minutesOfDay (zonedNow t tz) = Fin (of_int h) * Fin (of_int 60) + Fin (of_int mi)"
    by (simp only: minutesOfDay_def of_int_numeral)
  also have "\<dots> = Fin (of_int (h * 60 + mi))" by (rule clock_minutes [OF h mi])
  also have "h * 60 + mi = local_minute tz t"
    unfolding local_minute_def h_def mi_def s_def [symmetric] by (rule minutes_split)
  finally show "minutesOfDay (zonedNow t tz) = Fin (of_int (local_minute tz t))" .
qed

text \<open>The minute of the week on the clock of a zone, Sunday midnight being 0.\<close>

definition week_minute :: "TimeZone \<Rightarrow> int \<Rightarrow> int" where
  "week_minute tz t = weekday_of_days (local_day tz t) * 1440 + local_minute tz t"

definition us_holiday :: "int \<Rightarrow> bool" where
  "us_holiday t \<longleftrightarrow> date_text (local_day NewYork t) \<in> set US_HOLIDAYS_2026"

lemma weekday_range: "0 \<le> weekday_of_days d" "weekday_of_days d < 7"
  by (simp_all add: weekday_of_days_def)

lemma globex_hours:
  "isOpenCmeGlobex t \<longleftrightarrow> \<not> us_holiday t \<and> 18 * 60 \<le> week_minute NewYork t \<and> week_minute NewYork t < 5 * 1440 + 17 * 60 \<and>
     \<not> (17 * 60 \<le> week_minute NewYork t mod 1440 \<and> week_minute NewYork t mod 1440 < 18 * 60)"
proof -
  define d where "d = weekday_of_days (local_day NewYork t)"
  define m where "m = local_minute NewYork t"
  have d: "0 \<le> d" "d < 7" using weekday_range by (simp_all add: d_def)
  have m: "0 \<le> m" "m < 1440" using local_minute_range by (simp_all add: m_def)
  have w: "week_minute NewYork t = d * 1440 + m" "(d * 1440 + m) mod 1440 = m"
    using m by (simp_all add: week_minute_def d_def m_def)
  have num: "minutesOfDay (zonedNow t NewYork) \<ge> Fin (numeral k) \<longleftrightarrow> numeral k \<le> m"
    "minutesOfDay (zonedNow t NewYork) < Fin (numeral k) \<longleftrightarrow> m < numeral k" for k
    by (simp_all add: zonedNow_local m_def [symmetric])
  have day: "zn_weekday (zonedNow t NewYork) = d" by (simp add: zonedNow_local d_def)
  have "isOpenCmeGlobex t \<longleftrightarrow> \<not> us_holiday t \<and> \<not> (d = 5 \<and> 1020 \<le> m) \<and> d \<noteq> 6 \<and> \<not> (d = 0 \<and> m < 1080) \<and> \<not> (1020 \<le> m \<and> m < 1080)"
    by (auto simp: isOpenCmeGlobex_def Let_def us_holiday_def num day zonedNow_local(3))
  moreover have "(\<not> (d = 5 \<and> 1020 \<le> m) \<and> d \<noteq> 6 \<and> \<not> (d = 0 \<and> m < 1080) \<and> \<not> (1020 \<le> m \<and> m < 1080)) \<longleftrightarrow>
      (18 * 60 \<le> d * 1440 + m \<and> d * 1440 + m < 5 * 1440 + 17 * 60 \<and> \<not> (17 * 60 \<le> m \<and> m < 18 * 60))"
  proof -
    consider "d = 0" | "1 \<le> d" "d \<le> 4" | "d = 5" | "d = 6" using d by linarith
    then show ?thesis using m by cases (simp, linarith+)
  qed
  ultimately show ?thesis unfolding w by blast
qed

lemma weekday_hours:
  assumes "\<And>z. z = zonedNow t tz \<Longrightarrow> P \<longleftrightarrow> \<not> (zn_weekday z = 0 \<or> zn_weekday z = 6) \<and> minutesOfDay z \<ge> Fin (of_int a) \<and> minutesOfDay z < Fin (of_int b)"
  shows "P \<longleftrightarrow> weekday_of_days (local_day tz t) \<in> {1..5} \<and> local_minute tz t \<in> {a..<b}"
  using assms [OF refl] weekday_range [of "local_day tz t"] by (auto simp: zonedNow_local)

text \<open>
  C25: when a market is open, for every instant.  A Globex market is open from the 1080th minute of the
  New York week (Sunday 18:00) to Friday 17:00 without the hour from 17:00, never on a listed US
  holiday; an ICE market on weekdays from 04:00 to 14:00 in New York, never on a holiday; an LME market
  on weekdays from 01:00 to 19:00 in London; every other kind always.
\<close>

theorem session_hours:
  "isSessionOpen kind t \<longleftrightarrow>
    (if kind = SessionKind_code CmeGlobex then
       \<not> us_holiday t \<and> 18 * 60 \<le> week_minute NewYork t \<and> week_minute NewYork t < 5 * 1440 + 17 * 60 \<and>
       week_minute NewYork t mod 1440 \<notin> {17 * 60..<18 * 60}
     else if kind = SessionKind_code IceUs then
       \<not> us_holiday t \<and> weekday_of_days (local_day NewYork t) \<in> {1..5} \<and> local_minute NewYork t \<in> {4 * 60..<14 * 60}
     else if kind = SessionKind_code Lme then
       weekday_of_days (local_day London t) \<in> {1..5} \<and> local_minute London t \<in> {1 * 60..<19 * 60}
     else True)"
proof -
  have ice: "isOpenIceUs t \<longleftrightarrow> \<not> us_holiday t \<and> weekday_of_days (local_day NewYork t) \<in> {1..5} \<and> local_minute NewYork t \<in> {4 * 60..<14 * 60}"
    using weekday_hours [of t NewYork "isOpenIceUs t" "4 * 60" "14 * 60"] weekday_range [of "local_day NewYork t"]
    by (auto simp: isOpenIceUs_def Let_def us_holiday_def zonedNow_local)
  have lme: "isOpenLme t \<longleftrightarrow> weekday_of_days (local_day London t) \<in> {1..5} \<and> local_minute London t \<in> {1 * 60..<19 * 60}"
    by (rule weekday_hours) (auto simp: isOpenLme_def Let_def)
  show ?thesis using globex_hours ice lme by (auto simp: isSessionOpen_def SessionKind_code_def)
qed

section \<open>Halted stays halted\<close>

definition halted :: "bytes \<Rightarrow> bytes \<Rightarrow> peg_chain \<Rightarrow> bool" where
  "halted who k c \<longleftrightarrow> \<not> is_admin (pd_config c) who \<and> (\<exists>m. pd_commodities c k = Some m \<and> pg_status m = StHalted)"

lemma keeper_keeps_halted:
  assumes "halted who k c" "set_status who k' status c = Inr c'"
  shows "halted who k c'"
  using assms by (auto simp: halted_def set_status_def result_simps put_commodity_def keeper_may_def split: if_splits option.splits)

lemma io_result_bind: "io_bind (io_result r) f = (case r of Inl e \<Rightarrow> io_throw e | Inr a \<Rightarrow> f a)"
  by (rule ext) (cases r, simp_all add: io_bind_def io_result_def io_throw_def io_ret_def)

lemma chain_blind_write: "io_inv (on_cw B) (db_write f)"
  by (rule db_write_inv) simp_all

lemma chain_blind_read: "io_inv (on_cw B) (db_read f)"
  by (rule db_read_inv) simp

lemma flip_status_halted: "io_inv (on_cw (halted (pv_keeper env) k)) (flip_status env c status)"
proof -
  have "io_inv (on_cw (halted (pv_keeper env) k)) (io_then (sendWithPriority peg_exec (pv_cfg env) [SetStatus (pv_keeper env) k' status] no_opts)
      (updateCommodityStatus s status))" for k' s
    unfolding updateCommodityStatus_def
    by (intro io_inv_then send_inv chain_blind_write) (auto intro: keeper_keeps_halted)
  then show ?thesis unfolding flip_status_def io_result_bind
    by (intro io_inv_catch io_inv_ret) (auto simp: setStatusIx_def io_inv_throw split: sum.splits elim!: sbind_InrE)
qed

text \<open>
  The session cycle never reopens a halted market.  Whatever the database says, whatever fails and
  wherever the process dies, a commodity that is halted on the chain is still halted after the cycle,
  as long as the keeper's key is not the program's admin.
\<close>

theorem session_keeps_halted:
  assumes "\<not> is_admin (pd_config (cw_chain w)) (pv_keeper env)"
    "pd_commodities (cw_chain w) k = Some m" "pg_status m = StHalted"
  shows "\<exists>m'. pd_commodities (cw_chain (snd (runSessionCycle env w))) k = Some m' \<and> pg_status m' = StHalted"
proof -
  have "io_inv (on_cw (halted (pv_keeper env) k)) (session_one env now c)" for now c
    by (simp add: session_one_def io_inv_ret flip_status_halted)
  then have "io_inv (on_cw (halted (pv_keeper env) k)) (runSessionCycle env)"
    unfolding runSessionCycle_def listCommodities_def by (intro io_inv_bind chain_blind_read io_inv_gets io_inv_for)
  moreover have "halted (pv_keeper env) k (cw_chain w)" using assms by (auto simp: halted_def)
  ultimately have "halted (pv_keeper env) k (cw_chain (snd (runSessionCycle env w)))" by (rule io_invD)
  then show ?thesis by (auto simp: halted_def)
qed

definition halted_chain :: peg_chain where
  "halted_chain = \<lparr>pd_config = \<lparr>gl_admin = [1], gl_keepers = [[2]]\<rparr>,
     pd_commodities = [[7] \<mapsto> \<lparr>pg_oracle_kind = 0, pg_status = StHalted, pg_feed_account = [], pg_fx_feed_account = []\<rparr>],
     pd_prices = (\<lambda>_. None), pd_clock = 1000\<rparr>"

theorem session_keeps_halted_witness:
  "\<forall>cfg w3 d. \<exists>m'. pd_commodities (cw_chain (snd (runSessionCycle
     \<lparr>pv_cfg = cfg, pv_w3 = w3, pv_keeper = [2], pv_program = [9]\<rparr>
     \<lparr>kw_faults = [Fine, FailAfter], kw_db = d, kw_now = 0, cw_sends = [FailAfter, DieAfter], cw_chain = halted_chain, cw_signed = 0\<rparr>))) [7]
     = Some m' \<and> pg_status m' = StHalted"
  by (intro allI, rule session_keeps_halted [where m = "\<lparr>pg_oracle_kind = 0, pg_status = StHalted, pg_feed_account = [], pg_fx_feed_account = []\<rparr>"])
    (simp_all add: halted_chain_def is_admin_def)

end
