(* ===== verification/Sources.thy ===== *)
theory Sources
  imports Registry "HOL-Library.Multiset"
begin

text \<open>
  Price sources of the oracle cycle (\<^verbatim>\<open>apps/keeper/src/sources\<close>): the medians, and how each fetcher
  picks a price out of a vendor's answer.  What a vendor answers to a request is a parameter (\<open>None\<close>:
  no usable answer: the request failed, the status was not ok or the body did not parse); the
  fetchers fail soft, so all of them are functions of those answers.
\<close>

section \<open>Medians\<close>

text \<open>\<open>sort((a, b) => a - b)\<close> on numbers none of which is \<open>NaN\<close>.\<close>

fun num_insert :: "jsnum \<Rightarrow> jsnum list \<Rightarrow> jsnum list" where
  "num_insert x [] = [x]"
| "num_insert x (y # ys) = (if x \<le> y then x # y # ys else y # num_insert x ys)"

definition num_sort :: "jsnum list \<Rightarrow> jsnum list" where
  "num_sort xs = foldr num_insert xs []"

definition medianOf :: "jsnum list \<Rightarrow> jsnum" where
  "medianOf values = (let sorted = num_sort values; mid = length sorted div 2
     in if length sorted mod 2 = 0 then (sorted ! (mid - 1) + sorted ! mid) div Fin 2 else sorted ! mid)"

record SourceReading =
  sr_price :: jsnum
  sr_source :: string

record MedianResult =
  md_price :: jsnum
  md_sourcesUsed :: int
  md_sources :: "string list"

definition MAX_DEVIATION_PCT :: int where "MAX_DEVIATION_PCT = 25"

definition valid_readings :: "SourceReading option list \<Rightarrow> SourceReading list" where
  "valid_readings readings = filter (\<lambda>r. sr_price r > Fin 0 \<and> isFinite (sr_price r)) (List.map_filter id readings)"

definition deviationPct :: "jsnum \<Rightarrow> jsnum \<Rightarrow> jsnum" where
  "deviationPct price provisional = (jabs (price - provisional) div provisional) * Fin 100"

definition median3 :: "SourceReading option list \<Rightarrow> MedianResult option" where
  "median3 readings =
     (let valid = valid_readings readings in
      if length valid < 2 then None else
      let provisionalMedian = medianOf (map sr_price valid);
          kept = filter (\<lambda>v. deviationPct (sr_price v) provisionalMedian \<le> Fin (of_int MAX_DEVIATION_PCT)) valid
      in if length kept < 2 then None
         else Some \<lparr>md_price = medianOf (map sr_price kept), md_sourcesUsed = int (length kept),
                    md_sources = map sr_source kept\<rparr>)"

section \<open>Vendors\<close>

record ManualPriceEntry =
  me_symbol :: string
  me_price :: jsnum
  me_source :: string
  me_updatedAt :: string

text \<open>
  The answers, by request: Pricempire's \<open>median\<close> and \<open>price\<close>; CSFloat's listed prices in cents;
  Skinport's items with \<open>suggested_price\<close> and \<open>min_price\<close>; the variants (\<open>market\<close>, \<open>mid\<close>) of the first
  card found; WatchCharts' \<open>market_price\<close> and average; the assets of the Collector Crypt collection
  (id, name, attribute values), the sales of one mint (lamports, time) and of one item (USD, SOL,
  two times); SOL/USD from Hermes; the manual file; what the two
  caches of the modules hold at the time of the call (value, time in milliseconds); and \<open>Date.parse\<close> in milliseconds.
\<close>

record vendors =
  vn_pricempire :: "string \<Rightarrow> (jsnum option \<times> jsnum option) option"
  vn_csfloat :: "string \<Rightarrow> jsnum list option"
  vn_skinport :: "(string \<times> jsnum option \<times> jsnum option) list option"
  vn_pokemontcg :: "string \<Rightarrow> (jsnum option \<times> jsnum option) list option"
  vn_watchcharts :: "string \<Rightarrow> (jsnum option \<times> jsnum option) option"
  vn_das :: "(string \<times> string option \<times> string option list) list option"
  vn_mint_sales :: "string \<Rightarrow> (jsnum option \<times> int option) list option"
  vn_item_sales :: "string \<Rightarrow> (jsnum option \<times> jsnum option \<times> int option \<times> int option) list option"
  vn_sol :: "(string \<times> int) option"
  vn_sol_cache :: "(jsnum \<times> int) option"
  vn_manual_file :: "ManualPriceEntry list option"
  vn_manual_cache :: "(ManualPriceEntry list \<times> int) option"
  vn_date_parse :: "string \<Rightarrow> int option"
  vn_now_ms :: int

definition or_else :: "'a option \<Rightarrow> 'a option \<Rightarrow> 'a option" where
  "or_else a b = (case a of None \<Rightarrow> b | Some x \<Rightarrow> Some x)"

definition truthy_num :: "jsnum option \<Rightarrow> bool" where
  "truthy_num v = (case v of None \<Rightarrow> False | Some x \<Rightarrow> x \<noteq> Fin 0 \<and> \<not> isNaN x)"

section \<open>CS2 skins\<close>

definition star :: string where
  "star = [CHR 0xE2, CHR 0x98, CHR 0x85]"

definition MARKET_NAME :: "string \<Rightarrow> string option" where
  "MARKET_NAME = map_of [
     (''AKREDLINE'', ''AK-47 | Redline (Field-Tested)''),
     (''AWPASIIMOV'', ''AWP | Asiimov (Field-Tested)''),
     (''DLORE'', ''AWP | Dragon Lore (Field-Tested)''),
     (''HOWL'', ''M4A4 | Howl (Field-Tested)''),
     (''KARAMBIT'', star @ '' Karambit | Doppler (Factory New)''),
     (''BFLYFADE'', star @ '' Butterfly Knife | Fade (Factory New)''),
     (''DEAGLBLAZE'', ''Desert Eagle | Blaze (Factory New)''),
     (''GLOCKFADE'', ''Glock-18 | Fade (Factory New)''),
     (''PRNTSTREAM'', ''M4A1-S | Printstream (Field-Tested)''),
     (''VICEGLOVES'', star @ '' Sport Gloves | Vice (Field-Tested)''),
     (''BRAVOCASE'', ''Operation Bravo Case''),
     (''VULCAN'', ''AK-47 | Vulcan (Field-Tested)'')]"

definition fetchPricempire :: "vendors \<Rightarrow> string \<Rightarrow> string option \<Rightarrow> jsnum option" where
  "fetchPricempire vn symbol apiKey =
     (if \<not> truthy apiKey then None else
      case MARKET_NAME symbol of None \<Rightarrow> None | Some marketName \<Rightarrow>
        (case vn_pricempire vn marketName of None \<Rightarrow> None | Some (md, price) \<Rightarrow> or_else md price))"

definition fetchCsfloat :: "vendors \<Rightarrow> string \<Rightarrow> string option \<Rightarrow> jsnum option" where
  "fetchCsfloat vn symbol apiKey =
     (if \<not> truthy apiKey then None else
      case MARKET_NAME symbol of None \<Rightarrow> None | Some marketName \<Rightarrow>
        (case vn_csfloat vn marketName of None \<Rightarrow> None | Some data \<Rightarrow>
           let prices = map (\<lambda>d. d div Fin 100) data in if prices = [] then None else Some (medianOf prices)))"

definition fetchSkinport :: "vendors \<Rightarrow> string \<Rightarrow> jsnum option" where
  "fetchSkinport vn symbol =
     (case MARKET_NAME symbol of None \<Rightarrow> None | Some marketName \<Rightarrow>
       (case vn_skinport vn of None \<Rightarrow> None | Some body \<Rightarrow>
         (case find (\<lambda>(name, _). name = marketName) body of None \<Rightarrow> None
          | Some (_, suggested, minp) \<Rightarrow> or_else suggested minp)))"

text \<open>The filter \<open>p !== null && p > 0\<close>.\<close>

definition positive_prices :: "jsnum option list \<Rightarrow> jsnum list" where
  "positive_prices ps = filter (\<lambda>p. p > Fin 0) (List.map_filter id ps)"

definition fetchCs2Price :: "vendors \<Rightarrow> KeeperConfig \<Rightarrow> string \<Rightarrow> (jsnum \<times> int) option" where
  "fetchCs2Price vn cfg symbol =
     (let prices = positive_prices [fetchPricempire vn symbol (cfg_pricempireApiKey cfg),
            fetchCsfloat vn symbol (cfg_csfloatApiKey cfg), fetchSkinport vn symbol]
      in if prices = [] then None else Some (medianOf prices, int (length prices)))"

section \<open>Cards, gold and watches\<close>

definition CARD_QUERY :: "string \<Rightarrow> string option" where
  "CARD_QUERY = map_of [
     (''ETB151'', ''name:\"151 Elite Trainer Box\"''),
     (''ETBPRISM'', ''name:\"Prismatic Evolutions\" Elite Trainer Box''),
     (''ZARDBASE'', ''name:\"Charizard\" set.id:base1''),
     (''MOONBREON'', ''name:\"Umbreon VMAX\" (Alt Art OR Alternate Art)''),
     (''UMBREONEX'', ''name:\"Umbreon ex\"''),
     (''PIKAEX238'', ''name:\"Pikachu ex\" number:238'')]"

definition fetchTcgPrice :: "vendors \<Rightarrow> string \<Rightarrow> jsnum option" where
  "fetchTcgPrice vn symbol =
     (case CARD_QUERY symbol of None \<Rightarrow> None | Some query \<Rightarrow>
       (case vn_pokemontcg vn query of None \<Rightarrow> None | Some variants \<Rightarrow>
         (case find (\<lambda>p. case p of None \<Rightarrow> False | Some x \<Rightarrow> x > Fin 0) (map (\<lambda>(market, mid). or_else market mid) variants)
          of None \<Rightarrow> None | Some p \<Rightarrow> p)))"

definition fetchOsrsGoldPrice :: "jsnum option" where
  "fetchOsrsGoldPrice = None"

definition fetchChrono24Price :: "string \<Rightarrow> jsnum option" where
  "fetchChrono24Price symbol = None"

record WatchRef =
  wr_reference :: string
  wr_searchTerm :: string

definition watch_ref :: "string \<Rightarrow> string \<Rightarrow> WatchRef" where
  "watch_ref r s = \<lparr>wr_reference = r, wr_searchTerm = s\<rparr>"

definition WATCH_REFERENCE :: "string \<Rightarrow> WatchRef option" where
  "WATCH_REFERENCE = map_of [
     (''SUBMARINER'', watch_ref ''126610LN'' ''Rolex Submariner Date 126610LN''),
     (''DAYTONA'', watch_ref ''126500LN'' ''Rolex Cosmograph Daytona 126500LN''),
     (''GMTMASTER'', watch_ref ''126710BLNR'' ''Rolex GMT-Master II 126710BLNR''),
     (''DATEJUST'', watch_ref ''126334'' ''Rolex Datejust 41 126334''),
     (''ROYALOAK'', watch_ref ''15510ST.OO.1320ST.01'' ''Audemars Piguet Royal Oak 15510ST''),
     (''NAUTILUS'', watch_ref ''5811/1G-001'' ''Patek Philippe Nautilus 5811/1G''),
     (''SPEEDMSTR'', watch_ref ''310.30.42.50.01.001'' ''Omega Speedmaster Moonwatch Professional''),
     (''SANTOS'', watch_ref ''WSSA0018'' ''Cartier Santos Large WSSA0018''),
     (''GSHOCK'', watch_ref ''DW-5600E-1'' ''Casio G-Shock DW-5600E''),
     (''TISSOTPRX'', watch_ref ''T137.407.11.041.00'' ''Tissot PRX Powermatic 80'')]"

definition fetchWatchChartsPrice :: "vendors \<Rightarrow> KeeperConfig \<Rightarrow> string \<Rightarrow> jsnum option" where
  "fetchWatchChartsPrice vn cfg symbol =
     (if \<not> truthy (cfg_watchChartsApiKey cfg) then None else
      case WATCH_REFERENCE symbol of None \<Rightarrow> None | Some ref \<Rightarrow>
        (case vn_watchcharts vn (wr_reference ref) of None \<Rightarrow> None | Some (market, average) \<Rightarrow>
          (case or_else market average of None \<Rightarrow> None | Some price \<Rightarrow> if price > Fin 0 then Some price else None)))"

section \<open>Collector Crypt\<close>

definition SALES_WINDOW :: nat where "SALES_WINDOW = 5"
definition SOL_USD_CACHE_MS :: int where "SOL_USD_CACHE_MS = 30000"

record SaleUsd =
  sl_priceUsd :: jsnum
  sl_ts :: int

record CollectorItem =
  ci_searchTerm :: string
  ci_reference :: string

definition cc_item :: "string \<Rightarrow> string \<Rightarrow> CollectorItem" where
  "cc_item s r = \<lparr>ci_searchTerm = s, ci_reference = r\<rparr>"

definition COLLECTOR_CRYPT_ITEM :: "string \<Rightarrow> CollectorItem option" where
  "COLLECTOR_CRYPT_ITEM = map_of [
     (''SUBMARINER'', cc_item ''Rolex Submariner 126610LN'' ''126610LN''),
     (''DAYTONA'', cc_item ''Rolex Daytona 126500LN'' ''126500LN''),
     (''GMTMASTER'', cc_item ''Rolex GMT-Master II 126710BLNR'' ''126710BLNR''),
     (''DATEJUST'', cc_item ''Rolex Datejust 41 126334'' ''126334''),
     (''ROYALOAK'', cc_item ''Audemars Piguet Royal Oak 15510ST'' ''15510ST''),
     (''NAUTILUS'', cc_item ''Patek Philippe Nautilus 5811'' ''5811-1G''),
     (''SPEEDMSTR'', cc_item ''Omega Speedmaster Moonwatch'' ''310.30.42.50.01.001''),
     (''SANTOS'', cc_item ''Cartier Santos WSSA0018'' ''WSSA0018''),
     (''GSHOCK'', cc_item ''Casio G-Shock DW-5600E'' ''DW-5600E-1''),
     (''TISSOTPRX'', cc_item ''Tissot PRX Powermatic 80'' ''T137.407.11.041.00''),
     (''UMBREONEX'', cc_item ''Umbreon ex 161/131'' ''sv08.5-161''),
     (''MOONBREON'', cc_item ''Umbreon VMAX Alt Art'' ''swsh07-alt-umbreon''),
     (''ZARDEX199'', cc_item ''Charizard ex 199/165'' ''sv04.5-199''),
     (''ZARDEX223'', cc_item ''Charizard ex 223/197'' ''sv04.5-223''),
     (''ZARDBASE'', cc_item ''Base Set Charizard'' ''base1-4''),
     (''PIKAEX238'', cc_item ''Pikachu ex 238/191'' ''sv08-238''),
     (''MEWEX232'', cc_item ''Mew ex 232/091'' ''sv08.5-232''),
     (''TRMEWTWO'', cc_item ''Team Rocket's Mewtwo ex'' ''sv09.5-tr-mewtwo'')]"

text \<open>\<open>Number(text)\<close> of an integer text, as the feed sends them.\<close>

definition number_of_text :: "string \<Rightarrow> jsnum" where
  "number_of_text s = (case parse_bigint s of None \<Rightarrow> NaN | Some n \<Rightarrow> num_of_int n)"

text \<open>A price fetched less than 30 seconds ago is used again.\<close>

definition fetchSolUsd :: "vendors \<Rightarrow> jsnum option" where
  "fetchSolUsd vn =
     (case vn_sol_cache vn of Some (price, fetchedAt) \<Rightarrow> if vn_now_ms vn - fetchedAt < SOL_USD_CACHE_MS then Some price else
        (case vn_sol vn of None \<Rightarrow> None | Some (p, expo) \<Rightarrow>
           let price = number_of_text p * mk_num (pow10_rat expo) in if price > Fin 0 then Some price else None)
      | None \<Rightarrow> (case vn_sol vn of None \<Rightarrow> None | Some (p, expo) \<Rightarrow>
           let price = number_of_text p * mk_num (pow10_rat expo) in if price > Fin 0 then Some price else None))"

definition js_includes :: "string \<Rightarrow> string \<Rightarrow> bool" where
  "js_includes s needle \<longleftrightarrow> list_ex (\<lambda>i. take (length needle) (drop i s) = needle) [0..<Suc (length s)]"

definition findMatchingAssets :: "(string \<times> string option \<times> string option list) list \<Rightarrow> string \<Rightarrow> string list" where
  "findMatchingAssets items searchTerm =
     (let needle = toLowerCase searchTerm in
      take 10 (map fst (filter (\<lambda>(_, name, attrs).
        js_includes (toLowerCase (text_or name)) needle \<or> list_ex (\<lambda>v. js_includes (toLowerCase (text_or v)) needle) attrs) items)))"

definition fetchRecentSalesForMint :: "vendors \<Rightarrow> string \<Rightarrow> (jsnum \<times> int) list" where
  "fetchRecentSalesForMint vn mint =
     (case vn_mint_sales vn mint of None \<Rightarrow> [] | Some txs \<Rightarrow>
       filter (\<lambda>s. fst s > Fin 0) (map (\<lambda>(amount, ts). (case amount of None \<Rightarrow> Fin 0 | Some a \<Rightarrow> a,
         case ts of None \<Rightarrow> vn_now_ms vn div 1000 | Some x \<Rightarrow> x)) txs))"

definition fetchSalesViaHeliusDas :: "vendors \<Rightarrow> KeeperConfig \<Rightarrow> string \<Rightarrow> SaleUsd list option" where
  "fetchSalesViaHeliusDas vn cfg symbol =
     (case COLLECTOR_CRYPT_ITEM symbol of None \<Rightarrow> None | Some item \<Rightarrow>
      if \<not> truthy (cfg_collectorCryptCollection cfg) \<or> \<not> truthy (cfg_heliusApiKey cfg) then None else
      case vn_das vn of None \<Rightarrow> None | Some assets \<Rightarrow>
      let mints = findMatchingAssets assets (ci_searchTerm item) in
      if mints = [] then None else
      case fetchSolUsd vn of None \<Rightarrow> None | Some solUsd \<Rightarrow>
      let allSales = concat (map (fetchRecentSalesForMint vn) mints) in
      if allSales = [] then None else
      Some (map (\<lambda>s. \<lparr>sl_priceUsd = (fst s div Fin 1000000000) * solUsd, sl_ts = snd s\<rparr>)
        (take SALES_WINDOW (sort_key (\<lambda>s. - snd s) allSales))))"

text \<open>One sale of the REST answer; SOL sales without a SOL price are dropped.\<close>

definition rest_sale :: "vendors \<Rightarrow> jsnum option \<times> jsnum option \<times> int option \<times> int option \<Rightarrow> SaleUsd list" where
  "rest_sale vn s = (case s of (usd, sol, t, blockTime) \<Rightarrow>
     let ts = (case or_else t blockTime of None \<Rightarrow> vn_now_ms vn div 1000 | Some x \<Rightarrow> x) in
     if (case usd of None \<Rightarrow> False | Some p \<Rightarrow> p > Fin 0) then [\<lparr>sl_priceUsd = the usd, sl_ts = ts\<rparr>]
     else (case sol of None \<Rightarrow> [] | Some p \<Rightarrow> if p > Fin 0
       then (case fetchSolUsd vn of None \<Rightarrow> [] | Some solUsd \<Rightarrow> [\<lparr>sl_priceUsd = p * solUsd, sl_ts = ts\<rparr>]) else []))"

definition fetchSalesViaRestApi :: "vendors \<Rightarrow> KeeperConfig \<Rightarrow> string \<Rightarrow> SaleUsd list option" where
  "fetchSalesViaRestApi vn cfg symbol =
     (case COLLECTOR_CRYPT_ITEM symbol of None \<Rightarrow> None | Some item \<Rightarrow>
      if \<not> truthy (cfg_collectorCryptApiUrl cfg) then None else
      case vn_item_sales vn (ci_reference item) of None \<Rightarrow> None | Some sales \<Rightarrow>
      if sales = [] then None else
      let out = concat (map (rest_sale vn) sales) in if out \<noteq> [] then Some out else None)"

definition fetchCollectorCryptPrice :: "vendors \<Rightarrow> KeeperConfig \<Rightarrow> string \<Rightarrow> jsnum option" where
  "fetchCollectorCryptPrice vn cfg symbol =
     (if COLLECTOR_CRYPT_ITEM symbol = None then None else
      case or_else (fetchSalesViaHeliusDas vn cfg symbol) (fetchSalesViaRestApi vn cfg symbol) of None \<Rightarrow> None
      | Some sales \<Rightarrow> if sales = [] then None else Some (medianOf (map sl_priceUsd sales)))"

section \<open>The manual file\<close>

definition entry_valid :: "vendors \<Rightarrow> ManualPriceEntry \<Rightarrow> bool" where
  "entry_valid vn e \<longleftrightarrow> me_symbol e \<noteq> [] \<and> me_price e > Fin 0 \<and> vn_date_parse vn (me_updatedAt e) \<noteq> None"

definition CACHE_TTL_MS :: int where "CACHE_TTL_MS = 60000"

definition readManualPrices :: "vendors \<Rightarrow> string + ManualPriceEntry list" where
  "readManualPrices vn =
     (if (case vn_manual_cache vn of None \<Rightarrow> False | Some (entries, loadedAt) \<Rightarrow> vn_now_ms vn - loadedAt < CACHE_TTL_MS)
      then Inr (fst (the (vn_manual_cache vn)))
      else case vn_manual_file vn of None \<Rightarrow> Inl ''SyntaxError''
      | Some parsed \<Rightarrow> if list_all (entry_valid vn) parsed then Inr parsed else Inl ''manual-prices.json'')"

section \<open>Medians stay between the readings\<close>

text \<open>A price of ordinary size: two of them add up, and a quarter of one is exact.\<close>

definition price_wf :: "rat \<Rightarrow> bool" where
  "price_wf x \<longleftrightarrow> fl x = x \<and> 1 / 2 ^ 900 \<le> x \<and> x \<le> 2 ^ 1000"

lemma representable_wf: "fl x = x \<Longrightarrow> representable x"
  using fl_representable [of x] by simp

lemma fl_double: "fl x = x \<Longrightarrow> fl (2 * x) = 2 * x"
  by (rule fl_exact, rule representable_double, erule representable_wf)

lemma midpoint:
  assumes "fl x = x" "fl y = y" "x \<le> y" "0 < x" "y \<le> 2 ^ 1000"
  shows "\<exists>m. (Fin x + Fin y) div Fin 2 = Fin m \<and> x \<le> m \<and> m \<le> y \<and> fl m = m"
proof -
  define s where "s = fl (x + y)"
  have s: "2 * x \<le> s" "s \<le> 2 * y"
    using fl_mono [of "2 * x" "x + y"] fl_mono [of "x + y" "2 * y"] fl_double assms by (simp_all add: s_def)
  have sb: "\<bar>s\<bar> < 2 ^ 1024" using s assms(4,5) by (simp add: abs_less_iff)
  have m: "x \<le> fl (s / 2)" "fl (s / 2) \<le> y"
    using fl_mono [of x "s / 2"] fl_mono [of "s / 2" y] s assms(1,2) by simp_all
  have mb: "\<bar>fl (s / 2)\<bar> < 2 ^ 1024" using m assms(4,5) by (simp add: abs_less_iff)
  have "mk_num (x + y) = Fin s" using sb by (simp add: mk_num_Fin_iff s_def)
  moreover have "mk_num (s / 2) = Fin (fl (s / 2))" using mb by (simp add: mk_num_Fin_iff)
  ultimately have "(Fin x + Fin y) div Fin 2 = Fin (fl (s / 2))" by simp
  moreover have "fl (fl (s / 2)) = fl (s / 2)" by (intro fl_exact fl_representable)
  ultimately show ?thesis using m by blast
qed

lemma medianOf_two: "medianOf [Fin x, Fin y] = (Fin (min x y) + Fin (max x y)) div Fin 2"
  by (auto simp: medianOf_def num_sort_def Let_def min_def max_def)

lemma medianOf_three:
  "medianOf [Fin x, Fin y, Fin z] = Fin (if x \<le> y then (if z \<le> x then x else if z \<le> y then z else y) else (if z \<le> y then y else if z \<le> x then z else x))"
  by (auto simp: medianOf_def num_sort_def Let_def)

lemma mset_two: "mset xs = {#a, b#} \<Longrightarrow> xs = [a, b] \<or> xs = [b, a]"
proof -
  assume m: "mset xs = {#a, b#}"
  then have "size (mset xs) = 2" by simp
  then obtain p q where "xs = [p, q]" by (auto simp: numeral_2_eq_2 length_Suc_conv)
  then show ?thesis using m by (auto simp: add_eq_conv_ex)
qed

lemma mset_three:
  "mset xs = {#a, b, c#} \<Longrightarrow> xs = [a, b, c] \<or> xs = [a, c, b] \<or> xs = [b, a, c] \<or> xs = [b, c, a] \<or> xs = [c, a, b] \<or> xs = [c, b, a]"
proof -
  assume m: "mset xs = {#a, b, c#}"
  then have "size (mset xs) = 3" by simp
  then obtain p q r where "xs = [p, q, r]" by (auto simp: numeral_3_eq_3 length_Suc_conv)
  then show ?thesis using m by (auto simp: add_eq_conv_ex)
qed

text \<open>Two readings, alone or with a third one, keep the median between them.\<close>

lemma median_between:
  assumes "price_wf x" "price_wf y" "x \<le> y" "mset ps = {#Fin x, Fin y#} \<or> mset ps = {#Fin x, Fin y, Fin z#} \<and> fl z = z"
  shows "\<exists>m. medianOf ps = Fin m \<and> x \<le> m \<and> m \<le> y \<and> fl m = m"
proof -
  have pos: "0 < x" using assms(1) by (auto simp: price_wf_def intro: less_le_trans)
  have mid: "\<exists>m. (Fin x + Fin y) div Fin 2 = Fin m \<and> x \<le> m \<and> m \<le> y \<and> fl m = m"
    using assms pos by (intro midpoint) (simp_all add: price_wf_def)
  from assms(4) show ?thesis
  proof
    assume "mset ps = {#Fin x, Fin y#}"
    then have "medianOf ps = (Fin x + Fin y) div Fin 2" using mset_two assms(3) by (fastforce simp: medianOf_two)
    then show ?thesis using mid by simp
  next
    assume three: "mset ps = {#Fin x, Fin y, Fin z#} \<and> fl z = z"
    then have "medianOf ps = Fin (if z \<le> x then x else if z \<le> y then z else y)"
      using mset_three [of ps "Fin x" "Fin y" "Fin z"] assms(3) by (elim conjE disjE) (auto simp: medianOf_three)
    then show ?thesis using three assms(1-3) by (auto simp: price_wf_def)
  qed
qed

text \<open>A reading at most a quarter of the median away from it is kept.\<close>

lemma fl_quarter:
  assumes "fl m = m" "1 / 2 ^ 1000 \<le> m"
  shows "fl (m / 4) = m / 4"
proof -
  obtain k e where m: "m = of_int k * 2 powi e" "\<bar>k\<bar> \<le> 2 ^ 53" "- 1074 \<le> e"
    using representable_wf [OF assms(1)] by (rule representableE)
  have "- 1072 \<le> e"
  proof (rule ccontr)
    assume "\<not> - 1072 \<le> e"
    then have "(2::rat) powi e \<le> 2 powi (- 1073)" by (intro power_int_increasing) simp_all
    moreover have "of_int k \<le> (2::rat) ^ 53" using m(2) by (metis abs_le_D1 of_int_le_iff of_int_numeral of_int_power)
    ultimately have "m \<le> 2 ^ 53 * 2 powi (- 1073)" unfolding m(1) by (intro mult_mono) simp_all
    also have "\<dots> = 1 / 2 ^ 1020" by (simp add: power_int_minus field_simps)
    also have "\<dots> < 1 / 2 ^ 1000" by (simp add: divide_strict_left_mono)
    finally show False using assms(2) by simp
  qed
  moreover have "m / 4 = of_int k * 2 powi (e - 2)" unfolding m(1) by (simp add: power_int_diff)
  ultimately have "representable (m / 4)" using m(2) by (intro representableI [of _ k "e - 2"]) simp_all
  then show ?thesis by (rule fl_exact)
qed

lemma mk_num_small: "\<bar>fl x\<bar> \<le> 2 ^ 1001 \<Longrightarrow> mk_num x = Fin (fl x)"
  by (simp add: mk_num_Fin_iff)

lemma near_median_kept:
  assumes "fl m = m" "1 / 2 ^ 1000 \<le> m" "m \<le> 2 ^ 1000" "4 * \<bar>x - m\<bar> \<le> m"
  shows "deviationPct (Fin x) (Fin m) \<le> Fin 25"
proof -
  have pos: "0 < m" using assms(2) by (rule less_le_trans [rotated]) simp
  have q: "fl (m / 4) = m / 4" using assms(1,2) by (rule fl_quarter)
  define d where "d = fl (x - m)"
  have "\<bar>x - m\<bar> \<le> m / 4" using assms(4) by simp
  then have "x - m \<le> m / 4" "- (x - m) \<le> m / 4" by (rule abs_le_D1, rule abs_le_D2)
  then have "x - m \<le> m / 4" "- (m / 4) \<le> x - m" by linarith+
  then have "fl (x - m) \<le> m / 4" "- (m / 4) \<le> fl (x - m)"
    using fl_mono [of "x - m" "m / 4"] fl_mono [of "- (m / 4)" "x - m"] by (simp_all add: fl_minus q)
  then have d: "\<bar>d\<bar> \<le> m / 4" by (simp add: d_def)
  define r where "r = fl (\<bar>d\<bar> / m)"
  have "\<bar>d\<bar> / m \<le> 1 / 4" using d pos by (simp add: pos_divide_le_eq)
  moreover have "fl (1 / 4) = 1 / 4" using fl_quarter [of 1] fl_of_int [of 1] by simp
  ultimately have r: "0 \<le> r" "r \<le> 1 / 4" using fl_mono [of "\<bar>d\<bar> / m" "1 / 4"] fl_nonneg [of "\<bar>d\<bar> / m"] pos by (simp_all add: r_def)
  have "fl 25 = 25" using fl_of_int [of 25] by simp
  then have p: "0 \<le> fl (r * 100)" "fl (r * 100) \<le> 25" using fl_mono [of "r * 100" 25] fl_nonneg [of "r * 100"] r by simp_all
  have "Fin x - Fin m = Fin d" using d assms(3) by (simp add: minus_jsnum_def mk_num_small d_def [symmetric])
  moreover have "Fin \<bar>d\<bar> div Fin m = Fin r" using pos r by (simp add: mk_num_small r_def [symmetric])
  moreover have "Fin r * Fin 100 = Fin (fl (r * 100))" using p by (simp add: mk_num_small)
  ultimately have "deviationPct (Fin x) (Fin m) = Fin (fl (r * 100))" by (simp add: deviationPct_def)
  then show ?thesis using p by simp
qed

lemma valid_readings_mset:
  assumes "mset rs = {#Some a, Some b, z#}" "sr_price a > Fin 0" "isFinite (sr_price a)" "sr_price b > Fin 0" "isFinite (sr_price b)"
  shows "mset (valid_readings rs) = {#a, b#} \<or>
    (\<exists>c. z = Some c \<and> sr_price c > Fin 0 \<and> isFinite (sr_price c) \<and> mset (valid_readings rs) = {#a, b, c#})"
proof -
  have "mset (List.map_filter id rs) = {#a, b#} + (case z of None \<Rightarrow> {#} | Some c \<Rightarrow> {#c#})"
    using mset_three [OF assms(1)] by (elim disjE) (cases z; simp add: List.map_filter_simps add_mset_commute)+
  then have "mset (valid_readings rs) = filter_mset (\<lambda>r. sr_price r > Fin 0 \<and> isFinite (sr_price r)) ({#a, b#} + (case z of None \<Rightarrow> {#} | Some c \<Rightarrow> {#c#}))"
    by (simp add: valid_readings_def)
  then show ?thesis using assms(2-5) by (cases z) auto
qed

lemma two_or_three: "mset xs = {#a, b#} \<or> (\<exists>c z. mset xs = {#a, b, c#} \<and> Q c z) \<Longrightarrow> 2 \<le> length xs"
proof -
  assume "mset xs = {#a, b#} \<or> (\<exists>c z. mset xs = {#a, b, c#} \<and> Q c z)"
  then obtain M where "mset xs = add_mset a (add_mset b M)" by blast
  then have "size (mset xs) = size (add_mset a (add_mset b M))" by (rule arg_cong)
  then show ?thesis by simp
qed

definition honest :: "SourceReading \<Rightarrow> rat \<Rightarrow> bool" where
  "honest r x \<longleftrightarrow> sr_price r = Fin x \<and> price_wf x"

lemma median3_between:
  assumes "honest a x" "honest b y" "x \<le> y" "4 * y \<le> 5 * x"
    and v: "mset (valid_readings rs) = {#a, b#} \<or>
      (\<exists>c z. mset (valid_readings rs) = {#a, b, c#} \<and> sr_price c = Fin z \<and> fl z = z)"
  shows "\<exists>r m. median3 rs = Some r \<and> md_price r = Fin m \<and> x \<le> m \<and> m \<le> y"
proof -
  have px: "sr_price a = Fin x" "price_wf x" and py: "sr_price b = Fin y" "price_wf y" using assms(1,2) by (simp_all add: honest_def)
  let ?v = "valid_readings rs"
  have "mset (map sr_price ?v) = {#Fin x, Fin y#} \<or> (\<exists>z. mset (map sr_price ?v) = {#Fin x, Fin y, Fin z#} \<and> fl z = z)"
    using v px py by (auto simp: mset_map)
  then obtain m where m: "medianOf (map sr_price ?v) = Fin m" "x \<le> m" "m \<le> y" "fl m = m"
    using median_between [OF px(2) py(2) assms(3)] by blast
  let ?P = "\<lambda>r. deviationPct (sr_price r) (medianOf (map sr_price ?v)) \<le> Fin (of_int MAX_DEVIATION_PCT)"
  have small: "(1::rat) / 2 ^ 1000 \<le> 1 / 2 ^ 900" by (intro divide_left_mono power_increasing) simp_all
  then have lo: "1 / 2 ^ 1000 \<le> m" using px(2) m(2) by (auto simp: price_wf_def)
  have hi: "m \<le> 2 ^ 1000" using py(2) m(3) by (auto simp: price_wf_def)
  have near: "4 * \<bar>u - m\<bar> \<le> m" if "x \<le> u" "u \<le> y" for u
  proof -
    have "u - m \<le> y - x" "m - u \<le> y - x" using that m(2,3) by linarith+
    then have "\<bar>u - m\<bar> \<le> y - x" by (simp add: abs_le_iff)
    then have "4 * \<bar>u - m\<bar> \<le> 4 * (y - x)" by simp
    also have "\<dots> = 4 * y - 4 * x" by (rule right_diff_distrib)
    also have "\<dots> \<le> 5 * x - 4 * x" using assms(4) by (rule diff_right_mono)
    also have "\<dots> = x" by simp
    also note m(2)
    finally show ?thesis .
  qed
  have keep: "?P a" "?P b"
    using near_median_kept [OF m(4) lo hi near [of x]] near_median_kept [OF m(4) lo hi near [of y]] assms(3) px(1) py(1) m(1)
    by (simp_all add: MAX_DEVIATION_PCT_def)
  let ?k = "filter ?P ?v"
  have "mset ?k = {#a, b#} \<or> (\<exists>c z. mset ?k = {#a, b, c#} \<and> sr_price c = Fin z \<and> fl z = z)"
    using v keep by (auto simp: mset_filter)
  moreover from this have "mset (map sr_price ?k) = {#Fin x, Fin y#} \<or> (\<exists>z. mset (map sr_price ?k) = {#Fin x, Fin y, Fin z#} \<and> fl z = z)"
    using px py by (auto simp: mset_map)
  then obtain n where n: "medianOf (map sr_price ?k) = Fin n" "x \<le> n" "n \<le> y"
    using median_between [OF px(2) py(2) assms(3)] by blast
  moreover have "2 \<le> length ?v" using v by (rule two_or_three)
  moreover have "2 \<le> length ?k" using calculation(1) by (rule two_or_three)
  ultimately show ?thesis by (auto simp: median3_def Let_def)
qed

text \<open>
  One bad source cannot move the relayed median.  When two of three readings are prices at most 25
  per cent apart, the median exists and lies between them whatever the third one is: missing, not
  positive, infinite, or any other double.
\<close>

theorem median3_one_bad_source:
  assumes "honest a x" "honest b y" "x \<le> y" "4 * y \<le> 5 * x"
    and "mset rs = {#Some a, Some b, z#}" "\<And>c. z = Some c \<Longrightarrow> num_wf (sr_price c)"
  shows "\<exists>r m. median3 rs = Some r \<and> md_price r = Fin m \<and> x \<le> m \<and> m \<le> y"
proof -
  have pos: "0 < x" "0 < y" using assms(1,2) by (auto simp: honest_def price_wf_def intro: less_le_trans)
  have "mset (valid_readings rs) = {#a, b#} \<or>
      (\<exists>c. z = Some c \<and> sr_price c > Fin 0 \<and> isFinite (sr_price c) \<and> mset (valid_readings rs) = {#a, b, c#})"
    using assms(1,2) pos by (intro valid_readings_mset [OF assms(5)]) (simp_all add: honest_def)
  then have "mset (valid_readings rs) = {#a, b#} \<or>
      (\<exists>c u. mset (valid_readings rs) = {#a, b, c#} \<and> sr_price c = Fin u \<and> fl u = u)"
  proof
    assume "\<exists>c. z = Some c \<and> sr_price c > Fin 0 \<and> isFinite (sr_price c) \<and> mset (valid_readings rs) = {#a, b, c#}"
    then obtain c where c: "z = Some c" "isFinite (sr_price c)" "mset (valid_readings rs) = {#a, b, c#}" by blast
    then show ?thesis using assms(6) [OF c(1)] by (cases "sr_price c") auto
  qed simp
  then show ?thesis by (rule median3_between [OF assms(1-4)])
qed

definition reading :: "rat \<Rightarrow> string \<Rightarrow> SourceReading" where
  "reading x s = \<lparr>sr_price = Fin x, sr_source = s\<rparr>"

lemma price_wf_int: "1 \<le> n \<Longrightarrow> n \<le> 2 ^ 53 \<Longrightarrow> price_wf (of_int n)"
proof -
  assume n: "1 \<le> n" "n \<le> 2 ^ 53"
  then have "(1::rat) \<le> of_int n" "(of_int n :: rat) \<le> of_int (2 ^ 53)" by (simp, simp only: of_int_le_iff)
  moreover have "(of_int (2 ^ 53) :: rat) \<le> 2 ^ 1000" by simp
  moreover have "(1::rat) / 2 ^ 900 \<le> 1" by simp
  ultimately show ?thesis using n fl_of_int [of n] by (auto simp: price_wf_def intro: order_trans)
qed

theorem median3_one_bad_source_witness:
  "\<exists>r m. median3 [Some (reading 100 ''a''), Some \<lparr>sr_price = Fin 100000, sr_source = ''z''\<rparr>, Some (reading 120 ''b'')] = Some r \<and>
    md_price r = Fin m \<and> 100 \<le> m \<and> m \<le> 120"
  by (rule median3_one_bad_source [where a = "reading 100 ''a''" and b = "reading 120 ''b''" and z = "Some \<lparr>sr_price = Fin 100000, sr_source = ''z''\<rparr>"])
    (use price_wf_int [of 100] price_wf_int [of 120] fl_of_int [of 100000] in \<open>auto simp: honest_def reading_def\<close>)

text \<open>
  Two sources alone are compared with their own midpoint, not with one another: readings that are 60
  per cent apart both survive.
\<close>

lemma two_sources_far_apart:
  "\<exists>r. median3 [Some (reading 100 ''a''), Some (reading 160 ''b''), None] = Some r \<and> md_sourcesUsed r = 2"
proof -
  have m: "medianOf [Fin 100, Fin 160] = Fin 130"
    using mk_num_of_int [of 260] mk_num_of_int [of 130] by (simp add: medianOf_two)
  have "4 * \<bar>100 - (130::rat)\<bar> \<le> 130" "4 * \<bar>160 - (130::rat)\<bar> \<le> 130" by simp_all
  then have "deviationPct (Fin 100) (Fin 130) \<le> Fin 25" "deviationPct (Fin 160) (Fin 130) \<le> Fin 25"
    using fl_of_int [of 130] by (auto intro!: near_median_kept)
  then show ?thesis by (simp add: median3_def valid_readings_def reading_def List.map_filter_simps Let_def m MAX_DEVIATION_PCT_def)
qed

end
