(* ===== verification/Oracle.thy ===== *)
theory Oracle
  imports Session Sources Pricing
begin

text \<open>
  The oracle cycle of the keeper (\<^verbatim>\<open>apps/keeper/src/cycles/oracle.ts\<close>): Pyth prices taken from
  Hermes in batches and posted through the receiver program, keeper-signed prices from the manual
  file, and relayed prices of the vendors.  Hermes and the receiver's instruction builder are
  parameters of a run; the module's two tables (rejected feeds, last feed accounts) are part of the
  world, since they outlive a run.
\<close>

section \<open>World and parameters\<close>

record oracle_world = "peg_chain chain_world" +
  ow_rejected :: "string list"
  ow_lastFeed :: "(string \<times> string) list"

type_synonym 'a oio = "(oracle_world, 'a) io"

record PriceUpdate =
  up_id :: string
  up_price :: string
  up_conf :: string
  up_expo :: int
  up_publish_time :: int

record HermesUpdates =
  hu_parsed :: "PriceUpdate list"
  hu_binary :: "string list"

record oracle_env = peg_env +
  ov_hermes :: "string list \<Rightarrow> HermesUpdates option"
  ov_build :: "string list \<Rightarrow> bytes list \<times> (string \<times> bytes) list"
  ov_vendors :: vendors

definition FEED_BATCH_SIZE :: nat where "FEED_BATCH_SIZE = 5"
definition DEVIATION_TRIGGER_BPS :: int where "DEVIATION_TRIGGER_BPS = 10"
definition SWITCHBOARD_RELAY_MIN_INTERVAL_SEC :: int where "SWITCHBOARD_RELAY_MIN_INTERVAL_SEC = 300"
definition MANUAL_FALLBACK_CONF_BPS :: int where "MANUAL_FALLBACK_CONF_BPS = 500"

definition relayConfBps :: "int \<Rightarrow> int" where
  "relayConfBps sourcesUsed = (if sourcesUsed \<ge> 2 then 100 else 200)"

section \<open>Helpers\<close>

definition of_kind :: "OracleKind \<Rightarrow> CommodityRow list \<Rightarrow> CommodityRow list" where
  "of_kind k rows = filter (\<lambda>r. cr_oracle_kind r = OracleKind_code k) rows"

definition groupByOracleKind :: "CommodityRow list \<Rightarrow> CommodityRow list \<times> CommodityRow list \<times> CommodityRow list" where
  "groupByOracleKind rows = (of_kind PythPull rows, of_kind KeeperSigned rows, of_kind Switchboard rows)"

text \<open>\<open>buf[i % 32] ^= bytes[i]\<close> over the text.\<close>

definition hashSource :: "string \<Rightarrow> bytes" where
  "hashSource source = foldl (\<lambda>buf (i, b). buf[i mod 32 := xor (buf ! (i mod 32)) b]) (replicate 32 0)
     (enumerate 0 (ascii_bytes source))"

definition isDueForPost :: "oracle_env \<Rightarrow> string \<Rightarrow> int \<Rightarrow> int \<Rightarrow> bool oio" where
  "isDueForPost env symbol price publishTime =
     io_bind (getLatestPrice symbol) (\<lambda>last. case last of None \<Rightarrow> io_ret True | Some l \<Rightarrow>
     let ageSec = \<bar>publishTime - pr_ts l\<bar>; lastPrice = pr_price l in
     if num_of_int ageSec \<ge> cfg_oraclePushIntervalSec (pv_cfg env) then io_ret True
     else if lastPrice = 0 then io_ret True
     else let diff = (if price > lastPrice then price - lastPrice else lastPrice - price);
              deviationBps = (diff * 10000) sdiv lastPrice
          in io_ret (deviationBps \<ge> DEVIATION_TRIGGER_BPS))"

text \<open>\<open>BigInt(Math.round(price * 1e8))\<close>.\<close>

definition price_1e8 :: "jsnum \<Rightarrow> string + int" where
  "price_1e8 price = (case bigint_of_num (jround (price * Fin 100000000)) of None \<Rightarrow> Inl ''RangeError'' | Some n \<Rightarrow> Inr n)"

text \<open>Post one keeper price and record it; a failure is logged.\<close>

definition price_row :: "string \<Rightarrow> int \<Rightarrow> int \<Rightarrow> int \<Rightarrow> string \<Rightarrow> PriceRow" where
  "price_row commodity ts price conf source = \<lparr>pr_commodity = commodity, pr_ts = ts, pr_price = price, pr_conf = conf, pr_source = source\<rparr>"

definition post_keeper_price :: "oracle_env \<Rightarrow> CommodityRow \<Rightarrow> int \<Rightarrow> int \<Rightarrow> int \<Rightarrow> string \<Rightarrow> string \<Rightarrow> unit oio" where
  "post_keeper_price env row price conf ts hash_of source = io_catch
     (io_bind (io_result (new_PublicKey (pv_w3 env) (cr_commodity_pubkey row))) (\<lambda>k.
      io_bind (io_result (keeperUpdatePriceIx (peg_env.truncate env) (pv_keeper env) (cr_symbol row) (Some k) price conf ts (hashSource hash_of))) (\<lambda>ix.
      io_then (sendWithPriority peg_exec (pv_cfg env) [ix] no_opts)
        (insertPrice (price_row (cr_symbol row) ts price conf source)))))
     (\<lambda>err. io_ret ())"

section \<open>Relayed prices\<close>

record Reading =
  rd_price :: jsnum
  rd_sourcesUsed :: int
  rd_source :: string

definition source_if :: "jsnum option \<Rightarrow> string \<Rightarrow> SourceReading option" where
  "source_if p s = (if truthy_num p then Some \<lparr>sr_price = the p, sr_source = s\<rparr> else None)"

definition joined :: "string list \<Rightarrow> string" where
  "joined xs = concat (case xs of [] \<Rightarrow> [] | y # ys \<Rightarrow> y # map (\<lambda>z. ''+'' @ z) ys)"

definition of_median :: "MedianResult \<Rightarrow> Reading" where
  "of_median m = \<lparr>rd_price = md_price m, rd_sourcesUsed = md_sourcesUsed m, rd_source = ''median3:'' @ joined (md_sources m)\<rparr>"

definition live_reading :: "oracle_env \<Rightarrow> Commodity \<Rightarrow> string \<Rightarrow> Reading option" where
  "live_reading env entry symbol =
     (let vn = ov_vendors env; cfg = pv_cfg env in
      case cm_category entry of
        Cs2Skins \<Rightarrow> map_option (\<lambda>(price, n). \<lparr>rd_price = price, rd_sourcesUsed = n,
          rd_source = ''cs2-median3:'' @ (case os_switchboardJob (cm_oracle entry) of None \<Rightarrow> symbol | Some j \<Rightarrow> j)\<rparr>)
          (fetchCs2Price vn cfg symbol)
      | TradingCards \<Rightarrow>
          (let pokemontcg = fetchTcgPrice vn symbol;
               m = median3 [source_if pokemontcg ''pokemontcg'', source_if (fetchCollectorCryptPrice vn cfg symbol) ''collectorcrypt'']
           in case m of Some r \<Rightarrow> Some (of_median r)
              | None \<Rightarrow> if truthy_num pokemontcg then Some \<lparr>rd_price = the pokemontcg, rd_sourcesUsed = 1, rd_source = ''pokemontcg''\<rparr> else None)
      | Watches \<Rightarrow> map_option of_median (median3 [source_if (fetchWatchChartsPrice vn cfg symbol) ''watchcharts'',
          source_if (fetchChrono24Price symbol) ''chrono24'', source_if (fetchCollectorCryptPrice vn cfg symbol) ''collectorcrypt''])
      | GameGold \<Rightarrow> (if truthy_num fetchOsrsGoldPrice
          then Some \<lparr>rd_price = the fetchOsrsGoldPrice, rd_sourcesUsed = 1, rd_source = ''osrs''\<rparr> else None)
      | _ \<Rightarrow> None)"

text \<open>The manual seed replaces a missing reading; the flag says it was used.\<close>

definition seeded :: "oracle_env \<Rightarrow> Commodity \<Rightarrow> string \<Rightarrow> Reading option \<Rightarrow> Reading option \<times> bool" where
  "seeded env entry symbol r =
     (if (case r of None \<Rightarrow> True | Some x \<Rightarrow> rd_sourcesUsed x < 2 \<and> cm_category entry = Watches)
      then (case readManualPrices (ov_vendors env) of Inl _ \<Rightarrow> (r, False)
        | Inr entries \<Rightarrow> (case find (\<lambda>e. me_symbol e = symbol) entries of None \<Rightarrow> (r, False)
          | Some seed \<Rightarrow> (Some \<lparr>rd_price = me_price seed, rd_sourcesUsed = 1, rd_source = ''manual-seed:'' @ me_source seed\<rparr>, True)))
      else (r, False))"

definition relay_conf :: "int \<Rightarrow> bool \<Rightarrow> int \<Rightarrow> int" where
  "relay_conf price usedManual sourcesUsed =
     (if usedManual then (price * MANUAL_FALLBACK_CONF_BPS) sdiv 10000 else (price * relayConfBps sourcesUsed) sdiv 10000)"

definition relay_one :: "oracle_env \<Rightarrow> int \<Rightarrow> CommodityRow \<Rightarrow> unit oio" where
  "relay_one env nowSec row =
     (case bySymbol (cr_symbol row) of None \<Rightarrow> io_ret () | Some entry \<Rightarrow>
      io_bind (getLatestPrice (cr_symbol row)) (\<lambda>last.
      if (case last of None \<Rightarrow> False | Some l \<Rightarrow> nowSec - pr_ts l < SWITCHBOARD_RELAY_MIN_INTERVAL_SEC) then io_ret () else
      (case seeded env entry (cr_symbol row) (live_reading env entry (cr_symbol row)) of
         (None, _) \<Rightarrow> io_ret ()
       | (Some rd, usedManual) \<Rightarrow>
           if \<not> rd_price rd > Fin 0 then io_ret () else
           io_bind (io_result (price_1e8 (rd_price rd))) (\<lambda>price.
           post_keeper_price env row price (relay_conf price usedManual (rd_sourcesUsed rd)) nowSec (rd_source rd) ''switchboard''))))"

definition relaySwitchboardPrices :: "oracle_env \<Rightarrow> CommodityRow list \<Rightarrow> unit oio" where
  "relaySwitchboardPrices env rows = io_bind (chain_now pd_clock) (\<lambda>nowSec. io_for rows (relay_one env nowSec))"

section \<open>Keeper-signed prices\<close>

definition cadence :: "string \<Rightarrow> int" where
  "cadence symbol = (case bySymbol symbol of None \<Rightarrow> 7 * 86400
     | Some e \<Rightarrow> (case os_cadenceSec (cm_oracle e) of None \<Rightarrow> 7 * 86400 | Some c \<Rightarrow> c))"

text \<open>An unreadable date is \<open>NaN\<close>: no comparison holds, and \<open>BigInt(NaN)\<close> throws inside the \<open>try\<close>.\<close>

definition keeper_signed_one :: "oracle_env \<Rightarrow> ManualPriceEntry list \<Rightarrow> CommodityRow \<Rightarrow> unit oio" where
  "keeper_signed_one env entries row =
     (case find (\<lambda>m. me_symbol m = cr_symbol row) entries of None \<Rightarrow> io_ret () | Some entry \<Rightarrow>
      (case vn_date_parse (ov_vendors env) (me_updatedAt entry) of
        None \<Rightarrow> io_bind (getLatestPrice (cr_symbol row)) (\<lambda>_. io_bind (io_result (price_1e8 (me_price entry))) (\<lambda>_. io_ret ()))
      | Some ms \<Rightarrow>
      let publishTimeSec = ms div 1000 in
      io_bind (getLatestPrice (cr_symbol row)) (\<lambda>last.
      if (case last of None \<Rightarrow> False | Some l \<Rightarrow> publishTimeSec - pr_ts l < min (cadence (cr_symbol row)) 3600) then io_ret () else
      io_bind (io_result (price_1e8 (me_price entry))) (\<lambda>price.
      post_keeper_price env row price (price sdiv 1000) publishTimeSec (me_source entry) ''keeper''))))"

definition runKeeperSignedBatch :: "oracle_env \<Rightarrow> CommodityRow list \<Rightarrow> unit oio" where
  "runKeeperSignedBatch env rows = io_bind (io_result (readManualPrices (ov_vendors env))) (\<lambda>entries.
     io_for rows (keeper_signed_one env entries))"

section \<open>Pyth prices\<close>

record FeedItem =
  fi_row :: CommodityRow
  fi_entry :: Commodity
  fi_feed :: string

definition with_feed :: "CommodityRow \<Rightarrow> FeedItem option" where
  "with_feed r = (case bySymbol (cr_symbol r) of None \<Rightarrow> None | Some e \<Rightarrow>
     (case os_feedId (cm_oracle e) of None \<Rightarrow> None
      | Some f \<Rightarrow> if f = [] then None else Some \<lparr>fi_row = r, fi_entry = e, fi_feed = f\<rparr>))"

definition hex_ids :: "FeedItem list \<Rightarrow> string list" where
  "hex_ids items = map (\<lambda>x. ''0x'' @ fi_feed x) items"

definition reject_feed :: "string \<Rightarrow> unit oio" where
  "reject_feed f = io_modify (\<lambda>w. w\<lparr>ow_rejected := List.insert f (ow_rejected w)\<rparr>)"

text \<open>After a failed batch every feed is asked for alone; the ones that fail are dropped for good.\<close>

definition probe_feeds :: "oracle_env \<Rightarrow> FeedItem list \<Rightarrow> FeedItem list oio" where
  "probe_feeds env batch = io_fold batch (\<lambda>item ok.
     case ov_hermes env (hex_ids [item]) of
       Some _ \<Rightarrow> io_ret (ok @ [item])
     | None \<Rightarrow> io_then (reject_feed (fi_feed item)) (io_ret ok)) []"

definition fetch_batch :: "oracle_env \<Rightarrow> FeedItem list \<Rightarrow> (FeedItem list \<times> HermesUpdates) option oio" where
  "fetch_batch env batch =
     (case ov_hermes env (hex_ids batch) of Some u \<Rightarrow> io_ret (Some (batch, u))
      | None \<Rightarrow> io_bind (probe_feeds env batch) (\<lambda>ok.
          if ok = [] then io_ret None else
          io_ret (map_option (\<lambda>u. (ok, u)) (ov_hermes env (hex_ids ok)))))"

definition toUsd1e8 :: "Commodity \<Rightarrow> string \<Rightarrow> int \<Rightarrow> string + int" where
  "toUsd1e8 entry raw expo = (case parse_bigint raw of None \<Rightarrow> Inl ''SyntaxError''
     | Some n \<Rightarrow> (case scaleQuote n expo (if os_quote (cm_oracle entry) = Some QuoteUSc then 1 else 0) 0 0 of
         Inl e \<Rightarrow> Inl ''PricingError'' | Inr p \<Rightarrow> Inr p))"

definition strip_0x :: "string \<Rightarrow> string" where
  "strip_0x s = (if take 2 s = ''0x'' then drop 2 s else s)"

definition find_update :: "HermesUpdates \<Rightarrow> string \<Rightarrow> PriceUpdate option" where
  "find_update u feed = find (\<lambda>x. strip_0x (up_id x) = feed) (hu_parsed u)"

definition due_item :: "oracle_env \<Rightarrow> HermesUpdates \<Rightarrow> FeedItem \<Rightarrow> FeedItem list \<Rightarrow> FeedItem list oio" where
  "due_item env u item due =
     (case find_update u (fi_feed item) of None \<Rightarrow> io_ret due | Some p \<Rightarrow>
      if os_quote (cm_oracle (fi_entry item)) = Some QuoteEUR then io_ret due else
      io_bind (io_result (toUsd1e8 (fi_entry item) (up_price p) (up_expo p))) (\<lambda>usd.
      io_bind (isDueForPost env (cr_symbol (fi_row item)) usd (up_publish_time p)) (\<lambda>post.
      io_ret (if post then due @ [item] else due))))"

definition point_feed :: "oracle_env \<Rightarrow> string \<Rightarrow> bytes \<Rightarrow> unit oio" where
  "point_feed env symbol account =
     (let addr = w3_text (pv_w3 env) account in
      io_bind (io_gets ow_lastFeed) (\<lambda>known.
      if map_of known symbol = Some addr then io_ret () else
      io_bind (io_result (setFeedAccountIx (peg_env.truncate env) (pv_keeper env) symbol account (replicate 32 0))) (\<lambda>ix.
      io_then (sendWithPriority peg_exec (pv_cfg env) [ix] no_opts)
      (io_then (io_modify (\<lambda>w. w\<lparr>ow_lastFeed := AList.update symbol addr (ow_lastFeed w)\<rparr>))
        (updateCommodityFeedAccount symbol addr)))))"

definition record_update :: "oracle_env \<Rightarrow> HermesUpdates \<Rightarrow> (string \<times> bytes) list \<Rightarrow> FeedItem \<Rightarrow> unit oio" where
  "record_update env u accounts item =
     (case find_update u (fi_feed item) of None \<Rightarrow> io_throw ''TypeError'' | Some p \<Rightarrow>
      io_bind (io_result (toUsd1e8 (fi_entry item) (up_price p) (up_expo p))) (\<lambda>price.
      io_bind (io_result (toUsd1e8 (fi_entry item) (up_conf p) (up_expo p))) (\<lambda>conf.
      io_then (insertPrice (price_row (cr_symbol (fi_row item)) (up_publish_time p) price conf ''pyth''))
      (case map_of accounts (fi_feed item) of None \<Rightarrow> io_ret ()
       | Some account \<Rightarrow> point_feed env (cr_symbol (fi_row item)) account))))"

definition post_batch :: "oracle_env \<Rightarrow> HermesUpdates \<Rightarrow> FeedItem list \<Rightarrow> unit oio" where
  "post_batch env u due = io_catch
     (case ov_build env (hu_binary u) of (posts, accounts) \<Rightarrow>
        io_then (sendWithPriority peg_exec (pv_cfg env) (map ForeignIx posts) no_opts)
          (io_for due (record_update env u accounts)))
     (\<lambda>err. io_ret ())"

definition pyth_batch :: "oracle_env \<Rightarrow> FeedItem list \<Rightarrow> unit oio" where
  "pyth_batch env batch = io_bind (fetch_batch env batch) (\<lambda>fetched. case fetched of None \<Rightarrow> io_ret ()
     | Some (items, u) \<Rightarrow> io_bind (io_fold items (due_item env u) []) (\<lambda>due.
         if due = [] then io_ret () else post_batch env u due))"

definition runPythPullBatch :: "oracle_env \<Rightarrow> CommodityRow list \<Rightarrow> unit oio" where
  "runPythPullBatch env rows = io_bind (io_gets ow_rejected) (\<lambda>rejected.
     let eligible = filter (\<lambda>x. fi_feed x \<notin> set rejected) (List.map_filter with_feed rows)
     in io_for (chunks FEED_BATCH_SIZE eligible) (pyth_batch env))"

definition runOracleCycle :: "oracle_env \<Rightarrow> unit oio" where
  "runOracleCycle env = io_bind listCommodities (\<lambda>rows.
     case groupByOracleKind rows of (pythPull, keeperSigned, switchboard) \<Rightarrow>
       io_then (if pythPull = [] then io_ret () else runPythPullBatch env pythPull)
       (io_then (if keeperSigned = [] then io_ret () else runKeeperSignedBatch env keeperSigned)
       (if switchboard = [] then io_ret () else relaySwitchboardPrices env switchboard)))"

section \<open>A small instance\<close>

definition idle_vendors :: vendors where
  "idle_vendors = \<lparr>vn_pricempire = (\<lambda>_. None), vn_csfloat = (\<lambda>_. None), vn_skinport = None, vn_pokemontcg = (\<lambda>_. None),
     vn_watchcharts = (\<lambda>_. None), vn_das = None, vn_mint_sales = (\<lambda>_. None), vn_item_sales = (\<lambda>_. None), vn_sol = None,
     vn_sol_cache = None, vn_manual_file = Some [\<lparr>me_symbol = ''RSGP'', me_price = Fin 2, me_source = ''m'', me_updatedAt = ''d''\<rparr>], vn_manual_cache = None,
     vn_date_parse = (\<lambda>_. Some 0), vn_now_ms = 0\<rparr>"

definition small_w3 :: web3 where
  "small_w3 = \<lparr>w3_find = (\<lambda>_ _. ([], 0)), w3_key = (\<lambda>s. if s = ''K'' then Some [7] else None), w3_text = (\<lambda>_. ''K'')\<rparr>"

definition small_env :: "(string list \<Rightarrow> HermesUpdates option) \<Rightarrow> KeeperConfig \<Rightarrow> oracle_env" where
  "small_env hermes cfg = \<lparr>pv_cfg = cfg, pv_w3 = small_w3, pv_keeper = [2], pv_program = [9], ov_hermes = hermes,
     ov_build = (\<lambda>_. ([], [])), ov_vendors = idle_vendors\<rparr>"

definition small_world :: "db \<Rightarrow> KeeperPrice \<Rightarrow> oracle_world" where
  "small_world d kp = \<lparr>kw_faults = [Fine, FailAfter], kw_db = d, kw_now = 0, cw_sends = [FailAfter, DieAfter],
     cw_chain = \<lparr>pd_config = \<lparr>gl_admin = [1], gl_keepers = [[2]]\<rparr>, pd_commodities = (\<lambda>_. None),
       pd_prices = [[7] \<mapsto> kp], pd_clock = 1000\<rparr>, cw_signed = 0, ow_rejected = [], ow_lastFeed = []\<rparr>"

definition gold_row :: CommodityRow where
  "gold_row = \<lparr>cr_symbol = ''RSGP'', cr_commodity_pubkey = ''K'', cr_status = 0, cr_session_kind = 0, cr_oracle_kind = 1, cr_feed_account = None\<rparr>"

definition gold :: Commodity where
  "gold = com ''RSGP'' ''OSRS Gold'' None GameGold ''1M gp'' ''M gp'' TierB Continuous (sb ''osrs_gp_median_sellers'') P_BMkt"

lemma bySymbol_gold: "bySymbol ''RSGP'' = Some gold"
proof -
  have "gold \<in> set ALL_COINS"
    by (simp only: ALL_COINS_def COMMODITIES_def GAME_GOLD_def gold_def set_append Un_iff list.set insert_iff simp_thms)
  then show ?thesis using bySymbol_member [of gold] by (simp add: gold_def com_def)
qed

definition item_of :: "string \<Rightarrow> FeedItem" where
  "item_of f = \<lparr>fi_row = gold_row, fi_entry = gold, fi_feed = f\<rparr>"

definition picky :: "string list \<Rightarrow> HermesUpdates option" where
  "picky ids = (if ''0xbad'' \<in> set ids then None else Some \<lparr>hu_parsed = [], hu_binary = []\<rparr>)"

section \<open>Probing\<close>

text \<open>What a probe leaves: the feeds that failed are rejected, the others kept, nothing else changes.\<close>

definition reject_all :: "string list \<Rightarrow> oracle_world \<Rightarrow> oracle_world" where
  "reject_all fs w = w\<lparr>ow_rejected := fold List.insert fs (ow_rejected w)\<rparr>"

definition answered :: "oracle_env \<Rightarrow> FeedItem \<Rightarrow> bool" where
  "answered env item \<longleftrightarrow> ov_hermes env (hex_ids [item]) \<noteq> None"

lemma probe_fold:
  "io_fold batch (\<lambda>item ok. case ov_hermes env (hex_ids [item]) of
       Some _ \<Rightarrow> io_ret (ok @ [item])
     | None \<Rightarrow> io_then (reject_feed (fi_feed item)) (io_ret ok)) ok w =
   (Ret (ok @ filter (answered env) batch), reject_all (map fi_feed (filter (\<lambda>x. \<not> answered env x) batch)) w)"
  by (induction batch arbitrary: ok w)
    (auto simp: io_ret_def io_bind_def io_then_def reject_feed_def io_modify_def reject_all_def answered_def split: option.splits)

lemma probe_feeds_run:
  "probe_feeds env batch w = (Ret (filter (answered env) batch), reject_all (map fi_feed (filter (\<lambda>x. \<not> answered env x) batch)) w)"
  unfolding probe_feeds_def probe_fold by simp

lemma set_fold_insert: "set (fold List.insert xs ys) = set xs \<union> set ys"
  by (induction xs arbitrary: ys) auto

lemma rejected_reject_all [simp]: "set (ow_rejected (reject_all fs w)) = set fs \<union> set (ow_rejected w)"
  by (simp add: reject_all_def set_fold_insert)

text \<open>
  C23: pruning a batch is exact.  When Hermes answers a request just if it answers each of its feeds, a
  batch that fails is retried with all the feeds it answers and only those, and the others are rejected;
  nothing but the table of rejected feeds changes.
\<close>

theorem pruning_exact:
  assumes "\<And>items. ov_hermes env (hex_ids items) \<noteq> None \<longleftrightarrow> (\<forall>x \<in> set items. answered env x)"
  shows "\<exists>r w'. fetch_batch env batch w = (Ret r, w') \<and>
    (r = None \<longleftrightarrow> batch \<noteq> [] \<and> (\<forall>x \<in> set batch. \<not> answered env x)) \<and>
    (\<forall>items u. r = Some (items, u) \<longrightarrow> items = filter (answered env) batch \<and> ov_hermes env (hex_ids items) = Some u) \<and>
    set (ow_rejected w') = set (ow_rejected w) \<union> fi_feed ` {x \<in> set batch. \<not> answered env x} \<and>
    w' = w\<lparr>ow_rejected := ow_rejected w'\<rparr>"
proof (cases "\<forall>x \<in> set batch. answered env x")
  case True
  then obtain u where "ov_hermes env (hex_ids batch) = Some u" using assms by blast
  then have "fetch_batch env batch w = (Ret (Some (batch, u)), w)" by (simp add: fetch_batch_def io_ret_def)
  then show ?thesis using True \<open>ov_hermes env (hex_ids batch) = Some u\<close> by (cases batch, auto simp: filter_id_conv)
next
  case False
  let ?ok = "filter (answered env) batch"
  have none: "ov_hermes env (hex_ids batch) = None" using False assms by blast
  have some: "ov_hermes env (hex_ids ?ok) \<noteq> None" using assms [of ?ok] by simp
  let ?w = "reject_all (map fi_feed (filter (\<lambda>x. \<not> answered env x) batch)) w"
  have run: "fetch_batch env batch w = (Ret (if ?ok = [] then None else map_option (\<lambda>u. (?ok, u)) (ov_hermes env (hex_ids ?ok))), ?w)"
    by (simp add: fetch_batch_def none io_bind_def probe_feeds_run io_ret_def)
  have "?w = w\<lparr>ow_rejected := ow_rejected ?w\<rparr>" by (simp add: reject_all_def)
  moreover have "set (ow_rejected ?w) = set (ow_rejected w) \<union> fi_feed ` {x \<in> set batch. \<not> answered env x}" by auto
  moreover have "?ok = [] \<longleftrightarrow> (\<forall>x \<in> set batch. \<not> answered env x)" by (simp add: filter_empty_conv)
  moreover have "batch \<noteq> []" using False by auto
  ultimately show ?thesis unfolding run using some
    by (intro exI [where x = "if ?ok = [] then None else map_option (\<lambda>u. (?ok, u)) (ov_hermes env (hex_ids ?ok))"] exI [where x = ?w]) auto
qed

theorem pruning_exact_witness:
  "\<forall>cfg d kp. \<exists>w'. fetch_batch (small_env picky cfg) [item_of ''aa'', item_of ''bad''] (small_world d kp) =
     (Ret (Some ([item_of ''aa''], \<lparr>hu_parsed = [], hu_binary = []\<rparr>)), w') \<and> set (ow_rejected w') = {''bad''}"
proof (intro allI)
  fix cfg d kp
  have hyp: "ov_hermes (small_env picky cfg) (hex_ids items) \<noteq> None \<longleftrightarrow> (\<forall>x \<in> set items. answered (small_env picky cfg) x)" for items
    by (auto simp: small_env_def picky_def hex_ids_def answered_def)
  have a: "answered (small_env picky cfg) (item_of ''aa'')" "\<not> answered (small_env picky cfg) (item_of ''bad'')"
    by (simp_all add: answered_def small_env_def picky_def hex_ids_def item_of_def)
  have u: "ov_hermes (small_env picky cfg) (hex_ids [item_of ''aa'']) = Some \<lparr>hu_parsed = [], hu_binary = []\<rparr>"
    by (simp add: small_env_def picky_def hex_ids_def item_of_def)
  let ?items = "[item_of ''aa'', item_of ''bad'']"
  obtain r w' where r: "fetch_batch (small_env picky cfg) ?items (small_world d kp) = (Ret r, w')"
      "r = None \<longleftrightarrow> ?items \<noteq> [] \<and> (\<forall>x \<in> set ?items. \<not> answered (small_env picky cfg) x)"
      "\<forall>items u. r = Some (items, u) \<longrightarrow> items = filter (answered (small_env picky cfg)) ?items \<and> ov_hermes (small_env picky cfg) (hex_ids items) = Some u"
      "set (ow_rejected w') = set (ow_rejected (small_world d kp)) \<union> fi_feed ` {x \<in> set ?items. \<not> answered (small_env picky cfg) x}"
    using pruning_exact [OF hyp, of ?items "small_world d kp"] by (elim exE conjE) (rule that)
  have "{x \<in> set ?items. \<not> answered (small_env picky cfg) x} = {item_of ''bad''}" using a by auto
  then have "set (ow_rejected w') = {''bad''}" using r(4) by (simp add: small_world_def item_of_def)
  moreover have "r = Some ([item_of ''aa''], \<lparr>hu_parsed = [], hu_binary = []\<rparr>)" using r(2, 3) a u by (cases r) auto
  ultimately show "\<exists>w'. fetch_batch (small_env picky cfg) ?items (small_world d kp) =
     (Ret (Some ([item_of ''aa''], \<lparr>hu_parsed = [], hu_binary = []\<rparr>)), w') \<and> set (ow_rejected w') = {''bad''}"
    using r(1) by (intro exI conjI) simp_all
qed

section \<open>An outage\<close>

text \<open>Hermes is down for a while: every request fails.\<close>

definition down :: "oracle_env \<Rightarrow> bool" where
  "down env \<longleftrightarrow> (\<forall>ids. ov_hermes env ids = None)"

lemma down_batch:
  assumes "down env"
  shows "pyth_batch env batch w = (Ret (), reject_all (map fi_feed batch) w)"
proof -
  have na: "\<not> answered env x" for x using assms by (simp add: answered_def down_def)
  have none: "ov_hermes env ids = None" for ids using assms by (simp add: down_def)
  show ?thesis by (simp add: pyth_batch_def fetch_batch_def none io_bind_def probe_feeds_run na io_ret_def)
qed

lemma down_batches:
  assumes "down env"
  shows "io_for bs (pyth_batch env) w = (Ret (), reject_all (map fi_feed (concat bs)) w)"
proof (induction bs arbitrary: w)
  case Nil
  then show ?case by (simp add: io_ret_def reject_all_def)
next
  case (Cons b bs)
  have "reject_all xs (reject_all ys w) = reject_all (ys @ xs) w" for xs ys
    by (simp add: reject_all_def)
  then show ?case using Cons by (simp add: io_then_def io_bind_def down_batch [OF assms])
qed

lemma pyth_run_down:
  assumes "down env"
  shows "runPythPullBatch env rows w = (Ret (), reject_all (map fi_feed (filter (\<lambda>x. fi_feed x \<notin> set (ow_rejected w)) (List.map_filter with_feed rows))) w)"
  by (simp add: runPythPullBatch_def io_bind_def io_gets_def down_batches [OF assms] concat_chunks FEED_BATCH_SIZE_def)

lemma pyth_run_all_rejected:
  assumes "fi_feed ` set (List.map_filter with_feed rows) \<subseteq> set (ow_rejected w)"
  shows "runPythPullBatch env rows w = (Ret (), w)"
proof -
  have "filter (\<lambda>x. fi_feed x \<notin> set (ow_rejected w)) (List.map_filter with_feed rows) = []"
    using assms by (auto simp: filter_empty_conv)
  then show ?thesis by (simp add: runPythPullBatch_def io_bind_def io_gets_def io_ret_def chunks.simps)
qed

text \<open>
  C19: one outage of Hermes silences every Pyth price until the keeper is restarted.  If all requests
  fail during one cycle, every later cycle posts no Pyth price and changes nothing, whatever Hermes
  answers by then.
\<close>

theorem outage_silences_pyth:
  assumes "down env" "w' = snd (runPythPullBatch env rows w)"
  shows "runPythPullBatch env' rows w' = (Ret (), w')"
  using assms(2) by (intro pyth_run_all_rejected) (auto simp: pyth_run_down [OF assms(1)])

theorem outage_silences_pyth_witness:
  "\<forall>cfg d kp. runPythPullBatch (small_env picky cfg) [gold_row] (snd (runPythPullBatch (small_env (\<lambda>_. None) cfg) [gold_row] (small_world d kp))) =
     (Ret (), snd (runPythPullBatch (small_env (\<lambda>_. None) cfg) [gold_row] (small_world d kp)))"
  by (intro allI, rule outage_silences_pyth [where env = "small_env (\<lambda>_. None) cfg" for cfg]) (simp_all add: down_def small_env_def)

section \<open>Relays against the bound of the program\<close>

text \<open>The price a relay of a row would post.\<close>

definition relay_target :: "oracle_env \<Rightarrow> CommodityRow \<Rightarrow> int option" where
  "relay_target env row = (case bySymbol (cr_symbol row) of None \<Rightarrow> None | Some entry \<Rightarrow>
     (case fst (seeded env entry (cr_symbol row) (live_reading env entry (cr_symbol row))) of None \<Rightarrow> None
      | Some rd \<Rightarrow> result_opt (price_1e8 (rd_price rd))))"

definition frozen :: "bytes \<Rightarrow> KeeperPrice \<Rightarrow> peg_chain \<Rightarrow> bool" where
  "frozen k kp c \<longleftrightarrow> pd_prices c k = Some kp"

lemma update_frozen:
  assumes "frozen k kp c" "keeper_update_price a c = Inr c'" "ku_commodity a = k \<Longrightarrow> \<not> move_ok kp (ku_price a)"
  shows "frozen k kp c'"
  using assms by (auto simp: frozen_def keeper_update_price_def price_account_def Let_def result_simps)

lemma send_update_frozen:
  assumes "ku_commodity a = k \<Longrightarrow> \<not> move_ok kp (ku_price a)"
  shows "io_inv (on_cw (frozen k kp)) (io_then (sendWithPriority peg_exec (pv_cfg env) [KeeperUpdatePrice a] no_opts) (insertPrice r))"
  unfolding insertPrice_def using assms
  by (intro io_inv_then send_inv chain_blind_write) (auto intro: update_frozen)

lemma post_keeper_frozen:
  assumes "new_PublicKey (pv_w3 env) (cr_commodity_pubkey row) = Inr k \<Longrightarrow> \<not> move_ok kp price"
  shows "io_inv (on_cw (frozen k kp)) (post_keeper_price env row price conf ts h s)"
proof -
  have "io_inv (on_cw (frozen k kp)) (io_bind (io_result (keeperUpdatePriceIx (peg_env.truncate env) (pv_keeper env) (cr_symbol row) (Some j) price conf ts (hashSource h))) (\<lambda>ix.
      io_then (sendWithPriority peg_exec (pv_cfg env) [ix] no_opts) (insertPrice r)))"
    if j: "new_PublicKey (pv_w3 env) (cr_commodity_pubkey row) = Inr j" for j r
  proof (cases "keeperUpdatePriceIx (peg_env.truncate env) (pv_keeper env) (cr_symbol row) (Some j) price conf ts (hashSource h)")
    case (Inr ix)
    then obtain a where a: "ix = KeeperUpdatePrice a" "ku_commodity a = j" "ku_price a = price"
      by (auto simp: keeperUpdatePriceIx_def result_simps)
    show ?thesis unfolding io_result_bind Inr a(1) sum.case
      by (rule send_update_frozen) (use assms j a in auto)
  qed (simp add: io_result_bind io_inv_throw)
  then show ?thesis unfolding post_keeper_price_def
    by (subst io_result_bind) (auto intro!: io_inv_catch io_inv_ret io_inv_throw split: sum.splits)
qed

lemma relay_one_frozen:
  assumes "\<And>n. new_PublicKey (pv_w3 env) (cr_commodity_pubkey row) = Inr k \<Longrightarrow> relay_target env row = Some n \<Longrightarrow> \<not> move_ok kp n"
  shows "io_inv (on_cw (frozen k kp)) (relay_one env nowSec row)"
proof (cases "bySymbol (cr_symbol row)")
  case (Some entry)
  obtain rd u where s: "seeded env entry (cr_symbol row) (live_reading env entry (cr_symbol row)) = (rd, u)"
    by (cases "seeded env entry (cr_symbol row) (live_reading env entry (cr_symbol row))")
  have "io_inv (on_cw (frozen k kp)) (case (rd, u) of (None, _) \<Rightarrow> io_ret ()
       | (Some rd, usedManual) \<Rightarrow>
           if \<not> rd_price rd > Fin 0 then io_ret () else
           io_bind (io_result (price_1e8 (rd_price rd))) (\<lambda>price.
           post_keeper_price env row price (relay_conf price usedManual (rd_sourcesUsed rd)) nowSec (rd_source rd) ''switchboard''))"
  proof (cases rd)
    case (Some r)
    have "io_inv (on_cw (frozen k kp)) (io_bind (io_result (price_1e8 (rd_price r))) (\<lambda>price.
           post_keeper_price env row price (relay_conf price u (rd_sourcesUsed r)) nowSec (rd_source r) ''switchboard''))"
    proof (cases "price_1e8 (rd_price r)")
      case (Inr n)
      have "relay_target env row = Some n" using \<open>bySymbol (cr_symbol row) = Some entry\<close> s Some Inr by (simp add: relay_target_def)
      then show ?thesis unfolding io_result_bind Inr sum.case using assms by (intro post_keeper_frozen) auto
    qed (simp add: io_result_bind io_inv_throw)
    then show ?thesis using Some by (simp add: io_inv_ret)
  qed (simp add: io_inv_ret)
  then show ?thesis unfolding relay_one_def getLatestPrice_def Some option.case s
    by (intro io_inv_bind chain_blind_read io_inv_if io_inv_ret)
qed (simp add: relay_one_def io_inv_ret)

text \<open>
  C21: a price that gaps beyond the program's bound is never relayed.  While every price the keeper would
  relay for a commodity is further than \<open>max_move_bps\<close> from the one on the chain, no relay cycle changes
  the price on the chain, however often it runs and whatever fails.
\<close>

theorem gap_freezes_relay:
  assumes "pd_prices (cw_chain w) k = Some kp"
    and "\<And>env rows row n. (env, rows) \<in> set runs \<Longrightarrow> row \<in> set rows \<Longrightarrow>
      new_PublicKey (pv_w3 env) (cr_commodity_pubkey row) = Inr k \<Longrightarrow> relay_target env row = Some n \<Longrightarrow> \<not> move_ok kp n"
  shows "pd_prices (cw_chain (fold (\<lambda>(env, rows) w. snd (relaySwitchboardPrices env rows w)) runs w)) k = Some kp"
  using assms
proof (induction runs arbitrary: w)
  case (Cons run runs)
  obtain env rows where run: "run = (env, rows)" by (cases run)
  have "io_inv (on_cw (frozen k kp)) (relay_one env nowSec row)" if "row \<in> set rows" for nowSec row
    by (rule relay_one_frozen) (rule Cons.prems(2) [of env rows row], use that run in auto)
  then have "io_inv (on_cw (frozen k kp)) (io_for rows (relay_one env nowSec))" for nowSec
    unfolding io_inv_def by (intro io_for_spec)
  then have "io_inv (on_cw (frozen k kp)) (relaySwitchboardPrices env rows)"
    unfolding relaySwitchboardPrices_def chain_now_def
    by (intro io_inv_bind io_inv_catch io_inv_then rpc_read_inv io_inv_ret io_inv_gets) (auto intro!: io_inv_ret io_inv_gets split: option.splits)
  then have step: "frozen k kp (cw_chain (snd (relaySwitchboardPrices env rows w)))"
    using Cons.prems(1) by (intro io_invD [where I = "on_cw (frozen k kp)"]) (simp_all add: frozen_def)
  have "pd_prices (cw_chain (fold (\<lambda>(env, rows) w. snd (relaySwitchboardPrices env rows w)) runs (snd (relaySwitchboardPrices env rows w)))) k = Some kp"
  proof (rule Cons.IH)
    show "pd_prices (cw_chain (snd (relaySwitchboardPrices env rows w))) k = Some kp" using step by (simp add: frozen_def)
  next
    fix env rows row n
    assume "(env, rows) \<in> set runs" "row \<in> set rows" "new_PublicKey (pv_w3 env) (cr_commodity_pubkey row) = Inr k" "relay_target env row = Some n"
    then show "\<not> move_ok kp n" by (intro Cons.prems(2)) auto
  qed
  then show ?case by (simp add: run)
qed simp

theorem gap_freezes_relay_witness:
  "\<forall>cfg d. pd_prices (cw_chain (fold (\<lambda>(env, rows) w. snd (relaySwitchboardPrices env rows w))
     [(small_env picky cfg, [gold_row]), (small_env picky cfg, [gold_row])] (small_world d (fresh_price\<lparr>kp_price := 100000000\<rparr>)))) [7]
     = Some (fresh_price\<lparr>kp_price := 100000000\<rparr>)"
proof (intro allI, rule gap_freezes_relay)
  fix cfg d env rows row n
  assume "(env, rows) \<in> set [(small_env picky cfg, [gold_row]), (small_env picky cfg, [gold_row])]" "row \<in> set rows"
    "relay_target env row = Some n"
  then have "relay_target (small_env picky cfg) gold_row = Some n" by auto
  moreover have "relay_target (small_env picky cfg) gold_row = Some 200000000"
    using Fin_times_int [of 2 100000000] jround_of_int [of 200000000]
    by (simp add: relay_target_def gold_row_def bySymbol_gold seeded_def live_reading_def small_env_def gold_def com_def
        truthy_num_def fetchOsrsGoldPrice_def readManualPrices_def idle_vendors_def entry_valid_def price_1e8_def)
  ultimately have "n = 200000000" by simp
  then show "\<not> move_ok (fresh_price\<lparr>kp_price := 100000000\<rparr>) n" by (simp add: move_ok_def fresh_price_def DEFAULT_MAX_MOVE_BPS_def)
qed (simp add: small_world_def)

end
