(* ===== verification/Decode.thy ===== *)
theory Decode
  imports Store Js_Number
begin

text \<open>
  Transactions of the indexer (\<^verbatim>\<open>apps/indexer/src/decode/types.ts\<close>, \<^verbatim>\<open>normalize.ts\<close> and
  \<^verbatim>\<open>swaps.ts\<close>): the three shapes a transaction arrives in, their common form, and the swaps and
  balance changes of the registered pools read off its token balances.  Fields the code reads as
  \<open>x ?? []\<close> are lists, empty when absent.
\<close>

section \<open>Shapes\<close>

record RawTokenAmount =
  ra_tokenAmount :: "string option"
  ra_decimals :: int

record HeliusTokenBalanceChange =
  hb_userAccount :: string
  hb_tokenAccount :: string
  hb_mint :: string
  hb_rawTokenAmount :: "RawTokenAmount option"

record HeliusAccountData =
  ha_account :: string
  ha_tokenBalanceChanges :: "HeliusTokenBalanceChange list"

record HeliusTokenTransfer =
  ht_fromUserAccount :: "string option"
  ht_toUserAccount :: "string option"
  ht_fromTokenAccount :: "string option"
  ht_toTokenAccount :: "string option"
  ht_tokenAmount :: jsnum
  ht_mint :: string
  ht_decimals :: "int option"

datatype HeliusInstruction =
  HeliusIx (hi_programId: string) (hi_innerInstructions: "HeliusInstruction list")

record HeliusEnhancedTx =
  he_signature :: string
  he_slot :: int
  he_timestamp :: int
  he_feePayer :: "string option"
  he_transactionError :: "string option"
  he_accountData :: "HeliusAccountData list"
  he_tokenTransfers :: "HeliusTokenTransfer list"
  he_instructions :: "HeliusInstruction list"

record RpcTokenBalance =
  tb_accountIndex :: nat
  tb_mint :: string
  tb_owner :: "string option"
  tb_amount :: string
  tb_decimals :: int

record RawMeta =
  rm_err :: "string option"
  rm_logMessages :: "string list option"
  rm_preTokenBalances :: "RpcTokenBalance list"
  rm_postTokenBalances :: "RpcTokenBalance list"
  rm_innerInstructions :: "nat list list"
  rm_writable :: "string list"
  rm_readonly :: "string list"

record RawRpcTx =
  rt_slot :: int
  rt_blockTime :: "int option"
  rt_meta :: "RawMeta option"
  rt_signatures :: "string list"
  rt_accountKeys :: "string list"
  rt_instructions :: "nat list"

datatype RpcKeyLike = KeyText string | KeyObject string

fun keyStr :: "RpcKeyLike \<Rightarrow> string" where
  "keyStr (KeyText s) = s"
| "keyStr (KeyObject base58) = base58"

record ParsedMeta =
  pm_err :: "string option"
  pm_logMessages :: "string list option"
  pm_preTokenBalances :: "RpcTokenBalance list"
  pm_postTokenBalances :: "RpcTokenBalance list"
  pm_innerInstructions :: "RpcKeyLike list list"

record ParsedRpcTx =
  pt_slot :: int
  pt_blockTime :: "int option"
  pt_meta :: "ParsedMeta option"
  pt_signatures :: "string list"
  pt_accountKeys :: "RpcKeyLike list"
  pt_instructions :: "RpcKeyLike list"

record TokenDelta =
  td_tokenAccount :: string
  td_owner :: string
  td_mint :: string
  td_delta :: int
  td_decimals :: int

record NormalizedTx =
  nt_signature :: string
  nt_slot :: int
  nt_blockTime :: int
  nt_feePayer :: string
  nt_failed :: bool
  nt_programIds :: "string list"
  nt_logs :: "string list option"
  nt_tokenDeltas :: "TokenDelta list"

section \<open>Sets and guards\<close>

text \<open>\<open>Set.add\<close>: insertion order.\<close>

definition set_add :: "'a list \<Rightarrow> 'a \<Rightarrow> 'a list" where
  "set_add xs x = (if x \<in> set xs then xs else xs @ [x])"

definition set_of :: "'a list \<Rightarrow> 'a list" where
  "set_of xs = foldl set_add [] xs"

definition or_empty :: "string option \<Rightarrow> string" where
  "or_empty v = (case v of None \<Rightarrow> [] | Some s \<Rightarrow> s)"

text \<open>The pattern \<^verbatim>\<open>/^Program ([1-9A-HJ-NP-Za-km-z]{32,44}) invoke \[\d+\]$/\<close>.\<close>

definition base58_char :: "char \<Rightarrow> bool" where
  "base58_char c \<longleftrightarrow> (CHR ''1'' \<le> c \<and> c \<le> CHR ''9'') \<or> (CHR ''A'' \<le> c \<and> c \<le> CHR ''H'') \<or>
     (CHR ''J'' \<le> c \<and> c \<le> CHR ''N'') \<or> (CHR ''P'' \<le> c \<and> c \<le> CHR ''Z'') \<or>
     (CHR ''a'' \<le> c \<and> c \<le> CHR ''k'') \<or> (CHR ''m'' \<le> c \<and> c \<le> CHR ''z'')"

definition digit :: "char \<Rightarrow> bool" where
  "digit c \<longleftrightarrow> CHR ''0'' \<le> c \<and> c \<le> CHR ''9''"

definition INVOKE_RE :: "string \<Rightarrow> string option" where
  "INVOKE_RE line =
     (if take 8 line \<noteq> ''Program '' then None else
      let key = takeWhile base58_char (drop 8 line); rest = dropWhile base58_char (drop 8 line);
          num = takeWhile digit (drop 9 rest)
      in if 32 \<le> length key \<and> length key \<le> 44 \<and> take 9 rest = '' invoke ['' \<and> num \<noteq> [] \<and>
            dropWhile digit (drop 9 rest) = '']'' then Some key else None)"

definition programIdsFromLogs :: "string list \<Rightarrow> string list" where
  "programIdsFromLogs logs = set_of (List.map_filter INVOKE_RE logs)"

text \<open>A delivered item before its shape is known.\<close>

datatype json = JNull | JBool bool | JNumber jsnum | JString string | JArray "json list" | JObject "(string \<times> json) list"

fun jget :: "json \<Rightarrow> string \<Rightarrow> json option" where
  "jget (JObject members) k = map_of members k"
| "jget _ k = None"

fun is_object :: "json \<Rightarrow> bool" where
  "is_object (JObject _) = True"
| "is_object (JArray _) = True"
| "is_object _ = False"

fun is_jstring :: "json option \<Rightarrow> bool" where
  "is_jstring (Some (JString _)) = True"
| "is_jstring _ = False"

definition isHeliusEnhanced :: "json \<Rightarrow> bool" where
  "isHeliusEnhanced x \<longleftrightarrow> is_object x \<and> is_jstring (jget x ''signature'') \<and> jget x ''transaction'' = None"

definition isRawRpc :: "json \<Rightarrow> bool" where
  "isRawRpc x \<longleftrightarrow> is_object x \<and> jget x ''transaction'' \<noteq> None \<and> jget x ''meta'' \<noteq> None \<and>
     (case Option.bind (Option.bind (jget x ''transaction'') (\<lambda>t. jget t ''message'')) (\<lambda>m. jget m ''accountKeys'') of
        Some (JArray keys) \<Rightarrow> keys = [] \<or> is_jstring (Some (hd keys))
      | _ \<Rightarrow> False)"

section \<open>Token balance changes\<close>

definition signed_digits :: "string \<Rightarrow> bool" where
  "signed_digits s \<longleftrightarrow> (let ds = (if take 1 s = ''-'' then drop 1 s else s) in ds \<noteq> [] \<and> list_all digit ds)"

definition parseSignedBigInt :: "string option \<Rightarrow> int option" where
  "parseSignedBigInt s = (case s of None \<Rightarrow> None
     | Some t \<Rightarrow> if signed_digits (js_trim t) then parse_bigint (js_trim t) else None)"

type_synonym delta_map = "(string, TokenDelta) jsmap"

definition delta_key :: "TokenDelta \<Rightarrow> string" where
  "delta_key d = td_tokenAccount d @ '':'' @ td_mint d"

definition addDelta :: "delta_map \<Rightarrow> TokenDelta \<Rightarrow> delta_map" where
  "addDelta m d = (case map_of m (delta_key d) of
     Some prev \<Rightarrow> AList.update (delta_key d) (prev\<lparr>td_delta := td_delta prev + td_delta d,
       td_owner := (if td_owner prev = [] \<and> td_owner d \<noteq> [] then td_owner d else td_owner prev)\<rparr>) m
   | None \<Rightarrow> AList.update (delta_key d) d m)"

text \<open>An entry of \<open>diffTokenBalances\<close>: what one account held before and after.\<close>

record BalanceEntry =
  be_mint :: string
  be_owner :: string
  be_decimals :: int
  be_pre :: int
  be_post :: int

definition touch :: "(nat, BalanceEntry) jsmap \<Rightarrow> RpcTokenBalance \<Rightarrow> BalanceEntry" where
  "touch byIndex b =
     (let e = (case map_of byIndex (tb_accountIndex b) of Some e \<Rightarrow> e
        | None \<Rightarrow> \<lparr>be_mint = tb_mint b, be_owner = or_empty (tb_owner b), be_decimals = tb_decimals b, be_pre = 0, be_post = 0\<rparr>)
      in if be_owner e = [] \<and> or_empty (tb_owner b) \<noteq> [] then e\<lparr>be_owner := or_empty (tb_owner b)\<rparr> else e)"

fun touch_pre :: "(nat, BalanceEntry) jsmap \<Rightarrow> RpcTokenBalance list \<Rightarrow> string + (nat, BalanceEntry) jsmap" where
  "touch_pre m [] = Inr m"
| "touch_pre m (b # bs) = sbind (some_or (parse_bigint (tb_amount b)) ''SyntaxError'') (\<lambda>n.
     touch_pre (AList.update (tb_accountIndex b) ((touch m b)\<lparr>be_pre := n\<rparr>) m) bs)"

fun touch_post :: "(nat, BalanceEntry) jsmap \<Rightarrow> RpcTokenBalance list \<Rightarrow> string + (nat, BalanceEntry) jsmap" where
  "touch_post m [] = Inr m"
| "touch_post m (b # bs) = sbind (some_or (parse_bigint (tb_amount b)) ''SyntaxError'') (\<lambda>n.
     touch_post (AList.update (tb_accountIndex b) ((touch m b)\<lparr>be_post := n\<rparr>) m) bs)"

definition key_at :: "string list \<Rightarrow> nat \<Rightarrow> string" where
  "key_at keys i = (if i < length keys then keys ! i else ''#'' @ int_text (int i))"

definition entry_delta :: "string list \<Rightarrow> nat \<times> BalanceEntry \<Rightarrow> TokenDelta option" where
  "entry_delta keys p = (case p of (index, e) \<Rightarrow> let delta = be_post e - be_pre e in
     if delta = 0 then None else Some \<lparr>td_tokenAccount = key_at keys index, td_owner = be_owner e,
       td_mint = be_mint e, td_delta = delta, td_decimals = be_decimals e\<rparr>)"

definition diffTokenBalances :: "string list \<Rightarrow> RpcTokenBalance list \<Rightarrow> RpcTokenBalance list \<Rightarrow> string + TokenDelta list" where
  "diffTokenBalances keys pre post = sbind (touch_pre [] pre) (\<lambda>m. sbind (touch_post m post) (\<lambda>m'.
     Inr (List.map_filter (entry_delta keys) m')))"

section \<open>Normalization\<close>

fun walk :: "string list \<Rightarrow> HeliusInstruction list \<Rightarrow> string list" where
  "walk ids [] = ids"
| "walk ids (HeliusIx p inner # ixs) = walk (walk (set_add ids p) inner) ixs"

definition add_change :: "delta_map \<Rightarrow> HeliusTokenBalanceChange \<Rightarrow> delta_map" where
  "add_change m ch = (case parseSignedBigInt (Option.bind (hb_rawTokenAmount ch) ra_tokenAmount) of
     None \<Rightarrow> m
   | Some raw \<Rightarrow> if raw = 0 then m else addDelta m \<lparr>td_tokenAccount = hb_tokenAccount ch, td_owner = hb_userAccount ch,
       td_mint = hb_mint ch, td_delta = raw, td_decimals = ra_decimals (the (hb_rawTokenAmount ch))\<rparr>)"

definition add_side :: "string option \<Rightarrow> string option \<Rightarrow> string \<Rightarrow> int \<Rightarrow> int \<Rightarrow> delta_map \<Rightarrow> delta_map" where
  "add_side account owner mint delta decimals m = (if or_empty account = [] then m else
     addDelta m \<lparr>td_tokenAccount = or_empty account, td_owner = or_empty owner, td_mint = mint, td_delta = delta, td_decimals = decimals\<rparr>)"

fun add_transfers :: "delta_map \<Rightarrow> HeliusTokenTransfer list \<Rightarrow> string + delta_map" where
  "add_transfers m [] = Inr m"
| "add_transfers m (t # ts) =
     (let decimals = (case ht_decimals t of None \<Rightarrow> 6 | Some d \<Rightarrow> d) in
      sbind (some_or (bigint_of_num (jround (ht_tokenAmount t * mk_num (10 powi decimals)))) ''RangeError'') (\<lambda>raw.
      add_transfers (if raw = 0 then m else
        add_side (ht_toTokenAccount t) (ht_toUserAccount t) (ht_mint t) raw decimals
          (add_side (ht_fromTokenAccount t) (ht_fromUserAccount t) (ht_mint t) (- raw) decimals m)) ts))"

definition fromHeliusEnhanced :: "int \<Rightarrow> HeliusEnhancedTx \<Rightarrow> string + NormalizedTx" where
  "fromHeliusEnhanced now tx =
     (let changes = foldl add_change [] (concat (map ha_tokenBalanceChanges (he_accountData tx))) in
      sbind (if changes = [] then add_transfers changes (he_tokenTransfers tx) else Inr changes) (\<lambda>deltas.
      Inr \<lparr>nt_signature = he_signature tx, nt_slot = he_slot tx,
        nt_blockTime = (if he_timestamp tx = 0 then now else he_timestamp tx),
        nt_feePayer = or_empty (he_feePayer tx), nt_failed = (he_transactionError tx \<noteq> None),
        nt_programIds = walk [] (he_instructions tx), nt_logs = None, nt_tokenDeltas = map snd deltas\<rparr>))"

text \<open>An index outside the keys names no program; an absent \<open>meta\<close> has no fields.\<close>

definition add_key :: "string list \<Rightarrow> string list \<Rightarrow> nat \<Rightarrow> string list" where
  "add_key keys ids i = (if i < length keys \<and> keys ! i \<noteq> [] then set_add ids (keys ! i) else ids)"

definition no_raw_meta :: RawMeta where
  "no_raw_meta = \<lparr>rm_err = None, rm_logMessages = None, rm_preTokenBalances = [], rm_postTokenBalances = [],
     rm_innerInstructions = [], rm_writable = [], rm_readonly = []\<rparr>"

definition ids_of_logs :: "string list option \<Rightarrow> string list" where
  "ids_of_logs logs = (case logs of None \<Rightarrow> [] | Some ls \<Rightarrow> programIdsFromLogs ls)"

definition fromRawRpc :: "int \<Rightarrow> RawRpcTx \<Rightarrow> string + NormalizedTx" where
  "fromRawRpc now tx =
     (let meta = (case rt_meta tx of None \<Rightarrow> no_raw_meta | Some m \<Rightarrow> m);
          keys = rt_accountKeys tx @ rm_writable meta @ rm_readonly meta;
          programIds = foldl (add_key keys) (foldl (add_key keys) (ids_of_logs (rm_logMessages meta)) (rt_instructions tx))
            (concat (rm_innerInstructions meta))
      in sbind (diffTokenBalances keys (rm_preTokenBalances meta) (rm_postTokenBalances meta)) (\<lambda>deltas.
      Inr \<lparr>nt_signature = (if rt_signatures tx = [] then [] else hd (rt_signatures tx)), nt_slot = rt_slot tx,
        nt_blockTime = (case rt_blockTime tx of None \<Rightarrow> now | Some t \<Rightarrow> t),
        nt_feePayer = (if keys = [] then [] else hd keys), nt_failed = (rm_err meta \<noteq> None),
        nt_programIds = programIds, nt_logs = rm_logMessages meta, nt_tokenDeltas = deltas\<rparr>))"

definition no_parsed_meta :: ParsedMeta where
  "no_parsed_meta = \<lparr>pm_err = None, pm_logMessages = None, pm_preTokenBalances = [], pm_postTokenBalances = [], pm_innerInstructions = []\<rparr>"

definition fromParsedRpc :: "int \<Rightarrow> ParsedRpcTx \<Rightarrow> string + NormalizedTx" where
  "fromParsedRpc now tx =
     (let meta = (case pt_meta tx of None \<Rightarrow> no_parsed_meta | Some m \<Rightarrow> m);
          keys = map keyStr (pt_accountKeys tx);
          programIds = foldl set_add (foldl set_add (ids_of_logs (pm_logMessages meta)) (map keyStr (pt_instructions tx)))
            (map keyStr (concat (pm_innerInstructions meta)))
      in sbind (diffTokenBalances keys (pm_preTokenBalances meta) (pm_postTokenBalances meta)) (\<lambda>deltas.
      Inr \<lparr>nt_signature = (if pt_signatures tx = [] then [] else hd (pt_signatures tx)), nt_slot = pt_slot tx,
        nt_blockTime = (case pt_blockTime tx of None \<Rightarrow> now | Some t \<Rightarrow> t),
        nt_feePayer = (if keys = [] then [] else hd keys), nt_failed = (pm_err meta \<noteq> None),
        nt_programIds = programIds, nt_logs = pm_logMessages meta, nt_tokenDeltas = deltas\<rparr>))"

section \<open>Swaps\<close>

record PoolRef =
  pf_dbcPool :: string
  pf_baseMint :: string
  pf_quoteMint :: string
  pf_baseVault :: "string option"
  pf_quoteVault :: "string option"
  pf_dammPool :: "string option"
  pf_dammBaseVault :: "string option"
  pf_dammQuoteVault :: "string option"

datatype Venue = Dbc | Damm

record DecodedSwap =
  ds_pool :: string
  ds_venue :: Venue
  ds_side :: int
  ds_base :: int
  ds_quote :: int
  ds_trader :: string

record DecodedBalanceDelta =
  dd_pool :: string
  dd_wallet :: string
  dd_delta :: int

definition sumFor :: "TokenDelta list \<Rightarrow> string option \<Rightarrow> int" where
  "sumFor deltas account = (if or_empty account = [] then 0
     else sum_list (map td_delta (filter (\<lambda>d. td_tokenAccount d = or_empty account) deltas)))"

definition pool_vaults :: "PoolRef \<Rightarrow> string list" where
  "pool_vaults pool = filter (\<lambda>v. v \<noteq> []) (map or_empty [pf_baseVault pool, pf_dammBaseVault pool])"

definition counts :: "PoolRef \<Rightarrow> TokenDelta \<Rightarrow> bool" where
  "counts pool d \<longleftrightarrow> td_mint d = pf_baseMint pool \<and> td_tokenAccount d \<notin> set (pool_vaults pool) \<and> td_owner d \<noteq> []"

definition add_owner :: "(string, int) jsmap \<Rightarrow> TokenDelta \<Rightarrow> (string, int) jsmap" where
  "add_owner m d = AList.update (td_owner d) ((case map_of m (td_owner d) of None \<Rightarrow> 0 | Some v \<Rightarrow> v) + td_delta d) m"

definition ownerBaseDeltas :: "NormalizedTx \<Rightarrow> PoolRef \<Rightarrow> (string, int) jsmap" where
  "ownerBaseDeltas tx pool = filter (\<lambda>p. snd p \<noteq> 0) (foldl add_owner [] (filter (counts pool) (nt_tokenDeltas tx)))"

definition better :: "int \<Rightarrow> (string \<times> int) option \<Rightarrow> string \<times> int \<Rightarrow> (string \<times> int) option" where
  "better side best p = (case p of (owner, d) \<Rightarrow>
     if (side = 0 \<and> d \<le> 0) \<or> (side = 1 \<and> d \<ge> 0) then best
     else if \<bar>d\<bar> > (case best of None \<Rightarrow> 0 | Some b \<Rightarrow> snd b) then Some (owner, \<bar>d\<bar>) else best)"

definition pickTrader :: "(string, int) jsmap \<Rightarrow> int \<Rightarrow> string \<Rightarrow> string" where
  "pickTrader owners side feePayer = (case foldl (better side) None owners of None \<Rightarrow> feePayer | Some b \<Rightarrow> fst b)"

record Classified =
  cl_side :: int
  cl_base :: int
  cl_quote :: int

definition classify :: "int \<Rightarrow> int \<Rightarrow> Classified option" where
  "classify baseD quoteD =
     (if baseD < 0 \<and> quoteD > 0 then Some \<lparr>cl_side = 0, cl_base = - baseD, cl_quote = quoteD\<rparr>
      else if baseD > 0 \<and> quoteD < 0 then Some \<lparr>cl_side = 1, cl_base = baseD, cl_quote = - quoteD\<rparr> else None)"

definition swap_of :: "NormalizedTx \<Rightarrow> PoolRef \<Rightarrow> Venue \<Rightarrow> Classified \<Rightarrow> DecodedSwap" where
  "swap_of tx pool venue c = \<lparr>ds_pool = pf_dbcPool pool, ds_venue = venue, ds_side = cl_side c, ds_base = cl_base c,
     ds_quote = cl_quote c, ds_trader = pickTrader (ownerBaseDeltas tx pool) (cl_side c) (nt_feePayer tx)\<rparr>"

text \<open>The curve, with the first buy in the transaction that seeds the vault.\<close>

definition dbc_swap :: "NormalizedTx \<Rightarrow> PoolRef \<Rightarrow> DecodedSwap list" where
  "dbc_swap tx pool =
     (let dbcBase = sumFor (nt_tokenDeltas tx) (pf_baseVault pool); dbcQuote = sumFor (nt_tokenDeltas tx) (pf_quoteVault pool);
          received = sum_list (filter (\<lambda>d. d > 0) (map snd (ownerBaseDeltas tx pool)));
          c = (case classify dbcBase dbcQuote of Some c \<Rightarrow> Some c
            | None \<Rightarrow> if dbcBase > 0 \<and> dbcQuote > 0 \<and> received > 0
                then Some \<lparr>cl_side = 0, cl_base = received, cl_quote = dbcQuote\<rparr> else None)
      in case c of None \<Rightarrow> [] | Some x \<Rightarrow> [swap_of tx pool Dbc x])"

definition damm_swap :: "NormalizedTx \<Rightarrow> PoolRef \<Rightarrow> DecodedSwap list" where
  "damm_swap tx pool =
     (if or_empty (pf_dammBaseVault pool) = [] \<or> or_empty (pf_dammQuoteVault pool) = [] then [] else
      case classify (sumFor (nt_tokenDeltas tx) (pf_dammBaseVault pool)) (sumFor (nt_tokenDeltas tx) (pf_dammQuoteVault pool)) of
        None \<Rightarrow> [] | Some x \<Rightarrow> [swap_of tx pool Damm x])"

definition decodeSwaps :: "NormalizedTx \<Rightarrow> PoolRef list \<Rightarrow> DecodedSwap list" where
  "decodeSwaps tx pools = (if nt_failed tx then [] else concat (map (\<lambda>pool. dbc_swap tx pool @ damm_swap tx pool) pools))"

definition decodeBalanceDeltas :: "NormalizedTx \<Rightarrow> PoolRef list \<Rightarrow> DecodedBalanceDelta list" where
  "decodeBalanceDeltas tx pools = (if nt_failed tx then [] else
     concat (map (\<lambda>pool. map (\<lambda>(wallet, delta). \<lparr>dd_pool = pf_dbcPool pool, dd_wallet = wallet, dd_delta = delta\<rparr>)
       (ownerBaseDeltas tx pool)) pools))"

definition touchedMints :: "NormalizedTx \<Rightarrow> string list" where
  "touchedMints tx = set_of (map td_mint (nt_tokenDeltas tx))"


section \<open>Balances before and after\<close>

text \<open>What a list of token balances says a wallet holds of the pool's memecoin outside the vaults.\<close>

definition balance_amount :: "RpcTokenBalance \<Rightarrow> int" where
  "balance_amount b = (case parse_bigint (tb_amount b) of None \<Rightarrow> 0 | Some n \<Rightarrow> n)"

definition held :: "string list \<Rightarrow> PoolRef \<Rightarrow> RpcTokenBalance list \<Rightarrow> string \<Rightarrow> int" where
  "held keys pool bs w = sum_list (map balance_amount (filter (\<lambda>b. tb_mint b = pf_baseMint pool \<and>
     key_at keys (tb_accountIndex b) \<notin> set (pool_vaults pool) \<and> or_empty (tb_owner b) = w) bs))"

definition credited :: "DecodedBalanceDelta list \<Rightarrow> string \<Rightarrow> int" where
  "credited ds w = sum_list (map dd_delta (filter (\<lambda>d. dd_wallet d = w) ds))"

definition pre_entry :: "RpcTokenBalance \<Rightarrow> nat \<times> BalanceEntry" where
  "pre_entry b = (tb_accountIndex b, \<lparr>be_mint = tb_mint b, be_owner = or_empty (tb_owner b), be_decimals = tb_decimals b,
     be_pre = balance_amount b, be_post = 0\<rparr>)"

lemma distinct_Cons_neq: "distinct (map f (x # xs)) \<Longrightarrow> y \<in> set xs \<Longrightarrow> f y \<noteq> f x"
  by (simp, metis image_eqI)

lemma touch_pre_run:
  assumes "touch_pre m bs = Inr m'" "distinct (map tb_accountIndex bs)" "\<forall>b \<in> set bs. tb_accountIndex b \<notin> fst ` set m"
  shows "m' = m @ map pre_entry bs"
  using assms
proof (induction bs arbitrary: m)
  case (Cons b bs)
  obtain n where n: "parse_bigint (tb_amount b) = Some n"
    and rest: "touch_pre (AList.update (tb_accountIndex b) ((touch m b)\<lparr>be_pre := n\<rparr>) m) bs = Inr m'"
    using Cons.prems(1) by (auto simp: result_simps)
  have fresh: "map_of m (tb_accountIndex b) = None" using Cons.prems(3) by (simp add: map_of_eq_None_iff)
  have "AList.update (tb_accountIndex b) ((touch m b)\<lparr>be_pre := n\<rparr>) m = m @ [pre_entry b]"
    using Cons.prems(3) by (simp add: update_fresh touch_def fresh pre_entry_def balance_amount_def n)
  then have "m' = (m @ [pre_entry b]) @ map pre_entry bs"
  proof (intro Cons.IH)
    show "\<forall>b' \<in> set bs. tb_accountIndex b' \<notin> fst ` set (m @ [pre_entry b])"
      using Cons.prems(3) distinct_Cons_neq [OF Cons.prems(2)] by (simp add: pre_entry_def)
  qed (use rest Cons.prems(2) in simp_all)
  then show ?case by simp
qed simp

lemma sum_update_pair:
  assumes "map_of m k = Some v0"
  shows "sum_list (map g (AList.update k v m)) = sum_list (map g m) - g (k, v0) + (g (k, v) :: int)"
  using assms by (induction m) (auto split: if_splits)

text \<open>The sum over the entries a condition on index, mint and owner selects.\<close>

definition weigh :: "(nat \<Rightarrow> string \<Rightarrow> string \<Rightarrow> bool) \<Rightarrow> nat \<times> BalanceEntry \<Rightarrow> int" where
  "weigh C p = (if C (fst p) (be_mint (snd p)) (be_owner (snd p)) then be_post (snd p) - be_pre (snd p) else 0)"

definition sum_where :: "(nat \<Rightarrow> string \<Rightarrow> string \<Rightarrow> bool) \<Rightarrow> RpcTokenBalance list \<Rightarrow> int" where
  "sum_where C bs = sum_list (map (\<lambda>b. if C (tb_accountIndex b) (tb_mint b) (or_empty (tb_owner b)) then balance_amount b else 0) bs)"

lemma weigh_pre: "sum_list (map (weigh C) (map pre_entry bs)) = - sum_where C bs"
  by (induction bs) (simp_all add: weigh_def pre_entry_def sum_where_def)

lemma touch_post_weigh:
  assumes "touch_post m bs = Inr m'" "distinct (map tb_accountIndex bs)"
    and "\<And>b e. b \<in> set bs \<Longrightarrow> map_of m (tb_accountIndex b) = Some e \<Longrightarrow> be_mint e = tb_mint b \<and> be_owner e = or_empty (tb_owner b) \<and> be_post e = 0"
  shows "sum_list (map (weigh C) m') = sum_list (map (weigh C) m) + sum_where C bs"
  using assms
proof (induction bs arbitrary: m)
  case Nil
  then show ?case by (simp add: sum_where_def)
next
  case (Cons b bs)
  let ?i = "tb_accountIndex b"
  obtain n where n: "parse_bigint (tb_amount b) = Some n"
    and rest: "touch_post (AList.update ?i ((touch m b)\<lparr>be_post := n\<rparr>) m) bs = Inr m'"
    using Cons.prems(1) by (auto simp: result_simps)
  let ?m = "AList.update ?i ((touch m b)\<lparr>be_post := n\<rparr>) m"
  have other: "map_of ?m (tb_accountIndex b') = map_of m (tb_accountIndex b')" if "b' \<in> set bs" for b'
    using distinct_Cons_neq [OF Cons.prems(2) that] by (simp add: update_conv')
  have ih: "sum_list (map (weigh C) m') = sum_list (map (weigh C) ?m) + sum_where C bs"
  proof (rule Cons.IH [OF rest])
    show "distinct (map tb_accountIndex bs)" using Cons.prems(2) by simp
    show "be_mint e = tb_mint b' \<and> be_owner e = or_empty (tb_owner b') \<and> be_post e = 0"
      if "b' \<in> set bs" "map_of ?m (tb_accountIndex b') = Some e" for b' e
      using Cons.prems(3) [of b' e] that other [OF that(1)] by simp
  qed
  have "sum_list (map (weigh C) ?m) = sum_list (map (weigh C) m) + (if C ?i (tb_mint b) (or_empty (tb_owner b)) then n else 0)"
  proof (cases "map_of m ?i")
    case None
    then have "?i \<notin> fst ` set m" by (simp add: map_of_eq_None_iff)
    then show ?thesis by (simp add: update_fresh weigh_def touch_def None)
  next
    case (Some e)
    have e: "be_mint e = tb_mint b" "be_owner e = or_empty (tb_owner b)" "be_post e = 0"
      using Cons.prems(3) [of b e] Some by simp_all
    show ?thesis unfolding sum_update_pair [OF Some] using e by (simp add: weigh_def touch_def Some)
  qed
  then show ?case using ih n by (simp add: sum_where_def balance_amount_def)
qed

lemma diff_sum:
  assumes "diffTokenBalances keys pre post = Inr deltas"
    and "distinct (map tb_accountIndex pre)" "distinct (map tb_accountIndex post)"
    and "\<And>a b. a \<in> set pre \<Longrightarrow> b \<in> set post \<Longrightarrow> tb_accountIndex a = tb_accountIndex b \<Longrightarrow> tb_mint a = tb_mint b \<and> tb_owner a = tb_owner b"
  shows "sum_list (map td_delta (filter (\<lambda>d. P (td_tokenAccount d) (td_mint d) (td_owner d)) deltas)) =
    sum_where (\<lambda>i. P (key_at keys i)) post - sum_where (\<lambda>i. P (key_at keys i)) pre"
proof -
  obtain m m' where m: "touch_pre [] pre = Inr m" "touch_post m post = Inr m'" and d: "deltas = List.map_filter (entry_delta keys) m'"
    using assms(1) by (auto simp: diffTokenBalances_def result_simps)
  have mp: "m = map pre_entry pre" using touch_pre_run [OF m(1) assms(2)] by simp
  have out: "sum_list (map td_delta (filter (\<lambda>d. P (td_tokenAccount d) (td_mint d) (td_owner d)) (List.map_filter (entry_delta keys) es))) =
      sum_list (map (weigh (\<lambda>i. P (key_at keys i))) es)" for es
    by (induction es) (auto simp: List.map_filter_simps entry_delta_def weigh_def Let_def)
  have "sum_list (map (weigh (\<lambda>i. P (key_at keys i))) m') = sum_list (map (weigh (\<lambda>i. P (key_at keys i))) m) + sum_where (\<lambda>i. P (key_at keys i)) post"
  proof (rule touch_post_weigh [OF m(2) assms(3)])
    fix b e
    assume b: "b \<in> set post" and e: "map_of m (tb_accountIndex b) = Some e"
    from e have "(tb_accountIndex b, e) \<in> pre_entry ` set pre" unfolding mp by (auto dest: map_of_SomeD)
    then obtain a where "a \<in> set pre" "pre_entry a = (tb_accountIndex b, e)" by (elim imageE) simp
    then show "be_mint e = tb_mint b \<and> be_owner e = or_empty (tb_owner b) \<and> be_post e = 0"
      using assms(4) [of a b] b by (auto simp: pre_entry_def)
  qed
  then show ?thesis unfolding d out by (simp add: mp weigh_pre del: map_map)
qed

text \<open>Summing by owner.\<close>

lemma owner_sums:
  "(case map_of (foldl add_owner m ds) w of None \<Rightarrow> 0 | Some v \<Rightarrow> v) =
     (case map_of m w of None \<Rightarrow> 0 | Some v \<Rightarrow> v) + sum_list (map td_delta (filter (\<lambda>d. td_owner d = w) ds))"
  by (induction ds arbitrary: m) (auto simp: add_owner_def update_conv' split: option.splits)

lemma owner_wf: "jsmap_wf m \<Longrightarrow> jsmap_wf (foldl add_owner m ds)"
  by (induction ds arbitrary: m) (simp_all add: add_owner_def distinct_update)

lemma sum_key: "jsmap_wf m \<Longrightarrow> sum_list (map snd (filter (\<lambda>p. fst p = w) m)) = (case map_of m w of None \<Rightarrow> 0 | Some v \<Rightarrow> (v :: int))"
proof (induction m)
  case (Cons p m)
  show ?case
  proof (cases "fst p = w")
    case True
    then have "filter (\<lambda>q. fst q = w) m = []" using Cons.prems by (auto simp: filter_empty_conv image_iff)
    then show ?thesis using True by (cases p) simp
  qed (use Cons in \<open>cases p, simp\<close>)
qed simp

lemma sum_drop_zero: "sum_list (map snd (filter (\<lambda>p. fst p = w \<and> snd p \<noteq> 0) m)) = sum_list (map snd (filter (\<lambda>p. fst p = w) (m :: (string \<times> int) list)))"
  by (induction m) auto

lemma credited_pool:
  "\<not> nt_failed tx \<Longrightarrow> credited (decodeBalanceDeltas tx [pool]) w =
     sum_list (map td_delta (filter (\<lambda>d. counts pool d \<and> td_owner d = w) (nt_tokenDeltas tx)))"
proof -
  let ?ds = "filter (counts pool) (nt_tokenDeltas tx)"
  assume "\<not> nt_failed tx"
  then have "credited (decodeBalanceDeltas tx [pool]) w = sum_list (map snd (filter (\<lambda>p. fst p = w) (ownerBaseDeltas tx pool)))"
    by (simp add: credited_def decodeBalanceDeltas_def filter_map o_def case_prod_beta)
  also have "\<dots> = sum_list (map snd (filter (\<lambda>p. fst p = w) (foldl add_owner [] ?ds)))"
    using sum_drop_zero [of w "foldl add_owner [] ?ds"] by (simp add: ownerBaseDeltas_def conj_commute)
  also have "\<dots> = sum_list (map td_delta (filter (\<lambda>d. td_owner d = w) ?ds))"
    using owner_sums [of "[]" ?ds w] by (simp add: sum_key owner_wf)
  finally show ?thesis by (simp add: conj_commute)
qed


definition key_list :: "string list" where
  "key_list = [''alice'', ''vault'', ''bob'']"

definition balance_at :: "nat \<Rightarrow> string \<Rightarrow> string \<Rightarrow> RpcTokenBalance" where
  "balance_at i owner amount = \<lparr>tb_accountIndex = i, tb_mint = ''M'', tb_owner = Some owner, tb_amount = amount, tb_decimals = 6\<rparr>"

definition small_pool :: PoolRef where
  "small_pool = \<lparr>pf_dbcPool = ''P'', pf_baseMint = ''M'', pf_quoteMint = ''Q'', pf_baseVault = Some ''vault'', pf_quoteVault = Some ''qvault'',
     pf_dammPool = None, pf_dammBaseVault = None, pf_dammQuoteVault = None\<rparr>"

definition small_pre :: "RpcTokenBalance list" where
  "small_pre = [balance_at 0 ''A'' ''100'', balance_at 1 ''pool'' ''900'']"

definition small_post :: "RpcTokenBalance list" where
  "small_post = [balance_at 0 ''A'' ''70'', balance_at 1 ''pool'' ''880'', balance_at 2 ''B'' ''50'']"

definition small_tx :: NormalizedTx where
  "small_tx = \<lparr>nt_signature = ''s'', nt_slot = 1, nt_blockTime = 10, nt_feePayer = ''B'', nt_failed = False, nt_programIds = [], nt_logs = None,
     nt_tokenDeltas = [\<lparr>td_tokenAccount = ''alice'', td_owner = ''A'', td_mint = ''M'', td_delta = - 30, td_decimals = 6\<rparr>,
       \<lparr>td_tokenAccount = ''vault'', td_owner = ''pool'', td_mint = ''M'', td_delta = - 20, td_decimals = 6\<rparr>,
       \<lparr>td_tokenAccount = ''qvault'', td_owner = ''pool'', td_mint = ''Q'', td_delta = 7, td_decimals = 6\<rparr>,
       \<lparr>td_tokenAccount = ''bob'', td_owner = ''B'', td_mint = ''M'', td_delta = 50, td_decimals = 6\<rparr>]\<rparr>"

definition small_quote :: "string \<Rightarrow> RpcTokenBalance" where
  "small_quote amount = \<lparr>tb_accountIndex = 3, tb_mint = ''Q'', tb_owner = Some ''pool'', tb_amount = amount, tb_decimals = 6\<rparr>"


section \<open>Swaps and holders\<close>

lemma sum_owners: "sum_list (map snd (foldl add_owner m ds)) = sum_list (map snd m) + sum_list (map td_delta ds)"
proof (induction ds arbitrary: m)
  case (Cons d ds)
  have "sum_list (map snd (add_owner m d)) = sum_list (map snd m) + td_delta d"
  proof (cases "map_of m (td_owner d)")
    case None
    then have "td_owner d \<notin> fst ` set m" by (simp add: map_of_eq_None_iff)
    then show ?thesis by (simp add: add_owner_def None update_fresh)
  next
    case (Some v)
    then show ?thesis using sum_list_update_some [OF Some, of "\<lambda>x. x" "v + td_delta d"] by (simp add: add_owner_def o_def)
  qed
  then show ?case using Cons by simp
qed simp

lemma sum_nonzero: "sum_list (map snd (filter (\<lambda>p. snd p \<noteq> 0) m)) = sum_list (map snd (m :: (string \<times> int) list))"
  by (induction m) auto

lemma sum_all_deltas:
  "\<not> nt_failed tx \<Longrightarrow> sum_list (map dd_delta (decodeBalanceDeltas tx [pool])) = sum_list (map td_delta (filter (counts pool) (nt_tokenDeltas tx)))"
  by (simp add: decodeBalanceDeltas_def o_def case_prod_beta ownerBaseDeltas_def sum_nonzero sum_owners)

text \<open>
  A swap on the curve and the balance changes written beside it agree.  When a transaction neither
  mints nor burns the memecoin, the swap's amount is what the holders outside the vault gained, or gave
  up on a sale; both its amounts are positive.
\<close>

theorem swap_matches_holders:
  assumes "s \<in> set (decodeSwaps tx [pool])" "ds_venue s = Dbc"
    and vault: "pf_baseVault pool = Some v" "v \<noteq> []" "or_empty (pf_dammBaseVault pool) = []"
    and mint: "\<And>d. d \<in> set (nt_tokenDeltas tx) \<Longrightarrow> td_tokenAccount d = v \<Longrightarrow> td_mint d = pf_baseMint pool"
    and owned: "\<And>d. d \<in> set (nt_tokenDeltas tx) \<Longrightarrow> td_mint d = pf_baseMint pool \<Longrightarrow> td_owner d \<noteq> []"
    and closed_tx: "sum_list (map td_delta (filter (\<lambda>d. td_mint d = pf_baseMint pool) (nt_tokenDeltas tx))) = 0"
    and traded: "sumFor (nt_tokenDeltas tx) (pf_baseVault pool) < 0 \<or> sumFor (nt_tokenDeltas tx) (pf_quoteVault pool) < 0"
  shows "sum_list (map dd_delta (decodeBalanceDeltas tx [pool])) = (if ds_side s = 0 then ds_base s else - ds_base s) \<and>
    0 < ds_base s \<and> 0 < ds_quote s"
proof -
  let ?ds = "nt_tokenDeltas tx"
  let ?b = "filter (\<lambda>d. td_mint d = pf_baseMint pool) ?ds"
  have nf: "\<not> nt_failed tx" using assms(1) by (auto simp: decodeSwaps_def split: if_splits)
  have "filter (counts pool) ?ds = filter (\<lambda>d. td_tokenAccount d \<noteq> v) ?b"
    unfolding filter_filter using vault owned by (intro filter_cong) (auto simp: counts_def pool_vaults_def or_empty_def)
  moreover have "filter (\<lambda>d. td_tokenAccount d = v) ?ds = filter (\<lambda>d. td_tokenAccount d = v) ?b"
    unfolding filter_filter using mint by (intro filter_cong) auto
  then have "sumFor ?ds (pf_baseVault pool) = sum_list (map td_delta (filter (\<lambda>d. td_tokenAccount d = v) ?b))"
    using vault by (simp only: sumFor_def or_empty_def option.case) simp
  ultimately have holders: "sum_list (map dd_delta (decodeBalanceDeltas tx [pool])) = - sumFor ?ds (pf_baseVault pool)"
    using sum_list_partition [of td_delta "\<lambda>d. td_tokenAccount d = v" ?b] closed_tx by (simp add: sum_all_deltas [OF nf])
  have "s \<in> set (dbc_swap tx pool)" using assms(1,2) nf
    by (auto simp: decodeSwaps_def damm_swap_def swap_of_def split: if_splits option.splits)
  then obtain c where c: "classify (sumFor ?ds (pf_baseVault pool)) (sumFor ?ds (pf_quoteVault pool)) = Some c" and s: "s = swap_of tx pool Dbc c"
    using traded by (auto simp: dbc_swap_def Let_def split: option.splits if_splits)
  show ?thesis unfolding holders s using c by (auto simp: classify_def swap_of_def split: if_splits)
qed

theorem swap_matches_holders_witness:
  "sum_list (map dd_delta (decodeBalanceDeltas small_tx [small_pool])) = ds_base (hd (decodeSwaps small_tx [small_pool])) \<and>
    0 < ds_base (hd (decodeSwaps small_tx [small_pool]))"
proof -
  have d: "decodeSwaps small_tx [small_pool] = [\<lparr>ds_pool = ''P'', ds_venue = Dbc, ds_side = 0, ds_base = 20, ds_quote = 7, ds_trader = ''B''\<rparr>]"
    by code_simp
  let ?s = "\<lparr>ds_pool = ''P'', ds_venue = Dbc, ds_side = 0, ds_base = 20, ds_quote = 7, ds_trader = ''B''\<rparr>"
  have "sum_list (map dd_delta (decodeBalanceDeltas small_tx [small_pool])) = (if ds_side ?s = 0 then ds_base ?s else - ds_base ?s) \<and>
      0 < ds_base ?s \<and> 0 < ds_quote ?s"
  proof (rule swap_matches_holders [where v = "''vault''"])
    show "?s \<in> set (decodeSwaps small_tx [small_pool])" by (simp add: d)
  qed (auto simp: small_tx_def small_pool_def or_empty_def sumFor_def)
  then show ?thesis by (simp add: d)
qed

end
