(* ===== verification/Events.thy ===== *)
theory Events
  imports Decode Pda
begin

text \<open>
  The events of the four programs as the indexer reads them (\<^verbatim>\<open>apps/indexer/src/decode/events.ts\<close>,
  \<^verbatim>\<open>anchorEvents.ts\<close>, \<^verbatim>\<open>poolState.ts\<close>, \<^verbatim>\<open>meteora.ts\<close>): the typing of Anchor's decoded
  fields, the decimal text written to numeric columns, the scan of the pool accounts and the prefix of
  the token metadata.  Anchor's log parser and account coder are parameters.
\<close>

section \<open>Values of decoded fields\<close>

text \<open>
  The JavaScript values a field can hold: a \<open>BN\<close> answers \<open>toString\<close>, a public key \<open>toBase58\<close> (and
  \<open>toString\<close>), arrays are joined by commas.
\<close>

datatype anchor_value =
    VBigInt int | VNumber jsnum | VString string | VBN int | VPubkey string | VBytes bytes | VNumbers "int list" | VNull

definition join_ints :: "int list \<Rightarrow> string" where
  "join_ints xs = concat (case xs of [] \<Rightarrow> [] | y # ys \<Rightarrow> int_text y # map (\<lambda>z. CHR '','' # int_text z) ys)"

definition to_bigint :: "string \<Rightarrow> string + int" where
  "to_bigint s = some_or (parse_bigint s) ''SyntaxError''"

definition trunc_num :: "rat \<Rightarrow> int" where
  "trunc_num x = (if 0 \<le> x then \<lfloor>x\<rfloor> else - \<lfloor>- x\<rfloor>)"

fun asBigInt :: "anchor_value \<Rightarrow> string + int" where
  "asBigInt (VBigInt n) = Inr n"
| "asBigInt (VNumber (Fin x)) = Inr (trunc_num x)"
| "asBigInt (VNumber _) = Inl ''RangeError''"
| "asBigInt (VString s) = to_bigint s"
| "asBigInt (VBN n) = to_bigint (int_text n)"
| "asBigInt (VPubkey s) = to_bigint s"
| "asBigInt (VBytes b) = to_bigint (join_ints (map uint b))"
| "asBigInt (VNumbers xs) = to_bigint (join_ints xs)"
| "asBigInt VNull = Inl ''not an integer''"

text \<open>\<open>Number(n)\<close> of a BigInt, itself an integer: exact up to \<open>2 ^ 53\<close>.\<close>

definition to_double :: "int \<Rightarrow> int" where
  "to_double n = \<lfloor>fl (of_int n)\<rfloor>"

lemma to_double_small [simp]: "\<bar>n\<bar> \<le> 2 ^ 53 \<Longrightarrow> to_double n = n"
  by (simp add: to_double_def fl_of_int)

definition asNumber :: "anchor_value \<Rightarrow> string + int" where
  "asNumber v = sbind (asBigInt v) (\<lambda>n. Inr (to_double n))"

fun asKey :: "anchor_value \<Rightarrow> string + string" where
  "asKey (VString s) = Inr s"
| "asKey (VPubkey s) = Inr s"
| "asKey _ = Inl ''not a pubkey''"

fun asBytes :: "anchor_value \<Rightarrow> string + bytes" where
  "asBytes (VBytes b) = Inr b"
| "asBytes (VNumbers xs) = Inr (map word_of_int xs)"
| "asBytes _ = Inl ''not a byte array''"

definition bytesToHex :: "bytes \<Rightarrow> string" where
  "bytesToHex b = concat (map (\<lambda>x. [digit_char (uint x div 16), digit_char (uint x mod 16)]) b)"

definition symbolFromBytes :: "bytes \<Rightarrow> string" where
  "symbolFromBytes b = map (\<lambda>x. char_of (unat x)) (takeWhile (\<lambda>x. x \<noteq> 0) b)"

definition oneOf :: "int \<Rightarrow> int list \<Rightarrow> string \<Rightarrow> string + int" where
  "oneOf v allowed what = (if v \<in> set allowed then Inr v else Inl (what @ '': unexpected value''))"

section \<open>Names\<close>

definition upper_char :: "char \<Rightarrow> char" where
  "upper_char c = (if CHR ''a'' \<le> c \<and> c \<le> CHR ''z'' then char_of (of_char c - 32 :: nat) else c)"

definition after_underscore :: "char \<Rightarrow> bool" where
  "after_underscore c \<longleftrightarrow> (CHR ''a'' \<le> c \<and> c \<le> CHR ''z'') \<or> (CHR ''0'' \<le> c \<and> c \<le> CHR ''9'')"

fun camel :: "string \<Rightarrow> string" where
  "camel (a # c # cs) = (if a = CHR ''_'' \<and> after_underscore c then upper_char c # camel cs else a # camel (c # cs))"
| "camel s = s"

type_synonym event_data = "(string \<times> anchor_value) list"

definition field :: "event_data \<Rightarrow> string \<Rightarrow> string + anchor_value" where
  "field data snake = (case map_of data snake of Some v \<Rightarrow> Inr v
     | None \<Rightarrow> some_or (map_of data (camel snake)) (''event field missing: '' @ snake))"

definition canonicalName :: "string \<Rightarrow> string" where
  "canonicalName name = (case name of [] \<Rightarrow> [] | c # cs \<Rightarrow> upper_char c # cs)"

section \<open>Typed events\<close>

datatype ProgramName = PegDesk | FeeRouter | DistributorProgram | BuybackProgram

record RawAnchorEvent =
  ra_program :: ProgramName
  ra_name :: string
  ra_data :: event_data

datatype Event =
    CommodityCreated (ev_commodity: string) (ev_symbol: string) (ev_mint: string)
  | TradeEvent (ev_commodity: string) (ev_user: string) (ev_side: int) (ev_usdc: int) (ev_coin: int) (ev_price: int) (ev_spreadBps: int)
  | PriceUpdated (ev_commodity: string) (ev_price: int) (ev_conf: int) (ev_publishTime: int)
  | StatusChanged (ev_commodity: string) (ev_status: int)
  | PoolRegistered (ev_pool: string) (ev_baseMint: string) (ev_quoteMint: string) (ev_commodity: string) (ev_feeBps: int)
  | FeesClaimed (ev_pool: string) (ev_source: int) (ev_quoteAmount: int) (ev_baseAmount: int)
  | FeesSplit (ev_pool: string) (ev_holders: int) (ev_buyback: int) (ev_protocol: int)
  | MigrationRecorded (ev_pool: string) (ev_dammPool: string)
  | EpochOpened (ev_pool: string) (ev_index: int) (ev_total: int) (ev_holders: int)
  | PayoutEvent (ev_pool: string) (ev_epoch: string) (ev_wallet: string) (ev_coinMint: string) (ev_amount: int) (ev_payoutKind: int)
  | EpochFinalized (ev_pool: string) (ev_index: int) (ev_merkleRoot: string) (ev_remainder: int)
  | BuybackEvent (ev_coin_key: string) (ev_coinAmount: int) (ev_gldAmount: int) (ev_iceBurned: int)

fun program_of :: "Event \<Rightarrow> ProgramName" where
  "program_of (CommodityCreated _ _ _) = PegDesk"
| "program_of (TradeEvent _ _ _ _ _ _ _) = PegDesk"
| "program_of (PriceUpdated _ _ _ _) = PegDesk"
| "program_of (StatusChanged _ _) = PegDesk"
| "program_of (PoolRegistered _ _ _ _ _) = FeeRouter"
| "program_of (FeesClaimed _ _ _ _) = FeeRouter"
| "program_of (FeesSplit _ _ _ _) = FeeRouter"
| "program_of (MigrationRecorded _ _) = FeeRouter"
| "program_of (EpochOpened _ _ _ _) = DistributorProgram"
| "program_of (PayoutEvent _ _ _ _ _ _) = DistributorProgram"
| "program_of (EpochFinalized _ _ _ _) = DistributorProgram"
| "program_of (BuybackEvent _ _ _ _) = BuybackProgram"

definition key_of :: "event_data \<Rightarrow> string \<Rightarrow> string + string" where
  "key_of d f = sbind (field d f) asKey"

definition big_of :: "event_data \<Rightarrow> string \<Rightarrow> string + int" where
  "big_of d f = sbind (field d f) asBigInt"

definition num_of :: "event_data \<Rightarrow> string \<Rightarrow> string + int" where
  "num_of d f = sbind (field d f) asNumber"

definition bytes_of :: "event_data \<Rightarrow> string \<Rightarrow> string + bytes" where
  "bytes_of d f = sbind (field d f) asBytes"

definition peg_desk_event :: "string \<Rightarrow> event_data \<Rightarrow> string + Event option" where
  "peg_desk_event name d =
     (if name = ''CommodityCreated'' then
        sbind (key_of d ''commodity'') (\<lambda>commodity. sbind (bytes_of d ''symbol'') (\<lambda>symbol. sbind (key_of d ''mint'') (\<lambda>mint.
        Inr (Some (CommodityCreated commodity (symbolFromBytes symbol) mint)))))
      else if name = ''Trade'' then
        sbind (key_of d ''commodity'') (\<lambda>commodity. sbind (key_of d ''user'') (\<lambda>user.
        sbind (sbind (num_of d ''side'') (\<lambda>v. oneOf v [0, 1] ''Trade.side'')) (\<lambda>side. sbind (big_of d ''usdc'') (\<lambda>usdc.
        sbind (big_of d ''coin'') (\<lambda>coin. sbind (big_of d ''price'') (\<lambda>price. sbind (num_of d ''spread_bps'') (\<lambda>spread.
        Inr (Some (TradeEvent commodity user side usdc coin price spread)))))))))
      else if name = ''PriceUpdated'' then
        sbind (key_of d ''commodity'') (\<lambda>commodity. sbind (big_of d ''price'') (\<lambda>price. sbind (big_of d ''conf'') (\<lambda>conf.
        sbind (big_of d ''publish_time'') (\<lambda>t. Inr (Some (PriceUpdated commodity price conf t))))))
      else if name = ''StatusChanged'' then
        sbind (key_of d ''commodity'') (\<lambda>commodity. sbind (num_of d ''status'') (\<lambda>status. Inr (Some (StatusChanged commodity status))))
      else Inr None)"

definition fee_router_event :: "string \<Rightarrow> event_data \<Rightarrow> string + Event option" where
  "fee_router_event name d =
     (if name = ''PoolRegistered'' then
        sbind (key_of d ''pool'') (\<lambda>pool. sbind (key_of d ''base_mint'') (\<lambda>base. sbind (key_of d ''quote_mint'') (\<lambda>quote.
        sbind (key_of d ''commodity'') (\<lambda>commodity. sbind (num_of d ''fee_bps'') (\<lambda>fee.
        Inr (Some (PoolRegistered pool base quote commodity fee)))))))
      else if name = ''FeesClaimed'' then
        sbind (key_of d ''pool'') (\<lambda>pool. sbind (sbind (num_of d ''source'') (\<lambda>v. oneOf v [0, 1, 2] ''FeesClaimed.source'')) (\<lambda>source.
        sbind (big_of d ''quote_amount'') (\<lambda>q. sbind (big_of d ''base_amount'') (\<lambda>b. Inr (Some (FeesClaimed pool source q b))))))
      else if name = ''FeesSplit'' then
        sbind (key_of d ''pool'') (\<lambda>pool. sbind (big_of d ''holders'') (\<lambda>h. sbind (big_of d ''buyback'') (\<lambda>b.
        sbind (big_of d ''protocol'') (\<lambda>p. Inr (Some (FeesSplit pool h b p))))))
      else if name = ''MigrationRecorded'' then
        sbind (key_of d ''pool'') (\<lambda>pool. sbind (key_of d ''damm_pool'') (\<lambda>damm. Inr (Some (MigrationRecorded pool damm))))
      else Inr None)"

definition distributor_event :: "string \<Rightarrow> event_data \<Rightarrow> string + Event option" where
  "distributor_event name d =
     (if name = ''EpochOpened'' then
        sbind (key_of d ''pool'') (\<lambda>pool. sbind (num_of d ''index'') (\<lambda>index. sbind (big_of d ''total'') (\<lambda>amount.
        sbind (num_of d ''holders'') (\<lambda>holders. Inr (Some (EpochOpened pool index amount holders))))))
      else if name = ''Payout'' then
        sbind (key_of d ''pool'') (\<lambda>pool. sbind (key_of d ''epoch'') (\<lambda>epoch. sbind (key_of d ''wallet'') (\<lambda>wallet.
        sbind (key_of d ''coin_mint'') (\<lambda>mint. sbind (big_of d ''amount'') (\<lambda>amount.
        sbind (sbind (num_of d ''kind'') (\<lambda>v. oneOf v [0, 1] ''Payout.kind'')) (\<lambda>kind.
        Inr (Some (PayoutEvent pool epoch wallet mint amount kind))))))))
      else if name = ''EpochFinalized'' then
        sbind (key_of d ''pool'') (\<lambda>pool. sbind (num_of d ''index'') (\<lambda>index. sbind (bytes_of d ''merkle_root'') (\<lambda>root.
        sbind (big_of d ''remainder'') (\<lambda>r. Inr (Some (EpochFinalized pool index (bytesToHex root) r))))))
      else Inr None)"

definition buyback_event :: "string \<Rightarrow> event_data \<Rightarrow> string + Event option" where
  "buyback_event name d =
     (if name = ''Buyback'' then
        sbind (key_of d ''coin'') (\<lambda>coin. sbind (big_of d ''coin_amount'') (\<lambda>c. sbind (big_of d ''gld_amount'') (\<lambda>g.
        sbind (big_of d ''ice_burned'') (\<lambda>i. Inr (Some (BuybackEvent coin c g i))))))
      else Inr None)"

definition toIcemarketsEvent :: "RawAnchorEvent \<Rightarrow> string + Event option" where
  "toIcemarketsEvent ev = (let name = canonicalName (ra_name ev); d = ra_data ev in case ra_program ev of
       PegDesk \<Rightarrow> peg_desk_event name d | FeeRouter \<Rightarrow> fee_router_event name d
     | DistributorProgram \<Rightarrow> distributor_event name d | BuybackProgram \<Rightarrow> buyback_event name d)"

section \<open>Decimal text\<close>

definition pad_zeros :: "nat \<Rightarrow> string \<Rightarrow> string" where
  "pad_zeros n s = replicate (n - length s) (CHR ''0'') @ s"

definition baseToHuman :: "int \<Rightarrow> nat \<Rightarrow> string" where
  "baseToHuman v decimals =
     (let neg = v < 0; a = (if neg then - v else v); scale = 10 ^ decimals
      in (if neg then ''-'' else '''') @ int_text (a div scale) @ ''.'' @ pad_zeros decimals (int_text (a mod scale)))"

definition price1e8ToHuman :: "int \<Rightarrow> string" where
  "price1e8ToHuman v = baseToHuman v 8"

text \<open>What PostgreSQL's \<open>text::numeric\<close> makes of an optional sign, digits, a point and digits.\<close>

definition unsigned_numeric :: "string \<Rightarrow> rat option" where
  "unsigned_numeric s =
     (let whole = takeWhile digit s; rest = dropWhile digit s in
      if rest = [] then map_option of_int (digits_value1 10 whole)
      else if hd rest \<noteq> CHR ''.'' then None
      else case (digits_value1 10 whole, digits_value 10 0 (tl rest)) of
          (Some w, Some f) \<Rightarrow> Some (of_int w + of_int f / 10 ^ length (tl rest)) | _ \<Rightarrow> None)"

definition numeric_of_text :: "string \<Rightarrow> rat option" where
  "numeric_of_text s = (if take 1 s = ''-'' then map_option uminus (unsigned_numeric (drop 1 s)) else unsigned_numeric s)"

section \<open>Log decoding\<close>

definition PROGRAM_IDS :: "ProgramName \<Rightarrow> string" where
  "PROGRAM_IDS p = (case p of PegDesk \<Rightarrow> ''6jMv6pdi3nB4RRmJSojDy2cHRLMgKNM3ZEeJFngWrqQN''
     | FeeRouter \<Rightarrow> ''9bnCKVesMxQPDaWAmiT21vaES2QgtdXinfXciTCZrbEt''
     | DistributorProgram \<Rightarrow> ''AEGw9dc3MUYR3aJXzZJjQmQDsJBJuT1RfsjoByNv4dV6''
     | BuybackProgram \<Rightarrow> ''2jsn1m1EnUx2AixWn8KSvWa7bqgQJrLqr2pQenzok4Lk'')"

definition program_env :: "ProgramName \<Rightarrow> string" where
  "program_env p = (case p of PegDesk \<Rightarrow> ''PEG_DESK_PROGRAM_ID'' | FeeRouter \<Rightarrow> ''FEE_ROUTER_PROGRAM_ID''
     | DistributorProgram \<Rightarrow> ''DISTRIBUTOR_PROGRAM_ID'' | BuybackProgram \<Rightarrow> ''BUYBACK_PROGRAM_ID'')"

definition programIds :: "(string \<Rightarrow> string option) \<Rightarrow> ProgramName \<Rightarrow> string" where
  "programIds env p = (case env (program_env p) of None \<Rightarrow> PROGRAM_IDS p | Some v \<Rightarrow> v)"

definition all_programs :: "ProgramName list" where
  "all_programs = [PegDesk, FeeRouter, DistributorProgram, BuybackProgram]"

text \<open>
  A parser yields events and may throw at the end; \<open>idl\<close> holds the parsers of the programs whose IDL
  file is there.
\<close>

type_synonym log_parser = "string list \<Rightarrow> (string \<times> event_data) list \<times> string option"

definition loadParsers :: "(string \<Rightarrow> string option) \<Rightarrow> (ProgramName \<Rightarrow> log_parser option) \<Rightarrow> (ProgramName \<times> string \<times> log_parser) list" where
  "loadParsers env idl = List.map_filter (\<lambda>p. map_option (\<lambda>parse. (p, programIds env p, parse)) (idl p)) all_programs"

definition missingIdls :: "(ProgramName \<Rightarrow> log_parser option) \<Rightarrow> ProgramName list" where
  "missingIdls idl = filter (\<lambda>p. idl p = None) all_programs"

definition starts_with :: "string \<Rightarrow> string \<Rightarrow> bool" where
  "starts_with prefix s \<longleftrightarrow> take (length prefix) s = prefix"

definition typed_events :: "ProgramName \<Rightarrow> (string \<times> event_data) list \<Rightarrow> Event list" where
  "typed_events p es = List.map_filter (\<lambda>(name, d). case toIcemarketsEvent \<lparr>ra_program = p, ra_name = name, ra_data = d\<rparr> of
     Inl err \<Rightarrow> None | Inr e \<Rightarrow> e) es"

definition decodeAnchorEvents :: "(string \<Rightarrow> string option) \<Rightarrow> (ProgramName \<Rightarrow> log_parser option) \<Rightarrow> string list \<Rightarrow> Event list" where
  "decodeAnchorEvents env idl logs = concat (map (\<lambda>(p, programId, parse).
     if list_ex (starts_with (''Program '' @ programId @ '' invoke'')) logs then typed_events p (fst (parse logs)) else [])
     (loadParsers env idl))"

section \<open>Pool accounts and metadata\<close>

definition BS58_ALPHABET :: string where
  "BS58_ALPHABET = ''123456789ABCDEFGHJKLMNPQRSTUVWXYZabcdefghijkmnopqrstuvwxyz''"

definition be_value :: "bytes \<Rightarrow> int" where
  "be_value b = foldl (\<lambda>n x. n * 256 + uint x) 0 b"

function bs58_digits :: "int \<Rightarrow> string \<Rightarrow> string" where
  "bs58_digits n out = (if n > 0 then bs58_digits (n div 58) (BS58_ALPHABET ! nat (n mod 58) # out) else out)"
  by pat_completeness auto
termination by (relation "measure (\<lambda>(n, _). nat n)") auto

declare bs58_digits.simps [simp del]

definition bs58 :: "bytes \<Rightarrow> string" where
  "bs58 b = map (\<lambda>_. CHR ''1'') (takeWhile (\<lambda>x. x = 0) b) @ bs58_digits (be_value b) []"

record PoolStateView =
  pv_poolState :: string
  pv_dbcPool :: string
  pv_dbcConfig :: string
  pv_baseMint :: string
  pv_quoteMint :: string
  pv_commodity :: string
  pv_creator :: string
  pv_feeBps :: int
  pv_migrated :: bool
  pv_dammPool :: string

text \<open>Metaplex metadata: a key and two addresses, then three strings with 4-byte lengths.\<close>

record TokenMetadata =
  tm_name :: string
  tm_symbol :: string
  tm_uri :: string

definition strip_nuls :: "string \<Rightarrow> string" where
  "strip_nuls s = rev (dropWhile (\<lambda>c. of_char c = (0 :: nat)) (rev s))"

definition metadata_str :: "(bytes \<Rightarrow> string) \<Rightarrow> bytes \<Rightarrow> nat \<Rightarrow> string + string \<times> nat" where
  "metadata_str utf8 buf off =
     (if off + 4 > length buf then Inl ''metadata: truncated'' else
      let len = nat (le_value (take 4 (drop off buf))) in
      if len > 1024 \<or> off + 4 + len > length buf then Inl ''metadata: bad string length''
      else Inr (js_trim (strip_nuls (utf8 (take len (drop (off + 4) buf)))), off + 4 + len))"

definition decodeMetadata :: "(bytes \<Rightarrow> string) \<Rightarrow> bytes \<Rightarrow> string + TokenMetadata" where
  "decodeMetadata utf8 data =
     sbind (metadata_str utf8 data (1 + 32 + 32)) (\<lambda>(name, o1). sbind (metadata_str utf8 data o1) (\<lambda>(symbol, o2).
     sbind (metadata_str utf8 data o2) (\<lambda>(uri, o3). Inr \<lparr>tm_name = name, tm_symbol = symbol, tm_uri = uri\<rparr>)))"

section \<open>Decimal text is exact\<close>

lemma digit_digit_char: "0 \<le> d \<Longrightarrow> d < 10 \<Longrightarrow> digit (digit_char d)"
proof -
  assume "0 \<le> d" "d < 10"
  then have "d = 0 \<or> d = 1 \<or> d = 2 \<or> d = 3 \<or> d = 4 \<or> d = 5 \<or> d = 6 \<or> d = 7 \<or> d = 8 \<or> d = 9" by presburger
  then show ?thesis by (auto simp: digit_char_def digit_def less_eq_char_def)
qed

lemma digits_nat_text: "0 \<le> n \<Longrightarrow> list_all digit (nat_text n)"
  using nat_text_digits [of n] digit_digit_char by (auto simp: list_all_iff)

lemma digits_value_zeros: "digits_value 10 0 (replicate k (CHR ''0'') @ s) = digits_value 10 0 s"
  by (induction k) (simp_all add: digit_val_def)

lemma length_nat_text: "0 \<le> n \<Longrightarrow> n < 10 ^ Suc k \<Longrightarrow> length (nat_text n) \<le> Suc k"
proof (induction k arbitrary: n)
  case 0
  then show ?case by (simp add: nat_text.simps [of n])
next
  case (Suc k)
  show ?case
  proof (cases "n < 10")
    case False
    have "n div 10 < 10 ^ Suc k" using Suc.prems(2) div_ge_iff [of 10 "10 ^ Suc k" n] by simp
    then have "length (nat_text (n div 10)) \<le> Suc k" using Suc.prems(1) by (intro Suc.IH) (simp_all add: pos_imp_zdiv_nonneg_iff)
    then show ?thesis using False by (simp add: nat_text.simps [of n])
  qed (simp add: nat_text.simps [of n])
qed

lemma take_digits: "list_all digit w \<Longrightarrow> takeWhile digit (w @ CHR ''.'' # f) = w \<and> dropWhile digit (w @ CHR ''.'' # f) = CHR ''.'' # f"
  by (induction w) (auto simp: digit_def)

lemma int_text_nonneg: "0 \<le> n \<Longrightarrow> int_text n = nat_text n"
  by (simp add: int_text_def)

lemma unsigned_numeric_text:
  assumes "0 \<le> a"
  shows "unsigned_numeric (int_text (a div 10 ^ d) @ ''.'' @ pad_zeros d (int_text (a mod 10 ^ d))) = Some (of_int a / 10 ^ d)"
proof -
  let ?w = "a div 10 ^ d" and ?f = "a mod 10 ^ d"
  let ?p = "pad_zeros d (int_text ?f)"
  have w: "0 \<le> ?w" "0 \<le> ?f" using assms by (simp_all add: pos_imp_zdiv_nonneg_iff)
  have ne: "nat_text ?w \<noteq> []" using nat_text_Cons [OF w(1)] by auto
  have fv: "digits_value 10 0 ?p = Some ?f" 
    unfolding int_text_nonneg [OF w(2)] pad_zeros_def digits_value_zeros by (rule digits_value_nat_text [OF w(2)])
  have len: "of_int ?f / 10 ^ length ?p = (of_int ?f / 10 ^ d :: rat)"
  proof (cases d)
    case (Suc k)
    have "length (nat_text ?f) \<le> Suc k" using w(2) by (intro length_nat_text) (simp_all add: Suc)
    then have "length ?p = d" unfolding int_text_nonneg [OF w(2)] pad_zeros_def by (simp add: Suc)
    then show ?thesis by simp
  qed simp
  have "of_int (?w * 10 ^ d + ?f) = (of_int a :: rat)" by (simp only: div_mult_mod_eq)
  then have "of_int ?w * 10 ^ d + of_int ?f = (of_int a :: rat)" by (simp only: of_int_add of_int_mult of_int_power of_int_numeral)
  then have a: "of_int a / 10 ^ d = (of_int ?w + of_int ?f / 10 ^ d :: rat)" by (simp add: field_simps)
  have "unsigned_numeric (nat_text ?w @ CHR ''.'' # ?p) = Some (of_int ?w + of_int ?f / 10 ^ length ?p)"
    using take_digits [OF digits_nat_text [OF w(1)], of ?p] fv ne
    by (simp add: unsigned_numeric_def digits_value1_def digits_value_nat_text [OF w(1)])
  then show ?thesis unfolding int_text_nonneg [OF w(1)] a len by simp
qed

lemma nat_text_no_sign: "0 \<le> n \<Longrightarrow> take 1 (nat_text n @ s) \<noteq> ''-''"
proof -
  assume "0 \<le> n"
  then obtain d t where "0 \<le> d" "d < 10" "nat_text n = digit_char d # t" using nat_text_Cons by blast
  then show ?thesis using digit_char_neq [of d] by simp
qed

lemma numeric_base_to_human: "numeric_of_text (baseToHuman v d) = Some (of_int v / 10 ^ d)"
proof (cases "v < 0")
  case True
  then show ?thesis using unsigned_numeric_text [of "- v" d] by (simp add: baseToHuman_def numeric_of_text_def Let_def)
next
  case False
  then have "0 \<le> v div 10 ^ d" by (simp add: pos_imp_zdiv_nonneg_iff)
  then have "take 1 (int_text (v div 10 ^ d) @ ''.'' @ pad_zeros d (int_text (v mod 10 ^ d))) \<noteq> ''-''"
    by (simp only: int_text_def not_less if_not_P nat_text_no_sign not_False_eq_True)
  then show ?thesis using unsigned_numeric_text [of v d] False by (simp add: baseToHuman_def numeric_of_text_def Let_def)
qed

text \<open>
  The decimal text written to the numeric columns is exact: read back it is the amount over the
  power of ten, sign and leading zeros of the fraction included, so no amount is ever rounded.
\<close>

theorem base_to_human_exact: "numeric_of_text (baseToHuman v d) = Some (of_int v / 10 ^ d)"
  by (rule numeric_base_to_human)

section \<open>Events are read as they were written\<close>

text \<open>
  What Anchor hands over for an event: integers of 64 bits and more as \<open>BN\<close>, smaller ones as numbers,
  keys as public keys, byte arrays as arrays of numbers (\<open>raw\<close> is the one the event holds).
\<close>

definition small :: "int \<Rightarrow> anchor_value" where
  "small n = VNumber (Fin (of_int n))"

fun anchor_name :: "Event \<Rightarrow> string" where
  "anchor_name (CommodityCreated _ _ _) = ''CommodityCreated''"
| "anchor_name (TradeEvent _ _ _ _ _ _ _) = ''Trade''"
| "anchor_name (PriceUpdated _ _ _ _) = ''PriceUpdated''"
| "anchor_name (StatusChanged _ _) = ''StatusChanged''"
| "anchor_name (PoolRegistered _ _ _ _ _) = ''PoolRegistered''"
| "anchor_name (FeesClaimed _ _ _ _) = ''FeesClaimed''"
| "anchor_name (FeesSplit _ _ _ _) = ''FeesSplit''"
| "anchor_name (MigrationRecorded _ _) = ''MigrationRecorded''"
| "anchor_name (EpochOpened _ _ _ _) = ''EpochOpened''"
| "anchor_name (PayoutEvent _ _ _ _ _ _) = ''Payout''"
| "anchor_name (EpochFinalized _ _ _ _) = ''EpochFinalized''"
| "anchor_name (BuybackEvent _ _ _ _) = ''Buyback''"

fun anchor_data :: "bytes \<Rightarrow> Event \<Rightarrow> event_data" where
  "anchor_data raw (CommodityCreated c s m) = [(''commodity'', VPubkey c), (''symbol'', VNumbers (map uint raw)), (''mint'', VPubkey m)]"
| "anchor_data raw (TradeEvent c u s x y p b) = [(''commodity'', VPubkey c), (''user'', VPubkey u), (''side'', small s),
     (''usdc'', VBN x), (''coin'', VBN y), (''price'', VBN p), (''spread_bps'', small b)]"
| "anchor_data raw (PriceUpdated c p f t) = [(''commodity'', VPubkey c), (''price'', VBN p), (''conf'', VBN f), (''publish_time'', VBN t)]"
| "anchor_data raw (StatusChanged c s) = [(''commodity'', VPubkey c), (''status'', small s)]"
| "anchor_data raw (PoolRegistered p b q c f) = [(''pool'', VPubkey p), (''base_mint'', VPubkey b), (''quote_mint'', VPubkey q),
     (''commodity'', VPubkey c), (''fee_bps'', small f)]"
| "anchor_data raw (FeesClaimed p s q b) = [(''pool'', VPubkey p), (''source'', small s), (''quote_amount'', VBN q), (''base_amount'', VBN b)]"
| "anchor_data raw (FeesSplit p h b r) = [(''pool'', VPubkey p), (''holders'', VBN h), (''buyback'', VBN b), (''protocol'', VBN r)]"
| "anchor_data raw (MigrationRecorded p d) = [(''pool'', VPubkey p), (''damm_pool'', VPubkey d)]"
| "anchor_data raw (EpochOpened p i t h) = [(''pool'', VPubkey p), (''index'', small i), (''total'', VBN t), (''holders'', small h)]"
| "anchor_data raw (PayoutEvent p e w m a k) = [(''pool'', VPubkey p), (''epoch'', VPubkey e), (''wallet'', VPubkey w),
     (''coin_mint'', VPubkey m), (''amount'', VBN a), (''kind'', small k)]"
| "anchor_data raw (EpochFinalized p i m r) = [(''pool'', VPubkey p), (''index'', small i), (''merkle_root'', VNumbers (map uint raw)), (''remainder'', VBN r)]"
| "anchor_data raw (BuybackEvent c x g i) = [(''coin'', VPubkey c), (''coin_amount'', VBN x), (''gld_amount'', VBN g), (''ice_burned'', VBN i)]"

text \<open>The values the programs emit: 16- and 32-bit numbers, flags of their range.\<close>

fun event_ok :: "bytes \<Rightarrow> Event \<Rightarrow> bool" where
  "event_ok raw (CommodityCreated c s m) \<longleftrightarrow> s = symbolFromBytes raw"
| "event_ok raw (TradeEvent c u s x y p b) \<longleftrightarrow> s \<in> {0, 1} \<and> 0 \<le> b \<and> b < 2 ^ 32"
| "event_ok raw (PriceUpdated c p f t) \<longleftrightarrow> True"
| "event_ok raw (StatusChanged c s) \<longleftrightarrow> 0 \<le> s \<and> s < 2 ^ 32"
| "event_ok raw (PoolRegistered p b q c f) \<longleftrightarrow> 0 \<le> f \<and> f < 2 ^ 32"
| "event_ok raw (FeesClaimed p s q b) \<longleftrightarrow> s \<in> {0, 1, 2}"
| "event_ok raw (FeesSplit p h b r) \<longleftrightarrow> True"
| "event_ok raw (MigrationRecorded p d) \<longleftrightarrow> True"
| "event_ok raw (EpochOpened p i t h) \<longleftrightarrow> 0 \<le> i \<and> i < 2 ^ 32 \<and> 0 \<le> h \<and> h < 2 ^ 32"
| "event_ok raw (PayoutEvent p e w m a k) \<longleftrightarrow> k \<in> {0, 1}"
| "event_ok raw (EpochFinalized p i m r) \<longleftrightarrow> m = bytesToHex raw \<and> 0 \<le> i \<and> i < 2 ^ 32"
| "event_ok raw (BuybackEvent c x g i) \<longleftrightarrow> True"

definition lower_first :: "string \<Rightarrow> string" where
  "lower_first s = (case s of [] \<Rightarrow> [] | c # cs \<Rightarrow> char_of (of_char c + 32 :: nat) # cs)"

definition recased :: "bool \<Rightarrow> Event \<Rightarrow> bytes \<Rightarrow> RawAnchorEvent" where
  "recased camelled ev raw = \<lparr>ra_program = program_of ev,
     ra_name = (if camelled then lower_first (anchor_name ev) else anchor_name ev),
     ra_data = (if camelled then map (\<lambda>(k, v). (camel k, v)) (anchor_data raw ev) else anchor_data raw ev)\<rparr>"

lemma asNumber_small: "0 \<le> n \<Longrightarrow> n < 2 ^ 32 \<Longrightarrow> asNumber (small n) = Inr n"
  by (simp add: asNumber_def small_def trunc_num_def)

lemma asNumber_flag: "n = 0 \<or> n = 1 \<Longrightarrow> asNumber (small n) = Inr n" "n = 0 \<or> n = 1 \<or> n = 2 \<Longrightarrow> asNumber (small n) = Inr n"
  by (auto intro!: asNumber_small)

lemma oneOf_ok: "v \<in> set allowed \<Longrightarrow> oneOf v allowed what = Inr v"
  by (simp add: oneOf_def)

lemma asBigInt_BN: "asBigInt (VBN n) = Inr n"
  by (simp add: to_bigint_def some_or_def)

lemma asBytes_raw: "asBytes (VNumbers (map uint raw)) = Inr raw"
  by (simp add: o_def)

lemmas event_fields = key_of_def big_of_def num_of_def bytes_of_def field_def some_or_def
  asBigInt_BN asBytes_raw asNumber_small

lemma camel_fields:
  "camel ''commodity'' = ''commodity''" "camel ''symbol'' = ''symbol''" "camel ''mint'' = ''mint''"
  "camel ''user'' = ''user''" "camel ''side'' = ''side''" "camel ''usdc'' = ''usdc''"
  "camel ''coin'' = ''coin''" "camel ''price'' = ''price''" "camel ''spread_bps'' = ''spreadBps''"
  "camel ''conf'' = ''conf''" "camel ''publish_time'' = ''publishTime''" "camel ''status'' = ''status''"
  "camel ''pool'' = ''pool''" "camel ''base_mint'' = ''baseMint''" "camel ''quote_mint'' = ''quoteMint''"
  "camel ''fee_bps'' = ''feeBps''" "camel ''source'' = ''source''" "camel ''quote_amount'' = ''quoteAmount''"
  "camel ''base_amount'' = ''baseAmount''" "camel ''holders'' = ''holders''" "camel ''buyback'' = ''buyback''"
  "camel ''protocol'' = ''protocol''" "camel ''damm_pool'' = ''dammPool''" "camel ''index'' = ''index''"
  "camel ''total'' = ''total''" "camel ''epoch'' = ''epoch''" "camel ''wallet'' = ''wallet''"
  "camel ''coin_mint'' = ''coinMint''" "camel ''amount'' = ''amount''" "camel ''kind'' = ''kind''"
  "camel ''merkle_root'' = ''merkleRoot''" "camel ''remainder'' = ''remainder''" "camel ''coin_amount'' = ''coinAmount''"
  "camel ''gld_amount'' = ''gldAmount''" "camel ''ice_burned'' = ''iceBurned''"
  by code_simp+

lemma canonical_names: "canonicalName (anchor_name ev) = anchor_name ev" "canonicalName (lower_first (anchor_name ev)) = anchor_name ev"
  by (cases ev; simp only: anchor_name.simps; code_simp)+

lemmas event_programs = peg_desk_event_def fee_router_event_def distributor_event_def buyback_event_def

lemma recased_name: "canonicalName (ra_name (recased camelled ev raw)) = anchor_name ev"
  by (cases camelled) (simp_all only: recased_def RawAnchorEvent.simps if_True if_False canonical_names)

text \<open>
  C32: every event the programs emit is read back as it was, under either casing Anchor may use for the
  names of events and fields.
\<close>

theorem events_roundtrip:
  assumes "event_ok raw ev"
  shows "toIcemarketsEvent (recased camelled ev raw) = Inr (Some ev)"
proof -
  have d: "ra_data (recased camelled ev raw) = (if camelled then map (\<lambda>(k, v). (camel k, v)) (anchor_data raw ev) else anchor_data raw ev)"
    and p: "ra_program (recased camelled ev raw) = program_of ev" by (simp_all add: recased_def)
  show ?thesis unfolding toIcemarketsEvent_def Let_def recased_name d p
    using assms by (cases ev; cases camelled)
      (simp_all add: event_programs event_fields camel_fields asNumber_flag oneOf_ok del: asBigInt.simps asBytes.simps camel.simps)
qed

theorem events_roundtrip_witness:
  "toIcemarketsEvent \<lparr>ra_program = DistributorProgram, ra_name = ''payout'', ra_data = [(''pool'', VPubkey ''P''), (''epoch'', VPubkey ''E''),
     (''wallet'', VPubkey ''W''), (''coinMint'', VPubkey ''M''), (''amount'', VBN 12345678901234567890), (''kind'', VNumber (Fin 1))]\<rparr> =
   Inr (Some (PayoutEvent ''P'' ''E'' ''W'' ''M'' 12345678901234567890 1))"
proof -
  have "recased True (PayoutEvent ''P'' ''E'' ''W'' ''M'' 12345678901234567890 1) [] = \<lparr>ra_program = DistributorProgram, ra_name = ''payout'',
      ra_data = [(''pool'', VPubkey ''P''), (''epoch'', VPubkey ''E''), (''wallet'', VPubkey ''W''), (''coinMint'', VPubkey ''M''),
        (''amount'', VBN 12345678901234567890), (''kind'', VNumber (Fin 1))]\<rparr>"
    unfolding recased_def by (simp add: camel_fields small_def del: camel.simps, code_simp)
  then show ?thesis using events_roundtrip [of "[]" "PayoutEvent ''P'' ''E'' ''W'' ''M'' 12345678901234567890 1" True] by simp
qed

end
