(* ===== verification/Ingest.thy ===== *)
theory Ingest
  imports Events Registry
begin

text \<open>
  One transaction into the database (\<^verbatim>\<open>apps/indexer/src/decode/ingest.ts\<close>) and the webhook that
  delivers them (\<^verbatim>\<open>apps/indexer/src/webhook.ts\<close>).  A query is a remote call under a script of faults;
  inside \<open>begin\<close> and \<open>commit\<close> it works on a copy that only \<open>commit\<close> publishes, and a savepoint is a
  copy of that copy.  The ranges of the numeric columns hold every amount of 64 bits.
\<close>

section \<open>Tables\<close>

record IdxCommodity =
  ic_symbol :: string
  ic_name :: string
  ic_display_name :: "string option"
  ic_category :: Category
  ic_unit :: string
  ic_unit_short :: string
  ic_mint :: string
  ic_commodity_pubkey :: "string option"
  ic_oracle_kind :: "int option"
  ic_session_kind :: "int option"
  ic_status :: string
  ic_supply :: rat
  ic_reserve :: rat
  ic_last_price :: "rat option"
  ic_last_publish :: "int option"

record CommodityTrade =
  ct_sig :: string
  ct_commodity :: string
  ct_ts :: int
  ct_side :: int
  ct_usdc :: rat
  ct_coin :: rat
  ct_price :: rat
  ct_spread_bps :: int
  ct_trader :: string

record IdxPool =
  ip_dbc_pool :: string
  ip_base_mint :: string
  ip_quote_mint :: string
  ip_commodity :: string
  ip_creator :: string
  ip_fee_bps :: int
  ip_ticker :: string
  ip_name :: string
  ip_image_uri :: "string option"
  ip_created_at :: int
  ip_base_vault :: "string option"
  ip_quote_vault :: "string option"
  ip_registered_sig :: "string option"
  ip_migrated_at :: "int option"
  ip_damm_pool :: "string option"
  ip_damm_base_vault :: "string option"
  ip_damm_quote_vault :: "string option"

record FeeSplit =
  fs_sig :: string
  fs_pool :: string
  fs_holders :: rat
  fs_buyback :: rat
  fs_protocol :: rat
  fs_ts :: int

record IdxEpoch =
  xe_pool :: string
  xe_index :: int
  xe_coin_mint :: string
  xe_start_ts :: int
  xe_end_ts :: int
  xe_total :: rat
  xe_pushed :: rat
  xe_claimed :: rat
  xe_eligible :: int
  xe_finalized :: bool
  xe_merkle_root :: "string option"
  xe_epoch_pubkey :: "string option"

record IdxLeaf =
  xl_epoch_index :: int
  xl_epoch_pubkey :: string
  xl_wallet :: string
  xl_claimed :: bool

record TradeRow =
  xt_sig :: string
  xt_pool :: string
  xt_ts :: int
  xt_side :: int
  xt_base :: rat
  xt_quote :: rat
  xt_price_quote :: rat
  xt_price_usd :: rat
  xt_trader :: string

record BalanceEvent =
  xb_pool :: string
  xb_wallet :: string
  xb_delta :: rat
  xb_slot :: int
  xb_ts :: int
  xb_sig :: string

record Balance =
  bl_pool :: string
  bl_wallet :: string
  bl_amount :: rat
  bl_updated_slot :: int

record RawEvent =
  rw_sig :: string
  rw_slot :: int
  rw_ts :: int
  rw_payload :: "string option"
  rw_error :: "string option"

record IngestCursor =
  cu_source :: string
  cu_last_sig :: string
  cu_last_slot :: int

record idx_db =
  xd_commodities :: "IdxCommodity list"
  xd_commodity_trades :: "CommodityTrade list"
  xd_prices :: "PriceCol list"
  xd_pools :: "IdxPool list"
  xd_fee_claims :: "FeeClaimCol list"
  xd_fee_splits :: "FeeSplit list"
  xd_epochs :: "IdxEpoch list"
  xd_payouts :: "PayoutCol list"
  xd_leaves :: "IdxLeaf list"
  xd_buybacks :: "BuybackCol list"
  xd_trades :: "TradeRow list"
  xd_balance_events :: "BalanceEvent list"
  xd_balances :: "Balance list"
  xd_raw_events :: "RawEvent list"
  xd_cursor :: "IngestCursor list"

section \<open>Connection\<close>

record IngestResult =
  ir_events :: nat
  ir_trades :: nat
  ir_balanceEvents :: nat
  ir_error :: "string option"

text \<open>
  \<open>iw_db\<close> is what the connection sees, \<open>iw_saved\<close> what is committed, \<open>iw_mark\<close> the savepoint;
  \<open>iw_result\<close> is the local \<open>result\<close> of the transaction being ingested.
\<close>

record idx_world =
  iw_faults :: "fault list"
  iw_db :: idx_db
  iw_saved :: idx_db
  iw_mark :: idx_db
  iw_in_tx :: bool
  iw_now :: int
  iw_result :: IngestResult

type_synonym 'a xio = "(idx_world, 'a) io"

definition pop_idx :: "idx_world \<Rightarrow> fault \<times> idx_world" where
  "pop_idx w = (case iw_faults w of [] \<Rightarrow> (Fine, w) | f # fs \<Rightarrow> (f, w\<lparr>iw_faults := fs\<rparr>))"

definition put_db :: "idx_db \<Rightarrow> idx_world \<Rightarrow> idx_world" where
  "put_db d w = w\<lparr>iw_db := d, iw_saved := (if iw_in_tx w then iw_saved w else d)\<rparr>"

text \<open>A statement: its result and the new tables, or the violated constraint.\<close>

definition sql :: "(idx_db \<Rightarrow> string + 'a \<times> idx_db) \<Rightarrow> 'a xio" where
  "sql f = remote pop_idx (\<lambda>w. case f (iw_db w) of Inl e \<Rightarrow> (Throw e, w) | Inr (a, d) \<Rightarrow> (Ret a, put_db d w))"

definition sql_read :: "(idx_db \<Rightarrow> 'a) \<Rightarrow> 'a xio" where
  "sql_read f = sql (\<lambda>d. Inr (f d, d))"

definition sql_write :: "(idx_db \<Rightarrow> idx_db) \<Rightarrow> unit xio" where
  "sql_write f = sql (\<lambda>d. Inr ((), f d))"

definition sql_begin :: "unit xio" where
  "sql_begin = remote pop_idx (\<lambda>w. (Ret (), w\<lparr>iw_in_tx := True\<rparr>))"

definition sql_commit :: "unit xio" where
  "sql_commit = remote pop_idx (\<lambda>w. (Ret (), w\<lparr>iw_in_tx := False, iw_saved := iw_db w\<rparr>))"

definition sql_rollback :: "unit xio" where
  "sql_rollback = remote pop_idx (\<lambda>w. (Ret (), w\<lparr>iw_in_tx := False, iw_db := iw_saved w\<rparr>))"

definition sql_savepoint :: "unit xio" where
  "sql_savepoint = remote pop_idx (\<lambda>w. (Ret (), w\<lparr>iw_mark := iw_db w\<rparr>))"

definition sql_release :: "unit xio" where
  "sql_release = remote pop_idx (\<lambda>w. (Ret (), w))"

definition sql_rollback_to :: "unit xio" where
  "sql_rollback_to = remote pop_idx (\<lambda>w. (Ret (), put_db (iw_mark w) w))"

text \<open>\<open>insert ... on conflict do nothing\<close> with its row count.\<close>

definition sql_insert :: "('row \<Rightarrow> 'key) \<Rightarrow> 'row \<Rightarrow> 'row list \<Rightarrow> nat \<times> 'row list" where
  "sql_insert key r t = (if key r \<in> key ` set t then 0 else 1, insert_or_ignore key r t)"

definition human :: "int \<Rightarrow> nat \<Rightarrow> rat" where
  "human v decimals = (case numeric_of_text (baseToHuman v decimals) of None \<Rightarrow> 0 | Some x \<Rightarrow> x)"

lemma human_eq: "human v d = of_int v / 10 ^ d"
  by (simp add: human_def numeric_base_to_human)

definition coalesce :: "'a option \<Rightarrow> 'a option \<Rightarrow> 'a option" where
  "coalesce a b = (case a of None \<Rightarrow> b | Some x \<Rightarrow> Some x)"

section \<open>Environment\<close>

text \<open>
  The RPC node: logs of a transaction, an account (owner, data), and the accounts of a program with a
  discriminator filter; \<open>None\<close> is a failed call.  \<open>xv_pool_coder\<close> is Anchor's decoder of \<open>PoolState\<close>,
  \<open>xv_div\<close> PostgreSQL's division of numerics, \<open>xv_utf8\<close> the decoding of UTF-8.
\<close>

record idx_rpc =
  rp_logs :: "string \<Rightarrow> string list option option"
  rp_account :: "bytes \<Rightarrow> (bytes \<times> bytes) option option"
  rp_program_accounts :: "bytes \<Rightarrow> string \<Rightarrow> (bytes \<times> bytes) list option"

record PoolFields =
  pf_dbc_pool :: bytes
  pf_dbc_config :: bytes
  pf_base_mint :: bytes
  pf_quote_mint :: bytes
  pf_commodity :: bytes
  pf_creator :: bytes
  pf_fee_bps :: int
  pf_migrated :: bool
  pf_damm_pool :: bytes

record idx_env =
  xv_env :: "string \<Rightarrow> string option"
  xv_w3 :: web3
  xv_idl :: "ProgramName \<Rightarrow> log_parser option"
  xv_rpc :: "idx_rpc option"
  xv_discriminator :: "bytes option"
  xv_pool_coder :: "bytes \<Rightarrow> string + PoolFields"
  xv_div :: "rat \<Rightarrow> rat \<Rightarrow> rat"
  xv_utf8 :: "bytes \<Rightarrow> string"

text \<open>\<open>new PublicKey\<close> of the arguments, then the derivation.\<close>

definition METAPLEX :: string where
  "METAPLEX = ''metaqbxxUerdq28cj1RbAWkYQm3ybzjb6a8bt518x1s''"

definition env_or :: "idx_env \<Rightarrow> string \<Rightarrow> string \<Rightarrow> string" where
  "env_or env k v = (case xv_env env k of None \<Rightarrow> v | Some x \<Rightarrow> x)"

definition pda_text :: "idx_env \<Rightarrow> bytes list \<Rightarrow> bytes \<Rightarrow> string" where
  "pda_text env seeds program = w3_text (xv_w3 env) (fst (w3_find (xv_w3 env) seeds program))"

definition vault_pda :: "idx_env \<Rightarrow> string \<Rightarrow> string \<Rightarrow> string \<Rightarrow> string + string" where
  "vault_pda env mint pool program = sbind (new_PublicKey (xv_w3 env) mint) (\<lambda>m. sbind (new_PublicKey (xv_w3 env) pool) (\<lambda>p.
     Inr (pda_text env [ascii_bytes ''token_vault'', m, p] (const_key (xv_w3 env) program))))"

definition idx_dbcTokenVault :: "idx_env \<Rightarrow> string \<Rightarrow> string \<Rightarrow> string + string" where
  "idx_dbcTokenVault env mint pool = vault_pda env mint pool (env_or env ''DBC_PROGRAM_ID'' PROGRAM_IDS_dbc)"

definition idx_dammTokenVault :: "idx_env \<Rightarrow> string \<Rightarrow> string \<Rightarrow> string + string" where
  "idx_dammTokenVault env mint pool = vault_pda env mint pool (env_or env ''DAMM_V2_PROGRAM_ID'' PROGRAM_IDS_dammV2)"

definition metadataPda :: "idx_env \<Rightarrow> string \<Rightarrow> string + bytes" where
  "metadataPda env mint = sbind (new_PublicKey (xv_w3 env) mint) (\<lambda>m.
     Inr (fst (w3_find (xv_w3 env) [ascii_bytes ''metadata'', const_key (xv_w3 env) METAPLEX, m] (const_key (xv_w3 env) METAPLEX))))"

text \<open>\<open>None\<close> on every failure.\<close>

definition fetchTokenMetadata :: "idx_env \<Rightarrow> string \<Rightarrow> TokenMetadata option" where
  "fetchTokenMetadata env mint = (case xv_rpc env of None \<Rightarrow> None | Some rpc \<Rightarrow>
     (case metadataPda env mint of Inl _ \<Rightarrow> None | Inr pda \<Rightarrow>
     (case rp_account rpc pda of None \<Rightarrow> None | Some None \<Rightarrow> None | Some (Some (owner, data)) \<Rightarrow>
       if owner \<noteq> const_key (xv_w3 env) METAPLEX then None else result_opt (decodeMetadata (xv_utf8 env) data))))"

definition epochPda :: "idx_env \<Rightarrow> string \<Rightarrow> int \<Rightarrow> string + string" where
  "epochPda env pool index = sbind (new_PublicKey (xv_w3 env) pool) (\<lambda>p.
     sbind (new_PublicKey (xv_w3 env) (programIds (xv_env env) DistributorProgram)) (\<lambda>program.
     Inr (pda_text env [ascii_bytes ''epoch'', p, le_bytes 4 (index mod 2 ^ 32)] program)))"

definition fetchAllPoolStates :: "idx_env \<Rightarrow> idx_rpc \<Rightarrow> string + PoolStateView list" where
  "fetchAllPoolStates env rpc =
     sbind (new_PublicKey (xv_w3 env) (programIds (xv_env env) FeeRouter)) (\<lambda>program.
     sbind (some_or (xv_discriminator env) ''fee_router IDL has no PoolState account'') (\<lambda>disc.
     sbind (some_or (rp_program_accounts rpc program (bs58 disc)) ''unavailable'') (\<lambda>accounts.
     smap (\<lambda>(pubkey, data). sbind (xv_pool_coder env data) (\<lambda>d. let pk = w3_text (xv_w3 env) in
       Inr \<lparr>pv_poolState = pk pubkey, pv_dbcPool = pk (pf_dbc_pool d), pv_dbcConfig = pk (pf_dbc_config d),
         pv_baseMint = pk (pf_base_mint d), pv_quoteMint = pk (pf_quote_mint d), pv_commodity = pk (pf_commodity d),
         pv_creator = pk (pf_creator d), pv_feeBps = pf_fee_bps d, pv_migrated = pf_migrated d,
         pv_dammPool = pk (pf_damm_pool d)\<rparr>)) accounts)))"

section \<open>Lookups\<close>

definition symbolForCommodity :: "string \<Rightarrow> (string \<times> int option) option xio" where
  "symbolForCommodity key = sql_read (\<lambda>d. map_option (\<lambda>c. (ic_symbol c, ic_oracle_kind c))
     (first_row (filter (\<lambda>c. ic_commodity_pubkey c = Some key) (xd_commodities d))))"

definition poolExists :: "string \<Rightarrow> (string \<times> string) option xio" where
  "poolExists pool = sql_read (\<lambda>d. map_option (\<lambda>p. (ip_base_mint p, ip_quote_mint p))
     (first_row (filter (\<lambda>p. ip_dbc_pool p = pool) (xd_pools d))))"

text \<open>The pool of a row, its missing vaults derived.\<close>

definition vaults_missing :: "IdxPool \<Rightarrow> bool" where
  "vaults_missing p \<longleftrightarrow> \<not> truthy (ip_base_vault p) \<or> \<not> truthy (ip_quote_vault p) \<or>
     (truthy (ip_damm_pool p) \<and> (\<not> truthy (ip_damm_base_vault p) \<or> \<not> truthy (ip_damm_quote_vault p)))"

definition or_derive :: "string option \<Rightarrow> string + string \<Rightarrow> string + string option" where
  "or_derive v derived = (case v of Some x \<Rightarrow> Inr (Some x) | None \<Rightarrow> sbind derived (\<lambda>x. Inr (Some x)))"

definition fill_vaults :: "idx_env \<Rightarrow> IdxPool \<Rightarrow> string + IdxPool" where
  "fill_vaults env p =
     sbind (or_derive (ip_base_vault p) (idx_dbcTokenVault env (ip_base_mint p) (ip_dbc_pool p))) (\<lambda>bv.
     sbind (or_derive (ip_quote_vault p) (idx_dbcTokenVault env (ip_quote_mint p) (ip_dbc_pool p))) (\<lambda>qv.
     if \<not> truthy (ip_damm_pool p) then Inr (p\<lparr>ip_base_vault := bv, ip_quote_vault := qv\<rparr>) else
     sbind (or_derive (ip_damm_base_vault p) (idx_dammTokenVault env (ip_base_mint p) (the (ip_damm_pool p)))) (\<lambda>dbv.
     sbind (or_derive (ip_damm_quote_vault p) (idx_dammTokenVault env (ip_quote_mint p) (the (ip_damm_pool p)))) (\<lambda>dqv.
     Inr (p\<lparr>ip_base_vault := bv, ip_quote_vault := qv, ip_damm_base_vault := dbv, ip_damm_quote_vault := dqv\<rparr>)))))"

definition set_vaults :: "IdxPool \<Rightarrow> idx_db \<Rightarrow> idx_db" where
  "set_vaults q d = d\<lparr>xd_pools := update_where (\<lambda>x. ip_dbc_pool x = ip_dbc_pool q)
     (\<lambda>x. x\<lparr>ip_base_vault := ip_base_vault q, ip_quote_vault := ip_quote_vault q,
       ip_damm_base_vault := ip_damm_base_vault q, ip_damm_quote_vault := ip_damm_quote_vault q\<rparr>) (xd_pools d)\<rparr>"

definition pool_ref :: "IdxPool \<Rightarrow> PoolRef" where
  "pool_ref p = \<lparr>pf_dbcPool = ip_dbc_pool p, pf_baseMint = ip_base_mint p, pf_quoteMint = ip_quote_mint p,
     pf_baseVault = ip_base_vault p, pf_quoteVault = ip_quote_vault p, pf_dammPool = ip_damm_pool p,
     pf_dammBaseVault = ip_damm_base_vault p, pf_dammQuoteVault = ip_damm_quote_vault p\<rparr>"

definition load_pool :: "idx_env \<Rightarrow> IdxPool \<Rightarrow> PoolRef list \<Rightarrow> PoolRef list xio" where
  "load_pool env p out = (if vaults_missing p
     then io_bind (io_result (fill_vaults env p)) (\<lambda>q. io_then (sql_write (set_vaults q)) (io_ret (out @ [pool_ref q])))
     else io_ret (out @ [pool_ref p]))"

definition loadPoolRefs :: "idx_env \<Rightarrow> string list \<Rightarrow> PoolRef list xio" where
  "loadPoolRefs env mints = (if mints = [] then io_ret [] else
     io_bind (sql_read (\<lambda>d. filter (\<lambda>p. ip_base_mint p \<in> set mints) (xd_pools d))) (\<lambda>rows.
     io_fold rows (load_pool env) []))"

definition find_epoch :: "idx_env \<Rightarrow> string \<Rightarrow> string \<Rightarrow> int list \<Rightarrow> string + int option" where
  "find_epoch env pool epochPubkey is = foldr (\<lambda>i rest. sbind (epochPda env pool i) (\<lambda>k.
     if k = epochPubkey then Inr (Some i) else rest)) is (Inr None)"

definition max_index :: "string \<Rightarrow> idx_db \<Rightarrow> int option" where
  "max_index pool d = (case map xe_index (filter (\<lambda>e. xe_pool e = pool) (xd_epochs d)) of
     [] \<Rightarrow> None | i # is \<Rightarrow> Some (foldl max i is))"

definition epochIndexFor :: "idx_env \<Rightarrow> string \<Rightarrow> string \<Rightarrow> int option xio" where
  "epochIndexFor env pool key =
     io_bind (sql_read (\<lambda>d. map_option xe_index (first_row (filter (\<lambda>e. xe_epoch_pubkey e = Some key) (xd_epochs d))))) (\<lambda>a.
     case a of Some i \<Rightarrow> io_ret (Some i) | None \<Rightarrow>
     io_bind (sql_read (\<lambda>d. map_option xl_epoch_index (first_row (filter (\<lambda>l. xl_epoch_pubkey l = key) (xd_leaves d))))) (\<lambda>b.
     case b of Some i \<Rightarrow> io_ret (Some i) | None \<Rightarrow>
     io_bind (sql_read (max_index pool)) (\<lambda>m.
     let upper = min 1024 ((case m of None \<Rightarrow> 0 | Some i \<Rightarrow> i) + 2)
     in io_result (find_epoch env pool key [0..upper]))))"

section \<open>Pools\<close>

record PoolUpsert =
  pu_pool :: string
  pu_baseMint :: string
  pu_quoteMint :: string
  pu_commodity :: string
  pu_feeBps :: int
  pu_creator :: string

definition text_or_else :: "string option \<Rightarrow> string \<Rightarrow> string" where
  "text_or_else v fallback = (if truthy v then the v else fallback)"

definition new_pool :: "PoolUpsert \<Rightarrow> string \<Rightarrow> TokenMetadata option \<Rightarrow> int \<Rightarrow> string \<Rightarrow> string \<Rightarrow> string option \<Rightarrow> IdxPool" where
  "new_pool p symbol meta ts bv qv sig = (let placeholder = take 6 (pu_baseMint p) in
     \<lparr>ip_dbc_pool = pu_pool p, ip_base_mint = pu_baseMint p, ip_quote_mint = pu_quoteMint p, ip_commodity = symbol,
      ip_creator = pu_creator p, ip_fee_bps = pu_feeBps p,
      ip_ticker = text_or_else (map_option tm_symbol meta) placeholder, ip_name = text_or_else (map_option tm_name meta) placeholder,
      ip_image_uri = (case meta of None \<Rightarrow> None | Some m \<Rightarrow> if tm_uri m = [] then None else Some (tm_uri m)),
      ip_created_at = ts, ip_base_vault = Some bv, ip_quote_vault = Some qv, ip_registered_sig = sig,
      ip_migrated_at = None, ip_damm_pool = None, ip_damm_base_vault = None, ip_damm_quote_vault = None\<rparr>)"

definition merge_pool :: "IdxPool \<Rightarrow> bool \<Rightarrow> IdxPool \<Rightarrow> IdxPool" where
  "merge_pool excluded named p = p\<lparr>ip_base_mint := ip_base_mint excluded, ip_quote_mint := ip_quote_mint excluded,
     ip_commodity := ip_commodity excluded, ip_fee_bps := ip_fee_bps excluded, ip_base_vault := ip_base_vault excluded,
     ip_quote_vault := ip_quote_vault excluded, ip_registered_sig := coalesce (ip_registered_sig p) (ip_registered_sig excluded),
     ip_ticker := (if named then ip_ticker excluded else ip_ticker p), ip_name := (if named then ip_name excluded else ip_name p),
     ip_image_uri := coalesce (ip_image_uri p) (ip_image_uri excluded)\<rparr>"

text \<open>\<open>base_mint\<close> is unique: a second pool of a memecoin is refused.\<close>

definition pools_upsert :: "IdxPool \<Rightarrow> bool \<Rightarrow> idx_db \<Rightarrow> string + unit \<times> idx_db" where
  "pools_upsert row named d =
     (if list_ex (\<lambda>p. ip_dbc_pool p \<noteq> ip_dbc_pool row \<and> ip_base_mint p = ip_base_mint row) (xd_pools d) then Inl ''pools_base_mint_key''
      else Inr ((), d\<lparr>xd_pools := upsert ip_dbc_pool (merge_pool row named) row (xd_pools d)\<rparr>))"

definition upsertPool :: "idx_env \<Rightarrow> PoolUpsert \<Rightarrow> int \<Rightarrow> string option \<Rightarrow> bool xio" where
  "upsertPool env p ts sig = io_bind (symbolForCommodity (pu_commodity p)) (\<lambda>c. case c of None \<Rightarrow> io_ret False
     | Some (symbol, _) \<Rightarrow> let meta = fetchTokenMetadata env (pu_baseMint p) in
       io_bind (io_result (idx_dbcTokenVault env (pu_baseMint p) (pu_pool p))) (\<lambda>bv.
       io_bind (io_result (idx_dbcTokenVault env (pu_quoteMint p) (pu_pool p))) (\<lambda>qv.
       io_then (sql (pools_upsert (new_pool p symbol meta ts bv qv sig) (meta \<noteq> None))) (io_ret True))))"

definition reconcile_one :: "idx_env \<Rightarrow> int \<Rightarrow> string list \<Rightarrow> PoolStateView \<Rightarrow> nat \<Rightarrow> nat xio" where
  "reconcile_one env ts known st added = (if pv_dbcPool st \<in> set known then io_ret added else
     io_bind (upsertPool env \<lparr>pu_pool = pv_dbcPool st, pu_baseMint = pv_baseMint st, pu_quoteMint = pv_quoteMint st,
       pu_commodity = pv_commodity st, pu_feeBps = pv_feeBps st, pu_creator = pv_creator st\<rparr> ts None) (\<lambda>ok.
     io_ret (if ok then added + 1 else added)))"

definition reconcilePools :: "idx_env \<Rightarrow> int \<Rightarrow> nat xio" where
  "reconcilePools env ts = (case xv_rpc env of None \<Rightarrow> io_ret 0 | Some rpc \<Rightarrow>
     io_bind (io_result (fetchAllPoolStates env rpc)) (\<lambda>states.
     io_bind (sql_read (\<lambda>d. map ip_dbc_pool (xd_pools d))) (\<lambda>known.
     io_fold states (reconcile_one env ts known) 0)))"

section \<open>Events of peg\_desk\<close>

definition set_commodity_keys :: "string \<Rightarrow> string \<Rightarrow> string \<Rightarrow> idx_db \<Rightarrow> string + nat \<times> idx_db" where
  "set_commodity_keys symbol key mint d =
     (let n = length (filter (\<lambda>c. ic_symbol c = symbol) (xd_commodities d)) in
      if n > 0 \<and> list_ex (\<lambda>c. ic_symbol c \<noteq> symbol \<and> (ic_mint c = mint \<or> ic_commodity_pubkey c = Some key)) (xd_commodities d)
      then Inl ''commodities_mint_key''
      else Inr (n, d\<lparr>xd_commodities := update_where (\<lambda>c. ic_symbol c = symbol)
        (\<lambda>c. c\<lparr>ic_commodity_pubkey := Some key, ic_mint := mint\<rparr>) (xd_commodities d)\<rparr>))"

definition new_commodity :: "Commodity \<Rightarrow> string \<Rightarrow> string \<Rightarrow> IdxCommodity" where
  "new_commodity reg mint key = \<lparr>ic_symbol = cm_symbol reg, ic_name = cm_name reg, ic_display_name = cm_displayName reg,
     ic_category = cm_category reg, ic_unit = cm_unit reg, ic_unit_short = cm_unitShort reg, ic_mint = mint,
     ic_commodity_pubkey = Some key, ic_oracle_kind = Some (OracleKind_code (os_kind (cm_oracle reg))),
     ic_session_kind = Some (SessionKind_code (cm_session reg)), ic_status = ''open'', ic_supply = 0, ic_reserve = 0,
     ic_last_price = None, ic_last_publish = None\<rparr>"

definition insert_commodity :: "IdxCommodity \<Rightarrow> idx_db \<Rightarrow> string + unit \<times> idx_db" where
  "insert_commodity c d = (if ic_symbol c \<in> ic_symbol ` set (xd_commodities d) then Inr ((), d)
     else if list_ex (\<lambda>x. ic_mint x = ic_mint c \<or> ic_commodity_pubkey x = ic_commodity_pubkey c) (xd_commodities d) then Inl ''commodities_mint_key''
     else Inr ((), d\<lparr>xd_commodities := xd_commodities d @ [c]\<rparr>))"

definition commodity_created :: "string \<Rightarrow> string \<Rightarrow> string \<Rightarrow> unit xio" where
  "commodity_created key symbol mint = io_bind (sql (set_commodity_keys symbol key mint)) (\<lambda>n. if n \<noteq> 0 then io_ret () else
     (case bySymbol symbol of None \<Rightarrow> io_ret () | Some reg \<Rightarrow> sql (insert_commodity (new_commodity reg mint key))))"

definition trade_key :: "CommodityTrade \<Rightarrow> string \<times> string \<times> string \<times> int" where
  "trade_key t = (ct_sig t, ct_commodity t, ct_trader t, ct_side t)"

definition insert_commodity_trade :: "CommodityTrade \<Rightarrow> idx_db \<Rightarrow> string + nat \<times> idx_db" where
  "insert_commodity_trade t d = (case sql_insert trade_key t (xd_commodity_trades d) of (n, ts) \<Rightarrow> Inr (n, d\<lparr>xd_commodity_trades := ts\<rparr>))"

definition move_supply :: "string \<Rightarrow> int \<Rightarrow> rat \<Rightarrow> rat \<Rightarrow> idx_db \<Rightarrow> idx_db" where
  "move_supply symbol side coin usdc d = d\<lparr>xd_commodities := update_where (\<lambda>c. ic_symbol c = symbol)
     (\<lambda>c. c\<lparr>ic_supply := max 0 (if side = 0 then ic_supply c + coin else ic_supply c - coin),
       ic_reserve := max 0 (if side = 0 then ic_reserve c + usdc else ic_reserve c - usdc)\<rparr>) (xd_commodities d)\<rparr>"

definition desk_trade :: "NormalizedTx \<Rightarrow> string \<Rightarrow> string \<Rightarrow> int \<Rightarrow> int \<Rightarrow> int \<Rightarrow> int \<Rightarrow> int \<Rightarrow> unit xio" where
  "desk_trade tx key user side usdc coin price spread = io_bind (symbolForCommodity key) (\<lambda>c. case c of None \<Rightarrow> io_ret ()
     | Some (symbol, _) \<Rightarrow>
       io_bind (sql (insert_commodity_trade \<lparr>ct_sig = nt_signature tx, ct_commodity = symbol, ct_ts = nt_blockTime tx, ct_side = side,
         ct_usdc = human usdc 6, ct_coin = human coin 6, ct_price = human price 8, ct_spread_bps = spread, ct_trader = user\<rparr>)) (\<lambda>n.
       if n \<noteq> 1 then io_ret () else sql_write (move_supply symbol side (human coin 6) (human usdc 6))))"

definition price_key :: "PriceCol \<Rightarrow> string \<times> int \<times> string" where
  "price_key r = (pc_commodity r, pc_ts r, pc_source r)"

definition price_updated :: "string \<Rightarrow> int \<Rightarrow> int \<Rightarrow> int \<Rightarrow> unit xio" where
  "price_updated key price conf publishTime = io_bind (symbolForCommodity key) (\<lambda>c. case c of None \<Rightarrow> io_ret ()
     | Some (symbol, kind) \<Rightarrow> let source = (if kind = Some 1 then ''switchboard'' else ''keeper'') in
       io_then (sql_write (\<lambda>d. d\<lparr>xd_prices := insert_or_ignore price_key \<lparr>pc_commodity = symbol, pc_ts = publishTime,
         pc_price = human price 8, pc_conf = Some (human conf 8), pc_source = source\<rparr> (xd_prices d)\<rparr>))
       (sql_write (\<lambda>d. d\<lparr>xd_commodities := update_where (\<lambda>c. ic_symbol c = symbol \<and>
           (case ic_last_publish c of None \<Rightarrow> True | Some t \<Rightarrow> t \<le> publishTime))
         (\<lambda>c. c\<lparr>ic_last_price := Some (human price 8), ic_last_publish := Some publishTime\<rparr>) (xd_commodities d)\<rparr>)))"

definition status_changed :: "string \<Rightarrow> int \<Rightarrow> unit xio" where
  "status_changed key status = sql_write (\<lambda>d. d\<lparr>xd_commodities := update_where (\<lambda>c. ic_commodity_pubkey c = Some key)
     (\<lambda>c. c\<lparr>ic_status := status_text status\<rparr>) (xd_commodities d)\<rparr>)"

section \<open>Events of fee\_router\<close>

definition pool_registered :: "idx_env \<Rightarrow> NormalizedTx \<Rightarrow> string \<Rightarrow> string \<Rightarrow> string \<Rightarrow> string \<Rightarrow> int \<Rightarrow> unit xio" where
  "pool_registered env tx pool base quote commodity fee = io_bind (upsertPool env
     \<lparr>pu_pool = pool, pu_baseMint = base, pu_quoteMint = quote, pu_commodity = commodity, pu_feeBps = fee,
      pu_creator = (if nt_feePayer tx = [] then pool else nt_feePayer tx)\<rparr> (nt_blockTime tx) (Some (nt_signature tx))) (\<lambda>_. io_ret ())"

definition if_pool :: "string \<Rightarrow> (string \<times> string \<Rightarrow> unit xio) \<Rightarrow> unit xio" where
  "if_pool pool body = io_bind (poolExists pool) (\<lambda>p. case p of None \<Rightarrow> io_ret () | Some mints \<Rightarrow> body mints)"

definition fees_claimed :: "NormalizedTx \<Rightarrow> string \<Rightarrow> int \<Rightarrow> int \<Rightarrow> int \<Rightarrow> unit xio" where
  "fees_claimed tx pool source quote base = if_pool pool (\<lambda>_. sql_write (\<lambda>d. d\<lparr>xd_fee_claims := insert_or_ignore
     (\<lambda>r. (fc_sig r, fc_pool r, fc_source r)) \<lparr>fc_pool = pool, fc_source = source, fc_quote_amount = human quote 6,
       fc_base_amount = human base 6, fc_ts = nt_blockTime tx, fc_sig = nt_signature tx\<rparr> (xd_fee_claims d)\<rparr>))"

definition fees_split :: "NormalizedTx \<Rightarrow> string \<Rightarrow> int \<Rightarrow> int \<Rightarrow> int \<Rightarrow> unit xio" where
  "fees_split tx pool holders buyback protocol = if_pool pool (\<lambda>_. sql_write (\<lambda>d. d\<lparr>xd_fee_splits := insert_or_ignore
     (\<lambda>r. (fs_sig r, fs_pool r)) \<lparr>fs_sig = nt_signature tx, fs_pool = pool, fs_holders = human holders 6,
       fs_buyback = human buyback 6, fs_protocol = human protocol 6, fs_ts = nt_blockTime tx\<rparr> (xd_fee_splits d)\<rparr>))"

definition migration_recorded :: "idx_env \<Rightarrow> NormalizedTx \<Rightarrow> string \<Rightarrow> string \<Rightarrow> unit xio" where
  "migration_recorded env tx pool damm = if_pool pool (\<lambda>(base, quote).
     io_bind (io_result (idx_dammTokenVault env base damm)) (\<lambda>bv. io_bind (io_result (idx_dammTokenVault env quote damm)) (\<lambda>qv.
     sql_write (\<lambda>d. d\<lparr>xd_pools := update_where (\<lambda>p. ip_dbc_pool p = pool)
       (\<lambda>p. p\<lparr>ip_migrated_at := coalesce (ip_migrated_at p) (Some (nt_blockTime tx)), ip_damm_pool := Some damm,
         ip_damm_base_vault := Some bv, ip_damm_quote_vault := Some qv\<rparr>) (xd_pools d)\<rparr>))))"

section \<open>Events of distributor and buyback\<close>

definition epoch_key :: "IdxEpoch \<Rightarrow> string \<times> int" where
  "epoch_key e = (xe_pool e, xe_index e)"

text \<open>The key of the account is unique as well.\<close>

definition epochs_upsert :: "IdxEpoch \<Rightarrow> idx_db \<Rightarrow> string + unit \<times> idx_db" where
  "epochs_upsert row d =
     (if list_ex (\<lambda>e. epoch_key e \<noteq> epoch_key row \<and> xe_epoch_pubkey e = xe_epoch_pubkey row) (xd_epochs d) \<and>
         \<not> list_ex (\<lambda>e. epoch_key e = epoch_key row \<and> xe_epoch_pubkey e \<noteq> None) (xd_epochs d) then Inl ''epochs_pubkey_uniq''
      else Inr ((), d\<lparr>xd_epochs := upsert epoch_key (\<lambda>e. e\<lparr>xe_total := xe_total row, xe_eligible := xe_eligible row,
        xe_epoch_pubkey := coalesce (xe_epoch_pubkey e) (xe_epoch_pubkey row)\<rparr>) row (xd_epochs d)\<rparr>))"

definition epoch_opened :: "idx_env \<Rightarrow> NormalizedTx \<Rightarrow> string \<Rightarrow> int \<Rightarrow> int \<Rightarrow> int \<Rightarrow> unit xio" where
  "epoch_opened env tx pool index amount holders = if_pool pool (\<lambda>(base, quote).
     io_bind (io_result (epochPda env pool index)) (\<lambda>key.
     sql (epochs_upsert \<lparr>xe_pool = pool, xe_index = index, xe_coin_mint = quote, xe_start_ts = nt_blockTime tx,
       xe_end_ts = nt_blockTime tx, xe_total = human amount 6, xe_pushed = 0, xe_claimed = 0, xe_eligible = holders,
       xe_finalized = False, xe_merkle_root = None, xe_epoch_pubkey = Some key\<rparr>)))"

definition insert_payout :: "PayoutCol \<Rightarrow> idx_db \<Rightarrow> string + nat \<times> idx_db" where
  "insert_payout r d = (case sql_insert payout_key r (xd_payouts d) of (n, t) \<Rightarrow> Inr (n, d\<lparr>xd_payouts := t\<rparr>))"

definition on_epoch :: "string \<Rightarrow> int \<Rightarrow> (IdxEpoch \<Rightarrow> IdxEpoch) \<Rightarrow> idx_db \<Rightarrow> idx_db" where
  "on_epoch pool index f d = d\<lparr>xd_epochs := update_where (\<lambda>e. epoch_key e = (pool, index)) f (xd_epochs d)\<rparr>"

definition payout_seen :: "idx_env \<Rightarrow> NormalizedTx \<Rightarrow> string \<Rightarrow> string \<Rightarrow> string \<Rightarrow> string \<Rightarrow> int \<Rightarrow> int \<Rightarrow> unit xio" where
  "payout_seen env tx pool epoch wallet mint amount kind = if_pool pool (\<lambda>_.
     io_bind (epochIndexFor env pool epoch) (\<lambda>idx. case idx of None \<Rightarrow> io_ret () | Some index \<Rightarrow>
     io_bind (sql (insert_payout \<lparr>yc_pool = pool, yc_epoch = index, yc_wallet = wallet, yc_coin_mint = mint,
       yc_amount = human amount 6, yc_kind = kind, yc_ts = nt_blockTime tx, yc_sig = Some (nt_signature tx)\<rparr>)) (\<lambda>n.
     if n \<noteq> 1 then io_ret ()
     else if kind = 1 then
       io_then (sql_write (\<lambda>d. d\<lparr>xd_leaves := update_where (\<lambda>l. xl_epoch_pubkey l = epoch \<and> xl_wallet l = wallet)
         (\<lambda>l. l\<lparr>xl_claimed := True\<rparr>) (xd_leaves d)\<rparr>))
       (sql_write (on_epoch pool index (\<lambda>e. e\<lparr>xe_claimed := xe_claimed e + human amount 6\<rparr>)))
     else sql_write (on_epoch pool index (\<lambda>e. if xe_finalized e then e else e\<lparr>xe_pushed := xe_pushed e + human amount 6\<rparr>)))))"

definition epoch_finalized :: "string \<Rightarrow> int \<Rightarrow> string \<Rightarrow> int \<Rightarrow> unit xio" where
  "epoch_finalized pool index merkle remainder = sql_write (on_epoch pool index (\<lambda>e. e\<lparr>xe_finalized := True,
     xe_merkle_root := Some merkle, xe_pushed := max 0 (xe_total e - human remainder 6)\<rparr>))"

definition buyback_seen :: "NormalizedTx \<Rightarrow> string \<Rightarrow> int \<Rightarrow> int \<Rightarrow> int \<Rightarrow> unit xio" where
  "buyback_seen tx coin coinAmount gld ice = sql_write (\<lambda>d. d\<lparr>xd_buybacks := insert_or_ignore bb_sig
     \<lparr>bb_coin_mint = coin, bb_coin_amount = human coinAmount 6, bb_gld_amount = human gld 6, bb_ice_burned = human ice 6,
      bb_ts = nt_blockTime tx, bb_sig = nt_signature tx\<rparr> (xd_buybacks d)\<rparr>)"

fun applyEvent :: "idx_env \<Rightarrow> NormalizedTx \<Rightarrow> Event \<Rightarrow> unit xio" where
  "applyEvent env tx (CommodityCreated key symbol mint) = commodity_created key symbol mint"
| "applyEvent env tx (TradeEvent key user side usdc coin price spread) = desk_trade tx key user side usdc coin price spread"
| "applyEvent env tx (PriceUpdated key price conf t) = price_updated key price conf t"
| "applyEvent env tx (StatusChanged key status) = status_changed key status"
| "applyEvent env tx (PoolRegistered pool base quote commodity fee) = pool_registered env tx pool base quote commodity fee"
| "applyEvent env tx (FeesClaimed pool source quote base) = fees_claimed tx pool source quote base"
| "applyEvent env tx (FeesSplit pool holders buyback protocol) = fees_split tx pool holders buyback protocol"
| "applyEvent env tx (MigrationRecorded pool damm) = migration_recorded env tx pool damm"
| "applyEvent env tx (EpochOpened pool index amount holders) = epoch_opened env tx pool index amount holders"
| "applyEvent env tx (PayoutEvent pool epoch wallet mint amount kind) = payout_seen env tx pool epoch wallet mint amount kind"
| "applyEvent env tx (EpochFinalized pool index merkle remainder) = epoch_finalized pool index merkle remainder"
| "applyEvent env tx (BuybackEvent coin c g i) = buyback_seen tx coin c g i"

section \<open>Swaps and balances\<close>

definition round18 :: "rat \<Rightarrow> rat" where
  "round18 x = of_int (sql_round (x * 10 ^ 18)) / 10 ^ 18"

definition usd_price :: "string \<Rightarrow> int \<Rightarrow> rat option \<Rightarrow> idx_db \<Rightarrow> rat" where
  "usd_price symbol ts last_price d =
     (case first_row (sort_key (\<lambda>r. - pc_ts r) (filter (\<lambda>r. pc_commodity r = symbol \<and> pc_ts r \<le> ts) (xd_prices d))) of
        Some r \<Rightarrow> pc_price r | None \<Rightarrow> (case last_price of Some x \<Rightarrow> x | None \<Rightarrow> 0))"

definition trade_row :: "idx_env \<Rightarrow> NormalizedTx \<Rightarrow> string \<Rightarrow> DecodedSwap \<Rightarrow> IdxCommodity \<Rightarrow> idx_db \<Rightarrow> TradeRow" where
  "trade_row env tx key s c d = (let q = xv_div env (of_int (ds_quote s)) (of_int (ds_base s)) in
     \<lparr>xt_sig = key, xt_pool = ds_pool s, xt_ts = nt_blockTime tx, xt_side = ds_side s,
      xt_base = of_int (ds_base s) / 10 ^ 6, xt_quote = of_int (ds_quote s) / 10 ^ 6, xt_price_quote = round18 q,
      xt_price_usd = round18 (q * usd_price (ic_symbol c) (nt_blockTime tx) (ic_last_price c) d), xt_trader = ds_trader s\<rparr>)"

text \<open>\<open>insert ... select\<close>: no row without the pool and its commodity.\<close>

definition insert_trade :: "idx_env \<Rightarrow> NormalizedTx \<Rightarrow> string \<Rightarrow> DecodedSwap \<Rightarrow> idx_db \<Rightarrow> string + nat \<times> idx_db" where
  "insert_trade env tx key s d =
     (case first_row (filter (\<lambda>p. ip_dbc_pool p = ds_pool s) (xd_pools d)) of None \<Rightarrow> Inr (0, d) | Some p \<Rightarrow>
     (case first_row (filter (\<lambda>c. ic_symbol c = ip_commodity p) (xd_commodities d)) of None \<Rightarrow> Inr (0, d) | Some c \<Rightarrow>
     (case sql_insert xt_sig (trade_row env tx key s c d) (xd_trades d) of (n, t) \<Rightarrow> Inr (n, d\<lparr>xd_trades := t\<rparr>))))"

definition swap_key :: "NormalizedTx \<Rightarrow> nat \<Rightarrow> string" where
  "swap_key tx i = (if i = 0 then nt_signature tx else nt_signature tx @ '':'' @ int_text (int i))"

definition write_swap :: "idx_env \<Rightarrow> NormalizedTx \<Rightarrow> nat \<times> DecodedSwap \<Rightarrow> nat \<Rightarrow> nat xio" where
  "write_swap env tx p n = (case p of (i, s) \<Rightarrow> if ds_base s = 0 then io_ret n else
     io_bind (sql (insert_trade env tx (swap_key tx i) s)) (\<lambda>k. io_ret (n + k)))"

definition writeSwaps :: "idx_env \<Rightarrow> NormalizedTx \<Rightarrow> PoolRef list \<Rightarrow> nat xio" where
  "writeSwaps env tx pools = io_fold (enumerate 0 (decodeSwaps tx pools)) (write_swap env tx) 0"

definition event_key :: "BalanceEvent \<Rightarrow> string \<times> string \<times> string" where
  "event_key r = (xb_pool r, xb_wallet r, xb_sig r)"

definition balance_key :: "Balance \<Rightarrow> string \<times> string" where
  "balance_key b = (bl_pool b, bl_wallet b)"

definition balance_event :: "NormalizedTx \<Rightarrow> DecodedBalanceDelta \<Rightarrow> BalanceEvent" where
  "balance_event tx x = \<lparr>xb_pool = dd_pool x, xb_wallet = dd_wallet x, xb_delta = human (dd_delta x) 6, xb_slot = nt_slot tx,
     xb_ts = nt_blockTime tx, xb_sig = nt_signature tx\<rparr>"

definition insert_balance_event :: "BalanceEvent \<Rightarrow> idx_db \<Rightarrow> string + nat \<times> idx_db" where
  "insert_balance_event r d = (case sql_insert event_key r (xd_balance_events d) of (n, t) \<Rightarrow> Inr (n, d\<lparr>xd_balance_events := t\<rparr>))"

definition add_balance :: "BalanceEvent \<Rightarrow> idx_db \<Rightarrow> idx_db" where
  "add_balance r d = d\<lparr>xd_balances := upsert balance_key
     (\<lambda>b. b\<lparr>bl_amount := bl_amount b + xb_delta r, bl_updated_slot := max (bl_updated_slot b) (xb_slot r)\<rparr>)
     \<lparr>bl_pool = xb_pool r, bl_wallet = xb_wallet r, bl_amount = xb_delta r, bl_updated_slot = xb_slot r\<rparr> (xd_balances d)\<rparr>"

definition write_balance :: "NormalizedTx \<Rightarrow> DecodedBalanceDelta \<Rightarrow> nat \<Rightarrow> nat xio" where
  "write_balance tx x n = io_bind (sql (insert_balance_event (balance_event tx x))) (\<lambda>k.
     if k \<noteq> 1 then io_ret n else io_then (sql_write (add_balance (balance_event tx x))) (io_ret (n + 1)))"

definition writeBalanceDeltas :: "NormalizedTx \<Rightarrow> PoolRef list \<Rightarrow> nat xio" where
  "writeBalanceDeltas tx pools = io_fold (decodeBalanceDeltas tx pools) (write_balance tx) 0"

section \<open>One transaction\<close>

definition icemarketsProgramIds :: "idx_env \<Rightarrow> string list" where
  "icemarketsProgramIds env = map (programIds (xv_env env)) all_programs"

definition ensureLogs :: "idx_env \<Rightarrow> NormalizedTx \<Rightarrow> NormalizedTx xio" where
  "ensureLogs env tx = (if nt_logs tx \<noteq> None \<or> set (nt_programIds tx) \<inter> set (icemarketsProgramIds env) = {} then io_ret tx else
     (case xv_rpc env of None \<Rightarrow> io_ret tx | Some rpc \<Rightarrow>
       io_bind (io_result (some_or (rp_logs rpc (nt_signature tx)) ''unavailable'')) (\<lambda>logs. io_ret (tx\<lparr>nt_logs := logs\<rparr>))))"

definition program_rank :: "Event \<Rightarrow> nat" where
  "program_rank ev = (case program_of ev of PegDesk \<Rightarrow> 0 | FeeRouter \<Rightarrow> 1 | DistributorProgram \<Rightarrow> 2 | BuybackProgram \<Rightarrow> 3)"

definition contains :: "string \<Rightarrow> string \<Rightarrow> bool" where
  "contains needle s \<longleftrightarrow> list_ex (\<lambda>i. take (length needle) (drop i s) = needle) [0..<Suc (length s)]"

fun is_registration :: "Event \<Rightarrow> bool" where
  "is_registration (PoolRegistered _ _ _ _ _) = True"
| "is_registration _ = False"

definition apply_one :: "idx_env \<Rightarrow> NormalizedTx \<Rightarrow> Event \<Rightarrow> unit xio" where
  "apply_one env tx ev = io_then (applyEvent env tx ev)
     (io_modify (\<lambda>w. w\<lparr>iw_result := (iw_result w)\<lparr>ir_events := ir_events (iw_result w) + 1\<rparr>\<rparr>))"

definition tx_events :: "idx_env \<Rightarrow> NormalizedTx \<Rightarrow> Event list" where
  "tx_events env tx = (case nt_logs tx of None \<Rightarrow> []
     | Some logs \<Rightarrow> sort_key program_rank (decodeAnchorEvents (xv_env env) (xv_idl env) logs))"

text \<open>A registration whose event was cut off by the truncation of the logs.\<close>

definition lost_registration :: "idx_env \<Rightarrow> NormalizedTx \<Rightarrow> bool" where
  "lost_registration env tx \<longleftrightarrow> (case nt_logs tx of None \<Rightarrow> False | Some logs \<Rightarrow>
     programIds (xv_env env) FeeRouter \<in> set (nt_programIds tx) \<and> list_ex (contains ''Instruction: RegisterPool'') logs \<and>
     \<not> list_ex is_registration (tx_events env tx))"

definition ingest_pools :: "idx_env \<Rightarrow> NormalizedTx \<Rightarrow> unit xio" where
  "ingest_pools env tx = io_bind (loadPoolRefs env (touchedMints tx)) (\<lambda>pools. if pools = [] then io_ret () else
     io_bind (writeSwaps env tx pools) (\<lambda>n.
     io_then (io_modify (\<lambda>w. w\<lparr>iw_result := (iw_result w)\<lparr>ir_trades := n\<rparr>\<rparr>))
     (io_bind (writeBalanceDeltas tx pools) (\<lambda>m.
     io_modify (\<lambda>w. w\<lparr>iw_result := (iw_result w)\<lparr>ir_balanceEvents := m\<rparr>\<rparr>)))))"

definition ingest_body :: "idx_env \<Rightarrow> NormalizedTx \<Rightarrow> unit xio" where
  "ingest_body env tx0 = io_then (if nt_failed tx0 then io_ret () else
       io_bind (ensureLogs env tx0) (\<lambda>tx.
       io_then (io_for (tx_events env tx) (apply_one env tx))
       (io_then (if lost_registration env tx then io_bind (reconcilePools env (nt_blockTime tx)) (\<lambda>_. io_ret ()) else io_ret ())
       (ingest_pools env tx))))
     sql_release"

definition raw_upsert :: "NormalizedTx \<Rightarrow> string option \<Rightarrow> string option \<Rightarrow> idx_db \<Rightarrow> idx_db" where
  "raw_upsert tx payload err d = d\<lparr>xd_raw_events := upsert rw_sig (\<lambda>r. r\<lparr>rw_error := err\<rparr>)
     \<lparr>rw_sig = nt_signature tx, rw_slot = nt_slot tx, rw_ts = nt_blockTime tx, rw_payload = payload, rw_error = err\<rparr> (xd_raw_events d)\<rparr>"

definition no_result :: IngestResult where
  "no_result = \<lparr>ir_events = 0, ir_trades = 0, ir_balanceEvents = 0, ir_error = None\<rparr>"

text \<open>\<open>payload\<close> is the JSON text of the delivered item, when there is one.\<close>

definition ingestTransaction :: "idx_env \<Rightarrow> NormalizedTx \<Rightarrow> string option \<Rightarrow> IngestResult xio" where
  "ingestTransaction env tx payload =
     io_then (io_modify (\<lambda>w. w\<lparr>iw_result := no_result\<rparr>))
     (io_then sql_savepoint
     (io_then (io_catch (ingest_body env tx) (\<lambda>err. io_then sql_rollback_to
         (io_modify (\<lambda>w. w\<lparr>iw_result := (iw_result w)\<lparr>ir_error := Some err\<rparr>\<rparr>))))
     (io_bind (io_gets iw_result) (\<lambda>result.
     io_then (if payload \<noteq> None \<or> ir_error result \<noteq> None then sql_write (raw_upsert tx payload (ir_error result)) else io_ret ())
       (io_ret result)))))"

section \<open>The webhook\<close>

text \<open>
  A delivered item: its JSON, the transaction it normalizes to (\<open>None\<close> for an unknown shape, an error
  for a malformed one), and its text.
\<close>

record Item =
  it_json :: json
  it_raw :: RawRpcTx
  it_enhanced :: HeliusEnhancedTx
  it_text :: string

definition idx_normalize :: "int \<Rightarrow> Item \<Rightarrow> string + NormalizedTx option" where
  "idx_normalize now item =
     (if isRawRpc (it_json item) then sbind (fromRawRpc now (it_raw item)) (\<lambda>tx. Inr (Some tx))
      else if isHeliusEnhanced (it_json item) then sbind (fromHeliusEnhanced now (it_enhanced item)) (\<lambda>tx. Inr (Some tx))
      else Inr None)"

record Totals =
  tt_txs :: nat
  tt_events :: nat
  tt_trades :: nat
  tt_balanceEvents :: nat
  tt_errors :: nat
  tt_skipped :: nat

definition no_totals :: Totals where
  "no_totals = \<lparr>tt_txs = 0, tt_events = 0, tt_trades = 0, tt_balanceEvents = 0, tt_errors = 0, tt_skipped = 0\<rparr>"

definition add_result :: "IngestResult \<Rightarrow> Totals \<Rightarrow> Totals" where
  "add_result r t = t\<lparr>tt_txs := tt_txs t + 1, tt_events := tt_events t + ir_events r, tt_trades := tt_trades t + ir_trades r,
     tt_balanceEvents := tt_balanceEvents t + ir_balanceEvents r, tt_errors := tt_errors t + (if ir_error r = None then 0 else 1)\<rparr>"

definition deliver_item :: "idx_env \<Rightarrow> Item \<Rightarrow> Totals \<times> NormalizedTx option \<Rightarrow> (Totals \<times> NormalizedTx option) xio" where
  "deliver_item env item st = (case st of (totals, last_tx) \<Rightarrow>
     io_bind (io_gets iw_now) (\<lambda>now. io_bind (io_result (idx_normalize now item)) (\<lambda>t. case t of
       None \<Rightarrow> io_ret (totals\<lparr>tt_skipped := tt_skipped totals + 1\<rparr>, last_tx)
     | Some tx \<Rightarrow> io_bind (ingestTransaction env tx (Some (it_text item))) (\<lambda>r. io_ret (add_result r totals, Some tx)))))"

definition set_cursor :: "string \<Rightarrow> string \<Rightarrow> int \<Rightarrow> idx_db \<Rightarrow> idx_db" where
  "set_cursor source sig slot d = d\<lparr>xd_cursor := upsert cu_source (\<lambda>c. c\<lparr>cu_last_sig := sig, cu_last_slot := slot\<rparr>)
     \<lparr>cu_source = source, cu_last_sig = sig, cu_last_slot = slot\<rparr> (xd_cursor d)\<rparr>"

datatype Reply = Unauthorized | NotAnArray | IngestFailed | Ingested nat Totals

definition deliver_batch :: "idx_env \<Rightarrow> Item list \<Rightarrow> Reply xio" where
  "deliver_batch env items = io_catch
     (io_then sql_begin
     (io_bind (io_fold items (deliver_item env) (no_totals, None)) (\<lambda>(totals, last_tx).
     io_then (case last_tx of None \<Rightarrow> io_ret () | Some tx \<Rightarrow> sql_write (set_cursor ''helius_webhook'' (nt_signature tx) (nt_slot tx)))
     (io_then sql_commit (io_ret (Ingested (length items) totals))))))
     (\<lambda>err. io_then sql_rollback (io_ret IngestFailed))"

text \<open>\<open>POST /helius\<close>: the shared secret, the authorization header sent, the body.\<close>

definition helius :: "idx_env \<Rightarrow> string \<Rightarrow> string option \<Rightarrow> Item list option \<Rightarrow> Reply xio" where
  "helius env secret auth body = (if secret \<noteq> [] \<and> auth \<noteq> Some secret then io_ret Unauthorized
     else case body of None \<Rightarrow> io_ret NotAnArray | Some items \<Rightarrow> deliver_batch env items)"

end
