(* ===== verification/Ledger.thy ===== *)
theory Ledger
  imports Ingest
begin

text \<open>
  What the writes of the indexer promise under faults, crashes and repeated deliveries: a Hoare
  calculus for statements of a connection (precondition on what the connection sees, on the savepoint
  and on what is committed), the agreement of \<open>balances\<close> with \<open>balance_events\<close>, and the atomicity of a
  transaction that fails.
\<close>

section \<open>Statements under a connection\<close>

text \<open>\<open>S\<close> holds of the committed tables, \<open>M\<close> of the savepoint, \<open>L\<close> of what the connection sees.\<close>

definition conn :: "(idx_db \<Rightarrow> bool) \<Rightarrow> (idx_db \<Rightarrow> bool) \<Rightarrow> (idx_db \<Rightarrow> bool) \<Rightarrow> idx_world \<Rightarrow> bool" where
  "conn S M L w \<longleftrightarrow> iw_in_tx w \<and> S (iw_saved w) \<and> M (iw_mark w) \<and> L (iw_db w)"

abbreviation anything :: "idx_db \<Rightarrow> bool" where
  "anything d \<equiv> True"

text \<open>An action that takes \<open>L\<close> to \<open>L'\<close> and ends early anywhere, without touching \<open>S\<close> and \<open>M\<close>.\<close>

definition steps :: "(idx_db \<Rightarrow> bool) \<Rightarrow> (idx_db \<Rightarrow> bool) \<Rightarrow> (idx_db \<Rightarrow> bool) \<Rightarrow> 'a xio \<Rightarrow> ('a \<Rightarrow> idx_db \<Rightarrow> bool) \<Rightarrow> bool" where
  "steps S M L m Q \<longleftrightarrow> io_spec (conn S M L) m (\<lambda>a. conn S M (Q a)) (conn S M anything)"

abbreviation keeps :: "(idx_db \<Rightarrow> bool) \<Rightarrow> (idx_db \<Rightarrow> bool) \<Rightarrow> (idx_db \<Rightarrow> bool) \<Rightarrow> 'a xio \<Rightarrow> bool" where
  "keeps S M L m \<equiv> steps S M L m (\<lambda>_. L)"

named_theorems steps_rules "rules for statements of a connection"

lemma conn_pop: "conn S M L w \<Longrightarrow> pop_idx w = (f, w') \<Longrightarrow> conn S M L w'"
  by (auto simp: conn_def pop_idx_def split: list.splits)

lemma steps_remote:
  assumes "\<And>w r w'. conn S M L w \<Longrightarrow> act w = (r, w') \<Longrightarrow> conn S M anything w' \<and> (\<forall>a. r = Ret a \<longrightarrow> conn S M (Q a) w')"
  shows "steps S M L (remote pop_idx act) Q"
  unfolding steps_def
proof (rule remote_spec)
  show "conn S M L w'" if "conn S M L w" "pop_idx w = (f, w')" for w f w' using that by (rule conn_pop)
  show "conn S M anything w" if "conn S M L w" for w using that by (simp add: conn_def)
  show "conn S M anything w' \<and> (\<forall>a. r = Ret a \<longrightarrow> conn S M (Q a) w')" if "conn S M L w" "act w = (r, w')" for w r w'
    using that by (rule assms)
qed

lemma steps_sql:
  assumes "\<And>d a d'. L d \<Longrightarrow> f d = Inr (a, d') \<Longrightarrow> Q a d'"
  shows "steps S M L (sql f) Q"
  unfolding sql_def
  by (rule steps_remote) (auto simp: conn_def put_db_def split: sum.splits intro: assms)

lemma steps_read [steps_rules]: "(\<And>d. L d \<Longrightarrow> Q (f d) d) \<Longrightarrow> steps S M L (sql_read f) Q"
  unfolding sql_read_def by (rule steps_sql) auto

lemma steps_write [steps_rules]: "(\<And>d. L d \<Longrightarrow> Q () (f d)) \<Longrightarrow> steps S M L (sql_write f) Q"
  unfolding sql_write_def by (rule steps_sql) auto

lemma steps_ret [steps_rules]: "(\<And>d. L d \<Longrightarrow> Q a d) \<Longrightarrow> steps S M L (io_ret a) Q"
  unfolding steps_def by (rule io_ret_spec) (auto simp: conn_def)

lemma steps_result [steps_rules]: "(\<And>a d. r = Inr a \<Longrightarrow> L d \<Longrightarrow> Q a d) \<Longrightarrow> steps S M L (io_result r) Q"
  unfolding steps_def by (rule io_result_spec) (auto simp: conn_def)

lemma steps_local [steps_rules]:
  assumes "\<And>d. L d \<Longrightarrow> Q () d"
    and "\<And>w. iw_in_tx (f w) = iw_in_tx w \<and> iw_saved (f w) = iw_saved w \<and> iw_mark (f w) = iw_mark w \<and> iw_db (f w) = iw_db w"
  shows "steps S M L (io_modify f) Q"
  using assms by (simp add: steps_def io_spec_def io_modify_def conn_def)

lemma steps_gets [steps_rules]: "(\<And>a d. L d \<Longrightarrow> Q a d) \<Longrightarrow> steps S M L (io_gets f) Q"
  unfolding steps_def by (rule io_gets_spec) (auto simp: conn_def)

lemma steps_bind: "steps S M L m R \<Longrightarrow> (\<And>a. steps S M (R a) (f a) Q) \<Longrightarrow> steps S M L (io_bind m f) Q"
  unfolding steps_def by (rule io_bind_spec)

lemma steps_then: "steps S M L m (\<lambda>_. R) \<Longrightarrow> steps S M R n Q \<Longrightarrow> steps S M L (io_then m n) Q"
  unfolding steps_def by (rule io_then_spec)

lemma steps_pre: "steps S M L' m Q \<Longrightarrow> (\<And>d. L d \<Longrightarrow> L' d) \<Longrightarrow> steps S M L m Q"
  unfolding steps_def by (erule io_spec_pre) (auto simp: conn_def)

lemma steps_post: "steps S M L m Q' \<Longrightarrow> (\<And>a d. Q' a d \<Longrightarrow> Q a d) \<Longrightarrow> steps S M L m Q"
  unfolding steps_def by (erule io_spec_post) (auto simp: conn_def)

lemma keeps_bind [steps_rules]: "keeps S M L m \<Longrightarrow> (\<And>a. keeps S M L (f a)) \<Longrightarrow> keeps S M L (io_bind m f)"
  by (rule steps_bind)

lemma keeps_then [steps_rules]: "keeps S M L m \<Longrightarrow> keeps S M L n \<Longrightarrow> keeps S M L (io_then m n)"
  by (rule steps_then)

lemma keeps_if [steps_rules]: "keeps S M L m \<Longrightarrow> keeps S M L n \<Longrightarrow> keeps S M L (if c then m else n)"
  by simp

lemma keeps_option [steps_rules]: "keeps S M L m \<Longrightarrow> (\<And>x. keeps S M L (f x)) \<Longrightarrow> keeps S M L (case v of None \<Rightarrow> m | Some x \<Rightarrow> f x)"
  by (cases v) simp_all

lemma keeps_prod [steps_rules]: "(\<And>x y. keeps S M L (f x y)) \<Longrightarrow> keeps S M L (case p of (x, y) \<Rightarrow> f x y)"
  by (cases p) simp

lemma keeps_for [steps_rules]: "(\<And>x. x \<in> set xs \<Longrightarrow> keeps S M L (body x)) \<Longrightarrow> keeps S M L (io_for xs body)"
  unfolding steps_def by (rule io_for_spec)

lemma keeps_fold [steps_rules]: "(\<And>x s. x \<in> set xs \<Longrightarrow> keeps S M L (body x s)) \<Longrightarrow> keeps S M L (io_fold xs body s)"
  unfolding steps_def by (rule io_fold_spec)

section \<open>Statements that leave the ledger alone\<close>

definition ledger :: "idx_db \<Rightarrow> BalanceEvent list \<times> Balance list" where
  "ledger d = (xd_balance_events d, xd_balances d)"

definition ledger_blind :: "(idx_db \<Rightarrow> bool) \<Rightarrow> bool" where
  "ledger_blind L \<longleftrightarrow> (\<forall>d d'. ledger d = ledger d' \<longrightarrow> L d \<longrightarrow> L d')"

lemma blindD: "ledger_blind L \<Longrightarrow> L d \<Longrightarrow> ledger d = ledger d' \<Longrightarrow> L d'"
  unfolding ledger_blind_def by blast

lemma keeps_sql_blind:
  assumes "ledger_blind L" "\<And>d a d'. f d = Inr (a, d') \<Longrightarrow> ledger d = ledger d'"
  shows "keeps S M L (sql f)"
proof (rule steps_sql)
  fix d a d'
  assume "L d" "f d = Inr (a, d')"
  then show "L d'" using assms(2) by (intro blindD [OF assms(1), of d d']) simp_all
qed

lemma keeps_write_blind:
  assumes "ledger_blind L" "\<And>d. ledger d = ledger (f d)"
  shows "keeps S M L (sql_write f)"
proof (rule steps_write)
  fix d
  assume "L d"
  then show "L (f d)" using assms(2) [of d] by (rule blindD [OF assms(1)])
qed

lemmas blind_rules = keeps_sql_blind keeps_write_blind

lemma keeps_symbol: "keeps S M L (symbolForCommodity k)"
  unfolding symbolForCommodity_def by (rule steps_read)

lemma keeps_if_pool: "(\<And>m. keeps S M L (body m)) \<Longrightarrow> keeps S M L (if_pool pool body)"
  unfolding if_pool_def poolExists_def by (intro steps_rules)

lemma keeps_epoch_index: "keeps S M L (epochIndexFor env pool key)"
  unfolding epochIndexFor_def Let_def by (intro steps_rules)

lemma keeps_upsertPool: "ledger_blind L \<Longrightarrow> keeps S M L (upsertPool env p ts sig)"
  unfolding upsertPool_def Let_def
  by (intro steps_rules keeps_symbol blind_rules) (auto simp: pools_upsert_def ledger_def split: if_splits)

lemma keeps_reconcile: "ledger_blind L \<Longrightarrow> keeps S M L (reconcilePools env ts)"
  unfolding reconcilePools_def reconcile_one_def by (intro steps_rules keeps_upsertPool)

lemma keeps_peg_desk:
  assumes "ledger_blind L"
  shows "keeps S M L (commodity_created k s m)" "keeps S M L (desk_trade tx k u side x y p b)"
    "keeps S M L (price_updated k p c t)" "keeps S M L (status_changed k st)"
proof -
  show "keeps S M L (commodity_created k s m)" unfolding commodity_created_def
    by (intro steps_rules blind_rules assms)
      (auto simp: set_commodity_keys_def insert_commodity_def ledger_def Let_def split: if_splits)
  show "keeps S M L (desk_trade tx k u side x y p b)" unfolding desk_trade_def
    by (intro steps_rules blind_rules assms keeps_symbol)
      (auto simp: insert_commodity_trade_def sql_insert_def move_supply_def ledger_def)
  show "keeps S M L (price_updated k p c t)" unfolding price_updated_def Let_def
    by (intro steps_rules blind_rules assms keeps_symbol) (auto simp: ledger_def)
  show "keeps S M L (status_changed k st)" unfolding status_changed_def
    by (intro blind_rules assms) (auto simp: ledger_def)
qed

lemma keeps_fee_router:
  assumes "ledger_blind L"
  shows "keeps S M L (pool_registered env tx p b q c f)" "keeps S M L (fees_claimed tx p so qa ba)"
    "keeps S M L (fees_split tx p ha bb ra)" "keeps S M L (migration_recorded env tx p dp)"
proof -
  show "keeps S M L (pool_registered env tx p b q c f)" unfolding pool_registered_def
    by (intro steps_rules keeps_upsertPool assms)
  show "keeps S M L (fees_claimed tx p so qa ba)" unfolding fees_claimed_def
    by (intro keeps_if_pool blind_rules assms) (simp add: ledger_def)
  show "keeps S M L (fees_split tx p ha bb ra)" unfolding fees_split_def
    by (intro keeps_if_pool blind_rules assms) (simp add: ledger_def)
  show "keeps S M L (migration_recorded env tx p dp)" unfolding migration_recorded_def
    by (intro keeps_if_pool steps_rules blind_rules assms) (simp_all add: ledger_def)
qed

lemma keeps_distributor:
  assumes "ledger_blind L"
  shows "keeps S M L (epoch_opened env tx p i a h)" "keeps S M L (payout_seen env tx p e w m a k)"
    "keeps S M L (epoch_finalized p i r x)" "keeps S M L (buyback_seen tx c x g i)"
proof -
  show "keeps S M L (epoch_opened env tx p i a h)" unfolding epoch_opened_def
    by (intro keeps_if_pool steps_rules blind_rules assms) (auto simp: epochs_upsert_def ledger_def split: if_splits)
  show "keeps S M L (payout_seen env tx p e w m a k)" unfolding payout_seen_def
    by (intro keeps_if_pool steps_rules blind_rules assms keeps_epoch_index)
      (auto simp: insert_payout_def sql_insert_def on_epoch_def ledger_def)
  show "keeps S M L (epoch_finalized p i r x)" unfolding epoch_finalized_def
    by (intro blind_rules assms) (simp add: ledger_def on_epoch_def)
  show "keeps S M L (buyback_seen tx c x g i)" unfolding buyback_seen_def
    by (intro blind_rules assms) (simp add: ledger_def)
qed

lemma keeps_event: "ledger_blind L \<Longrightarrow> keeps S M L (apply_one env tx ev)"
  unfolding apply_one_def
  by (rule keeps_then, cases ev) (simp_all add: keeps_peg_desk keeps_fee_router keeps_distributor steps_local)

lemma keeps_load: "ledger_blind L \<Longrightarrow> keeps S M L (loadPoolRefs env mints)"
  unfolding loadPoolRefs_def load_pool_def
  by (intro steps_rules blind_rules) (simp_all add: set_vaults_def ledger_def)

lemma keeps_swaps: "ledger_blind L \<Longrightarrow> keeps S M L (writeSwaps env tx pools)"
  unfolding writeSwaps_def write_swap_def
  by (intro steps_rules blind_rules)
    (auto simp: insert_trade_def sql_insert_def ledger_def split: option.splits)

lemma keeps_logs: "keeps S M L (ensureLogs env tx)"
  unfolding ensureLogs_def by (intro steps_rules)

section \<open>Whole deliveries\<close>

text \<open>
  The contract of a property of the ledger: no other statement can see it change, and it survives the
  two statements that write one balance change.  It then holds of the committed tables after any
  deliveries, whatever fails.
\<close>

definition reconnect :: "idx_world \<Rightarrow> idx_world" where
  "reconnect w = w\<lparr>iw_db := iw_saved w, iw_in_tx := False\<rparr>"

record Request =
  rq_env :: idx_env
  rq_secret :: string
  rq_auth :: "string option"
  rq_body :: "Item list option"

text \<open>Requests one after the other, each on a fresh connection.\<close>

definition deliveries :: "Request list \<Rightarrow> idx_world \<Rightarrow> idx_world" where
  "deliveries rs w = fold (\<lambda>r w. snd (helius (rq_env r) (rq_secret r) (rq_auth r) (rq_body r) (reconnect w))) rs w"

locale ledger_invariant =
  fixes L :: "idx_db \<Rightarrow> bool"
  assumes blind: "ledger_blind L"
    and writing: "\<And>S M tx x n. keeps S M L (write_balance tx x n)"
begin

lemma keeps_pools: "keeps S M L (ingest_pools env tx)"
  unfolding ingest_pools_def writeBalanceDeltas_def
  by (intro steps_rules keeps_load keeps_swaps blind writing) simp_all

lemma keeps_body: "keeps S M L (ingest_body env tx)"
  unfolding ingest_body_def sql_release_def
  by (intro steps_rules keeps_logs keeps_event keeps_reconcile keeps_pools blind steps_remote) (auto simp: conn_def)

lemma body_spec: "io_spec (conn S L L) (ingest_body env tx) (\<lambda>_. conn S L L) (conn S L anything)"
  using keeps_body [of S L] by (simp add: steps_def)

lemma rollback_spec: "io_spec (conn S L anything) sql_rollback_to (\<lambda>_. conn S L L) (conn S L anything)"
  using steps_remote [of S L anything "\<lambda>w. (Ret (), put_db (iw_mark w) w)" "\<lambda>_. L"]
  by (simp add: steps_def sql_rollback_to_def conn_def put_db_def)

lemma ingest_spec: "io_spec (conn S anything L) (ingestTransaction env tx payload) (\<lambda>_. conn S anything L) (conn S anything anything)"
proof -
  let ?E = "conn S anything anything"
  have weak: "io_spec (conn S L L) m (\<lambda>_. conn S L L) ?E" if "keeps S L L m" for m :: "'b xio"
    using that unfolding steps_def by (rule io_spec_post) (auto simp: conn_def)
  have start: "io_spec (conn S anything L) (io_modify (\<lambda>w. w\<lparr>iw_result := no_result\<rparr>)) (\<lambda>_. conn S anything L) ?E"
    by (simp add: io_spec_def io_modify_def conn_def)
  have save: "io_spec (conn S anything L) sql_savepoint (\<lambda>_. conn S L L) ?E"
    unfolding sql_savepoint_def by (rule remote_spec) (auto simp: conn_def pop_idx_def split: list.splits)
  have body: "io_spec (conn S L L) (io_catch (ingest_body env tx) (\<lambda>err. io_then sql_rollback_to
      (io_modify (\<lambda>w. w\<lparr>iw_result := (iw_result w)\<lparr>ir_error := Some err\<rparr>\<rparr>)))) (\<lambda>_. conn S L L) (conn S L anything)"
    by (rule io_catch_spec [OF body_spec], rule io_then_spec [OF rollback_spec]) (simp add: io_spec_def io_modify_def conn_def)
  have raw: "keeps S L L (io_then (if payload \<noteq> None \<or> ir_error r \<noteq> None then sql_write (raw_upsert tx payload (ir_error r)) else io_ret ()) (io_ret r))" for r
    by (intro steps_rules keeps_write_blind blind) (simp_all add: raw_upsert_def ledger_def)
  have rest: "io_spec (conn S L L) (io_bind (io_gets iw_result) (\<lambda>r. io_then (if payload \<noteq> None \<or> ir_error r \<noteq> None
      then sql_write (raw_upsert tx payload (ir_error r)) else io_ret ()) (io_ret r))) (\<lambda>_. conn S L L) ?E"
    by (rule io_bind_spec [OF io_gets_spec]) (assumption, rule weak [OF raw])
  have "io_spec (conn S anything L) (ingestTransaction env tx payload) (\<lambda>_. conn S L L) ?E"
    unfolding ingestTransaction_def
    by (intro io_then_spec [OF start] io_then_spec [OF save] io_then_spec [OF io_spec_post [OF body] rest]) (auto simp: conn_def)
  then show ?thesis by (rule io_spec_post) (auto simp: conn_def)
qed

lemma item_spec: "io_spec (conn S anything L) (deliver_item env item st) (\<lambda>_. conn S anything L) (conn S anything anything)"
proof -
  have ingest: "keeps S anything L (ingestTransaction env tx p)" for tx p
    using ingest_spec by (simp add: steps_def)
  have "keeps S anything L (deliver_item env item st)"
    unfolding deliver_item_def by (intro steps_rules ingest)
  then show ?thesis by (simp add: steps_def)
qed

lemma batch_spec: "io_spec (\<lambda>w. L (iw_saved w) \<and> L (iw_db w)) (deliver_batch env items) (\<lambda>_ w. L (iw_saved w)) (\<lambda>w. L (iw_saved w))"
proof -
  have begin_spec: "io_spec (\<lambda>w. L (iw_saved w) \<and> L (iw_db w)) sql_begin (\<lambda>_. conn L anything L) (\<lambda>w. L (iw_saved w))"
    unfolding sql_begin_def by (rule remote_spec) (auto simp: conn_def pop_idx_def split: list.splits)
  have commit_spec: "io_spec (conn L anything L) sql_commit (\<lambda>_ w. L (iw_saved w)) (\<lambda>w. L (iw_saved w))"
    unfolding sql_commit_def by (rule remote_spec) (auto simp: conn_def pop_idx_def split: list.splits)
  have rollback: "io_spec (\<lambda>w. L (iw_saved w)) sql_rollback (\<lambda>_ w. L (iw_saved w)) (\<lambda>w. L (iw_saved w))"
    unfolding sql_rollback_def by (rule remote_spec) (auto simp: pop_idx_def split: list.splits)
  have early: "io_spec (conn L anything L) m Q (\<lambda>w. L (iw_saved w))"
    if "io_spec (conn L anything L) m Q (conn L anything anything)" for m :: "'b xio" and Q
    using that by (rule io_spec_post) (auto simp: conn_def)
  have items: "io_spec (conn L anything L) (io_fold items (deliver_item env) st) (\<lambda>_. conn L anything L) (\<lambda>w. L (iw_saved w))" for st
    by (rule io_fold_spec [where I = "\<lambda>_. conn L anything L"]) (rule early [OF item_spec])
  have cursor: "io_spec (conn L anything L) (case t of None \<Rightarrow> io_ret () | Some tx \<Rightarrow>
      sql_write (set_cursor ''helius_webhook'' (nt_signature tx) (nt_slot tx))) (\<lambda>_. conn L anything L) (\<lambda>w. L (iw_saved w))" for t
  proof (rule early)
    have "keeps L anything L (case t of None \<Rightarrow> io_ret () | Some tx \<Rightarrow> sql_write (set_cursor ''helius_webhook'' (nt_signature tx) (nt_slot tx)))"
      by (intro steps_rules keeps_write_blind blind) (simp_all add: set_cursor_def ledger_def)
    then show "io_spec (conn L anything L) (case t of None \<Rightarrow> io_ret () | Some tx \<Rightarrow>
        sql_write (set_cursor ''helius_webhook'' (nt_signature tx) (nt_slot tx))) (\<lambda>_. conn L anything L) (conn L anything anything)"
      by (simp add: steps_def)
  qed
  show ?thesis unfolding deliver_batch_def
  proof (rule io_catch_spec)
    show "io_spec (\<lambda>w. L (iw_saved w)) (io_then sql_rollback (io_ret IngestFailed)) (\<lambda>_ w. L (iw_saved w)) (\<lambda>w. L (iw_saved w))" for e :: string
      by (rule io_then_spec [OF rollback]) (rule io_ret_spec)
    have fin: "io_spec (conn L anything L) (case s of (totals, last_tx) \<Rightarrow>
        io_then (case last_tx of None \<Rightarrow> io_ret () | Some tx \<Rightarrow> sql_write (set_cursor ''helius_webhook'' (nt_signature tx) (nt_slot tx)))
        (io_then sql_commit (io_ret (Ingested (length items) totals)))) (\<lambda>_ w. L (iw_saved w)) (\<lambda>w. L (iw_saved w))" for s
      by (cases s) (simp, intro io_then_spec [OF cursor] io_then_spec [OF commit_spec] io_ret_spec)
    show "io_spec (\<lambda>w. L (iw_saved w) \<and> L (iw_db w)) (io_then sql_begin
        (io_bind (io_fold items (deliver_item env) (no_totals, None)) (\<lambda>(totals, last_tx).
        io_then (case last_tx of None \<Rightarrow> io_ret () | Some tx \<Rightarrow> sql_write (set_cursor ''helius_webhook'' (nt_signature tx) (nt_slot tx)))
        (io_then sql_commit (io_ret (Ingested (length items) totals)))))) (\<lambda>_ w. L (iw_saved w)) (\<lambda>w. L (iw_saved w))"
      by (rule io_then_spec [OF begin_spec], rule io_bind_spec [OF items], rule fin)
  qed
qed

lemma helius_saved:
  assumes "L (iw_saved w)"
  shows "L (iw_saved (snd (helius env secret auth body (reconnect w))))"
proof (cases "(secret \<noteq> [] \<and> auth \<noteq> Some secret) \<or> body = None")
  case True
  then show ?thesis using assms by (auto simp: helius_def io_ret_def reconnect_def)
next
  case False
  then obtain items where b: "body = Some items" by auto
  obtain r w' where run: "deliver_batch env items (reconnect w) = (r, w')" by (cases "deliver_batch env items (reconnect w)")
  have "L (iw_saved (reconnect w)) \<and> L (iw_db (reconnect w))" using assms by (simp add: reconnect_def)
  then have "L (iw_saved w')" using io_specD [OF batch_spec _ run] by (cases r) auto
  then show ?thesis using False b by (auto simp: helius_def run)
qed

lemma deliveries_saved: "L (iw_saved w) \<Longrightarrow> L (iw_saved (deliveries rs w))"
  unfolding deliveries_def by (induction rs arbitrary: w) (simp_all add: helius_saved)

end

section \<open>Balances are the sums of their events\<close>

definition amount_at :: "Balance list \<Rightarrow> string \<times> string \<Rightarrow> rat" where
  "amount_at t k = sum_list (map bl_amount (filter (\<lambda>b. balance_key b = k) t))"

definition delta_at :: "BalanceEvent list \<Rightarrow> string \<times> string \<Rightarrow> rat" where
  "delta_at t k = sum_list (map xb_delta (filter (\<lambda>e. (xb_pool e, xb_wallet e) = k) t))"

definition ledger_ok :: "idx_db \<Rightarrow> bool" where
  "ledger_ok d \<longleftrightarrow> distinct (map balance_key (xd_balances d)) \<and> distinct (map event_key (xd_balance_events d)) \<and>
     (\<forall>k. amount_at (xd_balances d) k = delta_at (xd_balance_events d) k)"

text \<open>Between the two statements: the event is there, its amount is not.\<close>

definition pending :: "BalanceEvent \<Rightarrow> idx_db \<Rightarrow> bool" where
  "pending r d \<longleftrightarrow> distinct (map balance_key (xd_balances d)) \<and> distinct (map event_key (xd_balance_events d)) \<and>
     (\<forall>k. amount_at (xd_balances d) k + (if (xb_pool r, xb_wallet r) = k then xb_delta r else 0) = delta_at (xd_balance_events d) k)"

lemma insert_event_pending:
  assumes "ledger_ok d" "insert_balance_event r d = Inr (n, d')"
  shows "if n = 1 then pending r d' else ledger_ok d'"
  using assms by (auto simp: insert_balance_event_def sql_insert_def insert_or_ignore_def ledger_ok_def pending_def delta_at_def split: if_splits)

lemma amount_add:
  assumes "distinct (map balance_key t)" "\<And>b. balance_key (f b) = balance_key b" "\<And>b. bl_amount (f b) = bl_amount b + x"
    and "k0 \<in> balance_key ` set t"
  shows "amount_at (map (\<lambda>b. if balance_key b = k0 then f b else b) t) k = amount_at t k + (if k0 = k then x else 0)"
  using assms(1,4)
proof (induction t)
  case (Cons b t)
  show ?case
  proof (cases "balance_key b = k0")
    case True
    have "map (\<lambda>b. if balance_key b = k0 then f b else b) t = t"
      using Cons.prems(1) True by (intro map_idI) (auto simp: image_iff)
    then show ?thesis using True by (simp add: amount_at_def assms(2,3))
  next
    case False
    then show ?thesis using Cons by (auto simp: amount_at_def)
  qed
qed simp

lemma map_keys: "(\<And>b. balance_key (f b) = balance_key b) \<Longrightarrow> map balance_key (map (\<lambda>b. if balance_key b = k0 then f b else b) t) = map balance_key t"
  by (induction t) simp_all

lemma add_balance_ok:
  assumes "pending r d"
  shows "ledger_ok (add_balance r d)"
proof -
  let ?f = "\<lambda>b. b\<lparr>bl_amount := bl_amount b + xb_delta r, bl_updated_slot := max (bl_updated_slot b) (xb_slot r)\<rparr>"
  let ?new = "\<lparr>bl_pool = xb_pool r, bl_wallet = xb_wallet r, bl_amount = xb_delta r, bl_updated_slot = xb_slot r\<rparr>"
  let ?k = "(xb_pool r, xb_wallet r)"
  have keys: "balance_key (?f b) = balance_key b" for b by (simp add: balance_key_def)
  have new: "balance_key ?new = ?k" by (simp add: balance_key_def)
  have d: "distinct (map balance_key (xd_balances d))" using assms by (simp add: pending_def)
  show ?thesis
  proof (cases "?k \<in> balance_key ` set (xd_balances d)")
    case True
    then have t: "xd_balances (add_balance r d) = map (\<lambda>b. if balance_key b = ?k then ?f b else b) (xd_balances d)"
      by (simp add: add_balance_def upsert_def new)
    have "amount_at (xd_balances (add_balance r d)) k = amount_at (xd_balances d) k + (if ?k = k then xb_delta r else 0)" for k
      unfolding t by (rule amount_add [OF d keys _ True]) simp
    moreover have "map balance_key (xd_balances (add_balance r d)) = map balance_key (xd_balances d)"
      unfolding t by (rule map_keys) (rule keys)
    moreover have "xd_balance_events (add_balance r d) = xd_balance_events d" by (simp add: add_balance_def)
    ultimately show ?thesis using assms by (simp add: pending_def ledger_ok_def)
  next
    case False
    then have t: "xd_balances (add_balance r d) = xd_balances d @ [?new]" by (simp add: add_balance_def upsert_def new)
    have "amount_at (xd_balances (add_balance r d)) k = amount_at (xd_balances d) k + (if ?k = k then xb_delta r else 0)" for k
      by (simp add: t amount_at_def new)
    moreover have "distinct (map balance_key (xd_balances (add_balance r d)))" using d False by (simp add: t new)
    moreover have "xd_balance_events (add_balance r d) = xd_balance_events d" by (simp add: add_balance_def)
    ultimately show ?thesis using assms by (simp add: pending_def ledger_ok_def)
  qed
qed

lemma ledger_ok_blind: "ledger_blind ledger_ok"
  by (simp add: ledger_blind_def ledger_ok_def ledger_def)

lemma ledger_ok_write: "keeps S M ledger_ok (write_balance tx x n)"
  unfolding write_balance_def
proof (rule steps_bind)
  show "steps S M ledger_ok (sql (insert_balance_event (balance_event tx x))) (\<lambda>k. if k = 1 then pending (balance_event tx x) else ledger_ok)"
    by (rule steps_sql) (use insert_event_pending in \<open>auto split: if_splits\<close>)
  fix k :: nat
  have "steps S M (pending (balance_event tx x)) (io_then (sql_write (add_balance (balance_event tx x))) (io_ret (n + 1))) (\<lambda>_. ledger_ok)"
    by (rule steps_then [where R = ledger_ok]) (rule steps_write steps_ret, simp add: add_balance_ok)+
  moreover have "keeps S M ledger_ok (io_ret n)" by (rule steps_ret)
  ultimately show "steps S M (if k = 1 then pending (balance_event tx x) else ledger_ok)
      (if k \<noteq> 1 then io_ret n else io_then (sql_write (add_balance (balance_event tx x))) (io_ret (n + 1))) (\<lambda>_. ledger_ok)"
    by simp
qed

interpretation sums: ledger_invariant ledger_ok
  by unfold_locales (rule ledger_ok_blind, rule ledger_ok_write)

text \<open>
  C28: the committed balances are the sums of the committed balance events, after any deliveries to the
  webhook: whatever queries fail or lose their answer, wherever the process dies, however often a batch
  is delivered again.
\<close>

theorem balances_match_events:
  assumes "ledger_ok (iw_saved w)"
  shows "ledger_ok (iw_saved (deliveries rs w))"
  using assms by (rule sums.deliveries_saved)

section \<open>Repeated deliveries\<close>

definition written :: "NormalizedTx \<Rightarrow> PoolRef list \<Rightarrow> idx_db \<Rightarrow> bool" where
  "written tx pools d \<longleftrightarrow> (\<forall>x \<in> set (decodeBalanceDeltas tx pools). event_key (balance_event tx x) \<in> event_key ` set (xd_balance_events d))"

lemma written_blind: "ledger_blind (written tx pools)"
  by (simp add: ledger_blind_def written_def ledger_def)

lemma written_write: "keeps S M (written tx pools) (write_balance tx' x n)"
proof -
  have i: "keeps S M (written tx pools) (sql (insert_balance_event (balance_event tx' x)))"
    by (rule steps_sql) (auto simp: insert_balance_event_def sql_insert_def insert_or_ignore_def written_def split: if_splits)
  have a: "keeps S M (written tx pools) (sql_write (add_balance (balance_event tx' x)))"
    by (rule steps_write) (simp add: written_def add_balance_def)
  show ?thesis unfolding write_balance_def by (intro keeps_bind keeps_if keeps_then i a steps_ret)
qed

interpretation replay: ledger_invariant "written tx pools" for tx pools
  by unfold_locales (rule written_blind, rule written_write)

lemma replayed_write:
  assumes "event_key (balance_event tx x) \<in> event_key ` set (xd_balance_events (iw_db w))"
  shows "iw_db (snd (write_balance tx x n w)) = iw_db w \<and> (fst (write_balance tx x n w) = Ret n \<or> (\<forall>a. fst (write_balance tx x n w) \<noteq> Ret a))"
proof -
  have none: "insert_balance_event (balance_event tx x) (iw_db w) = Inr (0, iw_db w)"
    using assms by (simp add: insert_balance_event_def sql_insert_def insert_or_ignore_def)
  show ?thesis using none
    by (cases "iw_faults w"; cases "fst (pop_idx w)")
      (auto simp: write_balance_def io_bind_def sql_def remote_def pop_idx_def put_db_def io_ret_def)
qed

lemma replayed_fold:
  assumes "\<forall>x \<in> set xs. event_key (balance_event tx x) \<in> event_key ` set (xd_balance_events (iw_db w))"
  shows "iw_db (snd (io_fold xs (write_balance tx) n w)) = iw_db w \<and>
    (\<forall>a. fst (io_fold xs (write_balance tx) n w) = Ret a \<longrightarrow> a = n)"
  using assms
proof (induction xs arbitrary: w)
  case Nil
  then show ?case by (simp add: io_ret_def)
next
  case (Cons x xs)
  obtain r w' where x: "write_balance tx x n w = (r, w')" by (cases "write_balance tx x n w")
  have k: "iw_db w' = iw_db w" "r = Ret n \<or> (\<forall>a. r \<noteq> Ret a)" using replayed_write [of tx x w n] Cons.prems x by simp_all
  show ?case
  proof (cases "r = Ret n")
    case True
    then show ?thesis using Cons.IH [of w'] Cons.prems k(1) by (simp add: io_bind_def x)
  next
    case False
    then show ?thesis using k by (cases r) (auto simp: io_bind_def x)
  qed
qed

text \<open>
  C29: a transaction whose balance changes were committed once is never counted again.  After any further
  deliveries, whatever fails in them, its events are still there and writing them once more changes
  nothing and reports nothing written.
\<close>

theorem redelivery_counts_once:
  assumes "written tx pools (iw_saved w)" "iw_db w' = iw_saved (deliveries rs w)"
  shows "iw_db (snd (writeBalanceDeltas tx pools w')) = iw_db w' \<and>
    (\<forall>a. fst (writeBalanceDeltas tx pools w') = Ret a \<longrightarrow> a = 0)"
proof -
  have "written tx pools (iw_db w')" unfolding assms(2) by (rule replay.deliveries_saved) (rule assms(1))
  then show ?thesis unfolding writeBalanceDeltas_def by (intro replayed_fold) (simp add: written_def)
qed

section \<open>A failed transaction\<close>

lemma any_invariant: "ledger_invariant anything"
proof
  show "ledger_blind anything" by (simp add: ledger_blind_def)
  show "keeps S M anything (write_balance tx x n)" for S M tx x n
    unfolding write_balance_def by (intro steps_rules) (rule steps_sql, simp)
qed

interpretation free: ledger_invariant anything
  by (rule any_invariant)

text \<open>The error field is set by the handler alone.\<close>

definition errorless :: "idx_world \<Rightarrow> bool" where
  "errorless w \<longleftrightarrow> ir_error (iw_result w) = None"

lemma errorless_sql: "io_inv errorless (sql f)"
  unfolding sql_def
  by (rule io_inv_remote) (auto simp: errorless_def pop_idx_def put_db_def split: list.splits sum.splits)

lemmas errorless_reads = errorless_sql [of "\<lambda>d. Inr (f d, d)" for f, folded sql_read_def]
  errorless_sql [of "\<lambda>d. Inr ((), f d)" for f, folded sql_write_def]

lemma errorless_option: "io_inv I m \<Longrightarrow> (\<And>x. io_inv I (f x)) \<Longrightarrow> io_inv I (case v of None \<Rightarrow> m | Some x \<Rightarrow> f x)"
  by (cases v) simp_all

lemma errorless_prod: "(\<And>x y. io_inv I (f x y)) \<Longrightarrow> io_inv I (case p of (x, y) \<Rightarrow> f x y)"
  by (cases p) simp

lemmas errorless_rules = io_rules errorless_sql errorless_reads errorless_option errorless_prod

lemma errorless_lookups: "io_inv errorless (symbolForCommodity k)" "io_inv errorless (poolExists pool)" "io_inv errorless (epochIndexFor env pool key)"
  unfolding symbolForCommodity_def poolExists_def epochIndexFor_def Let_def by (intro errorless_rules)+

lemma errorless_upsert: "io_inv errorless (upsertPool env p ts sig)"
  unfolding upsertPool_def Let_def by (intro errorless_rules errorless_lookups)

lemma errorless_event: "io_inv errorless (applyEvent env tx ev)"
  by (cases ev) (simp_all only: applyEvent.simps commodity_created_def desk_trade_def price_updated_def status_changed_def
      pool_registered_def fees_claimed_def fees_split_def migration_recorded_def epoch_opened_def payout_seen_def
      epoch_finalized_def buyback_seen_def if_pool_def Let_def,
    (intro errorless_rules errorless_lookups errorless_upsert)+)

lemma errorless_local: "(\<And>w. ir_error (iw_result (f w)) = ir_error (iw_result w)) \<Longrightarrow> io_inv errorless (io_modify f)"
  by (rule io_invI) (simp add: io_modify_def errorless_def)

lemma errorless_body: "io_inv errorless (ingest_body env tx)"
  unfolding ingest_body_def ensureLogs_def apply_one_def reconcilePools_def reconcile_one_def ingest_pools_def loadPoolRefs_def
    load_pool_def writeSwaps_def write_swap_def writeBalanceDeltas_def write_balance_def sql_release_def
  by (intro errorless_rules errorless_event errorless_upsert errorless_local io_inv_remote)
    (auto simp: errorless_def pop_idx_def split: list.splits)

lemma body_no_error: "ingest_body env tx w = (r, w') \<Longrightarrow> ir_error (iw_result w) = None \<Longrightarrow> ir_error (iw_result w') = None"
  using io_invD [OF errorless_body, of w env tx] by (simp add: errorless_def)

text \<open>Statements leave the savepoint where it is, whatever they do and however they end.\<close>

lemma body_keeps_mark:
  assumes "iw_in_tx w" "ingest_body env tx w = (r, w')"
  shows "iw_in_tx w' \<and> iw_mark w' = iw_mark w \<and> iw_saved w' = iw_saved w"
proof -
  have "io_spec (conn (\<lambda>d. d = iw_saved w) (\<lambda>d. d = iw_mark w) anything) (ingest_body env tx)
      (\<lambda>_. conn (\<lambda>d. d = iw_saved w) (\<lambda>d. d = iw_mark w) anything) (conn (\<lambda>d. d = iw_saved w) (\<lambda>d. d = iw_mark w) anything)"
    using free.keeps_body unfolding steps_def .
  from io_specD [OF this _ assms(2)] show ?thesis using assms(1) by (cases r) (simp_all add: conn_def)
qed

lemma rollback_restores:
  assumes "sql_rollback_to w = (Ret (), w')"
  shows "iw_db w' = iw_mark w"
  using assms by (auto simp: sql_rollback_to_def remote_def pop_idx_def put_db_def split: list.splits fault.splits)

lemma savepoint_marks:
  assumes "sql_savepoint w = (Ret (), w')"
  shows "iw_mark w' = iw_db w \<and> iw_db w' = iw_db w \<and> iw_in_tx w' = iw_in_tx w \<and> iw_result w' = iw_result w"
  using assms by (auto simp: sql_savepoint_def remote_def pop_idx_def split: list.splits fault.splits)

lemma sql_write_Ret: "sql_write f w = (Ret u, w') \<Longrightarrow> iw_db w' = f (iw_db w)"
  by (auto simp: sql_write_def sql_def remote_def pop_idx_def put_db_def split: list.splits fault.splits)

lemma io_then_Ret: "io_then m n w = (Ret b, w') \<longleftrightarrow> (\<exists>a w1. m w = (Ret a, w1) \<and> n w1 = (Ret b, w'))"
  by (auto simp: io_then_def io_bind_def split: prod.splits outcome.splits)

text \<open>
  A transaction that fails leaves nothing behind.  When ingestion reports an error, the tables are
  as before it but for the entry of \<open>raw_events\<close> that records the error, and nothing was committed.
\<close>

theorem failed_tx_leaves_nothing:
  assumes "iw_in_tx w" "ingestTransaction env tx payload w = (Ret r, w')" "ir_error r = Some e"
  shows "iw_db w' = raw_upsert tx payload (Some e) (iw_db w)"
proof -
  let ?handler = "\<lambda>err. io_then sql_rollback_to (io_modify (\<lambda>w. w\<lparr>iw_result := (iw_result w)\<lparr>ir_error := Some err\<rparr>\<rparr>))"
  let ?w0 = "w\<lparr>iw_result := no_result\<rparr>"
  obtain w1 w2 w5 where save: "sql_savepoint ?w0 = (Ret (), w1)"
    and body: "io_catch (ingest_body env tx) ?handler w1 = (Ret (), w2)"
    and rest: "(if payload \<noteq> None \<or> ir_error (iw_result w2) \<noteq> None then sql_write (raw_upsert tx payload (ir_error (iw_result w2))) else io_ret ()) w2 = (Ret (), w5)"
      "io_ret (iw_result w2) w5 = (Ret r, w')"
    using assms(2) unfolding ingestTransaction_def io_then_Ret
    by (auto simp: io_modify_def io_bind_def io_gets_def io_then_Ret)
  have w1: "iw_mark w1 = iw_db w" "iw_in_tx w1" using savepoint_marks [OF save] assms(1) by simp_all
  have r: "r = iw_result w2" and db: "iw_db w' = raw_upsert tx payload (Some e) (iw_db w2)"
    using rest assms(3) by (auto simp: io_ret_def dest: sql_write_Ret split: if_splits)
  obtain b w3 where run: "ingest_body env tx w1 = (b, w3)" by (cases "ingest_body env tx w1")
  show ?thesis
  proof (cases b)
    case (Throw err)
    then have "?handler err w3 = (Ret (), w2)" using body run by (simp add: io_catch_def)
    then obtain w4 where "sql_rollback_to w3 = (Ret (), w4)" "w2 = w4\<lparr>iw_result := (iw_result w4)\<lparr>ir_error := Some err\<rparr>\<rparr>"
      by (auto simp: io_then_Ret io_modify_def)
    then have "iw_db w2 = iw_mark w3" using rollback_restores [of w3 w4] by simp
    then show ?thesis using db body_keeps_mark [OF w1(2) run] w1 by simp
  next
    case (Ret a)
    then have "w2 = w3" using body run by (simp add: io_catch_def)
    moreover have "ir_error (iw_result w3) = None" using body_no_error [OF run] savepoint_marks [OF save] by (simp add: no_result_def)
    ultimately show ?thesis using r assms(3) by simp
  next
    case Crash
    then show ?thesis using body run by (simp add: io_catch_def)
  qed
qed

section \<open>Swaps of a pool registered late\<close>

text \<open>A swap whose pool and commodity have rows.\<close>

definition tradable :: "idx_db \<Rightarrow> DecodedSwap \<Rightarrow> bool" where
  "tradable d s \<longleftrightarrow> (case first_row (filter (\<lambda>p. ip_dbc_pool p = ds_pool s) (xd_pools d)) of None \<Rightarrow> False
     | Some p \<Rightarrow> first_row (filter (\<lambda>c. ic_symbol c = ip_commodity p) (xd_commodities d)) \<noteq> None)"

definition trade_ids :: "idx_db \<Rightarrow> (string \<times> string) list" where
  "trade_ids d = map (\<lambda>t. (xt_sig t, xt_pool t)) (xd_trades d)"

lemma tradable_trades [simp]: "tradable (d\<lparr>xd_trades := ts\<rparr>) s = tradable d s"
  by (simp add: tradable_def cong: option.case_cong)

lemma put_db_fields [simp]: "iw_db (put_db d w) = d" "iw_faults (put_db d w) = iw_faults w"
  by (simp_all add: put_db_def)

lemma sql_calm: "iw_faults w = [] \<Longrightarrow> sql f w = (case f (iw_db w) of Inl e \<Rightarrow> (Throw e, w) | Inr (a, d) \<Rightarrow> (Ret a, put_db d w))"
  by (simp add: sql_def remote_def pop_idx_def)

lemma write_swap_new:
  assumes "iw_faults w = []" "tradable (iw_db w) s" "ds_base s \<noteq> 0" "swap_key tx i \<notin> fst ` set (trade_ids (iw_db w))"
  shows "\<exists>w'. write_swap env tx (i, s) n w = (Ret (n + 1), w') \<and> iw_faults w' = [] \<and> (\<forall>x. tradable (iw_db w') x = tradable (iw_db w) x) \<and>
    trade_ids (iw_db w') = trade_ids (iw_db w) @ [(swap_key tx i, ds_pool s)]"
proof -
  obtain p c where "first_row (filter (\<lambda>p. ip_dbc_pool p = ds_pool s) (xd_pools (iw_db w))) = Some p"
      "first_row (filter (\<lambda>c. ic_symbol c = ip_commodity p) (xd_commodities (iw_db w))) = Some c"
    using assms(2) by (auto simp: tradable_def split: option.splits)
  moreover have "swap_key tx i \<notin> xt_sig ` set (xd_trades (iw_db w))" using assms(4) by (simp add: trade_ids_def image_image)
  ultimately have "insert_trade env tx (swap_key tx i) s (iw_db w) =
      Inr (1, (iw_db w)\<lparr>xd_trades := xd_trades (iw_db w) @ [trade_row env tx (swap_key tx i) s c (iw_db w)]\<rparr>)"
    by (simp add: insert_trade_def sql_insert_def insert_or_ignore_def trade_row_def Let_def)
  then have "write_swap env tx (i, s) n w = (Ret (n + 1), put_db ((iw_db w)\<lparr>xd_trades := xd_trades (iw_db w) @
      [trade_row env tx (swap_key tx i) s c (iw_db w)]\<rparr>) w)"
    using assms(1,3) by (simp add: write_swap_def io_bind_def sql_calm io_ret_def)
  then show ?thesis using assms(1) by (simp add: trade_ids_def trade_row_def Let_def)
qed

lemma write_swap_old:
  assumes "iw_faults w = []" "tradable (iw_db w) s" "swap_key tx i \<in> fst ` set (trade_ids (iw_db w))"
  shows "\<exists>w'. write_swap env tx (i, s) n w = (Ret n, w') \<and> iw_faults w' = [] \<and> iw_db w' = iw_db w"
proof -
  obtain p c where "first_row (filter (\<lambda>p. ip_dbc_pool p = ds_pool s) (xd_pools (iw_db w))) = Some p"
      "first_row (filter (\<lambda>c. ic_symbol c = ip_commodity p) (xd_commodities (iw_db w))) = Some c"
    using assms(2) by (auto simp: tradable_def split: option.splits)
  moreover have "swap_key tx i \<in> xt_sig ` set (xd_trades (iw_db w))" using assms(3) by (auto simp: trade_ids_def)
  ultimately have "insert_trade env tx (swap_key tx i) s (iw_db w) = Inr (0, iw_db w)"
    by (simp add: insert_trade_def sql_insert_def insert_or_ignore_def trade_row_def Let_def)
  then show ?thesis using assms(1) by (simp add: write_swap_def io_bind_def sql_calm io_ret_def put_db_def)
qed

lemma swap_keys_differ: "swap_key tx 0 \<noteq> swap_key tx 1"
  by (simp add: swap_key_def)


section \<open>Instances\<close>

definition empty_db :: idx_db where
  "empty_db = \<lparr>xd_commodities = [], xd_commodity_trades = [], xd_prices = [], xd_pools = [], xd_fee_claims = [], xd_fee_splits = [],
     xd_epochs = [], xd_payouts = [], xd_leaves = [], xd_buybacks = [], xd_trades = [], xd_balance_events = [], xd_balances = [],
     xd_raw_events = [], xd_cursor = []\<rparr>"

definition world_of :: "fault list \<Rightarrow> idx_db \<Rightarrow> idx_world" where
  "world_of fs d = \<lparr>iw_faults = fs, iw_db = d, iw_saved = d, iw_mark = d, iw_in_tx = False, iw_now = 100, iw_result = no_result\<rparr>"

definition sample_raw :: RawRpcTx where
  "sample_raw = \<lparr>rt_slot = 5, rt_blockTime = Some 50, rt_meta = Some \<lparr>rm_err = None, rm_logMessages = None, rm_preTokenBalances = small_pre,
     rm_postTokenBalances = small_post, rm_innerInstructions = [], rm_writable = [], rm_readonly = []\<rparr>, rt_signatures = [''s''],
     rt_accountKeys = key_list, rt_instructions = []\<rparr>"

definition sample_item :: Item where
  "sample_item = \<lparr>it_json = JObject [(''transaction'', JObject [(''message'', JObject [(''accountKeys'', JArray [])])]), (''meta'', JNull)],
     it_raw = sample_raw, it_enhanced = \<lparr>he_signature = ''s'', he_slot = 5, he_timestamp = 50, he_feePayer = None,
       he_transactionError = None, he_accountData = [], he_tokenTransfers = [], he_instructions = []\<rparr>, it_text = ''{}''\<rparr>"

definition sample_requests :: "idx_env \<Rightarrow> Request list" where
  "sample_requests env = [\<lparr>rq_env = env, rq_secret = [], rq_auth = None, rq_body = Some [sample_item]\<rparr>,
     \<lparr>rq_env = env, rq_secret = [], rq_auth = None, rq_body = Some [sample_item, sample_item]\<rparr>]"

theorem balances_match_events_witness:
  "\<forall>env. ledger_ok (iw_saved (deliveries (sample_requests env) (world_of [Fine, Fine, FailAfter, Fine, DieAfter] empty_db)))"
  by (intro allI balances_match_events) (simp add: world_of_def empty_db_def ledger_ok_def amount_at_def delta_at_def)

definition once_db :: idx_db where
  "once_db = empty_db\<lparr>xd_balance_events := map (balance_event small_tx) (decodeBalanceDeltas small_tx [small_pool])\<rparr>"

theorem redelivery_counts_once_witness:
  "\<forall>env. iw_db (snd (writeBalanceDeltas small_tx [small_pool]
      (reconnect (deliveries (sample_requests env) (world_of [FailAfter, DieBefore] once_db))))) =
    iw_db (reconnect (deliveries (sample_requests env) (world_of [FailAfter, DieBefore] once_db)))"
proof (intro allI redelivery_counts_once [THEN conjunct1])
  show "written small_tx [small_pool] (iw_saved (world_of [FailAfter, DieBefore] once_db))"
    by (simp add: written_def world_of_def once_db_def)
qed (simp add: reconnect_def)

definition failed_small :: NormalizedTx where
  "failed_small = small_tx\<lparr>nt_failed := True\<rparr>"

theorem failed_tx_leaves_nothing_witness:
  "\<forall>env. iw_db (snd (ingestTransaction env failed_small None ((world_of [Fine, FailBefore] once_db)\<lparr>iw_in_tx := True\<rparr>))) =
    raw_upsert failed_small None (Some ''unavailable'') once_db"
proof
  fix env
  let ?w = "(world_of [Fine, FailBefore] once_db)\<lparr>iw_in_tx := True\<rparr>"
  have "\<exists>r w'. ingestTransaction env failed_small None ?w = (Ret r, w') \<and> ir_error r = Some ''unavailable''"
    by (simp add: ingestTransaction_def ingest_body_def io_then_def io_bind_def io_catch_def io_modify_def io_gets_def io_ret_def
        sql_savepoint_def sql_release_def sql_rollback_to_def sql_write_def sql_def remote_def pop_idx_def put_db_def world_of_def
        failed_small_def no_result_def)
  then obtain r w' where run: "ingestTransaction env failed_small None ?w = (Ret r, w')" "ir_error r = Some ''unavailable''" by auto
  have "iw_db w' = raw_upsert failed_small None (Some ''unavailable'') (iw_db ?w)"
    by (rule failed_tx_leaves_nothing [OF _ run]) simp
  then show "iw_db (snd (ingestTransaction env failed_small None ?w)) = raw_upsert failed_small None (Some ''unavailable'') once_db"
    using run(1) by (simp add: world_of_def)
qed

definition two_pool_tx :: NormalizedTx where
  "two_pool_tx = small_tx\<lparr>nt_tokenDeltas := [
     \<lparr>td_tokenAccount = ''va'', td_owner = ''pool'', td_mint = ''MA'', td_delta = - 20, td_decimals = 6\<rparr>,
     \<lparr>td_tokenAccount = ''qa'', td_owner = ''pool'', td_mint = ''Q'', td_delta = 7, td_decimals = 6\<rparr>,
     \<lparr>td_tokenAccount = ''vb'', td_owner = ''pool'', td_mint = ''MB'', td_delta = - 40, td_decimals = 6\<rparr>,
     \<lparr>td_tokenAccount = ''qb'', td_owner = ''pool'', td_mint = ''Q'', td_delta = 9, td_decimals = 6\<rparr>]\<rparr>"

definition ref_of :: "string \<Rightarrow> string \<Rightarrow> string \<Rightarrow> string \<Rightarrow> PoolRef" where
  "ref_of p m v q = \<lparr>pf_dbcPool = p, pf_baseMint = m, pf_quoteMint = ''Q'', pf_baseVault = Some v, pf_quoteVault = Some q,
     pf_dammPool = None, pf_dammBaseVault = None, pf_dammQuoteVault = None\<rparr>"

definition pool_row :: "string \<Rightarrow> string \<Rightarrow> IdxPool" where
  "pool_row p m = \<lparr>ip_dbc_pool = p, ip_base_mint = m, ip_quote_mint = ''Q'', ip_commodity = ''GLD'', ip_creator = ''c'', ip_fee_bps = 100,
     ip_ticker = ''t'', ip_name = ''n'', ip_image_uri = None, ip_created_at = 0, ip_base_vault = None, ip_quote_vault = None,
     ip_registered_sig = None, ip_migrated_at = None, ip_damm_pool = None, ip_damm_base_vault = None, ip_damm_quote_vault = None\<rparr>"

definition two_pool_db :: idx_db where
  "two_pool_db = empty_db\<lparr>xd_pools := [pool_row ''PA'' ''MA'', pool_row ''PB'' ''MB''],
     xd_commodities := [\<lparr>ic_symbol = ''GLD'', ic_name = ''Gold'', ic_display_name = None, ic_category = Metals, ic_unit = ''oz'',
       ic_unit_short = ''oz'', ic_mint = ''Q'', ic_commodity_pubkey = None, ic_oracle_kind = None, ic_session_kind = None,
       ic_status = ''open'', ic_supply = 0, ic_reserve = 0, ic_last_price = None, ic_last_publish = None\<rparr>]\<rparr>"


end
