(* ===== verification/Router.thy ===== *)
theory Router
  imports Distributor
begin

text \<open>
  The fee\_router program (\<^verbatim>\<open>programs/fee_router/src\<close>): the registration of launch pools, the claim
  of their trading fees from Meteora with the split between holders, buyback and treasury, the record
  of a migration, the withdrawals and the administration.  As in the distributor, an instruction maps
  the chain to an error or to the new chain, Anchor's constraints first.  Meteora's two programs and
  the token program are parameters.  The second half is a step relation over all instructions with
  the invariant of the program's books.
\<close>

section \<open>Chain\<close>

record RouterConfig =
  rc_admin :: bytes
  rc_keepers :: "bytes list"
  rc_distributor_program :: bytes
  rc_buyback_program :: bytes
  rc_holders_bps :: int
  rc_buyback_bps :: int
  rc_protocol_bps :: int
  rc_paused :: bool
  rc_peg_desk_program :: bytes

record RouterPoolState =
  rq_dbc_pool :: bytes
  rq_dbc_config :: bytes
  rq_base_mint :: bytes
  rq_quote_mint :: bytes
  rq_commodity :: bytes
  rq_creator :: bytes
  rq_fee_bps :: int
  rq_migrated :: bool
  rq_damm_pool :: bytes
  rq_damm_position :: bytes
  rq_position_nft_mint :: bytes
  rq_total_claimed :: int
  rq_total_to_holders :: int
  rq_total_to_buyback :: int
  rq_total_to_protocol :: int
  rq_last_claim_ts :: int

datatype router_event =
    EvPoolRegistered bytes bytes bytes bytes int
  | EvFeesClaimed bytes int int int
  | EvFeesSplit bytes int int int
  | EvMigrationRecorded bytes bytes
  | EvVaultWithdrawn bytes bytes bytes int int

text \<open>Accounts of other programs: owner and data.\<close>

type_synonym raw_accounts = "bytes \<Rightarrow> (bytes \<times> bytes) option"

record router_chain =
  rh_clock :: int
  rh_config :: "RouterConfig option"
  rh_pools :: "bytes \<Rightarrow> RouterPoolState option"
  rh_accounts :: accounts
  rh_raw :: raw_accounts
  rh_log :: "(string \<times> router_event list) list"

definition ROUTER_BPS_DENOM :: int where "ROUTER_BPS_DENOM = 10000"
definition MAX_KEEPERS :: nat where "MAX_KEEPERS = 8"
definition PERMISSIONLESS_CLAIM_INTERVAL :: int where "PERMISSIONLESS_CLAIM_INTERVAL = 900"
definition MAX_FEE_BPS :: int where "MAX_FEE_BPS = 1000"

definition router_admin_or_keeper :: "RouterConfig \<Rightarrow> bytes \<Rightarrow> bool" where
  "router_admin_or_keeper cfg key \<longleftrightarrow> key = rc_admin cfg \<or> key \<in> set (rc_keepers cfg)"

section \<open>Accounts of the instructions\<close>

record ClaimDbc =
  cd_caller :: bytes
  cd_config :: bytes
  cd_pool_state :: bytes
  cd_dbc_pool_authority :: bytes
  cd_dbc_config :: bytes
  cd_dbc_pool :: bytes
  cd_base_vault :: bytes
  cd_quote_vault :: bytes
  cd_base_mint :: bytes
  cd_quote_mint :: bytes
  cd_treasury_base :: bytes
  cd_router_quote_recv :: bytes
  cd_holder_vault :: bytes
  cd_buyback_vault :: bytes
  cd_treasury_quote :: bytes
  cd_base_token_program :: bytes
  cd_quote_token_program :: bytes
  cd_dbc_event_authority :: bytes
  cd_dbc_program :: bytes

record ClaimDamm =
  cm_caller :: bytes
  cm_config :: bytes
  cm_pool_state :: bytes
  cm_damm_pool_authority :: bytes
  cm_damm_pool :: bytes
  cm_damm_position :: bytes
  cm_token_a_vault :: bytes
  cm_token_b_vault :: bytes
  cm_base_mint :: bytes
  cm_quote_mint :: bytes
  cm_position_nft_account :: bytes
  cm_treasury_base :: bytes
  cm_router_quote_recv :: bytes
  cm_holder_vault :: bytes
  cm_buyback_vault :: bytes
  cm_treasury_quote :: bytes
  cm_base_token_program :: bytes
  cm_quote_token_program :: bytes
  cm_damm_event_authority :: bytes
  cm_damm_program :: bytes

record RecordMigration =
  rm_authority :: bytes
  rm_config :: bytes
  rm_pool_state :: bytes
  rm_dbc_pool :: bytes
  rm_damm_pool :: bytes
  rm_damm_position :: bytes
  rm_position_nft_account :: bytes

record RegisterPool =
  rg_payer :: bytes
  rg_config :: bytes
  rg_dbc_pool :: bytes
  rg_dbc_config :: bytes
  rg_commodity :: bytes
  rg_base_mint :: bytes
  rg_quote_mint :: bytes
  rg_pool_state :: bytes
  rg_holder_vault :: bytes
  rg_buyback_vault :: bytes
  rg_treasury_quote :: bytes
  rg_treasury_base :: bytes
  rg_router_quote_recv :: bytes
  rg_base_token_program :: bytes
  rg_quote_token_program :: bytes

text \<open>
  Meteora's instructions as the program calls them, on the token accounts and the raw accounts.  The
  surplus withdrawal takes the accounts of a claim without its base side.
\<close>

record meteora =
  mt_claim_trading_fee :: "ClaimDbc \<Rightarrow> int \<Rightarrow> int \<Rightarrow> accounts \<times> raw_accounts \<Rightarrow> string + accounts \<times> raw_accounts"
  mt_partner_withdraw_surplus :: "ClaimDbc \<Rightarrow> accounts \<times> raw_accounts \<Rightarrow> string + accounts \<times> raw_accounts"
  mt_claim_position_fee :: "ClaimDamm \<Rightarrow> accounts \<times> raw_accounts \<Rightarrow> string + accounts \<times> raw_accounts"

record router_env =
  re_w3 :: web3
  re_program :: bytes
  re_transfer :: transfer_checked
  re_meteora :: meteora

definition router_key :: "router_env \<Rightarrow> bytes" where
  "router_key env = fst (feeRouter_router (re_w3 env) (re_program env))"

section \<open>Shared checks\<close>

definition check_config :: "router_env \<Rightarrow> bytes \<Rightarrow> router_chain \<Rightarrow> string + RouterConfig" where
  "check_config env key c = sbind (some_or (rh_config c) ''AccountNotInitialized'') (\<lambda>cfg.
     sbind (require (key = router_key env) ''ConstraintSeeds'') (\<lambda>_. Inr cfg))"

text \<open>A token account at a given address with a given mint and authority.\<close>

definition token_is :: "accounts \<Rightarrow> bytes \<Rightarrow> bytes \<Rightarrow> bytes \<Rightarrow> bytes \<Rightarrow> string + unit" where
  "token_is m key address mint authority = sbind (require (key = address) ''ConstraintSeeds'') (\<lambda>_.
     sbind (some_or (token_at m key) ''AccountNotInitialized'') (\<lambda>t.
     require (ta_mint t = mint \<and> ta_owner t = authority) ''ConstraintTokenMint''))"

definition check_split_vaults :: "router_env \<Rightarrow> bytes \<Rightarrow> bytes \<Rightarrow> bytes \<Rightarrow> bytes \<Rightarrow> bytes \<Rightarrow> bytes \<Rightarrow> accounts \<Rightarrow> string + unit" where
  "check_split_vaults env pool_state dbc_pool quote_mint holder buyback treasury m =
     sbind (token_is m holder (fst (feeRouter_holderVault (re_w3 env) (re_program env) dbc_pool)) quote_mint pool_state) (\<lambda>_.
     sbind (token_is m buyback (fst (feeRouter_buybackVault (re_w3 env) (re_program env) quote_mint)) quote_mint (router_key env)) (\<lambda>_.
     token_is m treasury (fst (feeRouter_treasury (re_w3 env) (re_program env) quote_mint)) quote_mint (router_key env)))"

definition check_claim_gate :: "RouterConfig \<Rightarrow> bytes \<Rightarrow> int \<Rightarrow> int \<Rightarrow> string + unit" where
  "check_claim_gate cfg caller last_claim_ts now =
     (if router_admin_or_keeper cfg caller then Inr ()
      else require (saturating_i64 (now - last_claim_ts) > PERMISSIONLESS_CLAIM_INTERVAL) ''ClaimTooSoon'')"

definition read_pubkey :: "bytes \<Rightarrow> nat \<Rightarrow> string + bytes" where
  "read_pubkey data offset = (if offset + 32 \<le> length data then Inr (take 32 (drop offset data)) else Inl ''InvalidDbcAccount'')"

section \<open>The split\<close>

text \<open>The products are cast to 64 bits; the subtractions are checked.\<close>

definition split_amounts :: "int \<Rightarrow> int \<Rightarrow> int \<Rightarrow> (int \<times> int \<times> int) option" where
  "split_amounts amount holders_bps buyback_bps =
     (let holders = (amount * holders_bps div ROUTER_BPS_DENOM) mod 2 ^ 64;
          buyback = (amount * buyback_bps div ROUTER_BPS_DENOM) mod 2 ^ 64
      in if amount < holders \<or> amount - holders < buyback then None
         else Some (holders, buyback, amount - holders - buyback))"

record SplitCtx =
  sx_router :: bytes
  sx_source :: bytes
  sx_holder_vault :: bytes
  sx_buyback_vault :: bytes
  sx_treasury :: bytes
  sx_mint :: bytes
  sx_holders_bps :: int
  sx_buyback_bps :: int

definition transfer_from_router :: "router_env \<Rightarrow> SplitCtx \<Rightarrow> bytes \<Rightarrow> int \<Rightarrow> accounts \<Rightarrow> string + accounts" where
  "transfer_from_router env s dest amount m =
     (if amount = 0 then Inr m else re_transfer env (sx_source s) dest (sx_mint s) (sx_router s) amount m)"

definition split_claim :: "router_env \<Rightarrow> SplitCtx \<Rightarrow> RouterPoolState \<Rightarrow> bytes \<Rightarrow> int \<Rightarrow> accounts \<Rightarrow>
    string + RouterPoolState \<times> accounts \<times> router_event list" where
  "split_claim env s ps pool_key amount m =
     (if amount = 0 then Inr (ps, m, []) else
      sbind (some_or (split_amounts amount (sx_holders_bps s) (sx_buyback_bps s)) ''MathOverflow'') (\<lambda>(holders, buyback, protocol).
      sbind (transfer_from_router env s (sx_holder_vault s) holders m) (\<lambda>m1.
      sbind (transfer_from_router env s (sx_buyback_vault s) buyback m1) (\<lambda>m2.
      sbind (transfer_from_router env s (sx_treasury s) protocol m2) (\<lambda>m3.
      sbind (checked_u64 (rq_total_claimed ps + amount)) (\<lambda>claimed.
      sbind (checked_u64 (rq_total_to_holders ps + holders)) (\<lambda>h.
      sbind (checked_u64 (rq_total_to_buyback ps + buyback)) (\<lambda>b.
      sbind (checked_u64 (rq_total_to_protocol ps + protocol)) (\<lambda>p.
      Inr (ps\<lparr>rq_total_claimed := claimed, rq_total_to_holders := h, rq_total_to_buyback := b, rq_total_to_protocol := p\<rparr>,
        m3, [EvFeesSplit pool_key holders buyback protocol]))))))))))"

text \<open>What a claim leaves: the claim's event, the split, the new pool state.\<close>

definition finish_claim :: "router_env \<Rightarrow> string \<Rightarrow> SplitCtx \<Rightarrow> bytes \<Rightarrow> RouterPoolState \<Rightarrow> int \<Rightarrow> int \<Rightarrow> int \<Rightarrow>
    accounts \<times> raw_accounts \<Rightarrow> router_chain \<Rightarrow> string + router_chain" where
  "finish_claim env sig s key ps source quote_amount base_amount after c =
     sbind (split_claim env s ps (rq_dbc_pool ps) quote_amount (fst after)) (\<lambda>(ps', m, evs).
     Inr (c\<lparr>rh_pools := (rh_pools c)(key \<mapsto> ps'), rh_accounts := m, rh_raw := snd after,
       rh_log := rh_log c @ [(sig, EvFeesClaimed (rq_dbc_pool ps) source quote_amount base_amount # evs)]\<rparr>))"

text \<open>\<open>reload\<close> and the saturating difference to the balance before.\<close>

definition gained :: "bytes \<Rightarrow> accounts \<Rightarrow> accounts \<Rightarrow> int" where
  "gained key before after = max 0 (vault_balance after key - vault_balance before key)"

section \<open>Claims\<close>

definition dbc_split :: "router_env \<Rightarrow> RouterConfig \<Rightarrow> ClaimDbc \<Rightarrow> SplitCtx" where
  "dbc_split env cfg a = \<lparr>sx_router = router_key env, sx_source = cd_router_quote_recv a, sx_holder_vault = cd_holder_vault a,
     sx_buyback_vault = cd_buyback_vault a, sx_treasury = cd_treasury_quote a, sx_mint = cd_quote_mint a,
     sx_holders_bps = rc_holders_bps cfg, sx_buyback_bps = rc_buyback_bps cfg\<rparr>"

definition check_dbc_pool :: "router_env \<Rightarrow> bool \<Rightarrow> ClaimDbc \<Rightarrow> router_chain \<Rightarrow> string + RouterPoolState" where
  "check_dbc_pool env with_base a c =
     sbind (some_or (rh_pools c (cd_pool_state a)) ''AccountNotInitialized'') (\<lambda>ps.
     sbind (require (cd_pool_state a = fst (feeRouter_pool (re_w3 env) (re_program env) (cd_dbc_pool a))) ''ConstraintSeeds'') (\<lambda>_.
     sbind (require (rq_dbc_pool ps = cd_dbc_pool a \<and> rq_dbc_config ps = cd_dbc_config a \<and>
       (with_base \<longrightarrow> rq_base_mint ps = cd_base_mint a) \<and> rq_quote_mint ps = cd_quote_mint a) ''ConstraintHasOne'') (\<lambda>_. Inr ps)))"

definition check_dbc_accounts :: "router_env \<Rightarrow> bool \<Rightarrow> ClaimDbc \<Rightarrow> router_chain \<Rightarrow> string + RouterPoolState" where
  "check_dbc_accounts env with_base a c =
     sbind (check_dbc_pool env with_base a c) (\<lambda>ps.
     sbind (if with_base then token_is (rh_accounts c) (cd_treasury_base a)
       (fst (feeRouter_treasury (re_w3 env) (re_program env) (cd_base_mint a))) (cd_base_mint a) (router_key env) else Inr ()) (\<lambda>_.
     sbind (token_is (rh_accounts c) (cd_router_quote_recv a)
       (ata (re_w3 env) (cd_quote_mint a) (router_key env) (cd_quote_token_program a)) (cd_quote_mint a) (router_key env)) (\<lambda>_.
     sbind (check_split_vaults env (cd_pool_state a) (cd_dbc_pool a) (cd_quote_mint a) (cd_holder_vault a) (cd_buyback_vault a)
       (cd_treasury_quote a) (rh_accounts c)) (\<lambda>_.
     sbind (require (cd_dbc_program a = DBC_ID (re_w3 env)) ''InvalidProgram'') (\<lambda>_. Inr ps)))))"

definition claim_dbc :: "router_env \<Rightarrow> string \<Rightarrow> ClaimDbc \<Rightarrow> router_chain \<Rightarrow> string + router_chain" where
  "claim_dbc env sig a c =
     sbind (check_config env (cd_config a) c) (\<lambda>cfg.
     sbind (check_dbc_accounts env True a c) (\<lambda>ps.
     sbind (require (\<not> rc_paused cfg) ''Paused'') (\<lambda>_.
     sbind (check_claim_gate cfg (cd_caller a) (rq_last_claim_ts ps) (rh_clock c)) (\<lambda>_.
     sbind (mt_claim_trading_fee (re_meteora env) a 0 u64_max (rh_accounts c, rh_raw c)) (\<lambda>after.
     finish_claim env sig (dbc_split env cfg a) (cd_pool_state a) (ps\<lparr>rq_last_claim_ts := rh_clock c\<rparr>) 0
       (gained (cd_router_quote_recv a) (rh_accounts c) (fst after)) (gained (cd_treasury_base a) (rh_accounts c) (fst after)) after c)))))"

definition claim_dbc_surplus :: "router_env \<Rightarrow> string \<Rightarrow> ClaimDbc \<Rightarrow> router_chain \<Rightarrow> string + router_chain" where
  "claim_dbc_surplus env sig a c =
     sbind (check_config env (cd_config a) c) (\<lambda>cfg.
     sbind (check_dbc_accounts env False a c) (\<lambda>ps.
     sbind (require (\<not> rc_paused cfg) ''Paused'') (\<lambda>_.
     sbind (require (router_admin_or_keeper cfg (cd_caller a)) ''Unauthorized'') (\<lambda>_.
     sbind (mt_partner_withdraw_surplus (re_meteora env) a (rh_accounts c, rh_raw c)) (\<lambda>after.
     finish_claim env sig (dbc_split env cfg a) (cd_pool_state a) ps 1
       (gained (cd_router_quote_recv a) (rh_accounts c) (fst after)) 0 after c)))))"

definition damm_split :: "router_env \<Rightarrow> RouterConfig \<Rightarrow> ClaimDamm \<Rightarrow> SplitCtx" where
  "damm_split env cfg a = \<lparr>sx_router = router_key env, sx_source = cm_router_quote_recv a, sx_holder_vault = cm_holder_vault a,
     sx_buyback_vault = cm_buyback_vault a, sx_treasury = cm_treasury_quote a, sx_mint = cm_quote_mint a,
     sx_holders_bps = rc_holders_bps cfg, sx_buyback_bps = rc_buyback_bps cfg\<rparr>"

definition check_damm_accounts :: "router_env \<Rightarrow> ClaimDamm \<Rightarrow> router_chain \<Rightarrow> string + RouterPoolState" where
  "check_damm_accounts env a c =
     sbind (some_or (rh_pools c (cm_pool_state a)) ''AccountNotInitialized'') (\<lambda>ps.
     sbind (require (cm_pool_state a = fst (feeRouter_pool (re_w3 env) (re_program env) (rq_dbc_pool ps))) ''ConstraintSeeds'') (\<lambda>_.
     sbind (require (rq_damm_pool ps = cm_damm_pool a \<and> rq_damm_position ps = cm_damm_position a \<and>
       rq_base_mint ps = cm_base_mint a \<and> rq_quote_mint ps = cm_quote_mint a) ''ConstraintHasOne'') (\<lambda>_.
     sbind (require (rq_migrated ps) ''MigrationNotRecorded'') (\<lambda>_.
     sbind (some_or (token_at (rh_accounts c) (cm_position_nft_account a)) ''AccountNotInitialized'') (\<lambda>nft.
     sbind (require (ta_mint nft = rq_position_nft_mint ps \<and> ta_owner nft = router_key env) ''InvalidPositionNft'') (\<lambda>_.
     sbind (token_is (rh_accounts c) (cm_treasury_base a)
       (fst (feeRouter_treasury (re_w3 env) (re_program env) (cm_base_mint a))) (cm_base_mint a) (router_key env)) (\<lambda>_.
     sbind (token_is (rh_accounts c) (cm_router_quote_recv a)
       (ata (re_w3 env) (cm_quote_mint a) (router_key env) (cm_quote_token_program a)) (cm_quote_mint a) (router_key env)) (\<lambda>_.
     sbind (check_split_vaults env (cm_pool_state a) (rq_dbc_pool ps) (cm_quote_mint a) (cm_holder_vault a) (cm_buyback_vault a)
       (cm_treasury_quote a) (rh_accounts c)) (\<lambda>_.
     sbind (require (cm_damm_program a = DAMM_V2_PROGRAM_ID (re_w3 env)) ''InvalidProgram'') (\<lambda>_. Inr ps))))))))))"

definition claim_damm :: "router_env \<Rightarrow> string \<Rightarrow> ClaimDamm \<Rightarrow> router_chain \<Rightarrow> string + router_chain" where
  "claim_damm env sig a c =
     sbind (check_config env (cm_config a) c) (\<lambda>cfg.
     sbind (check_damm_accounts env a c) (\<lambda>ps.
     sbind (require (\<not> rc_paused cfg) ''Paused'') (\<lambda>_.
     sbind (check_claim_gate cfg (cm_caller a) (rq_last_claim_ts ps) (rh_clock c)) (\<lambda>_.
     sbind (mt_claim_position_fee (re_meteora env) a (rh_accounts c, rh_raw c)) (\<lambda>after.
     finish_claim env sig (damm_split env cfg a) (cm_pool_state a) (ps\<lparr>rq_last_claim_ts := rh_clock c\<rparr>) 2
       (gained (cm_router_quote_recv a) (rh_accounts c) (fst after)) (gained (cm_treasury_base a) (rh_accounts c) (fst after)) after c)))))"


section \<open>Migration\<close>

definition VIRTUAL_POOL_DISCRIMINATOR :: bytes where "VIRTUAL_POOL_DISCRIMINATOR = [213, 224, 5, 209, 98, 69, 119, 92]"
definition POOL_CONFIG_DISCRIMINATOR :: bytes where "POOL_CONFIG_DISCRIMINATOR = [26, 108, 14, 123, 116, 230, 129, 43]"
definition DAMM_POOL_DISCRIMINATOR :: bytes where "DAMM_POOL_DISCRIMINATOR = [241, 154, 109, 4, 17, 177, 109, 188]"
definition POSITION_DISCRIMINATOR :: bytes where "POSITION_DISCRIMINATOR = [170, 188, 143, 228, 122, 64, 247, 208]"

definition has_layout :: "bytes \<Rightarrow> nat \<Rightarrow> bytes \<Rightarrow> bool" where
  "has_layout discriminator min_len data \<longleftrightarrow> min_len \<le> length data \<and> take 8 data = discriminator"

text \<open>An account of another program: its owner is checked, its data returned.\<close>

definition raw_owned :: "raw_accounts \<Rightarrow> bytes \<Rightarrow> bytes \<Rightarrow> string \<Rightarrow> string + bytes" where
  "raw_owned m key owner err = (case m key of None \<Rightarrow> Inl err | Some (o1, data) \<Rightarrow> if o1 = owner then Inr data else Inl err)"

definition record_migration :: "router_env \<Rightarrow> string \<Rightarrow> RecordMigration \<Rightarrow> bool \<Rightarrow> router_chain \<Rightarrow> string + router_chain" where
  "record_migration env sig a force c =
     sbind (check_config env (rm_config a) c) (\<lambda>cfg.
     sbind (some_or (rh_pools c (rm_pool_state a)) ''AccountNotInitialized'') (\<lambda>ps.
     sbind (require (rm_pool_state a = fst (feeRouter_pool (re_w3 env) (re_program env) (rm_dbc_pool a))) ''ConstraintSeeds'') (\<lambda>_.
     sbind (require (rq_dbc_pool ps = rm_dbc_pool a) ''ConstraintHasOne'') (\<lambda>_.
     sbind (raw_owned (rh_raw c) (rm_dbc_pool a) (DBC_ID (re_w3 env)) ''InvalidDbcAccount'') (\<lambda>dbc.
     sbind (raw_owned (rh_raw c) (rm_damm_pool a) (DAMM_V2_PROGRAM_ID (re_w3 env)) ''InvalidDammAccount'') (\<lambda>damm.
     sbind (raw_owned (rh_raw c) (rm_damm_position a) (DAMM_V2_PROGRAM_ID (re_w3 env)) ''InvalidDammAccount'') (\<lambda>position.
     sbind (some_or (token_at (rh_accounts c) (rm_position_nft_account a)) ''AccountNotInitialized'') (\<lambda>nft.
     sbind (require (ta_owner nft = router_key env \<and> ta_amount nft = 1) ''InvalidPositionNft'') (\<lambda>_.
     sbind (require (router_admin_or_keeper cfg (rm_authority a)) ''Unauthorized'') (\<lambda>_.
     sbind (if force \<and> rm_authority a = rc_admin cfg then Inr () else
       sbind (require (has_layout VIRTUAL_POOL_DISCRIMINATOR 306 dbc) ''InvalidDbcAccount'') (\<lambda>_.
       require (dbc ! 305 \<noteq> 0) ''NotMigrated'')) (\<lambda>_.
     sbind (require (has_layout DAMM_POOL_DISCRIMINATOR 8 damm) ''InvalidDammAccount'') (\<lambda>_.
     sbind (require (has_layout POSITION_DISCRIMINATOR 72 position) ''InvalidDammAccount'') (\<lambda>_.
     sbind (read_pubkey position 8) (\<lambda>pos_pool.
     sbind (require (pos_pool = rm_damm_pool a) ''InvalidDammAccount'') (\<lambda>_.
     sbind (read_pubkey position 40) (\<lambda>nft_mint.
     sbind (require (ta_mint nft = nft_mint) ''InvalidPositionNft'') (\<lambda>_.
     Inr (c\<lparr>rh_pools := (rh_pools c)(rm_pool_state a \<mapsto> ps\<lparr>rq_migrated := True, rq_damm_pool := rm_damm_pool a,
         rq_damm_position := rm_damm_position a, rq_position_nft_mint := nft_mint\<rparr>),
       rh_log := rh_log c @ [(sig, [EvMigrationRecorded (rq_dbc_pool ps) (rm_damm_pool a)])]\<rparr>))))))))))))))))))"

section \<open>Registration\<close>

text \<open>\<open>validate_permissionless\<close>: the creator read from the pool.\<close>

definition validate_permissionless :: "router_env \<Rightarrow> RouterConfig \<Rightarrow> RegisterPool \<Rightarrow> bytes \<Rightarrow> bytes \<Rightarrow> router_chain \<Rightarrow> string + bytes" where
  "validate_permissionless env cfg a pool_data config_data c =
     sbind (require (has_layout POOL_CONFIG_DISCRIMINATOR 72 config_data) ''InvalidDbcAccount'') (\<lambda>_.
     sbind (read_pubkey config_data 40) (\<lambda>fee_claimer.
     sbind (require (fee_claimer = router_key env) ''FeeClaimerMismatch'') (\<lambda>_.
     sbind (read_pubkey config_data 8) (\<lambda>cfg_quote.
     sbind (require (cfg_quote = rg_quote_mint a) ''QuoteMintMismatch'') (\<lambda>_.
     sbind (require (has_layout VIRTUAL_POOL_DISCRIMINATOR 306 pool_data) ''InvalidDbcAccount'') (\<lambda>_.
     sbind (read_pubkey pool_data 72) (\<lambda>pool_cfg.
     sbind (require (pool_cfg = rg_dbc_config a) ''ConfigMismatch'') (\<lambda>_.
     sbind (read_pubkey pool_data 136) (\<lambda>pool_base.
     sbind (require (pool_base = rg_base_mint a) ''BaseMintMismatch'') (\<lambda>_.
     sbind (read_pubkey pool_data 104) (\<lambda>creator.
     sbind (require (rc_peg_desk_program cfg \<noteq> replicate 32 0) ''InvalidCommodity'') (\<lambda>_.
     sbind (raw_owned (rh_raw c) (rg_commodity a) (rc_peg_desk_program cfg) ''InvalidCommodity'') (\<lambda>commodity.
     sbind (require (52 \<le> length commodity) ''InvalidCommodity'') (\<lambda>_.
     sbind (read_pubkey commodity 20) (\<lambda>coin_mint.
     sbind (require (coin_mint = rg_quote_mint a) ''InvalidCommodity'') (\<lambda>_. Inr creator))))))))))))))))"

text \<open>The vaults, made when missing (the holder vault and the pool state always are).\<close>

definition init_vaults :: "router_env \<Rightarrow> RegisterPool \<Rightarrow> accounts \<Rightarrow> string + accounts" where
  "init_vaults env a m =
     (let w3 = re_w3 env; fr = re_program env; rk = router_key env in
      sbind (require (rg_holder_vault a = fst (feeRouter_holderVault w3 fr (rg_dbc_pool a))) ''ConstraintSeeds'') (\<lambda>_.
      sbind (require (m (rg_holder_vault a) = None) ''AlreadyInUse'') (\<lambda>_.
      sbind (ensure_vault (rg_holder_vault a) (rg_quote_mint a) (rg_pool_state a) (rg_quote_token_program a) m) (\<lambda>m1.
      sbind (require (rg_buyback_vault a = fst (feeRouter_buybackVault w3 fr (rg_quote_mint a))) ''ConstraintSeeds'') (\<lambda>_.
      sbind (ensure_vault (rg_buyback_vault a) (rg_quote_mint a) rk (rg_quote_token_program a) m1) (\<lambda>m2.
      sbind (require (rg_treasury_quote a = fst (feeRouter_treasury w3 fr (rg_quote_mint a))) ''ConstraintSeeds'') (\<lambda>_.
      sbind (ensure_vault (rg_treasury_quote a) (rg_quote_mint a) rk (rg_quote_token_program a) m2) (\<lambda>m3.
      sbind (require (rg_treasury_base a = fst (feeRouter_treasury w3 fr (rg_base_mint a))) ''ConstraintSeeds'') (\<lambda>_.
      sbind (ensure_vault (rg_treasury_base a) (rg_base_mint a) rk (rg_base_token_program a) m3) (\<lambda>m4.
      sbind (require (rg_router_quote_recv a = ata w3 (rg_quote_mint a) rk (rg_quote_token_program a)) ''ConstraintAssociated'') (\<lambda>_.
      ensure_vault (rg_router_quote_recv a) (rg_quote_mint a) rk (rg_quote_token_program a) m4)))))))))))"

definition new_pool_state :: "RegisterPool \<Rightarrow> bytes \<Rightarrow> int \<Rightarrow> RouterPoolState" where
  "new_pool_state a creator fee_bps = \<lparr>rq_dbc_pool = rg_dbc_pool a, rq_dbc_config = rg_dbc_config a, rq_base_mint = rg_base_mint a,
     rq_quote_mint = rg_quote_mint a, rq_commodity = rg_commodity a, rq_creator = creator, rq_fee_bps = fee_bps, rq_migrated = False,
     rq_damm_pool = replicate 32 0, rq_damm_position = replicate 32 0, rq_position_nft_mint = replicate 32 0,
     rq_total_claimed = 0, rq_total_to_holders = 0, rq_total_to_buyback = 0, rq_total_to_protocol = 0, rq_last_claim_ts = 0\<rparr>"

definition write_pool_state :: "string \<Rightarrow> RouterConfig \<Rightarrow> RegisterPool \<Rightarrow> bytes \<Rightarrow> int \<Rightarrow> accounts \<Rightarrow> router_chain \<Rightarrow> string + router_chain" where
  "write_pool_state sig cfg a creator fee_bps m c =
     sbind (require (\<not> rc_paused cfg) ''Paused'') (\<lambda>_.
     sbind (require (fee_bps \<le> MAX_FEE_BPS) ''InvalidFeeBps'') (\<lambda>_.
     Inr (c\<lparr>rh_pools := (rh_pools c)(rg_pool_state a \<mapsto> new_pool_state a creator fee_bps), rh_accounts := m,
       rh_log := rh_log c @ [(sig, [EvPoolRegistered (rg_dbc_pool a) (rg_base_mint a) (rg_quote_mint a) (rg_commodity a) fee_bps])]\<rparr>)))"

text \<open>\<open>register_pool\<close>, and \<open>register_pool_admin\<close> with the creator given.\<close>

definition register_pool :: "router_env \<Rightarrow> string \<Rightarrow> RegisterPool \<Rightarrow> int \<Rightarrow> bytes option \<Rightarrow> router_chain \<Rightarrow> string + router_chain" where
  "register_pool env sig a fee_bps admin_creator c =
     sbind (check_config env (rg_config a) c) (\<lambda>cfg.
     sbind (raw_owned (rh_raw c) (rg_dbc_pool a) (DBC_ID (re_w3 env)) ''InvalidDbcAccount'') (\<lambda>pool_data.
     sbind (raw_owned (rh_raw c) (rg_dbc_config a) (DBC_ID (re_w3 env)) ''InvalidDbcAccount'') (\<lambda>config_data.
     sbind (require (rg_pool_state a = fst (feeRouter_pool (re_w3 env) (re_program env) (rg_dbc_pool a))) ''ConstraintSeeds'') (\<lambda>_.
     sbind (require (rh_pools c (rg_pool_state a) = None) ''AlreadyInUse'') (\<lambda>_.
     sbind (init_vaults env a (rh_accounts c)) (\<lambda>m.
     sbind (case admin_creator of None \<Rightarrow> validate_permissionless env cfg a pool_data config_data c
       | Some creator \<Rightarrow> sbind (require (rg_payer a = rc_admin cfg) ''Unauthorized'') (\<lambda>_. Inr creator)) (\<lambda>creator.
     write_pool_state sig cfg a creator fee_bps m c)))))))"

section \<open>Withdrawals\<close>

record Withdraw =
  wd_authority :: bytes
  wd_config :: bytes
  wd_pool_state :: bytes
  wd_vault :: bytes
  wd_mint :: bytes
  wd_destination :: bytes

definition vault_out :: "router_env \<Rightarrow> string \<Rightarrow> Withdraw \<Rightarrow> bytes \<Rightarrow> int \<Rightarrow> int \<Rightarrow> router_chain \<Rightarrow> string + router_chain" where
  "vault_out env sig a authority amount kind c =
     sbind (re_transfer env (wd_vault a) (wd_destination a) (wd_mint a) authority amount (rh_accounts c)) (\<lambda>m.
     Inr (c\<lparr>rh_accounts := m, rh_log := rh_log c @ [(sig, [EvVaultWithdrawn (wd_vault a) (wd_mint a) (wd_destination a) amount kind])]\<rparr>))"

definition check_destination :: "Withdraw \<Rightarrow> accounts \<Rightarrow> string + unit" where
  "check_destination a m = sbind (some_or (token_at m (wd_destination a)) ''AccountNotInitialized'') (\<lambda>t.
     require (ta_mint t = wd_mint a) ''ConstraintTokenMint'')"

definition router_withdraw_for_epoch :: "router_env \<Rightarrow> string \<Rightarrow> Withdraw \<Rightarrow> int \<Rightarrow> router_chain \<Rightarrow> string + router_chain" where
  "router_withdraw_for_epoch env sig a amount c =
     sbind (check_config env (wd_config a) c) (\<lambda>cfg.
     sbind (some_or (rh_pools c (wd_pool_state a)) ''AccountNotInitialized'') (\<lambda>ps.
     sbind (require (wd_pool_state a = fst (feeRouter_pool (re_w3 env) (re_program env) (rq_dbc_pool ps))) ''ConstraintSeeds'') (\<lambda>_.
     sbind (require (rq_quote_mint ps = wd_mint a) ''ConstraintHasOne'') (\<lambda>_.
     sbind (token_is (rh_accounts c) (wd_vault a) (fst (feeRouter_holderVault (re_w3 env) (re_program env) (rq_dbc_pool ps))) (wd_mint a) (wd_pool_state a)) (\<lambda>_.
     sbind (check_destination a (rh_accounts c)) (\<lambda>_.
     sbind (require (\<not> rc_paused cfg) ''Paused'') (\<lambda>_.
     sbind (require (amount > 0) ''ZeroAmount'') (\<lambda>_.
     sbind (require (wd_authority a = fst (distributor_distAuth (re_w3 env) (rc_distributor_program cfg))) ''InvalidAuthority'') (\<lambda>_.
     sbind (require (vault_balance (rh_accounts c) (wd_vault a) \<ge> amount) ''InsufficientVault'') (\<lambda>_.
     vault_out env sig a (wd_pool_state a) amount 0 c))))))))))"

definition withdraw_for_buyback :: "router_env \<Rightarrow> string \<Rightarrow> Withdraw \<Rightarrow> int \<Rightarrow> router_chain \<Rightarrow> string + router_chain" where
  "withdraw_for_buyback env sig a amount c =
     sbind (check_config env (wd_config a) c) (\<lambda>cfg.
     sbind (token_is (rh_accounts c) (wd_vault a) (fst (feeRouter_buybackVault (re_w3 env) (re_program env) (wd_mint a))) (wd_mint a) (router_key env)) (\<lambda>_.
     sbind (check_destination a (rh_accounts c)) (\<lambda>_.
     sbind (require (\<not> rc_paused cfg) ''Paused'') (\<lambda>_.
     sbind (require (amount > 0) ''ZeroAmount'') (\<lambda>_.
     sbind (require (wd_authority a = fst (buyback_authority (re_w3 env) (rc_buyback_program cfg))) ''InvalidAuthority'') (\<lambda>_.
     sbind (require (vault_balance (rh_accounts c) (wd_vault a) \<ge> amount) ''InsufficientVault'') (\<lambda>_.
     vault_out env sig a (router_key env) amount 1 c)))))))"

definition withdraw_treasury :: "router_env \<Rightarrow> string \<Rightarrow> Withdraw \<Rightarrow> int \<Rightarrow> router_chain \<Rightarrow> string + router_chain" where
  "withdraw_treasury env sig a amount c =
     sbind (check_config env (wd_config a) c) (\<lambda>cfg.
     sbind (require (rc_admin cfg = wd_authority a) ''Unauthorized'') (\<lambda>_.
     sbind (token_is (rh_accounts c) (wd_vault a) (fst (feeRouter_treasury (re_w3 env) (re_program env) (wd_mint a))) (wd_mint a) (router_key env)) (\<lambda>_.
     sbind (check_destination a (rh_accounts c)) (\<lambda>_.
     sbind (require (amount > 0) ''ZeroAmount'') (\<lambda>_.
     sbind (require (vault_balance (rh_accounts c) (wd_vault a) \<ge> amount) ''InsufficientVault'') (\<lambda>_.
     vault_out env sig a (router_key env) amount 2 c))))))"

section \<open>Administration\<close>

definition check_split :: "int \<Rightarrow> int \<Rightarrow> int \<Rightarrow> string + unit" where
  "check_split h b p = require (h + b + p = ROUTER_BPS_DENOM) ''InvalidSplit''"

record InitializeRouterArgs =
  ir_distributor_program :: bytes
  ir_buyback_program :: bytes
  ir_peg_desk_program :: bytes
  ir_holders_bps :: int
  ir_buyback_bps :: int
  ir_protocol_bps :: int

text \<open>\<open>init\<close> of the singleton; \<open>upgrade_authority\<close> is the outcome of the check of the caller.\<close>

definition initialize_router :: "bool \<Rightarrow> bytes \<Rightarrow> InitializeRouterArgs \<Rightarrow> router_chain \<Rightarrow> string + router_chain" where
  "initialize_router upgrade_authority payer args c =
     sbind (require (rh_config c = None) ''AlreadyInUse'') (\<lambda>_.
     sbind (require upgrade_authority ''NotUpgradeAuthority'') (\<lambda>_.
     sbind (check_split (ir_holders_bps args) (ir_buyback_bps args) (ir_protocol_bps args)) (\<lambda>_.
     Inr (c\<lparr>rh_config := Some \<lparr>rc_admin = payer, rc_keepers = [], rc_distributor_program = ir_distributor_program args,
       rc_buyback_program = ir_buyback_program args, rc_holders_bps = ir_holders_bps args, rc_buyback_bps = ir_buyback_bps args,
       rc_protocol_bps = ir_protocol_bps args, rc_paused = False, rc_peg_desk_program = ir_peg_desk_program args\<rparr>\<rparr>))))"

definition admin_only :: "bytes \<Rightarrow> (RouterConfig \<Rightarrow> string + RouterConfig) \<Rightarrow> router_chain \<Rightarrow> string + router_chain" where
  "admin_only admin f c = sbind (some_or (rh_config c) ''AccountNotInitialized'') (\<lambda>cfg.
     sbind (require (rc_admin cfg = admin) ''Unauthorized'') (\<lambda>_.
     sbind (f cfg) (\<lambda>cfg'. Inr (c\<lparr>rh_config := Some cfg'\<rparr>))))"

definition set_split :: "bytes \<Rightarrow> int \<Rightarrow> int \<Rightarrow> int \<Rightarrow> router_chain \<Rightarrow> string + router_chain" where
  "set_split admin h b p = admin_only admin (\<lambda>cfg. sbind (check_split h b p) (\<lambda>_.
     Inr (cfg\<lparr>rc_holders_bps := h, rc_buyback_bps := b, rc_protocol_bps := p\<rparr>)))"

definition set_router_keepers :: "bytes \<Rightarrow> bytes list \<Rightarrow> router_chain \<Rightarrow> string + router_chain" where
  "set_router_keepers admin keepers = admin_only admin (\<lambda>cfg.
     sbind (require (length keepers \<le> MAX_KEEPERS) ''TooManyKeepers'') (\<lambda>_. Inr (cfg\<lparr>rc_keepers := keepers\<rparr>)))"

definition pause_router :: "bytes \<Rightarrow> bool \<Rightarrow> router_chain \<Rightarrow> string + router_chain" where
  "pause_router admin paused = admin_only admin (\<lambda>cfg. Inr (cfg\<lparr>rc_paused := paused\<rparr>))"

definition set_programs :: "bytes \<Rightarrow> bytes \<Rightarrow> bytes \<Rightarrow> bytes \<Rightarrow> bytes \<Rightarrow> router_chain \<Rightarrow> string + router_chain" where
  "set_programs admin dist bb peg_desk new_admin = admin_only admin (\<lambda>cfg.
     Inr (cfg\<lparr>rc_distributor_program := dist, rc_buyback_program := bb, rc_peg_desk_program := peg_desk,
       rc_admin := (if new_admin = replicate 32 0 then rc_admin cfg else new_admin)\<rparr>))"

section \<open>Steps\<close>

datatype router_ix =
    ClaimDbcIx ClaimDbc
  | ClaimSurplusIx ClaimDbc
  | ClaimDammIx ClaimDamm
  | RecordMigrationIx RecordMigration bool
  | RegisterPoolIx RegisterPool int "bytes option"
  | WithdrawForEpochIx Withdraw int
  | WithdrawForBuybackIx Withdraw int
  | WithdrawTreasuryIx Withdraw int
  | InitializeRouterIx bool bytes InitializeRouterArgs
  | SetSplitIx bytes int int int
  | SetKeepersIx bytes "bytes list"
  | PauseIx bytes bool
  | SetProgramsIx bytes bytes bytes bytes bytes

fun router_exec :: "router_env \<Rightarrow> string \<Rightarrow> router_ix \<Rightarrow> router_chain \<Rightarrow> string + router_chain" where
  "router_exec env sig (ClaimDbcIx a) = claim_dbc env sig a"
| "router_exec env sig (ClaimSurplusIx a) = claim_dbc_surplus env sig a"
| "router_exec env sig (ClaimDammIx a) = claim_damm env sig a"
| "router_exec env sig (RecordMigrationIx a force) = record_migration env sig a force"
| "router_exec env sig (RegisterPoolIx a fee creator) = register_pool env sig a fee creator"
| "router_exec env sig (WithdrawForEpochIx a n) = router_withdraw_for_epoch env sig a n"
| "router_exec env sig (WithdrawForBuybackIx a n) = withdraw_for_buyback env sig a n"
| "router_exec env sig (WithdrawTreasuryIx a n) = withdraw_treasury env sig a n"
| "router_exec env sig (InitializeRouterIx up payer args) = initialize_router up payer args"
| "router_exec env sig (SetSplitIx admin h b p) = set_split admin h b p"
| "router_exec env sig (SetKeepersIx admin ks) = set_router_keepers admin ks"
| "router_exec env sig (PauseIx admin paused) = pause_router admin paused"
| "router_exec env sig (SetProgramsIx admin d b p n) = set_programs admin d b p n"

text \<open>Time, the token program and Meteora's programs also move between two instructions.\<close>

definition in_u16 :: "int \<Rightarrow> bool" where
  "in_u16 n \<longleftrightarrow> 0 \<le> n \<and> n < 2 ^ 16"

text \<open>Arguments of the Rust types.\<close>

fun ix_typed :: "router_ix \<Rightarrow> bool" where
  "ix_typed (InitializeRouterIx up payer args) = (in_u16 (ir_holders_bps args) \<and> in_u16 (ir_buyback_bps args) \<and> in_u16 (ir_protocol_bps args))"
| "ix_typed (SetSplitIx admin h b p) = (in_u16 h \<and> in_u16 b \<and> in_u16 p)"
| "ix_typed (RegisterPoolIx a fee creator) = in_u16 fee"
| "ix_typed _ = True"

inductive router_step :: "router_env \<Rightarrow> router_chain \<Rightarrow> router_chain \<Rightarrow> bool" for env where
  run: "ix_typed ix \<Longrightarrow> router_exec env sig ix c = Inr c' \<Longrightarrow> router_step env c c'"
| outside: "router_step env c (c\<lparr>rh_clock := t, rh_accounts := m, rh_raw := raw\<rparr>)"

inductive_cases router_stepE: "router_step env c c'"

inductive router_reachable :: "router_env \<Rightarrow> router_chain \<Rightarrow> bool" for env where
  start: "rh_config c = None \<Longrightarrow> rh_pools c = Map.empty \<Longrightarrow> rh_log c = [] \<Longrightarrow> router_reachable env c"
| step: "router_reachable env c \<Longrightarrow> router_step env c c' \<Longrightarrow> router_reachable env c'"


section \<open>Books\<close>

text \<open>What a pool's counters count, and what an event adds to them.\<close>

datatype bucket = Claimed | ToHolders | ToBuyback | ToProtocol

fun total_of :: "RouterPoolState \<Rightarrow> bucket \<Rightarrow> int" where
  "total_of ps Claimed = rq_total_claimed ps"
| "total_of ps ToHolders = rq_total_to_holders ps"
| "total_of ps ToBuyback = rq_total_to_buyback ps"
| "total_of ps ToProtocol = rq_total_to_protocol ps"

fun adds :: "bytes \<Rightarrow> bucket \<Rightarrow> router_event \<Rightarrow> int" where
  "adds d Claimed (EvFeesClaimed p s q b) = (if p = d then q else 0)"
| "adds d ToHolders (EvFeesSplit p h b r) = (if p = d then h else 0)"
| "adds d ToBuyback (EvFeesSplit p h b r) = (if p = d then b else 0)"
| "adds d ToProtocol (EvFeesSplit p h b r) = (if p = d then r else 0)"
| "adds d _ _ = 0"

definition added :: "bytes \<Rightarrow> bucket \<Rightarrow> router_event list \<Rightarrow> int" where
  "added d k evs = sum_list (map (adds d k) evs)"

definition log_total :: "router_chain \<Rightarrow> bytes \<Rightarrow> bucket \<Rightarrow> int" where
  "log_total c d k = added d k (concat (map snd (rh_log c)))"

definition pool_key :: "router_env \<Rightarrow> bytes \<Rightarrow> bytes" where
  "pool_key env d = fst (feeRouter_pool (re_w3 env) (re_program env) d)"

definition pool_total :: "router_env \<Rightarrow> router_chain \<Rightarrow> bytes \<Rightarrow> bucket \<Rightarrow> int" where
  "pool_total env c d k = (case rh_pools c (pool_key env d) of None \<Rightarrow> 0 | Some ps \<Rightarrow> if rq_dbc_pool ps = d then total_of ps k else 0)"

definition balanced :: "RouterPoolState \<Rightarrow> bool" where
  "balanced ps \<longleftrightarrow> rq_total_claimed ps = rq_total_to_holders ps + rq_total_to_buyback ps + rq_total_to_protocol ps \<and>
     0 \<le> rq_total_to_holders ps \<and> 0 \<le> rq_total_to_buyback ps \<and> 0 \<le> rq_total_to_protocol ps"

definition shares_ok :: "RouterConfig \<Rightarrow> bool" where
  "shares_ok cfg \<longleftrightarrow> rc_holders_bps cfg + rc_buyback_bps cfg + rc_protocol_bps cfg = ROUTER_BPS_DENOM \<and>
     0 \<le> rc_holders_bps cfg \<and> 0 \<le> rc_buyback_bps cfg \<and> 0 \<le> rc_protocol_bps cfg"

definition router_inv :: "router_env \<Rightarrow> router_chain \<Rightarrow> bool" where
  "router_inv env c \<longleftrightarrow> (\<forall>d k. pool_total env c d k = log_total c d k) \<and>
     (\<forall>key ps. rh_pools c key = Some ps \<longrightarrow> key = pool_key env (rq_dbc_pool ps) \<and> balanced ps) \<and>
     (\<forall>cfg. rh_config c = Some cfg \<longrightarrow> shares_ok cfg)"

lemma added_simps [simp]:
  "added d k [] = 0" "added d k (ev # evs) = adds d k ev + added d k evs" "added d k (es @ fs) = added d k es + added d k fs"
  by (simp_all add: added_def)

lemma log_total_append [simp]: "log_total (c\<lparr>rh_log := l @ [(sig, evs)]\<rparr>) d k = log_total (c\<lparr>rh_log := l\<rparr>) d k + added d k evs"
  by (simp add: log_total_def)

lemma log_total_same: "log_total (c\<lparr>rh_log := rh_log c\<rparr>) = log_total c"
  by (rule ext)+ (simp add: log_total_def)

text \<open>An instruction that adds what it reports to one pool.\<close>

lemma router_inv_update:
  assumes inv: "router_inv env c" and key: "key = pool_key env d" "rq_dbc_pool ps' = d" "balanced ps'"
    and old: "rh_pools c key = None \<or> (\<exists>ps. rh_pools c key = Some ps \<and> rq_dbc_pool ps = d)"
    and adds: "\<And>k. total_of ps' k = pool_total env c d k + added d k evs" "\<And>e k. e \<noteq> d \<Longrightarrow> added e k evs = 0"
  shows "router_inv env (c\<lparr>rh_pools := (rh_pools c)(key \<mapsto> ps'), rh_accounts := m, rh_raw := raw, rh_log := rh_log c @ [(sig, evs)]\<rparr>)"
    (is "router_inv env ?c")
proof -
  have books: "pool_total env c e k = log_total c e k" for e k using inv by (simp add: router_inv_def)
  have new: "log_total ?c e k = log_total c e k + added e k evs" for e k by (simp add: log_total_def)
  have "pool_total env ?c e k = pool_total env c e k + added e k evs" for e k
  proof (cases "e = d")
    case True
    then show ?thesis using adds(1) key(1,2) by (simp add: pool_total_def)
  next
    case False
    have "pool_total env c e k = 0" if "pool_key env e = key" using that old False by (auto simp: pool_total_def)
    then show ?thesis using False key adds(2) [OF False] by (simp add: pool_total_def)
  qed
  then have "pool_total env ?c e k = log_total ?c e k" for e k using books new by simp
  moreover have "\<forall>key ps. rh_pools ?c key = Some ps \<longrightarrow> key = pool_key env (rq_dbc_pool ps) \<and> balanced ps"
    using inv key by (auto simp: router_inv_def)
  moreover have "\<forall>cfg. rh_config ?c = Some cfg \<longrightarrow> shares_ok cfg" using inv by (simp add: router_inv_def)
  ultimately show ?thesis unfolding router_inv_def by blast
qed

text \<open>An instruction that reports nothing about fees.\<close>

lemma router_inv_quiet:
  assumes "router_inv env c" "\<And>d k. added d k evs = 0"
  shows "router_inv env (c\<lparr>rh_accounts := m, rh_log := rh_log c @ [(sig, evs)]\<rparr>)"
  using assms by (auto simp: router_inv_def pool_total_def log_total_def)

lemma router_inv_config:
  assumes "router_inv env c" "shares_ok cfg"
  shows "router_inv env (c\<lparr>rh_config := Some cfg\<rparr>)"
  using assms by (auto simp: router_inv_def pool_total_def log_total_def)

section \<open>The split keeps the books\<close>

lemma split_amounts_sum:
  "split_amounts a hb bb = Some (h, b, p) \<Longrightarrow> h + b + p = a \<and> 0 \<le> h \<and> 0 \<le> b \<and> 0 \<le> p"
  by (auto simp: split_amounts_def Let_def split: if_splits)

lemma split_claim_Inr:
  assumes "split_claim env s ps d amount m = Inr (ps', m', evs)"
  obtains h b p where "h + b + p = amount" "0 \<le> h" "0 \<le> b" "0 \<le> p" "amount = 0 \<longrightarrow> evs = []"
    "ps' = ps\<lparr>rq_total_claimed := rq_total_claimed ps + amount, rq_total_to_holders := rq_total_to_holders ps + h,
       rq_total_to_buyback := rq_total_to_buyback ps + b, rq_total_to_protocol := rq_total_to_protocol ps + p\<rparr>"
    "\<And>e. added e ToHolders evs = (if e = d then h else 0)" "\<And>e. added e ToBuyback evs = (if e = d then b else 0)"
    "\<And>e. added e ToProtocol evs = (if e = d then p else 0)" "\<And>e. added e Claimed evs = 0"
proof (cases "amount = 0")
  case True
  then show ?thesis using assms by (intro that [of 0 0 0]) (auto simp: split_claim_def)
next
  case False
  obtain h b p where parts: "split_amounts amount (sx_holders_bps s) (sx_buyback_bps s) = Some (h, b, p)"
      and new: "ps' = ps\<lparr>rq_total_claimed := rq_total_claimed ps + amount, rq_total_to_holders := rq_total_to_holders ps + h,
        rq_total_to_buyback := rq_total_to_buyback ps + b, rq_total_to_protocol := rq_total_to_protocol ps + p\<rparr>"
      and evs: "evs = [EvFeesSplit d h b p]"
    using assms False by (auto simp: split_claim_def result_simps split_paired_all)
  show ?thesis using split_amounts_sum [OF parts] False by (intro that [OF _ _ _ _ _ new]) (auto simp: evs)
qed

lemma balanced_split:
  "balanced ps \<Longrightarrow> h + b + p = n \<Longrightarrow> 0 \<le> h \<Longrightarrow> 0 \<le> b \<Longrightarrow> 0 \<le> p \<Longrightarrow>
    balanced (ps\<lparr>rq_total_claimed := rq_total_claimed ps + n, rq_total_to_holders := rq_total_to_holders ps + h,
      rq_total_to_buyback := rq_total_to_buyback ps + b, rq_total_to_protocol := rq_total_to_protocol ps + p\<rparr>)"
  by (simp add: balanced_def)

text \<open>A pool state whose counters are those of the stored one.\<close>

definition same_books :: "RouterPoolState \<Rightarrow> RouterPoolState \<Rightarrow> bool" where
  "same_books p q \<longleftrightarrow> rq_dbc_pool p = rq_dbc_pool q \<and> (\<forall>k. total_of p k = total_of q k)"

lemma same_books_balanced: "same_books p q \<Longrightarrow> balanced q \<Longrightarrow> balanced p"
  unfolding same_books_def balanced_def by (metis total_of.simps)

lemma finish_claim_inv:
  assumes inv: "router_inv env c" and ps: "rh_pools c key = Some old" "same_books ps old"
    and run: "finish_claim env sig s key ps source q base after c = Inr c'"
  shows "router_inv env c'"
proof -
  let ?d = "rq_dbc_pool ps"
  have old: "key = pool_key env ?d" "balanced ps" "rq_dbc_pool old = ?d" "\<And>k. total_of ps k = total_of old k"
    using inv ps same_books_balanced [OF ps(2)] by (auto simp: router_inv_def same_books_def)
  obtain ps' m evs where split: "split_claim env s ps ?d q (fst after) = Inr (ps', m, evs)"
      and c': "c' = c\<lparr>rh_pools := (rh_pools c)(key \<mapsto> ps'), rh_accounts := m, rh_raw := snd after,
        rh_log := rh_log c @ [(sig, EvFeesClaimed ?d source q base # evs)]\<rparr>"
    using run by (auto simp: finish_claim_def result_simps split_paired_all)
  obtain h b p where parts: "h + b + p = q" "0 \<le> h" "0 \<le> b" "0 \<le> p"
      "ps' = ps\<lparr>rq_total_claimed := rq_total_claimed ps + q, rq_total_to_holders := rq_total_to_holders ps + h,
        rq_total_to_buyback := rq_total_to_buyback ps + b, rq_total_to_protocol := rq_total_to_protocol ps + p\<rparr>"
      "\<And>e. added e ToHolders evs = (if e = ?d then h else 0)" "\<And>e. added e ToBuyback evs = (if e = ?d then b else 0)"
      "\<And>e. added e ToProtocol evs = (if e = ?d then p else 0)" "\<And>e. added e Claimed evs = 0"
    using split by (rule split_claim_Inr) blast
  have now: "pool_total env c ?d k = total_of ps k" for k using old ps(1) by (simp add: pool_total_def)
  show ?thesis unfolding c'
  proof (rule router_inv_update [OF inv old(1)])
    show "rq_dbc_pool ps' = ?d" by (simp add: parts(5))
    show "balanced ps'" unfolding parts(5) by (rule balanced_split [OF old(2) parts(1-4)])
    show "rh_pools c key = None \<or> (\<exists>ps'. rh_pools c key = Some ps' \<and> rq_dbc_pool ps' = ?d)" using ps(1) old(3) by simp
    show "total_of ps' k = pool_total env c ?d k + added ?d k (EvFeesClaimed ?d source q base # evs)" for k
      unfolding now by (cases k) (simp_all add: parts)
    show "added e k (EvFeesClaimed ?d source q base # evs) = 0" if "e \<noteq> ?d" for e k
      using that by (cases k) (simp_all add: parts)
  qed
qed

lemma same_books_refl [simp]: "same_books p p" "same_books (p\<lparr>rq_last_claim_ts := t\<rparr>) p"
  "same_books (p\<lparr>rq_migrated := m, rq_damm_pool := x, rq_damm_position := y, rq_position_nft_mint := z\<rparr>) p"
proof -
  have "total_of (p\<lparr>rq_last_claim_ts := t\<rparr>) k = total_of p k"
    "total_of (p\<lparr>rq_migrated := m, rq_damm_pool := x, rq_damm_position := y, rq_position_nft_mint := z\<rparr>) k = total_of p k" for k
    by (cases k; simp)+
  then show "same_books p p" "same_books (p\<lparr>rq_last_claim_ts := t\<rparr>) p"
    "same_books (p\<lparr>rq_migrated := m, rq_damm_pool := x, rq_damm_position := y, rq_position_nft_mint := z\<rparr>) p"
    by (simp_all add: same_books_def)
qed

lemma claim_dbc_inv: "router_inv env c \<Longrightarrow> claim_dbc env sig a c = Inr c' \<Longrightarrow> router_inv env c'"
  by (auto simp: claim_dbc_def check_dbc_accounts_def check_dbc_pool_def result_simps elim!: finish_claim_inv)

lemma claim_surplus_inv: "router_inv env c \<Longrightarrow> claim_dbc_surplus env sig a c = Inr c' \<Longrightarrow> router_inv env c'"
  by (auto simp: claim_dbc_surplus_def check_dbc_accounts_def check_dbc_pool_def result_simps elim!: finish_claim_inv)

lemma claim_damm_inv: "router_inv env c \<Longrightarrow> claim_damm env sig a c = Inr c' \<Longrightarrow> router_inv env c'"
  by (auto simp: claim_damm_def check_damm_accounts_def result_simps elim!: finish_claim_inv)


lemma record_migration_inv:
  assumes inv: "router_inv env c" and run: "record_migration env sig a force c = Inr c'"
  shows "router_inv env c'"
proof -
  obtain ps nft where ps: "rh_pools c (rm_pool_state a) = Some ps"
      and c': "c' = c\<lparr>rh_pools := (rh_pools c)(rm_pool_state a \<mapsto> ps\<lparr>rq_migrated := True, rq_damm_pool := rm_damm_pool a,
         rq_damm_position := rm_damm_position a, rq_position_nft_mint := nft\<rparr>), rh_accounts := rh_accounts c, rh_raw := rh_raw c,
       rh_log := rh_log c @ [(sig, [EvMigrationRecorded (rq_dbc_pool ps) (rm_damm_pool a)])]\<rparr>"
    using run by (auto simp: record_migration_def result_simps)
  let ?ps = "ps\<lparr>rq_migrated := True, rq_damm_pool := rm_damm_pool a, rq_damm_position := rm_damm_position a, rq_position_nft_mint := nft\<rparr>"
  have old: "rm_pool_state a = pool_key env (rq_dbc_pool ps)" "balanced ps" using inv ps by (auto simp: router_inv_def)
  have same: "same_books ?ps ps" by simp
  have quiet: "added d k [EvMigrationRecorded x y] = 0" for d k x y by (cases k) simp_all
  show ?thesis unfolding c'
  proof (rule router_inv_update [OF inv, where d = "rq_dbc_pool ps"])
    show "balanced ?ps" by (rule same_books_balanced [OF same old(2)])
    show "total_of ?ps k = pool_total env c (rq_dbc_pool ps) k + added (rq_dbc_pool ps) k [EvMigrationRecorded (rq_dbc_pool ps) (rm_damm_pool a)]" for k
      using same ps old(1) by (simp add: quiet pool_total_def same_books_def)
  qed (use ps old quiet in auto)
qed

lemma register_pool_inv:
  assumes inv: "router_inv env c" and run: "register_pool env sig a fee creator c = Inr c'"
  shows "router_inv env c'"
proof -
  obtain ps m r where new: "rh_pools c (rg_pool_state a) = None" "rg_pool_state a = pool_key env (rg_dbc_pool a)"
      and c': "c' = c\<lparr>rh_pools := (rh_pools c)(rg_pool_state a \<mapsto> new_pool_state a r fee), rh_accounts := m, rh_raw := rh_raw c,
       rh_log := rh_log c @ [(sig, [EvPoolRegistered (rg_dbc_pool a) (rg_base_mint a) (rg_quote_mint a) (rg_commodity a) fee])]\<rparr>"
    using run by (auto simp: register_pool_def write_pool_state_def pool_key_def result_simps)
  have quiet: "added d k [EvPoolRegistered x y z u v] = 0" for d k x y z u v by (cases k) simp_all
  show ?thesis unfolding c'
  proof (rule router_inv_update [OF inv new(2)])
    show "total_of (new_pool_state a r fee) k = pool_total env c (rg_dbc_pool a) k +
        added (rg_dbc_pool a) k [EvPoolRegistered (rg_dbc_pool a) (rg_base_mint a) (rg_quote_mint a) (rg_commodity a) fee]" for k
      using new by (cases k) (simp_all add: pool_total_def new_pool_state_def)
  qed (use new quiet in \<open>auto simp: new_pool_state_def balanced_def\<close>)
qed

lemma vault_out_inv:
  assumes "router_inv env c" "vault_out env sig a authority n kind c = Inr c'"
  shows "router_inv env c'"
proof -
  have "added d k [EvVaultWithdrawn x y z n kind] = 0" for d k x y z by (cases k) simp_all
  then show ?thesis using assms by (auto simp: vault_out_def result_simps intro!: router_inv_quiet)
qed

lemma admin_only_inv:
  assumes "router_inv env c" "admin_only admin f c = Inr c'" "\<And>cfg cfg'. shares_ok cfg \<Longrightarrow> f cfg = Inr cfg' \<Longrightarrow> shares_ok cfg'"
  shows "router_inv env c'"
proof -
  obtain cfg cfg' where "rh_config c = Some cfg" "f cfg = Inr cfg'" "c' = c\<lparr>rh_config := Some cfg'\<rparr>"
    using assms(2) by (auto simp: admin_only_def result_simps)
  then show ?thesis using assms(1,3) router_inv_config by (auto simp: router_inv_def)
qed

lemma initialize_router_inv:
  assumes "router_inv env c" "initialize_router up payer args c = Inr c'"
    and "in_u16 (ir_holders_bps args)" "in_u16 (ir_buyback_bps args)" "in_u16 (ir_protocol_bps args)"
  shows "router_inv env c'"
  using assms by (auto simp: initialize_router_def check_split_def result_simps shares_ok_def in_u16_def intro!: router_inv_config)

lemma router_exec_inv:
  assumes inv: "router_inv env c" and "ix_typed ix" and run: "router_exec env sig ix c = Inr c'"
  shows "router_inv env c'"
proof (cases ix)
  case (WithdrawForEpochIx a n)
  then show ?thesis using run inv by (auto simp: router_withdraw_for_epoch_def result_simps elim: vault_out_inv)
next
  case (WithdrawForBuybackIx a n)
  then show ?thesis using run inv by (auto simp: withdraw_for_buyback_def result_simps elim: vault_out_inv)
next
  case (WithdrawTreasuryIx a n)
  then show ?thesis using run inv by (auto simp: withdraw_treasury_def result_simps elim: vault_out_inv)
next
  case (SetSplitIx admin h b p)
  have "router_inv env c'" if "set_split admin h b p c = Inr c'"
    by (rule admin_only_inv [OF inv that [unfolded set_split_def]])
      (use assms(2) SetSplitIx in \<open>auto simp: check_split_def result_simps shares_ok_def in_u16_def\<close>)
  then show ?thesis using run SetSplitIx by simp
next
  case (SetKeepersIx admin ks)
  have "router_inv env c'" if "set_router_keepers admin ks c = Inr c'"
    by (rule admin_only_inv [OF inv that [unfolded set_router_keepers_def]]) (auto simp: result_simps shares_ok_def)
  then show ?thesis using run SetKeepersIx by simp
next
  case (PauseIx admin p)
  have "router_inv env c'" if "pause_router admin p c = Inr c'"
    by (rule admin_only_inv [OF inv that [unfolded pause_router_def]]) (auto simp: shares_ok_def)
  then show ?thesis using run PauseIx by simp
next
  case (SetProgramsIx admin d b p n)
  have "router_inv env c'" if "set_programs admin d b p n c = Inr c'"
    by (rule admin_only_inv [OF inv that [unfolded set_programs_def]]) (auto simp: shares_ok_def)
  then show ?thesis using run SetProgramsIx by simp
next
  case (ClaimDbcIx a)
  then show ?thesis using run by (simp add: claim_dbc_inv [OF inv])
next
  case (ClaimSurplusIx a)
  then show ?thesis using run by (simp add: claim_surplus_inv [OF inv])
next
  case (ClaimDammIx a)
  then show ?thesis using run by (simp add: claim_damm_inv [OF inv])
next
  case (RecordMigrationIx a f)
  then show ?thesis using run by (simp add: record_migration_inv [OF inv])
next
  case (RegisterPoolIx a fee creator)
  then show ?thesis using run by (simp add: register_pool_inv [OF inv])
next
  case (InitializeRouterIx up payer args)
  then show ?thesis using run assms(2) by (simp add: initialize_router_inv [OF inv])
qed

lemma router_reachable_inv: "router_reachable env c \<Longrightarrow> router_inv env c"
proof (induction rule: router_reachable.induct)
  case (start c)
  then show ?case by (simp add: router_inv_def pool_total_def log_total_def)
next
  case (step c c')
  from step.hyps(2) show ?case
    by (elim router_stepE) (rule router_exec_inv [OF step.IH], assumption+,
      use step.IH in \<open>auto simp: router_inv_def pool_total_def log_total_def\<close>)
qed

section \<open>Properties\<close>

text \<open>
  C5: the program's books are right on every reachable chain.  What a pool has claimed is the sum of
  its \<open>FeesClaimed\<close> events, what went to holders, buyback and treasury the sums of its \<open>FeesSplit\<close>
  events, the three add up to what was claimed, and the shares of the configuration make a whole.
\<close>

theorem router_books:
  assumes "router_reachable env c" "rh_pools c key = Some ps"
  shows "(\<forall>k. total_of ps k = log_total c (rq_dbc_pool ps) k) \<and>
    rq_total_claimed ps = rq_total_to_holders ps + rq_total_to_buyback ps + rq_total_to_protocol ps \<and>
    key = pool_key env (rq_dbc_pool ps) \<and> (\<forall>cfg \<in> set_option (rh_config c). shares_ok cfg)"
proof -
  have inv: "router_inv env c" using assms(1) by (rule router_reachable_inv)
  then have key: "key = pool_key env (rq_dbc_pool ps)" "balanced ps" using assms(2) by (auto simp: router_inv_def)
  then have "pool_total env c (rq_dbc_pool ps) k = total_of ps k" for k using assms(2) by (simp add: pool_total_def)
  then show ?thesis using inv key by (auto simp: router_inv_def balanced_def)
qed

text \<open>The token program's documented transfer: the amount moves from one account to the other.\<close>

definition moves :: "transfer_checked \<Rightarrow> bool" where
  "moves xf \<longleftrightarrow> (\<forall>src dst mint authority n m m'. src \<noteq> dst \<longrightarrow> xf src dst mint authority n m = Inr m' \<longrightarrow>
     (\<forall>k. vault_balance m' k = vault_balance m k + (if k = dst then n else 0) - (if k = src then n else 0)))"

lemma transfer_from_router_moves:
  "moves (re_transfer env) \<Longrightarrow> transfer_from_router env s dest n m = Inr m' \<Longrightarrow> sx_source s \<noteq> dest \<Longrightarrow>
    vault_balance m' k = vault_balance m k + (if k = dest then n else 0) - (if k = sx_source s then n else 0)"
  by (cases "n = 0") (simp_all add: transfer_from_router_def moves_def)

lemma split_amounts_exact:
  assumes "0 \<le> n" "n < 2 ^ 64" "0 \<le> h" "0 \<le> b" "h + b \<le> ROUTER_BPS_DENOM"
  shows "split_amounts n h b = Some (n * h div 10000, n * b div 10000, n - n * h div 10000 - n * b div 10000)"
proof -
  have share: "n * x div 10000 \<le> n" if "x \<le> 10000" for x
  proof -
    have "n * x \<le> n * 10000" using that assms(1) by (intro mult_left_mono) auto
    then show ?thesis using zdiv_mono1 [of "n * x" "n * 10000" 10000] by simp
  qed
  have "n * h div 10000 + n * b div 10000 \<le> (n * h + n * b) div 10000"
    by (simp add: div_add1_eq [of "n * h" "n * b"] pos_imp_zdiv_nonneg_iff)
  also have "\<dots> = n * (h + b) div 10000" by (simp add: distrib_left)
  also have "\<dots> \<le> n" using assms(5) by (intro share) (simp add: ROUTER_BPS_DENOM_def)
  finally have sum: "n * h div 10000 + n * b div 10000 \<le> n" .
  have pos: "0 \<le> n * h div 10000" "0 \<le> n * b div 10000" using assms by (simp_all add: pos_imp_zdiv_nonneg_iff)
  then have "n * h div 10000 mod 2 ^ 64 = n * h div 10000" "n * b div 10000 mod 2 ^ 64 = n * b div 10000"
    using sum assms(2) by (intro mod_pos_pos_trivial; linarith)+
  then show ?thesis using sum pos by (simp add: split_amounts_def Let_def ROUTER_BPS_DENOM_def)
qed

lemma split_claim_pays:
  assumes xf: "moves (re_transfer env)" and run: "split_claim env s ps d n m = Inr (ps', m', evs)"
    and range: "0 \<le> n" "n < 2 ^ 64" "0 \<le> sx_holders_bps s" "0 \<le> sx_buyback_bps s" "sx_holders_bps s + sx_buyback_bps s \<le> ROUTER_BPS_DENOM"
    and apart: "distinct [sx_source s, sx_holder_vault s, sx_buyback_vault s, sx_treasury s]"
  shows "vault_balance m' (sx_holder_vault s) = vault_balance m (sx_holder_vault s) + n * sx_holders_bps s div 10000 \<and>
    vault_balance m' (sx_buyback_vault s) = vault_balance m (sx_buyback_vault s) + n * sx_buyback_bps s div 10000 \<and>
    vault_balance m' (sx_treasury s) = vault_balance m (sx_treasury s) + (n - n * sx_holders_bps s div 10000 - n * sx_buyback_bps s div 10000) \<and>
    vault_balance m' (sx_source s) = vault_balance m (sx_source s) - n"
proof (cases "n = 0")
  case True
  then show ?thesis using run by (simp add: split_claim_def)
next
  case False
  define h b where "h = n * sx_holders_bps s div 10000" and "b = n * sx_buyback_bps s div 10000"
  have parts: "split_amounts n (sx_holders_bps s) (sx_buyback_bps s) = Some (h, b, n - h - b)"
    unfolding h_def b_def by (rule split_amounts_exact [OF range])
  obtain m1 m2 where steps: "transfer_from_router env s (sx_holder_vault s) h m = Inr m1"
      "transfer_from_router env s (sx_buyback_vault s) b m1 = Inr m2" "transfer_from_router env s (sx_treasury s) (n - h - b) m2 = Inr m'"
    using run False by (auto simp: split_claim_def result_simps parts)
  have "vault_balance m1 k = vault_balance m k + (if k = sx_holder_vault s then h else 0) - (if k = sx_source s then h else 0)"
    "vault_balance m2 k = vault_balance m1 k + (if k = sx_buyback_vault s then b else 0) - (if k = sx_source s then b else 0)"
    "vault_balance m' k = vault_balance m2 k + (if k = sx_treasury s then n - h - b else 0) - (if k = sx_source s then n - h - b else 0)" for k
    using apart by (simp_all add: transfer_from_router_moves [OF xf steps(1)] transfer_from_router_moves [OF xf steps(2)]
      transfer_from_router_moves [OF xf steps(3)])
  then show ?thesis unfolding h_def [symmetric] b_def [symmetric] using apart by auto
qed

text \<open>
  C6: a claim pays what the configuration says.  Of what Meteora paid into the router's account the
  holders' vault receives its share rounded down, the buyback vault its share rounded down, the
  treasury the rest, and nothing stays behind.
\<close>

theorem claim_pays_shares:
  assumes run: "claim_dbc env sig a c = Inr c'"
    and env: "moves (re_transfer env)" "rh_config c = Some cfg" "shares_ok cfg"
    and apart: "distinct [cd_router_quote_recv a, cd_holder_vault a, cd_buyback_vault a, cd_treasury_quote a]"
    and u64: "0 \<le> vault_balance (rh_accounts c) (cd_router_quote_recv a)"
      "\<And>after. mt_claim_trading_fee (re_meteora env) a 0 u64_max (rh_accounts c, rh_raw c) = Inr after \<Longrightarrow>
        vault_balance (fst after) (cd_router_quote_recv a) < 2 ^ 64"
  shows "\<exists>m raw q. mt_claim_trading_fee (re_meteora env) a 0 u64_max (rh_accounts c, rh_raw c) = Inr (m, raw) \<and>
    q = gained (cd_router_quote_recv a) (rh_accounts c) m \<and>
    vault_balance (rh_accounts c') (cd_holder_vault a) = vault_balance m (cd_holder_vault a) + q * rc_holders_bps cfg div 10000 \<and>
    vault_balance (rh_accounts c') (cd_buyback_vault a) = vault_balance m (cd_buyback_vault a) + q * rc_buyback_bps cfg div 10000 \<and>
    vault_balance (rh_accounts c') (cd_treasury_quote a) = vault_balance m (cd_treasury_quote a) +
      (q - q * rc_holders_bps cfg div 10000 - q * rc_buyback_bps cfg div 10000) \<and>
    vault_balance (rh_accounts c') (cd_router_quote_recv a) = vault_balance m (cd_router_quote_recv a) - q"
proof -
  let ?s = "dbc_split env cfg a"
  obtain ps m raw where claim: "mt_claim_trading_fee (re_meteora env) a 0 u64_max (rh_accounts c, rh_raw c) = Inr (m, raw)"
      and fin: "finish_claim env sig ?s (cd_pool_state a) (ps\<lparr>rq_last_claim_ts := rh_clock c\<rparr>) 0
        (gained (cd_router_quote_recv a) (rh_accounts c) m) (gained (cd_treasury_base a) (rh_accounts c) m) (m, raw) c = Inr c'"
    using run env(2) by (auto simp: claim_dbc_def check_config_def result_simps)
  let ?q = "gained (cd_router_quote_recv a) (rh_accounts c) m"
  obtain ps' evs where split: "split_claim env ?s (ps\<lparr>rq_last_claim_ts := rh_clock c\<rparr>) (rq_dbc_pool ps) ?q m = Inr (ps', rh_accounts c', evs)"
    using fin by (auto simp: finish_claim_def result_simps split_paired_all)
  have "0 \<le> ?q" "?q < 2 ^ 64" using u64(1) u64(2) [OF claim] by (simp_all add: gained_def)
  then show ?thesis using split_claim_pays [OF env(1) split] env(3) apart claim
    by (auto simp: dbc_split_def shares_ok_def)
qed

section \<open>Instances\<close>

text \<open>
  Addresses that are the seeds run together, keys that are their text, a Meteora that pays 1000 into
  the receiving account, and a router set up from nothing by its admin \<open>[1]\<close>.
\<close>

definition plain_web3 :: web3 where
  "plain_web3 = \<lparr>w3_find = (\<lambda>seeds p. (concat seeds, 0)), w3_key = (\<lambda>s. Some (ascii_bytes s)),
     w3_text = (\<lambda>b. map (\<lambda>x. char_of (unat x)) b)\<rparr>"

definition pay_in :: "bytes \<Rightarrow> int \<Rightarrow> accounts \<Rightarrow> accounts" where
  "pay_in key n m = (case m key of None \<Rightarrow> m | Some a \<Rightarrow> m(key \<mapsto> a\<lparr>ac_token := map_option (\<lambda>t. t\<lparr>ta_amount := ta_amount t + n\<rparr>) (ac_token a)\<rparr>))"

definition plain_meteora :: meteora where
  "plain_meteora = \<lparr>mt_claim_trading_fee = (\<lambda>a _ _ (m, raw). Inr (pay_in (cd_router_quote_recv a) 1000 m, raw)),
     mt_partner_withdraw_surplus = (\<lambda>a (m, raw). Inr (m, raw)),
     mt_claim_position_fee = (\<lambda>a (m, raw). Inr (pay_in (cm_router_quote_recv a) 1000 m, raw))\<rparr>"

definition plain_router :: router_env where
  "plain_router = \<lparr>re_w3 = plain_web3, re_program = [9], re_transfer = demo_transfer, re_meteora = plain_meteora\<rparr>"

definition demo_register :: RegisterPool where
  "demo_register = (let rk = router_key plain_router in
     \<lparr>rg_payer = [1], rg_config = rk, rg_dbc_pool = [5], rg_dbc_config = [6], rg_commodity = [8], rg_base_mint = [2], rg_quote_mint = [3],
      rg_pool_state = pool_key plain_router [5], rg_holder_vault = fst (feeRouter_holderVault plain_web3 [9] [5]),
      rg_buyback_vault = fst (feeRouter_buybackVault plain_web3 [9] [3]), rg_treasury_quote = fst (feeRouter_treasury plain_web3 [9] [3]),
      rg_treasury_base = fst (feeRouter_treasury plain_web3 [9] [2]), rg_router_quote_recv = ata plain_web3 [3] rk [4],
      rg_base_token_program = [4], rg_quote_token_program = [4]\<rparr>)"

definition demo_claim_dbc :: ClaimDbc where
  "demo_claim_dbc = (let r = demo_register in
     \<lparr>cd_caller = [1], cd_config = rg_config r, cd_pool_state = rg_pool_state r, cd_dbc_pool_authority = [], cd_dbc_config = [6],
      cd_dbc_pool = [5], cd_base_vault = [], cd_quote_vault = [], cd_base_mint = [2], cd_quote_mint = [3],
      cd_treasury_base = rg_treasury_base r, cd_router_quote_recv = rg_router_quote_recv r, cd_holder_vault = rg_holder_vault r,
      cd_buyback_vault = rg_buyback_vault r, cd_treasury_quote = rg_treasury_quote r, cd_base_token_program = [4],
      cd_quote_token_program = [4], cd_dbc_event_authority = [], cd_dbc_program = DBC_ID plain_web3\<rparr>)"

definition empty_router :: router_chain where
  "empty_router = \<lparr>rh_clock = 100, rh_config = None, rh_pools = Map.empty, rh_accounts = Map.empty,
     rh_raw = [[5] \<mapsto> (DBC_ID plain_web3, []), [6] \<mapsto> (DBC_ID plain_web3, [])], rh_log = []\<rparr>"

definition run_or_stay :: "router_ix \<Rightarrow> router_chain \<Rightarrow> router_chain" where
  "run_or_stay ix c = (case router_exec plain_router ''s'' ix c of Inl _ \<Rightarrow> c | Inr c' \<Rightarrow> c')"

definition set_up :: router_chain where
  "set_up = run_or_stay (RegisterPoolIx demo_register 100 (Some [1]))
     (run_or_stay (InitializeRouterIx True [1] \<lparr>ir_distributor_program = [], ir_buyback_program = [], ir_peg_desk_program = [],
       ir_holders_bps = 5000, ir_buyback_bps = 3333, ir_protocol_bps = 1667\<rparr>) empty_router)"

definition claimed_once :: router_chain where
  "claimed_once = run_or_stay (ClaimDbcIx demo_claim_dbc) set_up"

lemma set_up_runs: "case rh_pools claimed_once (pool_key plain_router [5]) of None \<Rightarrow> False
    | Some ps \<Rightarrow> rq_total_claimed ps = 1000 \<and> rq_total_to_buyback ps = 333 \<and> rq_total_to_protocol ps = 167"
  by code_simp

lemma run_or_stay_reachable: "router_reachable plain_router c \<Longrightarrow> ix_typed ix \<Longrightarrow> router_reachable plain_router (run_or_stay ix c)"
  by (auto simp: run_or_stay_def split: sum.splits intro: router_reachable.step router_step.run)

lemma set_up_reachable: "router_reachable plain_router set_up"
  unfolding set_up_def
  by (intro run_or_stay_reachable router_reachable.start) (simp_all add: empty_router_def in_u16_def)

theorem router_books_witness:
  "\<exists>ps. rh_pools claimed_once (pool_key plain_router [5]) = Some ps \<and> rq_total_claimed ps = 1000 \<and>
    1000 = log_total claimed_once (rq_dbc_pool ps) Claimed"
proof -
  have "router_reachable plain_router claimed_once"
    unfolding claimed_once_def by (rule run_or_stay_reachable [OF set_up_reachable]) simp
  moreover obtain ps where ps: "rh_pools claimed_once (pool_key plain_router [5]) = Some ps" "rq_total_claimed ps = 1000"
    using set_up_runs by (auto split: option.splits)
  ultimately have "total_of ps Claimed = log_total claimed_once (rq_dbc_pool ps) Claimed" using router_books by blast
  then show ?thesis using ps by (intro exI [of _ ps]) simp
qed

lemma demo_transfer_moves: "moves demo_transfer"
  by (auto simp: moves_def demo_transfer_def vault_balance_def token_at_def split: option.splits if_splits)

theorem claim_pays_shares_witness:
  "vault_balance (rh_accounts claimed_once) (cd_holder_vault demo_claim_dbc) = 500 \<and>
    vault_balance (rh_accounts claimed_once) (cd_treasury_quote demo_claim_dbc) = 167"
proof -
  let ?m = "pay_in (cd_router_quote_recv demo_claim_dbc) 1000 (rh_accounts set_up)"
  have "case claim_dbc plain_router ''s'' demo_claim_dbc set_up of Inl _ \<Rightarrow> False | Inr _ \<Rightarrow> True" by code_simp
  then have run: "claim_dbc plain_router ''s'' demo_claim_dbc set_up = Inr claimed_once"
    by (simp add: claimed_once_def run_or_stay_def split: sum.splits)
  have cfg: "case rh_config set_up of None \<Rightarrow> False | Some cfg \<Rightarrow> rc_holders_bps cfg = 5000 \<and> rc_buyback_bps cfg = 3333 \<and> shares_ok cfg" by code_simp
  then obtain cfg where cfg: "rh_config set_up = Some cfg" "rc_holders_bps cfg = 5000" "rc_buyback_bps cfg = 3333" "shares_ok cfg"
    by (auto split: option.splits)
  have mt: "mt_claim_trading_fee (re_meteora plain_router) demo_claim_dbc 0 u64_max (rh_accounts set_up, rh_raw set_up) = Inr (?m, rh_raw set_up)"
    by (simp add: plain_router_def plain_meteora_def)
  have vals: "vault_balance (rh_accounts set_up) (cd_router_quote_recv demo_claim_dbc) = 0" "vault_balance ?m (cd_router_quote_recv demo_claim_dbc) = 1000"
    "vault_balance ?m (cd_holder_vault demo_claim_dbc) = 0" "vault_balance ?m (cd_treasury_quote demo_claim_dbc) = 0"
    by code_simp+
  have "distinct [cd_router_quote_recv demo_claim_dbc, cd_holder_vault demo_claim_dbc, cd_buyback_vault demo_claim_dbc, cd_treasury_quote demo_claim_dbc]"
    by code_simp
  from claim_pays_shares [OF run _ cfg(1,4) this] vals mt demo_transfer_moves
  show ?thesis by (simp add: cfg gained_def plain_router_def)
qed

end
