(* ===== verification/Fees.thy ===== *)
theory Fees
  imports Ledger Router Rpc
begin

text \<open>
  The fee and migration cycles of the keeper (\<^verbatim>\<open>apps/keeper/src/cycles/fees.ts\<close>, \<^verbatim>\<open>migrate.ts\<close>) with
  the discovery of the router's DAMM positions (\<^verbatim>\<open>positions.ts\<close>) and the reading of events
  (\<^verbatim>\<open>programs.ts\<close>).  The world is the keeper's database and the chain of fee\_router; Meteora's SDK,
  which decodes its accounts and builds the migration, is a parameter.  Logging is left out.
\<close>

type_synonym fees_world = "router_chain chain_world"

type_synonym 'a fio = "(fees_world, 'a) io"

section \<open>Environment\<close>

text \<open>The fields read of the SDK's decoded \<open>VirtualPool\<close>, and a parsed Token-2022 account.\<close>

record DbcState =
  bs_partnerQuoteFee :: "int option"
  bs_config :: "bytes option"
  bs_baseVault :: "bytes option"
  bs_quoteVault :: "bytes option"
  bs_isMigrated :: int
  bs_migrationProgress :: int
  bs_finishCurveTimestamp :: int

record ParsedToken =
  pt_account :: bytes
  pt_mint :: bytes
  pt_amount :: string
  pt_decimals :: int

text \<open>
  \<open>fe_dbc\<close> is \<open>getPoolState\<close>, \<open>fe_nfts\<close> the node's list of an owner's Token-2022 accounts,
  \<open>fe_unclaimed\<close> the SDK's unclaimed fee of a position in COIN, \<open>fe_migrate\<close> what the DBC program's
  migration does to the chain.
\<close>

record fees_env =
  fe_cfg :: KeeperConfig
  fe_router :: router_env
  fe_keeper :: bytes
  fe_min_claim :: jsnum
  fe_dbc :: "bytes \<Rightarrow> router_chain \<Rightarrow> DbcState option"
  fe_nfts :: "bytes \<Rightarrow> router_chain \<Rightarrow> ParsedToken list"
  fe_unclaimed :: "bytes \<Rightarrow> bytes \<Rightarrow> router_chain \<Rightarrow> string + int"
  fe_migrate :: "bytes \<Rightarrow> router_chain \<Rightarrow> string + router_chain"

definition fe_w3 :: "fees_env \<Rightarrow> web3" where
  "fe_w3 env = re_w3 (fe_router env)"

datatype keeper_ix = RouterIx router_ix | MigrateIx bytes

fun fees_exec :: "fees_env \<Rightarrow> (keeper_ix, router_chain) executor" where
  "fees_exec env sig (RouterIx ix) c = router_exec (fe_router env) sig ix c"
| "fees_exec env sig (MigrateIx pool) c = fe_migrate env pool c"

definition send :: "fees_env \<Rightarrow> keeper_ix \<Rightarrow> string fio" where
  "send env ix = sendWithPriority (fees_exec env) (fe_cfg env) [ix] no_opts"

definition key :: "fees_env \<Rightarrow> string \<Rightarrow> bytes fio" where
  "key env s = io_result (new_PublicKey (fe_w3 env) s)"

definition programId_fee_router :: "fees_env \<Rightarrow> bytes fio" where
  "programId_fee_router env = key env (cfg_feeRouterProgramId (fe_cfg env))"

text \<open>Events of fee\_router in a transaction's logs.\<close>

definition parseRouterEvents :: "string \<Rightarrow> router_event list fio" where
  "parseRouterEvents sig = rpc_read (\<lambda>c. concat (map snd (filter (\<lambda>r. fst r = sig) (rh_log c))))"

section \<open>Positions of the router\<close>

record RouterPosition =
  rp_nftMint :: bytes
  rp_nftAccount :: bytes
  rp_position :: bytes
  rp_pool :: bytes

definition is_nft :: "ParsedToken \<Rightarrow> bool" where
  "is_nft t \<longleftrightarrow> pt_amount t = ''1'' \<and> pt_decimals t = 0"

definition position_of :: "web3 \<Rightarrow> ParsedToken \<times> (bytes \<times> bytes) option \<Rightarrow> RouterPosition option" where
  "position_of w3 p = (case p of (t, info) \<Rightarrow> (case info of None \<Rightarrow> None | Some (owner, data) \<Rightarrow>
     if owner \<noteq> DAMM_V2_PROGRAM_ID w3 \<or> length data < 8 + 32 then None
     else Some \<lparr>rp_nftMint = pt_mint t, rp_nftAccount = pt_account t, rp_position = dammPosition w3 (pt_mint t),
       rp_pool = take 32 (drop 8 data)\<rparr>))"

text \<open>\<open>getMultipleAccountsInfo\<close>: the RPC method takes at most 100 keys.\<close>

definition raw_accounts_of :: "bytes list \<Rightarrow> (bytes \<times> bytes) option list fio" where
  "raw_accounts_of keys = (if length keys > 100 then io_throw ''Too many inputs provided; max 100'' else rpc_read (\<lambda>c. map (rh_raw c) keys))"

definition findRouterPositions :: "fees_env \<Rightarrow> RouterPosition list fio" where
  "findRouterPositions env =
     io_bind (programId_fee_router env) (\<lambda>fr.
     io_bind (rpc_read (\<lambda>c. filter is_nft (fe_nfts env (fst (feeRouter_router (fe_w3 env) fr)) c))) (\<lambda>nfts.
     if nfts = [] then io_ret [] else
     io_bind (raw_accounts_of (map (\<lambda>t. dammPosition (fe_w3 env) (pt_mint t)) nfts)) (\<lambda>infos.
     io_ret (List.map_filter (position_of (fe_w3 env)) (zip nfts infos)))))"

section \<open>Migration\<close>

definition known_pools :: "PoolRow list \<Rightarrow> string list" where
  "known_pools rows = filter (\<lambda>s. s \<noteq> []) (List.map_filter po_damm_pool rows)"

definition findNewPosition :: "fees_env \<Rightarrow> RouterPosition option fio" where
  "findNewPosition env = io_bind listAllPools (\<lambda>rows. io_bind (findRouterPositions env) (\<lambda>ps.
     io_ret (first_row (filter (\<lambda>p. w3_text (fe_w3 env) (rp_pool p) \<notin> set (known_pools rows)) ps))))"

definition record_ix :: "fees_env \<Rightarrow> bytes \<Rightarrow> bytes \<Rightarrow> RouterPosition \<Rightarrow> keeper_ix" where
  "record_ix env fr dbcPool pos = RouterIx (RecordMigrationIx \<lparr>rm_authority = fe_keeper env,
     rm_config = fst (feeRouter_router (fe_w3 env) fr), rm_pool_state = fst (feeRouter_pool (fe_w3 env) fr dbcPool),
     rm_dbc_pool = dbcPool, rm_damm_pool = rp_pool pos, rm_damm_position = rp_position pos,
     rm_position_nft_account = rp_nftAccount pos\<rparr> False)"

definition is_migrated :: "DbcState option \<Rightarrow> bool" where
  "is_migrated st = (case st of None \<Rightarrow> False | Some b \<Rightarrow> bs_isMigrated b \<noteq> 0)"

definition curve_complete :: "DbcState option \<Rightarrow> bool" where
  "curve_complete st = (case st of None \<Rightarrow> False | Some b \<Rightarrow> bs_migrationProgress b \<ge> 1 \<or> bs_finishCurveTimestamp b > 0)"

definition record_position :: "fees_env \<Rightarrow> PoolRow \<Rightarrow> bytes \<Rightarrow> RouterPosition \<Rightarrow> unit fio" where
  "record_position env pool dbcPool pos = io_bind (programId_fee_router env) (\<lambda>fr.
     io_then (send env (record_ix env fr dbcPool pos))
       (markPoolMigrated (po_dbc_pool pool) (w3_text (fe_w3 env) (rp_pool pos))))"

definition migrate_one :: "fees_env \<Rightarrow> PoolRow \<Rightarrow> unit fio" where
  "migrate_one env pool =
     io_bind (key env (po_dbc_pool pool)) (\<lambda>dbcPool.
     io_bind (rpc_read (fe_dbc env dbcPool)) (\<lambda>st.
     if \<not> is_migrated st \<and> \<not> curve_complete st then io_ret () else
     io_then (if is_migrated st then io_ret () else io_then (rpc_read (\<lambda>c. ())) (io_then (send env (MigrateIx dbcPool)) (io_ret ())))
     (io_bind (findNewPosition env) (\<lambda>pos. case pos of None \<Rightarrow> io_ret () | Some p \<Rightarrow> record_position env pool dbcPool p))))"

definition runMigrateCycle :: "fees_env \<Rightarrow> unit fio" where
  "runMigrateCycle env = io_bind listUnmigratedPools (\<lambda>pools. io_for pools (\<lambda>pool.
     io_catch (migrate_one env pool) (\<lambda>err. io_ret ())))"

section \<open>Fee claims\<close>

definition usd_value :: "int \<Rightarrow> PriceRow option \<Rightarrow> jsnum" where
  "usd_value amount price = (case price of None \<Rightarrow> Fin 0
     | Some p \<Rightarrow> (num_of_int amount div Fin 1000000) * (num_of_int (pr_price p) div Fin 100000000))"

record SplitAccounts =
  sa_config :: bytes
  sa_poolState :: bytes
  sa_treasuryBase :: bytes
  sa_routerQuoteRecv :: bytes
  sa_holderVault :: bytes
  sa_buybackVault :: bytes
  sa_treasuryQuote :: bytes

definition splitAccounts :: "web3 \<Rightarrow> bytes \<Rightarrow> bytes \<Rightarrow> bytes \<Rightarrow> bytes \<Rightarrow> SplitAccounts" where
  "splitAccounts w3 fr dbcPool baseMint quoteMint = \<lparr>sa_config = fst (feeRouter_router w3 fr),
     sa_poolState = fst (feeRouter_pool w3 fr dbcPool), sa_treasuryBase = fst (feeRouter_treasury w3 fr baseMint),
     sa_routerQuoteRecv = ata w3 quoteMint (fst (feeRouter_router w3 fr)) (TOKEN_PROGRAM w3),
     sa_holderVault = fst (feeRouter_holderVault w3 fr dbcPool), sa_buybackVault = fst (feeRouter_buybackVault w3 fr quoteMint),
     sa_treasuryQuote = fst (feeRouter_treasury w3 fr quoteMint)\<rparr>"

text \<open>The amounts of the transaction's \<open>FeesClaimed\<close> event, or zero when there is none to be had.\<close>

fun claim_amounts :: "router_event list \<Rightarrow> int \<times> int" where
  "claim_amounts [] = (0, 0)"
| "claim_amounts (EvFeesClaimed p s q b # evs) = (q, b)"
| "claim_amounts (ev # evs) = claim_amounts evs"

definition recordClaimFromEvents :: "PoolRow \<Rightarrow> string \<Rightarrow> int \<Rightarrow> unit fio" where
  "recordClaimFromEvents pool sig source =
     io_bind (io_catch (parseRouterEvents sig) (\<lambda>err. io_ret [])) (\<lambda>evs.
     recordFeeClaim \<lparr>fi_pool = po_dbc_pool pool, fi_source = source, fi_quote_amount = fst (claim_amounts evs),
       fi_base_amount = snd (claim_amounts evs), fi_sig = sig\<rparr>)"

definition or_else :: "'a option \<Rightarrow> 'a \<Rightarrow> 'a" where
  "or_else v d = (case v of None \<Rightarrow> d | Some x \<Rightarrow> x)"

definition claim_dbc_ix :: "fees_env \<Rightarrow> bytes \<Rightarrow> bytes \<Rightarrow> bytes \<Rightarrow> bytes \<Rightarrow> bytes \<Rightarrow> DbcState \<Rightarrow> keeper_ix" where
  "claim_dbc_ix env fr dbcPool baseMint quoteMint dbcConfig b =
     (let w3 = fe_w3 env; s = splitAccounts w3 fr dbcPool baseMint quoteMint in RouterIx (ClaimDbcIx
     \<lparr>cd_caller = fe_keeper env, cd_config = sa_config s, cd_pool_state = sa_poolState s,
      cd_dbc_pool_authority = dbcPoolAuthority w3, cd_dbc_config = dbcConfig, cd_dbc_pool = dbcPool,
      cd_base_vault = or_else (bs_baseVault b) (dbcTokenVault w3 baseMint dbcPool),
      cd_quote_vault = or_else (bs_quoteVault b) (dbcTokenVault w3 quoteMint dbcPool),
      cd_base_mint = baseMint, cd_quote_mint = quoteMint, cd_treasury_base = sa_treasuryBase s,
      cd_router_quote_recv = sa_routerQuoteRecv s, cd_holder_vault = sa_holderVault s, cd_buyback_vault = sa_buybackVault s,
      cd_treasury_quote = sa_treasuryQuote s, cd_base_token_program = TOKEN_PROGRAM w3, cd_quote_token_program = TOKEN_PROGRAM w3,
      cd_dbc_event_authority = dbcEventAuthority w3, cd_dbc_program = DBC_ID w3\<rparr>))"

definition maybeClaimDbc :: "fees_env \<Rightarrow> PoolRow \<Rightarrow> unit fio" where
  "maybeClaimDbc env pool =
     io_bind (key env (po_dbc_pool pool)) (\<lambda>dbcPool.
     io_bind (rpc_read (fe_dbc env dbcPool)) (\<lambda>st.
     let unclaimed = (case st of None \<Rightarrow> 0 | Some b \<Rightarrow> or_else (bs_partnerQuoteFee b) 0) in
     io_bind (getLatestPrice (po_commodity pool)) (\<lambda>price.
     if usd_value unclaimed price < fe_min_claim env then io_ret () else
     io_bind (key env (po_base_mint pool)) (\<lambda>baseMint.
     io_bind (key env (po_quote_mint pool)) (\<lambda>quoteMint.
     case st of None \<Rightarrow> io_throw ''DBC pool state has no config field''
     | Some b \<Rightarrow> (case bs_config b of None \<Rightarrow> io_throw ''DBC pool state has no config field''
       | Some dbcConfig \<Rightarrow>
         io_bind (programId_fee_router env) (\<lambda>fr.
         io_bind (send env (claim_dbc_ix env fr dbcPool baseMint quoteMint dbcConfig b)) (\<lambda>sig.
         recordClaimFromEvents pool sig 0))))))))"

definition claim_damm_ix :: "fees_env \<Rightarrow> bytes \<Rightarrow> bytes \<Rightarrow> bytes \<Rightarrow> bytes \<Rightarrow> RouterPoolState \<Rightarrow> bytes \<Rightarrow> keeper_ix" where
  "claim_damm_ix env fr dbcPool baseMint quoteMint ps nftAccount =
     (let w3 = fe_w3 env; s = splitAccounts w3 fr dbcPool baseMint quoteMint in RouterIx (ClaimDammIx
     \<lparr>cm_caller = fe_keeper env, cm_config = sa_config s, cm_pool_state = sa_poolState s,
      cm_damm_pool_authority = dammPoolAuthority w3, cm_damm_pool = rq_damm_pool ps, cm_damm_position = rq_damm_position ps,
      cm_token_a_vault = dammTokenVault w3 baseMint (rq_damm_pool ps), cm_token_b_vault = dammTokenVault w3 quoteMint (rq_damm_pool ps),
      cm_base_mint = baseMint, cm_quote_mint = quoteMint, cm_position_nft_account = nftAccount, cm_treasury_base = sa_treasuryBase s,
      cm_router_quote_recv = sa_routerQuoteRecv s, cm_holder_vault = sa_holderVault s, cm_buyback_vault = sa_buybackVault s,
      cm_treasury_quote = sa_treasuryQuote s, cm_base_token_program = TOKEN_PROGRAM w3, cm_quote_token_program = TOKEN_PROGRAM w3,
      cm_damm_event_authority = dammEventAuthority w3, cm_damm_program = DAMM_V2_PROGRAM_ID w3\<rparr>))"

text \<open>\<open>-1n\<close> when the position cannot be read: the claim goes on without a threshold.\<close>

definition unclaimed_damm :: "fees_env \<Rightarrow> RouterPoolState \<Rightarrow> int fio" where
  "unclaimed_damm env ps = io_catch
     (io_bind (rpc_read (fe_unclaimed env (rq_damm_pool ps) (rq_damm_position ps))) io_result) (\<lambda>err. io_ret (- 1))"

definition claimDamm :: "fees_env \<Rightarrow> PoolRow \<Rightarrow> bytes \<Rightarrow> unit fio" where
  "claimDamm env pool nftAccount =
     io_bind (key env (po_dbc_pool pool)) (\<lambda>dbcPool.
     io_bind (key env (po_base_mint pool)) (\<lambda>baseMint.
     io_bind (key env (po_quote_mint pool)) (\<lambda>quoteMint.
     io_bind (programId_fee_router env) (\<lambda>fr.
     io_bind (rpc_read (\<lambda>c. rh_pools c (fst (feeRouter_pool (fe_w3 env) fr dbcPool)))) (\<lambda>acc.
     io_bind (io_result (some_or acc ''Account does not exist'')) (\<lambda>ps.
     io_bind (unclaimed_damm env ps) (\<lambda>unclaimed.
     let claim = io_bind (send env (claim_damm_ix env fr dbcPool baseMint quoteMint ps nftAccount)) (\<lambda>sig.
       recordClaimFromEvents pool sig 2) in
     if unclaimed \<ge> 0 then
       io_bind (getLatestPrice (po_commodity pool)) (\<lambda>price. if usd_value unclaimed price < fe_min_claim env then io_ret () else claim)
     else claim)))))))"

definition fees_one :: "fees_env \<Rightarrow> RouterPosition list \<Rightarrow> PoolRow \<Rightarrow> unit fio" where
  "fees_one env positions pool = (if po_migrated_at pool \<noteq> None then
     (case first_row (filter (\<lambda>p. Some (w3_text (fe_w3 env) (rp_pool p)) = po_damm_pool pool) positions) of
        None \<Rightarrow> io_ret () | Some pos \<Rightarrow> claimDamm env pool (rp_nftAccount pos))
     else maybeClaimDbc env pool)"

definition runFeesCycle :: "fees_env \<Rightarrow> unit fio" where
  "runFeesCycle env = io_bind listAllPools (\<lambda>pools.
     io_bind (if list_ex (\<lambda>p. po_migrated_at p \<noteq> None) pools then findRouterPositions env else io_ret []) (\<lambda>positions.
     io_for pools (\<lambda>pool. io_catch (fees_one env positions pool) (\<lambda>err. io_ret ()))))"


section \<open>Sends over the database and the chain\<close>

abbreviation on_dc :: "(db \<Rightarrow> 'c \<Rightarrow> bool) \<Rightarrow> ('c, 'x) chain_world_scheme \<Rightarrow> bool" where
  "on_dc F \<equiv> \<lambda>w. F (kw_db w) (cw_chain w)"

lemma fault_blind_on_dc [simp]: "fault_blind (on_dc F)"
  by (simp add: fault_blind_def)

text \<open>A send keeps what its instruction keeps, and returns only where the instruction ran.\<close>

lemma send_attempt_dc:
  fixes F :: "db \<Rightarrow> 'c \<Rightarrow> bool" and exec :: "('ix, 'c) executor"
  assumes "\<And>sig d c c'. F d c \<Longrightarrow> exec_tx exec sig tx c = Inr c' \<Longrightarrow> F d c' \<and> G d c'"
  shows "io_spec (on_dc F :: ('c, 'x) chain_world_scheme \<Rightarrow> bool) (send_attempt exec tx) (\<lambda>_. on_dc (\<lambda>d c. F d c \<and> G d c)) (on_dc F)"
proof -
  have "io_spec (on_dc F :: ('c, 'x) chain_world_scheme \<Rightarrow> bool) (remote pop_send (run_tx exec tx sig)) (\<lambda>_. on_dc (\<lambda>d c. F d c \<and> G d c)) (on_dc F)" for sig
  proof (rule remote_spec)
    fix w w' :: "('c, 'x) chain_world_scheme" and r
    assume F: "F (kw_db w) (cw_chain w)" and run: "run_tx exec tx sig w = (r, w')"
    show "F (kw_db w') (cw_chain w') \<and> (\<forall>a. r = Ret a \<longrightarrow> F (kw_db w') (cw_chain w') \<and> G (kw_db w') (cw_chain w'))"
      using F run assms [OF F] by (auto simp: run_tx_def split: sum.splits)
  qed (auto simp: pop_send_def split: list.splits)
  moreover have "io_inv (on_dc F :: ('c, 'x) chain_world_scheme \<Rightarrow> bool) sign_next" by (rule io_invI) (simp add: sign_next_def)
  moreover have "io_inv (on_dc F :: ('c, 'x) chain_world_scheme \<Rightarrow> bool) (rpc_read (\<lambda>_. ()))" by (rule rpc_read_inv) simp
  ultimately show ?thesis unfolding send_attempt_def io_inv_def
    by (intro io_then_spec [where R = "on_dc F"] io_bind_spec [where R = "\<lambda>_. on_dc F"])
qed

lemma send_dc:
  assumes "\<And>sig d c c'. F d c \<Longrightarrow> fees_exec env sig ix c = Inr c' \<Longrightarrow> F d c' \<and> G d c'"
  shows "io_spec (on_dc F) (send env ix) (\<lambda>_. on_dc (\<lambda>d c. F d c \<and> G d c)) (on_dc F)"
proof -
  have "io_spec (on_dc F) (send_attempt (fees_exec env) (tx_of (fe_cfg env) [ix] no_opts)) (\<lambda>_. on_dc (\<lambda>d c. F d c \<and> G d c)) (on_dc F)"
    using assms by (intro send_attempt_dc) (simp add: exec_tx_single)
  then have "io_spec (on_dc F) (send_retry n (send_attempt (fees_exec env) (tx_of (fe_cfg env) [ix] no_opts)) e)
      (\<lambda>_. on_dc (\<lambda>d c. F d c \<and> G d c)) (on_dc F)" for n e
    by (induction n arbitrary: e) (auto intro: io_throw_spec io_catch_spec)
  then show ?thesis unfolding send_def sendWithPriority_def .
qed

lemma rpc_read_dc [io_rules]:
  assumes "\<And>d c. F d c \<Longrightarrow> Q (f c) d c"
  shows "io_spec (on_dc F) (rpc_read f) (\<lambda>a. on_dc (Q a)) (on_dc F)"
proof (rule io_specI)
  fix w assume F: "F (kw_db w) (cw_chain w)"
  obtain r w' where run: "rpc_read f w = (r, w')" by (cases "rpc_read f w")
  then have "kw_db w' = kw_db w" "cw_chain w' = cw_chain w" "\<forall>a. r = Ret a \<longrightarrow> a = f (cw_chain w)"
    using rpc_read_effect [OF run] same_rest_db by auto
  then show "case rpc_read f w of (Ret a, w') \<Rightarrow> Q a (kw_db w') (cw_chain w') | (_, w') \<Rightarrow> F (kw_db w') (cw_chain w')"
    using F assms by (cases r) (simp_all add: run)
qed

lemma io_result_dc [io_rules]: "io_spec (on_dc F) (io_result r) (\<lambda>a. on_dc (\<lambda>d c. r = Inr a \<and> F d c)) (on_dc F)"
  by (rule io_result_spec) simp_all

section \<open>What stops the fee cycle\<close>

text \<open>The world stays as it is.\<close>

definition frozen :: "db \<Rightarrow> router_chain \<Rightarrow> db \<Rightarrow> router_chain \<Rightarrow> bool" where
  "frozen d0 c0 d c \<longleftrightarrow> d = d0 \<and> c = c0"

lemma positions_flooded:
  assumes "new_PublicKey (fe_w3 env) (cfg_feeRouterProgramId (fe_cfg env)) = Inr fr"
    and "length (filter is_nft (fe_nfts env (fst (feeRouter_router (fe_w3 env) fr)) c0)) > 100"
  shows "io_spec (on_dc (frozen d0 c0)) (findRouterPositions env) (\<lambda>_ _. False) (on_dc (frozen d0 c0))"
  unfolding findRouterPositions_def programId_fee_router_def key_def assms(1) sum.case
  apply (rule io_bind_spec [where R = "\<lambda>a. on_dc (\<lambda>d c. a = fr \<and> frozen d0 c0 d c)"])
   apply (rule io_result_spec; simp)
  apply (rule io_spec_conj_pre)
  apply (rule io_bind_spec [where R = "\<lambda>a. on_dc (\<lambda>d c. length a > 100 \<and> frozen d0 c0 d c)"])
   apply (rule rpc_read_dc)
  using assms(2) apply (simp add: frozen_def)
  apply (rule io_spec_conj_pre)
  apply (auto simp: raw_accounts_of_def io_spec_def io_bind_def io_throw_def)
  done

text \<open>
  C16: anyone can stop the fee claims of every pool by sending the router more than a hundred
  Token-2022 NFTs.  The positions are looked up in one request outside the loop's \<open>try\<close>, and the
  node refuses more than a hundred accounts.  From then on, once one pool has migrated, no run of
  the cycle sends a transaction or writes a row, whatever the network does, and it never returns
  normally; curve pools that need no position are not claimed either.
\<close>

theorem nft_flood_stops_fees:
  assumes "new_PublicKey (fe_w3 env) (cfg_feeRouterProgramId (fe_cfg env)) = Inr fr"
    and "length (filter is_nft (fe_nfts env (fst (feeRouter_router (fe_w3 env) fr)) (cw_chain w))) > 100"
    and "\<exists>p \<in> set (db_pools (kw_db w)). po_migrated_at p \<noteq> None"
    and "runFeesCycle env w = (r, w')"
  shows "(\<forall>u. r \<noteq> Ret u) \<and> kw_db w' = kw_db w \<and> cw_chain w' = cw_chain w"
proof -
  let ?F = "frozen (kw_db w) (cw_chain w)"
  have "io_spec (on_dc ?F) (runFeesCycle env) (\<lambda>_ _. False) (on_dc ?F)"
    unfolding runFeesCycle_def listAllPools_def
  proof (rule io_bind_spec [where R = "\<lambda>pools w'. pools = db_pools (kw_db w) \<and> on_dc ?F w'"])
    show "io_spec (on_dc ?F) (db_read db_pools) (\<lambda>pools w'. pools = db_pools (kw_db w) \<and> on_dc ?F w') (on_dc ?F)"
      by (rule db_read_spec) (simp_all add: frozen_def fault_blind_def)
    fix pools
    show "io_spec (\<lambda>w'. pools = db_pools (kw_db w) \<and> on_dc ?F w')
        (io_bind (if list_ex (\<lambda>p. po_migrated_at p \<noteq> None) pools then findRouterPositions env else io_ret [])
          (\<lambda>positions. io_for pools (\<lambda>pool. io_catch (fees_one env positions pool) (\<lambda>err. io_ret ())))) (\<lambda>_ _. False) (on_dc ?F)"
    proof (rule io_spec_conj_pre)
      assume "pools = db_pools (kw_db w)"
      then have "list_ex (\<lambda>p. po_migrated_at p \<noteq> None) pools" using assms(3) by (simp add: list_ex_iff)
      then show "io_spec (on_dc ?F)
        (io_bind (if list_ex (\<lambda>p. po_migrated_at p \<noteq> None) pools then findRouterPositions env else io_ret [])
          (\<lambda>positions. io_for pools (\<lambda>pool. io_catch (fees_one env positions pool) (\<lambda>err. io_ret ())))) (\<lambda>_ _. False) (on_dc ?F)"
        using positions_flooded [OF assms(1,2)]
        by (simp, intro io_bind_spec [where R = "\<lambda>_ _. False"]) (simp_all add: io_spec_def)
    qed
  qed
  from io_specD [OF this _ assms(4)] show ?thesis by (cases r) (simp_all add: frozen_def)
qed

section \<open>Migrated rows and the program's records\<close>

text \<open>A pool's row names the DAMM pool that fee\_router has recorded for it.\<close>

definition row_agrees :: "fees_env \<Rightarrow> router_chain \<Rightarrow> PoolRow \<Rightarrow> bool" where
  "row_agrees env c row \<longleftrightarrow> (\<exists>k ps. w3_key (fe_w3 env) (po_dbc_pool row) = Some k \<and>
     rh_pools c (pool_key (fe_router env) k) = Some ps \<and> rq_dbc_pool ps = k \<and> rq_migrated ps \<and>
     po_damm_pool row = Some (w3_text (fe_w3 env) (rq_damm_pool ps)))"

text \<open>The marked rows agree, and none of them is still to be handled.\<close>

definition rows_ok :: "fees_env \<Rightarrow> string list \<Rightarrow> db \<Rightarrow> router_chain \<Rightarrow> bool" where
  "rows_ok env rest d c \<longleftrightarrow> (\<forall>row \<in> set (db_pools d). po_migrated_at row \<noteq> None \<longrightarrow>
     po_dbc_pool row \<notin> set rest \<and> row_agrees env c row)"

lemma rows_ok_mono: "rows_ok env (p # rest) d c \<Longrightarrow> rows_ok env rest d c"
  by (auto simp: rows_ok_def)

text \<open>A text is the text of the key it names; the DBC program cannot write accounts of fee\_router.\<close>

definition fees_env_ok :: "fees_env \<Rightarrow> bool" where
  "fees_env_ok env \<longleftrightarrow> (\<forall>s k. w3_key (fe_w3 env) s = Some k \<longrightarrow> w3_text (fe_w3 env) k = s) \<and>
     (\<forall>pool c c'. fe_migrate env pool c = Inr c' \<longrightarrow> rh_pools c' = rh_pools c)"

lemma recorded:
  assumes "record_migration env sig a force c = Inr c'"
  obtains ps nft where "rh_pools c (pool_key env (rm_dbc_pool a)) = Some ps" "rq_dbc_pool ps = rm_dbc_pool a"
    "rh_pools c' = (rh_pools c)(pool_key env (rm_dbc_pool a) \<mapsto> ps\<lparr>rq_migrated := True, rq_damm_pool := rm_damm_pool a,
       rq_damm_position := rm_damm_position a, rq_position_nft_mint := nft\<rparr>)"
proof -
  obtain ps nft where ps: "rh_pools c (rm_pool_state a) = Some ps"
      and c': "c' = c\<lparr>rh_pools := (rh_pools c)(rm_pool_state a \<mapsto> ps\<lparr>rq_migrated := True, rq_damm_pool := rm_damm_pool a,
         rq_damm_position := rm_damm_position a, rq_position_nft_mint := nft\<rparr>), rh_accounts := rh_accounts c, rh_raw := rh_raw c,
       rh_log := rh_log c @ [(sig, [EvMigrationRecorded (rq_dbc_pool ps) (rm_damm_pool a)])]\<rparr>"
    using assms by (auto simp: record_migration_def result_simps)
  have key: "rm_pool_state a = pool_key env (rm_dbc_pool a)"
    using assms unfolding record_migration_def sbind_eq_Inr_iff require_eq_Inr pool_key_def by blast
  have dbc: "rq_dbc_pool ps = rm_dbc_pool a"
    using assms by (auto simp: record_migration_def result_simps ps)
  show thesis by (rule that [of ps nft]) (use ps dbc c' in \<open>simp_all add: key\<close>)
qed

lemma agrees_update:
  assumes "row_agrees env c row" "rh_pools c (pool_key (fe_router env) k) = Some ps" "rq_dbc_pool ps = k"
    and "w3_key (fe_w3 env) (po_dbc_pool row) \<noteq> Some k" "rh_pools c' = (rh_pools c)(pool_key (fe_router env) k \<mapsto> ps')"
  shows "row_agrees env c' row"
proof -
  obtain j qs where j: "w3_key (fe_w3 env) (po_dbc_pool row) = Some j" "rh_pools c (pool_key (fe_router env) j) = Some qs"
      "rq_dbc_pool qs = j" "rq_migrated qs" "po_damm_pool row = Some (w3_text (fe_w3 env) (rq_damm_pool qs))"
    using assms(1) by (auto simp: row_agrees_def)
  have "pool_key (fe_router env) j \<noteq> pool_key (fe_router env) k"
  proof
    assume "pool_key (fe_router env) j = pool_key (fe_router env) k"
    then have "qs = ps" using j(2) assms(2) by (simp only: option.inject)
    then show False using j(1,3) assms(3,4) by simp
  qed
  then show ?thesis unfolding row_agrees_def assms(5) using j by (intro exI [of _ j] exI [of _ qs]) simp
qed

definition recorded_as :: "fees_env \<Rightarrow> bytes \<Rightarrow> bytes \<Rightarrow> router_chain \<Rightarrow> bool" where
  "recorded_as env k damm c \<longleftrightarrow> (\<exists>ps. rh_pools c (pool_key (fe_router env) k) = Some ps \<and> rq_dbc_pool ps = k \<and>
     rq_migrated ps \<and> rq_damm_pool ps = damm)"

lemma record_rows:
  assumes ok: "fees_env_ok env" and rows: "rows_ok env (p # rest) d c" and key: "w3_key (fe_w3 env) p = Some k"
    and run: "fees_exec env sig (record_ix env fr k pos) c = Inr c'"
  shows "rows_ok env (p # rest) d c' \<and> recorded_as env k (rp_pool pos) c'"
proof -
  let ?a = "\<lparr>rm_authority = fe_keeper env, rm_config = fst (feeRouter_router (fe_w3 env) fr),
     rm_pool_state = fst (feeRouter_pool (fe_w3 env) fr k), rm_dbc_pool = k, rm_damm_pool = rp_pool pos,
     rm_damm_position = rp_position pos, rm_position_nft_account = rp_nftAccount pos\<rparr>"
  have "record_migration (fe_router env) sig ?a False c = Inr c'" using run by (simp add: record_ix_def)
  then obtain ps nft where old: "rh_pools c (pool_key (fe_router env) k) = Some ps" "rq_dbc_pool ps = k"
    and new: "rh_pools c' = (rh_pools c)(pool_key (fe_router env) k \<mapsto> ps\<lparr>rq_migrated := True, rq_damm_pool := rp_pool pos,
       rq_damm_position := rp_position pos, rq_position_nft_mint := nft\<rparr>)"
    by (rule recorded) simp
  have "po_dbc_pool row \<notin> set (p # rest) \<and> row_agrees env c' row"
    if "row \<in> set (db_pools d)" "po_migrated_at row \<noteq> None" for row
  proof -
    have row: "po_dbc_pool row \<notin> set (p # rest)" "row_agrees env c row" using rows that by (auto simp: rows_ok_def)
    have "w3_key (fe_w3 env) (po_dbc_pool row) \<noteq> Some k" using ok key row(1) unfolding fees_env_ok_def by (metis list.set_intros(1))
    then show ?thesis using row agrees_update [OF row(2) old _ new] by simp
  qed
  then show ?thesis using old new by (auto simp: rows_ok_def recorded_as_def)
qed

lemma mark_rows:
  assumes "w3_key (fe_w3 env) p = Some k" "p \<notin> set rest"
    and "rows_ok env (p # rest) d c \<and> recorded_as env k damm c"
  shows "rows_ok env rest (d\<lparr>db_pools := update_where (\<lambda>r. po_dbc_pool r = p)
    (\<lambda>r. r\<lparr>po_migrated_at := Some now, po_damm_pool := Some (w3_text (fe_w3 env) damm)\<rparr>) (db_pools d)\<rparr>) c"
  using assms by (auto simp: rows_ok_def update_where_def row_agrees_def recorded_as_def)

lemma record_position_spec:
  assumes ok: "fees_env_ok env" and key: "w3_key (fe_w3 env) (po_dbc_pool pool) = Some k" and "po_dbc_pool pool \<notin> set rest"
  shows "io_spec (on_dc (rows_ok env (po_dbc_pool pool # rest))) (record_position env pool k pos)
    (\<lambda>_. on_dc (rows_ok env rest)) (on_dc (rows_ok env rest))"
proof -
  let ?F = "rows_ok env (po_dbc_pool pool # rest)"
  have send: "io_spec (on_dc ?F) (send env (record_ix env fr k pos))
      (\<lambda>_. on_dc (\<lambda>d c. ?F d c \<and> recorded_as env k (rp_pool pos) c)) (on_dc (rows_ok env rest))" for fr
    by (rule io_spec_post [OF send_dc [where G = "\<lambda>d c. recorded_as env k (rp_pool pos) c"]])
      (use record_rows [OF ok _ key] in \<open>auto intro: rows_ok_mono\<close>)
  have mark: "io_spec (on_dc (\<lambda>d c. ?F d c \<and> recorded_as env k (rp_pool pos) c))
      (markPoolMigrated (po_dbc_pool pool) (w3_text (fe_w3 env) (rp_pool pos))) (\<lambda>_. on_dc (rows_ok env rest)) (on_dc (rows_ok env rest))"
    unfolding markPoolMigrated_def
    by (rule db_write_spec) (use mark_rows [OF key assms(3)] rows_ok_mono in \<open>auto simp: fault_blind_def\<close>)
  show ?thesis unfolding record_position_def programId_fee_router_def key_def
    by (intro io_bind_spec [where R = "\<lambda>_. on_dc ?F"] io_then_spec [OF send mark] io_result_spec) (auto dest: rows_ok_mono)
qed

lemma positions_inv: "io_inv (on_dc F :: fees_world \<Rightarrow> bool) (findRouterPositions env)"
  unfolding findRouterPositions_def programId_fee_router_def key_def raw_accounts_of_def
  by (intro io_inv_bind io_inv_result rpc_read_inv io_inv_if io_inv_ret io_inv_throw) simp_all

lemma new_position_inv: "io_inv (on_dc F :: fees_world \<Rightarrow> bool) (findNewPosition env)"
  unfolding findNewPosition_def listAllPools_def
  by (intro io_inv_bind positions_inv db_read_inv io_inv_ret) simp

lemma send_migrate_inv:
  assumes "fees_env_ok env"
  shows "io_inv (on_dc (rows_ok env rest)) (send env (MigrateIx k))"
  unfolding io_inv_def
proof (rule io_spec_post [OF send_dc [where G = "\<lambda>_ _. True"]])
  fix sig d c c'
  assume "rows_ok env rest d c" "fees_exec env sig (MigrateIx k) c = Inr c'"
  then show "rows_ok env rest d c' \<and> True" using assms by (simp add: fees_env_ok_def rows_ok_def row_agrees_def)
qed simp_all

lemma migrate_one_spec:
  assumes ok: "fees_env_ok env" and "po_dbc_pool pool \<notin> set rest"
  shows "io_spec (on_dc (rows_ok env (po_dbc_pool pool # rest))) (migrate_one env pool)
    (\<lambda>_. on_dc (rows_ok env rest)) (on_dc (rows_ok env rest))"
proof (cases "w3_key (fe_w3 env) (po_dbc_pool pool)")
  case None
  then show ?thesis unfolding migrate_one_def key_def new_PublicKey_def
    by (intro io_bind_spec [where R = "\<lambda>_ _. False"] io_result_spec) (auto simp: io_spec_def dest: rows_ok_mono)
next
  case (Some k)
  let ?F = "rows_ok env (po_dbc_pool pool # rest)"
  have weak: "io_spec (on_dc ?F) m (\<lambda>_. on_dc ?F) (on_dc (rows_ok env rest))" if "io_inv (on_dc ?F) m"
    for m :: "DbcState option fio"
    using that unfolding io_inv_def by (rule io_spec_post) (auto dest: rows_ok_mono)
  have weaku: "io_spec (on_dc ?F) m (\<lambda>_. on_dc ?F) (on_dc (rows_ok env rest))" if "io_inv (on_dc ?F) m"
    for m :: "unit fio"
    using that unfolding io_inv_def by (rule io_spec_post) (auto dest: rows_ok_mono)
  have reads: "io_inv (on_dc ?F :: fees_world \<Rightarrow> bool) (rpc_read f)" for f :: "router_chain \<Rightarrow> DbcState option"
    by (rule rpc_read_inv) simp
  have stop: "io_spec (on_dc ?F) (io_ret ()) (\<lambda>_. on_dc (rows_ok env rest)) (on_dc (rows_ok env rest))"
    by (rule io_ret_spec) (rule rows_ok_mono)
  have pos: "io_spec (on_dc ?F) (io_bind (findNewPosition env) (\<lambda>pos. case pos of None \<Rightarrow> io_ret () | Some p \<Rightarrow> record_position env pool k p))
      (\<lambda>_. on_dc (rows_ok env rest)) (on_dc (rows_ok env rest))"
  proof (rule io_bind_spec [where R = "\<lambda>_. on_dc ?F"])
    show "io_spec (on_dc ?F) (findNewPosition env) (\<lambda>_. on_dc ?F) (on_dc (rows_ok env rest))"
      using new_position_inv [unfolded io_inv_def] by (rule io_spec_post) (auto dest: rows_ok_mono)
    show "io_spec (on_dc ?F) (case p of None \<Rightarrow> io_ret () | Some p \<Rightarrow> record_position env pool k p)
        (\<lambda>_. on_dc (rows_ok env rest)) (on_dc (rows_ok env rest))" for p
      using stop record_position_spec [OF ok Some assms(2)] by (cases p) simp_all
  qed
  have mig: "io_inv (on_dc ?F) (io_then (rpc_read (\<lambda>c. ())) (io_then (send env (MigrateIx k)) (io_ret ())))"
    by (intro io_inv_then send_migrate_inv [OF ok] io_inv_ret rpc_read_inv) simp_all
  show ?thesis unfolding migrate_one_def key_def new_PublicKey_def Some option.case
  proof (rule io_bind_spec [where R = "\<lambda>a w. a = k \<and> on_dc ?F w"])
    show "io_spec (on_dc ?F) (io_result (Inr k)) (\<lambda>a w. a = k \<and> on_dc ?F w) (on_dc (rows_ok env rest))"
      by (rule io_result_spec) (auto dest: rows_ok_mono)
  qed (intro io_spec_conj_pre, simp only:, intro io_bind_spec [OF weak [OF reads]] io_if_spec stop io_then_spec [OF weaku pos] io_inv_if mig io_inv_ret)
qed

lemma migrate_loop_spec:
  assumes ok: "fees_env_ok env"
  shows "distinct (map po_dbc_pool pools) \<Longrightarrow>
    io_spec (on_dc (rows_ok env (map po_dbc_pool pools))) (io_for pools (\<lambda>pool. io_catch (migrate_one env pool) (\<lambda>err. io_ret ())))
      (\<lambda>_. on_dc (rows_ok env [])) (on_dc (rows_ok env []))"
proof (induction pools)
  case Nil
  then show ?case by (simp add: io_ret_spec)
next
  case (Cons p pools)
  let ?R = "rows_ok env (map po_dbc_pool pools)"
  have weaken: "rows_ok env xs d c \<Longrightarrow> rows_ok env [] d c" for xs d c by (simp add: rows_ok_def)
  have "io_spec (on_dc (rows_ok env (map po_dbc_pool (p # pools)))) (migrate_one env p) (\<lambda>_. on_dc ?R) (on_dc ?R)"
    using migrate_one_spec [OF ok, of p "map po_dbc_pool pools"] Cons.prems by simp
  then have "io_spec (on_dc (rows_ok env (map po_dbc_pool (p # pools)))) (io_catch (migrate_one env p) (\<lambda>err. io_ret ())) (\<lambda>_. on_dc ?R) (on_dc ?R)"
    by (rule io_catch_spec) (rule io_ret_spec)
  then have "io_spec (on_dc (rows_ok env (map po_dbc_pool (p # pools)))) (io_catch (migrate_one env p) (\<lambda>err. io_ret ())) (\<lambda>_. on_dc ?R) (on_dc (rows_ok env []))"
    by (rule io_spec_post) (auto dest: weaken)
  then show ?case using Cons by (simp add: io_then_spec)
qed

text \<open>
  C17: whatever fails and wherever the process dies, the migration cycle marks a pool as migrated
  only with the DAMM pool that fee\_router has recorded for it: if that held for the marked rows
  before the cycle it holds after it, for the rows it marks too.
\<close>

theorem migrated_rows_agree:
  assumes ok: "fees_env_ok env" and dist: "distinct (map po_dbc_pool (db_pools (kw_db w)))"
    and agree: "\<And>row. row \<in> set (db_pools (kw_db w)) \<Longrightarrow> po_migrated_at row \<noteq> None \<Longrightarrow> row_agrees env (cw_chain w) row"
    and run: "runMigrateCycle env w = (r, w')"
    and row: "row \<in> set (db_pools (kw_db w'))" "po_migrated_at row \<noteq> None"
  shows "row_agrees env (cw_chain w') row"
proof -
  let ?d = "kw_db w" and ?c = "cw_chain w"
  let ?ps = "filter (\<lambda>p. po_migrated_at p = None) (db_pools ?d)"
  have "io_spec (on_dc (frozen ?d ?c)) (runMigrateCycle env) (\<lambda>_. on_dc (rows_ok env [])) (on_dc (rows_ok env []))"
    unfolding runMigrateCycle_def listUnmigratedPools_def listActivePools_def
  proof (rule io_bind_spec [where R = "\<lambda>ps w. ps = ?ps \<and> on_dc (rows_ok env (map po_dbc_pool ps)) w"])
    have "po_dbc_pool row \<notin> po_dbc_pool ` set ?ps" if "row \<in> set (db_pools ?d)" "po_migrated_at row \<noteq> None" for row
    proof
      assume "po_dbc_pool row \<in> po_dbc_pool ` set ?ps"
      then obtain q where q: "q \<in> set (db_pools ?d)" "po_migrated_at q = None" "po_dbc_pool row = po_dbc_pool q" by auto
      have "inj_on po_dbc_pool (set (db_pools ?d))" using dist by (simp add: distinct_map)
      then have "row = q" using q(1,3) that(1) by (simp only: inj_on_def)
      then show False using q(2) that(2) by simp
    qed
    then have now: "rows_ok env (map po_dbc_pool ?ps) ?d ?c" unfolding rows_ok_def set_map using agree by blast
    then have later: "rows_ok env [] ?d ?c" by (simp add: rows_ok_def)
    show "io_spec (on_dc (frozen ?d ?c)) (db_read (\<lambda>d. filter (\<lambda>p. po_migrated_at p = None) (db_pools d)))
        (\<lambda>ps w. ps = ?ps \<and> on_dc (rows_ok env (map po_dbc_pool ps)) w) (on_dc (rows_ok env []))"
      by (rule db_read_spec) (use now later in \<open>simp_all add: frozen_def fault_blind_def\<close>)
    have "distinct (map po_dbc_pool ?ps)" using dist by (simp add: distinct_map_filter)
    then show "io_spec (\<lambda>w. ps = ?ps \<and> on_dc (rows_ok env (map po_dbc_pool ps)) w)
        (io_for ps (\<lambda>pool. io_catch (migrate_one env pool) (\<lambda>err. io_ret ()))) (\<lambda>_. on_dc (rows_ok env [])) (on_dc (rows_ok env []))" for ps
      using migrate_loop_spec [OF ok] by (intro io_spec_conj_pre) simp
  qed
  from io_specD [OF this _ run] have "rows_ok env [] (kw_db w') (cw_chain w')" by (cases r) (simp_all add: frozen_def)
  then show ?thesis using row by (simp add: rows_ok_def)
qed

section \<open>A claim recorded as zero\<close>

text \<open>
  C18: when the events of a claim cannot be read at once, the keeper stores the claim with zero
  amounts and goes on, and the row sticks: the indexer, which later sees the event with the real
  amounts, finds the key taken and leaves the table as it is, whatever else happens to its query.
\<close>

theorem zero_claim_sticks:
  assumes "kw_faults w = [FailBefore]"
    and "(sig, po_dbc_pool pool, source) \<notin> fee_claim_key ` set (db_fee_claims (kw_db w))"
    and "recordClaimFromEvents pool sig source w = (r, w')"
    and "xd_fee_claims (iw_db iw) = db_fee_claims (kw_db w')" "nt_signature tx = sig"
  shows "r = Ret () \<and> (\<exists>row \<in> set (db_fee_claims (kw_db w')). fee_claim_key row = (sig, po_dbc_pool pool, source) \<and>
      fc_quote_amount row = 0 \<and> fc_base_amount row = 0) \<and>
    xd_fee_claims (iw_db (snd (fees_claimed tx (po_dbc_pool pool) source quote base iw))) = xd_fee_claims (iw_db iw)"
proof -
  let ?row = "\<lparr>fc_pool = po_dbc_pool pool, fc_source = source, fc_quote_amount = to_human6 0, fc_base_amount = to_human6 0,
    fc_ts = kw_now w, fc_sig = sig\<rparr>"
  have stored: "r = Ret ()" "db_fee_claims (kw_db w') = db_fee_claims (kw_db w) @ [?row]"
    using assms(1-3)
    by (auto simp: recordClaimFromEvents_def parseRouterEvents_def io_bind_def io_catch_def io_ret_def rpc_read_def remote_def
        pop_fault_def recordFeeClaim_def db_write_def db_query_def insert_or_ignore_def fee_claim_key_def)
  have taken: "(sig, po_dbc_pool pool, source) \<in> (\<lambda>r. (fc_sig r, fc_pool r, fc_source r)) ` set (db_fee_claims (kw_db w'))"
    unfolding stored(2) by simp
  let ?I = "\<lambda>iw. xd_fee_claims (iw_db iw) = db_fee_claims (kw_db w')"
  have pop: "?I v \<Longrightarrow> ?I (snd (pop_idx v))" for v by (simp add: pop_idx_def split: list.splits)
  have inv: "io_inv ?I (fees_claimed tx (po_dbc_pool pool) source quote base)"
    unfolding fees_claimed_def if_pool_def poolExists_def sql_read_def sql_write_def sql_def
    using taken assms(5)
    by (intro io_inv_bind errorless_option io_inv_ret io_inv_remote pop) (auto simp: put_db_def insert_or_ignore_def)
  have "?I (snd (fees_claimed tx (po_dbc_pool pool) source quote base iw))" by (rule io_invD [OF inv, where w = iw]) (rule assms(4))
  then show ?thesis using stored assms(4) by (auto simp: fee_claim_key_def to_human6_def)
qed

section \<open>Instances\<close>

definition demo_cfg :: KeeperConfig where
  "demo_cfg = \<lparr>cfg_cluster = Devnet, cfg_rpcUrl = [], cfg_wsUrl = None, cfg_keeperKeypairPath = [], cfg_pegDeskProgramId = [],
     cfg_feeRouterProgramId = w3_text plain_web3 [9], cfg_distributorProgramId = [], cfg_buybackProgramId = [], cfg_dbcProgramId = [],
     cfg_dammV2ProgramId = [], cfg_pythReceiverProgramId = [], cfg_usdcMint = [], cfg_hermesUrl = [], cfg_pythApiKey = None,
     cfg_switchboardQueue = None, cfg_pricempireApiKey = None, cfg_csfloatApiKey = None, cfg_pokemonTcgApiKey = None,
     cfg_dataVendorApiKey = None, cfg_heliusApiKey = None, cfg_watchChartsApiKey = None, cfg_collectorCryptCollection = None,
     cfg_collectorCryptApiUrl = None, cfg_oraclePushIntervalSec = Fin 0, cfg_feeCycleIntervalSec = Fin 0, cfg_payoutMinPoolUsd = Fin 0,
     cfg_payoutMinHoldingUsd = Fin 0, cfg_payoutMinAmountUsd = Fin 0, cfg_sessionCycleIntervalSec = Fin 0, cfg_migrateCycleIntervalSec = Fin 0,
     cfg_buybackCycleIntervalSec = Fin 0, cfg_databaseUrl = [], cfg_healthzPort = Fin 0, cfg_jitoBundleUrl = None,
     cfg_priorityMicroLamports = Fin 0, cfg_computeUnitLimit = Fin 0\<rparr>"

definition demo_nft :: "bytes \<Rightarrow> ParsedToken" where
  "demo_nft mint = \<lparr>pt_account = [12], pt_mint = mint, pt_amount = ''1'', pt_decimals = 0\<rparr>"

definition demo_fees :: "ParsedToken list \<Rightarrow> fees_env" where
  "demo_fees nfts = \<lparr>fe_cfg = demo_cfg, fe_router = plain_router, fe_keeper = [1], fe_min_claim = Fin 100,
     fe_dbc = (\<lambda>_ _. Some \<lparr>bs_partnerQuoteFee = Some 0, bs_config = None, bs_baseVault = None, bs_quoteVault = None, bs_isMigrated = 1,
       bs_migrationProgress = 3, bs_finishCurveTimestamp = 50\<rparr>),
     fe_nfts = (\<lambda>_ _. nfts), fe_unclaimed = (\<lambda>_ _ _. Inl []), fe_migrate = (\<lambda>_ c. Inr c)\<rparr>"

definition demo_row :: "int option \<Rightarrow> PoolRow" where
  "demo_row migrated = \<lparr>po_dbc_pool = w3_text plain_web3 [5], po_base_mint = w3_text plain_web3 [2], po_quote_mint = w3_text plain_web3 [3],
     po_commodity = ''GOLD'', po_creator = [], po_fee_bps = 100, po_created_at = 0, po_migrated_at = migrated, po_damm_pool = None\<rparr>"

definition fees_world_of :: "PoolRow list \<Rightarrow> fault list \<Rightarrow> router_chain \<Rightarrow> fees_world" where
  "fees_world_of rows fs c = \<lparr>kw_faults = fs, kw_db = demo_db\<lparr>db_pools := rows\<rparr>, kw_now = 7, cw_sends = [], cw_chain = c, cw_signed = 0\<rparr>"

text \<open>The router of \<open>set_up\<close> after Meteora migrated the curve: its position NFT is in the account \<open>[12]\<close>.\<close>

definition migrated_chain :: router_chain where
  "migrated_chain = (let mint = replicate 32 11 in set_up\<lparr>
     rh_raw := (rh_raw set_up)([5] \<mapsto> (DBC_ID plain_web3, VIRTUAL_POOL_DISCRIMINATOR @ replicate 297 0 @ [1]),
       replicate 32 7 \<mapsto> (DAMM_V2_PROGRAM_ID plain_web3, DAMM_POOL_DISCRIMINATOR),
       dammPosition plain_web3 mint \<mapsto> (DAMM_V2_PROGRAM_ID plain_web3, POSITION_DISCRIMINATOR @ replicate 32 7 @ mint)),
     rh_accounts := (rh_accounts set_up)([12] \<mapsto>
       \<lparr>ac_program = [], ac_token = Some \<lparr>ta_mint = mint, ta_owner = router_key plain_router, ta_amount = 1\<rparr>\<rparr>)\<rparr>)"

lemma char_of_unat_byte: "char_of (unat (of_char x :: byte)) = x"
proof -
  have "of_char x < (256::nat)" by simp
  then have "unat (of_nat (of_char x) :: byte) = of_char x" by (simp add: unat_of_nat)
  then show ?thesis by (simp add: of_nat_of_char)
qed

lemma demo_program: "new_PublicKey (fe_w3 (demo_fees nfts)) (cfg_feeRouterProgramId (fe_cfg (demo_fees nfts))) = Inr [9]"
proof -
  have "w3_key plain_web3 (w3_text plain_web3 [9]) = Some [9]" by code_simp
  then show ?thesis by (simp add: demo_fees_def fe_w3_def plain_router_def demo_cfg_def new_PublicKey_def)
qed

theorem nft_flood_stops_fees_witness:
  "kw_db (snd (runFeesCycle (demo_fees (replicate 101 (demo_nft [2]))) (fees_world_of [demo_row (Some 3), demo_row None] [Fine, FailAfter] set_up))) =
    demo_db\<lparr>db_pools := [demo_row (Some 3), demo_row None]\<rparr>"
proof -
  let ?env = "demo_fees (replicate 101 (demo_nft [2]))" and ?w = "fees_world_of [demo_row (Some 3), demo_row None] [Fine, FailAfter] set_up"
  obtain r w' where run: "runFeesCycle ?env ?w = (r, w')" by (cases "runFeesCycle ?env ?w")
  from nft_flood_stops_fees [OF demo_program _ _ run] show ?thesis unfolding run snd_conv
    by (simp add: demo_fees_def fees_world_of_def is_nft_def demo_nft_def demo_row_def)
qed

lemma demo_migrates:
  "case snd (runMigrateCycle (demo_fees [demo_nft (replicate 32 11)]) (fees_world_of [demo_row None] [Fine, Fine, Fine] migrated_chain)) of
    w \<Rightarrow> map po_migrated_at (db_pools (kw_db w)) = [Some 7]"
  by code_simp

theorem migrated_rows_agree_witness:
  "let w' = snd (runMigrateCycle (demo_fees [demo_nft (replicate 32 11)]) (fees_world_of [demo_row None] [Fine, Fine, Fine] migrated_chain)) in
   \<exists>row. db_pools (kw_db w') = [row] \<and> po_migrated_at row = Some 7 \<and> row_agrees (demo_fees [demo_nft (replicate 32 11)]) (cw_chain w') row"
proof -
  let ?env = "demo_fees [demo_nft (replicate 32 11)]" and ?w = "fees_world_of [demo_row None] [Fine, Fine, Fine] migrated_chain"
  obtain r w' where run: "runMigrateCycle ?env ?w = (r, w')" by (cases "runMigrateCycle ?env ?w")
  obtain row where row: "db_pools (kw_db w') = [row]" "po_migrated_at row = Some 7" using demo_migrates by (auto simp: run)
  have ok: "fees_env_ok ?env"
    by (auto simp: fees_env_ok_def demo_fees_def fe_w3_def plain_router_def plain_web3_def ascii_bytes_def o_def char_of_unat_byte)
  have "row_agrees ?env (cw_chain w') row"
    by (rule migrated_rows_agree [OF ok _ _ run]) (use row in \<open>simp_all add: fees_world_of_def demo_row_def\<close>)
  then show ?thesis using row by (simp add: run)
qed

theorem zero_claim_sticks_witness:
  "\<forall>quote base.
    (let w' = snd (recordClaimFromEvents (demo_row None) ''s'' 0 (fees_world_of [demo_row None] [FailBefore] set_up));
         iw = world_of [] (empty_db\<lparr>xd_fee_claims := db_fee_claims (kw_db w')\<rparr>) in
     length (xd_fee_claims (iw_db (snd (fees_claimed (small_tx\<lparr>nt_signature := ''s''\<rparr>) (po_dbc_pool (demo_row None)) 0 quote base iw)))) = length (db_fee_claims (kw_db w')))"
proof (intro allI)
  fix quote base
  let ?w = "fees_world_of [demo_row None] [FailBefore] set_up"
  obtain r w' where run: "recordClaimFromEvents (demo_row None) ''s'' 0 ?w = (r, w')"
    by (cases "recordClaimFromEvents (demo_row None) ''s'' 0 ?w")
  show "let w' = snd (recordClaimFromEvents (demo_row None) ''s'' 0 ?w);
         iw = world_of [] (empty_db\<lparr>xd_fee_claims := db_fee_claims (kw_db w')\<rparr>) in
     length (xd_fee_claims (iw_db (snd (fees_claimed (small_tx\<lparr>nt_signature := ''s''\<rparr>) (po_dbc_pool (demo_row None)) 0 quote base iw)))) = length (db_fee_claims (kw_db w'))"
    unfolding run snd_conv Let_def
    using zero_claim_sticks [OF _ _ run, of "world_of [] (empty_db\<lparr>xd_fee_claims := db_fee_claims (kw_db w')\<rparr>)" "small_tx\<lparr>nt_signature := ''s''\<rparr>" quote base]
    by (simp add: fees_world_of_def demo_db_def world_of_def)
qed

end
