(* ===== verification/Candles.thy ===== *)
theory Candles
  imports Ingest "HOL-Library.Multiset"
begin

text \<open>
  The candle job of the indexer (\<^verbatim>\<open>apps/indexer/src/candles.ts\<close>): candles rebuilt from the trades of
  the last 48 hours and the rollup columns of the pools.  Times are whole UTC seconds.  Which of several
  rows with one time \<open>order by ts\<close> puts first is the database's choice: a parameter.
\<close>

section \<open>Buckets\<close>

record Candle =
  cn_pool :: string
  cn_tf :: string
  cn_ts :: int
  cn_o :: rat
  cn_h :: rat
  cn_l :: rat
  cn_c :: rat
  cn_v :: rat

text \<open>Each timeframe with the width of its buckets in seconds.\<close>

definition TIMEFRAMES :: "(string \<times> int) list" where
  "TIMEFRAMES = [(''1m'', 60), (''5m'', 300), (''1h'', 3600), (''1d'', 86400)]"

definition bucket :: "int \<Rightarrow> int \<Rightarrow> int" where
  "bucket width ts = ts div width * width"

definition bucket_key :: "int \<Rightarrow> TradeRow \<Rightarrow> string \<times> int" where
  "bucket_key width t = (xt_pool t, bucket width (xt_ts t))"

definition since :: "int \<Rightarrow> int \<Rightarrow> TradeRow list \<Rightarrow> TradeRow list" where
  "since now hours trades = filter (\<lambda>t. xt_ts t > now - hours * 3600) trades"

text \<open>\<open>order by ts asc\<close> and \<open>order by ts desc\<close>.\<close>

record row_order =
  ro_asc :: "TradeRow list \<Rightarrow> TradeRow list"
  ro_desc :: "TradeRow list \<Rightarrow> TradeRow list"

definition orders_ok :: "row_order \<Rightarrow> bool" where
  "orders_ok ro \<longleftrightarrow> (\<forall>rows. mset (ro_asc ro rows) = mset rows \<and> sorted (map xt_ts (ro_asc ro rows)) \<and>
     mset (ro_desc ro rows) = mset rows \<and> sorted (rev (map xt_ts (ro_desc ro rows))))"

definition candle_of :: "row_order \<Rightarrow> string \<Rightarrow> string \<times> int \<Rightarrow> TradeRow list \<Rightarrow> Candle" where
  "candle_of ro tf k rows = \<lparr>cn_pool = fst k, cn_tf = tf, cn_ts = snd k, cn_o = xt_price_quote (hd (ro_asc ro rows)),
     cn_h = Max (set (map xt_price_quote rows)), cn_l = Min (set (map xt_price_quote rows)),
     cn_c = xt_price_quote (hd (ro_desc ro rows)), cn_v = sum_list (map xt_base rows)\<rparr>"

definition group_candles :: "row_order \<Rightarrow> string \<Rightarrow> int \<Rightarrow> TradeRow list \<Rightarrow> Candle list" where
  "group_candles ro tf width rows = map (\<lambda>k. candle_of ro tf k (filter (\<lambda>t. bucket_key width t = k) rows))
     (remdups (map (bucket_key width) rows))"

definition candle_key :: "Candle \<Rightarrow> string \<times> string \<times> int" where
  "candle_key c = (cn_pool c, cn_tf c, cn_ts c)"

definition merge_candle :: "Candle \<Rightarrow> Candle \<Rightarrow> Candle" where
  "merge_candle r x = x\<lparr>cn_o := cn_o r, cn_h := cn_h r, cn_l := cn_l r, cn_c := cn_c r, cn_v := cn_v r\<rparr>"

definition put_candle :: "Candle \<Rightarrow> Candle list \<Rightarrow> Candle list" where
  "put_candle c t = upsert candle_key (merge_candle c) c t"

definition rebuildCandles :: "row_order \<Rightarrow> int \<Rightarrow> int \<Rightarrow> TradeRow list \<Rightarrow> string \<times> int \<Rightarrow> Candle list \<Rightarrow> Candle list" where
  "rebuildCandles ro now sinceHours trades tw candles =
     fold put_candle (group_candles ro (fst tw) (snd tw) (since now sinceHours trades)) candles"

section \<open>Rollups\<close>

record Rollup =
  ru_pool :: string
  ru_last_price :: rat
  ru_volume :: rat
  ru_change :: rat
  ru_earnings :: rat

text \<open>A value stored in a column \<open>numeric(p, s)\<close>.\<close>

definition numeric_col :: "nat \<Rightarrow> nat \<Rightarrow> rat \<Rightarrow> string + rat" where
  "numeric_col p s x = (let n = sql_round (x * 10 ^ s)
     in if \<bar>n\<bar> < 10 ^ p then Inr (of_int n / 10 ^ s) else Inl ''numeric field overflow'')"

definition trades_of :: "string \<Rightarrow> TradeRow list \<Rightarrow> TradeRow list" where
  "trades_of pool trades = filter (\<lambda>t. xt_pool t = pool) trades"

text \<open>The change reads the row's price of before the update.\<close>

definition change_24h :: "row_order \<Rightarrow> (rat \<Rightarrow> rat \<Rightarrow> rat) \<Rightarrow> rat \<Rightarrow> TradeRow list \<Rightarrow> rat" where
  "change_24h ro pg_div price recent = (case first_row (ro_asc ro recent) of None \<Rightarrow> 0
     | Some t \<Rightarrow> if xt_price_quote t > 0 then (pg_div price (xt_price_quote t) - 1) * 100 else 0)"

record Leaf =
  lf_pool :: string
  lf_amount :: int
  lf_claimed :: bool

definition holder_earnings :: "string \<Rightarrow> PayoutCol list \<Rightarrow> Leaf list \<Rightarrow> rat" where
  "holder_earnings pool payouts leaves =
     sum_list (map yc_amount (filter (\<lambda>p. yc_pool p = pool) payouts)) +
     of_int (sum_list (map lf_amount (filter (\<lambda>l. lf_pool l = pool \<and> \<not> lf_claimed l) leaves))) / 1000000"

definition refresh_pool ::
  "row_order \<Rightarrow> (rat \<Rightarrow> rat \<Rightarrow> rat) \<Rightarrow> int \<Rightarrow> TradeRow list \<Rightarrow> PayoutCol list \<Rightarrow> Leaf list \<Rightarrow> Rollup \<Rightarrow> string + Rollup" where
  "refresh_pool ro pg_div now trades payouts leaves p =
     (let mine = trades_of (ru_pool p) trades; recent = since now 24 mine in
      sbind (numeric_col 38 18 (case first_row (ro_desc ro mine) of None \<Rightarrow> ru_last_price p | Some t \<Rightarrow> xt_price_quote t)) (\<lambda>price.
      sbind (numeric_col 20 2 (sum_list (map (\<lambda>t. xt_price_usd t * xt_base t) recent))) (\<lambda>volume.
      sbind (numeric_col 12 4 (change_24h ro pg_div (ru_last_price p) recent)) (\<lambda>change.
      sbind (numeric_col 30 6 (holder_earnings (ru_pool p) payouts leaves)) (\<lambda>earnings.
      Inr (p\<lparr>ru_last_price := price, ru_volume := volume, ru_change := change, ru_earnings := earnings\<rparr>))))))"

text \<open>One statement: all rows or none.\<close>

definition refreshPoolRollups ::
  "row_order \<Rightarrow> (rat \<Rightarrow> rat \<Rightarrow> rat) \<Rightarrow> int \<Rightarrow> TradeRow list \<Rightarrow> PayoutCol list \<Rightarrow> Leaf list \<Rightarrow> Rollup list \<Rightarrow> string + Rollup list" where
  "refreshPoolRollups ro pg_div now trades payouts leaves pools = smap (refresh_pool ro pg_div now trades payouts leaves) pools"

text \<open>One pass: every timeframe, then the rollups, each statement at its own time.\<close>

definition candles_main ::
  "row_order \<Rightarrow> (rat \<Rightarrow> rat \<Rightarrow> rat) \<Rightarrow> (string \<Rightarrow> int) \<Rightarrow> int \<Rightarrow> TradeRow list \<Rightarrow> PayoutCol list \<Rightarrow> Leaf list \<Rightarrow>
     Candle list \<times> Rollup list \<Rightarrow> Candle list \<times> (string + Rollup list)" where
  "candles_main ro pg_div clock now trades payouts leaves st =
     (fold (\<lambda>tw. rebuildCandles ro (clock (fst tw)) 48 trades tw) TIMEFRAMES (fst st),
      refreshPoolRollups ro pg_div now trades payouts leaves (snd st))"

section \<open>Upserted tables\<close>

text \<open>The contract of \<open>insert ... on conflict do update\<close> that overwrites every column but the key's.\<close>

locale upserted =
  fixes key :: "'row \<Rightarrow> 'key" and put :: "'row \<Rightarrow> 'row list \<Rightarrow> 'row list"
  assumes put_fresh: "key r \<notin> key ` set t \<Longrightarrow> put r t = t @ [r]"
    and put_present: "key r \<in> key ` set t \<Longrightarrow> put r t = map (\<lambda>x. if key x = key r then r else x) t"
begin

definition look :: "'key \<Rightarrow> 'row list \<Rightarrow> 'row list" where
  "look k t = filter (\<lambda>x. key x = k) t"

lemma look_other: "key r \<noteq> k \<Longrightarrow> look k (put r t) = look k t"
proof (cases "key r \<in> key ` set t")
  case True
  assume "key r \<noteq> k"
  then have "look k (map (\<lambda>x. if key x = key r then r else x) xs) = look k xs" for xs by (induction xs) (auto simp: look_def)
  then show ?thesis using True by (simp add: put_present)
qed (simp add: put_fresh look_def)

lemma look_put: "set (look (key r) (put r t)) = {r}"
proof (cases "key r \<in> key ` set t")
  case True
  then show ?thesis by (auto simp: put_present look_def image_iff)
next
  case False
  then have "look (key r) t = []" unfolding look_def filter_empty_conv by (metis image_eqI)
  then show ?thesis using False by (simp add: put_fresh look_def)
qed

lemma look_fold_other: "k \<notin> key ` set rs \<Longrightarrow> look k (fold put rs t) = look k t"
  by (induction rs arbitrary: t) (auto simp: look_other)

lemma look_fold: "distinct (map key rs) \<Longrightarrow> r \<in> set rs \<Longrightarrow> set (look (key r) (fold put rs t)) = {r}"
proof (induction rs arbitrary: t)
  case (Cons x rs)
  then show ?case by (cases "x = r") (simp_all add: look_fold_other look_put)
qed simp

end

lemma merge_same_key: "candle_key x = candle_key r \<Longrightarrow> merge_candle r x = r"
  by (cases r; cases x) (simp add: candle_key_def merge_candle_def)

interpretation candles_tbl: upserted candle_key put_candle
  by unfold_locales (simp_all add: put_candle_def upsert_def merge_same_key cong: if_cong)

section \<open>What a rebuild stores\<close>

lemma candle_key_of [simp]: "candle_key (candle_of ro tf k rows) = (fst k, tf, snd k)"
  by (simp add: candle_key_def candle_of_def)

lemma group_keys: "map candle_key (group_candles ro tf width rows) = map (\<lambda>k. (fst k, tf, snd k)) (remdups (map (bucket_key width) rows))"
  by (simp add: group_candles_def o_def)

lemma distinct_groups: "distinct (map candle_key (group_candles ro tf width rows))"
  unfolding group_keys by (simp add: distinct_map inj_on_def prod_eq_iff)

definition stored :: "string \<Rightarrow> string \<Rightarrow> int \<Rightarrow> Candle list \<Rightarrow> Candle list" where
  "stored pool tf ts candles = filter (\<lambda>c. candle_key c = (pool, tf, ts)) candles"

lemma stored_look: "stored pool tf ts = candles_tbl.look (pool, tf, ts)"
  by (rule ext) (simp add: stored_def candles_tbl.look_def)

lemma rebuilt:
  assumes "t \<in> set (since now hours trades)" "bucket_key width t = (pool, b)"
  shows "set (stored pool tf b (rebuildCandles ro now hours trades (tf, width) candles)) =
    {candle_of ro tf (pool, b) (filter (\<lambda>t. bucket_key width t = (pool, b)) (since now hours trades))}"
proof -
  let ?c = "candle_of ro tf (pool, b) (filter (\<lambda>t. bucket_key width t = (pool, b)) (since now hours trades))"
  have "(pool, b) \<in> bucket_key width ` set (since now hours trades)" using assms by force
  then have "?c \<in> set (group_candles ro tf width (since now hours trades))" by (simp add: group_candles_def)
  from candles_tbl.look_fold [OF distinct_groups this] show ?thesis
    by (simp add: rebuildCandles_def stored_look)
qed

text \<open>The first row of an ordered list is a row with the least (or the greatest) time.\<close>

lemma first_by_time:
  assumes "orders_ok ro" "rows \<noteq> []"
  shows "hd (ro_asc ro rows) \<in> set rows" "y \<in> set rows \<Longrightarrow> xt_ts (hd (ro_asc ro rows)) \<le> xt_ts y"
proof -
  have m: "mset (ro_asc ro rows) = mset rows" and s: "sorted (map xt_ts (ro_asc ro rows))" using assms(1) by (simp_all add: orders_ok_def)
  have set: "set (ro_asc ro rows) = set rows" using m by (rule mset_eq_setD)
  obtain x xs where l: "ro_asc ro rows = x # xs" using set assms(2) by (cases "ro_asc ro rows") auto
  show "hd (ro_asc ro rows) \<in> set rows" using set l by auto
  show "xt_ts (hd (ro_asc ro rows)) \<le> xt_ts y" if "y \<in> set rows" using that s set l by auto
qed

lemma last_by_time:
  assumes "orders_ok ro" "rows \<noteq> []"
  shows "hd (ro_desc ro rows) \<in> set rows" "y \<in> set rows \<Longrightarrow> xt_ts y \<le> xt_ts (hd (ro_desc ro rows))"
proof -
  have m: "mset (ro_desc ro rows) = mset rows" and s: "sorted (rev (map xt_ts (ro_desc ro rows)))" using assms(1) by (simp_all add: orders_ok_def)
  have set: "set (ro_desc ro rows) = set rows" using m by (rule mset_eq_setD)
  obtain x xs where l: "ro_desc ro rows = x # xs" using set assms(2) by (cases "ro_desc ro rows") auto
  show "hd (ro_desc ro rows) \<in> set rows" using set l by auto
  show "xt_ts y \<le> xt_ts (hd (ro_desc ro rows))" if "y \<in> set rows" using that s set l by (auto simp: sorted_append)
qed

lemma bucket_le:
  assumes "0 < width"
  shows "bucket width ts \<le> ts"
proof -
  have "0 \<le> ts mod width" using assms by simp
  then show ?thesis using minus_div_mult_eq_mod [of ts width] by (simp add: bucket_def)
qed

lemma whole_bucket:
  assumes "0 < width" "now - hours * 3600 < b"
  shows "filter (\<lambda>t. bucket_key width t = (pool, b)) (since now hours trades) = filter (\<lambda>t. bucket_key width t = (pool, b)) trades"
proof -
  have "bucket_key width t = (pool, b) \<Longrightarrow> now - hours * 3600 < xt_ts t" for t
    using bucket_le [OF assms(1), of "xt_ts t"] assms(2) by (simp add: bucket_key_def)
  then show ?thesis unfolding since_def filter_filter by (intro filter_cong) auto
qed

text \<open>
  C24: a bucket that starts inside the window is aggregated exactly.  Whatever the table held, the one
  candle of the bucket after a rebuild has the bucket's volume, its highest and lowest price, and its
  first and last price where these are settled by the times of the trades.
\<close>

theorem candle_exact:
  assumes ro: "orders_ok ro" and width: "0 < width" and window: "now - hours * 3600 < b"
    and t: "t \<in> set trades" "bucket_key width t = (pool, b)"
    and rows: "rows = filter (\<lambda>t. bucket_key width t = (pool, b)) trades"
  shows "\<exists>c. set (stored pool tf b (rebuildCandles ro now hours trades (tf, width) candles)) = {c} \<and>
    cn_v c = sum_list (map xt_base rows) \<and>
    cn_h c \<in> xt_price_quote ` set rows \<and> cn_l c \<in> xt_price_quote ` set rows \<and>
    (\<forall>x. x \<in> set rows \<longrightarrow> cn_l c \<le> xt_price_quote x \<and> xt_price_quote x \<le> cn_h c) \<and>
    (\<forall>x. x \<in> set rows \<and> (\<forall>y. y \<in> set rows \<and> y \<noteq> x \<longrightarrow> xt_ts x < xt_ts y) \<longrightarrow> cn_o c = xt_price_quote x) \<and>
    (\<forall>x. x \<in> set rows \<and> (\<forall>y. y \<in> set rows \<and> y \<noteq> x \<longrightarrow> xt_ts y < xt_ts x) \<longrightarrow> cn_c c = xt_price_quote x)"
proof (intro exI conjI)
  let ?c = "candle_of ro tf (pool, b) rows"
  have mem: "t \<in> set rows" using t by (simp add: rows)
  then have ne: "rows \<noteq> []" by auto
  have "t \<in> set (since now hours trades)"
    using t bucket_le [OF width, of "xt_ts t"] window by (simp add: since_def bucket_key_def)
  from rebuilt [OF this t(2)] show "set (stored pool tf b (rebuildCandles ro now hours trades (tf, width) candles)) = {?c}"
    unfolding whole_bucket [OF width window] rows .
  show "cn_v ?c = sum_list (map xt_base rows)" by (simp add: candle_of_def)
  show "cn_h ?c \<in> xt_price_quote ` set rows" "cn_l ?c \<in> xt_price_quote ` set rows"
    using ne by (auto simp: candle_of_def simp del: set_map simp flip: set_map intro!: Max_in Min_in)
  show "\<forall>x. x \<in> set rows \<longrightarrow> cn_l ?c \<le> xt_price_quote x \<and> xt_price_quote x \<le> cn_h ?c" by (simp add: candle_of_def)
  show "\<forall>x. x \<in> set rows \<and> (\<forall>y. y \<in> set rows \<and> y \<noteq> x \<longrightarrow> xt_ts x < xt_ts y) \<longrightarrow> cn_o ?c = xt_price_quote x"
  proof (intro allI impI)
    fix x assume x: "x \<in> set rows \<and> (\<forall>y. y \<in> set rows \<and> y \<noteq> x \<longrightarrow> xt_ts x < xt_ts y)"
    have "hd (ro_asc ro rows) = x" using first_by_time [OF ro ne] x by (meson leD)
    then show "cn_o ?c = xt_price_quote x" by (simp add: candle_of_def)
  qed
  show "\<forall>x. x \<in> set rows \<and> (\<forall>y. y \<in> set rows \<and> y \<noteq> x \<longrightarrow> xt_ts y < xt_ts x) \<longrightarrow> cn_c ?c = xt_price_quote x"
  proof (intro allI impI)
    fix x assume x: "x \<in> set rows \<and> (\<forall>y. y \<in> set rows \<and> y \<noteq> x \<longrightarrow> xt_ts y < xt_ts x)"
    have "hd (ro_desc ro rows) = x" using last_by_time [OF ro ne] x by (meson leD)
    then show "cn_c ?c = xt_price_quote x" by (simp add: candle_of_def)
  qed
qed

text \<open>
  C26: a bucket that straddles the edge of the window is overwritten by part of itself.  Once a
  trade with volume has left the window while another of its bucket is still inside, the stored
  volume is too small, even where the table held the right candle before: every daily candle ends
  up with the volume of its last trades.
\<close>

theorem straddling_candle_shrinks:
  assumes inside: "t \<in> set trades" "bucket_key width t = (pool, b)" "now - hours * 3600 < xt_ts t"
    and left: "old \<in> set trades" "bucket_key width old = (pool, b)" "xt_ts old \<le> now - hours * 3600" "0 < xt_base old"
    and volumes: "\<And>x. x \<in> set trades \<Longrightarrow> 0 \<le> xt_base x"
  shows "\<exists>c. set (stored pool tf b (rebuildCandles ro now hours trades (tf, width) candles)) = {c} \<and>
    cn_v c < sum_list (map xt_base (filter (\<lambda>t. bucket_key width t = (pool, b)) trades))"
proof (intro exI conjI)
  let ?K = "\<lambda>t. bucket_key width t = (pool, b)" and ?late = "\<lambda>t. now - hours * 3600 < xt_ts t"
  have "t \<in> set (since now hours trades)" using inside by (simp add: since_def)
  from rebuilt [OF this inside(2)]
  show "set (stored pool tf b (rebuildCandles ro now hours trades (tf, width) candles)) = {candle_of ro tf (pool, b) (filter ?K (since now hours trades))}" .
  have split: "sum_list (map xt_base xs) = sum_list (map xt_base (filter ?late xs)) + sum_list (map xt_base (filter (\<lambda>t. \<not> ?late t) xs))" for xs
    by (induction xs) auto
  let ?early = "filter (\<lambda>t. \<not> ?late t) (filter ?K trades)"
  have "xt_base old \<le> sum_list (map xt_base ?early)"
    using left volumes by (intro member_le_sum_list) auto
  then have "0 < sum_list (map xt_base ?early)" using left(4) by simp
  then show "cn_v (candle_of ro tf (pool, b) (filter ?K (since now hours trades))) < sum_list (map xt_base (filter ?K trades))"
    unfolding split [of "filter ?K trades"] by (simp add: candle_of_def since_def conj_commute)
qed

section \<open>Instances\<close>

definition sorted_order :: row_order where
  "sorted_order = \<lparr>ro_asc = sort_key xt_ts, ro_desc = sort_key (\<lambda>t. - xt_ts t)\<rparr>"

lemma sorted_order_ok: "orders_ok sorted_order"
proof -
  have "sorted (rev (map xt_ts (sort_key (\<lambda>t. - xt_ts t) rows)))" for rows :: "TradeRow list"
  proof -
    have "sorted (map (\<lambda>t. - xt_ts t) (sort_key (\<lambda>t. - xt_ts t) rows))" by simp
    then have "sorted_wrt (\<ge>) (map xt_ts (sort_key (\<lambda>t. - xt_ts t) rows))" by (simp add: sorted_map sorted_wrt_map)
    then show ?thesis by (simp add: sorted_wrt_rev sorted_wrt_map)
  qed
  then show ?thesis by (simp add: orders_ok_def sorted_order_def)
qed

definition sample_trade :: "int \<Rightarrow> rat \<Rightarrow> rat \<Rightarrow> TradeRow" where
  "sample_trade ts price base = \<lparr>xt_sig = [], xt_pool = ''p'', xt_ts = ts, xt_side = 0, xt_base = base, xt_quote = 1, xt_price_quote = price,
     xt_price_usd = 1, xt_trader = []\<rparr>"

text \<open>Two trades of one day: the day's candle at noon two days later has lost the morning's.\<close>

definition sample_day :: "TradeRow list" where
  "sample_day = [sample_trade 100 2 5, sample_trade 80000 3 7]"

theorem candle_exact_witness:
  "\<exists>c. set (stored ''p'' ''1d'' 0 (rebuildCandles sorted_order 90000 48 sample_day (''1d'', 86400) [])) = {c} \<and>
    cn_v c = 12 \<and> cn_o c = 2 \<and> cn_c c = 3"
proof -
  have keys: "bucket_key 86400 (sample_trade 100 2 5) = (''p'', 0)" "bucket_key 86400 (sample_trade 80000 3 7) = (''p'', 0)"
    by (simp_all add: bucket_key_def bucket_def sample_trade_def)
  have rows: "sample_day = filter (\<lambda>t. bucket_key 86400 t = (''p'', 0)) sample_day" using keys by (simp add: sample_day_def)
  obtain c where c: "set (stored ''p'' ''1d'' 0 (rebuildCandles sorted_order 90000 48 sample_day (''1d'', 86400) [])) = {c}"
      "cn_v c = sum_list (map xt_base sample_day)"
      "\<And>x. x \<in> set sample_day \<and> (\<forall>y. y \<in> set sample_day \<and> y \<noteq> x \<longrightarrow> xt_ts x < xt_ts y) \<Longrightarrow> cn_o c = xt_price_quote x"
      "\<And>x. x \<in> set sample_day \<and> (\<forall>y. y \<in> set sample_day \<and> y \<noteq> x \<longrightarrow> xt_ts y < xt_ts x) \<Longrightarrow> cn_c c = xt_price_quote x"
    using candle_exact [OF sorted_order_ok, of 86400 90000 48 0 "sample_trade 100 2 5" sample_day "''p''" sample_day "''1d''" "[]"] keys rows
    by (auto simp: sample_day_def)
  have "cn_o c = xt_price_quote (sample_trade 100 2 5)" by (rule c(3)) (auto simp: sample_day_def sample_trade_def)
  moreover have "cn_c c = xt_price_quote (sample_trade 80000 3 7)" by (rule c(4)) (auto simp: sample_day_def sample_trade_def)
  ultimately show ?thesis using c(1,2) by (intro exI [of _ c]) (simp add: sample_day_def sample_trade_def)
qed

theorem straddling_candle_shrinks_witness:
  "\<exists>c. set (stored ''p'' ''1d'' 0 (rebuildCandles sorted_order 216000 48 sample_day (''1d'', 86400)
      (rebuildCandles sorted_order 90000 48 sample_day (''1d'', 86400) []))) = {c} \<and> cn_v c < 12"
proof -
  have keys: "bucket_key 86400 (sample_trade 100 2 5) = (''p'', 0)" "bucket_key 86400 (sample_trade 80000 3 7) = (''p'', 0)"
    by (simp_all add: bucket_key_def bucket_def sample_trade_def)
  have "sum_list (map xt_base (filter (\<lambda>t. bucket_key 86400 t = (''p'', 0)) sample_day)) = 12"
    using keys by (simp add: sample_day_def) (simp add: sample_trade_def)
  moreover have "\<exists>c. set (stored ''p'' ''1d'' 0 (rebuildCandles sorted_order 216000 48 sample_day (''1d'', 86400) old)) = {c} \<and>
      cn_v c < sum_list (map xt_base (filter (\<lambda>t. bucket_key 86400 t = (''p'', 0)) sample_day))" for old
    by (rule straddling_candle_shrinks [where t = "sample_trade 80000 3 7" and old = "sample_trade 100 2 5"])
      (use keys in \<open>auto simp: sample_day_def, auto simp: sample_trade_def\<close>)
  ultimately show ?thesis by simp
qed

end
