(* ===== verification/Backfill.thy ===== *)
theory Backfill
  imports Ledger
begin

text \<open>
  The backfill of a pool from the node's history (\<^verbatim>\<open>apps/indexer/src/backfill.ts\<close>), through the
  decoders of the webhook.  The node is a parameter: pages of an address's signatures, newest first,
  and parsed transactions.  \<open>--limit\<close> is taken to be a whole number; console output is left out.
\<close>

section \<open>Signatures of an address\<close>

record SigInfo =
  si_signature :: string
  si_slot :: int
  si_err :: bool

definition PAGE :: nat where "PAGE = 1000"
definition TX_BATCH :: nat where "TX_BATCH = 25"

text \<open>\<open>getSignaturesForAddress\<close> of one address: before, until, limit.\<close>

type_synonym pages = "string option \<Rightarrow> string option \<Rightarrow> nat \<Rightarrow> string + SigInfo list"

text \<open>The loop ends whatever the node answers: every round but the last adds a signature below the limit.\<close>

function signatures_loop :: "pages \<Rightarrow> string option \<Rightarrow> nat \<Rightarrow> SigInfo list \<Rightarrow> string option \<Rightarrow> string + SigInfo list" where
  "signatures_loop page until limit acc before =
     (if length acc < limit then
        (case page before until (min PAGE (limit - length acc)) of Inl e \<Rightarrow> Inl e
         | Inr p \<Rightarrow> if p = [] then Inr acc
             else if length p < PAGE then Inr (acc @ p)
             else signatures_loop page until limit (acc @ p) (Some (si_signature (last p))))
      else Inr acc)"
  by pat_completeness auto
termination
proof (relation "measure (\<lambda>(page, until, limit, acc, before). limit - length acc)")
  fix page :: pages and until :: "string option" and limit :: nat and acc p :: "SigInfo list" and before :: "string option"
  assume "length acc < limit" "p \<noteq> []"
  then show "((page, until, limit, acc @ p, Some (si_signature (last p))), (page, until, limit, acc, before))
      \<in> measure (\<lambda>(page, until, limit, acc, before). limit - length acc)"
    by (cases p) auto
qed simp

declare signatures_loop.simps [simp del]

definition signaturesFor :: "pages \<Rightarrow> string option \<Rightarrow> nat \<Rightarrow> string + SigInfo list" where
  "signaturesFor page until limit = signatures_loop page until limit [] None"

section \<open>A run\<close>

record Args =
  ag_dbcPool :: string
  ag_limit :: nat
  ag_resume :: bool
  ag_extra :: "string list"

record backfill_env =
  bv_idx :: idx_env
  bv_pages :: "string \<Rightarrow> pages"
  bv_txs :: "string list \<Rightarrow> string + ParsedRpcTx option list"

text \<open>\<open>Set.add\<close>.\<close>

definition set_add :: "string list \<Rightarrow> string list \<Rightarrow> string list" where
  "set_add out xs = fold (insert_or_ignore (\<lambda>x. x)) xs out"

definition router_pdas :: "idx_env \<Rightarrow> string \<Rightarrow> string + string list" where
  "router_pdas env dbcPool = sbind (new_PublicKey (xv_w3 env) (programIds (xv_env env) FeeRouter)) (\<lambda>fr.
     sbind (new_PublicKey (xv_w3 env) dbcPool) (\<lambda>poolKey.
     Inr [pda_text env [ascii_bytes ''pool'', poolKey] fr, pda_text env [ascii_bytes ''holder_vault'', poolKey] fr]))"

definition pool_addresses :: "string \<Rightarrow> idx_db \<Rightarrow> string list" where
  "pool_addresses dbcPool d = (case first_row (filter (\<lambda>p. ip_dbc_pool p = dbcPool) (xd_pools d)) of None \<Rightarrow> []
     | Some p \<Rightarrow> ip_base_mint p # (case ip_damm_pool p of None \<Rightarrow> [] | Some s \<Rightarrow> if s = [] then [] else [s]))"

definition addressesFor :: "idx_env \<Rightarrow> string \<Rightarrow> string list \<Rightarrow> string list xio" where
  "addressesFor env dbcPool extra =
     io_bind (io_result (router_pdas env dbcPool)) (\<lambda>pdas.
     io_bind (sql_read (pool_addresses dbcPool)) (\<lambda>known.
     io_bind (sql_read (max_index dbcPool)) (\<lambda>max.
     let upper = (case max of None \<Rightarrow> - 1 | Some m \<Rightarrow> m) + 1 in
     io_bind (io_result (smap (epochPda env dbcPool) [0..upper])) (\<lambda>epochs.
     io_ret (set_add [] (dbcPool # extra @ pdas @ known @ epochs))))))"

text \<open>\<open>bySig\<close> with the order of insertion, and \<open>newestByAddress\<close>.\<close>

type_synonym found = "(string \<times> int) list \<times> (string \<times> SigInfo) list"

definition cursor_source :: "string \<Rightarrow> string" where
  "cursor_source address = ''backfill:'' @ address"

definition last_cursor :: "string \<Rightarrow> idx_db \<Rightarrow> string option" where
  "last_cursor address d = map_option cu_last_sig (first_row (filter (\<lambda>c. cu_source c = cursor_source address) (xd_cursor d)))"

definition add_found :: "string \<Rightarrow> SigInfo list \<Rightarrow> found \<Rightarrow> found" where
  "add_found address newestFirst st = (case st of (bySig, newest) \<Rightarrow>
     (fold (\<lambda>s. insert_or_ignore fst (si_signature s, si_slot s)) (filter (\<lambda>s. \<not> si_err s) (rev newestFirst)) bySig,
      case newestFirst of [] \<Rightarrow> newest | s # _ \<Rightarrow> newest @ [(address, s)]))"

definition scan_address :: "backfill_env \<Rightarrow> Args \<Rightarrow> string \<Rightarrow> found \<Rightarrow> found xio" where
  "scan_address benv args address st =
     io_bind (if ag_resume args then sql_read (last_cursor address) else io_ret None) (\<lambda>until.
     io_bind (io_result (signaturesFor (bv_pages benv address) until (ag_limit args))) (\<lambda>newestFirst.
     io_ret (add_found address newestFirst st)))"

text \<open>By slot; entries of one slot keep the order of insertion.\<close>

definition ordered :: "(string \<times> int) list \<Rightarrow> string list" where
  "ordered bySig = map fst (sort_key snd bySig)"

definition ingest_parsed :: "idx_env \<Rightarrow> ParsedRpcTx option \<Rightarrow> Totals \<Rightarrow> Totals xio" where
  "ingest_parsed env parsed totals = (case parsed of None \<Rightarrow> io_ret totals
     | Some p \<Rightarrow> io_bind (io_gets iw_now) (\<lambda>now. io_bind (io_result (fromParsedRpc now p)) (\<lambda>tx.
         io_bind (ingestTransaction env tx None) (\<lambda>r. io_ret (add_result r totals)))))"

definition ingest_batch :: "backfill_env \<Rightarrow> string list \<Rightarrow> Totals \<Rightarrow> Totals xio" where
  "ingest_batch benv batch totals =
     io_bind (io_result (bv_txs benv batch)) (\<lambda>txs. io_catch
       (io_then sql_begin
       (io_bind (io_fold txs (ingest_parsed (bv_idx benv)) totals) (\<lambda>t.
       io_then sql_commit (io_ret t))))
       (\<lambda>err. io_then sql_rollback (io_throw err)))"

definition save_cursor :: "string \<times> SigInfo \<Rightarrow> unit xio" where
  "save_cursor x = (case x of (address, s) \<Rightarrow> sql_write (set_cursor (cursor_source address) (si_signature s) (si_slot s)))"

definition backfill :: "backfill_env \<Rightarrow> Args \<Rightarrow> Totals xio" where
  "backfill benv args =
     io_bind (io_gets iw_now) (\<lambda>now.
     io_bind (reconcilePools (bv_idx benv) now) (\<lambda>_.
     if xv_rpc (bv_idx benv) = None then io_throw ''RPC_URL (or HELIUS_API_KEY) is required for the backfill'' else
     io_bind (addressesFor (bv_idx benv) (ag_dbcPool args) (ag_extra args)) (\<lambda>addresses.
     io_bind (io_fold addresses (scan_address benv args) ([], [])) (\<lambda>(bySig, newest).
     io_bind (io_fold (chunks TX_BATCH (ordered bySig)) (ingest_batch benv) no_totals) (\<lambda>totals.
     io_then (io_for newest save_cursor) (io_ret totals))))))"

section \<open>An honest node\<close>

text \<open>The history of an address, newest first; what comes after a signature and what comes before one.\<close>

definition older_than :: "string option \<Rightarrow> SigInfo list \<Rightarrow> SigInfo list" where
  "older_than before hist = (case before of None \<Rightarrow> hist | Some b \<Rightarrow> tl (dropWhile (\<lambda>s. si_signature s \<noteq> b) hist))"

definition newer_than :: "string option \<Rightarrow> SigInfo list \<Rightarrow> SigInfo list" where
  "newer_than until hist = (case until of None \<Rightarrow> hist | Some u \<Rightarrow> takeWhile (\<lambda>s. si_signature s \<noteq> u) hist)"

text \<open>The documented answer of \<open>getSignaturesForAddress\<close> for a limit of at most 1000.\<close>

definition answers :: "pages \<Rightarrow> SigInfo list \<Rightarrow> bool" where
  "answers page hist \<longleftrightarrow> (\<forall>before until lim. lim \<le> PAGE \<longrightarrow>
     page before until lim = Inr (take lim (newer_than until (older_than before hist))))"

lemma older_than_nth:
  assumes "distinct (map si_signature hist)" "n < length hist"
  shows "older_than (Some (si_signature (hist ! n))) hist = drop (Suc n) hist"
proof -
  let ?P = "\<lambda>s. si_signature s \<noteq> si_signature (hist ! n)"
  have split: "hist = take n hist @ hist ! n # drop (Suc n) hist" using assms(2) by (rule id_take_nth_drop)
  have "?P s" if "s \<in> set (take n hist)" for s
    using assms that by (auto simp: in_set_conv_nth distinct_conv_nth)
  then have "dropWhile ?P (take n hist @ hist ! n # drop (Suc n) hist) = hist ! n # drop (Suc n) hist" by (simp add: dropWhile_append2)
  then have "dropWhile ?P hist = hist ! n # drop (Suc n) hist" by (simp only: split [symmetric])
  then show ?thesis by (simp add: older_than_def)
qed

lemma newer_than_drop:
  "n \<le> length (newer_than until hist) \<Longrightarrow> newer_than until (drop n hist) = drop n (newer_than until hist)"
proof (cases until)
  case (Some u)
  have "n \<le> length (takeWhile P hist) \<Longrightarrow> takeWhile P (drop n hist) = drop n (takeWhile P hist)" for P :: "SigInfo \<Rightarrow> bool"
  proof (induction hist arbitrary: n)
    case (Cons x hist)
    then show ?case by (cases n) (auto split: if_splits)
  qed simp
  then show "n \<le> length (newer_than until hist) \<Longrightarrow> ?thesis" using Some by (simp add: newer_than_def)
qed (simp add: newer_than_def)

lemma newer_than_nth: "n < length (newer_than until hist) \<Longrightarrow> newer_than until hist ! n = hist ! n"
  by (cases until) (simp_all add: newer_than_def takeWhile_nth)

lemma newer_than_length: "length (newer_than until hist) \<le> length hist"
  by (cases until) (simp_all add: newer_than_def length_takeWhile_le)

text \<open>The loop has collected the first \<open>n\<close> signatures and asks for what follows the last of them.\<close>

lemma signatures_loop_from:
  assumes node: "answers page hist" and dist: "distinct (map si_signature hist)"
  shows "n \<le> limit \<Longrightarrow> n \<le> length (newer_than until hist) \<Longrightarrow>
    before = (if n = 0 then None else Some (si_signature (hist ! (n - 1)))) \<Longrightarrow>
    signatures_loop page until limit (take n (newer_than until hist)) before = Inr (take limit (newer_than until hist))"
proof (induction "limit - n" arbitrary: n before rule: less_induct)
  case less
  let ?W = "newer_than until hist"
  have len: "length (take n ?W) = n" using less.prems(2) by simp
  show ?case
  proof (cases "n < limit")
    case False
    then have "n = limit" using less.prems(1) by simp
    then show ?thesis using len by (subst signatures_loop.simps) simp
  next
    case True
    let ?m = "min PAGE (limit - n)" and ?p = "take (min PAGE (limit - n)) (drop n ?W)"
    have "newer_than until (older_than before hist) = drop n ?W"
    proof (cases n)
      case 0
      then show ?thesis using less.prems(3) by (simp add: older_than_def)
    next
      case (Suc k)
      have "k < length hist" using Suc less.prems(2) newer_than_length [of until hist] by simp
      then have "older_than before hist = drop n hist" using less.prems(3) Suc older_than_nth [OF dist] by simp
      then show ?thesis using newer_than_drop [OF less.prems(2)] by simp
    qed
    then have page: "page before until ?m = Inr ?p" using node by (simp add: answers_def)
    have m: "0 < ?m" using True by (simp add: PAGE_def)
    show ?thesis
    proof (cases "length ?p < PAGE")
      case short: True
      have "take n ?W @ ?p = take limit ?W"
      proof (cases "length ?W \<le> n + ?m")
        case True
        then show ?thesis using less.prems(1) by (simp add: take_drop [symmetric] take_add [symmetric])
      next
        case False
        then have "length ?p = ?m" using less.prems(2) by simp
        then have "?m = limit - n" using short by (simp add: min_def split: if_splits)
        then show ?thesis using less.prems(1) take_add [of n "limit - n" ?W] by simp
      qed
      moreover have "take n ?W = take limit ?W" if e: "?p = []" using calculation unfolding e append_Nil2 .
      ultimately show ?thesis using page short True len by (subst signatures_loop.simps) auto
    next
      case False
      then have full: "length ?p = PAGE" "?m = PAGE" by (auto simp: min_def split: if_splits)
      then have bound: "n + PAGE \<le> length ?W" "n + PAGE \<le> limit" using less.prems(1,2) True by (auto simp: min_def split: if_splits)
      have ne: "?p \<noteq> []" using full(1) by (auto simp: PAGE_def)
      have acc: "take n ?W @ ?p = take (n + PAGE) ?W" using full(2) by (simp add: take_add)
      have "last ?p = ?W ! (n + PAGE - 1)"
        using ne full bound by (simp add: last_conv_nth PAGE_def add.commute)
      also have "\<dots> = hist ! (n + PAGE - 1)" by (rule newer_than_nth) (use bound in \<open>simp add: PAGE_def\<close>)
      finally have last: "last ?p = hist ! (n + PAGE - 1)" .
      have "signatures_loop page until limit (take (n + PAGE) ?W) (Some (si_signature (last ?p))) = Inr (take limit ?W)"
        by (rule less.hyps) (use bound True last in \<open>simp_all add: PAGE_def\<close>)
      moreover have "signatures_loop page until limit (take n ?W) before =
          signatures_loop page until limit (take n ?W @ ?p) (Some (si_signature (last ?p)))"
        using page False True len ne by (subst signatures_loop.simps) simp
      ultimately show ?thesis unfolding acc by simp
    qed
  qed
qed

lemma signaturesFor_window:
  assumes "answers page hist" "distinct (map si_signature hist)"
  shows "signaturesFor page until limit = Inr (take limit (newer_than until hist))"
  unfolding signaturesFor_def using signatures_loop_from [OF assms, of 0 limit until None] by simp

text \<open>
  C20: with a node that answers as documented, paging returns exactly the newest \<open>limit\<close> signatures
  of the address that are newer than \<open>until\<close>: nothing is lost or repeated between pages.
\<close>

theorem signatures_are_window:
  assumes "answers page hist" "distinct (map si_signature hist)"
  shows "signaturesFor page until limit = Inr (take limit (newer_than until hist))"
  using assms by (rule signaturesFor_window)

section \<open>Resuming\<close>

lemma found_keys: "fst ` set (fst (add_found address xs ([], newest))) \<subseteq> si_signature ` set xs"
proof -
  let ?put = "\<lambda>s. insert_or_ignore fst (si_signature s, si_slot s)"
  have one: "fst ` set (?put y acc) = insert (si_signature y) (fst ` set acc)" for y and acc :: "(string \<times> int) list"
    by (auto simp: insert_or_ignore_def)
  have "fst ` set (fold ?put ys acc) \<subseteq> fst ` set acc \<union> si_signature ` set ys" for ys and acc :: "(string \<times> int) list"
  proof (induction ys arbitrary: acc)
    case (Cons y ys)
    from Cons.IH [of "?put y acc"] show ?case unfolding one by auto
  qed simp
  from this [of "filter (\<lambda>s. \<not> si_err s) (rev xs)" "[]"] show ?thesis by (auto simp: add_found_def)
qed

lemma scan_calm:
  assumes "iw_faults w = []" "answers (bv_pages benv address) hist" "distinct (map si_signature hist)"
    and "scan_address benv args address ([], []) w = (Ret found, w')"
  shows "found = add_found address
    (take (ag_limit args) (newer_than (if ag_resume args then last_cursor address (iw_db w) else None) hist)) ([], [])"
  using assms(1,4) signaturesFor_window [OF assms(2,3)]
  by (cases "ag_resume args")
    (auto simp: scan_address_def io_bind_def io_ret_def io_result_def sql_read_def sql_calm)

lemma saved_cursor:
  assumes "iw_faults w = []"
  shows "last_cursor address (iw_db (snd (save_cursor (address, s) w))) = Some (si_signature s)"
proof -
  let ?r = "\<lparr>cu_source = cursor_source address, cu_last_sig = si_signature s, cu_last_slot = si_slot s\<rparr>"
  let ?upd = "\<lambda>c. c\<lparr>cu_last_sig := si_signature s, cu_last_slot := si_slot s\<rparr>"
  have "first_row (filter (\<lambda>c. cu_source c = cu_source ?r) (upsert cu_source ?upd ?r t)) =
      (case first_row (filter (\<lambda>c. cu_source c = cu_source ?r) t) of None \<Rightarrow> Some ?r | Some x \<Rightarrow> Some (?upd x))" for t
    by (rule first_row_filter_upsert) simp
  then have "map_option cu_last_sig (first_row (filter (\<lambda>c. cu_source c = cursor_source address) (upsert cu_source ?upd ?r t))) = Some (si_signature s)" for t
    by (simp split: option.splits)
  then show ?thesis using assms by (simp add: save_cursor_def sql_write_def sql_calm set_cursor_def last_cursor_def)
qed


section \<open>Instances\<close>

definition honest_pages :: "SigInfo list \<Rightarrow> pages" where
  "honest_pages hist before until n = Inr (take n (newer_than until (older_than before hist)))"

definition sig_info :: "string \<Rightarrow> int \<Rightarrow> SigInfo" where
  "sig_info name slot = \<lparr>si_signature = name, si_slot = slot, si_err = False\<rparr>"

definition sample_history :: "SigInfo list" where
  "sample_history = [sig_info ''c'' 3, sig_info ''b'' 2, sig_info ''a'' 1]"

lemma honest_answers: "answers (honest_pages hist) hist"
  by (simp add: answers_def honest_pages_def)

theorem signatures_are_window_witness:
  "signaturesFor (honest_pages sample_history) (Some ''a'') 5 = Inr [sig_info ''c'' 3, sig_info ''b'' 2]"
proof -
  have "distinct (map si_signature sample_history)" by code_simp
  moreover have "take 5 (newer_than (Some ''a'') sample_history) = [sig_info ''c'' 3, sig_info ''b'' 2]" by code_simp
  ultimately show ?thesis using signatures_are_window [OF honest_answers] by simp
qed

definition sample_args :: "nat \<Rightarrow> bool \<Rightarrow> Args" where
  "sample_args limit resume = \<lparr>ag_dbcPool = ''p'', ag_limit = limit, ag_resume = resume, ag_extra = []\<rparr>"

definition sample_backfill :: "idx_env \<Rightarrow> SigInfo list \<Rightarrow> backfill_env" where
  "sample_backfill env hist = \<lparr>bv_idx = env, bv_pages = (\<lambda>_. honest_pages hist), bv_txs = (\<lambda>_. Inr [])\<rparr>"


end
