(* ===== verification/Desk.thy ===== *)
theory Desk
  imports PegChain Distributor
begin

text \<open>
  The whole \<^verbatim>\<open>peg_desk\<close> program (\<^verbatim>\<open>programs/peg_desk/src\<close>): configuration, commodities, keeper
  prices, the oracle adapters and the trades against the reserve.  As in the other programs an
  instruction maps the chain to an error or to the new chain, Anchor's constraints first, then the
  handler's checks in source order.  The token program, Metaplex and the Pyth receiver's
  \<open>get_price_no_older_than\<close> are parameters.  Theory \<open>PegChain\<close> is the keeper's narrower view of the
  same program; \<open>Desk_View\<close> proves that this one refines it.
\<close>

section \<open>Chain\<close>

record DeskConfig =
  dg_admin :: bytes
  dg_pending_admin :: bytes
  dg_keepers :: "bytes list"
  dg_treasury :: bytes
  dg_reserve_mint :: bytes
  dg_global_pause :: bool
  dg_max_conf_bps :: int
  dg_reserve_warn_bps :: int
  dg_reserve_halt_bps :: int
  dg_redeem_cap_exempt :: bytes

record IndexLeg =
  il_commodity :: bytes
  il_weight_bps :: int

record DeskCommodity =
  dm_symbol :: bytes
  dm_coin_mint :: bytes
  dm_oracle_kind :: int
  dm_session_kind :: int
  dm_status :: int
  dm_feed_id :: bytes
  dm_feed_account :: bytes
  dm_fx_feed_id :: bytes
  dm_fx_feed_account :: bytes
  dm_quote_scale :: int
  dm_base_spread_bps :: int
  dm_closed_spread_bps :: int
  dm_conf_mult_bps :: int
  dm_max_age_open :: int
  dm_max_age_closed :: int
  dm_supply_cap :: int
  dm_per_tx_cap :: int
  dm_last_publish_time :: int
  dm_last_price :: int
  dm_reserve_vault :: bytes
  dm_reserve_balance_cached :: int
  dm_legs :: "IndexLeg list"
  dm_pyth_min_signatures :: int
  dm_daily_mint_cap :: int
  dm_daily_redeem_cap :: int
  dm_window_start :: int
  dm_window_minted :: int
  dm_window_redeemed :: int
  dm_max_deviation_bps :: int
  dm_deviation_window_secs :: int
  dm_anchor_price :: int
  dm_anchor_ts :: int

datatype desk_event =
    EvCommodityCreated bytes bytes bytes
  | EvTrade bytes bytes int int int int int
  | EvPriceUpdated bytes int int int
  | EvStatusChanged bytes int
  | EvReserveAlert bytes int
  | EvParamsUpdated bytes
  | EvConfigInitialized bytes bytes bytes
  | EvKeepersSet "bytes list"
  | EvAdminProposed bytes bytes
  | EvAdminChanged bytes bytes
  | EvGlobalPauseSet bool bytes
  | EvSpreadFeesSwept bytes int bytes
  | EvReserveDeposited bytes bytes int

text \<open>The Pyth account: what \<open>try_deserialize\<close> reads, and what the receiver's SDK returns.\<close>

datatype VerificationLevel = FullLevel | PartialLevel int

record PriceUpdateV2 =
  pu_level :: VerificationLevel
  pu_feed_id :: bytes
  pu_price :: int
  pu_conf :: int
  pu_exponent :: int
  pu_publish_time :: int

record RawPrice =
  rw_price :: int
  rw_conf :: int
  rw_expo :: int
  rw_publish_time :: int

text \<open>Token accounts and mints, and the token program's three instructions over them.\<close>

record mint_account =
  mi_supply :: int
  mi_decimals :: int

record token_state =
  tk_accounts :: accounts
  tk_mints :: "bytes \<Rightarrow> mint_account option"

record token_program =
  sp_transfer :: "bytes \<Rightarrow> bytes \<Rightarrow> bytes \<Rightarrow> int \<Rightarrow> token_state \<Rightarrow> string + token_state"
  sp_mint_to :: "bytes \<Rightarrow> bytes \<Rightarrow> bytes \<Rightarrow> int \<Rightarrow> token_state \<Rightarrow> string + token_state"
  sp_burn :: "bytes \<Rightarrow> bytes \<Rightarrow> bytes \<Rightarrow> int \<Rightarrow> token_state \<Rightarrow> string + token_state"

text \<open>Prices are stored under the address of the account; \<open>dc_raw\<close> is owner and data of other accounts.\<close>

record desk_chain =
  dc_clock :: int
  dc_config :: "DeskConfig option"
  dc_commodities :: "bytes \<Rightarrow> DeskCommodity option"
  dc_prices :: "bytes \<Rightarrow> (bytes \<times> KeeperPrice) option"
  dc_updates :: "bytes \<Rightarrow> PriceUpdateV2 option"
  dc_raw :: "bytes \<Rightarrow> (bytes \<times> bytes) option"
  dc_tokens :: token_state
  dc_log :: "(int \<times> desk_event) list"

record desk_env =
  de_w3 :: web3
  de_program :: bytes
  de_tokens :: token_program
  de_pyth :: "PriceUpdateV2 \<Rightarrow> int \<Rightarrow> int \<Rightarrow> bytes \<Rightarrow> VerificationLevel \<Rightarrow> RawPrice option"
  de_metaplex :: "bytes \<Rightarrow> string \<Rightarrow> string \<Rightarrow> string \<Rightarrow> string + unit"

definition desk_emit :: "desk_event \<Rightarrow> desk_chain \<Rightarrow> desk_chain" where
  "desk_emit e c = c\<lparr>dc_log := dc_log c @ [(dc_clock c, e)]\<rparr>"

definition desk_store :: "bytes \<Rightarrow> DeskCommodity \<Rightarrow> desk_chain \<Rightarrow> desk_chain" where
  "desk_store k m c = c\<lparr>dc_commodities := (dc_commodities c)(k \<mapsto> m)\<rparr>"

definition PUBKEY_DEFAULT :: bytes where "PUBKEY_DEFAULT = replicate 32 0"

section \<open>Constants and seeds\<close>

definition DESK_MAX_KEEPERS :: nat where "DESK_MAX_KEEPERS = 8"
definition MAX_LEGS :: nat where "MAX_LEGS = 5"
definition SYMBOL_LEN :: nat where "SYMBOL_LEN = 12"
definition DESK_BPS :: int where "DESK_BPS = 10000"
definition STATUS_OPEN :: int where "STATUS_OPEN = 0"
definition STATUS_CLOSED :: int where "STATUS_CLOSED = 1"
definition STATUS_HALTED :: int where "STATUS_HALTED = 2"
definition QUOTE_EUR :: int where "QUOTE_EUR = 2"
definition DAILY_WINDOW_SECS :: int where "DAILY_WINDOW_SECS = 86400"
definition MAX_DEVIATION_WINDOWS :: int where "MAX_DEVIATION_WINDOWS = 20"
definition MAX_DEVIATION_BPS :: int where "MAX_DEVIATION_BPS = 10000"
definition MAX_NAME_LEN :: nat where "MAX_NAME_LEN = 32"
definition MAX_URI_LEN :: nat where "MAX_URI_LEN = 200"
definition I64_MAX :: int where "I64_MAX = 2 ^ 63 - 1"

lemmas desk_status = STATUS_OPEN_def STATUS_CLOSED_def STATUS_HALTED_def QUOTE_EUR_def

definition commodity_address :: "desk_env \<Rightarrow> bytes \<Rightarrow> bytes" where
  "commodity_address env symbol = fst (w3_find (de_w3 env) [ascii_bytes ''cmdty'', symbol] (de_program env))"

definition reserve_address :: "desk_env \<Rightarrow> bytes \<Rightarrow> bytes" where
  "reserve_address env k = fst (w3_find (de_w3 env) [ascii_bytes ''reserve'', k] (de_program env))"

definition price_address :: "desk_env \<Rightarrow> bytes \<Rightarrow> bytes" where
  "price_address env k = fst (w3_find (de_w3 env) [ascii_bytes ''kp'', k] (de_program env))"

definition mint_auth_address :: "desk_env \<Rightarrow> bytes" where
  "mint_auth_address env = fst (w3_find (de_w3 env) [ascii_bytes ''mint_auth''] (de_program env))"

text \<open>An account of type \<open>Commodity\<close> with its seeds.\<close>

definition desk_commodity :: "desk_env \<Rightarrow> bytes \<Rightarrow> desk_chain \<Rightarrow> string + DeskCommodity" where
  "desk_commodity env k c =
     sbind (some_or (dc_commodities c k) ''AccountNotInitialized'') (\<lambda>m.
     sbind (require (k = commodity_address env (dm_symbol m)) ''ConstraintSeeds'') (\<lambda>_. Inr m))"

definition desk_admin :: "DeskConfig \<Rightarrow> bytes \<Rightarrow> bool" where
  "desk_admin g key \<longleftrightarrow> dg_admin g = key"

definition desk_keeper :: "DeskConfig \<Rightarrow> bytes \<Rightarrow> bool" where
  "desk_keeper g key \<longleftrightarrow> key \<in> set (dg_keepers g)"

definition require_admin :: "DeskConfig \<Rightarrow> bytes \<Rightarrow> string + unit" where
  "require_admin g key = require (desk_admin g key) ''Unauthorized''"

definition require_admin_or_keeper :: "DeskConfig \<Rightarrow> bytes \<Rightarrow> string + unit" where
  "require_admin_or_keeper g key = require (desk_admin g key \<or> desk_keeper g key) ''Unauthorized''"

definition max_age :: "DeskCommodity \<Rightarrow> int" where
  "max_age m = (if dm_status m = STATUS_OPEN then dm_max_age_open m else dm_max_age_closed m)"

section \<open>Circuit breakers\<close>

definition deviation_bps :: "int \<Rightarrow> int \<Rightarrow> int option" where
  "deviation_bps price prev = (if prev = 0 then None
     else Option.bind (u128_mul \<bar>price - prev\<bar> rs_B) (\<lambda>n. Option.bind (rs_ceil_div n prev) rs_to_u64))"

definition deviation_ok :: "int \<Rightarrow> int \<Rightarrow> int \<Rightarrow> int \<Rightarrow> int \<Rightarrow> int \<Rightarrow> bool" where
  "deviation_ok price anchor_price anchor_ts now max_dev window_secs \<longleftrightarrow>
     max_dev = 0 \<or> anchor_price = 0 \<or>
     (let windows = (if window_secs = 0 then 1
            else min (max 0 (saturating_i64 (now - anchor_ts)) div window_secs + 1) MAX_DEVIATION_WINDOWS);
          allowed = min u64_max (max_dev * windows)
      in (case deviation_bps price anchor_price of Some d \<Rightarrow> d \<le> allowed | None \<Rightarrow> False))"

definition should_reanchor :: "int \<Rightarrow> int \<Rightarrow> int \<Rightarrow> int \<Rightarrow> bool" where
  "should_reanchor anchor_price anchor_ts now window_secs \<longleftrightarrow>
     anchor_price = 0 \<or> saturating_i64 (now - anchor_ts) \<ge> window_secs"

definition window_add :: "int \<Rightarrow> int \<Rightarrow> int \<Rightarrow> int \<Rightarrow> int \<Rightarrow> int \<Rightarrow> (int \<times> int) option" where
  "window_add window_start used now window_secs cap amount =
     (let w = (if saturating_i64 (now - window_start) \<ge> window_secs then (now, 0) else (window_start, used));
          new_used = snd w + amount
      in if \<not> in_u64 new_used \<or> (cap > 0 \<and> new_used > cap) then None else Some (fst w, new_used))"

definition window_release :: "int \<Rightarrow> int \<Rightarrow> int" where
  "window_release used amount = max 0 (used - amount)"

section \<open>Oracle adapters\<close>

record OraclePrice =
  op_price :: int
  op_conf :: int
  op_publish_time :: int

record OracleAccounts =
  oc_price_feed :: "bytes option"
  oc_fx_feed :: "bytes option"
  oc_keeper_price :: "bytes option"
  oc_remaining :: "bytes list"

definition age_secs :: "int \<Rightarrow> int \<Rightarrow> int" where
  "age_secs now publish_time = max 0 (saturating_i64 (now - publish_time))"

definition level_ok :: "VerificationLevel \<Rightarrow> int \<Rightarrow> bool" where
  "level_ok level min_signatures = (case level of FullLevel \<Rightarrow> True
     | PartialLevel n \<Rightarrow> min_signatures > 0 \<and> n \<ge> min_signatures)"

definition wanted_level :: "int \<Rightarrow> VerificationLevel" where
  "wanted_level min_signatures = (if min_signatures = 0 then FullLevel else PartialLevel min_signatures)"

definition read_pyth_raw :: "desk_env \<Rightarrow> bytes \<Rightarrow> bytes \<Rightarrow> bytes \<Rightarrow> int \<Rightarrow> int \<Rightarrow> desk_chain \<Rightarrow> string + RawPrice" where
  "read_pyth_raw env key expected feed_id age min_signatures c =
     sbind (require (key = expected) ''InvalidFeed'') (\<lambda>_.
     sbind (some_or (dc_updates c key) ''InvalidFeed'') (\<lambda>u.
     sbind (require (pu_feed_id u = feed_id) ''InvalidFeed'') (\<lambda>_.
     sbind (require (level_ok (pu_level u) min_signatures) ''InvalidFeed'') (\<lambda>_.
     sbind (some_or (de_pyth env u (dc_clock c) age feed_id (wanted_level min_signatures)) ''StaleOracle'') (\<lambda>p.
     sbind (require (rw_price p > 0) ''NonPositivePrice'') (\<lambda>_. Inr p))))))"

definition read_pyth_commodity :: "desk_env \<Rightarrow> DeskCommodity \<Rightarrow> bytes \<Rightarrow> bytes option \<Rightarrow> int \<Rightarrow> desk_chain \<Rightarrow> string + OraclePrice" where
  "read_pyth_commodity env m feed fx_feed age c =
     sbind (read_pyth_raw env feed (dm_feed_account m) (dm_feed_id m) age (dm_pyth_min_signatures m) c) (\<lambda>raw.
     if dm_quote_scale m \<noteq> QUOTE_EUR then
       sbind (some_or (rs_scale_quote (rw_price raw) (rw_expo raw) (dm_quote_scale m) 0 0) ''MathOverflow'') (\<lambda>price.
       sbind (some_or (rs_scale_quote (rw_conf raw) (rw_expo raw) (dm_quote_scale m) 0 0) ''MathOverflow'') (\<lambda>conf.
       Inr \<lparr>op_price = price, op_conf = conf, op_publish_time = rw_publish_time raw\<rparr>))
     else
       sbind (some_or fx_feed ''InvalidFeed'') (\<lambda>fx_info.
       sbind (read_pyth_raw env fx_info (dm_fx_feed_account m) (dm_fx_feed_id m) age (dm_pyth_min_signatures m) c) (\<lambda>fx.
       sbind (some_or (rs_scale_quote (rw_price raw) (rw_expo raw) QUOTE_EUR (rw_price fx) (rw_expo fx)) ''MathOverflow'') (\<lambda>price.
       sbind (some_or (rs_scale_quote (rw_conf raw) (rw_expo raw) QUOTE_EUR (rw_price fx) (rw_expo fx)) ''MathOverflow'') (\<lambda>conf_a.
       let conf_b = (case rs_scale_quote (rw_price raw) (rw_expo raw) QUOTE_EUR (rw_conf fx) (rw_expo fx) of None \<Rightarrow> 0 | Some v \<Rightarrow> v) in
       sbind (checked_u64 (conf_a + conf_b)) (\<lambda>conf.
       Inr \<lparr>op_price = price, op_conf = conf, op_publish_time = min (rw_publish_time raw) (rw_publish_time fx)\<rparr>))))))"

definition read_keeper_price :: "bytes \<Rightarrow> bytes \<Rightarrow> desk_chain \<Rightarrow> string + OraclePrice" where
  "read_keeper_price key commodity c =
     sbind (some_or (dc_prices c key) ''InvalidFeed'') (\<lambda>kp.
     sbind (require (fst kp = commodity) ''InvalidFeed'') (\<lambda>_.
     Inr \<lparr>op_price = kp_price (snd kp), op_conf = kp_conf (snd kp), op_publish_time = kp_publish_time (snd kp)\<rparr>))"

definition read_switchboard :: "DeskCommodity \<Rightarrow> bytes \<Rightarrow> bytes \<Rightarrow> desk_chain \<Rightarrow> string + OraclePrice" where
  "read_switchboard m commodity feed c =
     sbind (require (feed = dm_feed_account m) ''InvalidFeed'') (\<lambda>_. read_keeper_price feed commodity c)"

definition fresh_positive :: "DeskCommodity \<Rightarrow> desk_chain \<Rightarrow> OraclePrice \<Rightarrow> string + OraclePrice" where
  "fresh_positive m c out =
     sbind (require (age_secs (dc_clock c) (op_publish_time out) \<le> max_age m) ''StaleOracle'') (\<lambda>_.
     sbind (require (op_price out > 0) ''NonPositivePrice'') (\<lambda>_. Inr out))"

definition read_leg :: "desk_env \<Rightarrow> DeskCommodity \<Rightarrow> bytes \<Rightarrow> bytes \<Rightarrow> desk_chain \<Rightarrow> string + OraclePrice" where
  "read_leg env leg leg_key source c =
     sbind (require (dm_status leg \<noteq> STATUS_HALTED) ''MarketHalted'') (\<lambda>_.
     sbind (if dm_oracle_kind leg = OracleKind_code PythPull then
              sbind (require (dm_quote_scale leg \<noteq> QUOTE_EUR) ''InvalidLegs'') (\<lambda>_.
              read_pyth_commodity env leg source None (max_age leg) c)
            else if dm_oracle_kind leg = OracleKind_code KeeperSigned then read_keeper_price source leg_key c
            else if dm_oracle_kind leg = OracleKind_code Switchboard then read_switchboard leg leg_key source c
            else Inl ''InvalidLegs'')
       (fresh_positive leg c))"

text \<open>The loop over the legs; the length of the remaining accounts was checked before.\<close>

fun read_legs :: "desk_env \<Rightarrow> bytes \<Rightarrow> IndexLeg list \<Rightarrow> bytes list \<Rightarrow> desk_chain \<Rightarrow> string + OraclePrice list" where
  "read_legs env k [] rest c = Inr []"
| "read_legs env k (leg # legs) (leg_info # source # rest) c =
     sbind (require (leg_info = il_commodity leg) ''InvalidLegs'') (\<lambda>_.
     sbind (require (leg_info \<noteq> k) ''InvalidLegs'') (\<lambda>_.
     sbind (some_or (dc_commodities c leg_info) ''InvalidLegs'') (\<lambda>leg_c.
     sbind (read_leg env leg_c leg_info source c) (\<lambda>p.
     sbind (read_legs env k legs rest c) (\<lambda>ps. Inr (p # ps))))))"
| "read_legs env k (leg # legs) rest c = Inl ''InvalidLegs''"

definition read_composite :: "desk_env \<Rightarrow> DeskCommodity \<Rightarrow> bytes \<Rightarrow> bytes list \<Rightarrow> desk_chain \<Rightarrow> string + OraclePrice" where
  "read_composite env m k remaining c =
     sbind (require (dm_legs m \<noteq> []) ''InvalidLegs'') (\<lambda>_.
     sbind (require (length remaining \<ge> length (dm_legs m) * 2) ''InvalidLegs'') (\<lambda>_.
     sbind (read_legs env k (dm_legs m) remaining c) (\<lambda>ps.
     sbind (some_or (rs_weighted_sum (zip (map op_price ps) (map il_weight_bps (dm_legs m)))) ''InvalidLegs'') (\<lambda>price.
     sbind (some_or (rs_weighted_sum (zip (map op_conf ps) (map il_weight_bps (dm_legs m)))) ''InvalidLegs'') (\<lambda>conf.
     Inr \<lparr>op_price = price, op_conf = conf, op_publish_time = fold (\<lambda>p t. min t (op_publish_time p)) ps I64_MAX\<rparr>)))))"

definition read_price :: "desk_env \<Rightarrow> DeskCommodity \<Rightarrow> bytes \<Rightarrow> OracleAccounts \<Rightarrow> desk_chain \<Rightarrow> string + OraclePrice" where
  "read_price env m k accts c =
     sbind (if dm_oracle_kind m = OracleKind_code PythPull then
              sbind (some_or (oc_price_feed accts) ''InvalidFeed'') (\<lambda>feed.
              read_pyth_commodity env m feed (oc_fx_feed accts) (max_age m) c)
            else if dm_oracle_kind m = OracleKind_code KeeperSigned then
              sbind (some_or (oc_keeper_price accts) ''InvalidFeed'') (\<lambda>kp. read_keeper_price kp k c)
            else if dm_oracle_kind m = OracleKind_code Switchboard then
              sbind (some_or (oc_price_feed accts) ''InvalidFeed'') (\<lambda>feed. read_switchboard m k feed c)
            else if dm_oracle_kind m = OracleKind_code Composite then read_composite env m k (oc_remaining accts) c
            else Inl ''InvalidOracleKind'')
       (fresh_positive m c)"

section \<open>Trades\<close>

record TradeAccounts =
  tr_user :: bytes
  tr_commodity :: bytes
  tr_coin_mint :: bytes
  tr_reserve_vault :: bytes
  tr_user_usdc :: bytes
  tr_user_coin :: bytes
  tr_oracle :: OracleAccounts

text \<open>What the constraints of \<open>TradeAccounts\<close> leave the handlers to work with.\<close>

record trade_ctx =
  tc_config :: DeskConfig
  tc_commodity :: DeskCommodity
  tc_supply :: int
  tc_reserve :: int

abbreviation desk_token :: "desk_chain \<Rightarrow> bytes \<Rightarrow> token_account option" where
  "desk_token c key \<equiv> token_at (tk_accounts (dc_tokens c)) key"

definition trade_context :: "desk_env \<Rightarrow> TradeAccounts \<Rightarrow> desk_chain \<Rightarrow> string + trade_ctx" where
  "trade_context env a c =
     sbind (some_or (dc_config c) ''AccountNotInitialized'') (\<lambda>g.
     sbind (desk_commodity env (tr_commodity a) c) (\<lambda>m.
     sbind (require (dm_coin_mint m = tr_coin_mint a) ''InvalidParams'') (\<lambda>_.
     sbind (require (dm_reserve_vault m = tr_reserve_vault a) ''InvalidParams'') (\<lambda>_.
     sbind (some_or (tk_mints (dc_tokens c) (tr_coin_mint a)) ''AccountNotInitialized'') (\<lambda>mint.
     sbind (some_or (desk_token c (tr_reserve_vault a)) ''AccountNotInitialized'') (\<lambda>vault.
     sbind (some_or (desk_token c (tr_user_usdc a)) ''AccountNotInitialized'') (\<lambda>usdc.
     sbind (require (ta_mint usdc = dg_reserve_mint g) ''InvalidParams'') (\<lambda>_.
     sbind (require (ta_owner usdc = tr_user a) ''Unauthorized'') (\<lambda>_.
     sbind (some_or (desk_token c (tr_user_coin a)) ''AccountNotInitialized'') (\<lambda>coin.
     sbind (require (ta_mint coin = tr_coin_mint a) ''InvalidParams'') (\<lambda>_.
     sbind (require (ta_owner coin = tr_user a) ''Unauthorized'') (\<lambda>_.
     Inr \<lparr>tc_config = g, tc_commodity = m, tc_supply = mi_supply mint, tc_reserve = ta_amount vault\<rparr>))))))))))))"

record DeskQuote =
  qu_price :: int
  qu_publish_time :: int
  qu_spread_bps :: int
  qu_now :: int

definition desk_quote :: "desk_env \<Rightarrow> TradeAccounts \<Rightarrow> trade_ctx \<Rightarrow> bool \<Rightarrow> desk_chain \<Rightarrow> string + DeskQuote" where
  "desk_quote env a t is_buy c =
     (let g = tc_config t; m = tc_commodity t; now = dc_clock c in
     sbind (require (\<not> dg_global_pause g) ''Paused'') (\<lambda>_.
     sbind (if dm_status m = STATUS_OPEN then Inr ()
            else if dm_status m = STATUS_CLOSED then require (\<not> is_buy) ''MarketClosed''
            else if dm_status m = STATUS_HALTED then Inl ''MarketHalted'' else Inl ''InvalidStatus'') (\<lambda>_.
     sbind (read_price env m (tr_commodity a) (tr_oracle a) c) (\<lambda>op.
     sbind (require (op_publish_time op \<ge> dm_last_publish_time m) ''OracleNotMonotonic'') (\<lambda>_.
     sbind (some_or (rs_conf_bps (op_conf op) (op_price op)) ''MathOverflow'') (\<lambda>cbps.
     sbind (require (cbps \<le> dg_max_conf_bps g) ''ConfidenceTooWide'') (\<lambda>_.
     sbind (require (deviation_ok (op_price op) (dm_anchor_price m) (dm_anchor_ts m) now (dm_max_deviation_bps m)
       (dm_deviation_window_secs m)) ''PriceDeviationTooLarge'') (\<lambda>_.
     sbind (some_or (rs_effective_spread_bps (dm_base_spread_bps m) (dm_closed_spread_bps m) (dm_conf_mult_bps m) (op_conf op)
       (op_price op) (age_secs now (op_publish_time op)) (max_age m) (dm_status m)
       (rs_reserve_ratio_bps (tc_reserve t) (tc_supply t) (op_price op)) (dg_reserve_warn_bps g)) ''overflow'') (\<lambda>spread.
     Inr \<lparr>qu_price = op_price op, qu_publish_time = op_publish_time op, qu_spread_bps = spread, qu_now = now\<rparr>)))))))))"

text \<open>What both sides write after the transfers.\<close>

definition after_trade :: "DeskQuote \<Rightarrow> int \<Rightarrow> DeskCommodity \<Rightarrow> DeskCommodity" where
  "after_trade q vault_amount m =
     (let m1 = m\<lparr>dm_reserve_balance_cached := vault_amount, dm_last_publish_time := qu_publish_time q, dm_last_price := qu_price q\<rparr>
      in if should_reanchor (dm_anchor_price m) (dm_anchor_ts m) (qu_now q) (dm_deviation_window_secs m)
         then m1\<lparr>dm_anchor_price := qu_price q, dm_anchor_ts := qu_now q\<rparr> else m1)"

definition alert :: "bytes \<Rightarrow> int \<Rightarrow> int \<Rightarrow> desk_chain \<Rightarrow> desk_chain" where
  "alert k ratio warn c = (if ratio < warn then desk_emit (EvReserveAlert k ratio) c else c)"

definition SIDE_BUY :: int where "SIDE_BUY = 0"
definition SIDE_SELL :: int where "SIDE_SELL = 1"

definition execute_buy :: "desk_env \<Rightarrow> TradeAccounts \<Rightarrow> trade_ctx \<Rightarrow> DeskQuote \<Rightarrow> int \<Rightarrow> int \<Rightarrow> desk_chain \<Rightarrow> string + desk_chain" where
  "execute_buy env a t q usdc_in coin_out c =
     (let g = tc_config t; m = tc_commodity t; k = tr_commodity a in
     sbind (require (usdc_in > 0 \<and> coin_out > 0) ''ZeroAmount'') (\<lambda>_.
     sbind (require (coin_out \<le> dm_per_tx_cap m) ''PerTxCapExceeded'') (\<lambda>_.
     sbind (checked_u64 (tc_supply t + coin_out)) (\<lambda>new_supply.
     sbind (require (new_supply \<le> dm_supply_cap m) ''SupplyCapExceeded'') (\<lambda>_.
     sbind (checked_u64 (tc_reserve t + usdc_in)) (\<lambda>new_reserve.
     let post_ratio = rs_reserve_ratio_bps new_reserve new_supply (qu_price q) in
     sbind (require (post_ratio \<ge> dg_reserve_halt_bps g) ''ReserveRatioTooLow'') (\<lambda>_.
     sbind (some_or (window_add (dm_window_start m) (dm_window_minted m) (qu_now q) DAILY_WINDOW_SECS (dm_daily_mint_cap m) coin_out)
       ''DailyMintCapExceeded'') (\<lambda>w.
     let m1 = m\<lparr>dm_window_redeemed := (if fst w \<noteq> dm_window_start m then 0 else dm_window_redeemed m),
       dm_window_start := fst w, dm_window_minted := snd w\<rparr> in
     sbind (sp_transfer (de_tokens env) (tr_user_usdc a) (tr_reserve_vault a) (tr_user a) usdc_in (dc_tokens c)) (\<lambda>tk1.
     sbind (sp_mint_to (de_tokens env) (tr_coin_mint a) (tr_user_coin a) (mint_auth_address env) coin_out tk1) (\<lambda>tk2.
     sbind (some_or (token_at (tk_accounts tk2) (tr_reserve_vault a)) ''AccountNotInitialized'') (\<lambda>vault.
     let m2 = after_trade q (ta_amount vault) (m1\<lparr>dm_window_redeemed := window_release (dm_window_redeemed m1) usdc_in\<rparr>) in
     Inr (alert k post_ratio (dg_reserve_warn_bps g)
       (desk_emit (EvTrade k (tr_user a) SIDE_BUY usdc_in coin_out (qu_price q) (qu_spread_bps q))
         (desk_store k m2 (c\<lparr>dc_tokens := tk2\<rparr>)))))))))))))))"

definition desk_buy :: "desk_env \<Rightarrow> TradeAccounts \<Rightarrow> int \<Rightarrow> int \<Rightarrow> desk_chain \<Rightarrow> string + desk_chain" where
  "desk_buy env a usdc_in min_coin_out c =
     sbind (trade_context env a c) (\<lambda>t.
     sbind (require (usdc_in > 0) ''ZeroAmount'') (\<lambda>_.
     sbind (desk_quote env a t True c) (\<lambda>q.
     sbind (some_or (rs_ask (qu_price q) (qu_spread_bps q)) ''MathOverflow'') (\<lambda>ask.
     sbind (some_or (rs_coin_out_for_usdc usdc_in ask) ''MathOverflow'') (\<lambda>coin_out.
     sbind (require (coin_out \<ge> min_coin_out) ''SlippageExceeded'') (\<lambda>_.
     execute_buy env a t q usdc_in coin_out c))))))"

definition desk_buy_exact_out :: "desk_env \<Rightarrow> TradeAccounts \<Rightarrow> int \<Rightarrow> int \<Rightarrow> desk_chain \<Rightarrow> string + desk_chain" where
  "desk_buy_exact_out env a coin_out max_usdc_in c =
     sbind (trade_context env a c) (\<lambda>t.
     sbind (require (coin_out > 0) ''ZeroAmount'') (\<lambda>_.
     sbind (desk_quote env a t True c) (\<lambda>q.
     sbind (some_or (rs_ask (qu_price q) (qu_spread_bps q)) ''MathOverflow'') (\<lambda>ask.
     sbind (some_or (rs_usdc_in_for_coin coin_out ask) ''MathOverflow'') (\<lambda>usdc_in.
     sbind (require (usdc_in \<le> max_usdc_in) ''SlippageExceeded'') (\<lambda>_.
     execute_buy env a t q usdc_in coin_out c))))))"

definition redeem_exempt :: "DeskConfig \<Rightarrow> bytes \<Rightarrow> bool" where
  "redeem_exempt g user \<longleftrightarrow> dg_redeem_cap_exempt g \<noteq> PUBKEY_DEFAULT \<and> user = dg_redeem_cap_exempt g"

definition execute_sell :: "desk_env \<Rightarrow> TradeAccounts \<Rightarrow> trade_ctx \<Rightarrow> DeskQuote \<Rightarrow> int \<Rightarrow> int \<Rightarrow> desk_chain \<Rightarrow> string + desk_chain" where
  "execute_sell env a t q coin_in usdc_out c =
     (let g = tc_config t; m = tc_commodity t; k = tr_commodity a; exempt = redeem_exempt g (tr_user a) in
     sbind (require (coin_in \<le> dm_per_tx_cap m) ''PerTxCapExceeded'') (\<lambda>_.
     sbind (require (usdc_out \<le> tc_reserve t) ''ReserveInsufficient'') (\<lambda>_.
     sbind (some_or (window_add (dm_window_start m) (dm_window_redeemed m) (qu_now q) DAILY_WINDOW_SECS
       (if exempt then 0 else dm_daily_redeem_cap m) (if exempt then 0 else usdc_out)) ''DailyRedeemCapExceeded'') (\<lambda>w.
     let m1 = m\<lparr>dm_window_minted := (if fst w \<noteq> dm_window_start m then 0 else dm_window_minted m),
       dm_window_start := fst w, dm_window_redeemed := snd w\<rparr> in
     sbind (sp_burn (de_tokens env) (tr_coin_mint a) (tr_user_coin a) (tr_user a) coin_in (dc_tokens c)) (\<lambda>tk1.
     sbind (sp_transfer (de_tokens env) (tr_reserve_vault a) (tr_user_usdc a) k usdc_out tk1) (\<lambda>tk2.
     sbind (some_or (token_at (tk_accounts tk2) (tr_reserve_vault a)) ''AccountNotInitialized'') (\<lambda>vault.
     sbind (some_or (tk_mints tk2 (tr_coin_mint a)) ''AccountNotInitialized'') (\<lambda>mint.
     let post_ratio = rs_reserve_ratio_bps (ta_amount vault) (mi_supply mint) (qu_price q);
       m2 = after_trade q (ta_amount vault) (m1\<lparr>dm_window_minted := window_release (dm_window_minted m1) coin_in\<rparr>) in
     Inr (alert k post_ratio (dg_reserve_warn_bps g)
       (desk_emit (EvTrade k (tr_user a) SIDE_SELL usdc_out coin_in (qu_price q) (qu_spread_bps q))
         (desk_store k m2 (c\<lparr>dc_tokens := tk2\<rparr>))))))))))))"

definition desk_sell :: "desk_env \<Rightarrow> TradeAccounts \<Rightarrow> int \<Rightarrow> int \<Rightarrow> desk_chain \<Rightarrow> string + desk_chain" where
  "desk_sell env a coin_in min_usdc_out c =
     sbind (trade_context env a c) (\<lambda>t.
     sbind (require (coin_in > 0) ''ZeroAmount'') (\<lambda>_.
     sbind (desk_quote env a t False c) (\<lambda>q.
     sbind (some_or (rs_bid (qu_price q) (qu_spread_bps q)) ''MathOverflow'') (\<lambda>bid.
     sbind (some_or (rs_usdc_out_for_coin coin_in bid) ''MathOverflow'') (\<lambda>usdc_out.
     sbind (require (usdc_out > 0) ''ZeroAmount'') (\<lambda>_.
     sbind (require (usdc_out \<ge> min_usdc_out) ''SlippageExceeded'') (\<lambda>_.
     execute_sell env a t q coin_in usdc_out c)))))))"

section \<open>The reserve\<close>

record SweepAccounts =
  sa_authority :: bytes
  sa_commodity :: bytes
  sa_coin_mint :: bytes
  sa_reserve_vault :: bytes
  sa_treasury_usdc :: bytes

definition oracle_age_ok :: "int \<Rightarrow> int \<Rightarrow> int \<Rightarrow> bool" where
  "oracle_age_ok now publish_time age \<longleftrightarrow> saturating_i64 (now - publish_time) \<le> age"

definition sweep_allowed :: "DeskConfig \<Rightarrow> DeskCommodity \<Rightarrow> int \<Rightarrow> int \<Rightarrow> int \<Rightarrow> string + unit" where
  "sweep_allowed g m supply remaining now =
     (if supply > 0 then
        sbind (require (dm_last_price m > 0) ''StaleOracle'') (\<lambda>_.
        sbind (require (oracle_age_ok now (dm_last_publish_time m) (max_age m)) ''StaleOracle'') (\<lambda>_.
        require (rs_reserve_ratio_bps remaining supply (dm_last_price m) \<ge> dg_reserve_warn_bps g) ''ReserveRatioTooLow''))
      else Inr ())"

definition sweep_spread_fees :: "desk_env \<Rightarrow> SweepAccounts \<Rightarrow> int \<Rightarrow> desk_chain \<Rightarrow> string + desk_chain" where
  "sweep_spread_fees env a amount c =
     sbind (some_or (dc_config c) ''AccountNotInitialized'') (\<lambda>g.
     sbind (desk_commodity env (sa_commodity a) c) (\<lambda>m.
     sbind (require (dm_coin_mint m = sa_coin_mint a) ''InvalidParams'') (\<lambda>_.
     sbind (require (dm_reserve_vault m = sa_reserve_vault a) ''InvalidParams'') (\<lambda>_.
     sbind (some_or (tk_mints (dc_tokens c) (sa_coin_mint a)) ''AccountNotInitialized'') (\<lambda>mint.
     sbind (some_or (desk_token c (sa_reserve_vault a)) ''AccountNotInitialized'') (\<lambda>vault.
     sbind (some_or (desk_token c (sa_treasury_usdc a)) ''AccountNotInitialized'') (\<lambda>tusdc.
     sbind (require (ta_mint tusdc = dg_reserve_mint g) ''InvalidParams'') (\<lambda>_.
     sbind (require (ta_owner tusdc = dg_treasury g) ''Unauthorized'') (\<lambda>_.
     sbind (require_admin_or_keeper g (sa_authority a)) (\<lambda>_.
     sbind (require (\<not> dg_global_pause g) ''Paused'') (\<lambda>_.
     sbind (require (amount > 0) ''ZeroAmount'') (\<lambda>_.
     sbind (require (amount \<le> ta_amount vault) ''ReserveInsufficient'') (\<lambda>_.
     sbind (sweep_allowed g m (mi_supply mint) (ta_amount vault - amount) (dc_clock c)) (\<lambda>_.
     sbind (sp_transfer (de_tokens env) (sa_reserve_vault a) (sa_treasury_usdc a) (sa_commodity a) amount (dc_tokens c)) (\<lambda>tk.
     sbind (some_or (token_at (tk_accounts tk) (sa_reserve_vault a)) ''AccountNotInitialized'') (\<lambda>vault2.
     Inr (desk_emit (EvSpreadFeesSwept (sa_commodity a) amount (sa_treasury_usdc a))
       (desk_store (sa_commodity a) (m\<lparr>dm_reserve_balance_cached := ta_amount vault2\<rparr>) (c\<lparr>dc_tokens := tk\<rparr>)))))))))))))))))))"

record DepositAccounts =
  ds_depositor :: bytes
  ds_commodity :: bytes
  ds_reserve_vault :: bytes
  ds_from :: bytes

definition deposit_reserve :: "desk_env \<Rightarrow> DepositAccounts \<Rightarrow> int \<Rightarrow> desk_chain \<Rightarrow> string + desk_chain" where
  "deposit_reserve env a amount c =
     sbind (desk_commodity env (ds_commodity a) c) (\<lambda>m.
     sbind (require (dm_reserve_vault m = ds_reserve_vault a) ''InvalidParams'') (\<lambda>_.
     sbind (some_or (desk_token c (ds_reserve_vault a)) ''AccountNotInitialized'') (\<lambda>vault.
     sbind (some_or (desk_token c (ds_from a)) ''AccountNotInitialized'') (\<lambda>src.
     sbind (require (ta_mint src = ta_mint vault) ''InvalidParams'') (\<lambda>_.
     sbind (require (ta_owner src = ds_depositor a) ''Unauthorized'') (\<lambda>_.
     sbind (require (amount > 0) ''ZeroAmount'') (\<lambda>_.
     sbind (sp_transfer (de_tokens env) (ds_from a) (ds_reserve_vault a) (ds_depositor a) amount (dc_tokens c)) (\<lambda>tk.
     sbind (some_or (token_at (tk_accounts tk) (ds_reserve_vault a)) ''AccountNotInitialized'') (\<lambda>vault2.
     Inr (desk_emit (EvReserveDeposited (ds_commodity a) (ds_from a) amount)
       (desk_store (ds_commodity a) (m\<lparr>dm_reserve_balance_cached := ta_amount vault2\<rparr>) (c\<lparr>dc_tokens := tk\<rparr>))))))))))))"

section \<open>Configuration\<close>

text \<open>\<open>require_upgrade_authority\<close>: the program's ProgramData names the payer.\<close>

definition require_upgrade_authority :: "desk_env \<Rightarrow> bytes \<Rightarrow> bytes \<Rightarrow> bytes \<Rightarrow> desk_chain \<Rightarrow> string + unit" where
  "require_upgrade_authority env program program_data payer c =
     sbind (some_or (dc_raw c program) ''AccountNotFound'') (\<lambda>p.
     if fst p \<noteq> BPF_LOADER_UPGRADEABLE (de_w3 env) then Inr ()
     else sbind (require (program_data = fst (w3_find (de_w3 env) [program] (BPF_LOADER_UPGRADEABLE (de_w3 env)))) ''NotUpgradeAuthority'') (\<lambda>_.
       let data = (case dc_raw c program_data of None \<Rightarrow> [] | Some d \<Rightarrow> snd d) in
       sbind (require (length data \<ge> 45 \<and> take 4 data = [3, 0, 0, 0] \<and> data ! 12 = 1) ''NotUpgradeAuthority'') (\<lambda>_.
       require (take 32 (drop 13 data) = payer) ''NotUpgradeAuthority'')))"

record InitConfigAccounts =
  ia_payer :: bytes
  ia_program :: bytes
  ia_program_data :: bytes
  ia_reserve_mint :: bytes
  ia_treasury :: bytes

definition initialize_config :: "desk_env \<Rightarrow> InitConfigAccounts \<Rightarrow> int \<Rightarrow> int \<Rightarrow> int \<Rightarrow> desk_chain \<Rightarrow> string + desk_chain" where
  "initialize_config env a max_conf_bps reserve_warn_bps reserve_halt_bps c =
     sbind (require (dc_config c = None) ''AlreadyInUse'') (\<lambda>_.
     sbind (require (ia_program a = de_program env) ''NotUpgradeAuthority'') (\<lambda>_.
     sbind (some_or (tk_mints (dc_tokens c) (ia_reserve_mint a)) ''AccountNotInitialized'') (\<lambda>mint.
     sbind (require (mi_decimals mint = 6) ''InvalidParams'') (\<lambda>_.
     sbind (require_upgrade_authority env (ia_program a) (ia_program_data a) (ia_payer a) c) (\<lambda>_.
     sbind (require (max_conf_bps > 0 \<and> max_conf_bps \<le> DESK_BPS) ''InvalidParams'') (\<lambda>_.
     sbind (require (reserve_halt_bps \<le> reserve_warn_bps) ''InvalidParams'') (\<lambda>_.
     Inr (desk_emit (EvConfigInitialized (ia_payer a) (ia_reserve_mint a) (ia_treasury a))
       (c\<lparr>dc_config := Some \<lparr>dg_admin = ia_payer a, dg_pending_admin = PUBKEY_DEFAULT, dg_keepers = [],
         dg_treasury = ia_treasury a, dg_reserve_mint = ia_reserve_mint a, dg_global_pause = False,
         dg_max_conf_bps = max_conf_bps, dg_reserve_warn_bps = reserve_warn_bps, dg_reserve_halt_bps = reserve_halt_bps,
         dg_redeem_cap_exempt = PUBKEY_DEFAULT\<rparr>\<rparr>)))))))))"

text \<open>The accounts of \<open>AdminConfig\<close>.\<close>

definition admin_config :: "bytes \<Rightarrow> desk_chain \<Rightarrow> string + DeskConfig" where
  "admin_config admin c =
     sbind (some_or (dc_config c) ''AccountNotInitialized'') (\<lambda>g.
     sbind (require (dg_admin g = admin) ''Unauthorized'') (\<lambda>_. Inr g))"

definition desk_set_keepers :: "bytes \<Rightarrow> bytes list \<Rightarrow> desk_chain \<Rightarrow> string + desk_chain" where
  "desk_set_keepers admin keepers c =
     sbind (admin_config admin c) (\<lambda>g.
     sbind (require (length keepers \<le> DESK_MAX_KEEPERS) ''TooManyKeepers'') (\<lambda>_.
     sbind (require (PUBKEY_DEFAULT \<notin> set keepers \<and> distinct keepers) ''InvalidParams'') (\<lambda>_.
     Inr (desk_emit (EvKeepersSet keepers) (c\<lparr>dc_config := Some (g\<lparr>dg_keepers := keepers\<rparr>)\<rparr>)))))"

definition propose_admin :: "bytes \<Rightarrow> bytes \<Rightarrow> desk_chain \<Rightarrow> string + desk_chain" where
  "propose_admin admin new_admin c =
     sbind (admin_config admin c) (\<lambda>g.
     Inr (desk_emit (EvAdminProposed (dg_admin g) new_admin) (c\<lparr>dc_config := Some (g\<lparr>dg_pending_admin := new_admin\<rparr>)\<rparr>)))"

definition accept_admin :: "bytes \<Rightarrow> desk_chain \<Rightarrow> string + desk_chain" where
  "accept_admin pending c =
     sbind (some_or (dc_config c) ''AccountNotInitialized'') (\<lambda>g.
     sbind (require (dg_pending_admin g = pending) ''Unauthorized'') (\<lambda>_.
     sbind (require (dg_pending_admin g \<noteq> PUBKEY_DEFAULT) ''Unauthorized'') (\<lambda>_.
     Inr (desk_emit (EvAdminChanged (dg_admin g) pending)
       (c\<lparr>dc_config := Some (g\<lparr>dg_admin := pending, dg_pending_admin := PUBKEY_DEFAULT\<rparr>)\<rparr>)))))"

definition set_global_pause :: "bytes \<Rightarrow> bool \<Rightarrow> desk_chain \<Rightarrow> string + desk_chain" where
  "set_global_pause who paused c =
     sbind (some_or (dc_config c) ''AccountNotInitialized'') (\<lambda>g.
     sbind (if paused then require_admin_or_keeper g who else require_admin g who) (\<lambda>_.
     Inr (desk_emit (EvGlobalPauseSet paused who) (c\<lparr>dc_config := Some (g\<lparr>dg_global_pause := paused\<rparr>)\<rparr>))))"

definition set_redeem_cap_exempt :: "bytes \<Rightarrow> bytes \<Rightarrow> desk_chain \<Rightarrow> string + desk_chain" where
  "set_redeem_cap_exempt admin exempt c =
     sbind (admin_config admin c) (\<lambda>g. Inr (c\<lparr>dc_config := Some (g\<lparr>dg_redeem_cap_exempt := exempt\<rparr>)\<rparr>))"

section \<open>Commodities\<close>

definition symbol_end :: "bytes \<Rightarrow> nat" where
  "symbol_end symbol = length (takeWhile (\<lambda>b. b \<noteq> 0) symbol)"

definition validate_symbol :: "bytes \<Rightarrow> bool" where
  "validate_symbol symbol \<longleftrightarrow> symbol_end symbol \<noteq> 0 \<and>
     list_all (\<lambda>b. (65 \<le> b \<and> b \<le> 90) \<or> (48 \<le> b \<and> b \<le> 57)) (take (symbol_end symbol) symbol) \<and>
     list_all (\<lambda>b. b = 0) (drop (symbol_end symbol) symbol)"

definition symbol_string :: "bytes \<Rightarrow> string" where
  "symbol_string symbol = map (\<lambda>b. char_of (unat b)) (take (symbol_end symbol) symbol)"

definition desk_oracle_kind :: "int \<Rightarrow> string + int" where
  "desk_oracle_kind v = sbind (require (0 \<le> v \<and> v \<le> 3) ''InvalidOracleKind'') (\<lambda>_. Inr v)"

definition session_kind_ok :: "int \<Rightarrow> bool" where
  "session_kind_ok v \<longleftrightarrow> 0 \<le> v \<and> v \<le> 4"

definition validate_market_params :: "DeskCommodity \<Rightarrow> string + unit" where
  "validate_market_params m =
     sbind (require (dm_base_spread_bps m \<le> rs_MAX_SPREAD_BPS \<and> dm_closed_spread_bps m \<le> rs_MAX_SPREAD_BPS) ''InvalidParams'') (\<lambda>_.
     sbind (require (dm_max_age_open m > 0 \<and> dm_max_age_closed m > 0) ''InvalidParams'') (\<lambda>_.
     require (dm_per_tx_cap m \<le> dm_supply_cap m) ''InvalidParams''))"

record CreateCommodityArgs =
  cc_symbol :: bytes
  cc_oracle_kind :: int
  cc_session_kind :: int
  cc_feed_id :: bytes
  cc_feed_account :: bytes
  cc_fx_feed_id :: bytes
  cc_fx_feed_account :: bytes
  cc_quote_scale :: int
  cc_base_spread_bps :: int
  cc_closed_spread_bps :: int
  cc_conf_mult_bps :: int
  cc_max_age_open :: int
  cc_max_age_closed :: int
  cc_supply_cap :: int
  cc_per_tx_cap :: int
  cc_pyth_min_signatures :: int
  cc_name :: string
  cc_uri :: string

record CreateAccounts =
  ca_admin :: bytes
  ca_reserve_mint :: bytes
  ca_commodity :: bytes
  ca_coin_mint :: bytes
  ca_reserve_vault :: bytes

definition new_commodity_account :: "CreateAccounts \<Rightarrow> CreateCommodityArgs \<Rightarrow> DeskCommodity" where
  "new_commodity_account a args = \<lparr>dm_symbol = cc_symbol args, dm_coin_mint = ca_coin_mint a, dm_oracle_kind = cc_oracle_kind args,
     dm_session_kind = cc_session_kind args, dm_status = STATUS_OPEN, dm_feed_id = cc_feed_id args,
     dm_feed_account = cc_feed_account args, dm_fx_feed_id = cc_fx_feed_id args, dm_fx_feed_account = cc_fx_feed_account args,
     dm_quote_scale = cc_quote_scale args, dm_base_spread_bps = cc_base_spread_bps args, dm_closed_spread_bps = cc_closed_spread_bps args,
     dm_conf_mult_bps = cc_conf_mult_bps args, dm_max_age_open = cc_max_age_open args, dm_max_age_closed = cc_max_age_closed args,
     dm_supply_cap = cc_supply_cap args, dm_per_tx_cap = cc_per_tx_cap args, dm_last_publish_time = 0, dm_last_price = 0,
     dm_reserve_vault = ca_reserve_vault a, dm_reserve_balance_cached = 0, dm_legs = [],
     dm_pyth_min_signatures = cc_pyth_min_signatures args, dm_daily_mint_cap = 0, dm_daily_redeem_cap = 0, dm_window_start = 0,
     dm_window_minted = 0, dm_window_redeemed = 0, dm_max_deviation_bps = 0, dm_deviation_window_secs = 0,
     dm_anchor_price = 0, dm_anchor_ts = 0\<rparr>"

text \<open>The accounts \<open>init\<close> makes: the mint with the program's authority and the vault of the commodity.\<close>

definition created_tokens :: "desk_env \<Rightarrow> CreateAccounts \<Rightarrow> token_state \<Rightarrow> token_state" where
  "created_tokens env a tk = tk\<lparr>tk_mints := (tk_mints tk)(ca_coin_mint a \<mapsto> \<lparr>mi_supply = 0, mi_decimals = 6\<rparr>),
     tk_accounts := (tk_accounts tk)(ca_reserve_vault a \<mapsto> \<lparr>ac_program = TOKEN_PROGRAM (de_w3 env),
       ac_token = Some \<lparr>ta_mint = ca_reserve_mint a, ta_owner = ca_commodity a, ta_amount = 0\<rparr>\<rparr>)\<rparr>"

definition create_commodity :: "desk_env \<Rightarrow> CreateAccounts \<Rightarrow> CreateCommodityArgs \<Rightarrow> desk_chain \<Rightarrow> string + desk_chain" where
  "create_commodity env a args c =
     sbind (some_or (dc_config c) ''AccountNotInitialized'') (\<lambda>g.
     sbind (require (dg_admin g = ca_admin a) ''Unauthorized'') (\<lambda>_.
     sbind (require (dg_reserve_mint g = ca_reserve_mint a) ''InvalidParams'') (\<lambda>_.
     sbind (some_or (tk_mints (dc_tokens c) (ca_reserve_mint a)) ''AccountNotInitialized'') (\<lambda>_.
     sbind (require (ca_commodity a = commodity_address env (cc_symbol args)) ''ConstraintSeeds'') (\<lambda>_.
     sbind (require (dc_commodities c (ca_commodity a) = None) ''AlreadyInUse'') (\<lambda>_.
     sbind (require (tk_mints (dc_tokens c) (ca_coin_mint a) = None \<and> tk_accounts (dc_tokens c) (ca_coin_mint a) = None) ''AlreadyInUse'') (\<lambda>_.
     sbind (require (ca_reserve_vault a = reserve_address env (ca_commodity a)) ''ConstraintSeeds'') (\<lambda>_.
     sbind (require (tk_accounts (dc_tokens c) (ca_reserve_vault a) = None) ''AlreadyInUse'') (\<lambda>_.
     sbind (require (validate_symbol (cc_symbol args)) ''InvalidSymbol'') (\<lambda>_.
     sbind (desk_oracle_kind (cc_oracle_kind args)) (\<lambda>kind.
     sbind (require (session_kind_ok (cc_session_kind args)) ''InvalidParams'') (\<lambda>_.
     sbind (require (cc_quote_scale args \<le> QUOTE_EUR) ''InvalidParams'') (\<lambda>_.
     sbind (require (cc_quote_scale args = QUOTE_EUR \<longrightarrow> kind = OracleKind_code PythPull) ''InvalidOracleKind'') (\<lambda>_.
     let m = new_commodity_account a args in
     sbind (validate_market_params m) (\<lambda>_.
     sbind (require (cc_name args \<noteq> [] \<and> length (cc_name args) \<le> MAX_NAME_LEN) ''InvalidParams'') (\<lambda>_.
     sbind (require (length (cc_uri args) \<le> MAX_URI_LEN) ''InvalidParams'') (\<lambda>_.
     sbind (de_metaplex env (ca_coin_mint a) (cc_name args) (symbol_string (cc_symbol args)) (cc_uri args)) (\<lambda>_.
     Inr (desk_emit (EvCommodityCreated (ca_commodity a) (cc_symbol args) (ca_coin_mint a))
       (desk_store (ca_commodity a) m (c\<lparr>dc_tokens := created_tokens env a (dc_tokens c)\<rparr>)))))))))))))))))))))"

text \<open>The accounts of \<open>UpdateCommodity\<close>.\<close>

definition update_commodity :: "desk_env \<Rightarrow> bytes \<Rightarrow> desk_chain \<Rightarrow> string + (DeskConfig \<times> DeskCommodity)" where
  "update_commodity env k c =
     sbind (some_or (dc_config c) ''AccountNotInitialized'') (\<lambda>g.
     sbind (desk_commodity env k c) (\<lambda>m. Inr (g, m)))"

record SetParamsArgs =
  sr_session_kind :: "int option"
  sr_feed_id :: "bytes option"
  sr_fx_feed_id :: "bytes option"
  sr_quote_scale :: "int option"
  sr_base_spread_bps :: "int option"
  sr_closed_spread_bps :: "int option"
  sr_conf_mult_bps :: "int option"
  sr_max_age_open :: "int option"
  sr_max_age_closed :: "int option"
  sr_supply_cap :: "int option"
  sr_per_tx_cap :: "int option"
  sr_pyth_min_signatures :: "int option"
  sr_daily_mint_cap :: "int option"
  sr_daily_redeem_cap :: "int option"
  sr_max_deviation_bps :: "int option"
  sr_deviation_window_secs :: "int option"

definition given :: "'v option \<Rightarrow> 'v \<Rightarrow> 'v" where
  "given x old = (case x of None \<Rightarrow> old | Some v \<Rightarrow> v)"

definition with_params :: "SetParamsArgs \<Rightarrow> DeskCommodity \<Rightarrow> DeskCommodity" where
  "with_params r m = m\<lparr>dm_session_kind := given (sr_session_kind r) (dm_session_kind m),
     dm_feed_id := given (sr_feed_id r) (dm_feed_id m), dm_fx_feed_id := given (sr_fx_feed_id r) (dm_fx_feed_id m),
     dm_quote_scale := given (sr_quote_scale r) (dm_quote_scale m),
     dm_base_spread_bps := given (sr_base_spread_bps r) (dm_base_spread_bps m),
     dm_closed_spread_bps := given (sr_closed_spread_bps r) (dm_closed_spread_bps m),
     dm_conf_mult_bps := given (sr_conf_mult_bps r) (dm_conf_mult_bps m),
     dm_max_age_open := given (sr_max_age_open r) (dm_max_age_open m),
     dm_max_age_closed := given (sr_max_age_closed r) (dm_max_age_closed m),
     dm_supply_cap := given (sr_supply_cap r) (dm_supply_cap m), dm_per_tx_cap := given (sr_per_tx_cap r) (dm_per_tx_cap m),
     dm_pyth_min_signatures := given (sr_pyth_min_signatures r) (dm_pyth_min_signatures m),
     dm_daily_mint_cap := given (sr_daily_mint_cap r) (dm_daily_mint_cap m),
     dm_daily_redeem_cap := given (sr_daily_redeem_cap r) (dm_daily_redeem_cap m),
     dm_max_deviation_bps := given (sr_max_deviation_bps r) (dm_max_deviation_bps m),
     dm_deviation_window_secs := given (sr_deviation_window_secs r) (dm_deviation_window_secs m)\<rparr>"

definition set_commodity_params :: "desk_env \<Rightarrow> bytes \<Rightarrow> bytes \<Rightarrow> SetParamsArgs \<Rightarrow> desk_chain \<Rightarrow> string + desk_chain" where
  "set_commodity_params env who k args c =
     sbind (update_commodity env k c) (\<lambda>(g, m).
     sbind (require_admin g who) (\<lambda>_.
     sbind (require (case sr_session_kind args of None \<Rightarrow> True | Some v \<Rightarrow> session_kind_ok v) ''InvalidParams'') (\<lambda>_.
     sbind (require (case sr_quote_scale args of None \<Rightarrow> True | Some v \<Rightarrow> v \<le> QUOTE_EUR) ''InvalidParams'') (\<lambda>_.
     sbind (require (sr_quote_scale args = Some QUOTE_EUR \<longrightarrow> dm_oracle_kind m = OracleKind_code PythPull) ''InvalidOracleKind'') (\<lambda>_.
     sbind (require (case sr_max_deviation_bps args of None \<Rightarrow> True | Some v \<Rightarrow> v \<le> MAX_DEVIATION_BPS) ''InvalidParams'') (\<lambda>_.
     sbind (validate_market_params (with_params args m)) (\<lambda>_.
     Inr (desk_emit (EvParamsUpdated k) (desk_store k (with_params args m) c)))))))))"

definition desk_set_feed_account :: "desk_env \<Rightarrow> bytes \<Rightarrow> bytes \<Rightarrow> bytes \<Rightarrow> bytes \<Rightarrow> desk_chain \<Rightarrow> string + desk_chain" where
  "desk_set_feed_account env who k feed fx c =
     sbind (update_commodity env k c) (\<lambda>(g, m).
     sbind (require_admin_or_keeper g who) (\<lambda>_.
     Inr (desk_emit (EvParamsUpdated k) (desk_store k (m\<lparr>dm_feed_account := feed, dm_fx_feed_account := fx\<rparr>) c))))"

definition clear_price_anchor :: "desk_env \<Rightarrow> bytes \<Rightarrow> bytes \<Rightarrow> desk_chain \<Rightarrow> string + desk_chain" where
  "clear_price_anchor env who k c =
     sbind (update_commodity env k c) (\<lambda>(g, m).
     sbind (require_admin g who) (\<lambda>_.
     Inr (desk_emit (EvParamsUpdated k) (desk_store k (m\<lparr>dm_anchor_price := 0, dm_anchor_ts := 0\<rparr>) c))))"

definition desk_set_status :: "desk_env \<Rightarrow> bytes \<Rightarrow> bytes \<Rightarrow> int \<Rightarrow> desk_chain \<Rightarrow> string + desk_chain" where
  "desk_set_status env who k status c =
     sbind (update_commodity env k c) (\<lambda>(g, m).
     sbind (require (desk_admin g who \<or> desk_keeper g who) ''Unauthorized'') (\<lambda>_.
     sbind (some_or (Status_from_u8 status) ''InvalidStatus'') (\<lambda>new.
     sbind (some_or (Status_from_u8 (dm_status m)) ''InvalidStatus'') (\<lambda>cur.
     sbind (require (desk_admin g who \<or> keeper_may cur new) ''Unauthorized'') (\<lambda>_.
     Inr (desk_emit (EvStatusChanged k status) (desk_store k (m\<lparr>dm_status := status\<rparr>) c)))))))"

text \<open>The loop over the new legs: \<open>seen\<close> are the legs before, \<open>weight\<close> their sum.\<close>

fun check_legs :: "bytes \<Rightarrow> bytes list \<Rightarrow> IndexLeg list \<Rightarrow> bytes list \<Rightarrow> int \<Rightarrow> desk_chain \<Rightarrow> string + int" where
  "check_legs k seen [] remaining weight c = Inr weight"
| "check_legs k seen (leg # legs) [] weight c = Inl ''InvalidLegs''"
| "check_legs k seen (leg # legs) (info # remaining) weight c =
     sbind (require (il_weight_bps leg > 0) ''InvalidLegs'') (\<lambda>_.
     sbind (require (il_commodity leg \<noteq> k) ''InvalidLegs'') (\<lambda>_.
     sbind (require (il_commodity leg \<notin> set seen) ''InvalidLegs'') (\<lambda>_.
     sbind (require (info = il_commodity leg) ''InvalidLegs'') (\<lambda>_.
     sbind (some_or (dc_commodities c info) ''InvalidLegs'') (\<lambda>leg_c.
     sbind (require (dm_oracle_kind leg_c \<noteq> OracleKind_code Composite) ''InvalidLegs'') (\<lambda>_.
     sbind (require (dm_quote_scale leg_c \<noteq> QUOTE_EUR) ''InvalidLegs'') (\<lambda>_.
     check_legs k (il_commodity leg # seen) legs remaining (weight + il_weight_bps leg) c)))))))"

definition set_index_legs :: "desk_env \<Rightarrow> bytes \<Rightarrow> bytes \<Rightarrow> IndexLeg list \<Rightarrow> bytes list \<Rightarrow> desk_chain \<Rightarrow> string + desk_chain" where
  "set_index_legs env who k legs remaining c =
     sbind (update_commodity env k c) (\<lambda>(g, m).
     sbind (require_admin g who) (\<lambda>_.
     sbind (require (dm_oracle_kind m = OracleKind_code Composite) ''InvalidOracleKind'') (\<lambda>_.
     sbind (require (legs \<noteq> [] \<and> length legs \<le> MAX_LEGS) ''InvalidLegs'') (\<lambda>_.
     sbind (require (length remaining \<ge> length legs) ''InvalidLegs'') (\<lambda>_.
     sbind (check_legs k [] legs remaining 0 c) (\<lambda>weight_sum.
     sbind (require (weight_sum = DESK_BPS) ''InvalidLegs'') (\<lambda>_.
     Inr (desk_emit (EvParamsUpdated k) (desk_store k (m\<lparr>dm_legs := legs\<rparr>) c)))))))))"

section \<open>Keeper prices\<close>

definition desk_keeper_update_price :: "desk_env \<Rightarrow> KeeperUpdate \<Rightarrow> desk_chain \<Rightarrow> string + desk_chain" where
  "desk_keeper_update_price env a c =
     (let k = ku_commodity a; address = price_address env k; now = dc_clock c in
     sbind (update_commodity env k c) (\<lambda>(g, m).
     sbind (require (desk_keeper g (ku_keeper a)) ''Unauthorized'') (\<lambda>_.
     sbind (require (dm_oracle_kind m = OracleKind_code KeeperSigned \<or> dm_oracle_kind m = OracleKind_code Switchboard)
       ''InvalidOracleKind'') (\<lambda>_.
     sbind (require (ku_price a > 0) ''NonPositivePrice'') (\<lambda>_.
     sbind (require (ku_conf a < ku_price a) ''ConfidenceTooWide'') (\<lambda>_.
     sbind (require (ku_publish_time a \<ge> 0 \<and> ku_publish_time a \<le> saturating_i64 (now + MAX_FUTURE_SKEW_SECS)) ''InvalidParams'') (\<lambda>_.
     sbind (case dc_prices c address of None \<Rightarrow> Inr fresh_price
            | Some kp \<Rightarrow> sbind (require (fst kp = k) ''InvalidFeed'') (\<lambda>_. Inr (snd kp))) (\<lambda>kp.
     sbind (if kp_publish_time kp \<noteq> 0 then
              sbind (require (ku_publish_time a > kp_publish_time kp) ''OracleNotMonotonic'') (\<lambda>_.
              require (saturating_i64 (now - kp_last_update_ts kp) \<ge> max 1 (kp_min_interval kp)) ''TooSoon'')
            else Inr ()) (\<lambda>_.
     sbind (require (kp_price kp > 0 \<longrightarrow> \<bar>ku_price a - kp_price kp\<bar> * DESK_BPS div kp_price kp \<le> kp_max_move_bps kp) ''MoveTooLarge'') (\<lambda>_.
     Inr (desk_emit (EvPriceUpdated k (ku_price a) (ku_conf a) (ku_publish_time a))
       (c\<lparr>dc_prices := (dc_prices c)(address \<mapsto> (k, kp\<lparr>kp_price := ku_price a, kp_conf := ku_conf a,
         kp_publish_time := ku_publish_time a, kp_source_hash := ku_source_hash a, kp_last_update_ts := now\<rparr>))\<rparr>))))))))))))"

definition desk_set_keeper_bounds :: "desk_env \<Rightarrow> bytes \<Rightarrow> bytes \<Rightarrow> int \<Rightarrow> int \<Rightarrow> desk_chain \<Rightarrow> string + desk_chain" where
  "desk_set_keeper_bounds env who k max_move min_interval c =
     sbind (update_commodity env k c) (\<lambda>(g, m).
     sbind (some_or (dc_prices c (price_address env k)) ''AccountNotInitialized'') (\<lambda>kp.
     sbind (require_admin g who) (\<lambda>_.
     sbind (require (min_interval \<ge> 1) ''InvalidParams'') (\<lambda>_.
     sbind (require (max_move > 0 \<and> max_move \<le> DESK_BPS) ''InvalidParams'') (\<lambda>_.
     Inr (desk_emit (EvParamsUpdated k)
       (c\<lparr>dc_prices := (dc_prices c)(price_address env k \<mapsto> (fst kp, (snd kp)\<lparr>kp_max_move_bps := max_move, kp_min_interval := min_interval\<rparr>))\<rparr>)))))))"

section \<open>Instructions\<close>

datatype desk_ix =
    InitializeConfig InitConfigAccounts int int int
  | DeskSetKeepers bytes "bytes list"
  | ProposeAdmin bytes bytes
  | AcceptAdmin bytes
  | SetGlobalPause bytes bool
  | SetRedeemCapExempt bytes bytes
  | CreateCommodity CreateAccounts CreateCommodityArgs
  | SetCommodityParams bytes bytes SetParamsArgs
  | DeskSetFeedAccount bytes bytes bytes bytes
  | DeskSetStatus bytes bytes int
  | ClearPriceAnchor bytes bytes
  | SetIndexLegs bytes bytes "IndexLeg list" "bytes list"
  | DeskKeeperUpdatePrice KeeperUpdate
  | DeskSetKeeperBounds bytes bytes int int
  | Buy TradeAccounts int int
  | BuyExactOut TradeAccounts int int
  | Sell TradeAccounts int int
  | SweepSpreadFees SweepAccounts int
  | DepositReserve DepositAccounts int

fun desk_exec :: "desk_env \<Rightarrow> desk_ix \<Rightarrow> desk_chain \<Rightarrow> string + desk_chain" where
  "desk_exec env (InitializeConfig a x y z) c = initialize_config env a x y z c"
| "desk_exec env (DeskSetKeepers admin ks) c = desk_set_keepers admin ks c"
| "desk_exec env (ProposeAdmin admin k) c = propose_admin admin k c"
| "desk_exec env (AcceptAdmin k) c = accept_admin k c"
| "desk_exec env (SetGlobalPause who b) c = set_global_pause who b c"
| "desk_exec env (SetRedeemCapExempt admin k) c = set_redeem_cap_exempt admin k c"
| "desk_exec env (CreateCommodity a args) c = create_commodity env a args c"
| "desk_exec env (SetCommodityParams who k args) c = set_commodity_params env who k args c"
| "desk_exec env (DeskSetFeedAccount who k feed fx) c = desk_set_feed_account env who k feed fx c"
| "desk_exec env (DeskSetStatus who k status) c = desk_set_status env who k status c"
| "desk_exec env (ClearPriceAnchor who k) c = clear_price_anchor env who k c"
| "desk_exec env (SetIndexLegs who k legs remaining) c = set_index_legs env who k legs remaining c"
| "desk_exec env (DeskKeeperUpdatePrice a) c = desk_keeper_update_price env a c"
| "desk_exec env (DeskSetKeeperBounds who k mv iv) c = desk_set_keeper_bounds env who k mv iv c"
| "desk_exec env (Buy a x y) c = desk_buy env a x y c"
| "desk_exec env (BuyExactOut a x y) c = desk_buy_exact_out env a x y c"
| "desk_exec env (Sell a x y) c = desk_sell env a x y c"
| "desk_exec env (SweepSpreadFees a x) c = sweep_spread_fees env a x c"
| "desk_exec env (DepositReserve a x) c = deposit_reserve env a x c"

end
