(* ===== verification/Desk_Books.thy ===== *)
theory Desk_Books
  imports Desk
begin

text \<open>
  What the reserve of \<^verbatim>\<open>peg_desk\<close> promises, over every sequence of instructions: a step relation
  with clock, donations and oracle posts in between, the effects every instruction can have, and the
  invariants.  The token program is assumed to do what it documents (\<open>token_ok\<close>).
\<close>

section \<open>Parameters\<close>

definition balance :: "token_state \<Rightarrow> bytes \<Rightarrow> int" where
  "balance tk key = (case token_at (tk_accounts tk) key of None \<Rightarrow> 0 | Some t \<Rightarrow> ta_amount t)"

definition coin_supply :: "token_state \<Rightarrow> bytes \<Rightarrow> int" where
  "coin_supply tk mint = (case tk_mints tk mint of None \<Rightarrow> 0 | Some m \<Rightarrow> mi_supply m)"

definition account_owner :: "token_state \<Rightarrow> bytes \<Rightarrow> bytes option" where
  "account_owner tk key = map_option ta_owner (token_at (tk_accounts tk) key)"

definition same_accounts :: "token_state \<Rightarrow> token_state \<Rightarrow> bool" where
  "same_accounts tk tk' \<longleftrightarrow> (\<forall>key. account_owner tk' key = account_owner tk key) \<and>
     (\<forall>m. (tk_mints tk' m = None) = (tk_mints tk m = None))"

definition u64_tokens :: "token_state \<Rightarrow> bool" where
  "u64_tokens tk \<longleftrightarrow> (\<forall>key. in_u64 (balance tk key)) \<and> (\<forall>m. in_u64 (coin_supply tk m))"

definition moved :: "bytes \<Rightarrow> int \<Rightarrow> bytes \<Rightarrow> int" where
  "moved a n key = (if key = a then n else 0)"

text \<open>The documented effects of \<open>transfer\<close>, \<open>mint_to\<close> and \<open>burn\<close>.\<close>

definition token_ok :: "token_program \<Rightarrow> bool" where
  "token_ok tp \<longleftrightarrow>
     (\<forall>src dst auth n tk tk'. sp_transfer tp src dst auth n tk = Inr tk' \<longrightarrow> same_accounts tk tk' \<and> (u64_tokens tk \<longrightarrow> u64_tokens tk') \<and>
        (\<forall>key. balance tk' key = balance tk key - moved src n key + moved dst n key) \<and> (\<forall>m. coin_supply tk' m = coin_supply tk m)) \<and>
     (\<forall>mint dst auth n tk tk'. sp_mint_to tp mint dst auth n tk = Inr tk' \<longrightarrow> same_accounts tk tk' \<and> (u64_tokens tk \<longrightarrow> u64_tokens tk') \<and>
        (\<forall>key. balance tk' key = balance tk key + moved dst n key) \<and> (\<forall>m. coin_supply tk' m = coin_supply tk m + moved mint n m)) \<and>
     (\<forall>mint src auth n tk tk'. sp_burn tp mint src auth n tk = Inr tk' \<longrightarrow> same_accounts tk tk' \<and> (u64_tokens tk \<longrightarrow> u64_tokens tk') \<and>
        (\<forall>key. balance tk' key = balance tk key - moved src n key) \<and> (\<forall>m. coin_supply tk' m = coin_supply tk m - moved mint n m))"

text \<open>The receiver's SDK returns the fields of the update it was given.\<close>

definition raw_of :: "PriceUpdateV2 \<Rightarrow> RawPrice" where
  "raw_of u = \<lparr>rw_price = pu_price u, rw_conf = pu_conf u, rw_expo = pu_exponent u, rw_publish_time = pu_publish_time u\<rparr>"

definition pyth_ok :: "desk_env \<Rightarrow> bool" where
  "pyth_ok env \<longleftrightarrow> (\<forall>u now age feed_id level r. de_pyth env u now age feed_id level = Some r \<longrightarrow> r = raw_of u)"

section \<open>Steps\<close>

text \<open>Who signs an instruction, and its unsigned arguments: Borsh reads nothing else.\<close>

fun desk_signers :: "desk_ix \<Rightarrow> bytes list" where
  "desk_signers (Buy a x y) = [tr_user a]"
| "desk_signers (BuyExactOut a x y) = [tr_user a]"
| "desk_signers (Sell a x y) = [tr_user a]"
| "desk_signers (DepositReserve a x) = [ds_depositor a]"
| "desk_signers _ = []"

definition opt_list :: "'a option list \<Rightarrow> 'a list" where
  "opt_list xs = List.map_filter (\<lambda>x. x) xs"

fun desk_unsigned :: "desk_ix \<Rightarrow> int list" where
  "desk_unsigned (CreateCommodity a args) = [cc_oracle_kind args, cc_session_kind args, cc_quote_scale args, cc_base_spread_bps args,
     cc_closed_spread_bps args, cc_conf_mult_bps args, cc_max_age_open args, cc_max_age_closed args, cc_supply_cap args,
     cc_per_tx_cap args, cc_pyth_min_signatures args]"
| "desk_unsigned (SetCommodityParams who k r) = opt_list [sr_session_kind r, sr_quote_scale r, sr_base_spread_bps r,
     sr_closed_spread_bps r, sr_conf_mult_bps r, sr_max_age_open r, sr_max_age_closed r, sr_supply_cap r, sr_per_tx_cap r,
     sr_pyth_min_signatures r, sr_daily_mint_cap r, sr_daily_redeem_cap r, sr_max_deviation_bps r, sr_deviation_window_secs r]"
| "desk_unsigned (SetIndexLegs who k legs rest) = map il_weight_bps legs"
| "desk_unsigned (DeskKeeperUpdatePrice a) = [ku_price a, ku_conf a]"
| "desk_unsigned (DeskSetKeeperBounds who k mv iv) = [mv, iv]"
| "desk_unsigned (InitializeConfig a x y z) = [x, y, z]"
| "desk_unsigned (Buy a x y) = [x, y]"
| "desk_unsigned (BuyExactOut a x y) = [x, y]"
| "desk_unsigned (Sell a x y) = [x, y]"
| "desk_unsigned (SweepSpreadFees a x) = [x]"
| "desk_unsigned (DepositReserve a x) = [x]"
| "desk_unsigned _ = []"

text \<open>
  What happens outside the program: time, other accounts, donations to a vault and holders burning
  their own coins.  Nobody but the program mints a coin or spends from a vault.
\<close>

definition updates_ok :: "(bytes \<Rightarrow> PriceUpdateV2 option) \<Rightarrow> bool" where
  "updates_ok us \<longleftrightarrow> (\<forall>key u. us key = Some u \<longrightarrow> in_u64 (pu_conf u))"

definition outside_ok :: "desk_chain \<Rightarrow> int \<Rightarrow> token_state \<Rightarrow> bool" where
  "outside_ok c now tk \<longleftrightarrow> dc_clock c \<le> now \<and> now \<le> I64_MAX \<and> u64_tokens tk \<and>
     (\<forall>k m. dc_commodities c k = Some m \<longrightarrow> account_owner tk (dm_reserve_vault m) = Some k \<and> tk_mints tk (dm_coin_mint m) \<noteq> None \<and>
        balance (dc_tokens c) (dm_reserve_vault m) \<le> balance tk (dm_reserve_vault m) \<and>
        coin_supply tk (dm_coin_mint m) \<le> coin_supply (dc_tokens c) (dm_coin_mint m))"

text \<open>A program address signs for nobody else.\<close>

inductive desk_step :: "desk_env \<Rightarrow> desk_chain \<Rightarrow> desk_chain \<Rightarrow> bool" for env where
  run: "desk_exec env ix c = Inr c' \<Longrightarrow> list_all in_u64 (desk_unsigned ix) \<Longrightarrow>
    list_all (\<lambda>s. dc_commodities c s = None) (desk_signers ix) \<Longrightarrow> desk_step env c c'"
| outside: "outside_ok c now tk \<Longrightarrow> updates_ok us \<Longrightarrow>
    desk_step env c (c\<lparr>dc_clock := now, dc_tokens := tk, dc_updates := us, dc_raw := raw\<rparr>)"

inductive desk_reachable :: "desk_env \<Rightarrow> desk_chain \<Rightarrow> bool" for env where
  start: "dc_config c = None \<Longrightarrow> dc_commodities c = Map.empty \<Longrightarrow> dc_prices c = Map.empty \<Longrightarrow> dc_log c = [] \<Longrightarrow>
    u64_tokens (dc_tokens c) \<Longrightarrow> updates_ok (dc_updates c) \<Longrightarrow> 0 \<le> dc_clock c \<Longrightarrow> dc_clock c \<le> I64_MAX \<Longrightarrow> desk_reachable env c"
| step: "desk_reachable env c \<Longrightarrow> desk_step env c c' \<Longrightarrow> desk_reachable env c'"

section \<open>The books\<close>

fun net_usdc :: "bytes \<Rightarrow> desk_event \<Rightarrow> int" where
  "net_usdc k (EvTrade k' user side usdc coin price spread) = (if k' = k then if side = SIDE_BUY then usdc else - usdc else 0)"
| "net_usdc k (EvReserveDeposited k' src amount) = (if k' = k then amount else 0)"
| "net_usdc k (EvSpreadFeesSwept k' amount dst) = (if k' = k then - amount else 0)"
| "net_usdc k _ = 0"

fun net_coin :: "bytes \<Rightarrow> desk_event \<Rightarrow> int" where
  "net_coin k (EvTrade k' user side usdc coin price spread) = (if k' = k then if side = SIDE_BUY then coin else - coin else 0)"
| "net_coin k _ = 0"

fun trade_price :: "bytes \<Rightarrow> desk_event \<Rightarrow> int option" where
  "trade_price k (EvTrade k' user side usdc coin price spread) = (if k' = k then Some price else None)"
| "trade_price k _ = None"

text \<open>An event that is no trade, deposit or sweep.\<close>

fun quiet_event :: "desk_event \<Rightarrow> bool" where
  "quiet_event (EvTrade k user side usdc coin price spread) = False"
| "quiet_event (EvReserveDeposited k src amount) = False"
| "quiet_event (EvSpreadFeesSwept k amount dst) = False"
| "quiet_event _ = True"

definition book_usdc :: "bytes \<Rightarrow> (int \<times> desk_event) list \<Rightarrow> int" where
  "book_usdc k xs = sum_list (map (net_usdc k \<circ> snd) xs)"

definition book_coin :: "bytes \<Rightarrow> (int \<times> desk_event) list \<Rightarrow> int" where
  "book_coin k xs = sum_list (map (net_coin k \<circ> snd) xs)"

text \<open>Net coins issued by the events since a time.\<close>

definition minted_since :: "bytes \<Rightarrow> int \<Rightarrow> (int \<times> desk_event) list \<Rightarrow> int" where
  "minted_since k start xs = book_coin k (filter (\<lambda>x. start \<le> fst x) xs)"

definition one_price :: "bytes \<Rightarrow> int \<Rightarrow> (int \<times> desk_event) list \<Rightarrow> bool" where
  "one_price k p xs \<longleftrightarrow> (\<forall>x\<in>set xs. trade_price k (snd x) = None \<or> trade_price k (snd x) = Some p)"

definition no_trades :: "bytes \<Rightarrow> (int \<times> desk_event) list \<Rightarrow> bool" where
  "no_trades k xs \<longleftrightarrow> (\<forall>x\<in>set xs. trade_price k (snd x) = None)"

named_theorems book_simps "books of an extended log"

lemma quiet_net: "quiet_event e \<Longrightarrow> net_usdc k e = 0 \<and> net_coin k e = 0 \<and> trade_price k e = None"
  by (cases e) auto

lemma book_append [book_simps]:
  "book_usdc k (xs @ ys) = book_usdc k xs + book_usdc k ys" "book_coin k (xs @ ys) = book_coin k xs + book_coin k ys"
  "minted_since k s (xs @ ys) = minted_since k s xs + minted_since k s ys"
  "one_price k p (xs @ ys) \<longleftrightarrow> one_price k p xs \<and> one_price k p ys"
  "no_trades k (xs @ ys) \<longleftrightarrow> no_trades k xs \<and> no_trades k ys"
  by (auto simp: book_usdc_def book_coin_def minted_since_def one_price_def no_trades_def)

lemma book_one [book_simps]:
  "book_usdc k [x] = net_usdc k (snd x)" "book_coin k [x] = net_coin k (snd x)"
  "minted_since k s [x] = (if s \<le> fst x then net_coin k (snd x) else 0)"
  "one_price k p [x] \<longleftrightarrow> (\<forall>price. trade_price k (snd x) = Some price \<longrightarrow> price = p)"
  "no_trades k [x] \<longleftrightarrow> trade_price k (snd x) = None"
  by (cases "trade_price k (snd x)"; auto simp: book_usdc_def book_coin_def minted_since_def one_price_def no_trades_def)+

lemma book_quiet [book_simps]:
  assumes "list_all (quiet_event \<circ> snd) xs"
  shows "book_usdc k xs = 0" "book_coin k xs = 0" "minted_since k s xs = 0" "one_price k p xs" "no_trades k xs"
proof -
  have "book_usdc k xs = 0 \<and> book_coin k xs = 0 \<and> minted_since k s xs = 0 \<and> one_price k p xs \<and> no_trades k xs"
    using assms
    by (induction xs) (auto simp: book_usdc_def book_coin_def minted_since_def one_price_def no_trades_def quiet_net)
  then show "book_usdc k xs = 0" "book_coin k xs = 0" "minted_since k s xs = 0" "one_price k p xs" "no_trades k xs" by auto
qed

lemma book_nil [book_simps]: "book_usdc k [] = 0" "book_coin k [] = 0" "minted_since k s [] = 0" "one_price k p []" "no_trades k []"
  by (simp_all add: book_usdc_def book_coin_def minted_since_def one_price_def no_trades_def)

section \<open>Fair prices\<close>

lemma u128_mul_Some: "u128_mul a b = Some n \<longleftrightarrow> n = a * b \<and> a * b < u128_lim"
  by (auto simp: u128_mul_def)

lemma rs_ceil_div_Some: "0 < d \<Longrightarrow> rs_ceil_div n d = Some q \<longleftrightarrow> q = cdiv n d"
  by (auto simp: rs_ceil_div_def cdiv_def)

lemma rs_to_u64_Some: "rs_to_u64 v = Some w \<longleftrightarrow> w = v \<and> v \<le> u64_max"
  by (auto simp: rs_to_u64_def)

lemmas rs_Some = u128_mul_Some rs_to_u64_Some bind_eq_Some_conv

lemma ask_above: "0 \<le> s \<Longrightarrow> 0 \<le> p \<Longrightarrow> rs_ask p s = Some a \<Longrightarrow> p \<le> a"
proof -
  assume s: "0 \<le> s" and p: "0 \<le> p" and "rs_ask p s = Some a"
  then have a: "a = cdiv (p * (rs_B + s)) rs_B" by (auto simp: rs_ask_def rs_Some rs_ceil_div_Some rs_B_def)
  have "p * rs_B \<le> p * (rs_B + s)" using s p by (intro mult_left_mono) auto
  also have "\<dots> \<le> a * rs_B" unfolding a by (rule cdiv_upper) (simp add: rs_B_def)
  finally show ?thesis by (simp add: rs_B_def)
qed

lemma bid_below: "0 \<le> s \<Longrightarrow> 0 \<le> p \<Longrightarrow> rs_bid p s = Some b \<Longrightarrow> 0 \<le> b \<and> b \<le> p"
proof -
  assume s: "0 \<le> s" and p: "0 \<le> p" and "rs_bid p s = Some b"
  then have b: "b = p * max 0 (rs_B - s) div rs_B" by (auto simp: rs_bid_def rs_Some Let_def)
  have "b \<le> p * rs_B div rs_B" unfolding b
    by (intro zdiv_mono1 mult_left_mono) (use s p in \<open>auto simp: rs_B_def\<close>)
  moreover have "0 \<le> b" unfolding b using p by (simp add: rs_B_def pos_imp_zdiv_nonneg_iff)
  ultimately show ?thesis by (simp add: rs_B_def)
qed

lemma coin_out_fair: "0 < p \<Longrightarrow> p \<le> a \<Longrightarrow> 0 \<le> usdc \<Longrightarrow> rs_coin_out_for_usdc usdc a = Some coin \<Longrightarrow> coin * p \<le> usdc * rs_P"
proof -
  assume p: "0 < p" "p \<le> a" and u: "0 \<le> usdc" and "rs_coin_out_for_usdc usdc a = Some coin"
  then have c: "coin = usdc * rs_P div a" by (auto simp: rs_coin_out_for_usdc_def rs_Some rs_DEC_NUM_def rs_DEC_DEN_def split: if_splits)
  have "0 \<le> coin" unfolding c using p u by (simp add: rs_P_def pos_imp_zdiv_nonneg_iff)
  then have "coin * p \<le> coin * a" using p by (intro mult_left_mono) auto
  also have "\<dots> \<le> usdc * rs_P" unfolding c using p div_ge_iff [of a "usdc * rs_P div a" "usdc * rs_P"] by simp
  finally show ?thesis .
qed

lemma usdc_in_fair: "0 < p \<Longrightarrow> p \<le> a \<Longrightarrow> 0 \<le> coin \<Longrightarrow> rs_usdc_in_for_coin coin a = Some usdc \<Longrightarrow> coin * p \<le> usdc * rs_P"
proof -
  assume p: "0 < p" "p \<le> a" and c: "0 \<le> coin" and "rs_usdc_in_for_coin coin a = Some usdc"
  then have u: "usdc = cdiv (coin * a) rs_P" by (auto simp: rs_usdc_in_for_coin_def rs_Some rs_ceil_div_Some rs_DEC_NUM_def rs_DEC_DEN_def rs_P_def)
  have "coin * p \<le> coin * a" using p c by (intro mult_left_mono) auto
  also have "\<dots> \<le> usdc * rs_P" unfolding u by (rule cdiv_upper) (simp add: rs_P_def)
  finally show ?thesis .
qed

lemma usdc_out_fair: "0 \<le> b \<Longrightarrow> b \<le> p \<Longrightarrow> 0 \<le> coin \<Longrightarrow> rs_usdc_out_for_coin coin b = Some usdc \<Longrightarrow> usdc * rs_P \<le> coin * p"
proof -
  assume b: "0 \<le> b" "b \<le> p" and c: "0 \<le> coin" and "rs_usdc_out_for_coin coin b = Some usdc"
  then have u: "usdc = coin * b div rs_P" by (auto simp: rs_usdc_out_for_coin_def rs_Some rs_DEC_NUM_def rs_DEC_DEN_def rs_P_def)
  have "usdc * rs_P \<le> coin * b" unfolding u using div_ge_iff [of rs_P "coin * b div rs_P" "coin * b"] by (simp add: rs_P_def)
  also have "\<dots> \<le> coin * p" using b c by (intro mult_left_mono) auto
  finally show ?thesis .
qed

lemma saturating_nonneg:
  "0 \<le> a \<Longrightarrow> 0 \<le> b \<Longrightarrow> 0 \<le> u128_saturating_add a b" "0 \<le> a \<Longrightarrow> 0 \<le> b \<Longrightarrow> 0 \<le> u128_saturating_mul a b"
  by (simp_all add: u128_saturating_add_def u128_saturating_mul_def u128_lim_def)

lemma ceil_term_nonneg: "0 \<le> n \<Longrightarrow> 0 < d \<Longrightarrow> 0 \<le> e \<Longrightarrow> 0 \<le> (case rs_ceil_div n d of Some t \<Rightarrow> t | None \<Rightarrow> e)"
  using cdiv_nonneg [of d n] by (simp add: rs_ceil_div_def cdiv_def)

lemma spread_nonneg:
  assumes r: "rs_effective_spread_bps base cl cm conf price age ma status ratio warn = Some s"
    and pos: "0 \<le> base" "0 \<le> cl" "0 \<le> cm" "0 \<le> conf" "0 < price"
  shows "0 \<le> s"
proof -
  let ?s1 = "u128_saturating_add (if status = 1 then cl else base)
    (case rs_ceil_div (cm * conf * 100) price of Some t \<Rightarrow> t | None \<Rightarrow> rs_MAX_SPREAD_BPS)"
  have s1: "0 \<le> ?s1" by (intro saturating_nonneg ceil_term_nonneg) (use pos in \<open>auto simp: rs_MAX_SPREAD_BPS_def\<close>)
  have pen: "0 \<le> (case rs_ceil_div (base * (min age ma - ma div 2)) (ma - ma div 2) of Some t \<Rightarrow> t | None \<Rightarrow> 0)"
    if "ma div 2 < age" "ma div 2 < ma"
    by (intro ceil_term_nonneg mult_nonneg_nonneg) (use pos that in auto)
  have fin: "0 \<le> min (if ratio < warn then u128_saturating_mul x 2 else x) rs_MAX_SPREAD_BPS" if "0 \<le> x" for x
    using that saturating_nonneg(2) [of x 2] by (simp add: rs_MAX_SPREAD_BPS_def)
  obtain m1 m2 where m: "u128_mul cm conf = Some m1" "u128_mul m1 100 = Some m2"
    using r pos(5) by (auto simp: rs_effective_spread_bps_def bind_eq_Some_conv)
  then have m2: "m2 = cm * conf * 100" by (simp add: u128_mul_Some)
  let ?pen = "case rs_ceil_div (base * (min age ma - ma div 2)) (ma - ma div 2) of Some t \<Rightarrow> t | None \<Rightarrow> 0"
  show ?thesis
  proof (cases "ma div 2 < age \<and> ma div 2 < ma")
    case False
    then have "s = min (if ratio < warn then u128_saturating_mul ?s1 2 else ?s1) rs_MAX_SPREAD_BPS"
      using r pos(5) m unfolding m2 by (simp add: rs_effective_spread_bps_def Let_def del: de_Morgan_conj not_less)
    then show ?thesis using fin [OF s1] by simp
  next
    case True
    let ?x = "u128_saturating_add ?s1 ?pen"
    have "s = min (if ratio < warn then u128_saturating_mul ?x 2 else ?x) rs_MAX_SPREAD_BPS"
      using r pos(5) m m2 True by (auto simp: rs_effective_spread_bps_def Let_def bind_eq_Some_conv u128_mul_Some)
    then show ?thesis using fin [OF saturating_nonneg(1) [OF s1 pen]] True by simp
  qed
qed

lemma ratio_backed:
  assumes "rs_reserve_ratio_bps reserve coins price \<ge> warn" "10000 \<le> warn" "in_u64 reserve" "in_u64 coins" "0 < coins" "0 < price" "in_u64 price"
  shows "coins * price \<le> reserve * rs_P"
proof -
  have lim: "reserve * rs_B * rs_P < u128_lim" "reserve * rs_B < u128_lim" "coins * price < u128_lim"
  proof -
    have "reserve * (rs_B * rs_P) \<le> u64_max * (rs_B * rs_P)" using assms(3) by (intro mult_right_mono) (auto simp: in_u64_def rs_B_def rs_P_def)
    also have "\<dots> < u128_lim" by (simp add: u64_max_def rs_B_def rs_P_def u128_lim_def)
    finally show 1: "reserve * rs_B * rs_P < u128_lim" by (simp add: mult.assoc)
    have "reserve * rs_B \<le> reserve * rs_B * rs_P" using assms(3) by (simp add: in_u64_def rs_B_def rs_P_def)
    with 1 show "reserve * rs_B < u128_lim" by simp
    show "coins * price < u128_lim" using mul_lim [OF assms(4,7)] by simp
  qed
  let ?r = "reserve * rs_B * rs_P div (coins * price)"
  have dec: "rs_DEC_DEN = 1" "rs_DEC_NUM = 1" by (simp_all add: rs_DEC_DEN_def rs_DEC_NUM_def)
  have ne: "coins \<noteq> 0" "price \<noteq> 0" using assms(5,6) by auto
  have n: "Option.bind (u128_mul reserve rs_B) (\<lambda>a. Option.bind (u128_mul a rs_P) (\<lambda>b. u128_mul b rs_DEC_DEN)) = Some (reserve * rs_B * rs_P)"
    using lim(1,2) by (simp add: u128_mul_def dec)
  have d: "Option.bind (u128_mul coins price) (\<lambda>a. u128_mul a rs_DEC_NUM) = Some (coins * price)" using lim(3) by (simp add: u128_mul_def dec)
  have "rs_reserve_ratio_bps reserve coins price = (if ?r \<le> u64_max then ?r else u64_max)"
    unfolding rs_reserve_ratio_bps_def n d by (simp add: ne rs_to_u64_def)
  then have "10000 \<le> ?r" using assms(1,2) by (simp add: u64_max_def split: if_splits)
  then have "10000 * (coins * price) \<le> reserve * rs_B * rs_P" using div_ge_iff [of "coins * price"] assms(5,6) by simp
  then show ?thesis by (simp add: rs_B_def)
qed

section \<open>The promise for one commodity\<close>

text \<open>
  Reserve and supply against the log, the price of the latest trade, the backing at a single price,
  and the mint window against the trades of its time.
\<close>

definition desk_ok :: "DeskConfig \<Rightarrow> token_state \<Rightarrow> int \<Rightarrow> (int \<times> desk_event) list \<Rightarrow> bytes \<Rightarrow> DeskCommodity \<Rightarrow> bool" where
  "desk_ok g tk now xs k m \<longleftrightarrow>
     book_usdc k xs \<le> balance tk (dm_reserve_vault m) \<and> coin_supply tk (dm_coin_mint m) \<le> book_coin k xs \<and>
     (\<forall>p. one_price k p xs \<longrightarrow> dm_last_price m = p \<or> no_trades k xs) \<and>
     (\<forall>p. 10000 \<le> dg_reserve_warn_bps g \<and> 0 \<le> p \<and> one_price k p xs \<longrightarrow>
        coin_supply tk (dm_coin_mint m) * p \<le> balance tk (dm_reserve_vault m) * rs_P) \<and>
     0 \<le> dm_window_start m \<and> dm_window_start m \<le> now \<and> 0 \<le> dm_window_minted m \<and>
     minted_since k (dm_window_start m) xs \<le> dm_window_minted m \<and>
     (\<forall>x\<in>set xs. trade_price k (snd x) \<noteq> None \<longrightarrow> fst x \<le> now \<and> fst x < dm_window_start m + DAILY_WINDOW_SECS)"

definition books_same :: "DeskCommodity \<Rightarrow> DeskCommodity \<Rightarrow> bool" where
  "books_same m m' \<longleftrightarrow> dm_coin_mint m' = dm_coin_mint m \<and> dm_reserve_vault m' = dm_reserve_vault m \<and>
     dm_last_price m' = dm_last_price m \<and> dm_window_start m' = dm_window_start m \<and> dm_window_minted m' = dm_window_minted m"

definition window_step :: "int \<Rightarrow> int \<Rightarrow> DeskCommodity \<Rightarrow> DeskCommodity \<Rightarrow> bool" where
  "window_step now n m m' \<longleftrightarrow> 0 \<le> dm_window_minted m' \<and>
     (if now - dm_window_start m \<ge> DAILY_WINDOW_SECS then dm_window_start m' = now \<and> n \<le> dm_window_minted m'
      else dm_window_start m' = dm_window_start m \<and> dm_window_minted m + n \<le> dm_window_minted m')"

lemma desk_ok_outside:
  assumes ok: "desk_ok g tk now xs k m" and "balance tk (dm_reserve_vault m) \<le> balance tk' (dm_reserve_vault m)"
    and "coin_supply tk' (dm_coin_mint m) \<le> coin_supply tk (dm_coin_mint m)" "now \<le> now'"
  shows "desk_ok g tk' now' xs k m"
proof -
  let ?b = "balance tk (dm_reserve_vault m)" and ?b' = "balance tk' (dm_reserve_vault m)"
  let ?s = "coin_supply tk (dm_coin_mint m)" and ?s' = "coin_supply tk' (dm_coin_mint m)"
  have "?s' * p \<le> ?b' * rs_P" if "?s * p \<le> ?b * rs_P" "0 \<le> p" for p
  proof -
    have "?s' * p \<le> ?s * p" using assms(3) that(2) by (intro mult_right_mono) auto
    also have "\<dots> \<le> ?b * rs_P" by (rule that)
    also have "\<dots> \<le> ?b' * rs_P" using assms(2) by (simp add: rs_P_def)
    finally show ?thesis .
  qed
  moreover have "book_usdc k xs \<le> ?b'" "?s' \<le> book_coin k xs" using assms unfolding desk_ok_def by linarith+
  ultimately show ?thesis using ok assms(4) unfolding desk_ok_def by auto
qed

lemma desk_ok_quiet:
  assumes "desk_ok g tk now xs k m" "books_same m m'" "list_all (quiet_event \<circ> snd) es"
  shows "desk_ok g tk now (xs @ es) k m'"
proof -
  have "\<forall>x\<in>set es. trade_price k (snd x) = None" using assms(3) quiet_net by (auto simp: list_all_iff)
  then show ?thesis using assms unfolding desk_ok_def books_same_def by (auto simp: book_simps ball_Un)
qed

text \<open>An event of another commodity.\<close>

lemma desk_ok_other:
  assumes "desk_ok g tk now xs k m" and e: "net_usdc k e = 0" "net_coin k e = 0" "trade_price k e = None"
  shows "desk_ok g tk now (xs @ [(t, e)]) k m"
  using assms unfolding desk_ok_def by (auto simp: book_simps ball_Un)

fun effect_ok :: "desk_chain \<Rightarrow> DeskConfig \<Rightarrow> bytes \<Rightarrow> DeskCommodity \<Rightarrow> DeskCommodity \<Rightarrow> desk_event \<Rightarrow> bool" where
  "effect_ok c g k m m' (EvTrade k' user side usdc coin price spread) \<longleftrightarrow> k' = k \<and> 0 < price \<and> in_u64 price \<and>
     (if side = SIDE_BUY then coin * price \<le> usdc * rs_P else usdc * rs_P \<le> coin * price) \<and>
     dm_coin_mint m' = dm_coin_mint m \<and> dm_reserve_vault m' = dm_reserve_vault m \<and> dm_last_price m' = price \<and>
     window_step (dc_clock c) (if side = SIDE_BUY then coin else - coin) m m' \<and>
     (side = SIDE_BUY \<and> 0 < dm_daily_mint_cap m \<longrightarrow> dm_window_minted m' \<le> dm_daily_mint_cap m)"
| "effect_ok c g k m m' (EvSpreadFeesSwept k' amount dst) \<longleftrightarrow> k' = k \<and> 0 < amount \<and> books_same m m' \<and>
     amount \<le> balance (dc_tokens c) (dm_reserve_vault m) \<and>
     (0 < coin_supply (dc_tokens c) (dm_coin_mint m) \<longrightarrow> 0 < dm_last_price m \<and>
       dg_reserve_warn_bps g \<le> rs_reserve_ratio_bps (balance (dc_tokens c) (dm_reserve_vault m) - amount)
         (coin_supply (dc_tokens c) (dm_coin_mint m)) (dm_last_price m))"
| "effect_ok c g k m m' (EvReserveDeposited k' src amount) \<longleftrightarrow> k' = k \<and> 0 < amount \<and> books_same m m'"
| "effect_ok c g k m m' _ \<longleftrightarrow> False"

lemma net_coin_none: "trade_price k e = None \<Longrightarrow> net_coin k e = 0"
  by (cases e) (auto split: if_splits)

lemma book_coin_none: "no_trades k xs \<Longrightarrow> book_coin k xs = 0"
  by (induction xs) (auto simp: no_trades_def book_coin_def net_coin_none)

lemma minted_none_since:
  "\<forall>x\<in>set xs. trade_price k (snd x) \<noteq> None \<longrightarrow> fst x < s \<Longrightarrow> minted_since k s xs = 0"
proof (induction xs)
  case (Cons x xs)
  then show ?case using net_coin_none [of k "snd x"] by (auto simp: minted_since_def book_coin_def)
qed (simp add: book_simps)

lemma window_step_ok:
  assumes step: "window_step now n m m'" and n: "net_coin k e = n" and now: "0 \<le> now"
    and old: "0 \<le> dm_window_start m" "dm_window_start m \<le> now" "minted_since k (dm_window_start m) xs \<le> dm_window_minted m"
      "\<forall>x\<in>set xs. trade_price k (snd x) \<noteq> None \<longrightarrow> fst x \<le> now \<and> fst x < dm_window_start m + DAILY_WINDOW_SECS"
  shows "0 \<le> dm_window_start m' \<and> dm_window_start m' \<le> now \<and> 0 \<le> dm_window_minted m' \<and>
    minted_since k (dm_window_start m') (xs @ [(now, e)]) \<le> dm_window_minted m' \<and>
    (\<forall>x\<in>set (xs @ [(now, e)]). trade_price k (snd x) \<noteq> None \<longrightarrow> fst x \<le> now \<and> fst x < dm_window_start m' + DAILY_WINDOW_SECS)"
proof (cases "now - dm_window_start m \<ge> DAILY_WINDOW_SECS")
  case True
  then have "minted_since k now xs = 0" using old(4) by (intro minted_none_since) auto
  then show ?thesis using step n now old True unfolding window_step_def
    by (auto simp: book_simps DAILY_WINDOW_SECS_def)
next
  case False
  then show ?thesis using step n now old unfolding window_step_def by (auto simp: book_simps)
qed

lemma desk_ok_event:
  assumes ok: "desk_ok g (dc_tokens c) (dc_clock c) (dc_log c) k m" and eff: "effect_ok c g k m m' e"
    and now: "0 \<le> dc_clock c" and u64: "u64_tokens (dc_tokens c)" "in_u64 (dm_last_price m)"
    and b: "balance (dc_tokens c) (dm_reserve_vault m) + net_usdc k e \<le> balance tk' (dm_reserve_vault m)"
    and s: "coin_supply tk' (dm_coin_mint m) = coin_supply (dc_tokens c) (dm_coin_mint m) + net_coin k e"
    and s0: "0 \<le> coin_supply tk' (dm_coin_mint m)"
  shows "desk_ok g tk' (dc_clock c) (dc_log c @ [(dc_clock c, e)]) k m'"
proof (cases e)
  case (EvTrade k' user side usdc coin price spread)
  let ?B = "balance (dc_tokens c) (dm_reserve_vault m)" and ?B' = "balance tk' (dm_reserve_vault m)"
  let ?S = "coin_supply (dc_tokens c) (dm_coin_mint m)" and ?n = "if side = SIDE_BUY then coin else - coin"
  have eff': "k' = k" "0 < price" "if side = SIDE_BUY then coin * price \<le> usdc * rs_P else usdc * rs_P \<le> coin * price"
    "dm_coin_mint m' = dm_coin_mint m" "dm_reserve_vault m' = dm_reserve_vault m" "dm_last_price m' = price"
    "window_step (dc_clock c) ?n m m'"
    using eff EvTrade by auto
  have net: "net_usdc k e = (if side = SIDE_BUY then usdc else - usdc)" "net_coin k e = ?n" "trade_price k e = Some price"
    using EvTrade eff'(1) by auto
  have fair: "net_coin k e * price \<le> net_usdc k e * rs_P" using eff'(3) net by (auto split: if_splits)
  have backed: "coin_supply tk' (dm_coin_mint m) * price \<le> ?B' * rs_P" if "?S * price \<le> ?B * rs_P"
  proof -
    have "coin_supply tk' (dm_coin_mint m) * price = ?S * price + net_coin k e * price" by (simp add: s distrib_right)
    also have "\<dots> \<le> ?B * rs_P + net_usdc k e * rs_P" using that fair by simp
    also have "\<dots> = (?B + net_usdc k e) * rs_P" by (simp add: distrib_right)
    also have "\<dots> \<le> ?B' * rs_P" using b by (simp add: rs_P_def)
    finally show ?thesis .
  qed
  have w: "0 \<le> dm_window_start m' \<and> dm_window_start m' \<le> dc_clock c \<and> 0 \<le> dm_window_minted m' \<and>
      minted_since k (dm_window_start m') (dc_log c @ [(dc_clock c, e)]) \<le> dm_window_minted m' \<and>
      (\<forall>x\<in>set (dc_log c @ [(dc_clock c, e)]). trade_price k (snd x) \<noteq> None \<longrightarrow>
         fst x \<le> dc_clock c \<and> fst x < dm_window_start m' + DAILY_WINDOW_SECS)"
    by (rule window_step_ok [OF eff'(7) net(2) now]) (use ok in \<open>auto simp: desk_ok_def\<close>)
  show ?thesis
    unfolding desk_ok_def eff'(4-6)
  proof (intro conjI)
    show "book_usdc k (dc_log c @ [(dc_clock c, e)]) \<le> balance tk' (dm_reserve_vault m)"
      using ok b unfolding desk_ok_def by (simp add: book_simps)
    show "coin_supply tk' (dm_coin_mint m) \<le> book_coin k (dc_log c @ [(dc_clock c, e)])"
      using ok s unfolding desk_ok_def by (simp add: book_simps)
    show "\<forall>p. one_price k p (dc_log c @ [(dc_clock c, e)]) \<longrightarrow> price = p \<or> no_trades k (dc_log c @ [(dc_clock c, e)])"
      using net(3) by (auto simp: book_simps)
    show "\<forall>p. 10000 \<le> dg_reserve_warn_bps g \<and> 0 \<le> p \<and> one_price k p (dc_log c @ [(dc_clock c, e)]) \<longrightarrow>
        coin_supply tk' (dm_coin_mint m) * p \<le> ?B' * rs_P"
      using ok backed net(3) unfolding desk_ok_def by (auto simp: book_simps)
  qed (use w in auto)
next
  case (EvReserveDeposited k' src amount)
  then have same: "books_same m m'" and net: "net_usdc k e = amount" "net_coin k e = 0" "trade_price k e = None" "0 < amount"
    using eff by auto
  have "desk_ok g tk' (dc_clock c) (dc_log c) k m" by (rule desk_ok_outside [OF ok]) (use b s net in auto)
  then show ?thesis using same b ok net unfolding desk_ok_def books_same_def by (auto simp: book_simps ball_Un)
next
  case (EvSpreadFeesSwept k' amount dst)
  let ?B = "balance (dc_tokens c) (dm_reserve_vault m)" and ?S = "coin_supply (dc_tokens c) (dm_coin_mint m)"
  have eff': "books_same m m'" "amount \<le> ?B" "0 < amount"
    and guard: "0 < ?S \<Longrightarrow> 0 < dm_last_price m \<and> dg_reserve_warn_bps g \<le> rs_reserve_ratio_bps (?B - amount) ?S (dm_last_price m)"
    using eff EvSpreadFeesSwept by auto
  have net: "net_usdc k e = - amount" "net_coin k e = 0" "trade_price k e = None" using EvSpreadFeesSwept eff by auto
  have S: "0 \<le> ?S" "in_u64 ?S" and B: "in_u64 (?B - amount)" using u64 eff'(2,3) by (auto simp: u64_tokens_def in_u64_def dest: spec [of _ "dm_reserve_vault m"])
  have B': "(?B - amount) * rs_P \<le> balance tk' (dm_reserve_vault m) * rs_P" using b net by (simp add: rs_P_def)
  have backed: "?S * p \<le> balance tk' (dm_reserve_vault m) * rs_P"
    if warn: "10000 \<le> dg_reserve_warn_bps g" and p: "0 \<le> p" "one_price k p (dc_log c)" for p
  proof (cases "0 < ?S")
    case True
    then have "\<not> no_trades k (dc_log c)"
      using True ok book_coin_none unfolding desk_ok_def by force
    then have "dm_last_price m = p" using ok p unfolding desk_ok_def by auto
    then have "?S * p \<le> (?B - amount) * rs_P" using ratio_backed [OF _ warn B S(2) True] guard [OF True] u64(2) by auto
    then show ?thesis using B' by linarith
  next
    case False
    then have "?S = 0" using S by simp
    then show ?thesis using B' B by (simp add: in_u64_def rs_P_def)
  qed
  show ?thesis
    using ok eff'(1) b s net backed unfolding desk_ok_def books_same_def by (auto simp: book_simps ball_Un)
qed (use eff in auto)

section \<open>Types\<close>

definition commodity_typed :: "DeskCommodity \<Rightarrow> bool" where
  "commodity_typed m \<longleftrightarrow> 0 \<le> dm_base_spread_bps m \<and> 0 \<le> dm_closed_spread_bps m \<and> 0 \<le> dm_conf_mult_bps m \<and>
     in_u64 (dm_last_price m) \<and> (\<forall>leg\<in>set (dm_legs m). 0 \<le> il_weight_bps leg)"

definition prices_ok :: "(bytes \<Rightarrow> (bytes \<times> KeeperPrice) option) \<Rightarrow> bool" where
  "prices_ok ps \<longleftrightarrow> (\<forall>a kp. ps a = Some kp \<longrightarrow> in_u64 (kp_price (snd kp)) \<and> in_u64 (kp_conf (snd kp)))"

definition typed_price :: "OraclePrice \<Rightarrow> bool" where
  "typed_price p \<longleftrightarrow> in_u64 (op_price p) \<and> in_u64 (op_conf p)"

lemma normalize_u64: "rs_normalize_to_1e8 v e = Some p \<Longrightarrow> 0 \<le> v \<Longrightarrow> in_u64 p"
  by (auto simp: rs_normalize_to_1e8_def rs_Some Let_def in_u64_def pos_imp_zdiv_nonneg_iff split: if_splits)

lemma scale_quote_u64: "rs_scale_quote v e q f fe = Some p \<Longrightarrow> 0 \<le> v \<Longrightarrow> 0 \<le> f \<Longrightarrow> in_u64 p"
proof -
  assume r: "rs_scale_quote v e q f fe = Some p" and v: "0 \<le> v" and f: "0 \<le> f"
  then obtain x where x: "rs_normalize_to_1e8 v e = Some x" by (auto simp: rs_scale_quote_def bind_eq_Some_conv)
  have xu: "in_u64 x" by (rule normalize_u64 [OF x v])
  then have "0 \<le> x div 100" "x div 100 \<le> x" "x \<le> u64_max" unfolding in_u64_def by presburger+
  then have "in_u64 (x div 100)" by (simp add: in_u64_def)
  moreover have "in_u64 y" if "rs_normalize_to_1e8 f fe = Some z" "rs_to_u64 (x * z div rs_P) = Some y" for y z
    using normalize_u64 [OF that(1) f] xu that(2) by (auto simp: in_u64_def rs_to_u64_Some rs_P_def pos_imp_zdiv_nonneg_iff)
  ultimately show ?thesis using r x xu by (auto simp: rs_scale_quote_def rs_Some split: if_splits)
qed

lemma weighted_loop_nonneg:
  "rs_weighted_loop xs w acc = Some (w', acc') \<Longrightarrow> \<forall>x\<in>set xs. 0 \<le> fst x \<and> 0 \<le> snd x \<Longrightarrow> 0 \<le> acc \<Longrightarrow> 0 \<le> acc'"
proof (induction xs arbitrary: w acc)
  case (Cons x xs)
  obtain v u where x: "x = (v, u)" by force
  obtain w1 acc1 where "rs_weighted_loop xs w1 acc1 = Some (w', acc')" "acc1 = acc + v * u"
    using Cons.prems(1) unfolding x by (auto simp: bind_eq_Some_conv u128_mul_def u128_add_def split: if_splits)
  then show ?case using Cons.IH Cons.prems x by auto
qed simp

lemma weighted_sum_u64: "rs_weighted_sum xs = Some p \<Longrightarrow> \<forall>x\<in>set xs. 0 \<le> fst x \<and> 0 \<le> snd x \<Longrightarrow> in_u64 p"
  using weighted_loop_nonneg [of xs 0 0]
  by (auto simp: rs_weighted_sum_def rs_Some rs_B_def in_u64_def pos_imp_zdiv_nonneg_iff split: if_splits)

lemma raw_typed:
  assumes "pyth_ok env" "updates_ok (dc_updates c)" "read_pyth_raw env key ex fid age ms c = Inr p"
  shows "0 < rw_price p \<and> 0 \<le> rw_conf p"
proof -
  obtain u where u: "dc_updates c key = Some u" "de_pyth env u (dc_clock c) age fid (wanted_level ms) = Some p" "0 < rw_price p"
    using assms(3) by (auto simp: read_pyth_raw_def result_simps)
  then have "p = raw_of u" using assms(1) unfolding pyth_ok_def by blast
  moreover have "in_u64 (pu_conf u)" using assms(2) u(1) unfolding updates_ok_def by blast
  ultimately show ?thesis using u(3) by (simp add: raw_of_def in_u64_def)
qed

lemma pyth_typed:
  assumes ok: "pyth_ok env" "updates_ok (dc_updates c)" and r: "read_pyth_commodity env m feed fx age c = Inr p"
  shows "typed_price p"
proof -
  obtain raw where raw: "read_pyth_raw env feed (dm_feed_account m) (dm_feed_id m) age (dm_pyth_min_signatures m) c = Inr raw"
    using r by (auto simp: read_pyth_commodity_def result_simps)
  note t = raw_typed [OF ok raw]
  show ?thesis
  proof (cases "dm_quote_scale m = QUOTE_EUR")
    case False
    then show ?thesis using r raw t
      by (auto simp: read_pyth_commodity_def result_simps typed_price_def intro: scale_quote_u64)
  next
    case True
    then obtain f where f: "read_pyth_raw env (the fx) (dm_fx_feed_account m) (dm_fx_feed_id m) age (dm_pyth_min_signatures m) c = Inr f"
      and p: "rs_scale_quote (rw_price raw) (rw_expo raw) QUOTE_EUR (rw_price f) (rw_expo f) = Some (op_price p)" "in_u64 (op_conf p)"
      using r raw by (auto simp: read_pyth_commodity_def result_simps Let_def)
    then show ?thesis using t raw_typed [OF ok f] by (auto simp: typed_price_def intro: scale_quote_u64)
  qed
qed

lemma keeper_price_typed: "prices_ok (dc_prices c) \<Longrightarrow> read_keeper_price key k c = Inr p \<Longrightarrow> typed_price p"
  by (auto simp: read_keeper_price_def result_simps prices_ok_def typed_price_def)

lemma switchboard_typed: "prices_ok (dc_prices c) \<Longrightarrow> read_switchboard m k key c = Inr p \<Longrightarrow> typed_price p"
  by (auto simp: read_switchboard_def result_simps intro: keeper_price_typed)

lemma fresh_positive_Inr: "fresh_positive m c p = Inr p' \<longleftrightarrow> p' = p \<and> age_secs (dc_clock c) (op_publish_time p) \<le> max_age m \<and> 0 < op_price p"
  by (auto simp: fresh_positive_def result_simps)

lemma leg_typed: "pyth_ok env \<Longrightarrow> updates_ok (dc_updates c) \<Longrightarrow> prices_ok (dc_prices c) \<Longrightarrow> read_leg env m k src c = Inr p \<Longrightarrow> typed_price p"
  by (auto simp: read_leg_def result_simps fresh_positive_Inr intro: keeper_price_typed switchboard_typed pyth_typed split: if_split_asm)

lemma legs_typed: "pyth_ok env \<Longrightarrow> updates_ok (dc_updates c) \<Longrightarrow> prices_ok (dc_prices c) \<Longrightarrow> read_legs env k legs rest c = Inr ps \<Longrightarrow>
    \<forall>p\<in>set ps. typed_price p"
  by (induction env k legs rest c arbitrary: ps rule: read_legs.induct) (auto simp: result_simps dest: leg_typed)

lemma price_typed:
  assumes ok: "pyth_ok env" "updates_ok (dc_updates c)" "prices_ok (dc_prices c)" "commodity_typed m"
    and r: "read_price env m k accts c = Inr p"
  shows "typed_price p \<and> 0 < op_price p"
proof -
  have comp: "typed_price p" if rc: "read_composite env m k rest c = Inr p" for rest
  proof -
    obtain ps where ps: "read_legs env k (dm_legs m) rest c = Inr ps"
      "rs_weighted_sum (zip (map op_price ps) (map il_weight_bps (dm_legs m))) = Some (op_price p)"
      "rs_weighted_sum (zip (map op_conf ps) (map il_weight_bps (dm_legs m))) = Some (op_conf p)"
      using rc by (auto simp: read_composite_def result_simps)
    have t: "\<forall>x\<in>set ps. typed_price x" by (rule legs_typed [OF ok(1-3) ps(1)])
    have "\<forall>x\<in>set (zip (map f ps) (map il_weight_bps (dm_legs m))). 0 \<le> fst x \<and> 0 \<le> snd x"
      if f: "\<And>q. typed_price q \<Longrightarrow> 0 \<le> f q" for f :: "OraclePrice \<Rightarrow> int"
    proof
      fix x assume "x \<in> set (zip (map f ps) (map il_weight_bps (dm_legs m)))"
      then have "fst x \<in> set (map f ps)" "snd x \<in> set (map il_weight_bps (dm_legs m))"
        by (metis in_set_zipE prod.collapse)+
      then show "0 \<le> fst x \<and> 0 \<le> snd x" using t f ok(4) by (auto simp: commodity_typed_def)
    qed
    from this [of op_price] this [of op_conf] show ?thesis
      using weighted_sum_u64 [OF ps(2)] weighted_sum_u64 [OF ps(3)] by (auto simp: typed_price_def in_u64_def)
  qed
  show ?thesis
    using r unfolding read_price_def
    by (auto simp: result_simps fresh_positive_Inr intro: comp keeper_price_typed [OF ok(3)] switchboard_typed [OF ok(3)]
        pyth_typed [OF ok(1,2)] split: if_split_asm)
qed

section \<open>Effects of the instructions\<close>

definition tokens_moved :: "desk_chain \<Rightarrow> bytes \<Rightarrow> int \<Rightarrow> int \<Rightarrow> token_state \<Rightarrow> bool" where
  "tokens_moved c k dv ds tk' \<longleftrightarrow> same_accounts (dc_tokens c) tk' \<and> u64_tokens tk' \<and>
     (\<forall>k2 m2. dc_commodities c k2 = Some m2 \<longrightarrow>
        balance (dc_tokens c) (dm_reserve_vault m2) + moved k dv k2 \<le> balance tk' (dm_reserve_vault m2) \<and>
        coin_supply tk' (dm_coin_mint m2) = coin_supply (dc_tokens c) (dm_coin_mint m2) + moved k ds k2)"

text \<open>The configuration is never removed and keeps its warning ratio.\<close>

definition config_kept :: "desk_chain \<Rightarrow> desk_chain \<Rightarrow> bool" where
  "config_kept c c' \<longleftrightarrow> (\<forall>g. dc_config c = Some g \<longrightarrow> (\<exists>g'. dc_config c' = Some g' \<and> dg_reserve_warn_bps g' = dg_reserve_warn_bps g))"

definition commodity_kept :: "DeskCommodity \<Rightarrow> DeskCommodity \<Rightarrow> bool" where
  "commodity_kept m m' \<longleftrightarrow> books_same m m' \<and> commodity_typed m' \<and> dm_reserve_balance_cached m' = dm_reserve_balance_cached m"

inductive desk_effect :: "desk_chain \<Rightarrow> desk_chain \<Rightarrow> bool" where
  quiet: "dc_clock c' = dc_clock c \<Longrightarrow> dc_tokens c' = dc_tokens c \<Longrightarrow> dc_updates c' = dc_updates c \<Longrightarrow>
    dc_log c' = dc_log c @ es \<Longrightarrow> list_all (quiet_event \<circ> snd) es \<Longrightarrow> prices_ok (dc_prices c') \<Longrightarrow> config_kept c c' \<Longrightarrow>
    (\<And>k. rel_option commodity_kept (dc_commodities c k) (dc_commodities c' k)) \<Longrightarrow> desk_effect c c'"
| created: "dc_config c \<noteq> None \<Longrightarrow> dc_commodities c k = None \<Longrightarrow> commodity_typed m \<Longrightarrow>
    dm_last_price m = 0 \<and> dm_window_start m = 0 \<and> dm_window_minted m = 0 \<Longrightarrow> dm_reserve_balance_cached m = 0 \<Longrightarrow>
    tk_mints (dc_tokens c) (dm_coin_mint m) = None \<Longrightarrow> tk_mints tk' (dm_coin_mint m) \<noteq> None \<Longrightarrow>
    account_owner tk' (dm_reserve_vault m) = Some k \<Longrightarrow> u64_tokens tk' \<Longrightarrow>
    (\<And>key. balance tk' key = balance (dc_tokens c) key) \<Longrightarrow> (\<And>i. coin_supply tk' i = coin_supply (dc_tokens c) i) \<Longrightarrow>
    (\<And>key w. account_owner (dc_tokens c) key = Some w \<Longrightarrow> account_owner tk' key = Some w) \<Longrightarrow>
    (\<And>i. tk_mints (dc_tokens c) i \<noteq> None \<Longrightarrow> tk_mints tk' i \<noteq> None) \<Longrightarrow> quiet_event e \<Longrightarrow>
    desk_effect c (desk_emit e (desk_store k m (c\<lparr>dc_tokens := tk'\<rparr>)))"
| moved: "dc_config c = Some g \<Longrightarrow> dc_commodities c k = Some m \<Longrightarrow> effect_ok c g k m m' e \<Longrightarrow> commodity_typed m' \<Longrightarrow>
    dm_reserve_balance_cached m' = balance tk' (dm_reserve_vault m') \<Longrightarrow> tokens_moved c k (net_usdc k e) (net_coin k e) tk' \<Longrightarrow> list_all (quiet_event \<circ> snd) es \<Longrightarrow>
    desk_effect c (c\<lparr>dc_tokens := tk', dc_commodities := (dc_commodities c)(k \<mapsto> m'), dc_log := dc_log c @ (dc_clock c, e) # es\<rparr>)"

section \<open>The invariant\<close>

definition untouched :: "bytes \<Rightarrow> (int \<times> desk_event) list \<Rightarrow> bool" where
  "untouched k xs \<longleftrightarrow> (\<forall>x\<in>set xs. trade_price k (snd x) = None \<and> net_usdc k (snd x) = 0 \<and> net_coin k (snd x) = 0)"

definition desk_inv :: "desk_chain \<Rightarrow> bool" where
  "desk_inv c \<longleftrightarrow> 0 \<le> dc_clock c \<and> dc_clock c \<le> I64_MAX \<and> u64_tokens (dc_tokens c) \<and> updates_ok (dc_updates c) \<and>
     prices_ok (dc_prices c) \<and> (dc_config c = None \<longrightarrow> dc_commodities c = Map.empty) \<and>
     (\<forall>k. dc_commodities c k = None \<longrightarrow> untouched k (dc_log c)) \<and>
     (\<forall>k m. dc_commodities c k = Some m \<longrightarrow> commodity_typed m \<and> account_owner (dc_tokens c) (dm_reserve_vault m) = Some k \<and>
        tk_mints (dc_tokens c) (dm_coin_mint m) \<noteq> None) \<and>
     (\<forall>k k2 m m2. dc_commodities c k = Some m \<and> dc_commodities c k2 = Some m2 \<and> dm_coin_mint m = dm_coin_mint m2 \<longrightarrow> k = k2) \<and>
     (\<forall>k m g. dc_commodities c k = Some m \<and> dc_config c = Some g \<longrightarrow> desk_ok g (dc_tokens c) (dc_clock c) (dc_log c) k m)"

lemma desk_invD:
  assumes "desk_inv c"
  shows "0 \<le> dc_clock c" "dc_clock c \<le> I64_MAX" "u64_tokens (dc_tokens c)" "updates_ok (dc_updates c)" "prices_ok (dc_prices c)"
    "dc_commodities c k = None \<Longrightarrow> untouched k (dc_log c)"
    "dc_commodities c k = Some m \<Longrightarrow> commodity_typed m"
    "dc_commodities c k = Some m \<Longrightarrow> account_owner (dc_tokens c) (dm_reserve_vault m) = Some k"
    "dc_commodities c k = Some m \<Longrightarrow> tk_mints (dc_tokens c) (dm_coin_mint m) \<noteq> None"
    "dc_commodities c k = Some m \<Longrightarrow> dc_commodities c k2 = Some m2 \<Longrightarrow> dm_coin_mint m = dm_coin_mint m2 \<Longrightarrow> k = k2"
    "dc_commodities c k = Some m \<Longrightarrow> dc_config c = Some g \<Longrightarrow> desk_ok g (dc_tokens c) (dc_clock c) (dc_log c) k m"
  using assms unfolding desk_inv_def by blast+

lemma untouched_append: "untouched k (xs @ ys) \<longleftrightarrow> untouched k xs \<and> untouched k ys"
  by (auto simp: untouched_def)

lemma untouched_quiet: "list_all (quiet_event \<circ> snd) es \<Longrightarrow> untouched k es"
  using quiet_net by (auto simp: untouched_def list_all_iff)

lemma untouched_books: "untouched k xs \<Longrightarrow> book_usdc k xs = 0 \<and> book_coin k xs = 0 \<and> minted_since k s xs = 0 \<and> no_trades k xs"
  by (induction xs) (auto simp: untouched_def book_usdc_def book_coin_def minted_since_def no_trades_def)

lemma new_desk_ok:
  assumes "untouched k xs" "dm_last_price m = 0 \<and> dm_window_start m = 0 \<and> dm_window_minted m = 0" "u64_tokens tk"
    "coin_supply tk (dm_coin_mint m) = 0" "0 \<le> now"
  shows "desk_ok g tk now xs k m"
  using assms untouched_books [OF assms(1)] unfolding desk_ok_def
  by (auto simp: u64_tokens_def in_u64_def rs_P_def no_trades_def)

lemma effect_other: "effect_ok c g k m m' e \<Longrightarrow> k2 \<noteq> k \<Longrightarrow> net_usdc k2 e = 0 \<and> net_coin k2 e = 0 \<and> trade_price k2 e = None"
  by (cases e) auto

lemma effect_keeps: "effect_ok c g k m m' e \<Longrightarrow> dm_coin_mint m' = dm_coin_mint m \<and> dm_reserve_vault m' = dm_reserve_vault m"
  by (cases e) (auto simp: books_same_def)

lemma supply_nonneg: "u64_tokens tk \<Longrightarrow> 0 \<le> coin_supply tk i"
  by (simp add: u64_tokens_def in_u64_def)

lemma quiet_keeps_inv:
  assumes inv: "desk_inv c" and same: "dc_clock c' = dc_clock c" "dc_tokens c' = dc_tokens c" "dc_updates c' = dc_updates c"
    and es: "dc_log c' = dc_log c @ es" "list_all (quiet_event \<circ> snd) es" and ps: "prices_ok (dc_prices c')" and g: "config_kept c c'"
    and rel: "\<And>k. rel_option commodity_kept (dc_commodities c k) (dc_commodities c' k)"
  shows "desk_inv c'"
proof -
  have none: "dc_commodities c' k = None \<longleftrightarrow> dc_commodities c k = None" for k using rel [of k] by (auto elim: option.rel_cases)
  have some: "\<exists>m. dc_commodities c k = Some m \<and> commodity_kept m m'" if "dc_commodities c' k = Some m'" for k m'
    using rel [of k] that by (auto elim: option.rel_cases)
  have ok: "desk_ok g' (dc_tokens c') (dc_clock c') (dc_log c') k m'"
    if new: "dc_commodities c' k = Some m'" "dc_config c' = Some g'" for k m' g'
  proof -
    obtain m where m: "dc_commodities c k = Some m" "books_same m m'" using some [OF new(1)] by (auto simp: commodity_kept_def)
    then obtain g0 where g0: "dc_config c = Some g0" using inv by (cases "dc_config c") (auto simp: desk_inv_def)
    have "desk_ok g0 (dc_tokens c) (dc_clock c) (dc_log c @ es) k m'"
      by (rule desk_ok_quiet [OF desk_invD(11) [OF inv m(1) g0] m(2) es(2)])
    moreover have "dg_reserve_warn_bps g' = dg_reserve_warn_bps g0" using g g0 new(2) by (auto simp: config_kept_def)
    ultimately show ?thesis unfolding same es desk_ok_def by auto
  qed
  show ?thesis
    unfolding desk_inv_def
  proof (intro conjI allI impI)
    show "dc_commodities c' = Map.empty" if "dc_config c' = None"
      using that inv g none by (auto simp: desk_inv_def config_kept_def fun_eq_iff)
    show "untouched k (dc_log c')" if "dc_commodities c' k = None" for k
      using that none desk_invD(6) [OF inv] es untouched_quiet by (auto simp: untouched_append)
    fix k m' assume "dc_commodities c' k = Some m'"
    from some [OF this] obtain m where m: "dc_commodities c k = Some m" "commodity_kept m m'" by blast
    then show "commodity_typed m'" "account_owner (dc_tokens c') (dm_reserve_vault m') = Some k" "tk_mints (dc_tokens c') (dm_coin_mint m') \<noteq> None"
      using desk_invD(8,9) [OF inv m(1)] by (simp_all add: commodity_kept_def books_same_def same)
  next
    fix k k2 m m2 assume a: "dc_commodities c' k = Some m \<and> dc_commodities c' k2 = Some m2 \<and> dm_coin_mint m = dm_coin_mint m2"
    then have new: "dc_commodities c' k = Some m" "dc_commodities c' k2 = Some m2" and mints: "dm_coin_mint m = dm_coin_mint m2" by simp_all
    from some [OF new(1)] obtain n where n: "dc_commodities c k = Some n" "dm_coin_mint m = dm_coin_mint n"
      unfolding commodity_kept_def books_same_def by blast
    from some [OF new(2)] obtain n2 where n2: "dc_commodities c k2 = Some n2" "dm_coin_mint m2 = dm_coin_mint n2"
      unfolding commodity_kept_def books_same_def by blast
    show "k = k2" by (rule desk_invD(10) [OF inv n(1) n2(1)]) (use n(2) n2(2) mints in simp)
  next
    fix k m g assume "dc_commodities c' k = Some m \<and> dc_config c' = Some g"
    then show "desk_ok g (dc_tokens c') (dc_clock c') (dc_log c') k m" using ok by blast
  qed (simp_all add: same ps desk_invD(1-4) [OF inv])
qed

lemma created_keeps_inv:
  assumes inv: "desk_inv c" and new: "dc_config c \<noteq> None" "dc_commodities c k = None" and m: "commodity_typed m"
    "dm_last_price m = 0 \<and> dm_window_start m = 0 \<and> dm_window_minted m = 0"
    and mint: "tk_mints (dc_tokens c) (dm_coin_mint m) = None" "tk_mints tk' (dm_coin_mint m) \<noteq> None"
    and vault: "account_owner tk' (dm_reserve_vault m) = Some k" and u64: "u64_tokens tk'"
    and same: "\<And>key. balance tk' key = balance (dc_tokens c) key" "\<And>i. coin_supply tk' i = coin_supply (dc_tokens c) i"
      "\<And>key w. account_owner (dc_tokens c) key = Some w \<Longrightarrow> account_owner tk' key = Some w"
      "\<And>i. tk_mints (dc_tokens c) i \<noteq> None \<Longrightarrow> tk_mints tk' i \<noteq> None"
    and e: "quiet_event e"
  shows "desk_inv (desk_emit e (desk_store k m (c\<lparr>dc_tokens := tk'\<rparr>)))"
proof -
  let ?es = "[(dc_clock c, e)]"
  have q: "list_all (quiet_event \<circ> snd) ?es" using e by simp
  have other: "desk_ok g tk' (dc_clock c) (dc_log c @ ?es) k2 m2" if "dc_commodities c k2 = Some m2" "dc_config c = Some g" for k2 m2 g
    by (rule desk_ok_quiet [OF desk_ok_outside [OF desk_invD(11) [OF inv that]] _ q]) (simp_all add: same books_same_def)
  have mine: "desk_ok g tk' (dc_clock c) (dc_log c @ ?es) k m" for g
  proof (rule new_desk_ok [OF _ m(2) u64])
    show "untouched k (dc_log c @ ?es)" using desk_invD(6) [OF inv new(2)] untouched_quiet [OF q] by (simp add: untouched_append)
    show "coin_supply tk' (dm_coin_mint m) = 0" using mint(1) same(2) by (simp add: coin_supply_def)
  qed (rule desk_invD(1) [OF inv])
  have none: "untouched k2 (dc_log c @ ?es)" if "dc_commodities c k2 = None" for k2
    using desk_invD(6) [OF inv that] untouched_quiet [OF q] by (simp add: untouched_append)
  have distinct: "dm_coin_mint m2 \<noteq> dm_coin_mint m" if "dc_commodities c k2 = Some m2" for k2 m2
    using desk_invD(9) [OF inv that] mint(1) by auto
  let ?c' = "desk_emit e (desk_store k m (c\<lparr>dc_tokens := tk'\<rparr>))"
  have f: "dc_clock ?c' = dc_clock c" "dc_tokens ?c' = tk'" "dc_updates ?c' = dc_updates c" "dc_prices ?c' = dc_prices c"
    "dc_config ?c' = dc_config c" "dc_log ?c' = dc_log c @ ?es" "dc_commodities ?c' = (dc_commodities c)(k \<mapsto> m)"
    by (simp_all add: desk_emit_def desk_store_def)
  show ?thesis
    unfolding desk_inv_def f
  proof (intro conjI allI impI)
    fix k2 m2 assume a: "((dc_commodities c)(k \<mapsto> m)) k2 = Some m2"
    show "commodity_typed m2" using a m(1) desk_invD(7) [OF inv] by (auto split: if_splits)
    show "account_owner tk' (dm_reserve_vault m2) = Some k2" using a vault same(3) desk_invD(8) [OF inv] by (auto split: if_splits)
    show "tk_mints tk' (dm_coin_mint m2) \<noteq> None" using a mint(2) same(4) desk_invD(9) [OF inv] by (metis map_upd_Some_unfold)
  next
    fix k1 k2 m1 m2
    assume a: "((dc_commodities c)(k \<mapsto> m)) k1 = Some m1 \<and> ((dc_commodities c)(k \<mapsto> m)) k2 = Some m2 \<and> dm_coin_mint m1 = dm_coin_mint m2"
    then show "k1 = k2" using distinct desk_invD(10) [OF inv, of k1 m1 k2 m2] by (metis map_upd_Some_unfold)
  next
    fix k2 m2 g assume "((dc_commodities c)(k \<mapsto> m)) k2 = Some m2 \<and> dc_config c = Some g"
    then show "desk_ok g tk' (dc_clock c) (dc_log c @ ?es) k2 m2" using other mine by (auto split: if_splits)
  qed (use none new(1) u64 desk_invD(1-5) [OF inv] in \<open>auto split: if_splits\<close>)
qed

lemma moved_keeps_inv:
  assumes inv: "desk_inv c" and g: "dc_config c = Some g" and m: "dc_commodities c k = Some m" and eff: "effect_ok c g k m m' e"
    and typed: "commodity_typed m'" and tk: "tokens_moved c k (net_usdc k e) (net_coin k e) tk'"
    and es: "list_all (quiet_event \<circ> snd) es"
  shows "desk_inv (c\<lparr>dc_tokens := tk', dc_commodities := (dc_commodities c)(k \<mapsto> m'), dc_log := dc_log c @ (dc_clock c, e) # es\<rparr>)"
proof -
  let ?xs = "dc_log c @ [(dc_clock c, e)]"
  have acc: "same_accounts (dc_tokens c) tk'" and u64: "u64_tokens tk'" using tk by (simp_all add: tokens_moved_def)
  have bal: "balance (dc_tokens c) (dm_reserve_vault m2) + moved k (net_usdc k e) k2 \<le> balance tk' (dm_reserve_vault m2)"
    "coin_supply tk' (dm_coin_mint m2) = coin_supply (dc_tokens c) (dm_coin_mint m2) + moved k (net_coin k e) k2"
    if "dc_commodities c k2 = Some m2" for k2 m2
    using tk that by (simp_all add: tokens_moved_def)
  have b: "balance (dc_tokens c) (dm_reserve_vault m) + net_usdc k e \<le> balance tk' (dm_reserve_vault m)"
    and s: "coin_supply tk' (dm_coin_mint m) = coin_supply (dc_tokens c) (dm_coin_mint m) + net_coin k e"
    using bal [OF m] by (simp_all add: moved_def)
  have price: "in_u64 (dm_last_price m)" using desk_invD(7) [OF inv m] by (simp add: commodity_typed_def)
  have "desk_ok g tk' (dc_clock c) ?xs k m'"
    by (rule desk_ok_event [OF desk_invD(11) [OF inv m g] eff desk_invD(1,3) [OF inv] price b s supply_nonneg [OF u64]])
  then have mine: "desk_ok g tk' (dc_clock c) (?xs @ es) k m'" by (rule desk_ok_quiet [OF _ _ es]) (simp add: books_same_def)
  have other: "desk_ok g tk' (dc_clock c) (?xs @ es) k2 m2" if k2: "k2 \<noteq> k" "dc_commodities c k2 = Some m2" for k2 m2
  proof -
    have "desk_ok g tk' (dc_clock c) (dc_log c) k2 m2"
      by (rule desk_ok_outside [OF desk_invD(11) [OF inv k2(2) g]]) (use bal [OF k2(2)] k2(1) in \<open>simp_all add: moved_def\<close>)
    then have "desk_ok g tk' (dc_clock c) ?xs k2 m2" by (rule desk_ok_other) (use effect_other [OF eff k2(1)] in auto)
    then show ?thesis by (rule desk_ok_quiet [OF _ _ es]) (simp add: books_same_def)
  qed
  have none: "untouched k2 (?xs @ es)" if "dc_commodities c k2 = None" for k2
  proof -
    have "k2 \<noteq> k" using that m by auto
    from effect_other [OF eff this] have "untouched k2 [(dc_clock c, e)]" by (simp add: untouched_def)
    then show ?thesis using desk_invD(6) [OF inv that] untouched_quiet [OF es] unfolding untouched_append by blast
  qed
  let ?c' = "c\<lparr>dc_tokens := tk', dc_commodities := (dc_commodities c)(k \<mapsto> m'), dc_log := dc_log c @ (dc_clock c, e) # es\<rparr>"
  have f: "dc_clock ?c' = dc_clock c" "dc_tokens ?c' = tk'" "dc_updates ?c' = dc_updates c" "dc_prices ?c' = dc_prices c"
    "dc_config ?c' = dc_config c" "dc_log ?c' = ?xs @ es" "dc_commodities ?c' = (dc_commodities c)(k \<mapsto> m')"
    by simp_all
  show ?thesis
    unfolding desk_inv_def f
  proof (intro conjI allI impI)
    fix k2 m2 assume a: "((dc_commodities c)(k \<mapsto> m')) k2 = Some m2"
    show "commodity_typed m2" using a typed desk_invD(7) [OF inv] by (auto split: if_splits)
    show "account_owner tk' (dm_reserve_vault m2) = Some k2" "tk_mints tk' (dm_coin_mint m2) \<noteq> None"
      using a acc desk_invD(8,9) [OF inv m] desk_invD(8,9) [OF inv, of k2 m2] effect_keeps [OF eff]
      by (auto simp: same_accounts_def split: if_splits)
  next
    fix k1 k2 m1 m2
    assume a: "((dc_commodities c)(k \<mapsto> m')) k1 = Some m1 \<and> ((dc_commodities c)(k \<mapsto> m')) k2 = Some m2 \<and> dm_coin_mint m1 = dm_coin_mint m2"
    obtain n1 n2 where "dc_commodities c k1 = Some n1" "dm_coin_mint n1 = dm_coin_mint m1" "dc_commodities c k2 = Some n2" "dm_coin_mint n2 = dm_coin_mint m2"
      using a m effect_keeps [OF eff] by (metis map_upd_Some_unfold)
    then show "k1 = k2" using a desk_invD(10) [OF inv, of k1 n1 k2 n2] by simp
  next
    fix k2 m2 g2 assume "((dc_commodities c)(k \<mapsto> m')) k2 = Some m2 \<and> dc_config c = Some g2"
    then show "desk_ok g2 tk' (dc_clock c) (?xs @ es) k2 m2" using other mine g by (auto split: if_splits)
  qed (use none g u64 desk_invD(1-5) [OF inv] in \<open>auto split: if_splits\<close>)
qed

lemma effect_keeps_inv: "desk_effect c c' \<Longrightarrow> desk_inv c \<Longrightarrow> desk_inv c'"
proof (induction rule: desk_effect.induct)
  case (quiet c' c es)
  then show ?case by (intro quiet_keeps_inv [of c c' es]) auto
next
  case (created c k m tk' e)
  then show ?case by (intro created_keeps_inv) auto
next
  case (moved c g k m m' e tk' es)
  then show ?case by (intro moved_keeps_inv) auto
qed

section \<open>The cached balance\<close>

text \<open>
  \<open>reserve_balance_cached\<close> is written by every instruction that moves the reserve; between two of
  them a vault can only receive.
\<close>

definition cached_ok :: "desk_chain \<Rightarrow> bool" where
  "cached_ok c \<longleftrightarrow> (\<forall>k m. dc_commodities c k = Some m \<longrightarrow> dm_reserve_balance_cached m \<le> balance (dc_tokens c) (dm_reserve_vault m))"

lemma cached_okD: "cached_ok c \<Longrightarrow> dc_commodities c k = Some m \<Longrightarrow> dm_reserve_balance_cached m \<le> balance (dc_tokens c) (dm_reserve_vault m)"
  by (simp add: cached_ok_def)

lemma other_balance: "k2 \<noteq> k \<Longrightarrow> dc_commodities c k2 = Some m2 \<Longrightarrow> tokens_moved c k dv ds tk' \<Longrightarrow>
    balance (dc_tokens c) (dm_reserve_vault m2) \<le> balance tk' (dm_reserve_vault m2)"
  by (fastforce simp: tokens_moved_def moved_def)

lemma effect_keeps_cached: "desk_effect c c' \<Longrightarrow> desk_inv c \<Longrightarrow> cached_ok c \<Longrightarrow> cached_ok c'"
proof (induction rule: desk_effect.induct)
  case (quiet c' c es)
  have "\<exists>m. dc_commodities c k = Some m \<and> commodity_kept m m'" if "dc_commodities c' k = Some m'" for k m'
    using quiet.hyps(8) [of k] that by (auto elim: option.rel_cases)
  then show ?case using quiet.hyps(2) cached_okD [OF quiet.prems(2)]
    unfolding cached_ok_def commodity_kept_def books_same_def by metis
next
  case (created c k m tk' e)
  have "0 \<le> balance tk' key" for key using created.hyps(9) by (simp add: u64_tokens_def in_u64_def)
  then show ?case using cached_okD [OF created.prems(2)] created.hyps(5,10)
    by (auto simp: cached_ok_def desk_emit_def desk_store_def)
next
  case (moved c g k m m' e tk' es)
  have "dm_reserve_balance_cached m2 \<le> balance tk' (dm_reserve_vault m2)" if "k2 \<noteq> k" "dc_commodities c k2 = Some m2" for k2 m2
    using cached_okD [OF moved.prems(2) that(2)] other_balance [OF that moved.hyps(6)] by simp
  then show ?case using moved.hyps(5) by (auto simp: cached_ok_def)
qed

end
