(* ===== verification/Desk_Run.thy ===== *)
theory Desk_Run
  imports Desk_Books
begin

text \<open>
  Every instruction of \<^verbatim>\<open>peg_desk\<close> has one of the effects of \<open>Desk_Books\<close>, so the invariant holds
  on every reachable chain; the properties of the program, and the refinement of the keeper's view
  of it (theory \<open>PegChain\<close>).
\<close>

section \<open>Tokens\<close>

lemma transferD:
  assumes "token_ok tp" "sp_transfer tp src dst auth n tk = Inr tk'"
  shows "same_accounts tk tk'" "u64_tokens tk \<Longrightarrow> u64_tokens tk'"
    "balance tk' key = balance tk key - moved src n key + moved dst n key" "coin_supply tk' i = coin_supply tk i"
  using assms(1)[unfolded token_ok_def, THEN conjunct1, rule_format, OF assms(2)] by auto

lemma mint_toD:
  assumes "token_ok tp" "sp_mint_to tp mint dst auth n tk = Inr tk'"
  shows "same_accounts tk tk'" "u64_tokens tk \<Longrightarrow> u64_tokens tk'"
    "balance tk' key = balance tk key + moved dst n key" "coin_supply tk' i = coin_supply tk i + moved mint n i"
  using assms(1)[unfolded token_ok_def, THEN conjunct2, THEN conjunct1, rule_format, OF assms(2)] by auto

lemma burnD:
  assumes "token_ok tp" "sp_burn tp mint src auth n tk = Inr tk'"
  shows "same_accounts tk tk'" "u64_tokens tk \<Longrightarrow> u64_tokens tk'"
    "balance tk' key = balance tk key - moved src n key" "coin_supply tk' i = coin_supply tk i - moved mint n i"
  using assms(1)[unfolded token_ok_def, THEN conjunct2, THEN conjunct2, rule_format, OF assms(2)] by auto

lemma same_accounts_trans: "same_accounts a b \<Longrightarrow> same_accounts b d \<Longrightarrow> same_accounts a d"
  by (simp add: same_accounts_def)

text \<open>A vault is none of the accounts of somebody who can sign, and each commodity has its own.\<close>

lemma vault_apart:
  assumes "desk_inv c" "dc_commodities c k = Some m" "account_owner (dc_tokens c) key = Some user" "dc_commodities c user = None"
  shows "key \<noteq> dm_reserve_vault m" "dm_reserve_vault m \<noteq> key"
  using desk_invD(8) [OF assms(1,2)] assms(2-4) by auto

lemma vaults_distinct: "desk_inv c \<Longrightarrow> dc_commodities c k = Some m \<Longrightarrow> dc_commodities c k2 = Some m2 \<Longrightarrow>
    dm_reserve_vault m2 = dm_reserve_vault m \<Longrightarrow> k2 = k"
  using desk_invD(8) [of c k m] desk_invD(8) [of c k2 m2] by simp

lemma token_balance: "token_at (tk_accounts tk) key = Some t \<Longrightarrow> balance tk key = ta_amount t \<and> account_owner tk key = Some (ta_owner t)"
  by (simp add: balance_def account_owner_def)

section \<open>The common part of the trades\<close>

lemma desk_commodity_Inr: "desk_commodity env k c = Inr m \<longleftrightarrow> dc_commodities c k = Some m \<and> k = commodity_address env (dm_symbol m)"
  by (auto simp: desk_commodity_def result_simps)

lemma context_facts:
  assumes "trade_context env a c = Inr t"
  shows "dc_config c = Some (tc_config t)" "dc_commodities c (tr_commodity a) = Some (tc_commodity t)"
    "tr_coin_mint a = dm_coin_mint (tc_commodity t)" "tr_reserve_vault a = dm_reserve_vault (tc_commodity t)"
    "tc_supply t = coin_supply (dc_tokens c) (tr_coin_mint a)" "tc_reserve t = balance (dc_tokens c) (tr_reserve_vault a)"
    "account_owner (dc_tokens c) (tr_user_usdc a) = Some (tr_user a)" "account_owner (dc_tokens c) (tr_user_coin a) = Some (tr_user a)"
  using assms unfolding trade_context_def
  by (auto simp: result_simps desk_commodity_Inr coin_supply_def dest!: token_balance)

lemma quote_facts:
  assumes inv: "desk_inv c" and py: "pyth_ok env" and t: "trade_context env a c = Inr t" and q: "desk_quote env a t b c = Inr q"
  shows "qu_now q = dc_clock c" "0 < qu_price q" "in_u64 (qu_price q)" "0 \<le> qu_spread_bps q"
proof -
  let ?m = "tc_commodity t"
  have typed: "commodity_typed ?m" by (rule desk_invD(7) [OF inv context_facts(2) [OF t]])
  from q obtain op s where op: "read_price env ?m (tr_commodity a) (tr_oracle a) c = Inr op"
    and s: "rs_effective_spread_bps (dm_base_spread_bps ?m) (dm_closed_spread_bps ?m) (dm_conf_mult_bps ?m) (op_conf op)
       (op_price op) (age_secs (dc_clock c) (op_publish_time op)) (max_age ?m) (dm_status ?m)
       (rs_reserve_ratio_bps (tc_reserve t) (tc_supply t) (op_price op)) (dg_reserve_warn_bps (tc_config t)) = Some s"
    and q': "q = \<lparr>qu_price = op_price op, qu_publish_time = op_publish_time op, qu_spread_bps = s, qu_now = dc_clock c\<rparr>"
    unfolding desk_quote_def Let_def by (auto simp: result_simps)
  have p: "typed_price op \<and> 0 < op_price op" by (rule price_typed [OF py desk_invD(4,5) [OF inv] typed op])
  have "0 \<le> s" by (rule spread_nonneg [OF s]) (use typed p in \<open>auto simp: commodity_typed_def typed_price_def in_u64_def\<close>)
  then show "qu_now q = dc_clock c" "0 < qu_price q" "in_u64 (qu_price q)" "0 \<le> qu_spread_bps q"
    using p unfolding q' by (simp_all add: typed_price_def)
qed

lemma alert_log:
  "alert k r w (desk_emit e (desk_store k m (c\<lparr>dc_tokens := tk\<rparr>))) = c\<lparr>dc_tokens := tk, dc_commodities := (dc_commodities c)(k \<mapsto> m),
     dc_log := dc_log c @ (dc_clock c, e) # (if r < w then [(dc_clock c, EvReserveAlert k r)] else [])\<rparr>"
  by (simp add: alert_def desk_emit_def desk_store_def)

lemma after_trade_fields [simp]:
  "dm_coin_mint (after_trade q v m) = dm_coin_mint m" "dm_reserve_vault (after_trade q v m) = dm_reserve_vault m"
  "dm_last_price (after_trade q v m) = qu_price q" "dm_window_start (after_trade q v m) = dm_window_start m"
  "dm_window_minted (after_trade q v m) = dm_window_minted m"
  by (simp_all add: after_trade_def Let_def)

lemma after_trade_cached [simp]: "dm_reserve_balance_cached (after_trade q v m) = v"
  by (simp add: after_trade_def Let_def)

lemma after_trade_typed: "commodity_typed m \<Longrightarrow> in_u64 (qu_price q) \<Longrightarrow> commodity_typed (after_trade q v m)"
  by (simp add: commodity_typed_def after_trade_def Let_def)

lemma window_typed [simp]: "commodity_typed (m\<lparr>dm_window_redeemed := r\<rparr>) = commodity_typed m"
  "commodity_typed (m\<lparr>dm_window_start := s\<rparr>) = commodity_typed m" "commodity_typed (m\<lparr>dm_window_minted := i\<rparr>) = commodity_typed m"
  by (simp_all add: commodity_typed_def)

lemma window_add_Some:
  assumes "window_add start used now DAILY_WINDOW_SECS cap n = Some w" and "0 \<le> start" "start \<le> now" "now \<le> I64_MAX"
  shows "fst w = (if now - start \<ge> DAILY_WINDOW_SECS then now else start)"
    "snd w = (if now - start \<ge> DAILY_WINDOW_SECS then n else used + n)" "0 \<le> snd w" "0 < cap \<Longrightarrow> snd w \<le> cap"
proof -
  have "saturating_i64 (now - start) = now - start" using assms(2-4) by (simp add: saturating_i64_def I64_MAX_def)
  then show "fst w = (if now - start \<ge> DAILY_WINDOW_SECS then now else start)"
    "snd w = (if now - start \<ge> DAILY_WINDOW_SECS then n else used + n)" "0 \<le> snd w" "0 < cap \<Longrightarrow> snd w \<le> cap"
    using assms(1) by (auto simp: window_add_def Let_def in_u64_def split: if_splits)
qed

lemma window_known:
  assumes inv: "desk_inv c" and m: "dc_commodities c k = Some m" and g: "dc_config c = Some g"
  shows "0 \<le> dm_window_start m" "dm_window_start m \<le> dc_clock c" "0 \<le> dm_window_minted m"
  using desk_invD(11) [OF inv m g] by (auto simp: desk_ok_def)

text \<open>A successful handler passed every check.\<close>

lemma run_sbindE: "sbind r f = Inr b \<Longrightarrow> (\<And>a. r = Inr a \<Longrightarrow> f a = Inr b \<Longrightarrow> P) \<Longrightarrow> P"
  by (auto simp: sbind_eq_Inr_iff)

lemma checkD: "checked_u64 n = Inr v \<Longrightarrow> v = n"
  by (auto simp: checked_u64_eq_Inr)

lemma execute_buyD:
  assumes "execute_buy env a t q usdc coin c = Inr c'"
  shows "\<exists>w tk1 tk2 vault. window_add (dm_window_start (tc_commodity t)) (dm_window_minted (tc_commodity t)) (qu_now q)
      DAILY_WINDOW_SECS (dm_daily_mint_cap (tc_commodity t)) coin = Some w \<and>
    sp_transfer (de_tokens env) (tr_user_usdc a) (tr_reserve_vault a) (tr_user a) usdc (dc_tokens c) = Inr tk1 \<and>
    sp_mint_to (de_tokens env) (tr_coin_mint a) (tr_user_coin a) (mint_auth_address env) coin tk1 = Inr tk2 \<and>
    token_at (tk_accounts tk2) (tr_reserve_vault a) = Some vault \<and>
    c' = alert (tr_commodity a) (rs_reserve_ratio_bps (tc_reserve t + usdc) (tc_supply t + coin) (qu_price q)) (dg_reserve_warn_bps (tc_config t))
      (desk_emit (EvTrade (tr_commodity a) (tr_user a) SIDE_BUY usdc coin (qu_price q) (qu_spread_bps q))
        (desk_store (tr_commodity a) (after_trade q (ta_amount vault) ((tc_commodity t)\<lparr>dm_window_start := fst w, dm_window_minted := snd w,
          dm_window_redeemed := window_release (if fst w \<noteq> dm_window_start (tc_commodity t) then 0 else dm_window_redeemed (tc_commodity t)) usdc\<rparr>))
        (c\<lparr>dc_tokens := tk2\<rparr>)))"
  using assms unfolding execute_buy_def Let_def
  apply (elim run_sbindE)
  apply (drule checkD)+
  apply (drule some_or_eq_Inr [THEN iffD1])+
  apply (drule sum.inject(2) [THEN iffD1])
  apply (intro exI conjI, assumption, assumption, assumption, assumption)
  apply (erule trans [OF sym])
  apply simp
  done

lemma execute_sellD:
  assumes "execute_sell env a t q coin usdc c = Inr c'"
  shows "\<exists>w cap n tk1 tk2 vault mint. window_add (dm_window_start (tc_commodity t)) (dm_window_redeemed (tc_commodity t)) (qu_now q)
      DAILY_WINDOW_SECS cap n = Some w \<and>
    sp_burn (de_tokens env) (tr_coin_mint a) (tr_user_coin a) (tr_user a) coin (dc_tokens c) = Inr tk1 \<and>
    sp_transfer (de_tokens env) (tr_reserve_vault a) (tr_user_usdc a) (tr_commodity a) usdc tk1 = Inr tk2 \<and>
    token_at (tk_accounts tk2) (tr_reserve_vault a) = Some vault \<and> tk_mints tk2 (tr_coin_mint a) = Some mint \<and>
    c' = alert (tr_commodity a) (rs_reserve_ratio_bps (ta_amount vault) (mi_supply mint) (qu_price q)) (dg_reserve_warn_bps (tc_config t))
      (desk_emit (EvTrade (tr_commodity a) (tr_user a) SIDE_SELL usdc coin (qu_price q) (qu_spread_bps q))
        (desk_store (tr_commodity a) (after_trade q (ta_amount vault) ((tc_commodity t)\<lparr>dm_window_start := fst w, dm_window_redeemed := snd w,
          dm_window_minted := window_release (if fst w \<noteq> dm_window_start (tc_commodity t) then 0 else dm_window_minted (tc_commodity t)) coin\<rparr>))
        (c\<lparr>dc_tokens := tk2\<rparr>)))"
  using assms unfolding execute_sell_def Let_def
  apply (elim run_sbindE)
  apply (drule some_or_eq_Inr [THEN iffD1])+
  apply (drule sum.inject(2) [THEN iffD1])
  apply (intro exI conjI, assumption, assumption, assumption, assumption, assumption)
  apply (erule trans [OF sym])
  apply simp
  done

lemma buy_effect:
  assumes inv: "desk_inv c" and ok: "token_ok (de_tokens env)" "pyth_ok env" and t: "trade_context env a c = Inr t"
    and q: "desk_quote env a t True c = Inr q" and run: "execute_buy env a t q usdc coin c = Inr c'"
    and fair: "coin * qu_price q \<le> usdc * rs_P" and user: "dc_commodities c (tr_user a) = None"
  shows "desk_effect c c'"
proof -
  let ?m = "tc_commodity t" and ?k = "tr_commodity a" and ?g = "tc_config t"
  note f = context_facts [OF t] and qf = quote_facts [OF inv ok(2) t q]
  let ?e = "EvTrade ?k (tr_user a) SIDE_BUY usdc coin (qu_price q) (qu_spread_bps q)"
  from execute_buyD [OF run] obtain w tk1 tk2 and vault :: token_account where
    w: "window_add (dm_window_start ?m) (dm_window_minted ?m) (qu_now q) DAILY_WINDOW_SECS (dm_daily_mint_cap ?m) coin = Some w"
    and tk1: "sp_transfer (de_tokens env) (tr_user_usdc a) (tr_reserve_vault a) (tr_user a) usdc (dc_tokens c) = Inr tk1"
    and tk2: "sp_mint_to (de_tokens env) (tr_coin_mint a) (tr_user_coin a) (mint_auth_address env) coin tk1 = Inr tk2"
    and v: "token_at (tk_accounts tk2) (tr_reserve_vault a) = Some vault"
    and c': "c' = alert ?k (rs_reserve_ratio_bps (tc_reserve t + usdc) (tc_supply t + coin) (qu_price q)) (dg_reserve_warn_bps ?g)
      (desk_emit ?e (desk_store ?k (after_trade q (ta_amount vault) (?m\<lparr>dm_window_start := fst w, dm_window_minted := snd w,
        dm_window_redeemed := window_release (if fst w \<noteq> dm_window_start ?m then 0 else dm_window_redeemed ?m) usdc\<rparr>)) (c\<lparr>dc_tokens := tk2\<rparr>)))"
    by blast
  let ?m' = "after_trade q (ta_amount vault) (?m\<lparr>dm_window_start := fst w, dm_window_minted := snd w,
        dm_window_redeemed := window_release (if fst w \<noteq> dm_window_start ?m then 0 else dm_window_redeemed ?m) usdc\<rparr>)"
  note wk = window_known [OF inv f(2,1)]
  note ws = window_add_Some [OF w [unfolded qf(1)] wk(1,2) desk_invD(2) [OF inv]]
  have eff: "effect_ok c ?g ?k ?m ?m' ?e"
    using fair qf(2,3) ws by (auto simp: window_step_def)
  have typed: "commodity_typed ?m'" using desk_invD(7) [OF inv f(2)] qf(3) by (intro after_trade_typed) simp_all
  have moved: "tokens_moved c ?k (net_usdc ?k ?e) (net_coin ?k ?e) tk2"
    unfolding tokens_moved_def
  proof (intro conjI allI impI)
    show "same_accounts (dc_tokens c) tk2" using transferD(1) [OF ok(1) tk1] mint_toD(1) [OF ok(1) tk2] by (rule same_accounts_trans)
    show "u64_tokens tk2" by (rule mint_toD(2) [OF ok(1) tk2 transferD(2) [OF ok(1) tk1 desk_invD(3) [OF inv]]])
    fix k2 m2 assume m2: "dc_commodities c k2 = Some m2"
    note apart = vault_apart [OF inv m2 f(7) user] vault_apart [OF inv m2 f(8) user]
    have dv: "dm_reserve_vault m2 = tr_reserve_vault a \<longleftrightarrow> k2 = ?k" using vaults_distinct [OF inv f(2) m2] m2 f(2,4) by auto
    have di: "dm_coin_mint m2 = tr_coin_mint a \<longleftrightarrow> k2 = ?k" using desk_invD(10) [OF inv m2 f(2)] m2 f(2,3) by auto
    show "balance (dc_tokens c) (dm_reserve_vault m2) + moved ?k (net_usdc ?k ?e) k2 \<le> balance tk2 (dm_reserve_vault m2)"
      using apart dv by (simp add: mint_toD(3) [OF ok(1) tk2] transferD(3) [OF ok(1) tk1] moved_def)
    show "coin_supply tk2 (dm_coin_mint m2) = coin_supply (dc_tokens c) (dm_coin_mint m2) + moved ?k (net_coin ?k ?e) k2"
      using di by (simp add: mint_toD(4) [OF ok(1) tk2] transferD(4) [OF ok(1) tk1] moved_def)
  qed
  show ?thesis
    unfolding c' alert_log by (rule desk_effect.moved [OF f(1,2) eff typed _ moved]) (simp_all add: f(4) [symmetric] token_balance [OF v])
qed

lemma sell_effect:
  assumes inv: "desk_inv c" and ok: "token_ok (de_tokens env)" "pyth_ok env" and t: "trade_context env a c = Inr t"
    and q: "desk_quote env a t False c = Inr q" and run: "execute_sell env a t q coin usdc c = Inr c'"
    and fair: "usdc * rs_P \<le> coin * qu_price q" and user: "dc_commodities c (tr_user a) = None" and pos: "0 < coin"
  shows "desk_effect c c'"
proof -
  let ?m = "tc_commodity t" and ?k = "tr_commodity a" and ?g = "tc_config t"
  note f = context_facts [OF t] and qf = quote_facts [OF inv ok(2) t q]
  let ?e = "EvTrade ?k (tr_user a) SIDE_SELL usdc coin (qu_price q) (qu_spread_bps q)"
  from execute_sellD [OF run] obtain w cap n tk1 tk2 and vault :: token_account and mint :: mint_account where
    w: "window_add (dm_window_start ?m) (dm_window_redeemed ?m) (qu_now q) DAILY_WINDOW_SECS cap n = Some w"
    and tk1: "sp_burn (de_tokens env) (tr_coin_mint a) (tr_user_coin a) (tr_user a) coin (dc_tokens c) = Inr tk1"
    and tk2: "sp_transfer (de_tokens env) (tr_reserve_vault a) (tr_user_usdc a) ?k usdc tk1 = Inr tk2"
    and v: "token_at (tk_accounts tk2) (tr_reserve_vault a) = Some vault"
    and c': "c' = alert ?k (rs_reserve_ratio_bps (ta_amount vault) (mi_supply mint) (qu_price q)) (dg_reserve_warn_bps ?g) (desk_emit ?e (desk_store ?k (after_trade q (ta_amount vault)
      (?m\<lparr>dm_window_start := fst w, dm_window_redeemed := snd w,
        dm_window_minted := window_release (if fst w \<noteq> dm_window_start ?m then 0 else dm_window_minted ?m) coin\<rparr>)) (c\<lparr>dc_tokens := tk2\<rparr>)))"
    by blast
  let ?m' = "after_trade q (ta_amount vault) (?m\<lparr>dm_window_start := fst w, dm_window_redeemed := snd w,
        dm_window_minted := window_release (if fst w \<noteq> dm_window_start ?m then 0 else dm_window_minted ?m) coin\<rparr>)"
  note wk = window_known [OF inv f(2,1)]
  note ws = window_add_Some [OF w [unfolded qf(1)] wk(1,2) desk_invD(2) [OF inv]]
  have rolled: "dm_window_start ?m \<noteq> dc_clock c" if "DAILY_WINDOW_SECS \<le> dc_clock c - dm_window_start ?m"
    using that by (auto simp: DAILY_WINDOW_SECS_def)
  have eff: "effect_ok c ?g ?k ?m ?m' ?e"
    using fair qf(2,3) ws rolled pos wk(3) by (auto simp: window_step_def window_release_def SIDE_BUY_def SIDE_SELL_def)
  have typed: "commodity_typed ?m'" using desk_invD(7) [OF inv f(2)] qf(3) by (intro after_trade_typed) simp_all
  have moved: "tokens_moved c ?k (net_usdc ?k ?e) (net_coin ?k ?e) tk2"
    unfolding tokens_moved_def
  proof (intro conjI allI impI)
    show "same_accounts (dc_tokens c) tk2" using burnD(1) [OF ok(1) tk1] transferD(1) [OF ok(1) tk2] by (rule same_accounts_trans)
    show "u64_tokens tk2" by (rule transferD(2) [OF ok(1) tk2 burnD(2) [OF ok(1) tk1 desk_invD(3) [OF inv]]])
    fix k2 m2 assume m2: "dc_commodities c k2 = Some m2"
    note apart = vault_apart [OF inv m2 f(7) user] vault_apart [OF inv m2 f(8) user]
    have dv: "dm_reserve_vault m2 = tr_reserve_vault a \<longleftrightarrow> k2 = ?k" using vaults_distinct [OF inv f(2) m2] m2 f(2,4) by auto
    have di: "dm_coin_mint m2 = tr_coin_mint a \<longleftrightarrow> k2 = ?k" using desk_invD(10) [OF inv m2 f(2)] m2 f(2,3) by auto
    show "balance (dc_tokens c) (dm_reserve_vault m2) + moved ?k (net_usdc ?k ?e) k2 \<le> balance tk2 (dm_reserve_vault m2)"
      using apart dv by (simp add: burnD(3) [OF ok(1) tk1] transferD(3) [OF ok(1) tk2] moved_def SIDE_BUY_def SIDE_SELL_def)
    show "coin_supply tk2 (dm_coin_mint m2) = coin_supply (dc_tokens c) (dm_coin_mint m2) + moved ?k (net_coin ?k ?e) k2"
      using di by (simp add: burnD(4) [OF ok(1) tk1] transferD(4) [OF ok(1) tk2] moved_def SIDE_BUY_def SIDE_SELL_def)
  qed
  show ?thesis
    unfolding c' alert_log by (rule desk_effect.moved [OF f(1,2) eff typed _ moved]) (simp_all add: f(4) [symmetric] token_balance [OF v])
qed

lemma trade_effects:
  assumes inv: "desk_inv c" and ok: "token_ok (de_tokens env)" "pyth_ok env" and user: "dc_commodities c (tr_user a) = None"
  shows "desk_buy env a x y c = Inr c' \<Longrightarrow> desk_effect c c'" "desk_buy_exact_out env a x y c = Inr c' \<Longrightarrow> desk_effect c c'"
    "desk_sell env a x y c = Inr c' \<Longrightarrow> desk_effect c c'"
proof -
  assume "desk_buy env a x y c = Inr c'"
  then obtain t q ask coin where t: "trade_context env a c = Inr t" and x: "0 < x" and q: "desk_quote env a t True c = Inr q"
    and ask: "rs_ask (qu_price q) (qu_spread_bps q) = Some ask" and coin: "rs_coin_out_for_usdc x ask = Some coin"
    and run: "execute_buy env a t q x coin c = Inr c'"
    unfolding desk_buy_def by (auto simp: result_simps)
  note qf = quote_facts [OF inv ok(2) t q]
  have "qu_price q \<le> ask" using ask_above [OF qf(4) _ ask] qf(2) by simp
  from coin_out_fair [OF qf(2) this _ coin] x have "coin * qu_price q \<le> x * rs_P" by simp
  from buy_effect [OF inv ok t q run this user] show "desk_effect c c'" .
next
  assume "desk_buy_exact_out env a x y c = Inr c'"
  then obtain t q ask usdc where t: "trade_context env a c = Inr t" and x: "0 < x" and q: "desk_quote env a t True c = Inr q"
    and ask: "rs_ask (qu_price q) (qu_spread_bps q) = Some ask" and usdc: "rs_usdc_in_for_coin x ask = Some usdc"
    and run: "execute_buy env a t q usdc x c = Inr c'"
    unfolding desk_buy_exact_out_def by (auto simp: result_simps)
  note qf = quote_facts [OF inv ok(2) t q]
  have "qu_price q \<le> ask" using ask_above [OF qf(4) _ ask] qf(2) by simp
  from usdc_in_fair [OF qf(2) this _ usdc] x have "x * qu_price q \<le> usdc * rs_P" by simp
  from buy_effect [OF inv ok t q run this user] show "desk_effect c c'" .
next
  assume "desk_sell env a x y c = Inr c'"
  then obtain t q bid usdc where t: "trade_context env a c = Inr t" and x: "0 < x" and q: "desk_quote env a t False c = Inr q"
    and bid: "rs_bid (qu_price q) (qu_spread_bps q) = Some bid" and usdc: "rs_usdc_out_for_coin x bid = Some usdc"
    and run: "execute_sell env a t q x usdc c = Inr c'"
    unfolding desk_sell_def by (auto simp: result_simps)
  note qf = quote_facts [OF inv ok(2) t q]
  have "0 \<le> bid \<and> bid \<le> qu_price q" using bid_below [OF qf(4) _ bid] qf(2) by simp
  then have "usdc * rs_P \<le> x * qu_price q" using usdc_out_fair [OF _ _ _ usdc] x by simp
  from sell_effect [OF inv ok t q run this user x] show "desk_effect c c'" .
qed

section \<open>The other instructions\<close>

lemma booked_log: "desk_emit e (desk_store k m (c\<lparr>dc_tokens := tk\<rparr>)) = c\<lparr>dc_tokens := tk, dc_commodities := (dc_commodities c)(k \<mapsto> m),
    dc_log := dc_log c @ (dc_clock c, e) # []\<rparr>"
  by (simp add: desk_emit_def desk_store_def)

lemma cached_same: "books_same m (m\<lparr>dm_reserve_balance_cached := v\<rparr>)" "commodity_typed m \<Longrightarrow> commodity_typed (m\<lparr>dm_reserve_balance_cached := v\<rparr>)"
  by (simp_all add: books_same_def commodity_typed_def)

lemma sweep_effect:
  assumes inv: "desk_inv c" and ok: "token_ok (de_tokens env)" and run: "sweep_spread_fees env a n c = Inr c'"
  shows "desk_effect c c'"
proof -
  let ?k = "sa_commodity a" and ?e = "EvSpreadFeesSwept (sa_commodity a) n (sa_treasury_usdc a)"
  from run obtain g m mint vault tk and vault2 :: token_account where
    g: "dc_config c = Some g" and m: "dc_commodities c ?k = Some m" and k: "dm_coin_mint m = sa_coin_mint a" "dm_reserve_vault m = sa_reserve_vault a"
    and mint: "tk_mints (dc_tokens c) (sa_coin_mint a) = Some mint" and vault: "desk_token c (sa_reserve_vault a) = Some vault"
    and n: "0 < n" "n \<le> ta_amount vault" and allowed: "sweep_allowed g m (mi_supply mint) (ta_amount vault - n) (dc_clock c) = Inr ()"
    and tk: "sp_transfer (de_tokens env) (sa_reserve_vault a) (sa_treasury_usdc a) ?k n (dc_tokens c) = Inr tk"
    and v: "token_at (tk_accounts tk) (sa_reserve_vault a) = Some vault2"
    and c': "c' = desk_emit ?e (desk_store ?k (m\<lparr>dm_reserve_balance_cached := ta_amount vault2\<rparr>) (c\<lparr>dc_tokens := tk\<rparr>))"
    unfolding sweep_spread_fees_def desk_commodity_def by atomize_elim (auto simp: result_simps)
  have b: "balance (dc_tokens c) (dm_reserve_vault m) = ta_amount vault" using token_balance [OF vault] k by simp
  have s: "coin_supply (dc_tokens c) (dm_coin_mint m) = mi_supply mint" using mint k by (simp add: coin_supply_def)
  have eff: "effect_ok c g ?k m (m\<lparr>dm_reserve_balance_cached := ta_amount vault2\<rparr>) ?e"
    using n allowed by (auto simp: b s cached_same sweep_allowed_def result_simps)
  have moved: "tokens_moved c ?k (net_usdc ?k ?e) (net_coin ?k ?e) tk"
    unfolding tokens_moved_def
  proof (intro conjI allI impI)
    show "same_accounts (dc_tokens c) tk" by (rule transferD(1) [OF ok tk])
    show "u64_tokens tk" by (rule transferD(2) [OF ok tk desk_invD(3) [OF inv]])
    fix k2 m2 assume m2: "dc_commodities c k2 = Some m2"
    have dv: "dm_reserve_vault m2 = sa_reserve_vault a \<longleftrightarrow> k2 = ?k" using vaults_distinct [OF inv m m2] m2 m k by auto
    show "balance (dc_tokens c) (dm_reserve_vault m2) + moved ?k (net_usdc ?k ?e) k2 \<le> balance tk (dm_reserve_vault m2)"
      using dv n(1) by (simp add: transferD(3) [OF ok tk] moved_def)
    show "coin_supply tk (dm_coin_mint m2) = coin_supply (dc_tokens c) (dm_coin_mint m2) + moved ?k (net_coin ?k ?e) k2"
      by (simp add: transferD(4) [OF ok tk] moved_def)
  qed
  show ?thesis
    unfolding c' booked_log by (rule desk_effect.moved [OF g m eff cached_same(2) [OF desk_invD(7) [OF inv m]] _ moved]) (simp_all add: k token_balance [OF v])
qed

lemma deposit_effect:
  assumes inv: "desk_inv c" and ok: "token_ok (de_tokens env)" and run: "deposit_reserve env a n c = Inr c'"
    and who: "dc_commodities c (ds_depositor a) = None"
  shows "desk_effect c c'"
proof -
  let ?k = "ds_commodity a" and ?e = "EvReserveDeposited (ds_commodity a) (ds_from a) n"
  from run obtain m src tk and vault2 :: token_account where
    m: "dc_commodities c ?k = Some m" and k: "dm_reserve_vault m = ds_reserve_vault a" and src: "desk_token c (ds_from a) = Some src"
    and own: "ta_owner src = ds_depositor a" and n: "0 < n"
    and tk: "sp_transfer (de_tokens env) (ds_from a) (ds_reserve_vault a) (ds_depositor a) n (dc_tokens c) = Inr tk"
    and v: "token_at (tk_accounts tk) (ds_reserve_vault a) = Some vault2"
    and c': "c' = desk_emit ?e (desk_store ?k (m\<lparr>dm_reserve_balance_cached := ta_amount vault2\<rparr>) (c\<lparr>dc_tokens := tk\<rparr>))"
    unfolding deposit_reserve_def desk_commodity_def by atomize_elim (auto simp: result_simps)
  obtain g where g: "dc_config c = Some g" using inv m by (cases "dc_config c") (auto simp: desk_inv_def)
  have own': "account_owner (dc_tokens c) (ds_from a) = Some (ds_depositor a)" using token_balance [OF src] own by simp
  have eff: "effect_ok c g ?k m (m\<lparr>dm_reserve_balance_cached := ta_amount vault2\<rparr>) ?e" using n by (simp add: cached_same)
  have moved: "tokens_moved c ?k (net_usdc ?k ?e) (net_coin ?k ?e) tk"
    unfolding tokens_moved_def
  proof (intro conjI allI impI)
    show "same_accounts (dc_tokens c) tk" by (rule transferD(1) [OF ok tk])
    show "u64_tokens tk" by (rule transferD(2) [OF ok tk desk_invD(3) [OF inv]])
    fix k2 m2 assume m2: "dc_commodities c k2 = Some m2"
    note apart = vault_apart [OF inv m2 own' who]
    have dv: "dm_reserve_vault m2 = ds_reserve_vault a \<longleftrightarrow> k2 = ?k" using vaults_distinct [OF inv m m2] m2 m k by auto
    show "balance (dc_tokens c) (dm_reserve_vault m2) + moved ?k (net_usdc ?k ?e) k2 \<le> balance tk (dm_reserve_vault m2)"
      using dv apart by (simp add: transferD(3) [OF ok tk] moved_def)
    show "coin_supply tk (dm_coin_mint m2) = coin_supply (dc_tokens c) (dm_coin_mint m2) + moved ?k (net_coin ?k ?e) k2"
      by (simp add: transferD(4) [OF ok tk] moved_def)
  qed
  show ?thesis
    unfolding c' booked_log by (rule desk_effect.moved [OF g m eff cached_same(2) [OF desk_invD(7) [OF inv m]] _ moved]) (simp_all add: k token_balance [OF v])
qed

lemma kept_refl: "desk_inv c \<Longrightarrow> rel_option commodity_kept (dc_commodities c k) (dc_commodities c k)"
  using desk_invD(7) [of c k] by (cases "dc_commodities c k") (auto simp: commodity_kept_def books_same_def)

lemma stored_effect:
  assumes inv: "desk_inv c" and m: "dc_commodities c k = Some m" "commodity_kept m m'" and e: "quiet_event e"
  shows "desk_effect c (desk_emit e (desk_store k m' c))"
  by (rule desk_effect.quiet [where es = "[(dc_clock c, e)]"])
    (use e m desk_invD(5) [OF inv] kept_refl [OF inv] in \<open>auto simp: desk_emit_def desk_store_def config_kept_def\<close>)

lemma config_effect:
  assumes inv: "desk_inv c" and g: "\<And>g0. dc_config c = Some g0 \<Longrightarrow> dg_reserve_warn_bps g = dg_reserve_warn_bps g0"
    and es: "list_all (quiet_event \<circ> snd) es"
  shows "desk_effect c (c\<lparr>dc_config := Some g, dc_log := dc_log c @ es\<rparr>)"
  by (rule desk_effect.quiet [where es = es])
    (use es g desk_invD(5) [OF inv] kept_refl [OF inv] in \<open>auto simp: config_kept_def\<close>)

lemma price_effect:
  assumes inv: "desk_inv c" and kp: "in_u64 (kp_price (snd kp))" "in_u64 (kp_conf (snd kp))" and e: "quiet_event e"
  shows "desk_effect c (desk_emit e (c\<lparr>dc_prices := (dc_prices c)(address \<mapsto> kp)\<rparr>))"
  by (rule desk_effect.quiet [where es = "[(dc_clock c, e)]"])
    (use e kp desk_invD(5) [OF inv] kept_refl [OF inv] in \<open>auto simp: desk_emit_def config_kept_def prices_ok_def\<close>)

lemma emit_config: "desk_emit e (c\<lparr>dc_config := Some g\<rparr>) = c\<lparr>dc_config := Some g, dc_log := dc_log c @ [(dc_clock c, e)]\<rparr>"
  by (simp add: desk_emit_def)

lemma config_effects:
  assumes inv: "desk_inv c"
  shows "initialize_config env ia x y z c = Inr c' \<Longrightarrow> desk_effect c c'" "desk_set_keepers who ks c = Inr c' \<Longrightarrow> desk_effect c c'"
    "propose_admin who k c = Inr c' \<Longrightarrow> desk_effect c c'" "accept_admin k c = Inr c' \<Longrightarrow> desk_effect c c'"
    "set_global_pause who b c = Inr c' \<Longrightarrow> desk_effect c c'" "set_redeem_cap_exempt who k c = Inr c' \<Longrightarrow> desk_effect c c'"
proof -
  show "initialize_config env ia x y z c = Inr c' \<Longrightarrow> desk_effect c c'"
    by (auto simp: initialize_config_def result_simps emit_config intro!: config_effect [OF inv])
  show "desk_set_keepers who ks c = Inr c' \<Longrightarrow> desk_effect c c'"
    by (auto simp: desk_set_keepers_def admin_config_def result_simps emit_config intro!: config_effect [OF inv])
  show "propose_admin who k c = Inr c' \<Longrightarrow> desk_effect c c'"
    by (auto simp: propose_admin_def admin_config_def result_simps emit_config intro!: config_effect [OF inv])
  show "accept_admin k c = Inr c' \<Longrightarrow> desk_effect c c'"
    by (auto simp: accept_admin_def result_simps emit_config intro!: config_effect [OF inv])
  show "set_global_pause who b c = Inr c' \<Longrightarrow> desk_effect c c'"
    by (auto simp: set_global_pause_def result_simps emit_config intro!: config_effect [OF inv])
  show "set_redeem_cap_exempt who k c = Inr c' \<Longrightarrow> desk_effect c c'"
  proof -
    assume "set_redeem_cap_exempt who k c = Inr c'"
    then obtain g where g: "dc_config c = Some g" "c' = c\<lparr>dc_config := Some (g\<lparr>dg_redeem_cap_exempt := k\<rparr>)\<rparr>"
      by (auto simp: set_redeem_cap_exempt_def admin_config_def result_simps)
    from config_effect [OF inv, of "g\<lparr>dg_redeem_cap_exempt := k\<rparr>" "[]"] g show "desk_effect c c'" by simp
  qed
qed

lemma given_in: "x \<in> set (opt_list [x']) \<longleftrightarrow> x' = Some x"
  by (cases x') (auto simp: opt_list_def List.map_filter_simps)

lemma opt_list_all: "list_all P (opt_list xs) \<longleftrightarrow> (\<forall>x. Some x \<in> set xs \<longrightarrow> P x)"
  by (induction xs) (auto simp: opt_list_def List.map_filter_simps split: option.splits)

lemma legs_weights: "check_legs k seen legs rest w c = Inr v \<Longrightarrow> \<forall>leg\<in>set legs. 0 \<le> il_weight_bps leg"
  by (induction k seen legs rest w c rule: check_legs.induct) (auto simp: result_simps)

lemma params_typed:
  assumes "commodity_typed m" "list_all in_u64 (desk_unsigned (SetCommodityParams who k r))"
  shows "commodity_typed (with_params r m)"
proof -
  have "0 \<le> given x old" if "0 \<le> old" "x \<in> {sr_base_spread_bps r, sr_closed_spread_bps r, sr_conf_mult_bps r}" for x and old :: int
    using assms(2) that by (auto simp: opt_list_all given_def in_u64_def split: option.splits)
  then show ?thesis using assms(1) by (simp add: commodity_typed_def with_params_def)
qed

lemma commodity_effects:
  assumes inv: "desk_inv c"
  shows "set_commodity_params env who k r c = Inr c' \<Longrightarrow> list_all in_u64 (desk_unsigned (SetCommodityParams who k r)) \<Longrightarrow> desk_effect c c'"
    "desk_set_feed_account env who k f fx c = Inr c' \<Longrightarrow> desk_effect c c'"
    "desk_set_status env who k s c = Inr c' \<Longrightarrow> desk_effect c c'"
    "clear_price_anchor env who k c = Inr c' \<Longrightarrow> desk_effect c c'"
    "set_index_legs env who k legs rest c = Inr c' \<Longrightarrow> desk_effect c c'"
proof -
  note ty = desk_invD(7) [OF inv]
  show "set_commodity_params env who k r c = Inr c' \<Longrightarrow> list_all in_u64 (desk_unsigned (SetCommodityParams who k r)) \<Longrightarrow> desk_effect c c'"
    by (auto simp: set_commodity_params_def update_commodity_def desk_commodity_Inr result_simps commodity_kept_def books_same_def
        intro!: stored_effect [OF inv] params_typed [OF ty] simp del: desk_unsigned.simps) (simp_all add: with_params_def)
  show "desk_set_feed_account env who k f fx c = Inr c' \<Longrightarrow> desk_effect c c'"
    using ty by (auto simp: desk_set_feed_account_def update_commodity_def desk_commodity_Inr result_simps commodity_kept_def books_same_def
        commodity_typed_def intro!: stored_effect [OF inv])
  show "desk_set_status env who k s c = Inr c' \<Longrightarrow> desk_effect c c'"
    using ty by (auto simp: desk_set_status_def update_commodity_def desk_commodity_Inr result_simps commodity_kept_def books_same_def
        commodity_typed_def intro!: stored_effect [OF inv])
  show "clear_price_anchor env who k c = Inr c' \<Longrightarrow> desk_effect c c'"
    using ty by (auto simp: clear_price_anchor_def update_commodity_def desk_commodity_Inr result_simps commodity_kept_def books_same_def
        commodity_typed_def intro!: stored_effect [OF inv])
  show "set_index_legs env who k legs rest c = Inr c' \<Longrightarrow> desk_effect c c'"
    using ty by (auto simp: set_index_legs_def update_commodity_def desk_commodity_Inr result_simps commodity_kept_def books_same_def
        commodity_typed_def intro!: stored_effect [OF inv] dest: legs_weights)
qed

lemma u64_zero: "in_u64 0"
  by (simp add: in_u64_def u64_max_def)

lemma create_effect:
  assumes inv: "desk_inv c" and run: "create_commodity env a args c = Inr c'"
    and typed: "list_all in_u64 (desk_unsigned (CreateCommodity a args))"
  shows "desk_effect c c'"
proof -
  let ?m = "new_commodity_account a args" and ?k = "ca_commodity a" and ?tk = "created_tokens env a (dc_tokens c)"
  let ?e = "EvCommodityCreated ?k (cc_symbol args) (ca_coin_mint a)"
  from run have g: "dc_config c \<noteq> None" and new: "dc_commodities c ?k = None" and mint: "tk_mints (dc_tokens c) (ca_coin_mint a) = None"
    and vault: "tk_accounts (dc_tokens c) (ca_reserve_vault a) = None"
    and c': "c' = desk_emit ?e (desk_store ?k ?m (c\<lparr>dc_tokens := ?tk\<rparr>))"
    unfolding create_commodity_def Let_def by (auto simp: result_simps)
  have m: "dm_coin_mint ?m = ca_coin_mint a" "dm_reserve_vault ?m = ca_reserve_vault a"
    "dm_last_price ?m = 0 \<and> dm_window_start ?m = 0 \<and> dm_window_minted ?m = 0" "dm_reserve_balance_cached ?m = 0"
    by (simp_all add: new_commodity_account_def)
  have ty: "commodity_typed ?m" using typed by (simp add: commodity_typed_def new_commodity_account_def u64_zero) (simp add: in_u64_def)
  have bal: "balance ?tk key = balance (dc_tokens c) key" for key
    using vault by (auto simp: balance_def created_tokens_def token_at_def)
  have sup: "coin_supply ?tk i = coin_supply (dc_tokens c) i" for i
    using mint by (auto simp: coin_supply_def created_tokens_def)
  have own: "account_owner ?tk key = Some w" if "account_owner (dc_tokens c) key = Some w" for key w
    using vault that by (auto simp: account_owner_def created_tokens_def token_at_def)
  show ?thesis
    unfolding c'
  proof (rule desk_effect.created [OF g new ty m(3,4)])
    show "tk_mints (dc_tokens c) (dm_coin_mint ?m) = None" "tk_mints ?tk (dm_coin_mint ?m) \<noteq> None"
      using mint by (simp_all add: m created_tokens_def)
    show "account_owner ?tk (dm_reserve_vault ?m) = Some ?k" by (simp add: m account_owner_def created_tokens_def token_at_def)
    show "u64_tokens ?tk" using desk_invD(3) [OF inv] by (simp add: u64_tokens_def bal sup)
    show "\<And>i. tk_mints (dc_tokens c) i \<noteq> None \<Longrightarrow> tk_mints ?tk i \<noteq> None" by (simp add: created_tokens_def)
  qed (use bal sup own in auto)
qed

lemma keeper_effects:
  assumes inv: "desk_inv c"
  shows "desk_keeper_update_price env u c = Inr c' \<Longrightarrow> list_all in_u64 (desk_unsigned (DeskKeeperUpdatePrice u)) \<Longrightarrow> desk_effect c c'"
    "desk_set_keeper_bounds env who k mv iv c = Inr c' \<Longrightarrow> desk_effect c c'"
proof -
  show "desk_keeper_update_price env u c = Inr c' \<Longrightarrow> list_all in_u64 (desk_unsigned (DeskKeeperUpdatePrice u)) \<Longrightarrow> desk_effect c c'"
    by (auto simp: desk_keeper_update_price_def Let_def result_simps simp del: fun_upd_apply intro!: price_effect [OF inv])
  show "desk_set_keeper_bounds env who k mv iv c = Inr c' \<Longrightarrow> desk_effect c c'"
    using desk_invD(5) [OF inv]
    by (auto simp: desk_set_keeper_bounds_def result_simps prices_ok_def simp del: fun_upd_apply intro!: price_effect [OF inv])
qed

lemma exec_effect:
  assumes "desk_inv c" "token_ok (de_tokens env)" "pyth_ok env" "desk_exec env ix c = Inr c'"
    "list_all in_u64 (desk_unsigned ix)" "list_all (\<lambda>s. dc_commodities c s = None) (desk_signers ix)"
  shows "desk_effect c c'"
  using assms
  by (cases ix) (auto simp del: desk_unsigned.simps intro: config_effects commodity_effects create_effect keeper_effects
      trade_effects sweep_effect deposit_effect)

lemma outside_inv:
  assumes inv: "desk_inv c" and ok: "outside_ok c now tk" "updates_ok us"
  shows "desk_inv (c\<lparr>dc_clock := now, dc_tokens := tk, dc_updates := us, dc_raw := raw\<rparr>)"
proof -
  let ?c = "c\<lparr>dc_clock := now, dc_tokens := tk, dc_updates := us, dc_raw := raw\<rparr>"
  have f: "dc_clock ?c = now" "dc_tokens ?c = tk" "dc_updates ?c = us" "dc_prices ?c = dc_prices c"
    "dc_config ?c = dc_config c" "dc_log ?c = dc_log c" "dc_commodities ?c = dc_commodities c"
    by simp_all
  have acc: "account_owner tk (dm_reserve_vault m) = Some k" "tk_mints tk (dm_coin_mint m) \<noteq> None"
    "balance (dc_tokens c) (dm_reserve_vault m) \<le> balance tk (dm_reserve_vault m)"
    "coin_supply tk (dm_coin_mint m) \<le> coin_supply (dc_tokens c) (dm_coin_mint m)" if "dc_commodities c k = Some m" for k m
    using ok(1) that unfolding outside_ok_def by blast+
  have books: "desk_ok g tk now (dc_log c) k m" if "dc_commodities c k = Some m" "dc_config c = Some g" for k m g
    using desk_ok_outside [OF desk_invD(11) [OF inv that] acc(3,4) [OF that(1)]] ok(1) by (simp add: outside_ok_def)
  show ?thesis
    unfolding desk_inv_def f
  proof (intro conjI allI impI)
    fix k k2 m m2 assume "dc_commodities c k = Some m \<and> dc_commodities c k2 = Some m2 \<and> dm_coin_mint m = dm_coin_mint m2"
    then show "k = k2" using desk_invD(10) [OF inv, of k m k2 m2] by simp
  next
    fix k m g assume "dc_commodities c k = Some m \<and> dc_config c = Some g"
    then show "desk_ok g tk now (dc_log c) k m" using books by blast
  next
    show "dc_config c = None \<Longrightarrow> dc_commodities c = Map.empty" using inv by (simp add: desk_inv_def)
    show "0 \<le> now" "now \<le> I64_MAX" "u64_tokens tk" using ok(1) desk_invD(1) [OF inv] by (auto simp: outside_ok_def)
  qed (use acc ok(2) desk_invD(5,6,7) [OF inv] in blast)+
qed

lemma reachable_inv:
  assumes "desk_reachable env c" "token_ok (de_tokens env)" "pyth_ok env"
  shows "desk_inv c"
  using assms
proof (induction rule: desk_reachable.induct)
  case (start c)
  then show ?case by (simp add: desk_inv_def prices_ok_def untouched_def)
next
  case (step c c')
  then have inv: "desk_inv c" by simp
  from step.hyps(2) show ?case
  proof cases
    case (run ix)
    then show ?thesis using effect_keeps_inv [OF exec_effect [OF inv step.prems] inv] by blast
  next
    case (outside now tk us raw)
    then show ?thesis using outside_inv [OF inv] by blast
  qed
qed

lemma reachable_cached:
  assumes "desk_reachable env c" "token_ok (de_tokens env)" "pyth_ok env"
  shows "cached_ok c"
  using assms
proof (induction rule: desk_reachable.induct)
  case (start c)
  then show ?case by (simp add: cached_ok_def)
next
  case (step c c')
  then have ok: "cached_ok c" and inv: "desk_inv c" using reachable_inv by auto
  from step.hyps(2) show ?case
  proof cases
    case (run ix)
    then show ?thesis using effect_keeps_cached [OF exec_effect [OF inv step.prems] inv ok] by blast
  next
    case (outside now tk us raw)
    then show ?thesis using cached_okD [OF ok] by (fastforce simp: cached_ok_def outside_ok_def)
  qed
qed

section \<open>Properties\<close>

text \<open>
  C7: on every chain the program can reach, the vault of a commodity holds at least what its events
  say, no more coins exist than they say, and a commodity that has only ever been traded at one
  price is fully backed at it, whatever the order of trades, sweeps, deposits, donations and
  administration, provided the warning ratio is at least 100 percent.
\<close>

theorem desk_backed:
  assumes "token_ok (de_tokens env)" "pyth_ok env" "desk_reachable env c" "dc_commodities c k = Some m" "dc_config c = Some g"
  shows "book_usdc k (dc_log c) \<le> balance (dc_tokens c) (dm_reserve_vault m) \<and>
    coin_supply (dc_tokens c) (dm_coin_mint m) \<le> book_coin k (dc_log c) \<and>
    (10000 \<le> dg_reserve_warn_bps g \<and> 0 \<le> p \<and> one_price k p (dc_log c) \<longrightarrow>
       coin_supply (dc_tokens c) (dm_coin_mint m) * p \<le> balance (dc_tokens c) (dm_reserve_vault m) * rs_P)"
  using desk_invD(11) [OF reachable_inv [OF assms(3,1,2)] assms(4,5)] unfolding desk_ok_def by blast

text \<open>
  C8: the daily mint cap bounds the net issue.  After a buy of a commodity with a cap, the coins
  bought less the coins sold since its window opened, less than a day ago, stay within the cap, no
  matter how the trades are split among users and transactions.
\<close>

theorem net_mint_capped:
  assumes ok: "token_ok (de_tokens env)" "pyth_ok env" and r: "desk_reachable env c" and m: "dc_commodities c (tr_commodity a) = Some m"
    and cap: "0 < dm_daily_mint_cap m" and user: "dc_commodities c (tr_user a) = None"
    and buy: "desk_buy env a x y c = Inr c' \<or> desk_buy_exact_out env a x y c = Inr c'"
  shows "\<exists>m'. dc_commodities c' (tr_commodity a) = Some m' \<and> dc_clock c' - dm_window_start m' < DAILY_WINDOW_SECS \<and>
    minted_since (tr_commodity a) (dm_window_start m') (dc_log c') \<le> dm_daily_mint_cap m"
proof -
  let ?k = "tr_commodity a"
  note inv = reachable_inv [OF r ok]
  from buy obtain t q usdc coin where t: "trade_context env a c = Inr t" and q: "desk_quote env a t True c = Inr q"
    and run: "execute_buy env a t q usdc coin c = Inr c'"
    unfolding desk_buy_def desk_buy_exact_out_def by (auto simp: result_simps)
  have tm: "tc_commodity t = m" using context_facts(2) [OF t] m by simp
  from execute_buyD [OF run] obtain w tk1 tk2 and vault :: token_account where
    w: "window_add (dm_window_start m) (dm_window_minted m) (qu_now q) DAILY_WINDOW_SECS (dm_daily_mint_cap m) coin = Some w"
    and c': "c' = alert ?k (rs_reserve_ratio_bps (tc_reserve t + usdc) (tc_supply t + coin) (qu_price q)) (dg_reserve_warn_bps (tc_config t))
      (desk_emit (EvTrade ?k (tr_user a) SIDE_BUY usdc coin (qu_price q) (qu_spread_bps q)) (desk_store ?k (after_trade q (ta_amount vault)
        (m\<lparr>dm_window_start := fst w, dm_window_minted := snd w,
        dm_window_redeemed := window_release (if fst w \<noteq> dm_window_start m then 0 else dm_window_redeemed m) usdc\<rparr>)) (c\<lparr>dc_tokens := tk2\<rparr>)))"
    unfolding tm by blast
  have "desk_effect c c'" using buy trade_effects [OF inv ok user] by blast
  then have inv': "desk_inv c'" using inv by (rule effect_keeps_inv)
  obtain m' where m': "dc_commodities c' ?k = Some m'" "dm_window_start m' = fst w" "dm_window_minted m' = snd w" "dc_clock c' = dc_clock c"
    "dc_config c' = dc_config c"
    unfolding c' alert_log by simp
  note f = context_facts [OF t]
  have "desk_ok (tc_config t) (dc_tokens c') (dc_clock c') (dc_log c') ?k m'"
    by (rule desk_invD(11) [OF inv' m'(1)]) (simp add: m'(5) f(1))
  then have "minted_since ?k (dm_window_start m') (dc_log c') \<le> snd w" unfolding desk_ok_def m'(3) by blast
  moreover have "snd w \<le> dm_daily_mint_cap m"
    using w cap by (auto simp: window_add_def Let_def split: if_splits)
  moreover have "dc_clock c' - dm_window_start m' < DAILY_WINDOW_SECS"
    using window_add_Some(1) [OF w [unfolded quote_facts(1) [OF inv ok(2) t q]] window_known(1,2) [OF inv m f(1)] desk_invD(2) [OF inv]]
    by (simp add: m' DAILY_WINDOW_SECS_def split: if_splits)
  ultimately show ?thesis using m'(1) by fastforce
qed

section \<open>Instances\<close>

text \<open>A token program that keeps its documented effects.\<close>

definition set_amount :: "bytes \<Rightarrow> int \<Rightarrow> token_state \<Rightarrow> token_state" where
  "set_amount key v tk = (case tk_accounts tk key of None \<Rightarrow> tk | Some ac \<Rightarrow> (case ac_token ac of None \<Rightarrow> tk
     | Some t \<Rightarrow> tk\<lparr>tk_accounts := (tk_accounts tk)(key \<mapsto> ac\<lparr>ac_token := Some (t\<lparr>ta_amount := v\<rparr>)\<rparr>)\<rparr>))"

definition set_supply :: "bytes \<Rightarrow> int \<Rightarrow> token_state \<Rightarrow> token_state" where
  "set_supply mint v tk = (case tk_mints tk mint of None \<Rightarrow> tk
     | Some m \<Rightarrow> tk\<lparr>tk_mints := (tk_mints tk)(mint \<mapsto> m\<lparr>mi_supply := v\<rparr>)\<rparr>)"

definition demo_tokens :: token_program where
  "demo_tokens = \<lparr>
     sp_transfer = (\<lambda>src dst auth n tk. if token_at (tk_accounts tk) src = None \<or> token_at (tk_accounts tk) dst = None \<or> src = dst \<or>
        account_owner tk src \<noteq> Some auth \<or> n < 0 \<or> balance tk src < n \<or> u64_max < balance tk dst + n then Inl ''InsufficientFunds''
        else Inr (set_amount dst (balance tk dst + n) (set_amount src (balance tk src - n) tk))),
     sp_mint_to = (\<lambda>mint dst auth n tk. if token_at (tk_accounts tk) dst = None \<or> tk_mints tk mint = None \<or> n < 0 \<or>
        u64_max < balance tk dst + n \<or> u64_max < coin_supply tk mint + n then Inl ''Overflow''
        else Inr (set_supply mint (coin_supply tk mint + n) (set_amount dst (balance tk dst + n) tk))),
     sp_burn = (\<lambda>mint src auth n tk. if token_at (tk_accounts tk) src = None \<or> tk_mints tk mint = None \<or> n < 0 \<or>
        balance tk src < n \<or> coin_supply tk mint < n then Inl ''InsufficientFunds''
        else Inr (set_supply mint (coin_supply tk mint - n) (set_amount src (balance tk src - n) tk)))\<rparr>"

lemma set_amount_simps [simp]:
  "balance (set_amount key v tk) x = (if x = key \<and> token_at (tk_accounts tk) key \<noteq> None then v else balance tk x)"
  "account_owner (set_amount key v tk) x = account_owner tk x" "coin_supply (set_amount key v tk) i = coin_supply tk i"
  "tk_mints (set_amount key v tk) = tk_mints tk"
  "(token_at (tk_accounts (set_amount key v tk)) x = None) = (token_at (tk_accounts tk) x = None)"
  by (auto simp: set_amount_def balance_def account_owner_def coin_supply_def token_at_def split: option.splits)

lemma set_supply_simps [simp]:
  "balance (set_supply i v tk) x = balance tk x" "account_owner (set_supply i v tk) x = account_owner tk x"
  "coin_supply (set_supply i v tk) j = (if j = i \<and> tk_mints tk i \<noteq> None then v else coin_supply tk j)"
  "(tk_mints (set_supply i v tk) j = None) = (tk_mints tk j = None)"
  by (auto simp: set_supply_def balance_def account_owner_def coin_supply_def split: option.splits)

lemma less_taken: "(x::int) \<le> u \<Longrightarrow> \<not> n < 0 \<Longrightarrow> x - n \<le> u"
  by simp

lemma demo_tokens_ok: "token_ok demo_tokens"
  by (auto intro: less_taken simp: token_ok_def demo_tokens_def same_accounts_def u64_tokens_def moved_def in_u64_def split: if_splits)

definition demo_desk :: desk_env where
  "demo_desk = \<lparr>de_w3 = \<lparr>w3_find = (\<lambda>seeds prog. (concat seeds, 255)), w3_key = (\<lambda>s. None), w3_text = (\<lambda>b. [])\<rparr>,
     de_program = [7], de_tokens = demo_tokens, de_pyth = (\<lambda>u now age fid level. Some (raw_of u)),
     de_metaplex = (\<lambda>mint name sym uri. Inr ())\<rparr>"

lemma demo_pyth_ok: "pyth_ok demo_desk"
  by (simp add: pyth_ok_def demo_desk_def)

definition new_holding :: "bytes \<Rightarrow> bytes \<Rightarrow> int \<Rightarrow> account" where
  "new_holding mint own n = \<lparr>ac_program = [9], ac_token = Some \<lparr>ta_mint = mint, ta_owner = own, ta_amount = n\<rparr>\<rparr>"

text \<open>A user \<open>[5]\<close> with 100 USDC (mint \<open>[1]\<close>) and an empty account for the coin \<open>[2]\<close>.\<close>

definition demo_start :: desk_chain where
  "demo_start = \<lparr>dc_clock = 1800000000, dc_config = None, dc_commodities = Map.empty, dc_prices = Map.empty, dc_updates = Map.empty,
     dc_raw = [[7] \<mapsto> ([1], [])], dc_tokens = \<lparr>tk_accounts = [[5, 1] \<mapsto> new_holding [1] [5] 100000000, [5, 2] \<mapsto> new_holding [2] [5] 0],
       tk_mints = [[1] \<mapsto> \<lparr>mi_supply = 100000000, mi_decimals = 6\<rparr>]\<rparr>, dc_log = []\<rparr>"

definition demo_symbol :: bytes where "demo_symbol = [71, 76, 68, 0, 0, 0, 0, 0, 0, 0, 0, 0]"
definition desk_key :: bytes where "desk_key = commodity_address demo_desk demo_symbol"

definition desk_args :: CreateCommodityArgs where
  "desk_args = \<lparr>cc_symbol = demo_symbol, cc_oracle_kind = 2, cc_session_kind = 0, cc_feed_id = [], cc_feed_account = [],
     cc_fx_feed_id = [], cc_fx_feed_account = [], cc_quote_scale = 0, cc_base_spread_bps = 20, cc_closed_spread_bps = 150,
     cc_conf_mult_bps = 100, cc_max_age_open = 60, cc_max_age_closed = 3600, cc_supply_cap = 1000000000000, cc_per_tx_cap = 1000000000,
     cc_pyth_min_signatures = 0, cc_name = ''Gold'', cc_uri = []\<rparr>"

definition no_params :: SetParamsArgs where
  "no_params = \<lparr>sr_session_kind = None, sr_feed_id = None, sr_fx_feed_id = None, sr_quote_scale = None, sr_base_spread_bps = None,
     sr_closed_spread_bps = None, sr_conf_mult_bps = None, sr_max_age_open = None, sr_max_age_closed = None, sr_supply_cap = None,
     sr_per_tx_cap = None, sr_pyth_min_signatures = None, sr_daily_mint_cap = None, sr_daily_redeem_cap = None,
     sr_max_deviation_bps = None, sr_deviation_window_secs = None\<rparr>"

definition demo_trade :: TradeAccounts where
  "demo_trade = \<lparr>tr_user = [5], tr_commodity = desk_key, tr_coin_mint = [2], tr_reserve_vault = reserve_address demo_desk desk_key,
     tr_user_usdc = [5, 1], tr_user_coin = [5, 2],
     tr_oracle = \<lparr>oc_price_feed = None, oc_fx_feed = None, oc_keeper_price = Some (price_address demo_desk desk_key), oc_remaining = []\<rparr>\<rparr>"

definition demo_setup :: "desk_ix list" where
  "demo_setup = [InitializeConfig \<lparr>ia_payer = [3], ia_program = [7], ia_program_data = [], ia_reserve_mint = [1], ia_treasury = [4]\<rparr> 200 10200 9800,
     DeskSetKeepers [3] [[6]],
     CreateCommodity \<lparr>ca_admin = [3], ca_reserve_mint = [1], ca_commodity = desk_key, ca_coin_mint = [2],
       ca_reserve_vault = reserve_address demo_desk desk_key\<rparr> desk_args,
     SetCommodityParams [3] desk_key (no_params\<lparr>sr_daily_mint_cap := Some 50000000\<rparr>),
     DeskKeeperUpdatePrice \<lparr>ku_keeper = [6], ku_commodity = desk_key, ku_price = 200000000, ku_conf = 0, ku_publish_time = 1800000000,
       ku_source_hash = []\<rparr>]"

text \<open>A run that checks what a step asks of an instruction.\<close>

fun run_ixs :: "desk_env \<Rightarrow> desk_ix list \<Rightarrow> desk_chain \<Rightarrow> string + desk_chain" where
  "run_ixs env [] c = Inr c"
| "run_ixs env (ix # ixs) c = sbind (require (list_all in_u64 (desk_unsigned ix) \<and>
     list_all (\<lambda>s. dc_commodities c s = None) (desk_signers ix)) ''not a step'') (\<lambda>_. sbind (desk_exec env ix c) (run_ixs env ixs))"

lemma run_reachable: "run_ixs env ixs c = Inr c' \<Longrightarrow> desk_reachable env c \<Longrightarrow> desk_reachable env c'"
proof (induction ixs arbitrary: c)
  case (Cons ix ixs)
  then obtain c1 where ix: "list_all in_u64 (desk_unsigned ix)" "list_all (\<lambda>s. dc_commodities c s = None) (desk_signers ix)"
    "desk_exec env ix c = Inr c1" "run_ixs env ixs c1 = Inr c'"
    by (auto simp: result_simps)
  have "desk_reachable env c1" by (rule desk_reachable.step [OF Cons.prems(2) desk_step.run [OF ix(3,1,2)]])
  then show ?case by (rule Cons.IH [OF ix(4)])
qed simp

lemma demo_start_reachable: "desk_reachable demo_desk demo_start"
  by (rule desk_reachable.start) (auto simp: demo_start_def u64_tokens_def balance_def coin_supply_def token_at_def new_holding_def
      in_u64_def u64_max_def updates_ok_def I64_MAX_def)

definition demo_end :: "string + desk_chain" where
  "demo_end = run_ixs demo_desk (demo_setup @ [Buy demo_trade 10000000 0]) demo_start"

lemma demo_desk_ok: "token_ok (de_tokens demo_desk)" "pyth_ok demo_desk"
  using demo_tokens_ok demo_pyth_ok by (simp_all add: demo_desk_def)

text \<open>Ten dollars buy 4.99002 coins at 2 dollars with the spread of 20 basis points.\<close>

theorem desk_backed_witness:
  "\<exists>c m. demo_end = Inr c \<and> dc_commodities c desk_key = Some m \<and> 0 < coin_supply (dc_tokens c) (dm_coin_mint m) \<and>
    coin_supply (dc_tokens c) (dm_coin_mint m) * 200000000 \<le> balance (dc_tokens c) (dm_reserve_vault m) * rs_P"
proof -
  have run: "case demo_end of Inl e \<Rightarrow> False | Inr c \<Rightarrow> (case (dc_commodities c desk_key, dc_config c) of (Some m, Some g) \<Rightarrow>
      dg_reserve_warn_bps g = 10200 \<and> 0 < coin_supply (dc_tokens c) (dm_coin_mint m) \<and> one_price desk_key 200000000 (dc_log c) | _ \<Rightarrow> False)"
    by code_simp
  then obtain c m g where c: "demo_end = Inr c" and m: "dc_commodities c desk_key = Some m" "dc_config c = Some g"
    and p: "dg_reserve_warn_bps g = 10200" "0 < coin_supply (dc_tokens c) (dm_coin_mint m)" "one_price desk_key 200000000 (dc_log c)"
    by (auto split: sum.splits option.splits)
  have "desk_reachable demo_desk c" using c run_reachable [OF _ demo_start_reachable] by (simp add: demo_end_def)
  from desk_backed [OF demo_desk_ok this m, of 200000000] show ?thesis using c m p by auto
qed

theorem net_mint_capped_witness:
  "\<exists>c c'. run_ixs demo_desk demo_setup demo_start = Inr c \<and> desk_buy demo_desk demo_trade 10000000 0 c = Inr c' \<and>
    (\<exists>m'. dc_commodities c' desk_key = Some m' \<and> minted_since desk_key (dm_window_start m') (dc_log c') \<le> 50000000)"
proof -
  have run: "case run_ixs demo_desk demo_setup demo_start of Inl e \<Rightarrow> False | Inr c \<Rightarrow> (case dc_commodities c desk_key of Some m \<Rightarrow>
      dm_daily_mint_cap m = 50000000 \<and> dc_commodities c [5] = None \<and>
      (case desk_buy demo_desk demo_trade 10000000 0 c of Inl e \<Rightarrow> False | Inr c' \<Rightarrow> True) | _ \<Rightarrow> False)"
    by code_simp
  then obtain c m c' where c: "run_ixs demo_desk demo_setup demo_start = Inr c" and m: "dc_commodities c desk_key = Some m"
    and p: "dm_daily_mint_cap m = 50000000" "dc_commodities c [5] = None" and buy: "desk_buy demo_desk demo_trade 10000000 0 c = Inr c'"
    by (auto split: sum.splits option.splits)
  have r: "desk_reachable demo_desk c" by (rule run_reachable [OF c demo_start_reachable])
  have tr: "tr_commodity demo_trade = desk_key" "tr_user demo_trade = [5]" by (simp_all add: demo_trade_def)
  from net_mint_capped [OF demo_desk_ok r, of demo_trade m 10000000 0 c'] show ?thesis using c m p buy by (auto simp: tr)
qed

end
