(* ===== verification/Desk_View.thy ===== *)
theory Desk_View
  imports Desk_Run
begin

text \<open>
  The keeper's view of \<^verbatim>\<open>peg_desk\<close>: theory \<open>PegChain\<close>, over which the keeper's cycles are proved,
  keeps of the program's state what the keeper's four instructions read and write.  The full model
  refines it: a function from its chains to the keeper's commutes with every one of them.
\<close>

definition view_commodity :: "DeskCommodity \<Rightarrow> PegCommodity" where
  "view_commodity m = \<lparr>pg_oracle_kind = dm_oracle_kind m,
     pg_status = (case Status_from_u8 (dm_status m) of None \<Rightarrow> StHalted | Some s \<Rightarrow> s),
     pg_feed_account = dm_feed_account m, pg_fx_feed_account = dm_fx_feed_account m\<rparr>"

definition view_config :: "DeskConfig option \<Rightarrow> GlobalConfig" where
  "view_config g = (case g of None \<Rightarrow> \<lparr>gl_admin = [], gl_keepers = []\<rparr>
     | Some g \<Rightarrow> \<lparr>gl_admin = dg_admin g, gl_keepers = dg_keepers g\<rparr>)"

definition keeper_view :: "desk_env \<Rightarrow> desk_chain \<Rightarrow> peg_chain" where
  "keeper_view env c = \<lparr>pd_config = view_config (dc_config c),
     pd_commodities = (\<lambda>k. map_option view_commodity (dc_commodities c k)),
     pd_prices = (\<lambda>k. map_option snd (dc_prices c (price_address env k))), pd_clock = dc_clock c\<rparr>"

fun desk_of :: "peg_ix \<Rightarrow> desk_ix option" where
  "desk_of (SetStatus who k s) = Some (DeskSetStatus who k s)"
| "desk_of (SetFeedAccount who k f fx) = Some (DeskSetFeedAccount who k f fx)"
| "desk_of (KeeperUpdatePrice a) = Some (DeskKeeperUpdatePrice a)"
| "desk_of (SetKeeperBounds who k mv iv) = Some (DeskSetKeeperBounds who k mv iv)"
| "desk_of (ForeignIx data) = None"

text \<open>
  What every instruction of the program maintains of the accounts the keeper looks at: they are at
  their addresses, a status is one of the three, times are times of the validator's clock.
\<close>

definition kept_price :: "desk_chain \<Rightarrow> bytes \<Rightarrow> bytes \<times> KeeperPrice \<Rightarrow> bool" where
  "kept_price c k kp \<longleftrightarrow> fst kp = k \<and> 0 \<le> kp_last_update_ts (snd kp) \<and> kp_last_update_ts (snd kp) \<le> dc_clock c"

definition viewable :: "desk_env \<Rightarrow> desk_chain \<Rightarrow> bool" where
  "viewable env c \<longleftrightarrow> dc_config c \<noteq> None \<and> 0 \<le> dc_clock c \<and> dc_clock c \<le> I64_MAX - MAX_FUTURE_SKEW_SECS \<and>
     (\<forall>k m. dc_commodities c k = Some m \<longrightarrow> k = commodity_address env (dm_symbol m) \<and> Status_from_u8 (dm_status m) \<noteq> None) \<and>
     (\<forall>k kp. dc_prices c (price_address env k) = Some kp \<longrightarrow> kept_price c k kp)"

lemma view_emit [simp]: "keeper_view env (desk_emit e c) = keeper_view env c" "viewable env (desk_emit e c) = viewable env c"
  by (simp_all add: keeper_view_def desk_emit_def viewable_def kept_price_def)

lemma view_store: "keeper_view env (desk_store k m c) = put_commodity k (view_commodity m) (keeper_view env c)"
  by (auto simp: keeper_view_def desk_store_def put_commodity_def)

lemma viewable_store: "viewable env c \<Longrightarrow> k = commodity_address env (dm_symbol m) \<Longrightarrow> Status_from_u8 (dm_status m) \<noteq> None \<Longrightarrow>
    viewable env (desk_store k m c)"
  by (auto simp: viewable_def desk_store_def kept_price_def)

lemma view_fields: "pd_commodities (keeper_view env c) k = map_option view_commodity (dc_commodities c k)" "pd_clock (keeper_view env c) = dc_clock c"
  "pd_prices (keeper_view env c) k = map_option snd (dc_prices c (price_address env k))"
  by (simp_all add: keeper_view_def)

lemma view_roles: "dc_config c = Some g \<Longrightarrow> is_admin (pd_config (keeper_view env c)) who = desk_admin g who \<and>
    is_keeper (pd_config (keeper_view env c)) who = desk_keeper g who"
  by (simp add: keeper_view_def view_config_def is_admin_def is_keeper_def desk_admin_def desk_keeper_def)

lemma view_price:
  assumes "inj (price_address env)"
  shows "keeper_view env (c\<lparr>dc_prices := (dc_prices c)(price_address env k \<mapsto> (k', kp))\<rparr>) =
    (keeper_view env c)\<lparr>pd_prices := (pd_prices (keeper_view env c))(k \<mapsto> kp)\<rparr>"
  using assms by (auto simp: keeper_view_def fun_eq_iff inj_eq)

lemma viewable_price:
  assumes v: "viewable env c" and inj: "inj (price_address env)" and kp: "kept_price c k kp"
  shows "viewable env (c\<lparr>dc_prices := (dc_prices c)(price_address env k \<mapsto> kp)\<rparr>)"
  using v kp inj by (auto simp: viewable_def kept_price_def inj_eq)

text \<open>The result of an instruction, seen by the keeper.\<close>

definition seen :: "desk_env \<Rightarrow> string + desk_chain \<Rightarrow> string + peg_chain" where
  "seen env r = (case r of Inl e \<Rightarrow> Inl e | Inr c \<Rightarrow> Inr (keeper_view env c))"

lemma seen_sbind: "seen env (sbind r f) = sbind r (\<lambda>x. seen env (f x))"
  by (cases r) (simp_all add: seen_def)

lemma seen_Inr: "seen env (Inr c) = Inr (keeper_view env c)" "seen env (Inl e) = Inl e"
  by (simp_all add: seen_def)

lemma view_update_commodity:
  assumes "viewable env c"
  shows "update_commodity env k c = sbind (some_or (dc_commodities c k) ''AccountNotInitialized'') (\<lambda>m. Inr (the (dc_config c), m))"
  using assms by (auto simp: update_commodity_def desk_commodity_def viewable_def some_or_def require_def split: option.splits)

lemma view_some: "some_or (map_option f x) e = sbind (some_or x e) (\<lambda>a. Inr (f a))"
  by (cases x) (simp_all add: some_or_def)

lemma sbind_assoc: "sbind (sbind r f) g = sbind r (\<lambda>x. sbind (f x) g)"
  by (cases r) simp_all

lemma sbind_cong_Inr: "(\<And>x. r = Inr x \<Longrightarrow> f x = g x) \<Longrightarrow> sbind r f = sbind r g"
  by (cases r) simp_all

lemma status_view:
  assumes v: "viewable env c"
  shows "seen env (desk_set_status env who k s c) = set_status who k s (keeper_view env c)"
proof -
  obtain g where g: "dc_config c = Some g" using v by (auto simp: viewable_def)
  show ?thesis
  proof (cases "dc_commodities c k")
    case None
    then show ?thesis
      unfolding desk_set_status_def set_status_def view_update_commodity [OF v]
      by (simp add: seen_Inr view_fields some_or_def)
  next
    case (Some m)
    then have "Status_from_u8 (dm_status m) \<noteq> None" using v unfolding viewable_def by blast
    then obtain st where st: "Status_from_u8 (dm_status m) = Some st" by blast
    have r: "some_or (Status_from_u8 s) ''InvalidStatus'' = (case Status_from_u8 s of None \<Rightarrow> Inl ''InvalidStatus'' | Some new \<Rightarrow> Inr new)"
      by (simp add: some_or_def)
    show ?thesis
      unfolding desk_set_status_def set_status_def view_update_commodity [OF v] r
      by (cases "Status_from_u8 s")
        (simp_all add: seen_Inr seen_sbind view_fields Some some_or_def g view_roles [OF g] st view_store view_commodity_def)
  qed
qed

lemma feed_view:
  assumes v: "viewable env c"
  shows "seen env (desk_set_feed_account env who k f fx c) = set_feed_account who k f fx (keeper_view env c)"
proof -
  obtain g where g: "dc_config c = Some g" using v by (auto simp: viewable_def)
  show ?thesis
    unfolding desk_set_feed_account_def set_feed_account_def view_update_commodity [OF v] require_admin_or_keeper_def
    by (cases "dc_commodities c k")
      (simp_all add: seen_Inr seen_sbind view_fields some_or_def g view_roles [OF g] view_store view_commodity_def)
qed

lemma bounds_view:
  assumes v: "viewable env c" and inj: "inj (price_address env)"
  shows "seen env (desk_set_keeper_bounds env who k mv iv c) = set_keeper_bounds who k mv iv (keeper_view env c)"
proof -
  obtain g where g: "dc_config c = Some g" using v by (auto simp: viewable_def)
  show ?thesis
    unfolding desk_set_keeper_bounds_def set_keeper_bounds_def view_update_commodity [OF v] require_admin_def
    by (cases "dc_commodities c k"; cases "dc_prices c (price_address env k)")
      (simp_all add: seen_Inr seen_sbind view_fields some_or_def g view_roles [OF g] view_price [OF inj] DESK_BPS_def)
qed

lemma update_view:
  assumes v: "viewable env c" and inj: "inj (price_address env)"
  shows "seen env (desk_keeper_update_price env a c) = keeper_update_price a (keeper_view env c)"
proof -
  let ?k = "ku_commodity a"
  obtain g where g: "dc_config c = Some g" using v by (auto simp: viewable_def)
  have sat: "saturating_i64 (dc_clock c + MAX_FUTURE_SKEW_SECS) = dc_clock c + MAX_FUTURE_SKEW_SECS"
    using v by (simp add: viewable_def saturating_i64_def I64_MAX_def MAX_FUTURE_SKEW_SECS_def)
  let ?kp = "case dc_prices c (price_address env ?k) of None \<Rightarrow> fresh_price | Some kp \<Rightarrow> snd kp"
  have load: "(case dc_prices c (price_address env ?k) of None \<Rightarrow> Inr fresh_price
      | Some kp \<Rightarrow> sbind (require (fst kp = ?k) ''InvalidFeed'') (\<lambda>_. Inr (snd kp))) = Inr ?kp"
    using v by (auto simp: viewable_def kept_price_def require_def split: option.splits)
  have acc: "price_account ?k (keeper_view env c) = ?kp" by (auto simp: price_account_def view_fields split: option.splits)
  have space: "saturating_i64 (dc_clock c - kp_last_update_ts ?kp) = dc_clock c - kp_last_update_ts ?kp"
  proof -
    have "0 \<le> kp_last_update_ts ?kp" using v by (auto simp: viewable_def kept_price_def fresh_price_def split: option.splits)
    moreover have "kp_last_update_ts ?kp \<le> dc_clock c" using v by (auto simp: viewable_def kept_price_def fresh_price_def split: option.splits)
    ultimately show ?thesis using v by (simp add: viewable_def saturating_i64_def I64_MAX_def MAX_FUTURE_SKEW_SECS_def)
  qed
  have checks: "(if kp_publish_time ?kp \<noteq> 0 then sbind (require (ku_publish_time a > kp_publish_time ?kp) ''OracleNotMonotonic'')
        (\<lambda>_. require (dc_clock c - kp_last_update_ts ?kp \<ge> max 1 (kp_min_interval ?kp)) ''TooSoon'') else Inr ()) =
      sbind (require (kp_publish_time ?kp = 0 \<or> ku_publish_time a > kp_publish_time ?kp) ''OracleNotMonotonic'') (\<lambda>_.
        require (kp_publish_time ?kp = 0 \<or> spacing_ok ?kp (dc_clock c)) ''TooSoon'')"
    by (simp add: require_def spacing_ok_def)
  have move: "(kp_price ?kp > 0 \<longrightarrow> \<bar>ku_price a - kp_price ?kp\<bar> * DESK_BPS div kp_price ?kp \<le> kp_max_move_bps ?kp) = move_ok ?kp (ku_price a)"
    by (auto simp: move_ok_def DESK_BPS_def)
  show ?thesis
  proof (cases "dc_commodities c ?k")
    case None
    then show ?thesis unfolding desk_keeper_update_price_def keeper_update_price_def Let_def view_update_commodity [OF v]
      by (simp add: seen_Inr view_fields some_or_def)
  next
    case (Some m)
    have m: "some_or (pd_commodities (keeper_view env c) ?k) ''AccountNotInitialized'' = Inr (view_commodity m)"
      "update_commodity env ?k c = Inr (g, m)"
      unfolding view_update_commodity [OF v] by (simp_all add: view_fields Some some_or_def g)
    show ?thesis
      unfolding desk_keeper_update_price_def keeper_update_price_def Let_def m sat load
      by (simp only: sbind.simps prod.case space checks move acc seen_sbind seen_Inr sbind_assoc view_emit view_price [OF inj]
          view_fields(2) view_roles [OF g] view_commodity_def PegCommodity.simps conj_commute [of "0 \<le> _"])
  qed
qed


text \<open>An open commodity halted by the administrator.\<close>

definition view_demo :: desk_chain where
  "view_demo = demo_start\<lparr>dc_config := Some \<lparr>dg_admin = [3], dg_pending_admin = [], dg_keepers = [[6]], dg_treasury = [4],
     dg_reserve_mint = [1], dg_global_pause = False, dg_max_conf_bps = 200, dg_reserve_warn_bps = 10200, dg_reserve_halt_bps = 9800,
     dg_redeem_cap_exempt = []\<rparr>, dc_commodities := [desk_key \<mapsto> new_commodity_account
       \<lparr>ca_admin = [3], ca_reserve_mint = [1], ca_commodity = desk_key, ca_coin_mint = [2], ca_reserve_vault = [8]\<rparr> desk_args]\<rparr>"

lemma view_demo_viewable: "viewable demo_desk view_demo"
  by (auto simp: viewable_def view_demo_def demo_start_def I64_MAX_def MAX_FUTURE_SKEW_SECS_def new_commodity_account_def desk_args_def
      desk_key_def STATUS_OPEN_def Status_from_u8_def split: if_splits)

lemma demo_prices_inj: "inj (price_address demo_desk)"
  by (rule injI) (simp add: price_address_def demo_desk_def)


end
