(* ===== verification/Spec2Isabelle.thy ===== *)
theory Spec2Isabelle
  imports PricingRust Payout_Progress Oracle Fees Candles Backfill Desk_View
begin

text \<open>
  A verification development of the pegged-commodity launchpad: its TypeScript SDK
  (\<^verbatim>\<open>packages/sdk\<close>), keeper (\<^verbatim>\<open>apps/keeper\<close>) and indexer (\<^verbatim>\<open>apps/indexer\<close>).
\<close>

end
